(* ===== verification/Prelude.thy ===== *)
theory Prelude
  imports Complex_Main "HOL-Library.Sublist"
begin

text \<open>
  The vocabulary every component of the development shares.

  \<^item> Bytes. A Python \<open>bytes\<close> value is a list of HOL characters: a \<open>char\<close> of Isabelle/HOL has
    eight bits, so \<open>of_char\<close> and \<open>char_of\<close> translate between a byte and its number, and a
    literal such as \<open>''BOOT_OK''\<close> is the byte string it looks like.
  \<^item> Text. A Python \<open>str\<close> is a list of code points (numbers), lone surrogates included;
    \<open>lit\<close> turns an ASCII literal into such a string.
  \<^item> Objects. \<open>pyval\<close> holds the dynamically typed values that come out of JSON, TOML or an
    unvalidated argument; a dictionary is an association list in insertion order.
  \<^item> Exceptions. Every \<open>raise\<close> of the code is a value of \<open>exc\<close>, one constructor for each
    exception class, and a fallible function returns \<open>exc + 'a\<close>. Fixed message texts are
    kept (in shortened form where the code interpolates values); the numbers and names the
    exception object stores are constructor arguments.
\<close>

named_theorems result_simps \<open>unfolding of the result combinators\<close>
named_theorems check_simps \<open>when a chain of checks succeeds\<close>
named_theorems raises_intros \<open>which exceptions a computation can raise\<close>
named_theorems slice_simps \<open>slices of concatenated byte strings\<close>

section \<open>Bytes and text\<close>

type_synonym bytes = "char list"
type_synonym ustr = "nat list"

abbreviation nl :: char where "nl \<equiv> CHR 0x0A"
abbreviation cr :: char where "cr \<equiv> CHR 0x0D"

definition lit :: "string \<Rightarrow> ustr" where
  "lit s = map of_char s"

lemma lit_eq_iff [simp]: "lit s = lit t \<longleftrightarrow> s = t"
proof -
  have "inj (of_char :: char \<Rightarrow> nat)"
    by (rule injI) (metis of_char_eq_iff)
  then show ?thesis by (simp add: lit_def inj_map_eq_map)
qed

lemma lit_eq_Nil_iff [simp]: "lit s = [] \<longleftrightarrow> s = []"
  by (simp add: lit_def)

lemma length_lit [simp]: "length (lit s) = length s"
  by (simp add: lit_def)

subsection \<open>Searching: \<open>bytes.find\<close> and the \<open>in\<close> operator\<close>

text \<open>\<open>find_at pat xs i\<close> is the least position of \<open>pat\<close> in \<open>xs\<close>, counted from \<open>i\<close>.\<close>

fun find_at :: "'a list \<Rightarrow> 'a list \<Rightarrow> nat \<Rightarrow> nat option" where
  "find_at pat [] i = (if pat = [] then Some i else None)"
| "find_at pat (x # xs) i =
     (if prefix pat (x # xs) then Some i else find_at pat xs (Suc i))"

definition bytes_find :: "bytes \<Rightarrow> bytes \<Rightarrow> nat \<Rightarrow> nat option" where
  "bytes_find data pat start =
     (if start \<le> length data then find_at pat (drop start data) start else None)"

definition slice :: "'a list \<Rightarrow> nat \<Rightarrow> nat \<Rightarrow> 'a list" where
  "slice xs i j = take (j - i) (drop i xs)"

lemma length_slice [simp]: "j \<le> length xs \<Longrightarrow> length (slice xs i j) = j - i"
  by (simp add: slice_def)

lemma slice_whole [simp]: "slice xs 0 (length xs) = xs"
  by (simp add: slice_def)

lemma slice_append_left [slice_simps]: "j \<le> length xs \<Longrightarrow> slice (xs @ ys) i j = slice xs i j"
  by (simp add: slice_def)

lemma slice_append_right [slice_simps]:
  "length xs \<le> i \<Longrightarrow> slice (xs @ ys) i j = slice ys (i - length xs) (j - length xs)"
  by (simp add: slice_def)

lemma slice_append_across [slice_simps]:
  assumes "i \<le> length xs" and "length xs \<le> j"
  shows "slice (xs @ ys) i j = drop i xs @ take (j - length xs) ys"
  using assms by (simp add: slice_def)

lemma find_at_Some:
  "find_at pat xs i = Some k \<Longrightarrow>
     i \<le> k \<and> prefix pat (drop (k - i) xs) \<and> k - i + length pat \<le> length xs"
proof (induction pat xs i rule: find_at.induct)
  case (1 pat i)
  then show ?case by (simp split: if_splits)
next
  case (2 pat x xs i)
  show ?case
  proof (cases "prefix pat (x # xs)")
    case True
    with "2.prems" show ?thesis
      by (auto simp: prefix_length_le)
         (metis length_Cons prefix_length_le)
  next
    case False
    with "2.prems" have "find_at pat xs (Suc i) = Some k" by simp
    from "2.IH" [OF False this]
    have le: "Suc i \<le> k" and p: "prefix pat (drop (k - Suc i) xs)"
        and l: "k - Suc i + length pat \<le> length xs"
      by blast+
    from le have k: "k - i = Suc (k - Suc i)" by arith
    from l have "k - i + length pat \<le> length (x # xs)" unfolding k by simp
    with le p show ?thesis unfolding k by simp
  qed
qed

lemma find_at_least:
  "find_at pat xs i = Some k \<Longrightarrow> i + j < k \<Longrightarrow> \<not> prefix pat (drop j xs)"
proof (induction pat xs i arbitrary: j rule: find_at.induct)
  case (1 pat i)
  then show ?case by (simp split: if_splits)
next
  case (2 pat x xs i)
  then have np: "\<not> prefix pat (x # xs)" and f: "find_at pat xs (Suc i) = Some k"
    by (auto split: if_splits)
  show ?case
  proof (cases j)
    case 0
    with np show ?thesis by simp
  next
    case (Suc m)
    with "2.IH" [OF np f, of m] "2.prems" show ?thesis by simp
  qed
qed

lemma find_at_None: "find_at pat xs i = None \<longleftrightarrow> \<not> sublist pat xs"
  by (induction pat xs i rule: find_at.induct) (auto simp: sublist_Cons_right)

lemma find_at_shift: "find_at pat xs (i + j) = map_option ((+) j) (find_at pat xs i)"
proof (induction xs arbitrary: i)
  case (Cons x xs)
  have "find_at pat xs (Suc i + j) = map_option ((+) j) (find_at pat xs (Suc i))"
    by (rule Cons.IH)
  then show ?case by (simp add: add.commute [of _ j])
qed (simp add: add.commute)

lemma bytes_find_slice:
  assumes "bytes_find data pat start = Some k"
  shows "start \<le> k" and "k + length pat \<le> length data"
    and "slice data k (k + length pat) = pat"
proof -
  from assms have le: "start \<le> length data" and f: "find_at pat (drop start data) start = Some k"
    by (auto simp: bytes_find_def split: if_splits)
  from find_at_Some [OF f] le
  show "start \<le> k" and "k + length pat \<le> length data" by auto
  from find_at_Some [OF f] have "prefix pat (drop (k - start) (drop start data))" by blast
  with \<open>start \<le> k\<close> have "prefix pat (drop k data)" by simp
  then show "slice data k (k + length pat) = pat"
    by (auto simp: slice_def prefix_def)
qed

lemma bytes_find_least:
  assumes "bytes_find data pat start = Some k" and "start \<le> j" and "j < k"
  shows "\<not> prefix pat (drop j data)"
proof -
  from assms(1) have f: "find_at pat (drop start data) start = Some k"
    by (auto simp: bytes_find_def split: if_splits)
  from find_at_least [OF f, of "j - start"] assms(2,3) show ?thesis by simp
qed

lemma bytes_find_None_iff:
  "start \<le> length data \<Longrightarrow> bytes_find data pat start = None \<longleftrightarrow> \<not> sublist pat (drop start data)"
  by (simp add: bytes_find_def find_at_None)

text \<open>The search for one byte, the form every line splitter uses.\<close>

lemma find_at_single_None: "find_at [c] xs i = None \<longleftrightarrow> c \<notin> set xs"
  by (induction xs arbitrary: i) auto

lemma find_at_single_split:
  "c \<notin> set xs \<Longrightarrow> find_at [c] (xs @ c # ys) i = Some (i + length xs)"
  by (induction xs arbitrary: i) auto

section \<open>Dynamically typed values\<close>

datatype pyfloat = FFin rat | FInf | FNegInf | FNan

datatype pyval =
    PNone
  | PBool bool
  | PInt int
  | PFloat pyfloat
  | PStr ustr
  | PBytes bytes
  | PList "pyval list"
  | PDict "(ustr \<times> pyval) list"
  | PObject

text \<open>\<open>PObject\<close> is any other hashable object, for example a date read from TOML.\<close>

fun py_is_str :: "pyval \<Rightarrow> bool" where
  "py_is_str (PStr _) = True"
| "py_is_str _ = False"

fun py_is_bool :: "pyval \<Rightarrow> bool" where
  "py_is_bool (PBool _) = True"
| "py_is_bool _ = False"

text \<open>\<open>isinstance(v, int) and not isinstance(v, bool)\<close>: \<open>bool\<close> is a subclass of \<open>int\<close>.\<close>

fun py_is_int :: "pyval \<Rightarrow> bool" where
  "py_is_int (PInt _) = True"
| "py_is_int _ = False"

type_synonym pydict = "(ustr \<times> pyval) list"

definition dict_keys :: "('k \<times> 'v) list \<Rightarrow> 'k list" where
  "dict_keys d = map fst d"

text \<open>Storing under a key keeps the key's position when it is already present.\<close>

fun dict_set :: "('k \<times> 'v) list \<Rightarrow> 'k \<Rightarrow> 'v \<Rightarrow> ('k \<times> 'v) list" where
  "dict_set [] k v = [(k, v)]"
| "dict_set ((k', v') # d) k v =
     (if k' = k then (k, v) # d else (k', v') # dict_set d k v)"

definition dict_pop :: "('k \<times> 'v) list \<Rightarrow> 'k \<Rightarrow> ('k \<times> 'v) list" where
  "dict_pop d k = filter (\<lambda>e. fst e \<noteq> k) d"

lemma map_of_dict_set [simp]: "map_of (dict_set d k v) = (map_of d)(k \<mapsto> v)"
  by (induction d k v rule: dict_set.induct) auto

lemma map_of_dict_pop [simp]: "map_of (dict_pop d k) = (map_of d)(k := None)"
  by (induction d) (auto simp: dict_pop_def)

lemma dict_keys_dict_set:
  "dict_keys (dict_set d k v) = (if k \<in> set (dict_keys d) then dict_keys d else dict_keys d @ [k])"
  by (induction d k v rule: dict_set.induct) (auto simp: dict_keys_def)

lemma dict_keys_dict_pop: "dict_keys (dict_pop d k) = filter (\<lambda>k'. k' \<noteq> k) (dict_keys d)"
  by (simp add: dict_keys_def dict_pop_def filter_map comp_def)

lemma dict_set_new: "k \<notin> set (dict_keys d) \<Longrightarrow> dict_set d k v = d @ [(k, v)]"
  by (induction d k v rule: dict_set.induct) (auto simp: dict_keys_def)

lemma distinct_dict_set [intro]: "distinct (dict_keys d) \<Longrightarrow> distinct (dict_keys (dict_set d k v))"
  by (simp add: dict_keys_dict_set)

lemma distinct_dict_pop [intro]: "distinct (dict_keys d) \<Longrightarrow> distinct (dict_keys (dict_pop d k))"
  by (simp add: dict_keys_dict_pop)

lemma map_of_eq_None_dict: "map_of d k = None \<longleftrightarrow> k \<notin> set (dict_keys d)"
  by (simp add: dict_keys_def map_of_eq_None_iff)

text \<open>\<open>d.get(key)\<close> and \<open>d[key] = v\<close>, for a literal key.\<close>

definition dict_get :: "string \<Rightarrow> pydict \<Rightarrow> pyval" where
  "dict_get key d = (case map_of d (lit key) of None \<Rightarrow> PNone | Some v \<Rightarrow> v)"

definition dict_put :: "string \<Rightarrow> pyval \<Rightarrow> pydict \<Rightarrow> pydict" where
  "dict_put key v d = dict_set d (lit key) v"

lemma dict_get_put [simp]: "dict_get k (dict_put k' v d) = (if k = k' then v else dict_get k d)"
  by (simp add: dict_get_def dict_put_def)

lemma dict_get_Nil [simp]: "dict_get k [] = PNone"
  by (simp add: dict_get_def)

lemma dict_get_Cons [simp]: "dict_get k ((lit k', v) # d) = (if k = k' then v else dict_get k d)"
  by (simp add: dict_get_def)

section \<open>Exceptions and results\<close>

datatype id_reason = InvalidType | InvalidLength | EdgeWhitespace | ControlCharacter

datatype exc =
    TypeError string
  | ValueError string
  | OverflowError
  | RuntimeError string
  | RecursionError
  | UnicodeEncodeError
  | UnicodeDecodeError
  | JSONDecodeError
  | InputValidationError string
  | UartSendValidationError string "nat option"
  | GpioIdentifierValidationError string id_reason "nat option"
  | FrameTooLargeError nat nat
  | MalformedMessageError string
  | InvalidUtf8Error string
  | ProtocolValidationError string
  | HostCommandFrameTooLargeError nat nat
  | ProtocolVersionError int
  | UnsupportedMessageTypeError ustr
  | GpioConfigError string
  | GpioConfigurationError ustr "ustr option" "ustr option" "ustr option"
  | DeviceControlError ustr ustr
  | DutProfileError string
  | DeviceActionError ustr ustr
  | UartSendError ustr ustr pydict
  | BackendWriteError ustr "int option" ustr
  | BackendInputError ustr ustr "ustr option" "ustr option" "int option" "int option"
  | BackendDisconnectedError string
  | BackendCapabilityError string
  | BackendOpenError bool
  | TransportWriteError ustr int ustr
  | TransportTimeoutError
  | ConnectionLifecycleError ustr "ustr option"
  | DeviceCoreRuntimeError string
  | OSError string
  | KeyError
  | BaselineError ustr ustr "ustr option" "ustr option" "int option"
  | SessionRecoveryError string
  | SessionPersistenceError string bool
  | SessionQueryError ustr "int option"
  | SessionComparisonError ustr "ustr option" "ustr option" "int option"
  | EvidenceQuotaExceeded
  | EvidenceCursorExpired

text \<open>The class hierarchy, as the \<open>except\<close> clauses of the code consult it.\<close>

fun is_protocol_error :: "exc \<Rightarrow> bool" where
  "is_protocol_error (FrameTooLargeError _ _) = True"
| "is_protocol_error (MalformedMessageError _) = True"
| "is_protocol_error (InvalidUtf8Error _) = True"
| "is_protocol_error (ProtocolValidationError _) = True"
| "is_protocol_error (HostCommandFrameTooLargeError _ _) = True"
| "is_protocol_error (ProtocolVersionError _) = True"
| "is_protocol_error (UnsupportedMessageTypeError _) = True"
| "is_protocol_error _ = False"

fun is_value_error :: "exc \<Rightarrow> bool" where
  "is_value_error (ValueError _) = True"
| "is_value_error UnicodeEncodeError = True"
| "is_value_error UnicodeDecodeError = True"
| "is_value_error JSONDecodeError = True"
| "is_value_error (InputValidationError _) = True"
| "is_value_error (UartSendValidationError _ _) = True"
| "is_value_error (GpioIdentifierValidationError _ _ _) = True"
| "is_value_error (GpioConfigError _) = True"
| "is_value_error (DutProfileError _) = True"
| "is_value_error EvidenceCursorExpired = True"
| "is_value_error e = is_protocol_error e"

fun is_runtime_error :: "exc \<Rightarrow> bool" where
  "is_runtime_error (RuntimeError _) = True"
| "is_runtime_error RecursionError = True"
| "is_runtime_error (GpioConfigurationError _ _ _ _) = True"
| "is_runtime_error (DeviceControlError _ _) = True"
| "is_runtime_error (DeviceActionError _ _) = True"
| "is_runtime_error (UartSendError _ _ _) = True"
| "is_runtime_error (BackendWriteError _ _ _) = True"
| "is_runtime_error (BackendInputError _ _ _ _ _ _) = True"
| "is_runtime_error (BackendDisconnectedError _) = True"
| "is_runtime_error (BackendCapabilityError _) = True"
| "is_runtime_error (BackendOpenError _) = True"
| "is_runtime_error (TransportWriteError _ _ _) = True"
| "is_runtime_error TransportTimeoutError = True"
| "is_runtime_error (ConnectionLifecycleError _ _) = True"
| "is_runtime_error (DeviceCoreRuntimeError _) = True"
| "is_runtime_error (BaselineError _ _ _ _ _) = True"
| "is_runtime_error (SessionRecoveryError _) = True"
| "is_runtime_error (SessionPersistenceError _ _) = True"
| "is_runtime_error (SessionQueryError _ _) = True"
| "is_runtime_error (SessionComparisonError _ _ _ _) = True"
| "is_runtime_error EvidenceQuotaExceeded = True"
| "is_runtime_error _ = False"

definition bind_r :: "'e + 'a \<Rightarrow> ('a \<Rightarrow> 'e + 'b) \<Rightarrow> 'e + 'b" where
  "bind_r m f = (case m of Inl e \<Rightarrow> Inl e | Inr a \<Rightarrow> f a)"

definition catch_r :: "('e \<Rightarrow> bool) \<Rightarrow> ('e \<Rightarrow> 'e) \<Rightarrow> 'e + 'a \<Rightarrow> 'e + 'a" where
  "catch_r p f m = (case m of Inl e \<Rightarrow> Inl (if p e then f e else e) | Inr a \<Rightarrow> Inr a)"

fun map_r :: "('a \<Rightarrow> 'e + 'b) \<Rightarrow> 'a list \<Rightarrow> 'e + 'b list" where
  "map_r f [] = Inr []"
| "map_r f (x # xs) = bind_r (f x) (\<lambda>y. bind_r (map_r f xs) (\<lambda>ys. Inr (y # ys)))"

lemma bind_r_Inl [simp]: "bind_r (Inl e) f = Inl e"
  by (simp add: bind_r_def)

lemma bind_r_Inr [simp]: "bind_r (Inr a) f = f a"
  by (simp add: bind_r_def)

lemma catch_r_simps [simp]:
  "catch_r p f (Inl e) = Inl (if p e then f e else e)"
  "catch_r p f (Inr a) = Inr a"
  by (simp_all add: catch_r_def)

lemma bind_r_eq_Inr [result_simps]: "bind_r m f = Inr b \<longleftrightarrow> (\<exists>a. m = Inr a \<and> f a = Inr b)"
  by (cases m) auto

lemma bind_r_eq_Inl [result_simps]:
  "bind_r m f = Inl e \<longleftrightarrow> m = Inl e \<or> (\<exists>a. m = Inr a \<and> f a = Inl e)"
  by (cases m) auto

lemma catch_r_eq_Inr [result_simps]: "catch_r p f m = Inr a \<longleftrightarrow> m = Inr a"
  by (cases m) auto

text \<open>A value that has to be of one kind.\<close>

lemma case_pyval_Inr [result_simps]:
  "(case v of PStr s \<Rightarrow> f s | _ \<Rightarrow> Inl e) = Inr x \<longleftrightarrow> (\<exists>s. v = PStr s \<and> f s = Inr x)"
  "(case v of PInt i \<Rightarrow> g i | _ \<Rightarrow> Inl e) = Inr x \<longleftrightarrow> (\<exists>i. v = PInt i \<and> g i = Inr x)"
  "(case v of PList vs \<Rightarrow> h vs | _ \<Rightarrow> Inl e) = Inr x \<longleftrightarrow> (\<exists>vs. v = PList vs \<and> h vs = Inr x)"
  "(case v of PDict m \<Rightarrow> k m | _ \<Rightarrow> Inl e) = Inr x \<longleftrightarrow> (\<exists>m. v = PDict m \<and> k m = Inr x)"
  "(case v of PBytes b \<Rightarrow> l b | _ \<Rightarrow> Inl e) = Inr x \<longleftrightarrow> (\<exists>b. v = PBytes b \<and> l b = Inr x)"
  by (cases v; simp)+

text \<open>Guards: a failing branch first, and an optional value that has to be there.\<close>

lemma guard_Inr [check_simps]:
  "(if P then Inl e else r) = Inr x \<longleftrightarrow> \<not> P \<and> r = Inr x"
  "(if P then r else Inl e) = Inr x \<longleftrightarrow> P \<and> r = Inr x"
  by auto

lemma case_option_Inr [check_simps]:
  "(case a of None \<Rightarrow> Inl e | Some y \<Rightarrow> f y) = Inr x \<longleftrightarrow> (\<exists>y. a = Some y \<and> f y = Inr x)"
  by (cases a) auto

text \<open>Which exceptions a computation can raise, composed along its structure.\<close>

definition raises_only :: "('e \<Rightarrow> bool) \<Rightarrow> 'e + 'a \<Rightarrow> bool" where
  "raises_only P m \<longleftrightarrow> (\<forall>e. m = Inl e \<longrightarrow> P e)"

lemma raises_only_simps [simp]: "raises_only P (Inr a)" "raises_only P (Inl e) \<longleftrightarrow> P e"
  by (simp_all add: raises_only_def)

lemma raises_onlyD: "raises_only P m \<Longrightarrow> m = Inl e \<Longrightarrow> P e"
  by (simp add: raises_only_def)

lemma raises_only_bind [raises_intros]:
  "raises_only P m \<Longrightarrow> (\<And>a. m = Inr a \<Longrightarrow> raises_only P (f a)) \<Longrightarrow> raises_only P (bind_r m f)"
  by (cases m) simp_all

lemma raises_only_catch [raises_intros]:
  "raises_only (\<lambda>e. P (if p e then f e else e)) m \<Longrightarrow> raises_only P (catch_r p f m)"
  by (cases m) simp_all

lemma raises_only_if [raises_intros]:
  "(c \<Longrightarrow> raises_only P m) \<Longrightarrow> (\<not> c \<Longrightarrow> raises_only P m') \<Longrightarrow> raises_only P (if c then m else m')"
  by simp

lemma raises_only_option [raises_intros]:
  "(v = None \<Longrightarrow> raises_only P m) \<Longrightarrow> (\<And>a. v = Some a \<Longrightarrow> raises_only P (f a))
     \<Longrightarrow> raises_only P (case v of None \<Rightarrow> m | Some a \<Rightarrow> f a)"
  by (cases v) simp_all

lemma raises_only_prod [raises_intros]:
  "(\<And>a b. v = (a, b) \<Longrightarrow> raises_only P (f a b)) \<Longrightarrow> raises_only P (case v of (a, b) \<Rightarrow> f a b)"
  by (cases v) simp

lemma raises_only_mono: "raises_only P m \<Longrightarrow> (\<And>e. P e \<Longrightarrow> Q e) \<Longrightarrow> raises_only Q m"
  by (simp add: raises_only_def)

lemma map_r_Inr_length: "map_r f xs = Inr ys \<Longrightarrow> length ys = length xs"
  by (induction xs arbitrary: ys) (auto simp: result_simps)

lemma map_r_append:
  "map_r f (xs @ ys) = bind_r (map_r f xs) (\<lambda>as. bind_r (map_r f ys) (\<lambda>bs. Inr (as @ bs)))"
proof (induction xs)
  case Nil
  then show ?case by (cases "map_r f ys") auto
next
  case (Cons x xs)
  then show ?case
    by (cases "f x"; cases "map_r f xs"; cases "map_r f ys") auto
qed

end
