(* ===== verification/Codecs.thy ===== *)
theory Codecs
  imports Prelude
begin

text \<open>
  The two encodings of the Python standard library that the program's contracts are stated in.

  \<^item> UTF-8: \<open>str.encode("utf-8")\<close>, \<open>bytes.decode("utf-8")\<close> and
    \<open>bytes.decode("utf-8", errors="replace")\<close>. The two decoders share \<open>utf8_next\<close>, which
    reads one code point or one maximal ill-formed piece; the strict decoder fails on such a
    piece and the replacing decoder puts U+FFFD for it.
  \<^item> Base64: \<open>b64encode\<close> and \<open>b64decode(..., validate=True)\<close>. The decoder is the strict
    scan of CPython's \<open>binascii.a2b_base64\<close> (3.11): quads, padding and their errors.

  The lemmas give the round trips, the self-synchronisation of UTF-8 (an encoded text is found
  again inside any byte string that contains it) and the length arithmetic of base64.
\<close>

section \<open>A codec interface\<close>

text \<open>
  What the protocol layer relies on: encoding succeeds on a set of values and decoding gives the
  value back.
\<close>

locale codec =
  fixes enc :: "'a \<Rightarrow> 'b option"
    and dec :: "'b \<Rightarrow> 'a option"
  assumes dec_enc: "enc x = Some y \<Longrightarrow> dec y = Some x"
begin

lemma enc_inj:
  assumes "enc x = Some y" and "enc x' = Some y"
  shows "x = x'"
  using dec_enc [OF assms(1)] dec_enc [OF assms(2)] by simp

lemma dec_image: "enc x = Some y \<Longrightarrow> y \<in> {y. \<exists>x. dec y = Some x}"
  using dec_enc by blast

end

section \<open>UTF-8\<close>

definition is_surrogate :: "nat \<Rightarrow> bool" where
  "is_surrogate c \<longleftrightarrow> 0xD800 \<le> c \<and> c \<le> 0xDFFF"

definition utf8_encode_cp :: "nat \<Rightarrow> bytes option" where
  "utf8_encode_cp c =
     (if c < 0x80 then Some [char_of c]
      else if c < 0x800 then Some [char_of (0xC0 + c div 64), char_of (0x80 + c mod 64)]
      else if is_surrogate c then None
      else if c < 0x10000 then
        Some [char_of (0xE0 + c div 4096), char_of (0x80 + c div 64 mod 64),
              char_of (0x80 + c mod 64)]
      else if c < 0x110000 then
        Some [char_of (0xF0 + c div 262144), char_of (0x80 + c div 4096 mod 64),
              char_of (0x80 + c div 64 mod 64), char_of (0x80 + c mod 64)]
      else None)"

fun utf8_encode :: "ustr \<Rightarrow> bytes option" where
  "utf8_encode [] = Some []"
| "utf8_encode (c # cs) =
     (case utf8_encode_cp c of
        None \<Rightarrow> None
      | Some b \<Rightarrow> map_option ((@) b) (utf8_encode cs))"

definition cont :: "char \<Rightarrow> bool" where
  "cont c \<longleftrightarrow> 0x80 \<le> (of_char c :: nat) \<and> (of_char c :: nat) < 0xC0"

definition second_ok :: "nat \<Rightarrow> char \<Rightarrow> bool" where
  "second_ok n0 c =
     (let n = (of_char c :: nat) in
      cont c \<and> (n0 = 0xE0 \<longrightarrow> 0xA0 \<le> n) \<and> (n0 = 0xED \<longrightarrow> n < 0xA0)
      \<and> (n0 = 0xF0 \<longrightarrow> 0x90 \<le> n) \<and> (n0 = 0xF4 \<longrightarrow> n < 0x90))"

text \<open>
  \<open>utf8_next b bs\<close> reads from \<open>b # bs\<close>: the code point, or \<open>None\<close> for a maximal ill-formed
  piece, and the number of bytes it takes after \<open>b\<close>.
\<close>

definition low6 :: "char \<Rightarrow> nat" where
  "low6 c = of_char c - 0x80"

fun utf8_next :: "char \<Rightarrow> bytes \<Rightarrow> nat option \<times> nat" where
  "utf8_next b0 bs =
     (let n0 = (of_char b0 :: nat) in
      if n0 < 0x80 then (Some n0, 0)
      else if n0 < 0xC2 then (None, 0)
      else if n0 < 0xE0 then
        (case bs of
           b1 # _ \<Rightarrow> if cont b1 then (Some ((n0 - 0xC0) * 64 + low6 b1), 1) else (None, 0)
         | [] \<Rightarrow> (None, 0))
      else if n0 < 0xF0 then
        (case bs of
           [] \<Rightarrow> (None, 0)
         | [b1] \<Rightarrow> (None, if second_ok n0 b1 then 1 else 0)
         | b1 # b2 # _ \<Rightarrow>
             if \<not> second_ok n0 b1 then (None, 0)
             else if \<not> cont b2 then (None, 1)
             else (Some ((n0 - 0xE0) * 4096 + low6 b1 * 64 + low6 b2), 2))
      else if n0 < 0xF5 then
        (case bs of
           [] \<Rightarrow> (None, 0)
         | [b1] \<Rightarrow> (None, if second_ok n0 b1 then 1 else 0)
         | [b1, b2] \<Rightarrow>
             (None, if \<not> second_ok n0 b1 then 0 else if \<not> cont b2 then 1 else 2)
         | b1 # b2 # b3 # _ \<Rightarrow>
             if \<not> second_ok n0 b1 then (None, 0)
             else if \<not> cont b2 then (None, 1)
             else if \<not> cont b3 then (None, 2)
             else (Some ((n0 - 0xF0) * 262144 + low6 b1 * 4096 + low6 b2 * 64 + low6 b3), 3))
      else (None, 0))"

declare utf8_next.simps [simp del]

function utf8_units :: "bytes \<Rightarrow> nat option list" where
  "utf8_units [] = []"
| "utf8_units (b # bs) =
     (case utf8_next b bs of (u, k) \<Rightarrow> u # utf8_units (drop k bs))"
  by pat_completeness auto
termination
  by (relation "measure length") auto

definition utf8_decode :: "bytes \<Rightarrow> ustr option" where
  "utf8_decode b =
     (let us = utf8_units b in if None \<in> set us then None else Some (map the us))"

definition utf8_decode_replace :: "bytes \<Rightarrow> ustr" where
  "utf8_decode_replace b = map (\<lambda>u. case u of None \<Rightarrow> 0xFFFD | Some c \<Rightarrow> c) (utf8_units b)"

subsection \<open>Encoding then decoding\<close>

lemma of_char_of: "n < 256 \<Longrightarrow> of_char (char_of n) = (n :: nat)"
  by simp

lemma utf8_next_encode:
  assumes "utf8_encode_cp c = Some e"
  shows "\<exists>b bs. e = b # bs \<and> \<not> cont b \<and> utf8_next b (bs @ rest) = (Some c, length bs)"
proof -
  consider (one) "c < 0x80" | (two) "0x80 \<le> c" "c < 0x800"
    | (three) "0x800 \<le> c" "c < 0x10000" "\<not> is_surrogate c"
    | (four) "0x10000 \<le> c" "c < 0x110000"
    using assms by (auto simp: utf8_encode_cp_def is_surrogate_def split: if_splits)
  then show ?thesis
  proof cases
    case one
    with assms show ?thesis
      by (auto simp: utf8_encode_cp_def utf8_next.simps cont_def)
  next
    case two
    define a where "a = c div 64"
    define r where "r = c mod 64"
    have d: "c = a * 64 + r" unfolding a_def r_def by presburger
    have bd: "2 \<le> a" "a < 32" "r < 64" using two unfolding a_def r_def by auto
    have e: "e = [char_of (0xC0 + a), char_of (0x80 + r)]"
      using assms two unfolding a_def r_def by (auto simp: utf8_encode_cp_def)
    show ?thesis
      unfolding e using bd d
      by (auto simp: utf8_next.simps cont_def low6_def Let_def)
  next
    case three
    define a where "a = c div 4096"
    define b where "b = c div 64 mod 64"
    define r where "r = c mod 64"
    have "c div 4096 = c div 64 div 64" by (simp add: div_mult2_eq [symmetric])
    then have d: "c = a * 4096 + b * 64 + r"
      using div_mult_mod_eq [of c 64] div_mult_mod_eq [of "c div 64" 64]
      unfolding a_def b_def r_def by linarith
    have bd: "a < 16" "b < 64" "r < 64" using three unfolding a_def b_def r_def by auto
    have e0: "a = 0 \<Longrightarrow> 32 \<le> b" using three d bd by auto
    have ed: "a = 13 \<Longrightarrow> b < 32" using three d bd by (auto simp: is_surrogate_def)
    have e: "e = [char_of (0xE0 + a), char_of (0x80 + b), char_of (0x80 + r)]"
      using assms three unfolding a_def b_def r_def by (auto simp: utf8_encode_cp_def)
    show ?thesis
      unfolding e using bd e0 ed d
      by (auto simp: utf8_next.simps cont_def second_ok_def low6_def Let_def)
  next
    case four
    define a where "a = c div 262144"
    define b where "b = c div 4096 mod 64"
    define s where "s = c div 64 mod 64"
    define r where "r = c mod 64"
    have "c div 4096 = c div 64 div 64" and "c div 262144 = c div 4096 div 64"
      by (simp_all add: div_mult2_eq [symmetric])
    then have d: "c = a * 262144 + b * 4096 + s * 64 + r"
      using div_mult_mod_eq [of c 64] div_mult_mod_eq [of "c div 64" 64]
        div_mult_mod_eq [of "c div 4096" 64]
      unfolding a_def b_def r_def s_def by linarith
    have bd: "a < 5" "b < 64" "s < 64" "r < 64"
      using four unfolding a_def b_def r_def s_def by auto
    have f0: "a = 0 \<Longrightarrow> 16 \<le> b" using four d bd by auto
    have f4: "a = 4 \<Longrightarrow> b < 16" using four d bd by auto
    have e: "e = [char_of (0xF0 + a), char_of (0x80 + b), char_of (0x80 + s), char_of (0x80 + r)]"
      using assms four unfolding a_def b_def r_def s_def
      by (auto simp: utf8_encode_cp_def is_surrogate_def)
    show ?thesis
      unfolding e using bd f0 f4 d
      by (auto simp: utf8_next.simps cont_def second_ok_def low6_def Let_def)
  qed
qed

lemma utf8_units_encode_cp:
  assumes "utf8_encode_cp c = Some e"
  shows "utf8_units (e @ rest) = Some c # utf8_units rest"
proof -
  from utf8_next_encode [OF assms, of rest] obtain b bs where
    "e = b # bs" and "utf8_next b (bs @ rest) = (Some c, length bs)" by blast
  then show ?thesis by simp
qed

lemma utf8_units_encode:
  "utf8_encode s = Some e \<Longrightarrow> utf8_units (e @ rest) = map Some s @ utf8_units rest"
  by (induction s arbitrary: e) (auto split: option.splits simp: utf8_units_encode_cp)

lemma utf8_decode_encode: "utf8_encode s = Some e \<Longrightarrow> utf8_decode e = Some s"
  using utf8_units_encode [of s e "[]"] by (auto simp: utf8_decode_def comp_def)

interpretation utf8: codec utf8_encode utf8_decode
  by unfold_locales (rule utf8_decode_encode)

lemma utf8_encode_cp_None_iff: "utf8_encode_cp c = None \<longleftrightarrow> is_surrogate c \<or> 0x110000 \<le> c"
  by (auto simp: utf8_encode_cp_def is_surrogate_def)

lemma utf8_encode_None_iff:
  "utf8_encode s = None \<longleftrightarrow> (\<exists>c \<in> set s. is_surrogate c \<or> 0x110000 \<le> c)"
  by (induction s) (auto split: option.splits simp: utf8_encode_cp_None_iff [symmetric])

lemma utf8_encode_append:
  "utf8_encode (s @ t) =
     (case utf8_encode s of
        None \<Rightarrow> None
      | Some a \<Rightarrow> map_option ((@) a) (utf8_encode t))"
proof (induction s)
  case Nil
  then show ?case by (cases "utf8_encode t") auto
next
  case (Cons c s)
  then show ?case by (cases "utf8_encode t") (auto split: option.splits)
qed

lemma utf8_encode_lit:
  assumes "\<forall>c \<in> set s. (of_char c :: nat) < 128"
  shows "utf8_encode (lit s) = Some s"
  using assms by (induction s) (auto simp: lit_def utf8_encode_cp_def)

lemma utf8_encode_cp_length: "utf8_encode_cp c = Some e \<Longrightarrow> 1 \<le> length e \<and> length e \<le> 4"
  by (auto simp: utf8_encode_cp_def split: if_splits)

lemma utf8_encode_length: "utf8_encode s = Some e \<Longrightarrow> length s \<le> length e"
  by (induction s arbitrary: e) (fastforce split: option.splits dest: utf8_encode_cp_length)+

lemma utf8_encode_hd: "utf8_encode s = Some e \<Longrightarrow> s \<noteq> [] \<Longrightarrow> e \<noteq> [] \<and> \<not> cont (hd e)"
  by (cases s) (use utf8_next_encode in \<open>fastforce split: option.splits\<close>)+

text \<open>A byte below 128 occurs in the encoding exactly when it occurs as a code point.\<close>

lemma utf8_encode_cp_ascii:
  assumes "utf8_encode_cp c = Some e" and "(of_char b :: nat) < 128"
  shows "b \<in> set e \<longleftrightarrow> c = of_char b"
proof (cases "c < 128")
  case True
  with assms have "e = [char_of c]" by (simp add: utf8_encode_cp_def)
  with True show ?thesis by auto
next
  case False
  have hi: "128 \<le> (of_char x :: nat)" if "x \<in> set e" for x
    using that assms(1) False
    by (auto simp: utf8_encode_cp_def is_surrogate_def split: if_splits)
  with assms(2) False show ?thesis by fastforce
qed

lemma utf8_encode_ascii:
  "utf8_encode s = Some e \<Longrightarrow> (of_char b :: nat) < 128 \<Longrightarrow> b \<in> set e \<longleftrightarrow> of_char b \<in> set s"
  by (induction s arbitrary: e) (auto split: option.splits simp: utf8_encode_cp_ascii)

subsection \<open>Self-synchronisation\<close>

text \<open>Decoding never reads across a byte that is not a continuation byte.\<close>

lemma utf8_next_stops:
  assumes "rest \<noteq> []" and "\<not> cont (hd rest)"
  shows "utf8_next b (bs @ rest) = utf8_next b bs"
    and "snd (utf8_next b bs) \<le> length bs"
proof -
  obtain r rs where rest: "rest = r # rs" and r: "\<not> cont r"
    using assms by (cases rest) auto
  have sr: "\<not> second_ok n r" for n using r by (simp add: second_ok_def Let_def)
  consider "bs = []" | (a) b1 where "bs = [b1]" | (b) b1 b2 where "bs = [b1, b2]"
    | (c) b1 b2 b3 bs' where "bs = b1 # b2 # b3 # bs'"
    by (metis list.exhaust)
  then show "utf8_next b (bs @ rest) = utf8_next b bs" and "snd (utf8_next b bs) \<le> length bs"
    using r sr by (cases; auto simp: utf8_next.simps Let_def rest split: list.splits)+
qed

lemma utf8_units_append:
  assumes "rest = [] \<or> \<not> cont (hd rest)"
  shows "utf8_units (xs @ rest) = utf8_units xs @ utf8_units rest"
proof (cases "rest = []")
  case False
  with assms have nc: "\<not> cont (hd rest)" by simp
  show ?thesis
  proof (induction xs rule: utf8_units.induct)
    case 1
    then show ?case by simp
  next
    case (2 b bs)
    obtain u k where uk: "utf8_next b bs = (u, k)" by (cases "utf8_next b bs")
    from utf8_next_stops [OF False nc, of b bs] uk
    have "utf8_next b (bs @ rest) = (u, k)" and "k \<le> length bs" by auto
    with "2.IH" [OF uk [symmetric]] uk show ?case by simp
  qed
qed simp

text \<open>
  Replacing decoding is compatible with substrings: where the encoding of a text occurs in the
  raw bytes, the text occurs in the decoded view, whatever surrounds it.
\<close>

lemma utf8_units_context:
  assumes "utf8_encode p = Some e"

  shows "p = [] \<or> utf8_units (pre @ e @ post) = utf8_units pre @ map Some p @ utf8_units post"
proof (cases "p = []")
  case False
  from utf8_encode_hd [OF assms(1) False] have "e \<noteq> []" and "\<not> cont (hd e)" by auto
  then have "\<not> cont (hd (e @ post))" by simp
  with utf8_units_append [of "e @ post" pre] utf8_units_encode [OF assms(1), of post]
  show ?thesis by simp
qed simp

lemma utf8_decode_replace_sublist:
  assumes "utf8_encode p = Some e" and "sublist e raw"
  shows "sublist p (utf8_decode_replace raw)"
proof -
  from assms(2) obtain pre post where raw: "raw = pre @ e @ post"
    by (auto simp: sublist_def)
  show ?thesis
  proof (cases "p = []")
    case False
    with utf8_units_context [OF assms(1), of pre post]
    have "utf8_units raw = utf8_units pre @ map Some p @ utf8_units post" by (simp add: raw)
    then have "utf8_decode_replace raw
        = utf8_decode_replace pre @ p @ utf8_decode_replace post"
      by (simp add: utf8_decode_replace_def comp_def)
    then show ?thesis by (auto simp: sublist_def)
  qed simp
qed

section \<open>Base64\<close>

definition b64_char :: "nat \<Rightarrow> char" where
  "b64_char n =
     (if n < 26 then char_of (n + 65)
      else if n < 52 then char_of (n + 71)
      else if n < 62 then char_of (n - 4)
      else if n = 62 then CHR ''+'' else CHR ''/'')"

text \<open>\<open>b64_value c\<close> is the table of \<open>binascii\<close>; 64 stands for a character outside it.\<close>

definition b64_value :: "nat \<Rightarrow> nat" where
  "b64_value c =
     (if 65 \<le> c \<and> c \<le> 90 then c - 65
      else if 97 \<le> c \<and> c \<le> 122 then c - 71
      else if 48 \<le> c \<and> c \<le> 57 then c + 4
      else if c = 43 then 62 else if c = 47 then 63 else 64)"

fun b64encode :: "bytes \<Rightarrow> bytes" where
  "b64encode [] = []"
| "b64encode [a] =
     (let x = of_char a in
      [b64_char (x div 4), b64_char (x mod 4 * 16), CHR ''='', CHR ''=''])"
| "b64encode [a, b] =
     (let x = of_char a; y = of_char b in
      [b64_char (x div 4), b64_char (x mod 4 * 16 + y div 16), b64_char (y mod 16 * 4),
       CHR ''=''])"
| "b64encode (a # b # c # rest) =
     (let x = of_char a; y = of_char b; z = of_char c in
      b64_char (x div 4) # b64_char (x mod 4 * 16 + y div 16)
      # b64_char (y mod 16 * 4 + z div 64) # b64_char (z mod 64) # b64encode rest)"

text \<open>
  The strict scan. Its state is the position in the current quad, the number of padding
  characters seen since the last data character, whether padding has started, and the bits left
  over from the previous character; \<open>None\<close> is \<open>binascii.Error\<close>.
\<close>

fun b64_scan :: "ustr \<Rightarrow> nat \<Rightarrow> nat \<Rightarrow> bool \<Rightarrow> nat \<Rightarrow> bytes option" where
  "b64_scan [] quad pads padding left = (if quad = 0 then Some [] else None)"
| "b64_scan (c # cs) quad pads padding left =
     (if c = 61 then
        (if 2 \<le> quad then
           (if 4 \<le> quad + Suc pads then (if cs = [] then Some [] else None)
            else b64_scan cs quad (Suc pads) True left)
         else b64_scan cs quad pads True left)
      else let v = b64_value c in
        if 64 \<le> v \<or> padding then None
        else if quad = 0 then b64_scan cs 1 0 padding v
        else if quad = 1 then
          map_option ((#) (char_of (left * 4 + v div 16))) (b64_scan cs 2 0 padding (v mod 16))
        else if quad = 2 then
          map_option ((#) (char_of (left * 16 + v div 4))) (b64_scan cs 3 0 padding (v mod 4))
        else map_option ((#) (char_of (left * 64 + v))) (b64_scan cs 0 0 padding 0))"

definition b64decode :: "ustr \<Rightarrow> bytes option" where
  "b64decode s = (if s \<noteq> [] \<and> hd s = 61 then None else b64_scan s 0 0 False 0)"

definition b64encode_str :: "bytes \<Rightarrow> ustr" where
  "b64encode_str d = lit (b64encode d)"

lemma b64_value_char [simp]: "n < 64 \<Longrightarrow> b64_value (of_char (b64_char n)) = n"
  by (auto simp: b64_char_def b64_value_def)

lemma b64_char_not_pad [simp]: "n < 64 \<Longrightarrow> of_char (b64_char n) \<noteq> (61 :: nat)"
  by (auto simp: b64_char_def)

lemma b64_char_ascii: "n < 64 \<Longrightarrow> (of_char (b64_char n) :: nat) < 128"
  by (auto simp: b64_char_def)

lemma of_char_less [simp]: "(of_char c :: nat) < 256"
  by simp

lemma byte_join:
  "char_of ((of_char a :: nat) div 4 * 4 + of_char a mod 4) = a"
  "char_of ((of_char a :: nat) div 16 * 16 + of_char a mod 16) = a"
  "char_of ((of_char a :: nat) div 64 * 64 + of_char a mod 64) = a"
  by simp_all

lemma b64_scan_step:
  assumes "v < 64"
  shows "b64_scan (of_char (b64_char v) # cs) 0 p False l = b64_scan cs 1 0 False v"
    and "b64_scan (of_char (b64_char v) # cs) 1 p False l =
           map_option ((#) (char_of (l * 4 + v div 16))) (b64_scan cs 2 0 False (v mod 16))"
    and "b64_scan (of_char (b64_char v) # cs) 2 p False l =
           map_option ((#) (char_of (l * 16 + v div 4))) (b64_scan cs 3 0 False (v mod 4))"
    and "b64_scan (of_char (b64_char v) # cs) 3 p False l =
           map_option ((#) (char_of (l * 64 + v))) (b64_scan cs 0 0 False 0)"
  using assms by (simp_all add: Let_def)

lemma b64_scan_encode: "b64_scan (lit (b64encode d)) 0 p False l = Some d"
proof (induction d arbitrary: p l rule: b64encode.induct)
  case 1
  then show ?case by (simp add: lit_def)
next
  case (2 a)
  define x where "x = (of_char a :: nat)"
  have bd: "x div 4 < 64" "x mod 4 * 16 < 64" by (simp_all add: x_def div_less_iff_less_mult)
  have j: "char_of (x div 4 * 4 + x mod 4) = a" unfolding x_def by (rule byte_join)
  have "x mod 4 * 16 div 16 = x mod 4" "x mod 4 * 16 mod 16 = 0" by simp_all
  with bd j show ?case
    by (simp only: b64encode.simps Let_def x_def [symmetric] lit_def list.map b64_scan_step)
       (simp add: x_def)
next
  case (3 a b)
  define x where "x = (of_char a :: nat)"
  define y where "y = (of_char b :: nat)"
  have y16: "y div 16 < 16" by (simp add: y_def div_less_iff_less_mult)
  have bd: "x div 4 < 64" "x mod 4 * 16 + y div 16 < 64" "y mod 16 * 4 < 64"
    using y16 by (auto simp: x_def div_less_iff_less_mult)
  have j: "char_of (x div 4 * 4 + x mod 4) = a" "char_of (y div 16 * 16 + y mod 16) = b"
    unfolding x_def y_def by (rule byte_join)+
  have q: "(x mod 4 * 16 + y div 16) div 16 = x mod 4" "(x mod 4 * 16 + y div 16) mod 16 = y div 16"
    "y mod 16 * 4 div 4 = y mod 16" "y mod 16 * 4 mod 4 = 0"
    using y16 by simp_all
  show ?case
    by (simp only: b64encode.simps Let_def x_def [symmetric] y_def [symmetric] lit_def list.map
        b64_scan_step [OF bd(1)] b64_scan_step [OF bd(2)] b64_scan_step [OF bd(3)] q j)
       simp
next
  case (4 a b c rest)
  define x where "x = (of_char a :: nat)"
  define y where "y = (of_char b :: nat)"
  define z where "z = (of_char c :: nat)"
  have y16: "y div 16 < 16" and z4: "z div 64 < 4"
    by (simp_all add: y_def z_def div_less_iff_less_mult)
  have bd: "x div 4 < 64" "x mod 4 * 16 + y div 16 < 64" "y mod 16 * 4 + z div 64 < 64" "z mod 64 < 64"
    using y16 z4 by (auto simp: x_def div_less_iff_less_mult)
  have j: "char_of (x div 4 * 4 + x mod 4) = a" "char_of (y div 16 * 16 + y mod 16) = b"
    "char_of (z div 64 * 64 + z mod 64) = c"
    unfolding x_def y_def z_def by (rule byte_join)+
  have q: "(x mod 4 * 16 + y div 16) div 16 = x mod 4" "(x mod 4 * 16 + y div 16) mod 16 = y div 16"
    "(y mod 16 * 4 + z div 64) div 4 = y mod 16" "(y mod 16 * 4 + z div 64) mod 4 = z div 64"
    using y16 z4 by simp_all
  have IH: "b64_scan (map of_char (b64encode rest)) 0 p False l = Some rest" for p l
    using 4 by (simp add: lit_def)
  show ?case
    by (simp only: b64encode.simps Let_def x_def [symmetric] y_def [symmetric] z_def [symmetric]
        lit_def list.map b64_scan_step [OF bd(1)] b64_scan_step [OF bd(2)] b64_scan_step [OF bd(3)]
        b64_scan_step [OF bd(4)] q j IH option.map)
qed

lemma b64encode_hd: "d \<noteq> [] \<Longrightarrow> \<exists>v r. v < 64 \<and> b64encode d = b64_char v # r"
proof (cases d rule: b64encode.cases)
  case (2 a)
  have "(of_char a :: nat) div 4 < 64" by (simp add: div_less_iff_less_mult)
  with 2 show ?thesis by (auto simp: Let_def)
next
  case (3 a b)
  have "(of_char a :: nat) div 4 < 64" by (simp add: div_less_iff_less_mult)
  with 3 show ?thesis by (auto simp: Let_def)
next
  case (4 a b c rest)
  have "(of_char a :: nat) div 4 < 64" by (simp add: div_less_iff_less_mult)
  with 4 show ?thesis by (auto simp: Let_def)
qed simp

lemma b64decode_encode: "b64decode (b64encode_str d) = Some d"
proof (cases "d = []")
  case True
  then show ?thesis by (simp add: b64decode_def b64encode_str_def lit_def)
next
  case False
  then obtain v r where "v < 64" and "b64encode d = b64_char v # r" using b64encode_hd by blast
  then have "hd (b64encode_str d) \<noteq> 61" by (simp add: b64encode_str_def lit_def)
  then show ?thesis by (simp add: b64decode_def b64encode_str_def b64_scan_encode)
qed

interpretation b64: codec "\<lambda>d. Some (b64encode_str d)" b64decode
  by unfold_locales (auto simp: b64decode_encode)

definition b64_plain :: "char \<Rightarrow> bool" where
  "b64_plain c \<longleftrightarrow> 43 \<le> (of_char c :: nat) \<and> (of_char c :: nat) < 123 \<and> (of_char c :: nat) \<noteq> 92"

lemma b64_char_plain [simp]: "n < 64 \<Longrightarrow> b64_plain (b64_char n)" "b64_plain (CHR ''='')"
  by (auto simp: b64_char_def b64_plain_def)

lemma b64encode_plain: "c \<in> set (b64encode d) \<Longrightarrow> b64_plain c"
proof (induction d rule: b64encode.induct)
  case (2 a)
  have "(of_char a :: nat) div 4 < 64" by (simp add: div_less_iff_less_mult)
  with 2 show ?case by (auto simp: Let_def b64_char_plain)
next
  case (3 a b)
  have "(of_char a :: nat) div 4 < 64" "(of_char b :: nat) div 16 < 16"
    by (simp_all add: div_less_iff_less_mult)
  moreover from this have "(of_char a :: nat) mod 4 * 16 + of_char b div 16 < 64" by linarith
  ultimately show ?case using 3 by (auto simp: Let_def b64_char_plain)
next
  case (4 a b c rest)
  have "(of_char a :: nat) div 4 < 64" "(of_char b :: nat) div 16 < 16" "(of_char c :: nat) div 64 < 4"
    by (simp_all add: div_less_iff_less_mult)
  moreover from this have "(of_char a :: nat) mod 4 * 16 + of_char b div 16 < 64"
    "(of_char b :: nat) mod 16 * 4 + of_char c div 64 < 64" by linarith+
  ultimately show ?case using 4 by (auto simp: Let_def b64_char_plain)
qed simp

lemma b64encode_ascii: "c \<in> set (b64encode d) \<Longrightarrow> (of_char c :: nat) < 128"
  by (drule b64encode_plain) (simp add: b64_plain_def)

lemma length_b64encode: "length (b64encode d) = 4 * ((length d + 2) div 3)"
proof (induction d rule: b64encode.induct)
  case (4 a b c rest)
  have "(length (a # b # c # rest) + 2) div 3 = Suc ((length rest + 2) div 3)" by simp
  with 4 show ?case by (simp add: Let_def)
qed (simp_all add: Let_def)

text \<open>Decoding never yields more than three bytes for four characters.\<close>

lemma b64_scan_length:
  "b64_scan s quad p pad l = Some d \<Longrightarrow> quad < 4 \<Longrightarrow>
     4 * length d \<le> 3 * length s + (if quad = 0 then 0 else 4 - quad)"
proof (induction s arbitrary: quad p pad l d)
  case Nil
  then show ?case by (simp split: if_splits)
next
  case (Cons c cs)
  show ?case
  proof (cases "c = 61")
    case True
    with Cons.prems obtain p' pad' where "cs = [] \<and> d = [] \<or> b64_scan cs quad p' pad' l = Some d"
      by (auto split: if_splits)
    with Cons.IH [of quad p' pad' l d] Cons.prems(2) show ?thesis by auto
  next
    case False
    with Cons.prems consider
        (q0) v where "quad = 0" "b64_scan cs 1 0 pad v = Some d"
      | (q1) v x d' where "quad = 1" "b64_scan cs 2 0 pad v = Some d'" "d = x # d'"
      | (q2) v x d' where "quad = 2" "b64_scan cs 3 0 pad v = Some d'" "d = x # d'"
      | (q3) x d' where "quad = 3" "b64_scan cs 0 0 pad 0 = Some d'" "d = x # d'"
      by (auto simp: Let_def split: if_splits)
    then show ?thesis
    proof cases
      case q0
      with Cons.IH [OF q0(2)] show ?thesis by simp
    next
      case q1
      with Cons.IH [OF q1(2)] show ?thesis by simp
    next
      case q2
      with Cons.IH [OF q2(2)] show ?thesis by simp
    next
      case q3
      with Cons.IH [OF q3(2)] show ?thesis by simp
    qed
  qed
qed

lemma b64decode_length: "b64decode s = Some d \<Longrightarrow> 4 * length d \<le> 3 * length s"
  using b64_scan_length [of s 0 0 False 0 d] by (auto simp: b64decode_def split: if_splits)

end
