(* ===== verification/Line_Buffer.thy ===== *)
theory Line_Buffer
  imports Codecs
begin

text \<open>
  The UART line buffer, \<open>uart_capture/line_buffer.py\<close>: raw bytes arrive in events of any
  size, complete newline-terminated lines come out, and a physical line longer than
  \<open>MAX_UART_LINE_BYTES\<close> is dropped and reported as a bounded descriptor instead.

  \<open>line_buffer\<close> has the fields of \<open>UartLineBuffer\<close>, \<open>feed_step\<close> is the body of the loop of
  \<open>feed_result\<close> for one piece (up to a newline or to the end of the event), \<open>feed_loop\<close> the
  loop. The abstract view is the stream cut at its newlines (\<open>cut_lines\<close>); \<open>buffer_rel\<close> relates
  the buffer's state to the bytes consumed so far and to the unfinished line. The lemmas show
  that one call of \<open>feed_result\<close> refines \<open>cut_lines\<close>, that the reported coordinates locate each
  line in the stream, and, by induction over the events, that the result does not depend on how
  the stream is cut into events.
\<close>

section \<open>Data\<close>

definition MAX_UART_LINE_BYTES :: nat where
  "MAX_UART_LINE_BYTES = 65536"

record uart_line =
  ul_raw :: bytes
  ul_text :: ustr
  ul_ingestion_index :: "nat option"
  ul_line_index_in_event :: "nat option"
  ul_start_ingestion_index :: "nat option"
  ul_start_event_offset :: "nat option"
  ul_end_ingestion_index :: "nat option"
  ul_end_event_offset :: "nat option"

record oversized_uart_line =
  ol_ingestion_index :: "nat option"
  ol_line_index_in_event :: "nat option"
  ol_start_ingestion_index :: "nat option"
  ol_start_event_offset :: "nat option"
  ol_end_ingestion_index :: "nat option"
  ol_end_event_offset :: "nat option"
  ol_total_bytes :: nat
  ol_terminated :: bool
  ol_timestamp_us :: "nat option"

record line_result =
  res_lines :: "uart_line list"
  res_oversized :: "oversized_uart_line list"
  res_newly :: nat

definition no_lines :: line_result where
  "no_lines = \<lparr>res_lines = [], res_oversized = [], res_newly = 0\<rparr>"

record line_buffer =
  pending :: bytes
  pending_start_ingestion_index :: "nat option"
  pending_start_event_offset :: "nat option"
  pending_end_ingestion_index :: "nat option"
  pending_end_event_offset :: "nat option"
  pending_line_index_in_event :: "nat option"
  oversized_total_bytes :: "nat option"
  oversized_start_ingestion_index :: "nat option"
  oversized_start_event_offset :: "nat option"
  oversized_end_ingestion_index :: "nat option"
  oversized_end_event_offset :: "nat option"
  oversized_line_index_in_event :: "nat option"
  oversized_timestamp_us :: "nat option"

definition new_buffer :: line_buffer where
  "new_buffer =
     \<lparr>pending = [], pending_start_ingestion_index = None, pending_start_event_offset = None,
      pending_end_ingestion_index = None, pending_end_event_offset = None,
      pending_line_index_in_event = None, oversized_total_bytes = None,
      oversized_start_ingestion_index = None, oversized_start_event_offset = None,
      oversized_end_ingestion_index = None, oversized_end_event_offset = None,
      oversized_line_index_in_event = None, oversized_timestamp_us = None\<rparr>"

definition has_unterminated_line :: "line_buffer \<Rightarrow> bool" where
  "has_unterminated_line b \<longleftrightarrow> pending b \<noteq> [] \<or> oversized_total_bytes b \<noteq> None"

section \<open>Operations\<close>

definition clear_pending :: "line_buffer \<Rightarrow> line_buffer" where
  "clear_pending b =
     b\<lparr>pending := [], pending_start_ingestion_index := None, pending_start_event_offset := None,
       pending_end_ingestion_index := None, pending_end_event_offset := None,
       pending_line_index_in_event := None\<rparr>"

definition finish_oversized_line ::
  "bool \<Rightarrow> line_buffer \<Rightarrow> exc + (oversized_uart_line \<times> line_buffer)" where
  "finish_oversized_line terminated b =
     (case oversized_total_bytes b of
        None \<Rightarrow> Inl (RuntimeError ''no oversized UART line is active'')
      | Some total_bytes \<Rightarrow>
          Inr (\<lparr>ol_ingestion_index = oversized_end_ingestion_index b,
                ol_line_index_in_event = oversized_line_index_in_event b,
                ol_start_ingestion_index = oversized_start_ingestion_index b,
                ol_start_event_offset = oversized_start_event_offset b,
                ol_end_ingestion_index = oversized_end_ingestion_index b,
                ol_end_event_offset = oversized_end_event_offset b,
                ol_total_bytes = total_bytes, ol_terminated = terminated,
                ol_timestamp_us = oversized_timestamp_us b\<rparr>,
               b\<lparr>oversized_total_bytes := None, oversized_start_ingestion_index := None,
                 oversized_start_event_offset := None, oversized_end_ingestion_index := None,
                 oversized_end_event_offset := None, oversized_line_index_in_event := None,
                 oversized_timestamp_us := None\<rparr>))"

text \<open>
  The end of the two oversized branches of the loop body: without a newline the loop breaks, with
  one the descriptor is appended.
\<close>

definition close_oversized ::
  "bool \<Rightarrow> line_buffer \<Rightarrow> line_result \<Rightarrow> exc + (line_buffer \<times> line_result)" where
  "close_oversized terminated b acc =
     (if \<not> terminated then Inr (b, acc)
      else bind_r (finish_oversized_line True b)
        (\<lambda>(line, b'). Inr (b', acc\<lparr>res_oversized := res_oversized acc @ [line]\<rparr>)))"

text \<open>
  One turn of the loop: the piece \<open>data[off:endo]\<close>, which ends in a newline iff \<open>terminated\<close>.
\<close>

definition feed_step ::
  "line_buffer \<Rightarrow> bytes \<Rightarrow> nat option \<Rightarrow> nat option \<Rightarrow> nat \<Rightarrow> nat \<Rightarrow> nat \<Rightarrow> bool \<Rightarrow> nat
     \<Rightarrow> line_result \<Rightarrow> exc + (line_buffer \<times> line_result)" where
  "feed_step b data ingestion_index timestamp_us base off endo terminated lidx acc =
     (case oversized_total_bytes b of
        Some total_bytes \<Rightarrow>
          close_oversized terminated
            (b\<lparr>oversized_total_bytes := Some (total_bytes + (endo - off)),
               oversized_end_ingestion_index := ingestion_index,
               oversized_end_event_offset := Some (base + endo),
               oversized_line_index_in_event := Some lidx,
               oversized_timestamp_us := timestamp_us\<rparr>)
            acc
      | None \<Rightarrow>
          let total_bytes = length (pending b) + (endo - off);
              start_ii = (if pending b \<noteq> [] then pending_start_ingestion_index b
                          else ingestion_index);
              start_off = (if pending b \<noteq> [] then pending_start_event_offset b
                           else Some (base + off))
          in
          if MAX_UART_LINE_BYTES < total_bytes then
            close_oversized terminated
              ((clear_pending b)
                \<lparr>oversized_total_bytes := Some total_bytes,
                 oversized_start_ingestion_index := start_ii,
                 oversized_start_event_offset := start_off,
                 oversized_end_ingestion_index := ingestion_index,
                 oversized_end_event_offset := Some (base + endo),
                 oversized_line_index_in_event := Some lidx,
                 oversized_timestamp_us := timestamp_us\<rparr>)
              (acc\<lparr>res_newly := Suc (res_newly acc)\<rparr>)
          else if \<not> terminated then
            Inr (b\<lparr>pending := pending b @ drop off data,
                   pending_start_ingestion_index := start_ii,
                   pending_start_event_offset := start_off,
                   pending_end_ingestion_index := ingestion_index,
                   pending_end_event_offset := Some (base + length data),
                   pending_line_index_in_event := Some lidx\<rparr>, acc)
          else
            let raw = pending b @ slice data off endo;
                line = \<lparr>ul_raw = raw, ul_text = utf8_decode_replace raw,
                        ul_ingestion_index = ingestion_index,
                        ul_line_index_in_event = Some lidx,
                        ul_start_ingestion_index = start_ii,
                        ul_start_event_offset = start_off,
                        ul_end_ingestion_index = ingestion_index,
                        ul_end_event_offset = Some (base + endo)\<rparr>
            in Inr (clear_pending b, acc\<lparr>res_lines := res_lines acc @ [line]\<rparr>))"

function feed_loop ::
  "line_buffer \<Rightarrow> bytes \<Rightarrow> nat option \<Rightarrow> nat option \<Rightarrow> nat \<Rightarrow> nat \<Rightarrow> nat \<Rightarrow> line_result
     \<Rightarrow> exc + (line_buffer \<times> line_result)" where
  "feed_loop b data ii ts base off lidx acc =
     (if length data \<le> off then Inr (b, acc)
      else case bytes_find data [nl] off of
        None \<Rightarrow> feed_step b data ii ts base off (length data) False lidx acc
      | Some k \<Rightarrow>
          (case feed_step b data ii ts base off (Suc k) True lidx acc of
             Inl e \<Rightarrow> Inl e
           | Inr (b', acc') \<Rightarrow> feed_loop b' data ii ts base (Suc k) (Suc lidx) acc'))"
  by pat_completeness auto
termination
  by (relation "measure (\<lambda>(b, data, ii, ts, base, off, lidx, acc). length data - off)")
     (auto dest: bytes_find_slice(1))

declare feed_loop.simps [simp del]

text \<open>
  \<open>feed_result\<close>. The check that the argument is a \<open>bytes\<close> object is the model's type; the
  offset base is checked as the code checks it.
\<close>

definition feed_result ::
  "line_buffer \<Rightarrow> bytes \<Rightarrow> nat option \<Rightarrow> nat option \<Rightarrow> pyval \<Rightarrow> exc + (line_buffer \<times> line_result)" where
  "feed_result b data ingestion_index timestamp_us event_offset_base =
     (case event_offset_base of
        PInt n \<Rightarrow>
          if n < 0 then Inl (ValueError ''UART event offset base must be a non-negative integer'')
          else if data = [] then Inr (b, no_lines)
          else feed_loop b data ingestion_index timestamp_us (nat n) 0 0 no_lines
      | _ \<Rightarrow> Inl (ValueError ''UART event offset base must be a non-negative integer''))"

definition feed :: "line_buffer \<Rightarrow> bytes \<Rightarrow> nat option \<Rightarrow> exc + (line_buffer \<times> uart_line list)" where
  "feed b data ingestion_index =
     bind_r (feed_result b data ingestion_index None (PInt 0)) (\<lambda>(b', r). Inr (b', res_lines r))"

definition flush_result :: "line_buffer \<Rightarrow> exc + (line_buffer \<times> line_result)" where
  "flush_result b =
     (if oversized_total_bytes b \<noteq> None then
        bind_r (finish_oversized_line False b)
          (\<lambda>(line, b'). Inr (b', no_lines\<lparr>res_oversized := [line]\<rparr>))
      else if pending b = [] then Inr (b, no_lines)
      else
        let line = \<lparr>ul_raw = pending b, ul_text = utf8_decode_replace (pending b),
                    ul_ingestion_index = pending_end_ingestion_index b,
                    ul_line_index_in_event = pending_line_index_in_event b,
                    ul_start_ingestion_index = pending_start_ingestion_index b,
                    ul_start_event_offset = pending_start_event_offset b,
                    ul_end_ingestion_index = pending_end_ingestion_index b,
                    ul_end_event_offset = pending_end_event_offset b\<rparr>
        in Inr (clear_pending b, no_lines\<lparr>res_lines := [line]\<rparr>))"

definition flush :: "line_buffer \<Rightarrow> exc + (line_buffer \<times> uart_line option)" where
  "flush b =
     bind_r (flush_result b)
       (\<lambda>(b', r). Inr (b', case res_lines r of [] \<Rightarrow> None | l # _ \<Rightarrow> Some l))"

section \<open>The abstract view: a stream cut at its newlines\<close>

text \<open>\<open>cut_lines p data\<close>: the lines completed by \<open>data\<close> after the unfinished \<open>p\<close>, and the rest.\<close>

fun cut_lines :: "bytes \<Rightarrow> bytes \<Rightarrow> bytes list \<times> bytes" where
  "cut_lines p [] = ([], p)"
| "cut_lines p (c # cs) =
     (if c = nl then (case cut_lines [] cs of (ls, r) \<Rightarrow> ((p @ [nl]) # ls, r))
      else cut_lines (p @ [c]) cs)"

lemma cut_lines_no_nl: "nl \<notin> set x \<Longrightarrow> cut_lines p x = ([], p @ x)"
  by (induction x arbitrary: p) auto

lemma cut_lines_append:
  "cut_lines p (x @ y) =
     (case cut_lines p x of (ls, r) \<Rightarrow> case cut_lines r y of (ls', r') \<Rightarrow> (ls @ ls', r'))"
  by (induction p x rule: cut_lines.induct) (auto split: prod.splits)

lemma cut_lines_fst_append:
  "fst (cut_lines p (x @ y)) = fst (cut_lines p x) @ fst (cut_lines (snd (cut_lines p x)) y)"
  by (simp add: cut_lines_append split: prod.splits)

lemma cut_lines_snd_append:
  "snd (cut_lines p (x @ y)) = snd (cut_lines (snd (cut_lines p x)) y)"
  by (simp add: cut_lines_append split: prod.splits)

lemma cut_lines_line:
  assumes "nl \<notin> set x"
  shows "cut_lines p (x @ nl # y) = (case cut_lines [] y of (ls, r) \<Rightarrow> ((p @ x @ [nl]) # ls, r))"
  using assms by (simp add: cut_lines_append cut_lines_no_nl split: prod.splits)

lemma cut_lines_concat: "cut_lines p x = (ls, r) \<Longrightarrow> concat ls @ r = p @ x"
  by (induction p x arbitrary: ls r rule: cut_lines.induct) (auto split: prod.splits if_splits)

lemma cut_lines_rest: "cut_lines p x = (ls, r) \<Longrightarrow> nl \<notin> set p \<Longrightarrow> nl \<notin> set r"
  by (induction p x arbitrary: ls r rule: cut_lines.induct) (auto split: prod.splits if_splits)

lemma cut_lines_shape:
  "cut_lines p x = (ls, r) \<Longrightarrow> nl \<notin> set p \<Longrightarrow> l \<in> set ls \<Longrightarrow> \<exists>l'. l = l' @ [nl] \<and> nl \<notin> set l'"
  by (induction p x arbitrary: ls r rule: cut_lines.induct) (auto split: prod.splits if_splits)

abbreviation fits :: "bytes \<Rightarrow> bool" where
  "fits raw \<equiv> length raw \<le> MAX_UART_LINE_BYTES"

section \<open>Coordinates\<close>

text \<open>
  \<open>base_of k\<close> is the stream position of the first byte of event \<open>k\<close>. A pair of an event and an offset
  in it is then a stream position; \<open>located\<close> says that the pair lies \<open>n\<close> bytes before the end of
  the bytes consumed.
\<close>

definition located :: "(nat \<Rightarrow> nat) \<Rightarrow> bytes \<Rightarrow> nat \<Rightarrow> nat option \<Rightarrow> nat option \<Rightarrow> bool" where
  "located base_of C n ii off \<longleftrightarrow> (\<exists>k i. ii = Some k \<and> off = Some i \<and> base_of k + i + n = length C)"

definition line_at :: "(nat \<Rightarrow> nat) \<Rightarrow> bytes \<Rightarrow> uart_line \<Rightarrow> bool" where
  "line_at base_of C l \<longleftrightarrow>
     (\<exists>ks i ke j. ul_start_ingestion_index l = Some ks \<and> ul_start_event_offset l = Some i
        \<and> ul_end_ingestion_index l = Some ke \<and> ul_end_event_offset l = Some j
        \<and> ul_ingestion_index l = Some ke \<and> base_of ke + j \<le> length C
        \<and> slice C (base_of ks + i) (base_of ke + j) = ul_raw l
        \<and> ul_text l = utf8_decode_replace (ul_raw l))"

definition over_at :: "(nat \<Rightarrow> nat) \<Rightarrow> bytes \<Rightarrow> oversized_uart_line \<Rightarrow> bool" where
  "over_at base_of C l \<longleftrightarrow>
     (\<exists>ks i ke j. ol_start_ingestion_index l = Some ks \<and> ol_start_event_offset l = Some i
        \<and> ol_end_ingestion_index l = Some ke \<and> ol_end_event_offset l = Some j
        \<and> ol_ingestion_index l = Some ke \<and> base_of ke + j \<le> length C
        \<and> base_of ks + i + ol_total_bytes l = base_of ke + j
        \<and> (ol_terminated l \<longleftrightarrow> last (slice C (base_of ks + i) (base_of ke + j)) = nl))"

lemma line_at_mono: "line_at base_of C l \<Longrightarrow> line_at base_of (C @ D) l"
  unfolding line_at_def by (metis length_append slice_append_left trans_le_add1)

lemma over_at_mono: "over_at base_of C l \<Longrightarrow> over_at base_of (C @ D) l"
  unfolding over_at_def by (metis length_append slice_append_left trans_le_add1)

text \<open>
  The buffer after the bytes \<open>C\<close>, of which \<open>p\<close> is the unfinished line: held back when it fits,
  only counted when it does not.
\<close>

definition buffer_rel :: "(nat \<Rightarrow> nat) \<Rightarrow> bytes \<Rightarrow> bytes \<Rightarrow> line_buffer \<Rightarrow> bool" where
  "buffer_rel base_of C p b \<longleftrightarrow>
     suffix p C \<and> nl \<notin> set p \<and>
     (if fits p
      then pending b = p \<and> oversized_total_bytes b = None \<and>
        (p \<noteq> [] \<longrightarrow>
           located base_of C (length p) (pending_start_ingestion_index b) (pending_start_event_offset b)
           \<and> located base_of C 0 (pending_end_ingestion_index b) (pending_end_event_offset b))
      else pending b = [] \<and> oversized_total_bytes b = Some (length p)
        \<and> located base_of C (length p) (oversized_start_ingestion_index b) (oversized_start_event_offset b)
        \<and> located base_of C 0 (oversized_end_ingestion_index b) (oversized_end_event_offset b))"

lemma buffer_rel_new: "buffer_rel base_of C [] new_buffer"
  by (simp add: buffer_rel_def new_buffer_def)

text \<open>
  \<open>emits base_of C raws n acc acc'\<close>: from \<open>acc\<close> to \<open>acc'\<close> the lines \<open>raws\<close> were reported, each as a
  line or as a descriptor, with coordinates in \<open>C\<close>, and \<open>n\<close> lines were counted as newly oversized.
\<close>

definition emits ::
  "(nat \<Rightarrow> nat) \<Rightarrow> bytes \<Rightarrow> bytes list \<Rightarrow> nat \<Rightarrow> line_result \<Rightarrow> line_result \<Rightarrow> bool" where
  "emits base_of C raws n acc acc' \<longleftrightarrow>
     (\<exists>ls os. res_lines acc' = res_lines acc @ ls \<and> res_oversized acc' = res_oversized acc @ os
        \<and> res_newly acc' = res_newly acc + n
        \<and> map ul_raw ls = filter fits raws
        \<and> map ol_total_bytes os = map length (filter (\<lambda>l. \<not> fits l) raws)
        \<and> (\<forall>l \<in> set ls. line_at base_of C l) \<and> (\<forall>l \<in> set os. over_at base_of C l \<and> ol_terminated l))"

lemma emits_refl: "emits base_of C [] 0 acc acc"
  by (simp add: emits_def)

lemma emits_trans:
  assumes "emits base_of C raws n acc acc'" and "emits base_of (C @ D) raws' n' acc' acc''"
  shows "emits base_of (C @ D) (raws @ raws') (n + n') acc acc''"
  using assms unfolding emits_def
  by (clarsimp simp: line_at_mono over_at_mono) (metis Un_iff line_at_mono over_at_mono set_append
      append.assoc add.assoc map_append)

section \<open>One piece, one event\<close>

lemma suffix_slice:
  assumes "suffix p C" and "m + length p = length C"
  shows "slice (C @ x) m (length C + length x) = p @ x"
proof -
  from assms have "drop m C = p" by (auto simp: suffix_def)
  with assms(2) show ?thesis by (simp add: slice_def)
qed

lemma emits_line:
  assumes "line_at base_of C l" and "ul_raw l = raw" and "fits raw"
  shows "emits base_of C [raw] 0 acc (acc\<lparr>res_lines := res_lines acc @ [l]\<rparr>)"
  using assms by (auto simp: emits_def)

lemma emits_over:
  assumes "over_at base_of C d" and "ol_total_bytes d = length raw" and "ol_terminated d"
    and "\<not> fits raw"
  shows "emits base_of C [raw] n acc
           (acc\<lparr>res_newly := res_newly acc + n, res_oversized := res_oversized acc @ [d]\<rparr>)"
  using assms by (auto simp: emits_def)

lemma over_atI:
  assumes "ol_start_ingestion_index d = Some ks" and "ol_start_event_offset d = Some i"
    and "ol_end_ingestion_index d = Some ke" and "ol_end_event_offset d = Some j"
    and "ol_ingestion_index d = Some ke" and "base_of ke + j = length C"
    and "base_of ks + i + ol_total_bytes d = length C" and "ol_terminated d"
    and "slice C (base_of ks + i) (length C) = l @ [nl]"
  shows "over_at base_of C d"
  unfolding over_at_def using assms by auto

lemma line_atI:
  assumes "ul_start_ingestion_index l = Some ks" and "ul_start_event_offset l = Some i"
    and "ul_end_ingestion_index l = Some ke" and "ul_end_event_offset l = Some j"
    and "ul_ingestion_index l = Some ke" and "base_of ke + j = length C"
    and "slice C (base_of ks + i) (length C) = ul_raw l"
    and "ul_text l = utf8_decode_replace (ul_raw l)"
  shows "line_at base_of C l"
  unfolding line_at_def using assms by auto

text \<open>A piece without a newline is the rest of the event.\<close>

lemma feed_step_open:
  assumes rel: "buffer_rel base_of C p b" and x: "nl \<notin> set x" "x \<noteq> []"
    and data: "x = drop off data" and pos: "base_of k + base + off = length C"
  shows "\<exists>b' n. feed_step b data (Some k) ts base off (length data) False lidx acc
             = Inr (b', acc\<lparr>res_newly := res_newly acc + n\<rparr>)
           \<and> buffer_rel base_of (C @ x) (p @ x) b'
           \<and> n + (if fits p then 0 else 1) = (if fits (p @ x) then 0 else 1)"
    (is "\<exists>b' n. ?step = Inr (b', ?acc n) \<and> ?rel b' \<and> ?cnt n")
proof -
  have off: "length data - off = length x" "off < length data" using x(2) data by auto
  have endp: "base_of k + (base + length data) = length (C @ x)" using off pos by simp
  have suf: "suffix (p @ x) (C @ x)" and pnl: "nl \<notin> set p"
    using rel by (auto simp: buffer_rel_def)
  have endl: "located base_of (C @ x) 0 (Some k) (Some (base + length data))"
    using endp by (simp add: located_def)
  have here: "located base_of (C @ x) (length x) (Some k) (Some (base + off))"
    using pos by (simp add: located_def add.assoc)
  have mono: "located base_of C (length p) i j \<Longrightarrow> located base_of (C @ x) (length p + length x) i j" for i j
    by (auto simp: located_def)
  note simps = feed_step_def close_oversized_def buffer_rel_def clear_pending_def Let_def
  show ?thesis
  proof (cases "fits p")
    case False
    with rel have b: "pending b = []" "oversized_total_bytes b = Some (length p)"
      "located base_of C (length p) (oversized_start_ingestion_index b) (oversized_start_event_offset b)"
      by (auto simp: buffer_rel_def)
    let ?b = "b\<lparr>oversized_total_bytes := Some (length p + length x),
      oversized_end_ingestion_index := Some k,
      oversized_end_event_offset := Some (base + length data),
      oversized_line_index_in_event := Some lidx, oversized_timestamp_us := ts\<rparr>"
    have "?step = Inr (?b, ?acc 0)" using b off by (simp add: simps)
    moreover have "?rel ?b" using b(1) False suf pnl x endl mono [OF b(3)] by (simp add: simps)
    moreover have "?cnt 0" using False by simp
    ultimately show ?thesis by blast
  next
    case fp: True
    with rel have b: "pending b = p" "oversized_total_bytes b = None"
      "p \<noteq> [] \<Longrightarrow>
       located base_of C (length p) (pending_start_ingestion_index b) (pending_start_event_offset b)"
      by (auto simp: buffer_rel_def)
    define si where "si = (if p \<noteq> [] then pending_start_ingestion_index b else Some k)"
    define so where "so = (if p \<noteq> [] then pending_start_event_offset b else Some (base + off))"
    have st: "located base_of (C @ x) (length p + length x) si so"
      using mono [OF b(3)] here by (cases "p = []") (auto simp: si_def so_def)
    show ?thesis
    proof (cases "fits (p @ x)")
      case True
      let ?b = "b\<lparr>pending := p @ x, pending_start_ingestion_index := si,
        pending_start_event_offset := so, pending_end_ingestion_index := Some k,
        pending_end_event_offset := Some (base + length data),
        pending_line_index_in_event := Some lidx\<rparr>"
      have "?step = Inr (?b, ?acc 0)"
        using b(1,2) True off data [symmetric] by (simp add: simps si_def so_def)
      moreover have "?rel ?b" using b(2) True suf pnl x endl st by (simp add: simps)
      moreover have "?cnt 0" using fp True by simp
      ultimately show ?thesis by blast
    next
      case False
      let ?b = "(clear_pending b)\<lparr>oversized_total_bytes := Some (length p + length x),
        oversized_start_ingestion_index := si, oversized_start_event_offset := so,
        oversized_end_ingestion_index := Some k,
        oversized_end_event_offset := Some (base + length data),
        oversized_line_index_in_event := Some lidx, oversized_timestamp_us := ts\<rparr>"
      have "?step = Inr (?b, ?acc 1)"
        using b(1,2) False off by (simp add: simps si_def so_def)
      moreover have "?rel ?b" using False suf pnl x endl st by (simp add: simps)
      moreover have "?cnt 1" using fp False by simp
      ultimately show ?thesis by blast
    qed
  qed
qed

text \<open>A piece that ends in a newline completes the line.\<close>

lemma feed_step_closed:
  assumes rel: "buffer_rel base_of C p b" and x: "nl \<notin> set x"
    and data: "x @ [nl] = slice data off endo" and endo: "off < endo" "endo \<le> length data"
    and pos: "base_of k + base + off = length C"
  shows "\<exists>b' acc' n. feed_step b data (Some k) ts base off endo True lidx acc = Inr (b', acc')
           \<and> buffer_rel base_of (C @ x @ [nl]) [] b'
           \<and> emits base_of (C @ x @ [nl]) [p @ x @ [nl]] n acc acc'
           \<and> n + (if fits p then 0 else 1) = (if fits (p @ x @ [nl]) then 0 else 1)"
    (is "\<exists>b' acc' n. ?step = Inr (b', acc') \<and> ?rel b' \<and> ?emits n acc' \<and> ?cnt n")
proof -
  have len: "endo - off = Suc (length x)"
    using arg_cong [OF data, of length] endo by simp
  let ?C = "C @ x @ [nl]" and ?l = "p @ x @ [nl]"
  have endp: "base_of k + (base + endo) = length ?C" using len pos endo by simp
  have pC: "suffix p C" and pnl: "nl \<notin> set p" using rel by (auto simp: buffer_rel_def)
  have start: "\<exists>ks m. i = Some ks \<and> j = Some m
      \<and> slice ?C (base_of ks + m) (length ?C) = ?l \<and> base_of ks + m + length ?l = length ?C"
    if "located base_of C (length p) i j" for i j
  proof -
    from that obtain ks m where "i = Some ks" "j = Some m" "base_of ks + m + length p = length C"
      by (auto simp: located_def)
    with suffix_slice [OF pC this(3), of "x @ [nl]"] show ?thesis by auto
  qed
  have here: "located base_of C 0 (Some k) (Some (base + off))"
    using pos by (simp add: located_def add.assoc)
  note simps = feed_step_def close_oversized_def finish_oversized_line_def buffer_rel_def
    clear_pending_def Let_def
  show ?thesis
  proof (cases "fits p")
    case False
    with rel have b: "pending b = []" "oversized_total_bytes b = Some (length p)"
      "located base_of C (length p) (oversized_start_ingestion_index b) (oversized_start_event_offset b)"
      by (auto simp: buffer_rel_def)
    from start [OF b(3)] obtain ks m where st:
      "oversized_start_ingestion_index b = Some ks" "oversized_start_event_offset b = Some m"
      "slice ?C (base_of ks + m) (length ?C) = ?l" "base_of ks + m + length ?l = length ?C"
      by blast
    let ?d = "\<lparr>ol_ingestion_index = Some k, ol_line_index_in_event = Some lidx,
      ol_start_ingestion_index = Some ks, ol_start_event_offset = Some m,
      ol_end_ingestion_index = Some k, ol_end_event_offset = Some (base + endo),
      ol_total_bytes = length ?l, ol_terminated = True, ol_timestamp_us = ts\<rparr>"
    let ?b = "b\<lparr>oversized_total_bytes := None, oversized_start_ingestion_index := None,
      oversized_start_event_offset := None, oversized_end_ingestion_index := None,
      oversized_end_event_offset := None, oversized_line_index_in_event := None,
      oversized_timestamp_us := None\<rparr>"
    let ?acc = "acc\<lparr>res_newly := res_newly acc + 0, res_oversized := res_oversized acc @ [?d]\<rparr>"
    have "?step = Inr (?b, ?acc)" using b(1,2) st(1,2) len by (simp add: simps)
    moreover have "?rel ?b" using b(1) by (simp add: simps)
    moreover have "?emits 0 ?acc"
      by (rule emits_over, rule over_atI [where l = "p @ x"]) (use False endp st in auto)
    moreover have "?cnt 0" using False by simp
    ultimately show ?thesis by blast
  next
    case fp: True
    with rel have b: "pending b = p" "oversized_total_bytes b = None"
      "p \<noteq> [] \<Longrightarrow>
       located base_of C (length p) (pending_start_ingestion_index b) (pending_start_event_offset b)"
      by (auto simp: buffer_rel_def)
    define si where "si = (if p \<noteq> [] then pending_start_ingestion_index b else Some k)"
    define so where "so = (if p \<noteq> [] then pending_start_event_offset b else Some (base + off))"
    have "located base_of C (length p) si so"
      using b(3) here by (cases "p = []") (auto simp: si_def so_def)
    from start [OF this] obtain ks m where st: "si = Some ks" "so = Some m"
      "slice ?C (base_of ks + m) (length ?C) = ?l" "base_of ks + m + length ?l = length ?C"
      by blast
    have rel': "?rel (clear_pending b)" using b(2) by (simp add: simps)
    show ?thesis
    proof (cases "fits ?l")
      case True
      let ?line = "\<lparr>ul_raw = ?l, ul_text = utf8_decode_replace ?l, ul_ingestion_index = Some k,
        ul_line_index_in_event = Some lidx, ul_start_ingestion_index = si,
        ul_start_event_offset = so, ul_end_ingestion_index = Some k,
        ul_end_event_offset = Some (base + endo)\<rparr>"
      let ?acc = "acc\<lparr>res_lines := res_lines acc @ [?line]\<rparr>"
      have "?step = Inr (clear_pending b, ?acc)"
        using b(1,2) True len by (simp add: simps si_def so_def data [symmetric])
      moreover have "?emits 0 ?acc"
        by (rule emits_line, rule line_atI) (use True endp st in auto)
      moreover have "?cnt 0" using fp True by simp
      ultimately show ?thesis using rel' by blast
    next
      case False
      let ?d = "\<lparr>ol_ingestion_index = Some k, ol_line_index_in_event = Some lidx,
        ol_start_ingestion_index = si, ol_start_event_offset = so,
        ol_end_ingestion_index = Some k, ol_end_event_offset = Some (base + endo),
        ol_total_bytes = length ?l, ol_terminated = True, ol_timestamp_us = ts\<rparr>"
      let ?b = "(clear_pending b)\<lparr>oversized_total_bytes := None,
        oversized_start_ingestion_index := None, oversized_start_event_offset := None,
        oversized_end_ingestion_index := None, oversized_end_event_offset := None,
        oversized_line_index_in_event := None, oversized_timestamp_us := None\<rparr>"
      let ?acc = "acc\<lparr>res_newly := res_newly acc + 1, res_oversized := res_oversized acc @ [?d]\<rparr>"
      have "?step = Inr (?b, ?acc)"
        using b(1,2) False len by (simp add: simps si_def so_def)
      moreover have "?rel ?b" by (simp add: simps)
      moreover have "?emits 1 ?acc"
        by (rule emits_over, rule over_atI [where l = "p @ x"]) (use False endp st in auto)
      moreover have "?cnt 1" using fp False by simp
      ultimately show ?thesis by blast
    qed
  qed
qed

text \<open>Where the next newline is, in the form the two step lemmas need.\<close>

lemma find_nl_None:
  assumes "off \<le> length data" and "bytes_find data [nl] off = None"
  shows "nl \<notin> set (drop off data)"
  using assms by (simp add: bytes_find_def find_at_single_None)

lemma find_nl_Some:
  assumes "bytes_find data [nl] off = Some k"
  shows "off < Suc k" "Suc k \<le> length data"
    and "slice data off (Suc k) = slice data off k @ [nl]" and "nl \<notin> set (slice data off k)"
proof -
  note f = bytes_find_slice [OF assms]
  show ok: "off < Suc k" "Suc k \<le> length data" using f(1,2) by auto
  from f(3) ok have "data ! k = nl" by (simp add: slice_def take_Suc_conv_app_nth)
  moreover have "Suc k - off = Suc (k - off)" using ok by simp
  ultimately show "slice data off (Suc k) = slice data off k @ [nl]"
    using ok by (simp add: slice_def take_Suc_conv_app_nth)
  show "nl \<notin> set (slice data off k)"
  proof
    assume "nl \<in> set (slice data off k)"
    then obtain i where i: "i < k - off" "drop off data ! i = nl"
      using ok by (auto simp: in_set_conv_nth slice_def)
    then have lt: "off + i < length data" "off + i < k" using ok by auto
    note lt(1)
    moreover have "data ! (off + i) = nl" using i lt by simp
    ultimately have "drop (off + i) data = nl # drop (Suc (off + i)) data"
      by (metis Cons_nth_drop_Suc)
    with bytes_find_least [OF assms _ lt(2)] show False by simp
  qed
qed

definition over :: "bytes \<Rightarrow> nat" where
  "over p = (if fits p then 0 else 1)"

definition overs :: "bytes list \<Rightarrow> nat" where
  "overs ls = length (filter (\<lambda>l. \<not> fits l) ls)"

lemma overs_simps [simp]:
  "overs [] = 0" "overs (l # ls) = over l + overs ls" "overs (ls @ ls') = overs ls + overs ls'"
  by (simp_all add: overs_def over_def)

lemma over_Nil [simp]: "over [] = 0"
  by (simp add: over_def)

lemma feed_loop_spec:
  assumes "buffer_rel base_of C p b" and "base_of k + base + off = length C" and "off \<le> length data"
  shows "\<exists>b' acc' n ls r. feed_loop b data (Some k) ts base off lidx acc = Inr (b', acc')
           \<and> cut_lines p (drop off data) = (ls, r)
           \<and> buffer_rel base_of (C @ drop off data) r b'
           \<and> emits base_of (C @ drop off data) ls n acc acc'
           \<and> n + over p = overs ls + over r"
  using assms
proof (induction b data "Some k" ts base off lidx acc arbitrary: C p rule: feed_loop.induct)
  case (1 b data ts base off lidx acc)
  note unfold = feed_loop.simps [of b data "Some k" ts base off lidx acc]
  show ?case
  proof (cases "length data \<le> off")
    case True
    then have "feed_loop b data (Some k) ts base off lidx acc = Inr (b, acc)"
      by (simp add: unfold)
    moreover have "emits base_of (C @ drop off data) [] 0 acc acc" by (rule emits_refl)
    ultimately show ?thesis using True "1.prems" by auto
  next
    case more: False
    show ?thesis
    proof (cases "bytes_find data [nl] off")
      case None
      let ?x = "drop off data"
      have x: "nl \<notin> set ?x" "?x \<noteq> []" using find_nl_None None more by auto
      from feed_step_open [OF "1.prems"(1) x refl "1.prems"(2), of ts lidx acc] obtain b' n where
        step: "feed_step b data (Some k) ts base off (length data) False lidx acc
          = Inr (b', acc\<lparr>res_newly := res_newly acc + n\<rparr>)"
        and rel: "buffer_rel base_of (C @ ?x) (p @ ?x) b'" and n: "n + over p = over (p @ ?x)"
        by (auto simp: over_def)
      have em: "emits base_of (C @ ?x) [] n acc (acc\<lparr>res_newly := res_newly acc + n\<rparr>)"
        by (simp add: emits_def)
      show ?thesis
        using None more step rel n em cut_lines_no_nl [OF x(1), of p] by (auto simp: unfold)
    next
      case (Some m)
      note f = find_nl_Some [OF Some]
      let ?x = "slice data off m"
      from feed_step_closed [OF "1.prems"(1) f(4) f(3) [symmetric] f(1,2) "1.prems"(2), of ts lidx acc]
      obtain b1 acc1 n1 where
        step: "feed_step b data (Some k) ts base off (Suc m) True lidx acc = Inr (b1, acc1)"
        and rel: "buffer_rel base_of (C @ ?x @ [nl]) [] b1"
        and em: "emits base_of (C @ ?x @ [nl]) [p @ ?x @ [nl]] n1 acc acc1"
        and n1: "n1 + over p = over (p @ ?x @ [nl])"
        by (auto simp: over_def)
      have "take (Suc m - off) (drop off data) = ?x @ [nl]"
        unfolding f(3) [symmetric] by (simp only: slice_def)
      moreover have "drop (Suc m - off) (drop off data) = drop (Suc m) data" using f(1) by simp
      ultimately have split: "drop off data = (?x @ [nl]) @ drop (Suc m) data"
        by (metis append_take_drop_id)
      have len: "Suc (length ?x) = Suc m - off" using f(1,2) by simp
      have pos: "base_of k + base + Suc m = length (C @ ?x @ [nl])"
        using "1.prems"(2) len f(1) by simp
      from "1.hyps" [OF more Some step refl rel pos f(2)] obtain b2 acc2 n2 ls r where
        loop: "feed_loop b1 data (Some k) ts base (Suc m) (Suc lidx) acc1 = Inr (b2, acc2)"
        and cut: "cut_lines [] (drop (Suc m) data) = (ls, r)"
        and rel2: "buffer_rel base_of ((C @ ?x @ [nl]) @ drop (Suc m) data) r b2"
        and em2: "emits base_of ((C @ ?x @ [nl]) @ drop (Suc m) data) ls n2 acc1 acc2"
        and n2: "n2 + over [] = overs ls + over r"
        by blast
      from emits_trans [OF em em2]
      have em': "emits base_of (C @ drop off data) ((p @ ?x @ [nl]) # ls) (n1 + n2) acc acc2"
        by (simp add: split)
      have cut': "cut_lines p (drop off data) = ((p @ ?x @ [nl]) # ls, r)"
        using cut_lines_line [OF f(4), of p "drop (Suc m) data"] cut by (simp add: split)
      have "n1 + n2 + over p = overs ((p @ ?x @ [nl]) # ls) + over r" using n1 n2 by simp
      moreover have "feed_loop b data (Some k) ts base off lidx acc = Inr (b2, acc2)"
        using more Some step loop by (simp add: unfold)
      moreover have "buffer_rel base_of (C @ drop off data) r b2" using rel2 by (simp add: split)
      ultimately show ?thesis using cut' em' by blast
    qed
  qed
qed

section \<open>Functional correctness of \<open>feed_result\<close> and \<open>flush_result\<close>\<close>

definition result_of :: "(nat \<Rightarrow> nat) \<Rightarrow> bytes \<Rightarrow> bytes list \<Rightarrow> line_result \<Rightarrow> bool" where
  "result_of base_of C raws r \<longleftrightarrow>
     map ul_raw (res_lines r) = filter fits raws
     \<and> map ol_total_bytes (res_oversized r) = map length (filter (\<lambda>l. \<not> fits l) raws)
     \<and> (\<forall>l \<in> set (res_lines r). line_at base_of C l)
     \<and> (\<forall>l \<in> set (res_oversized r). over_at base_of C l)"

lemma result_of_mono: "result_of base_of C raws r \<Longrightarrow> result_of base_of (C @ D) raws r"
  by (simp add: result_of_def line_at_mono over_at_mono)

lemma feed_result_refines:
  assumes "buffer_rel base_of C p b" and "base_of k + n = length C"
  shows "\<exists>b' res ls r. feed_result b data (Some k) ts (PInt (int n)) = Inr (b', res)
           \<and> cut_lines p data = (ls, r) \<and> buffer_rel base_of (C @ data) r b'
           \<and> result_of base_of (C @ data) ls res
           \<and> (\<forall>l \<in> set (res_oversized res). ol_terminated l)
           \<and> res_newly res + over p = overs ls + over r"
proof (cases "data = []")
  case True
  with assms show ?thesis by (simp add: feed_result_def no_lines_def result_of_def)
next
  case False
  from feed_loop_spec [OF assms(1), of k n 0 data ts 0 no_lines] assms(2)
  obtain b' acc' m ls r where
    "feed_loop b data (Some k) ts n 0 0 no_lines = Inr (b', acc')"
    and "cut_lines p data = (ls, r)" and "buffer_rel base_of (C @ data) r b'"
    and "emits base_of (C @ data) ls m no_lines acc'" and "m + over p = overs ls + over r"
    by auto
  with False show ?thesis
    by (auto simp: feed_result_def emits_def result_of_def no_lines_def)
qed

lemma flush_result_refines:
  assumes "buffer_rel base_of C p b"
  shows "\<exists>b' res. flush_result b = Inr (b', res) \<and> buffer_rel base_of C [] b'
           \<and> result_of base_of C (if p = [] then [] else [p]) res
           \<and> (\<forall>l \<in> set (res_oversized res). \<not> ol_terminated l) \<and> res_newly res = 0"
proof (cases "fits p")
  case False
  with assms have b: "pending b = []" "oversized_total_bytes b = Some (length p)"
    "located base_of C (length p) (oversized_start_ingestion_index b) (oversized_start_event_offset b)"
    "located base_of C 0 (oversized_end_ingestion_index b) (oversized_end_event_offset b)"
    and p: "suffix p C" "nl \<notin> set p" "p \<noteq> []"
    by (auto simp: buffer_rel_def)
  from b(3) obtain ks i where st: "oversized_start_ingestion_index b = Some ks"
    "oversized_start_event_offset b = Some i" "base_of ks + i + length p = length C"
    by (auto simp: located_def)
  from b(4) obtain ke j where en: "oversized_end_ingestion_index b = Some ke"
    "oversized_end_event_offset b = Some j" "base_of ke + j = length C"
    by (auto simp: located_def)
  have "slice C (base_of ks + i) (length C) = p"
    using suffix_slice [OF p(1) st(3), of "[]"] by simp
  then have "last (slice C (base_of ks + i) (base_of ke + j)) \<noteq> nl"
    using p(2,3) en(3) last_in_set by fastforce
  with b False st en p(3) show ?thesis
    by (auto simp: flush_result_def finish_oversized_line_def buffer_rel_def result_of_def
        no_lines_def over_at_def)
next
  case True
  with assms have b: "pending b = p" "oversized_total_bytes b = None" and p: "suffix p C"
    and loc: "p \<noteq> [] \<Longrightarrow>
      located base_of C (length p) (pending_start_ingestion_index b) (pending_start_event_offset b)
      \<and> located base_of C 0 (pending_end_ingestion_index b) (pending_end_event_offset b)"
    by (auto simp: buffer_rel_def)
  show ?thesis
  proof (cases "p = []")
    case True
    with assms b show ?thesis
      by (auto simp: flush_result_def result_of_def no_lines_def)
  next
    case False
    from loc [OF False] obtain ks i ke j where
      "pending_start_ingestion_index b = Some ks" "pending_start_event_offset b = Some i"
      "pending_end_ingestion_index b = Some ke" "pending_end_event_offset b = Some j"
      and pos: "base_of ks + i + length p = length C" "base_of ke + j = length C"
      by (auto simp: located_def)
    moreover have "slice C (base_of ks + i) (length C) = p"
      using suffix_slice [OF p pos(1), of "[]"] by simp
    ultimately show ?thesis
      using b False True
      by (auto simp: flush_result_def result_of_def no_lines_def buffer_rel_def clear_pending_def
          line_at_def)
  qed
qed

section \<open>A run over many events\<close>

text \<open>
  \<open>feed_events b chunks k\<close> feeds the chunks one after the other, as events \<open>k\<close>, \<open>k + 1\<close>, and so
  on; \<open>event_base chunks k\<close> is where event \<open>k\<close> begins in the stream.
\<close>

fun feed_events :: "line_buffer \<Rightarrow> bytes list \<Rightarrow> nat \<Rightarrow> exc + (line_buffer \<times> line_result list)" where
  "feed_events b [] k = Inr (b, [])"
| "feed_events b (c # cs) k =
     bind_r (feed_result b c (Some k) None (PInt 0)) (\<lambda>(b', r).
       bind_r (feed_events b' cs (Suc k)) (\<lambda>(b'', rs). Inr (b'', r # rs)))"

definition event_base :: "bytes list \<Rightarrow> nat \<Rightarrow> nat" where
  "event_base chunks k = length (concat (take k chunks))"

definition all_lines :: "line_result list \<Rightarrow> uart_line list" where
  "all_lines rs = concat (map res_lines rs)"

definition all_oversized :: "line_result list \<Rightarrow> oversized_uart_line list" where
  "all_oversized rs = concat (map res_oversized rs)"

lemma all_lines_simps [simp]:
  "all_lines [] = []" "all_lines (r # rs) = res_lines r @ all_lines rs"
  "all_oversized [] = []" "all_oversized (r # rs) = res_oversized r @ all_oversized rs"
  by (simp_all add: all_lines_def all_oversized_def)

definition run_of :: "(nat \<Rightarrow> nat) \<Rightarrow> bytes \<Rightarrow> bytes list \<Rightarrow> line_result list \<Rightarrow> bool" where
  "run_of base_of C raws rs \<longleftrightarrow>
     map ul_raw (all_lines rs) = filter fits raws
     \<and> map ol_total_bytes (all_oversized rs) = map length (filter (\<lambda>l. \<not> fits l) raws)
     \<and> (\<forall>l \<in> set (all_lines rs). line_at base_of C l)
     \<and> (\<forall>l \<in> set (all_oversized rs). over_at base_of C l \<and> ol_terminated l)"

lemma feed_events_refines:
  assumes "buffer_rel base_of C p b"
    and "\<And>i. i \<le> length chunks \<Longrightarrow> base_of (k + i) = length (C @ concat (take i chunks))"
  shows "\<exists>b' rs ls r. feed_events b chunks k = Inr (b', rs)
           \<and> cut_lines p (concat chunks) = (ls, r) \<and> buffer_rel base_of (C @ concat chunks) r b'
           \<and> run_of base_of (C @ concat chunks) ls rs
           \<and> sum_list (map res_newly rs) + over p = overs ls + over r"
  using assms
proof (induction chunks arbitrary: C p b k)
  case Nil
  then show ?case by (auto simp: run_of_def)
next
  case (Cons c cs)
  have "base_of k + 0 = length C" using Cons.prems(2) [of 0] by simp
  from feed_result_refines [OF Cons.prems(1) this, of c None] obtain b1 res ls r where
    one: "feed_result b c (Some k) None (PInt 0) = Inr (b1, res)" "cut_lines p c = (ls, r)"
    and rel: "buffer_rel base_of (C @ c) r b1" and res: "result_of base_of (C @ c) ls res"
    and tm: "\<forall>l \<in> set (res_oversized res). ol_terminated l"
    and n: "res_newly res + over p = overs ls + over r"
    by auto
  have pos: "i \<le> length cs \<Longrightarrow> base_of (Suc k + i) = length ((C @ c) @ concat (take i cs))" for i
    using Cons.prems(2) [of "Suc i"] by simp
  from Cons.IH [OF rel pos] obtain b2 rs ls2 r2 where
    two: "feed_events b1 cs (Suc k) = Inr (b2, rs)" "cut_lines r (concat cs) = (ls2, r2)"
    and rel2: "buffer_rel base_of ((C @ c) @ concat cs) r2 b2"
    and run: "run_of base_of ((C @ c) @ concat cs) ls2 rs"
    and n2: "sum_list (map res_newly rs) + over r = overs ls2 + over r2"
    by blast
  from result_of_mono [OF res, of "concat cs"] run tm
  have "run_of base_of (C @ concat (c # cs)) (ls @ ls2) (res # rs)"
    by (auto simp: run_of_def result_of_def)
  moreover have "cut_lines p (concat (c # cs)) = (ls @ ls2, r2)"
    using one(2) two(2) by (simp add: cut_lines_append)
  ultimately show ?case
    using one(1) two(1) rel2 n n2 by (auto intro!: exI [of _ b2])
qed

lemma event_base_step: "i \<le> length chunks \<Longrightarrow> event_base chunks (0 + i) = length ([] @ concat (take i chunks))"
  by (simp add: event_base_def)

lemmas feed_events_from_new =
  feed_events_refines [OF buffer_rel_new event_base_step, simplified]

text \<open>
  C12: However the UART stream is cut into receive events, feeding the events to a new line buffer
  never fails, reports exactly the newline-terminated lines of the stream that fit in 65536
  bytes, in order, reports for every longer line its exact length, counts each over-long line
  once (the unfinished one included), and afterwards holds back exactly the unfinished rest
  of the stream, or only its length when it no longer fits.
\<close>

theorem line_buffer_chunking:
  "\<exists>b rs ls r. feed_events new_buffer chunks 0 = Inr (b, rs)
     \<and> cut_lines [] (concat chunks) = (ls, r)
     \<and> map ul_raw (all_lines rs) = filter fits ls
     \<and> map ol_total_bytes (all_oversized rs) = map length (filter (\<lambda>l. \<not> fits l) ls)
     \<and> sum_list (map res_newly rs) = overs ls + over r
     \<and> pending b = (if fits r then r else [])
     \<and> oversized_total_bytes b = (if fits r then None else Some (length r))"
proof -
  obtain b rs ls r where "feed_events new_buffer chunks 0 = Inr (b, rs)"
    and "cut_lines [] (concat chunks) = (ls, r)"
    and "buffer_rel (event_base chunks) (concat chunks) r b"
    and "run_of (event_base chunks) (concat chunks) ls rs"
    and "sum_list (map res_newly rs) = overs ls + over r"
    using feed_events_from_new [of chunks] by blast
  then show ?thesis
    by (intro exI [of _ b] exI [of _ rs] exI [of _ ls] exI [of _ r])
       (simp add: buffer_rel_def run_of_def split: if_splits)
qed

text \<open>
  C19: The coordinates a line carries are exact. Reading the stream from the reported start
  (event and offset) to the reported end gives the raw bytes of the line, the text is the
  replacing UTF-8 decoding of those bytes, and an over-long line's coordinates enclose exactly
  the number of bytes it is reported to have.
\<close>

theorem line_buffer_coordinates:
  "\<exists>b rs. feed_events new_buffer chunks 0 = Inr (b, rs)
     \<and> list_all (\<lambda>l. \<exists>ks i ke j.
          ul_start_ingestion_index l = Some ks \<and> ul_start_event_offset l = Some i
          \<and> ul_end_ingestion_index l = Some ke \<and> ul_end_event_offset l = Some j
          \<and> slice (concat chunks) (event_base chunks ks + i) (event_base chunks ke + j) = ul_raw l
          \<and> ul_text l = utf8_decode_replace (ul_raw l)) (all_lines rs)
     \<and> list_all (\<lambda>l. \<exists>ks i ke j.
          ol_start_ingestion_index l = Some ks \<and> ol_start_event_offset l = Some i
          \<and> ol_end_ingestion_index l = Some ke \<and> ol_end_event_offset l = Some j
          \<and> event_base chunks ke + j \<le> length (concat chunks)
          \<and> event_base chunks ks + i + ol_total_bytes l = event_base chunks ke + j) (all_oversized rs)"
proof -
  obtain b rs ls where run: "feed_events new_buffer chunks 0 = Inr (b, rs)"
    and "run_of (event_base chunks) (concat chunks) ls rs"
    using feed_events_from_new [of chunks] by blast
  then have "\<forall>l \<in> set (all_lines rs). line_at (event_base chunks) (concat chunks) l"
    and "\<forall>l \<in> set (all_oversized rs). over_at (event_base chunks) (concat chunks) l"
    by (auto simp: run_of_def)
  with run show ?thesis
    by (simp add: list_all_iff line_at_def over_at_def) blast
qed

end
