(* ===== verification/Validation.thy ===== *)
theory Validation
  imports Codecs
begin

text \<open>
  The shared input contracts, \<open>validation.py\<close>. Every validator takes the unvalidated object and
  either returns the validated value or raises; the order of the checks is the order of the code.
  Enumerations of string literals become datatypes (\<open>gpio_channel\<close>, \<open>gpio_mode\<close>, \<open>gpio_level\<close>,
  \<open>boot_mode\<close>, \<open>gpio_source\<close>), with the name each constructor has on the wire.

  Numbers. A Python float is \<open>pyfloat\<close>; the conversion of an integer to a float raises
  \<open>OverflowError\<close> from \<open>2 ^ 1024 - 2 ^ 970\<close> on. The rounding of the conversion is not modelled:
  the values the validators let through are at most 300 and are converted exactly.
\<close>

section \<open>Character classes\<close>

text \<open>\<open>unicodedata.category(c) == "Cc"\<close>.\<close>

definition is_cc :: "nat \<Rightarrow> bool" where
  "is_cc c \<longleftrightarrow> c < 32 \<or> 127 \<le> c \<and> c \<le> 159"

text \<open>\<open>str.isspace\<close> on one character.\<close>

definition py_isspace :: "nat \<Rightarrow> bool" where
  "py_isspace c \<longleftrightarrow>
     9 \<le> c \<and> c \<le> 13 \<or> 28 \<le> c \<and> c \<le> 32 \<or> 0x2000 \<le> c \<and> c \<le> 0x200A
     \<or> c \<in> {0x85, 0xA0, 0x1680, 0x2028, 0x2029, 0x202F, 0x205F, 0x3000}"

definition is_unicode_whitespace :: "nat \<Rightarrow> bool" where
  "is_unicode_whitespace c \<longleftrightarrow>
     9 \<le> c \<and> c \<le> 13
     \<or> c \<in> {0x20, 0x85, 0xA0, 0x1680, 0x2028, 0x2029, 0x202F, 0x205F, 0x3000}
     \<or> 0x2000 \<le> c \<and> c \<le> 0x200A"

text \<open>The two whitespace tests differ only on four control characters.\<close>

lemma isspace_not_cc: "\<not> is_cc c \<Longrightarrow> py_isspace c \<longleftrightarrow> is_unicode_whitespace c"
  by (auto simp: is_cc_def py_isspace_def is_unicode_whitespace_def)

definition py_strip :: "ustr \<Rightarrow> ustr" where
  "py_strip s = rev (dropWhile py_isspace (rev (dropWhile py_isspace s)))"

section \<open>Constants and enumerations\<close>

definition MAX_GPIO_IDENTIFIER_BYTES :: nat where "MAX_GPIO_IDENTIFIER_BYTES = 64"
definition MAX_SERIAL_PORT_BYTES :: nat where "MAX_SERIAL_PORT_BYTES = 4096"
definition MAX_CAPTURE_DURATION_S :: rat where "MAX_CAPTURE_DURATION_S = 300"
definition MAX_WAIT_PATTERN_BYTES :: nat where "MAX_WAIT_PATTERN_BYTES = 256"
definition MAX_UART_SEND_BYTES :: nat where "MAX_UART_SEND_BYTES = 1024"
definition MIB_BYTES :: int where "MIB_BYTES = 1024 * 1024"

datatype gpio_channel = CTRL0 | CTRL1 | CTRL2 | CTRL3
datatype gpio_mode = OpenDrain | PushPull
datatype gpio_level = Low | High
datatype gpio_source = FromConfig | FromRuntime
datatype boot_mode = BootNormal | BootBootloader

definition ALL_CONTROL_CHANNELS :: "gpio_channel list" where
  "ALL_CONTROL_CHANNELS = [CTRL0, CTRL1, CTRL2, CTRL3]"

fun channel_name :: "gpio_channel \<Rightarrow> string" where
  "channel_name CTRL0 = ''CTRL0''"
| "channel_name CTRL1 = ''CTRL1''"
| "channel_name CTRL2 = ''CTRL2''"
| "channel_name CTRL3 = ''CTRL3''"

fun mode_name :: "gpio_mode \<Rightarrow> string" where
  "mode_name OpenDrain = ''open_drain''"
| "mode_name PushPull = ''push_pull''"

fun level_name :: "gpio_level \<Rightarrow> string" where
  "level_name Low = ''low''"
| "level_name High = ''high''"

record gpio_configuration =
  cfg_channel :: gpio_channel
  cfg_role :: ustr
  cfg_dut_signal :: ustr
  cfg_mode :: gpio_mode
  cfg_active_level :: gpio_level
  cfg_idle_level :: "gpio_level option"

section \<open>Durations and sizes\<close>

definition int_overflows_float :: "int \<Rightarrow> bool" where
  "int_overflows_float n \<longleftrightarrow> 2 ^ 1024 - 2 ^ 970 \<le> \<bar>n\<bar>"

text \<open>
  The condition shared by \<open>validate_capture_duration\<close> and \<open>validate_wait_timeout\<close>, with the
  exception each of them raises.
\<close>

definition bounded_seconds :: "exc \<Rightarrow> pyval \<Rightarrow> exc + rat" where
  "bounded_seconds e v =
     (case v of
        PInt n \<Rightarrow>
          if int_overflows_float n then Inl OverflowError
          else if n \<le> 0 \<or> MAX_CAPTURE_DURATION_S < of_int n then Inl e
          else Inr (of_int n)
      | PFloat (FFin q) \<Rightarrow> if q \<le> 0 \<or> MAX_CAPTURE_DURATION_S < q then Inl e else Inr q
      | _ \<Rightarrow> Inl e)"

definition validate_capture_duration :: "pyval \<Rightarrow> exc + rat" where
  "validate_capture_duration =
     bounded_seconds (ValueError ''duration must be a positive finite number no greater than 300 seconds'')"

definition validate_wait_timeout :: "pyval \<Rightarrow> exc + rat" where
  "validate_wait_timeout =
     bounded_seconds
       (InputValidationError ''wait timeout must be a positive finite number no greater than 300 seconds'')"

definition validate_session_max_size_mb :: "pyval \<Rightarrow> exc + int" where
  "validate_session_max_size_mb v =
     (case v of
        PInt n \<Rightarrow> if n \<le> 0 then Inl (ValueError ''session max_size_mb must be a positive integer'') else Inr n
      | _ \<Rightarrow> Inl (ValueError ''session max_size_mb must be a positive integer''))"

definition session_evidence_budget_bytes :: "pyval \<Rightarrow> exc + int" where
  "session_evidence_budget_bytes v = bind_r (validate_session_max_size_mb v) (\<lambda>n. Inr (n * MIB_BYTES))"

definition validate_reset_pulse :: "pyval \<Rightarrow> exc + int" where
  "validate_reset_pulse v =
     (case v of
        PInt n \<Rightarrow>
          if 1 \<le> n \<and> n \<le> 10000 then Inr n
          else Inl (ValueError ''Reset pulse_ms must be an integer between 1 and 10000'')
      | _ \<Rightarrow> Inl (ValueError ''Reset pulse_ms must be an integer between 1 and 10000''))"

section \<open>Text\<close>

definition validate_wait_pattern :: "pyval \<Rightarrow> exc + ustr" where
  "validate_wait_pattern v =
     (case v of
        PStr p \<Rightarrow>
          (case utf8_encode p of
             None \<Rightarrow> Inl (InputValidationError ''wait pattern must be valid Unicode'')
           | Some e \<Rightarrow>
               if \<not> (1 \<le> length e \<and> length e \<le> MAX_WAIT_PATTERN_BYTES) then
                 Inl (InputValidationError ''wait pattern must encode to 1..256 UTF-8 bytes'')
               else if of_char cr \<in> set p \<or> of_char nl \<in> set p then
                 Inl (InputValidationError ''wait pattern must not contain CR or LF'')
               else Inr p)
      | _ \<Rightarrow> Inl (InputValidationError ''wait pattern must be a string''))"

definition validate_serial_port :: "pyval \<Rightarrow> exc + ustr" where
  "validate_serial_port v =
     (case v of
        PStr p \<Rightarrow>
          (case utf8_encode p of
             None \<Rightarrow> Inl (ValueError ''serial port must be valid Unicode'')
           | Some e \<Rightarrow>
               if \<not> (1 \<le> length e \<and> length e \<le> MAX_SERIAL_PORT_BYTES) then
                 Inl (ValueError ''serial port must encode to 1..4096 UTF-8 bytes'')
               else if is_unicode_whitespace (hd p) \<or> is_unicode_whitespace (last p) then
                 Inl (ValueError ''serial port must not have leading or trailing Unicode whitespace'')
               else if \<exists>c \<in> set p. is_cc c then
                 Inl (ValueError ''serial port must not contain Unicode control characters'')
               else Inr p)
      | _ \<Rightarrow> Inl (ValueError ''serial port must be a string''))"

definition validate_session_id :: "pyval \<Rightarrow> exc + ustr" where
  "validate_session_id v =
     (case v of
        PStr s \<Rightarrow>
          if s = [] \<or> py_strip s \<noteq> s \<or> s \<in> {lit ''.'', lit ''..''} \<or> of_char (CHR ''/'') \<in> set s
             \<or> 0x5C \<in> set s
          then Inl (InputValidationError ''session ID must be a non-empty path-safe name'')
          else Inr s
      | _ \<Rightarrow> Inl (InputValidationError ''session ID must be a non-empty path-safe name''))"

definition validate_gpio_identifier :: "string \<Rightarrow> pyval \<Rightarrow> exc + ustr" where
  "validate_gpio_identifier fld v =
     (case v of
        PStr s \<Rightarrow>
          (case utf8_encode s of
             None \<Rightarrow> Inl (GpioIdentifierValidationError fld ControlCharacter None)
           | Some e \<Rightarrow>
               if \<not> (1 \<le> length e \<and> length e \<le> MAX_GPIO_IDENTIFIER_BYTES) then
                 Inl (GpioIdentifierValidationError fld InvalidLength (Some (length e)))
               else if is_unicode_whitespace (hd s) \<or> is_unicode_whitespace (last s) then
                 Inl (GpioIdentifierValidationError fld EdgeWhitespace (Some (length e)))
               else if \<exists>c \<in> set s. is_cc c then
                 Inl (GpioIdentifierValidationError fld ControlCharacter (Some (length e)))
               else Inr s)
      | _ \<Rightarrow> Inl (GpioIdentifierValidationError fld InvalidType None))"

definition validate_gpio_role :: "pyval \<Rightarrow> exc + ustr" where
  "validate_gpio_role = validate_gpio_identifier ''role''"

definition validate_gpio_dut_signal :: "pyval \<Rightarrow> exc + ustr" where
  "validate_gpio_dut_signal = validate_gpio_identifier ''dut_signal''"

section \<open>UART payloads\<close>

datatype input_form = FormDataB64 | FormText

record uart_tx_payload =
  tx_data :: bytes
  tx_input_form :: input_form
  tx_line_ending :: "ustr option"
  tx_resolved_line_ending :: "ustr option"

definition line_endings :: "(ustr \<times> bytes) list" where
  "line_endings =
     [(lit ''none'', []), (lit ''lf'', [nl]), (lit ''cr'', [cr]), (lit ''crlf'', [cr, nl])]"

definition checked_payload ::
  "bytes \<Rightarrow> input_form \<Rightarrow> ustr option \<Rightarrow> ustr option \<Rightarrow> exc + uart_tx_payload" where
  "checked_payload d form ending resolved =
     (if \<not> (1 \<le> length d \<and> length d \<le> MAX_UART_SEND_BYTES) then
        Inl (UartSendValidationError ''UART send payload must contain 1..1024 bytes'' (Some (length d)))
      else Inr \<lparr>tx_data = d, tx_input_form = form, tx_line_ending = ending,
                tx_resolved_line_ending = resolved\<rparr>)"

definition prepare_uart_tx_payload ::
  "pyval \<Rightarrow> pyval \<Rightarrow> pyval \<Rightarrow> ustr \<Rightarrow> exc + uart_tx_payload" where
  "prepare_uart_tx_payload data_b64 txt line_ending profile_default =
     (if (data_b64 = PNone) = (txt = PNone) then
        Inl (UartSendValidationError ''Supply exactly one of data_b64 or text'' None)
      else if data_b64 \<noteq> PNone then
        (case (data_b64, line_ending) of
           (PStr s, PNone) \<Rightarrow>
             if 1368 < length s then
               Inl (UartSendValidationError ''UART send payload must contain 1..1024 bytes'' None)
             else (case b64decode s of
               None \<Rightarrow> Inl (UartSendValidationError ''data_b64 must be valid base64'' None)
             | Some d \<Rightarrow> checked_payload d FormDataB64 None None)
         | _ \<Rightarrow> Inl (UartSendValidationError ''data_b64 requires a base64 string and no line_ending'' None))
      else
        (case (txt, line_ending) of
           (PStr s, PStr ending) \<Rightarrow>
             let resolved = (if ending = lit ''profile_default'' then profile_default else ending) in
             (case map_of line_endings resolved of
                None \<Rightarrow> Inl (UartSendValidationError ''Invalid UART line_ending'' None)
              | Some tail \<Rightarrow>
                  (case utf8_encode s of
                     None \<Rightarrow> Inl (UartSendValidationError ''text must be valid Unicode'' None)
                   | Some e \<Rightarrow> checked_payload (e @ tail) FormText (Some ending) (Some resolved)))
         | _ \<Rightarrow> Inl (UartSendValidationError ''text requires an explicit line_ending'' None)))"

definition tx_data_b64 :: "uart_tx_payload \<Rightarrow> ustr" where
  "tx_data_b64 p = b64encode_str (tx_data p)"

fun form_name :: "input_form \<Rightarrow> string" where
  "form_name FormDataB64 = ''data_b64''"
| "form_name FormText = ''text''"

fun opt_str :: "ustr option \<Rightarrow> pyval" where
  "opt_str None = PNone"
| "opt_str (Some s) = PStr s"

definition tx_transformation :: "uart_tx_payload \<Rightarrow> pydict" where
  "tx_transformation p =
     [(lit ''input_form'', PStr (lit (form_name (tx_input_form p)))),
      (lit ''line_ending'', opt_str (tx_line_ending p)),
      (lit ''resolved_line_ending'', opt_str (tx_resolved_line_ending p))]"

definition prepare_uart_send_payload :: "pyval \<Rightarrow> pyval \<Rightarrow> exc + bytes" where
  "prepare_uart_send_payload cmd append_newline =
     (case cmd of
        PStr s \<Rightarrow>
          (case append_newline of
             PBool appended \<Rightarrow>
               (case utf8_encode s of
                  None \<Rightarrow> Inl (UartSendValidationError ''UART send cmd must be valid Unicode'' None)
                | Some e \<Rightarrow>
                    let payload = (if appended \<and> \<not> suffix [nl] e then e @ [nl] else e) in
                    if payload = [] then
                      Inl (UartSendValidationError ''UART send payload must contain 1..1024 bytes'' (Some 0))
                    else if MAX_UART_SEND_BYTES < length payload then
                      Inl (UartSendValidationError ''UART send payload must contain 1..1024 bytes''
                             (Some (length payload)))
                    else Inr payload)
           | _ \<Rightarrow> Inl (UartSendValidationError ''UART send append_newline must be a boolean'' None))
      | _ \<Rightarrow> Inl (UartSendValidationError ''UART send cmd must be a string'' None))"

section \<open>Enumerated values\<close>

definition validate_boot_mode :: "pyval \<Rightarrow> exc + boot_mode" where
  "validate_boot_mode v =
     (if v = PStr (lit ''normal'') then Inr BootNormal
      else if v = PStr (lit ''bootloader'') then Inr BootBootloader
      else Inl (ValueError ''Boot mode must be normal or bootloader''))"

definition validate_gpio_channel :: "pyval \<Rightarrow> exc + gpio_channel" where
  "validate_gpio_channel v =
     (case List.find (\<lambda>c. v = PStr (lit (channel_name c))) ALL_CONTROL_CHANNELS of
        Some c \<Rightarrow> Inr c
      | None \<Rightarrow> Inl (ValueError ''GPIO control channel must be CTRL0, CTRL1, CTRL2, or CTRL3''))"

definition validate_gpio_mode :: "pyval \<Rightarrow> exc + gpio_mode" where
  "validate_gpio_mode v =
     (if v = PStr (lit ''open_drain'') then Inr OpenDrain
      else if v = PStr (lit ''push_pull'') then Inr PushPull
      else Inl (ValueError ''GPIO mode must be open_drain or push_pull''))"

definition validate_gpio_level :: "string \<Rightarrow> pyval \<Rightarrow> exc + gpio_level" where
  "validate_gpio_level fld v =
     (if v = PStr (lit ''low'') then Inr Low
      else if v = PStr (lit ''high'') then Inr High
      else Inl (ValueError (''GPIO '' @ fld @ '' must be low or high'')))"

definition validate_gpio_source :: "pyval \<Rightarrow> exc + gpio_source" where
  "validate_gpio_source v =
     (if v = PStr (lit ''config'') then Inr FromConfig
      else if v = PStr (lit ''runtime'') then Inr FromRuntime
      else Inl (ValueError ''GPIO mode source must be config or runtime''))"

definition validate_gpio_mode_configuration ::
  "pyval \<Rightarrow> pyval \<Rightarrow> pyval \<Rightarrow> exc + (gpio_mode \<times> gpio_level \<times> gpio_level option)" where
  "validate_gpio_mode_configuration mode active_level idle_level =
     bind_r (validate_gpio_mode mode) (\<lambda>m.
     bind_r (validate_gpio_level ''active_level'' active_level) (\<lambda>a.
     bind_r (if idle_level = PNone then Inr None
             else bind_r (validate_gpio_level ''idle_level'' idle_level) (\<lambda>l. Inr (Some l))) (\<lambda>i.
       if m = OpenDrain then
         (if a \<noteq> Low then Inl (ValueError ''GPIO open_drain active_level must be low'')
          else if i \<noteq> None then Inl (ValueError ''GPIO open_drain idle_level must be omitted'')
          else Inr (m, a, i))
       else
         (if i = None then Inl (ValueError ''GPIO push_pull idle_level is required'')
          else if i = Some a then
            Inl (ValueError ''GPIO push_pull idle_level must be opposite active_level'')
          else Inr (m, a, i)))))"

definition validate_gpio_configuration ::
  "pyval \<Rightarrow> pyval \<Rightarrow> pyval \<Rightarrow> pyval \<Rightarrow> pyval \<Rightarrow> pyval \<Rightarrow> exc + gpio_configuration" where
  "validate_gpio_configuration channel role dut_signal mode active_level idle_level =
     bind_r (validate_gpio_channel channel) (\<lambda>c.
     bind_r (validate_gpio_role role) (\<lambda>r.
     bind_r (validate_gpio_dut_signal dut_signal) (\<lambda>d.
     bind_r (validate_gpio_mode_configuration mode active_level idle_level) (\<lambda>(m, a, i).
       Inr \<lparr>cfg_channel = c, cfg_role = r, cfg_dut_signal = d, cfg_mode = m,
            cfg_active_level = a, cfg_idle_level = i\<rparr>))))"

section \<open>Lemmas\<close>

lemma validate_gpio_channel_name [simp]:
  "validate_gpio_channel (PStr (lit (channel_name c))) = Inr c"
  by (cases c) (simp_all add: validate_gpio_channel_def ALL_CONTROL_CHANNELS_def)

lemma validate_gpio_channel_Inr:
  "validate_gpio_channel v = Inr c \<longleftrightarrow> v = PStr (lit (channel_name c))"
  by (cases c)
     (auto simp: validate_gpio_channel_def ALL_CONTROL_CHANNELS_def split: if_splits)

lemma validate_gpio_mode_Inr: "validate_gpio_mode v = Inr m \<longleftrightarrow> v = PStr (lit (mode_name m))"
  by (cases m) (auto simp: validate_gpio_mode_def)

lemma validate_gpio_level_Inr: "validate_gpio_level f v = Inr l \<longleftrightarrow> v = PStr (lit (level_name l))"
  by (cases l) (auto simp: validate_gpio_level_def)

text \<open>What the electrical-mode matrix allows.\<close>

fun mode_matrix :: "gpio_mode \<Rightarrow> gpio_level \<Rightarrow> gpio_level option \<Rightarrow> bool" where
  "mode_matrix OpenDrain a i \<longleftrightarrow> a = Low \<and> i = None"
| "mode_matrix PushPull a i \<longleftrightarrow> (case i of None \<Rightarrow> False | Some l \<Rightarrow> l \<noteq> a)"

fun level_val :: "gpio_level option \<Rightarrow> pyval" where
  "level_val None = PNone"
| "level_val (Some l) = PStr (lit (level_name l))"

lemma mode_configuration_Inr:
  "validate_gpio_mode_configuration m a i = Inr (m', a', i') \<longleftrightarrow>
     m = PStr (lit (mode_name m')) \<and> a = PStr (lit (level_name a')) \<and> i = level_val i'
     \<and> mode_matrix m' a' i'"
proof
  assume "validate_gpio_mode_configuration m a i = Inr (m', a', i')"
  then show "m = PStr (lit (mode_name m')) \<and> a = PStr (lit (level_name a')) \<and> i = level_val i'
     \<and> mode_matrix m' a' i'"
    by (cases m'; cases i')
       (auto simp: validate_gpio_mode_configuration_def result_simps validate_gpio_mode_Inr
          validate_gpio_level_Inr split: if_splits)
next
  assume "m = PStr (lit (mode_name m')) \<and> a = PStr (lit (level_name a')) \<and> i = level_val i'
     \<and> mode_matrix m' a' i'"
  moreover have "validate_gpio_mode (PStr (lit (mode_name m'))) = Inr m'"
    by (simp add: validate_gpio_mode_Inr)
  moreover have "validate_gpio_level f (PStr (lit ''low'')) = Inr Low"
    "validate_gpio_level f (PStr (lit (level_name l))) = Inr l" for f l
    by (simp_all add: validate_gpio_level_Inr)
  ultimately show "validate_gpio_mode_configuration m a i = Inr (m', a', i')"
    by (cases m'; cases i') (auto simp: validate_gpio_mode_configuration_def)
qed

definition identifier_ok :: "ustr \<Rightarrow> bool" where
  "identifier_ok s \<longleftrightarrow>
     (case utf8_encode s of None \<Rightarrow> False | Some e \<Rightarrow> 1 \<le> length e \<and> length e \<le> 64)
     \<and> \<not> is_unicode_whitespace (hd s) \<and> \<not> is_unicode_whitespace (last s)
     \<and> (\<forall>c \<in> set s. \<not> is_cc c)"

lemma validate_gpio_identifier_Inr:
  "validate_gpio_identifier f v = Inr s \<longleftrightarrow> v = PStr s \<and> identifier_ok s"
  by (cases v) (auto simp: validate_gpio_identifier_def identifier_ok_def
      MAX_GPIO_IDENTIFIER_BYTES_def split: option.splits if_splits)

lemma validate_gpio_configuration_Inr:
  "validate_gpio_configuration c r d m a i = Inr q \<longleftrightarrow>
     c = PStr (lit (channel_name (cfg_channel q))) \<and> r = PStr (cfg_role q)
     \<and> d = PStr (cfg_dut_signal q) \<and> m = PStr (lit (mode_name (cfg_mode q)))
     \<and> a = PStr (lit (level_name (cfg_active_level q))) \<and> i = level_val (cfg_idle_level q)
     \<and> identifier_ok (cfg_role q) \<and> identifier_ok (cfg_dut_signal q)
     \<and> mode_matrix (cfg_mode q) (cfg_active_level q) (cfg_idle_level q)"
  by (cases q)
     (auto simp: validate_gpio_configuration_def result_simps validate_gpio_channel_Inr
        validate_gpio_identifier_Inr validate_gpio_role_def validate_gpio_dut_signal_def
        mode_configuration_Inr)

definition wait_pattern_ok :: "ustr \<Rightarrow> bool" where
  "wait_pattern_ok p \<longleftrightarrow>
     (case utf8_encode p of None \<Rightarrow> False | Some e \<Rightarrow> 1 \<le> length e \<and> length e \<le> 256)
     \<and> of_char cr \<notin> set p \<and> of_char nl \<notin> set p"

lemma validate_wait_pattern_Inr:
  "validate_wait_pattern v = Inr p \<longleftrightarrow> v = PStr p \<and> wait_pattern_ok p"
  by (cases v) (auto simp: validate_wait_pattern_def wait_pattern_ok_def
      MAX_WAIT_PATTERN_BYTES_def split: option.splits if_splits)

lemma wait_pattern_ok_encode:
  assumes "wait_pattern_ok p"
  obtains e where "utf8_encode p = Some e" and "1 \<le> length e" and "length e \<le> 256"
    and "nl \<notin> set e" and "p \<noteq> []"
proof -
  from assms obtain e where e: "utf8_encode p = Some e" "1 \<le> length e" "length e \<le> 256"
    by (auto simp: wait_pattern_ok_def split: option.splits)
  have "nl \<notin> set e"
    using assms utf8_encode_ascii [OF e(1), of nl] by (simp add: wait_pattern_ok_def)
  moreover have "p \<noteq> []" using e by auto
  ultimately show thesis using that e by blast
qed

lemma validate_wait_pattern_error: "validate_wait_pattern v = Inl e \<Longrightarrow> is_value_error e"
  by (cases v) (auto simp: validate_wait_pattern_def split: option.splits if_splits)

lemma bounded_seconds_Inr:
  "bounded_seconds e v = Inr q \<Longrightarrow> 0 < q \<and> q \<le> 300"
  by (auto simp: bounded_seconds_def MAX_CAPTURE_DURATION_S_def
      split: pyval.splits pyfloat.splits if_splits)

lemma bounded_seconds_Inl:
  "bounded_seconds e v = Inl x \<Longrightarrow>
     x = e \<or> x = OverflowError \<and> (\<exists>n. v = PInt n \<and> int_overflows_float n)"
  by (auto simp: bounded_seconds_def split: pyval.splits pyfloat.splits if_splits)

section \<open>Properties\<close>

text \<open>
  Exactly three electrical configurations of a control channel are accepted: open drain,
  active low, with no idle level, and push-pull with the idle level opposite to the active one,
  either way round. Everything else raises, and the accepted values are the ones given.
\<close>

theorem gpio_electrical_matrix:
  "validate_gpio_mode_configuration m a i = Inr (m', a', i') \<longleftrightarrow>
     (m, a, i) = (PStr (lit ''open_drain''), PStr (lit ''low''), PNone)
       \<and> (m', a', i') = (OpenDrain, Low, None)
     \<or> (m, a, i) = (PStr (lit ''push_pull''), PStr (lit ''low''), PStr (lit ''high''))
       \<and> (m', a', i') = (PushPull, Low, Some High)
     \<or> (m, a, i) = (PStr (lit ''push_pull''), PStr (lit ''high''), PStr (lit ''low''))
       \<and> (m', a', i') = (PushPull, High, Some Low)"
proof -
  consider "m' = OpenDrain" | "m' = PushPull" "i' = None"
    | "m' = PushPull" "i' = Some Low" | "m' = PushPull" "i' = Some High"
    by (metis gpio_mode.exhaust gpio_level.exhaust option.exhaust)
  then show ?thesis
    by cases (cases a'; auto simp: mode_configuration_Inr)+
qed

text \<open>
  Sending bytes in base64 form is exact. A payload of 1 to 1024 bytes, encoded in base64, is
  accepted and resolved to the same bytes, recorded with no line ending; and encoding the
  resolved payload gives the request's text back. A payload of any other length is rejected with
  a validation error.
\<close>

theorem tx_payload_base64:
  "if 1 \<le> length d \<and> length d \<le> 1024
   then \<exists>p. prepare_uart_tx_payload (PStr (b64encode_str d)) PNone PNone pd = Inr p
          \<and> tx_data p = d \<and> tx_data_b64 p = b64encode_str d
          \<and> tx_line_ending p = None \<and> tx_resolved_line_ending p = None
   else \<exists>n. prepare_uart_tx_payload (PStr (b64encode_str d)) PNone PNone pd
          = Inl (UartSendValidationError ''UART send payload must contain 1..1024 bytes'' n)"
proof (cases "length d \<le> 1024")
  case True
  then have "length (b64encode_str d) \<le> 1368"
    by (simp add: b64encode_str_def length_b64encode)
  with True show ?thesis
    by (auto simp: prepare_uart_tx_payload_def b64decode_encode checked_payload_def
        MAX_UART_SEND_BYTES_def tx_data_b64_def)
next
  case False
  then show ?thesis
    by (auto simp: prepare_uart_tx_payload_def b64decode_encode checked_payload_def
        MAX_UART_SEND_BYTES_def)
qed

text \<open>
  Sending text is exact. Whenever a text request is accepted, the bytes are the UTF-8
  encoding of the text followed by the bytes of the requested line ending (the profile's default
  ending when that is what was asked for), they are 1 to 1024 many, and the text can be read back
  from them.
\<close>

theorem tx_payload_text:
  assumes "prepare_uart_tx_payload PNone (PStr s) (PStr ending) pd = Inr p"
  defines "resolved \<equiv> if ending = lit ''profile_default'' then pd else ending"
  shows "\<exists>e tail. utf8_encode s = Some e \<and> map_of line_endings resolved = Some tail
     \<and> tx_data p = e @ tail \<and> utf8_decode e = Some s
     \<and> 1 \<le> length (tx_data p) \<and> length (tx_data p) \<le> 1024
     \<and> tx_line_ending p = Some ending \<and> tx_resolved_line_ending p = Some resolved"
  using assms utf8.dec_enc
  by (auto simp: prepare_uart_tx_payload_def checked_payload_def MAX_UART_SEND_BYTES_def Let_def
      split: option.splits if_splits)

theorem tx_payload_text_witness:
  "\<exists>p. prepare_uart_tx_payload PNone (PStr (lit ''PING'')) (PStr (lit ''profile_default'')) (lit ''crlf'')
         = Inr p \<and> tx_data p = ''PING'' @ [cr, nl]"
proof -
  have e: "utf8_encode (lit ''PING'') = Some ''PING''" by (rule utf8_encode_lit) simp
  then obtain p where p: "prepare_uart_tx_payload PNone (PStr (lit ''PING''))
      (PStr (lit ''profile_default'')) (lit ''crlf'') = Inr p"
    by (simp add: prepare_uart_tx_payload_def checked_payload_def MAX_UART_SEND_BYTES_def
        line_endings_def)
  from tx_payload_text [OF p] e p show ?thesis by (auto simp: line_endings_def)
qed

text \<open>
  A capture duration is accepted only when it is positive and at most 300 seconds, and
  whatever is not accepted raises the contract's error, with one exception: an integer too large
  for a float makes the finiteness check itself raise \<open>OverflowError\<close>, which is not a
  validation error. The statement holds for every object and the exception occurs.
\<close>

theorem capture_duration_contract:
  "(case validate_capture_duration v of
      Inr q \<Rightarrow> 0 < q \<and> q \<le> 300
    | Inl e \<Rightarrow> is_value_error e \<or> e = OverflowError \<and> (\<exists>n. v = PInt n \<and> 2 ^ 1024 - 2 ^ 970 \<le> \<bar>n\<bar>))
   \<and> validate_capture_duration (PInt (2 ^ 1024)) = Inl OverflowError
   \<and> \<not> is_value_error OverflowError"
proof -
  have "validate_capture_duration (PInt (2 ^ 1024)) = Inl OverflowError"
    by (simp add: validate_capture_duration_def bounded_seconds_def int_overflows_float_def)
  then show ?thesis
    by (auto simp: validate_capture_duration_def int_overflows_float_def
        dest: bounded_seconds_Inr bounded_seconds_Inl split: sum.splits)
qed

end
