(* ===== verification/Patterns.thy ===== *)
theory Patterns
  imports Line_Buffer Validation
begin

text \<open>
  Pattern detection in completed UART lines, \<open>log_processing/patterns.py\<close>. The detector is the
  list of its validated patterns. \<open>scan_line\<close> looks a pattern up twice, first in the decoded
  text and then in the raw bytes; the main lemma is that the first look never hides an occurrence
  in the bytes, so that the matches are exactly the patterns whose UTF-8 encoding occurs in the
  line, each with its first position.
\<close>

definition DEFAULT_PATTERNS :: "ustr list" where
  "DEFAULT_PATTERNS =
     [lit ''ERROR'', lit ''ASSERT'', lit ''PANIC'', lit ''HardFault'', lit ''BOOT_OK'']"

record pattern_match =
  pm_pattern :: ustr
  pm_line_text :: ustr
  pm_line_raw :: bytes
  pm_match_start_byte :: "nat option"
  pm_match_end_byte :: "nat option"
  pm_ingestion_index :: "nat option"
  pm_line_index_in_event :: "nat option"
  pm_line_start_ingestion_index :: "nat option"
  pm_line_start_event_offset :: "nat option"
  pm_line_end_ingestion_index :: "nat option"
  pm_line_end_event_offset :: "nat option"

text \<open>\<open>pattern in text\<close>.\<close>

definition occurs_in :: "'a list \<Rightarrow> 'a list \<Rightarrow> bool" where
  "occurs_in pat xs \<longleftrightarrow> find_at pat xs 0 \<noteq> None"

lemma occurs_in_sublist: "occurs_in pat xs \<longleftrightarrow> sublist pat xs"
  by (simp add: occurs_in_def find_at_None)

section \<open>The detector\<close>

fun check_patterns :: "ustr list \<Rightarrow> pyval list \<Rightarrow> exc + ustr list" where
  "check_patterns seen [] = Inr []"
| "check_patterns seen (v # vs) =
     (case v of
        PStr p \<Rightarrow>
          bind_r (catch_r is_value_error (\<lambda>_. ValueError ''invalid detector pattern'')
                    (validate_wait_pattern v)) (\<lambda>_.
            if p \<in> set seen then Inl (ValueError ''duplicate pattern'')
            else bind_r (check_patterns (p # seen) vs) (\<lambda>ps. Inr (p # ps)))
      | _ \<Rightarrow> Inl (TypeError ''patterns must be strings''))"

definition validate_patterns :: "pyval \<Rightarrow> exc + ustr list" where
  "validate_patterns v =
     (case v of
        PStr _ \<Rightarrow> Inl (TypeError ''patterns must be a sequence of strings, not a single string'')
      | PList vs \<Rightarrow>
          if vs = [] then Inl (ValueError ''at least one pattern is required'')
          else check_patterns [] vs
      | _ \<Rightarrow> Inl (TypeError ''object is not iterable''))"

fun scan_line :: "ustr list \<Rightarrow> uart_line \<Rightarrow> exc + pattern_match list" where
  "scan_line [] line = Inr []"
| "scan_line (pattern # patterns) line =
     (if \<not> occurs_in pattern (ul_text line) then scan_line patterns line
      else case utf8_encode pattern of
        None \<Rightarrow> Inl UnicodeEncodeError
      | Some encoded \<Rightarrow>
          (case bytes_find (ul_raw line) encoded 0 of
             None \<Rightarrow> scan_line patterns line
           | Some k \<Rightarrow>
               bind_r (scan_line patterns line) (\<lambda>ms.
                 Inr (\<lparr>pm_pattern = pattern, pm_line_text = ul_text line,
                       pm_line_raw = ul_raw line, pm_match_start_byte = Some k,
                       pm_match_end_byte = Some (k + length encoded),
                       pm_ingestion_index = ul_ingestion_index line,
                       pm_line_index_in_event = ul_line_index_in_event line,
                       pm_line_start_ingestion_index = ul_start_ingestion_index line,
                       pm_line_start_event_offset = ul_start_event_offset line,
                       pm_line_end_ingestion_index = ul_end_ingestion_index line,
                       pm_line_end_event_offset = ul_end_event_offset line\<rparr> # ms))))"

fun scan_lines :: "ustr list \<Rightarrow> uart_line list \<Rightarrow> exc + pattern_match list" where
  "scan_lines patterns [] = Inr []"
| "scan_lines patterns (line # lines) =
     bind_r (scan_line patterns line) (\<lambda>ms.
       bind_r (scan_lines patterns lines) (\<lambda>ms'. Inr (ms @ ms')))"

section \<open>Validated pattern lists\<close>

definition patterns_ok :: "ustr list \<Rightarrow> bool" where
  "patterns_ok ps \<longleftrightarrow> ps \<noteq> [] \<and> distinct ps \<and> (\<forall>p \<in> set ps. wait_pattern_ok p)"

lemma check_patterns_Inr:
  "check_patterns seen vs = Inr ps \<Longrightarrow>
     vs = map PStr ps \<and> distinct ps \<and> set ps \<inter> set seen = {} \<and> (\<forall>p \<in> set ps. wait_pattern_ok p)"
proof (induction seen vs arbitrary: ps rule: check_patterns.induct)
  case (1 seen)
  then show ?case by simp
next
  case (2 seen v vs)
  from "2.prems" obtain p qs where v: "v = PStr p" "wait_pattern_ok p" "p \<notin> set seen"
    and qs: "check_patterns (p # seen) vs = Inr qs" "ps = p # qs"
    by (auto simp: result_simps validate_wait_pattern_Inr split: pyval.splits if_splits)
  from "2.IH" [OF v(1) v(3) qs(1)] have "vs = map PStr qs \<and> distinct qs
      \<and> set qs \<inter> set (p # seen) = {} \<and> (\<forall>p \<in> set qs. wait_pattern_ok p)"
    by simp
  with v qs(2) show ?case by auto
qed

lemma validate_patterns_ok: "validate_patterns v = Inr ps \<Longrightarrow> v = PList (map PStr ps) \<and> patterns_ok ps"
  by (cases v) (auto simp: validate_patterns_def patterns_ok_def split: if_splits
      dest: check_patterns_Inr)

lemma default_patterns_ok: "patterns_ok DEFAULT_PATTERNS"
  by (simp add: patterns_ok_def DEFAULT_PATTERNS_def wait_pattern_ok_def utf8_encode_lit)
     (simp add: lit_def)

section \<open>What a scan finds\<close>

definition raw_hit :: "bytes \<Rightarrow> ustr \<Rightarrow> bool" where
  "raw_hit raw p \<longleftrightarrow> (case utf8_encode p of None \<Rightarrow> False | Some e \<Rightarrow> sublist e raw)"

definition match_exact :: "uart_line \<Rightarrow> pattern_match \<Rightarrow> bool" where
  "match_exact line m \<longleftrightarrow>
     (\<exists>e k. utf8_encode (pm_pattern m) = Some e
        \<and> pm_match_start_byte m = Some k \<and> pm_match_end_byte m = Some (k + length e)
        \<and> slice (ul_raw line) k (k + length e) = e
        \<and> (\<forall>j < k. \<not> prefix e (drop j (ul_raw line)))
        \<and> pm_line_raw m = ul_raw line \<and> pm_line_text m = ul_text line
        \<and> pm_line_start_ingestion_index m = ul_start_ingestion_index line
        \<and> pm_line_start_event_offset m = ul_start_event_offset line
        \<and> pm_line_end_ingestion_index m = ul_end_ingestion_index line
        \<and> pm_line_end_event_offset m = ul_end_event_offset line)"

lemma scan_line_correct:
  assumes "\<forall>p \<in> set ps. wait_pattern_ok p" and "ul_text line = utf8_decode_replace (ul_raw line)"
  shows "\<exists>ms. scan_line ps line = Inr ms \<and> map pm_pattern ms = filter (raw_hit (ul_raw line)) ps
           \<and> (\<forall>m \<in> set ms. match_exact line m)"
  using assms(1)
proof (induction ps)
  case Nil
  then show ?case by simp
next
  case (Cons p ps)
  then obtain ms where ms: "scan_line ps line = Inr ms"
    "map pm_pattern ms = filter (raw_hit (ul_raw line)) ps" "\<forall>m \<in> set ms. match_exact line m"
    by auto
  from Cons.prems obtain e where e: "utf8_encode p = Some e"
    by (auto elim: wait_pattern_ok_encode)
  have hit: "raw_hit (ul_raw line) p \<longleftrightarrow> sublist e (ul_raw line)" by (simp add: raw_hit_def e)
  show ?case
  proof (cases "bytes_find (ul_raw line) e 0")
    case None
    then have "\<not> sublist e (ul_raw line)" by (simp add: bytes_find_None_iff)
    with None ms e hit show ?thesis by simp
  next
    case (Some k)
    then have sub: "sublist e (ul_raw line)"
      using bytes_find_None_iff [of 0 "ul_raw line" e] by (metis drop_0 le0 option.distinct(1))
    with utf8_decode_replace_sublist [OF e] assms(2) have "occurs_in p (ul_text line)"
      by (simp add: occurs_in_sublist)
    with Some ms e hit sub bytes_find_slice [OF Some] bytes_find_least [OF Some le0]
    show ?thesis by (auto simp: match_exact_def)
  qed
qed

lemma scan_lines_correct:
  assumes "\<forall>p \<in> set ps. wait_pattern_ok p"
    and "\<forall>l \<in> set lines. ul_text l = utf8_decode_replace (ul_raw l)"
  shows "\<exists>ms. scan_lines ps lines = Inr ms
           \<and> map (\<lambda>m. (pm_line_raw m, pm_pattern m)) ms =
               concat (map (\<lambda>l. map (Pair (ul_raw l)) (filter (raw_hit (ul_raw l)) ps)) lines)
           \<and> (\<forall>m \<in> set ms. \<exists>l \<in> set lines. match_exact l m)"
  using assms(2)
proof (induction lines)
  case Nil
  then show ?case by simp
next
  case (Cons l lines)
  then obtain ms' where ms': "scan_lines ps lines = Inr ms'"
    "map (\<lambda>m. (pm_line_raw m, pm_pattern m)) ms' =
       concat (map (\<lambda>l. map (Pair (ul_raw l)) (filter (raw_hit (ul_raw l)) ps)) lines)"
    "\<forall>m \<in> set ms'. \<exists>l \<in> set lines. match_exact l m"
    by auto
  from scan_line_correct [OF assms(1), of l] Cons.prems obtain ms where
    ms: "scan_line ps l = Inr ms" "map pm_pattern ms = filter (raw_hit (ul_raw l)) ps"
    "\<forall>m \<in> set ms. match_exact l m"
    by auto
  have "map (\<lambda>m. (pm_line_raw m, pm_pattern m)) ms = map (Pair (ul_raw l)) (map pm_pattern ms)"
    using ms(3) by (auto simp: match_exact_def)
  with ms ms' show ?case by auto
qed

text \<open>
  C21: For a detector that accepted its patterns and a line whose text is the decoded view of its
  bytes, scanning reports exactly the configured patterns whose UTF-8 encoding occurs in the raw
  bytes, in configured order: the preliminary look into the lossy text never hides a match. Each
  match gives the first occurrence: the bytes between its start and its end are the encoded
  pattern, and no earlier position has it.
\<close>

theorem scan_line_exact:
  assumes "validate_patterns v = Inr ps" and "ul_text line = utf8_decode_replace (ul_raw line)"
  shows "\<exists>ms. scan_line ps line = Inr ms
     \<and> map pm_pattern ms =
         filter (\<lambda>p. \<exists>e. utf8_encode p = Some e \<and> sublist e (ul_raw line)) ps
     \<and> list_all (\<lambda>m. \<exists>e k. utf8_encode (pm_pattern m) = Some e
          \<and> pm_match_start_byte m = Some k \<and> pm_match_end_byte m = Some (k + length e)
          \<and> slice (ul_raw line) k (k + length e) = e
          \<and> list_all (\<lambda>j. \<not> prefix e (drop j (ul_raw line))) [0..<k]) ms"
proof -
  have "patterns_ok ps" using validate_patterns_ok [OF assms(1)] by simp
  then have ok: "\<forall>p \<in> set ps. wait_pattern_ok p" by (simp add: patterns_ok_def)
  have hit: "raw_hit raw = (\<lambda>p. \<exists>e. utf8_encode p = Some e \<and> sublist e raw)" for raw
    by (auto simp: raw_hit_def fun_eq_iff split: option.splits)
  from scan_line_correct [OF ok assms(2)] show ?thesis
    unfolding hit list_all_iff match_exact_def by fastforce
qed

theorem scan_line_exact_witness:
  defines "line \<equiv> \<lparr>ul_raw = ''xERROR'' @ [nl], ul_text = utf8_decode_replace (''xERROR'' @ [nl]),
      ul_ingestion_index = None, ul_line_index_in_event = None, ul_start_ingestion_index = None,
      ul_start_event_offset = None, ul_end_ingestion_index = None, ul_end_event_offset = None\<rparr>"
  shows "\<exists>ms. scan_line [lit ''PANIC'', lit ''ERROR''] line = Inr ms
           \<and> map pm_pattern ms = [lit ''ERROR'']"
proof -
  have e: "utf8_encode (lit ''PANIC'') = Some ''PANIC''" "utf8_encode (lit ''ERROR'') = Some ''ERROR''"
    by (rule utf8_encode_lit, simp)+
  have v: "validate_patterns (PList [PStr (lit ''PANIC''), PStr (lit ''ERROR'')])
      = Inr [lit ''PANIC'', lit ''ERROR'']"
    by (simp add: validate_patterns_def validate_wait_pattern_def MAX_WAIT_PATTERN_BYTES_def e)
       (simp add: lit_def)
  have "\<not> sublist ''PANIC'' (''xERROR'' @ [nl])" "sublist ''ERROR'' (''xERROR'' @ [nl])"
    by (simp_all add: occurs_in_sublist [symmetric] occurs_in_def)
  with scan_line_exact [OF v, of line] e show ?thesis by (auto simp: line_def)
qed

end
