(* ===== verification/Keyed_Buffers.thy ===== *)
theory Keyed_Buffers
  imports Line_Buffer
begin

text \<open>
  A dictionary of line buffers, one per key, created on first use. The capture processor, the
  Monitor matcher and the log replay all hold one (\<open>_line_buffer_for_channel\<close>,
  \<open>self._buffers.setdefault\<close>, \<open>buffers.setdefault\<close>) and feed the buffer of the event's key.

  The locale \<open>keyed_machine\<close> is the contract they rely on: a machine with a contract for one step,
  stated over an abstract history. Inside it one lemma shows that a dictionary of such machines
  satisfies the contract for every key separately: feeding one key changes the history of that
  key only. The interpretation at the end provides the contract for the line buffer.
\<close>

definition buffer_for :: "'b \<Rightarrow> ('k \<times> 'b) list \<Rightarrow> 'k \<Rightarrow> 'b" where
  "buffer_for new bufs k = (case map_of bufs k of None \<Rightarrow> new | Some b \<Rightarrow> b)"

definition feed_keyed ::
  "('b \<Rightarrow> 'i \<Rightarrow> exc + ('b \<times> 'o)) \<Rightarrow> 'b \<Rightarrow> ('k \<times> 'b) list \<Rightarrow> 'k \<Rightarrow> 'i
     \<Rightarrow> exc + (('k \<times> 'b) list \<times> 'o)" where
  "feed_keyed step new bufs k i =
     bind_r (step (buffer_for new bufs k) i) (\<lambda>(b', out). Inr (dict_set bufs k b', out))"

lemma buffer_for_dict_set:
  "buffer_for new (dict_set bufs k b) k' = (if k' = k then b else buffer_for new bufs k')"
  by (simp add: buffer_for_def)

lemma buffer_for_Nil [simp]: "buffer_for new [] k = new"
  by (simp add: buffer_for_def)

lemma buffer_for_dict_pop:
  "buffer_for new (dict_pop bufs k) k' = (if k' = k then new else buffer_for new bufs k')"
  by (simp add: buffer_for_def)

locale keyed_machine =
  fixes step :: "'b \<Rightarrow> 'i \<Rightarrow> exc + ('b \<times> 'o)"
    and new :: 'b
    and rel :: "'k \<Rightarrow> 'h \<Rightarrow> 'b \<Rightarrow> bool"
    and ok :: "'k \<Rightarrow> 'h \<Rightarrow> 'i \<Rightarrow> bool"
    and upd :: "'h \<Rightarrow> 'i \<Rightarrow> 'h"
    and spec :: "'k \<Rightarrow> 'h \<Rightarrow> 'i \<Rightarrow> 'o \<Rightarrow> bool"
    and h0 :: 'h
  assumes rel_new: "rel k h0 new"
    and step_ok: "rel k h b \<Longrightarrow> ok k h i \<Longrightarrow>
      \<exists>b' out. step b i = Inr (b', out) \<and> rel k (upd h i) b' \<and> spec k h i out"
begin

lemma keyed_new: "rel k h0 (buffer_for new [] k)"
  by (simp add: rel_new)

lemma keyed_step:
  assumes "\<And>k. rel k (H k) (buffer_for new bufs k)" and "ok k (H k) i"
  shows "\<exists>bufs' out. feed_keyed step new bufs k i = Inr (bufs', out)
           \<and> (\<forall>k'. rel k' ((H(k := upd (H k) i)) k') (buffer_for new bufs' k'))
           \<and> spec k (H k) i out
           \<and> dict_keys bufs' = (if k \<in> set (dict_keys bufs) then dict_keys bufs else dict_keys bufs @ [k])"
proof -
  from step_ok [OF assms(1,2)] obtain b' out where
    "step (buffer_for new bufs k) i = Inr (b', out)" "rel k (upd (H k) i) b'" "spec k (H k) i out"
    by blast
  with assms(1) show ?thesis
    by (simp add: feed_keyed_def buffer_for_dict_set dict_keys_dict_set)
qed

end

section \<open>The line buffer as a keyed machine\<close>

record feed_input =
  fi_data :: bytes
  fi_index :: nat
  fi_timestamp :: "nat option"
  fi_base :: nat

definition feed_one :: "line_buffer \<Rightarrow> feed_input \<Rightarrow> exc + (line_buffer \<times> line_result)" where
  "feed_one b i =
     feed_result b (fi_data i) (Some (fi_index i)) (fi_timestamp i) (PInt (int (fi_base i)))"

text \<open>The history of a key: the bytes consumed and the unfinished line.\<close>

definition hist_upd :: "bytes \<times> bytes \<Rightarrow> feed_input \<Rightarrow> bytes \<times> bytes" where
  "hist_upd h i = (fst h @ fi_data i, snd (cut_lines (snd h) (fi_data i)))"

definition hist_rel :: "('k \<Rightarrow> nat \<Rightarrow> nat) \<Rightarrow> 'k \<Rightarrow> bytes \<times> bytes \<Rightarrow> line_buffer \<Rightarrow> bool" where
  "hist_rel bases k h b \<longleftrightarrow> buffer_rel (bases k) (fst h) (snd h) b"

definition hist_ok :: "('k \<Rightarrow> nat \<Rightarrow> nat) \<Rightarrow> 'k \<Rightarrow> bytes \<times> bytes \<Rightarrow> feed_input \<Rightarrow> bool" where
  "hist_ok bases k h i \<longleftrightarrow> bases k (fi_index i) + fi_base i = length (fst h)"

definition hist_spec ::
  "('k \<Rightarrow> nat \<Rightarrow> nat) \<Rightarrow> 'k \<Rightarrow> bytes \<times> bytes \<Rightarrow> feed_input \<Rightarrow> line_result \<Rightarrow> bool" where
  "hist_spec bases k h i r \<longleftrightarrow>
     result_of (bases k) (fst h @ fi_data i) (fst (cut_lines (snd h) (fi_data i))) r
     \<and> res_newly r + over (snd h)
         = overs (fst (cut_lines (snd h) (fi_data i))) + over (snd (cut_lines (snd h) (fi_data i)))"

interpretation keyed_lines: keyed_machine feed_one new_buffer "hist_rel bases" "hist_ok bases"
  hist_upd "hist_spec bases" "([], [])"
proof unfold_locales
  fix k
  show "hist_rel bases k ([], []) new_buffer" by (simp add: hist_rel_def buffer_rel_new)
next
  fix k h b i
  assume "hist_rel bases k h b" and "hist_ok bases k h i"
  then have rel: "buffer_rel (bases k) (fst h) (snd h) b"
    and pos: "bases k (fi_index i) + fi_base i = length (fst h)"
    by (simp_all add: hist_rel_def hist_ok_def)
  from feed_result_refines [OF rel pos, of "fi_data i" "fi_timestamp i"]
  show "\<exists>b' out. feed_one b i = Inr (b', out) \<and> hist_rel bases k (hist_upd h i) b'
      \<and> hist_spec bases k h i out"
    by (auto simp: feed_one_def hist_rel_def hist_upd_def hist_spec_def)
qed

lemma hist_rel_flush:
  "hist_rel bases k h b \<Longrightarrow>
     \<exists>b' res. flush_result b = Inr (b', res)
       \<and> result_of (bases k) (fst h) (if snd h = [] then [] else [snd h]) res
       \<and> res_newly res = 0"
  using flush_result_refines by (fastforce simp: hist_rel_def)

lemma hist_rel_pending:
  "hist_rel bases k h b \<Longrightarrow> pending b = (if fits (snd h) then snd h else [])"
  by (auto simp: hist_rel_def buffer_rel_def split: if_splits)

lemma hist_rel_unterminated: "hist_rel bases k h b \<Longrightarrow> has_unterminated_line b \<longleftrightarrow> snd h \<noteq> []"
  by (auto simp: hist_rel_def buffer_rel_def has_unterminated_line_def split: if_splits)

end
