(* ===== verification/Uart_Processor.thy ===== *)
theory Uart_Processor
  imports Patterns Keyed_Buffers
begin

text \<open>
  The capture processor, \<open>uart_capture/processor.py\<close>: receive events of many connection segments
  and channels, interleaved, become the complete lines of each stream and the pattern matches in
  them. The state is the detector's patterns, one line buffer per segment and channel in creation
  order, and the next ingestion index.
\<close>

record uart_receive_event =
  ev_segment_id :: nat
  ev_timestamp_us :: nat
  ev_channel :: nat
  ev_data :: bytes

record capture_result =
  cr_segment_id :: nat
  cr_channel :: nat
  cr_timestamp_us :: "nat option"
  cr_lines :: "uart_line list"
  cr_matches :: "pattern_match list"
  cr_oversized_lines :: "oversized_uart_line list"
  cr_newly_oversized_line_count :: nat

type_synonym channel_key = "nat \<times> nat"

record processor =
  pr_patterns :: "ustr list"
  pr_line_buffers :: "(channel_key \<times> line_buffer) list"
  pr_next_ingestion_index :: nat

definition new_processor :: "ustr list option \<Rightarrow> processor" where
  "new_processor detector =
     \<lparr>pr_patterns = (case detector of None \<Rightarrow> DEFAULT_PATTERNS | Some ps \<Rightarrow> ps),
      pr_line_buffers = [], pr_next_ingestion_index = 0\<rparr>"

definition process_event :: "processor \<Rightarrow> uart_receive_event \<Rightarrow> exc + (processor \<times> capture_result)" where
  "process_event p e =
     (let index = pr_next_ingestion_index p;
          key = (ev_segment_id e, ev_channel e)
      in
      bind_r (feed_keyed feed_one new_buffer (pr_line_buffers p) key
                \<lparr>fi_data = ev_data e, fi_index = index, fi_timestamp = Some (ev_timestamp_us e),
                 fi_base = 0\<rparr>) (\<lambda>(bufs, buffered).
      bind_r (scan_lines (pr_patterns p) (res_lines buffered)) (\<lambda>matches.
        Inr (p\<lparr>pr_line_buffers := bufs, pr_next_ingestion_index := Suc index\<rparr>,
             \<lparr>cr_segment_id = ev_segment_id e, cr_channel = ev_channel e,
              cr_timestamp_us = Some (ev_timestamp_us e), cr_lines = res_lines buffered,
              cr_matches = matches, cr_oversized_lines = res_oversized buffered,
              cr_newly_oversized_line_count = res_newly buffered\<rparr>))))"

definition pending_bytes :: "processor \<Rightarrow> nat \<Rightarrow> nat \<Rightarrow> bytes" where
  "pending_bytes p channel segment_id =
     (case map_of (pr_line_buffers p) (segment_id, channel) of None \<Rightarrow> [] | Some b \<Rightarrow> pending b)"

definition incomplete_line_keys :: "processor \<Rightarrow> channel_key list" where
  "incomplete_line_keys p =
     map fst (filter (\<lambda>(key, b). has_unterminated_line b) (pr_line_buffers p))"

definition flush_channel :: "processor \<Rightarrow> nat \<Rightarrow> nat \<Rightarrow> exc + (processor \<times> capture_result option)" where
  "flush_channel p channel segment_id =
     (case map_of (pr_line_buffers p) (segment_id, channel) of
        None \<Rightarrow> Inr (p, None)
      | Some b \<Rightarrow>
          bind_r (flush_result b) (\<lambda>(b', buffered).
            let p' = p\<lparr>pr_line_buffers := dict_set (pr_line_buffers p) (segment_id, channel) b'\<rparr> in
            if res_lines buffered = [] \<and> res_oversized buffered = [] then Inr (p', None)
            else
              bind_r (scan_lines (pr_patterns p) (res_lines buffered)) (\<lambda>matches.
                Inr (p', Some \<lparr>cr_segment_id = segment_id, cr_channel = channel,
                               cr_timestamp_us = None, cr_lines = res_lines buffered,
                               cr_matches = matches,
                               cr_oversized_lines = res_oversized buffered,
                               cr_newly_oversized_line_count = 0\<rparr>))))"

fun flush_channels :: "processor \<Rightarrow> nat \<Rightarrow> nat list \<Rightarrow> exc + (processor \<times> capture_result list)" where
  "flush_channels p segment_id [] = Inr (p, [])"
| "flush_channels p segment_id (channel # channels) =
     bind_r (flush_channel p channel segment_id) (\<lambda>(p', result).
       let p'' = p'\<lparr>pr_line_buffers := dict_pop (pr_line_buffers p') (segment_id, channel)\<rparr> in
       bind_r (flush_channels p'' segment_id channels) (\<lambda>(p3, results).
         Inr (p3, case result of None \<Rightarrow> results | Some r \<Rightarrow> r # results)))"

definition flush_segment :: "processor \<Rightarrow> nat \<Rightarrow> exc + (processor \<times> capture_result list)" where
  "flush_segment p segment_id =
     flush_channels p segment_id
       (map snd (filter (\<lambda>key. fst key = segment_id) (dict_keys (pr_line_buffers p))))"

fun flush_segments :: "processor \<Rightarrow> nat list \<Rightarrow> exc + (processor \<times> capture_result list)" where
  "flush_segments p [] = Inr (p, [])"
| "flush_segments p (segment_id # segment_ids) =
     bind_r (flush_segment p segment_id) (\<lambda>(p', results).
       bind_r (flush_segments p' segment_ids) (\<lambda>(p'', results'). Inr (p'', results @ results')))"

text \<open>\<open>dict.fromkeys\<close> keeps the first of equal keys.\<close>

fun dedup :: "'a list \<Rightarrow> 'a list" where
  "dedup [] = []"
| "dedup (x # xs) = x # filter (\<lambda>y. y \<noteq> x) (dedup xs)"

definition flush_all :: "processor \<Rightarrow> exc + (processor \<times> capture_result list)" where
  "flush_all p = flush_segments p (dedup (map fst (dict_keys (pr_line_buffers p))))"

section \<open>A run of events\<close>

fun process_events :: "processor \<Rightarrow> uart_receive_event list \<Rightarrow> exc + (processor \<times> capture_result list)" where
  "process_events p [] = Inr (p, [])"
| "process_events p (e # es) =
     bind_r (process_event p e) (\<lambda>(p', r).
       bind_r (process_events p' es) (\<lambda>(p'', rs). Inr (p'', r # rs)))"

definition ev_key :: "uart_receive_event \<Rightarrow> channel_key" where
  "ev_key e = (ev_segment_id e, ev_channel e)"

definition cr_key :: "capture_result \<Rightarrow> channel_key" where
  "cr_key r = (cr_segment_id r, cr_channel r)"

text \<open>The bytes one key received, and the lines and descriptors reported for it.\<close>

definition stream :: "channel_key \<Rightarrow> uart_receive_event list \<Rightarrow> bytes" where
  "stream k es = concat (map ev_data (filter (\<lambda>e. ev_key e = k) es))"

definition key_lines :: "channel_key \<Rightarrow> capture_result list \<Rightarrow> uart_line list" where
  "key_lines k rs = concat (map cr_lines (filter (\<lambda>r. cr_key r = k) rs))"

definition key_oversized :: "channel_key \<Rightarrow> capture_result list \<Rightarrow> oversized_uart_line list" where
  "key_oversized k rs = concat (map cr_oversized_lines (filter (\<lambda>r. cr_key r = k) rs))"

lemma stream_simps [simp]:
  "stream k [] = []"
  "stream k (e # es) = (if ev_key e = k then ev_data e else []) @ stream k es"
  "stream k (es @ es') = stream k es @ stream k es'"
  by (simp_all add: stream_def)

lemma key_lines_simps [simp]:
  "key_lines k [] = []"
  "key_lines k (r # rs) = (if cr_key r = k then cr_lines r else []) @ key_lines k rs"
  "key_lines k (rs @ rs') = key_lines k rs @ key_lines k rs'"
  "key_oversized k [] = []"
  "key_oversized k (r # rs) = (if cr_key r = k then cr_oversized_lines r else []) @ key_oversized k rs"
  "key_oversized k (rs @ rs') = key_oversized k rs @ key_oversized k rs'"
  by (simp_all add: key_lines_def key_oversized_def)

definition matches_exact :: "ustr list \<Rightarrow> capture_result \<Rightarrow> bool" where
  "matches_exact ps r \<longleftrightarrow>
     map (\<lambda>m. (pm_line_raw m, pm_pattern m)) (cr_matches r) =
       concat (map (\<lambda>l. map (Pair (ul_raw l)) (filter (raw_hit (ul_raw l)) ps)) (cr_lines r))"

text \<open>Where event \<open>i\<close> of the run begins in the stream of key \<open>k\<close>.\<close>

definition key_base :: "uart_receive_event list \<Rightarrow> channel_key \<Rightarrow> nat \<Rightarrow> nat" where
  "key_base es k i = length (stream k (take i es))"

definition proc_rel ::
  "(channel_key \<Rightarrow> nat \<Rightarrow> nat) \<Rightarrow> (channel_key \<Rightarrow> bytes \<times> bytes) \<Rightarrow> processor \<Rightarrow> bool" where
  "proc_rel bases H p \<longleftrightarrow>
     (\<forall>k. hist_rel bases k (H k) (buffer_for new_buffer (pr_line_buffers p) k))
     \<and> distinct (dict_keys (pr_line_buffers p))"

lemma proc_rel_hist:
  "proc_rel bases H p \<Longrightarrow> hist_rel bases k (H k) (buffer_for new_buffer (pr_line_buffers p) k)"
  unfolding proc_rel_def by blast

lemma result_of_texts:
  "result_of base_of C raws r \<Longrightarrow> \<forall>l \<in> set (res_lines r). ul_text l = utf8_decode_replace (ul_raw l)"
  by (auto simp: result_of_def line_at_def)

definition proc_input :: "processor \<Rightarrow> uart_receive_event \<Rightarrow> feed_input" where
  "proc_input p e =
     \<lparr>fi_data = ev_data e, fi_index = pr_next_ingestion_index p,
      fi_timestamp = Some (ev_timestamp_us e), fi_base = 0\<rparr>"

lemma process_event_correct:
  assumes "proc_rel bases H p" and "\<forall>q \<in> set (pr_patterns p). wait_pattern_ok q"
    and "bases (ev_key e) (pr_next_ingestion_index p) = length (fst (H (ev_key e)))"
  defines "k \<equiv> ev_key e"
  shows "\<exists>p' r. process_event p e = Inr (p', r)
     \<and> proc_rel bases (H(k := hist_upd (H k) (proc_input p e))) p'
     \<and> pr_patterns p' = pr_patterns p
     \<and> pr_next_ingestion_index p' = Suc (pr_next_ingestion_index p)
     \<and> cr_key r = k \<and> matches_exact (pr_patterns p) r
     \<and> map ul_raw (cr_lines r) = filter fits (fst (cut_lines (snd (H k)) (ev_data e)))
     \<and> map ol_total_bytes (cr_oversized_lines r)
         = map length (filter (\<lambda>l. \<not> fits l) (fst (cut_lines (snd (H k)) (ev_data e))))
     \<and> set (dict_keys (pr_line_buffers p')) = insert k (set (dict_keys (pr_line_buffers p)))"
proof -
  let ?i = "proc_input p e"
  have rel: "\<And>k. hist_rel bases k (H k) (buffer_for new_buffer (pr_line_buffers p) k)"
    and dist: "distinct (dict_keys (pr_line_buffers p))"
    using assms(1) by (auto simp: proc_rel_def)
  have ok: "hist_ok bases k (H k) ?i" using assms(3) by (simp add: hist_ok_def k_def proc_input_def)
  from keyed_lines.keyed_step [OF rel ok] obtain bufs out where
    feed: "feed_keyed feed_one new_buffer (pr_line_buffers p) k ?i = Inr (bufs, out)"
    and rel': "\<forall>k'. hist_rel bases k' ((H(k := hist_upd (H k) ?i)) k') (buffer_for new_buffer bufs k')"
    and spec: "hist_spec bases k (H k) ?i out"
    and keys: "dict_keys bufs = (if k \<in> set (dict_keys (pr_line_buffers p))
      then dict_keys (pr_line_buffers p) else dict_keys (pr_line_buffers p) @ [k])"
    by blast
  from spec have res: "result_of (bases k) (fst (H k) @ ev_data e)
      (fst (cut_lines (snd (H k)) (ev_data e))) out"
    by (simp add: hist_spec_def proc_input_def)
  from scan_lines_correct [OF assms(2) result_of_texts [OF res]] obtain ms where
    ms: "scan_lines (pr_patterns p) (res_lines out) = Inr ms"
    "map (\<lambda>m. (pm_line_raw m, pm_pattern m)) ms =
       concat (map (\<lambda>l. map (Pair (ul_raw l)) (filter (raw_hit (ul_raw l)) (pr_patterns p)))
                 (res_lines out))"
    by blast
  let ?p = "p\<lparr>pr_line_buffers := bufs, pr_next_ingestion_index := Suc (pr_next_ingestion_index p)\<rparr>"
  let ?r = "\<lparr>cr_segment_id = ev_segment_id e, cr_channel = ev_channel e,
    cr_timestamp_us = Some (ev_timestamp_us e), cr_lines = res_lines out, cr_matches = ms,
    cr_oversized_lines = res_oversized out, cr_newly_oversized_line_count = res_newly out\<rparr>"
  have "process_event p e = Inr (?p, ?r)"
    using feed ms(1) by (simp add: process_event_def Let_def proc_input_def k_def ev_key_def)
  moreover have "proc_rel bases (H(k := hist_upd (H k) ?i)) ?p"
    using rel' keys dist by (auto simp: proc_rel_def)
  moreover have "matches_exact (pr_patterns p) ?r" using ms(2) by (simp add: matches_exact_def)
  ultimately show ?thesis
    using res keys by (auto simp: result_of_def cr_key_def ev_key_def k_def)
qed

definition hist_of :: "uart_receive_event list \<Rightarrow> channel_key \<Rightarrow> bytes \<times> bytes" where
  "hist_of es k = (stream k es, snd (cut_lines [] (stream k es)))"

lemma hist_of_Nil [simp]: "hist_of [] k = ([], [])"
  by (simp add: hist_of_def)

lemma hist_of_step:
  "(hist_of pre)(ev_key e := hist_upd (hist_of pre (ev_key e)) (proc_input p e)) = hist_of (pre @ [e])"
  by (auto simp: hist_of_def hist_upd_def proc_input_def fun_eq_iff cut_lines_append split: prod.splits)

lemma process_events_correct:
  assumes "proc_rel (key_base (pre @ es)) (hist_of pre) p"
    and "pr_next_ingestion_index p = length pre"
    and "\<forall>q \<in> set (pr_patterns p). wait_pattern_ok q"
  shows "\<exists>p' rs. process_events p es = Inr (p', rs)
     \<and> proc_rel (key_base (pre @ es)) (hist_of (pre @ es)) p'
     \<and> pr_patterns p' = pr_patterns p \<and> list_all (matches_exact (pr_patterns p)) rs
     \<and> (\<forall>k. map ul_raw (key_lines k rs) = filter fits (fst (cut_lines (snd (hist_of pre k)) (stream k es)))
          \<and> map ol_total_bytes (key_oversized k rs)
            = map length (filter (\<lambda>l. \<not> fits l) (fst (cut_lines (snd (hist_of pre k)) (stream k es)))))
     \<and> set (dict_keys (pr_line_buffers p')) = set (dict_keys (pr_line_buffers p)) \<union> ev_key ` set es"
  using assms
proof (induction es arbitrary: pre p)
  case Nil
  then show ?case by simp
next
  case (Cons e es)
  let ?k = "ev_key e"
  have pos: "key_base (pre @ e # es) ?k (pr_next_ingestion_index p) = length (fst (hist_of pre ?k))"
    using Cons.prems(2) by (simp add: key_base_def hist_of_def)
  from process_event_correct [OF Cons.prems(1,3) pos] obtain p1 r where
    step: "process_event p e = Inr (p1, r)"
    and rel1: "proc_rel (key_base (pre @ e # es)) (hist_of (pre @ [e])) p1"
    and p1: "pr_patterns p1 = pr_patterns p" "pr_next_ingestion_index p1 = length (pre @ [e])"
    and r: "cr_key r = ?k" "matches_exact (pr_patterns p) r"
      "map ul_raw (cr_lines r) = filter fits (fst (cut_lines (snd (hist_of pre ?k)) (ev_data e)))"
      "map ol_total_bytes (cr_oversized_lines r)
         = map length (filter (\<lambda>l. \<not> fits l) (fst (cut_lines (snd (hist_of pre ?k)) (ev_data e))))"
    and keys1: "set (dict_keys (pr_line_buffers p1)) = insert ?k (set (dict_keys (pr_line_buffers p)))"
    unfolding hist_of_step using Cons.prems(2) by auto
  have rel1': "proc_rel (key_base ((pre @ [e]) @ es)) (hist_of (pre @ [e])) p1" using rel1 by simp
  have pat1: "\<forall>q \<in> set (pr_patterns p1). wait_pattern_ok q" using Cons.prems(3) p1 by simp
  from Cons.IH [OF rel1' p1(2) pat1] obtain p2 rs where
    run: "process_events p1 es = Inr (p2, rs)"
    and rel2: "proc_rel (key_base ((pre @ [e]) @ es)) (hist_of ((pre @ [e]) @ es)) p2"
    and p2: "pr_patterns p2 = pr_patterns p1" "list_all (matches_exact (pr_patterns p1)) rs"
    and lines: "\<forall>k. map ul_raw (key_lines k rs)
          = filter fits (fst (cut_lines (snd (hist_of (pre @ [e]) k)) (stream k es)))
        \<and> map ol_total_bytes (key_oversized k rs)
          = map length (filter (\<lambda>l. \<not> fits l) (fst (cut_lines (snd (hist_of (pre @ [e]) k)) (stream k es))))"
    and keys2: "set (dict_keys (pr_line_buffers p2))
        = set (dict_keys (pr_line_buffers p1)) \<union> ev_key ` set es"
    by blast
  have rest: "snd (hist_of (pre @ [e]) k) = (if ?k = k
      then snd (cut_lines (snd (hist_of pre k)) (ev_data e)) else snd (hist_of pre k))" for k
    by (auto simp: hist_of_def cut_lines_append split: prod.splits)
  have "map ul_raw (key_lines k (r # rs))
          = filter fits (fst (cut_lines (snd (hist_of pre k)) (stream k (e # es))))
      \<and> map ol_total_bytes (key_oversized k (r # rs))
          = map length (filter (\<lambda>l. \<not> fits l) (fst (cut_lines (snd (hist_of pre k)) (stream k (e # es)))))"
    for k
    using lines [rule_format, of k] r rest [of k] by (simp add: cut_lines_fst_append)
  moreover have "process_events p (e # es) = Inr (p2, r # rs)" using step run by simp
  ultimately show ?case
    using rel2 p1 p2 r(2) keys1 keys2 by (intro exI [of _ p2] exI [of _ "r # rs"]) auto
qed

lemma proc_rel_new: "proc_rel bases (hist_of []) (new_processor d)"
  by (simp add: proc_rel_def new_processor_def hist_rel_def buffer_rel_new dict_keys_def)

text \<open>
  C13: The processor keeps the streams apart. For any interleaving of events of any segments and
  channels, processing never fails, and for every segment and channel the reported lines are
  exactly the newline-terminated lines (of at most 65536 bytes) of that stream alone, the longer
  ones are reported by their length, and the bytes still pending are its unfinished rest. Every
  result's matches are exactly the configured patterns occurring in the bytes of its lines.
\<close>

theorem processor_demultiplexes:
  assumes "validate_patterns v = Inr ps"
  shows "\<exists>p rs. process_events (new_processor (Some ps)) es = Inr (p, rs)
     \<and> list_all (matches_exact ps) rs
     \<and> (\<forall>segment channel.
          let k = (segment, channel); r = snd (cut_lines [] (stream k es)) in
          map ul_raw (key_lines k rs) = filter fits (fst (cut_lines [] (stream k es)))
          \<and> map ol_total_bytes (key_oversized k rs)
            = map length (filter (\<lambda>l. \<not> fits l) (fst (cut_lines [] (stream k es))))
          \<and> pending_bytes p channel segment = (if fits r then r else []))"
proof -
  let ?n = "new_processor (Some ps)"
  have pat: "\<forall>q \<in> set (pr_patterns ?n). wait_pattern_ok q"
    using validate_patterns_ok [OF assms] by (simp add: new_processor_def patterns_ok_def)
  have n: "pr_next_ingestion_index ?n = length []" "pr_patterns ?n = ps"
    by (simp_all add: new_processor_def)
  from process_events_correct [of "[]" es, OF _ n(1) pat] proc_rel_new obtain p rs where
    run: "process_events ?n es = Inr (p, rs)" and rel: "proc_rel (key_base es) (hist_of es) p"
    and m: "list_all (matches_exact ps) rs"
    and lines: "\<forall>k. map ul_raw (key_lines k rs) = filter fits (fst (cut_lines [] (stream k es)))
          \<and> map ol_total_bytes (key_oversized k rs)
            = map length (filter (\<lambda>l. \<not> fits l) (fst (cut_lines [] (stream k es))))"
    unfolding n(2) by auto
  have pend: "pending_bytes p channel segment
      = pending (buffer_for new_buffer (pr_line_buffers p) (segment, channel))" for segment channel
    by (simp add: pending_bytes_def buffer_for_def new_buffer_def split: option.splits)
  have "pending_bytes p channel segment =
      (let r = snd (cut_lines [] (stream (segment, channel) es)) in if fits r then r else [])"
    for segment channel
    using rel hist_rel_pending [of "key_base es" "(segment, channel)" "hist_of es (segment, channel)"]
    by (simp add: proc_rel_def pend hist_of_def)
  with run m lines show ?thesis by (auto simp: Let_def)
qed

theorem processor_demultiplexes_witness:
  defines "es \<equiv> [\<lparr>ev_segment_id = 0, ev_timestamp_us = 5, ev_channel = 0, ev_data = ''BOOT''\<rparr>,
                 \<lparr>ev_segment_id = 0, ev_timestamp_us = 6, ev_channel = 1, ev_data = ''x'' @ [nl]\<rparr>,
                 \<lparr>ev_segment_id = 0, ev_timestamp_us = 7, ev_channel = 0, ev_data = ''_OK'' @ [nl, CHR ''y'']\<rparr>]"
  shows "\<exists>p rs. process_events (new_processor (Some [lit ''BOOT_OK''])) es = Inr (p, rs)
     \<and> map ul_raw (key_lines (0, 0) rs) = [''BOOT_OK'' @ [nl]] \<and> pending_bytes p 0 0 = ''y''"
proof -
  have e: "utf8_encode (lit ''BOOT_OK'') = Some ''BOOT_OK''" by (rule utf8_encode_lit) simp
  have v: "validate_patterns (PList [PStr (lit ''BOOT_OK'')]) = Inr [lit ''BOOT_OK'']"
    by (simp add: validate_patterns_def validate_wait_pattern_def MAX_WAIT_PATTERN_BYTES_def e)
       (simp add: lit_def)
  have s: "stream (0, 0) es = ''BOOT_OK'' @ [nl, CHR ''y'']" by (simp add: es_def ev_key_def)
  then have c: "cut_lines [] (stream (0, 0) es) = ([''BOOT_OK'' @ [nl]], ''y'')" by simp
  from processor_demultiplexes [OF v, of es] obtain p rs where
    run: "process_events (new_processor (Some [lit ''BOOT_OK''])) es = Inr (p, rs)"
    and all: "\<forall>segment channel.
          let k = (segment, channel); r = snd (cut_lines [] (stream k es)) in
          map ul_raw (key_lines k rs) = filter fits (fst (cut_lines [] (stream k es)))
          \<and> map ol_total_bytes (key_oversized k rs)
            = map length (filter (\<lambda>l. \<not> fits l) (fst (cut_lines [] (stream k es))))
          \<and> pending_bytes p channel segment = (if fits r then r else [])"
    by blast
  from all [rule_format, of 0 0] run show ?thesis
    by (simp add: c Let_def MAX_UART_LINE_BYTES_def)
qed

section \<open>Flushing\<close>

definition flushed :: "bytes \<Rightarrow> bytes list" where
  "flushed r = (if r = [] then [] else [r])"

lemma flushed_Nil [simp]: "flushed [] = []"
  by (simp add: flushed_def)

definition cleared :: "channel_key set \<Rightarrow> (channel_key \<Rightarrow> bytes \<times> bytes) \<Rightarrow> channel_key \<Rightarrow> bytes \<times> bytes" where
  "cleared K H k = (if k \<in> K then (fst (H k), []) else H k)"

text \<open>
  \<open>flushes bases H K p p' rs\<close>: going from \<open>p\<close> to \<open>p'\<close> the keys \<open>K\<close> gave up their unfinished lines,
  reported in \<open>rs\<close>, and lost their buffers; the other keys are untouched.
\<close>

definition flushes ::
  "(channel_key \<Rightarrow> nat \<Rightarrow> nat) \<Rightarrow> (channel_key \<Rightarrow> bytes \<times> bytes) \<Rightarrow> channel_key set \<Rightarrow> processor
     \<Rightarrow> processor \<Rightarrow> capture_result list \<Rightarrow> bool" where
  "flushes bases H K p p' rs \<longleftrightarrow>
     proc_rel bases (cleared K H) p' \<and> pr_patterns p' = pr_patterns p
     \<and> dict_keys (pr_line_buffers p') = filter (\<lambda>k. k \<notin> K) (dict_keys (pr_line_buffers p))
     \<and> (\<forall>k. map ul_raw (key_lines k rs) = (if k \<in> K then filter fits (flushed (snd (H k))) else [])
          \<and> map ol_total_bytes (key_oversized k rs)
            = (if k \<in> K then map length (filter (\<lambda>l. \<not> fits l) (flushed (snd (H k)))) else []))"

lemma flushes_refl: "proc_rel bases H p \<Longrightarrow> flushes bases H {} p p []"
  by (simp add: flushes_def cleared_def [abs_def])

lemma flushes_trans:
  assumes "flushes bases H K p p1 rs" and "flushes bases (cleared K H) K' p1 p2 rs'"
  shows "flushes bases H (K \<union> K') p p2 (rs @ rs')"
proof -
  have c: "cleared K' (cleared K H) = cleared (K \<union> K') H"
    by (auto simp: cleared_def fun_eq_iff)
  show ?thesis
    using assms unfolding flushes_def c by (auto simp: cleared_def)
qed

lemma flush_channel_pop:
  assumes rel: "proc_rel bases H p" and pat: "\<forall>q \<in> set (pr_patterns p). wait_pattern_ok q"
    and key: "(s, c) \<in> set (dict_keys (pr_line_buffers p))"
  shows "\<exists>p' res. flush_channel p c s = Inr (p', res)
     \<and> flushes bases H {(s, c)} p
         (p'\<lparr>pr_line_buffers := dict_pop (pr_line_buffers p') (s, c)\<rparr>)
         (case res of None \<Rightarrow> [] | Some r \<Rightarrow> [r])"
proof -
  from key obtain b where b: "map_of (pr_line_buffers p) (s, c) = Some b"
    by (metis map_of_eq_None_dict not_Some_eq)
  with proc_rel_hist [OF rel, of "(s, c)"] have "hist_rel bases (s, c) (H (s, c)) b"
    by (simp add: buffer_for_def)
  from hist_rel_flush [OF this] obtain b' out where
    fl: "flush_result b = Inr (b', out)"
    and res: "result_of (bases (s, c)) (fst (H (s, c))) (flushed (snd (H (s, c)))) out"
    by (auto simp: flushed_def)
  from scan_lines_correct [OF pat result_of_texts [OF res]] obtain ms where
    ms: "scan_lines (pr_patterns p) (res_lines out) = Inr ms" by blast
  let ?p = "p\<lparr>pr_line_buffers := dict_set (pr_line_buffers p) (s, c) b'\<rparr>"
  let ?pop = "?p\<lparr>pr_line_buffers := dict_pop (pr_line_buffers ?p) (s, c)\<rparr>"
  have "hist_rel bases k (cleared {(s, c)} H k) (buffer_for new_buffer (pr_line_buffers ?pop) k)" for k
    using proc_rel_hist [OF rel, of k]
    by (cases "k = (s, c)") (simp_all add: buffer_for_dict_pop buffer_for_dict_set cleared_def
        hist_rel_def buffer_rel_new)
  moreover have "distinct (dict_keys (pr_line_buffers p))" using rel unfolding proc_rel_def by blast
  ultimately have rel': "proc_rel bases (cleared {(s, c)} H) ?pop"
    unfolding proc_rel_def by (simp add: dict_keys_dict_pop dict_keys_dict_set)
  have keys: "dict_keys (pr_line_buffers ?pop) = filter (\<lambda>k. k \<notin> {(s, c)}) (dict_keys (pr_line_buffers p))"
    using key by (simp add: dict_keys_dict_pop dict_keys_dict_set)
  show ?thesis
  proof (cases "res_lines out = [] \<and> res_oversized out = []")
    case True
    then have "flush_channel p c s = Inr (?p, None)" by (simp add: flush_channel_def b fl Let_def)
    moreover from True res have "filter fits (flushed (snd (H (s, c)))) = []"
      "filter (\<lambda>l. \<not> fits l) (flushed (snd (H (s, c)))) = []"
      by (auto simp: result_of_def)
    ultimately show ?thesis using rel' keys by (auto simp: flushes_def)
  next
    case False
    then obtain r where "flush_channel p c s = Inr (?p, Some r)"
      and "cr_key r = (s, c)" "cr_lines r = res_lines out" "cr_oversized_lines r = res_oversized out"
      by (auto simp: flush_channel_def b fl Let_def ms cr_key_def)
    with res rel' keys show ?thesis by (auto simp: flushes_def result_of_def)
  qed
qed

lemma flush_channels_correct:
  assumes "proc_rel bases H p" and "\<forall>q \<in> set (pr_patterns p). wait_pattern_ok q"
    and "distinct cs" and "\<forall>c \<in> set cs. (s, c) \<in> set (dict_keys (pr_line_buffers p))"
  shows "\<exists>p' rs. flush_channels p s cs = Inr (p', rs) \<and> flushes bases H (Pair s ` set cs) p p' rs"
  using assms
proof (induction cs arbitrary: H p)
  case Nil
  then show ?case by (simp add: flushes_refl)
next
  case (Cons c cs)
  from flush_channel_pop [OF Cons.prems(1,2)] Cons.prems(4) obtain p1 res where
    one: "flush_channel p c s = Inr (p1, res)" and
    fl: "flushes bases H {(s, c)} p (p1\<lparr>pr_line_buffers := dict_pop (pr_line_buffers p1) (s, c)\<rparr>)
           (case res of None \<Rightarrow> [] | Some r \<Rightarrow> [r])"
    by (metis list.set_intros(1))
  let ?p = "p1\<lparr>pr_line_buffers := dict_pop (pr_line_buffers p1) (s, c)\<rparr>"
  from fl have rel: "proc_rel bases (cleared {(s, c)} H) ?p"
    and pat: "\<forall>q \<in> set (pr_patterns ?p). wait_pattern_ok q"
    and keys: "dict_keys (pr_line_buffers ?p) = filter (\<lambda>k. k \<notin> {(s, c)}) (dict_keys (pr_line_buffers p))"
    using Cons.prems(2) by (simp_all add: flushes_def)
  have "\<forall>c' \<in> set cs. (s, c') \<in> set (dict_keys (pr_line_buffers ?p))"
    unfolding keys using Cons.prems(3,4) by auto
  from Cons.IH [OF rel pat _ this] Cons.prems(3) obtain p2 rs where
    rest: "flush_channels ?p s cs = Inr (p2, rs)"
    and fl2: "flushes bases (cleared {(s, c)} H) (Pair s ` set cs) ?p p2 rs"
    by auto
  have "flush_channels p s (c # cs) = Inr (p2, (case res of None \<Rightarrow> [] | Some r \<Rightarrow> [r]) @ rs)"
    using one rest by (simp add: Let_def split: option.splits)
  with flushes_trans [OF fl fl2] show ?case by (intro exI conjI) (assumption, simp)
qed

lemma flush_segment_correct:
  assumes "proc_rel bases H p" and "\<forall>q \<in> set (pr_patterns p). wait_pattern_ok q"
  shows "\<exists>p' rs. flush_segment p s = Inr (p', rs)
     \<and> flushes bases H {k \<in> set (dict_keys (pr_line_buffers p)). fst k = s} p p' rs"
proof -
  let ?ks = "filter (\<lambda>key. fst key = s) (dict_keys (pr_line_buffers p))"
  have eq: "map (Pair s) (map snd ?ks) = ?ks" by (auto intro!: map_idI)
  have "distinct (dict_keys (pr_line_buffers p))" using assms(1) by (simp add: proc_rel_def)
  then have "distinct (map (Pair s) (map snd ?ks))" unfolding eq by simp
  then have dist: "distinct (map snd ?ks)" using distinct_map by blast
  have img: "Pair s ` set (map snd ?ks) = {k \<in> set (dict_keys (pr_line_buffers p)). fst k = s}"
    using arg_cong [OF eq, of set] by auto
  then have "\<forall>c \<in> set (map snd ?ks). (s, c) \<in> set (dict_keys (pr_line_buffers p))" by auto
  from flush_channels_correct [OF assms dist this] show ?thesis
    unfolding img flush_segment_def .
qed

lemma flush_segments_correct:
  assumes "proc_rel bases H p" and "\<forall>q \<in> set (pr_patterns p). wait_pattern_ok q"
  shows "\<exists>p' rs. flush_segments p ss = Inr (p', rs)
     \<and> flushes bases H {k \<in> set (dict_keys (pr_line_buffers p)). fst k \<in> set ss} p p' rs"
  using assms
proof (induction ss arbitrary: H p)
  case Nil
  then show ?case by (simp add: flushes_refl)
next
  case (Cons s ss)
  let ?K = "{k \<in> set (dict_keys (pr_line_buffers p)). fst k = s}"
  from flush_segment_correct [OF Cons.prems, of s] obtain p1 rs where
    one: "flush_segment p s = Inr (p1, rs)" and fl: "flushes bases H ?K p p1 rs" by blast
  from fl have rel: "proc_rel bases (cleared ?K H) p1"
    and pat: "\<forall>q \<in> set (pr_patterns p1). wait_pattern_ok q"
    and keys: "dict_keys (pr_line_buffers p1) = filter (\<lambda>k. k \<notin> ?K) (dict_keys (pr_line_buffers p))"
    using Cons.prems(2) by (simp_all add: flushes_def)
  from Cons.IH [OF rel pat] obtain p2 rs' where rest: "flush_segments p1 ss = Inr (p2, rs')"
    and fl2: "flushes bases (cleared ?K H) {k \<in> set (dict_keys (pr_line_buffers p1)). fst k \<in> set ss} p1 p2 rs'"
    by blast
  have un: "?K \<union> {k \<in> set (dict_keys (pr_line_buffers p1)). fst k \<in> set ss}
      = {k \<in> set (dict_keys (pr_line_buffers p)). fst k \<in> set (s # ss)}"
    unfolding keys by auto
  from flushes_trans [OF fl fl2] one rest show ?case unfolding un by auto
qed

lemma set_dedup [simp]: "set (dedup xs) = set xs"
  by (induction xs rule: dedup.induct) auto

lemma flush_all_correct:
  assumes "proc_rel bases H p" and "\<forall>q \<in> set (pr_patterns p). wait_pattern_ok q"
  shows "\<exists>p' rs. flush_all p = Inr (p', rs) \<and> pr_line_buffers p' = []
     \<and> (\<forall>k. map ul_raw (key_lines k rs) = filter fits (flushed (snd (H k)))
          \<and> map ol_total_bytes (key_oversized k rs)
            = map length (filter (\<lambda>l. \<not> fits l) (flushed (snd (H k)))))"
proof -
  let ?K = "set (dict_keys (pr_line_buffers p))"
  have "{k \<in> ?K. fst k \<in> set (dedup (map fst (dict_keys (pr_line_buffers p))))} = ?K" by auto
  with flush_segments_correct [OF assms, of "dedup (map fst (dict_keys (pr_line_buffers p)))"]
  obtain p' rs where run: "flush_all p = Inr (p', rs)" and fl: "flushes bases H ?K p p' rs"
    unfolding flush_all_def by auto
  have out: "snd (H k) = []" if "k \<notin> ?K" for k
  proof -
    have "hist_rel bases k (H k) new_buffer"
      using proc_rel_hist [OF assms(1), of k] that
      by (simp add: buffer_for_def map_of_eq_None_dict [symmetric])
    then show ?thesis using hist_rel_unterminated by (fastforce simp: has_unterminated_line_def new_buffer_def)
  qed
  from fl have "dict_keys (pr_line_buffers p') = []" by (simp add: flushes_def)
  then have "pr_line_buffers p' = []" by (simp add: dict_keys_def)
  with run fl out show ?thesis by (auto simp: flushes_def)
qed

text \<open>
  C20: Flushing loses nothing and reports nothing twice. After any interleaving of events,
  \<open>flush_all\<close> succeeds, leaves no buffer behind, and returns for every segment and channel the
  unfinished rest of its stream as one partial line, or its length when it exceeds the line
  limit; so for a stream whose lines all fit, the reported lines followed by the flushed one are
  the bytes of the stream.
\<close>

theorem processor_flush_complete:
  assumes "validate_patterns v = Inr ps"
  shows "\<exists>p rs p' rs'. process_events (new_processor (Some ps)) es = Inr (p, rs)
     \<and> flush_all p = Inr (p', rs') \<and> pr_line_buffers p' = []
     \<and> (\<forall>k. let r = snd (cut_lines [] (stream k es)) in
          map ul_raw (key_lines k rs') = (if r \<noteq> [] \<and> fits r then [r] else [])
          \<and> map ol_total_bytes (key_oversized k rs') = (if fits r then [] else [length r])
          \<and> (key_oversized k (rs @ rs') = [] \<longrightarrow>
               concat (map ul_raw (key_lines k (rs @ rs'))) = stream k es))"
proof -
  let ?n = "new_processor (Some ps)"
  have pat: "\<forall>q \<in> set (pr_patterns ?n). wait_pattern_ok q"
    using validate_patterns_ok [OF assms] by (simp add: new_processor_def patterns_ok_def)
  have n: "pr_next_ingestion_index ?n = length []" by (simp add: new_processor_def)
  from process_events_correct [of "[]" es, OF _ n pat] proc_rel_new obtain p rs where
    run: "process_events ?n es = Inr (p, rs)" and rel: "proc_rel (key_base es) (hist_of es) p"
    and p: "pr_patterns p = pr_patterns ?n"
    and lines: "\<forall>k. map ul_raw (key_lines k rs) = filter fits (fst (cut_lines [] (stream k es)))
          \<and> map ol_total_bytes (key_oversized k rs)
            = map length (filter (\<lambda>l. \<not> fits l) (fst (cut_lines [] (stream k es))))"
    by auto
  from flush_all_correct [OF rel] pat p obtain p' rs' where
    fl: "flush_all p = Inr (p', rs')" "pr_line_buffers p' = []"
    and rest: "\<forall>k. map ul_raw (key_lines k rs') = filter fits (flushed (snd (hist_of es k)))
          \<and> map ol_total_bytes (key_oversized k rs')
            = map length (filter (\<lambda>l. \<not> fits l) (flushed (snd (hist_of es k))))"
    by auto
  have "let r = snd (cut_lines [] (stream k es)) in
          map ul_raw (key_lines k rs') = (if r \<noteq> [] \<and> fits r then [r] else [])
          \<and> map ol_total_bytes (key_oversized k rs') = (if fits r then [] else [length r])
          \<and> (key_oversized k (rs @ rs') = [] \<longrightarrow>
               concat (map ul_raw (key_lines k (rs @ rs'))) = stream k es)" for k
  proof -
    obtain ls r where cut: "cut_lines [] (stream k es) = (ls, r)" by fastforce
    from cut_lines_concat [OF cut] have all: "concat ls @ r = stream k es" by simp
    have 1: "map ul_raw (key_lines k rs) = filter fits ls"
      "map ol_total_bytes (key_oversized k rs) = map length (filter (\<lambda>l. \<not> fits l) ls)"
      using lines [rule_format, of k] by (simp_all add: cut)
    have 2: "map ul_raw (key_lines k rs') = (if r \<noteq> [] \<and> fits r then [r] else [])"
      "map ol_total_bytes (key_oversized k rs') = (if fits r then [] else [length r])"
      using rest [rule_format, of k] by (auto simp: hist_of_def cut flushed_def)
    have "concat (map ul_raw (key_lines k (rs @ rs'))) = stream k es"
      if "key_oversized k (rs @ rs') = []"
    proof -
      from that 1(2) 2(2) have "filter (\<lambda>l. \<not> fits l) ls = []" "fits r"
        by (auto split: if_splits)
      then have "filter fits ls = ls" by (simp add: filter_empty_conv filter_id_conv)
      with 1(1) 2(1) \<open>fits r\<close> all show ?thesis by auto
    qed
    with 2 show ?thesis by (simp add: cut Let_def)
  qed
  with run fl show ?thesis by blast
qed

theorem processor_flush_complete_witness:
  defines "es \<equiv> [\<lparr>ev_segment_id = 0, ev_timestamp_us = 5, ev_channel = 0,
                  ev_data = ''BOOT_OK'' @ [nl] @ ''part''\<rparr>]"
  shows "\<exists>p rs p' rs'. process_events (new_processor (Some [lit ''BOOT_OK''])) es = Inr (p, rs)
     \<and> flush_all p = Inr (p', rs') \<and> map ul_raw (key_lines (0, 0) rs') = [''part'']"
proof -
  have e: "utf8_encode (lit ''BOOT_OK'') = Some ''BOOT_OK''" by (rule utf8_encode_lit) simp
  have v: "validate_patterns (PList [PStr (lit ''BOOT_OK'')]) = Inr [lit ''BOOT_OK'']"
    by (simp add: validate_patterns_def validate_wait_pattern_def MAX_WAIT_PATTERN_BYTES_def e)
       (simp add: lit_def)
  have "snd (cut_lines [] (stream (0, 0) es)) = ''part''" by (simp add: es_def ev_key_def)
  with processor_flush_complete [OF v, of es] show ?thesis
    by (fastforce simp: Let_def MAX_UART_LINE_BYTES_def dest: spec [of _ "(0, 0)"])
qed

end
