(* ===== verification/Monitor.thy ===== *)
theory Monitor
  imports Patterns Keyed_Buffers "HOL-Library.Product_Lexorder"
begin

text \<open>
  The Monitor operation's request validation and matching, \<open>operations/monitor.py\<close>. A matcher
  reads durable evidence units of many streams (session, segment, channel), skips the line that
  was already under way when the operation began, and returns the first complete line that
  contains a requested literal, with the exact coordinates of the match.

  \<open>monitor_step\<close> is the body of the loop of \<open>MonitorMatcher.process\<close>, \<open>match_line\<close> is
  \<open>_match_line\<close>. The specification \<open>eligible\<close> is the stream of a key cut at its newlines, less the
  line under way; the theorem says that \<open>process\<close> finds the first hit in the order in which the
  lines are completed.
\<close>

definition MAX_MONITOR_CONDITIONS :: nat where "MAX_MONITOR_CONDITIONS = 8"
definition MAX_MONITOR_CONDITION_NAME_BYTES :: nat where "MAX_MONITOR_CONDITION_NAME_BYTES = 64"
definition MAX_MONITOR_MATCH_EXCERPT_BYTES :: nat where "MAX_MONITOR_MATCH_EXCERPT_BYTES = 4096"

section \<open>Requests\<close>

record monitor_condition =
  mc_pattern :: ustr
  mc_name :: "ustr option"

datatype monitor_mode = DurationMode | ConditionsMode

record monitor_request =
  mr_mode :: monitor_mode
  mr_duration_s :: "rat option"
  mr_conditions :: "monitor_condition list"
  mr_timeout_s :: "rat option"

text \<open>
  What a caller may pass: a condition is a \<open>MonitorCondition\<close>, whose fields are not checked yet, or
  something else; the conditions are absent, a text, or a sequence.
\<close>

datatype raw_condition = RawCondition pyval pyval | NotACondition
datatype raw_conditions = NoConditions | TextConditions | SomeConditions "raw_condition list"

definition validate_condition_name :: "pyval \<Rightarrow> exc + ustr option" where
  "validate_condition_name v =
     (case v of
        PNone \<Rightarrow> Inr None
      | PStr name \<Rightarrow>
          (case utf8_encode name of
             None \<Rightarrow> Inl (ValueError ''Monitor condition name must be valid Unicode'')
           | Some e \<Rightarrow>
               if \<not> (1 \<le> length e \<and> length e \<le> MAX_MONITOR_CONDITION_NAME_BYTES) then
                 Inl (ValueError ''Monitor condition name must encode to 1..64 UTF-8 bytes'')
               else if py_isspace (hd name) \<or> py_isspace (last name) then
                 Inl (ValueError ''Monitor condition name must not have edge whitespace'')
               else if \<exists>c \<in> set name. is_cc c then
                 Inl (ValueError ''Monitor condition name must not contain control characters'')
               else Inr (Some name))
      | _ \<Rightarrow> Inl (ValueError ''Monitor condition name must be a string or null''))"

definition validate_condition :: "raw_condition \<Rightarrow> exc + monitor_condition" where
  "validate_condition c =
     (case c of
        NotACondition \<Rightarrow> Inl (ValueError ''Monitor conditions must be MonitorCondition values'')
      | RawCondition p n \<Rightarrow>
          bind_r (validate_wait_pattern p) (\<lambda>pattern.
          bind_r (validate_condition_name n) (\<lambda>name.
            Inr \<lparr>mc_pattern = pattern, mc_name = name\<rparr>)))"

definition validate_monitor_request ::
  "pyval \<Rightarrow> raw_conditions \<Rightarrow> pyval \<Rightarrow> exc + monitor_request" where
  "validate_monitor_request duration_s conditions timeout_s =
     (if duration_s \<noteq> PNone \<and> conditions = NoConditions \<and> timeout_s = PNone then
        bind_r (validate_capture_duration duration_s) (\<lambda>d.
          Inr \<lparr>mr_mode = DurationMode, mr_duration_s = Some d, mr_conditions = [],
               mr_timeout_s = None\<rparr>)
      else if duration_s = PNone \<and> conditions \<noteq> NoConditions \<and> timeout_s \<noteq> PNone then
        (case conditions of
           SomeConditions cs \<Rightarrow>
             if \<not> (1 \<le> length cs \<and> length cs \<le> 8) then
               Inl (ValueError ''Monitor conditions must contain 1..8 items'')
             else
               bind_r (map_r validate_condition cs) (\<lambda>validated.
               bind_r (validate_wait_timeout timeout_s) (\<lambda>t.
                 Inr \<lparr>mr_mode = ConditionsMode, mr_duration_s = None, mr_conditions = validated,
                      mr_timeout_s = Some t\<rparr>))
         | _ \<Rightarrow> Inl (ValueError ''Monitor conditions must contain 1..8 items''))
      else Inl (ValueError ''Monitor requires exactly one completion mode''))"

section \<open>Evidence and matches\<close>

record monitor_evidence =
  me_session_id :: ustr
  me_evidence_seq :: nat
  me_segment_id :: nat
  me_timestamp_us :: nat
  me_channel :: nat
  me_data :: bytes

type_synonym monitor_key = "ustr \<times> nat \<times> nat"

definition me_key :: "monitor_evidence \<Rightarrow> monitor_key" where
  "me_key e = (me_session_id e, me_segment_id e, me_channel e)"

record monitor_match =
  mm_condition_index :: nat
  mm_condition :: monitor_condition
  mm_session_id :: ustr
  mm_source_evidence_seq :: nat
  mm_segment_id :: nat
  mm_timestamp_us :: nat
  mm_channel :: nat
  mm_line_start_evidence_seq :: nat
  mm_line_start_event_offset :: nat
  mm_line_end_evidence_seq :: nat
  mm_line_end_event_offset :: nat
  mm_total_line_bytes :: nat
  mm_match_start_byte :: nat
  mm_match_end_byte :: nat
  mm_excerpt_start_byte :: nat
  mm_excerpt_end_byte :: nat
  mm_excerpt_raw :: bytes
  mm_excerpt_text :: ustr
  mm_excerpt_truncated :: bool

definition pint :: "nat \<Rightarrow> pyval" where
  "pint n = PInt (int n)"

definition persistence_projection :: "monitor_match \<Rightarrow> pydict" where
  "persistence_projection m =
     [(lit ''condition_index'', pint (mm_condition_index m)),
      (lit ''condition'', PDict
        [(lit ''pattern'', PStr (mc_pattern (mm_condition m))),
         (lit ''name'', opt_str (mc_name (mm_condition m)))]),
      (lit ''source'', PDict
        [(lit ''session_id'', PStr (mm_session_id m)),
         (lit ''evidence_seq'', pint (mm_source_evidence_seq m)),
         (lit ''segment_id'', pint (mm_segment_id m)),
         (lit ''timestamp_us'', pint (mm_timestamp_us m)),
         (lit ''channel'', pint (mm_channel m))]),
      (lit ''line'', PDict
        [(lit ''start_evidence_seq'', pint (mm_line_start_evidence_seq m)),
         (lit ''start_event_offset'', pint (mm_line_start_event_offset m)),
         (lit ''end_evidence_seq'', pint (mm_line_end_evidence_seq m)),
         (lit ''end_event_offset'', pint (mm_line_end_event_offset m)),
         (lit ''total_bytes'', pint (mm_total_line_bytes m))]),
      (lit ''match_start_byte'', pint (mm_match_start_byte m)),
      (lit ''match_end_byte'', pint (mm_match_end_byte m)),
      (lit ''excerpt'', PDict
        [(lit ''start_byte'', pint (mm_excerpt_start_byte m)),
         (lit ''end_byte'', pint (mm_excerpt_end_byte m)),
         (lit ''raw_b64'', PStr (b64encode_str (mm_excerpt_raw m))),
         (lit ''text'', PStr (mm_excerpt_text m)),
         (lit ''truncated'', PBool (mm_excerpt_truncated m))])]"

section \<open>The matcher\<close>

record monitor_matcher =
  mx_conditions :: "monitor_condition list"
  mx_buffers :: "(monitor_key \<times> line_buffer) list"
  mx_discard_first_line :: "monitor_key list"
  mx_discarded_byte_counts :: "(monitor_key \<times> nat) list"
  mx_line_processing_limited :: bool

definition new_matcher :: "monitor_condition list \<Rightarrow> monitor_key list \<Rightarrow> exc + monitor_matcher" where
  "new_matcher conditions incomplete_channels =
     (if conditions = [] then Inl (ValueError ''Monitor matcher requires at least one condition'')
      else Inr \<lparr>mx_conditions = conditions, mx_buffers = [],
                mx_discard_first_line = incomplete_channels, mx_discarded_byte_counts = [],
                mx_line_processing_limited = False\<rparr>)"

definition required_coordinate :: "nat option \<Rightarrow> exc + nat" where
  "required_coordinate v =
     (case v of None \<Rightarrow> Inl (ValueError ''Monitor match omitted a coordinate'') | Some n \<Rightarrow> Inr n)"

text \<open>The candidates of a line, \<open>(offset, index, length)\<close> for each condition found.\<close>

fun match_candidates ::
  "bytes \<Rightarrow> nat \<Rightarrow> monitor_condition list \<Rightarrow> exc + (nat \<times> nat \<times> nat) list" where
  "match_candidates raw index [] = Inr []"
| "match_candidates raw index (c # cs) =
     (case utf8_encode (mc_pattern c) of
        None \<Rightarrow> Inl UnicodeEncodeError
      | Some encoded \<Rightarrow>
          bind_r (match_candidates raw (Suc index) cs) (\<lambda>candidates.
            Inr (case bytes_find raw encoded 0 of
                   None \<Rightarrow> candidates
                 | Some offset \<Rightarrow> (offset, index, length encoded) # candidates)))"

definition match_line ::
  "monitor_condition list \<Rightarrow> monitor_evidence \<Rightarrow> uart_line \<Rightarrow> exc + monitor_match option" where
  "match_line conditions e line =
     bind_r (match_candidates (ul_raw line) 0 conditions) (\<lambda>candidates.
       case candidates of
         [] \<Rightarrow> Inr None
       | c # cs \<Rightarrow>
           let (match_start, condition_index, pattern_bytes) = fold min cs c;
               match_end = match_start + pattern_bytes;
               total = length (ul_raw line);
               excerpt_start = min match_start (total - MAX_MONITOR_MATCH_EXCERPT_BYTES);
               excerpt_end = min total (excerpt_start + MAX_MONITOR_MATCH_EXCERPT_BYTES);
               excerpt = slice (ul_raw line) excerpt_start excerpt_end
           in
           bind_r (required_coordinate (ul_start_ingestion_index line)) (\<lambda>start_seq.
           bind_r (required_coordinate (ul_start_event_offset line)) (\<lambda>start_offset.
           bind_r (required_coordinate (ul_end_ingestion_index line)) (\<lambda>end_seq.
           bind_r (required_coordinate (ul_end_event_offset line)) (\<lambda>end_offset.
             Inr (Some
               \<lparr>mm_condition_index = condition_index, mm_condition = conditions ! condition_index,
                mm_session_id = me_session_id e, mm_source_evidence_seq = me_evidence_seq e,
                mm_segment_id = me_segment_id e, mm_timestamp_us = me_timestamp_us e,
                mm_channel = me_channel e, mm_line_start_evidence_seq = start_seq,
                mm_line_start_event_offset = start_offset, mm_line_end_evidence_seq = end_seq,
                mm_line_end_event_offset = end_offset, mm_total_line_bytes = total,
                mm_match_start_byte = match_start, mm_match_end_byte = match_end,
                mm_excerpt_start_byte = excerpt_start, mm_excerpt_end_byte = excerpt_end,
                mm_excerpt_raw = excerpt, mm_excerpt_text = utf8_decode_replace excerpt,
                mm_excerpt_truncated = (length excerpt \<noteq> total)\<rparr>))))))"

fun match_lines ::
  "monitor_condition list \<Rightarrow> monitor_evidence \<Rightarrow> uart_line list \<Rightarrow> exc + monitor_match option" where
  "match_lines conditions e [] = Inr None"
| "match_lines conditions e (line # lines) =
     bind_r (match_line conditions e line) (\<lambda>r.
       case r of None \<Rightarrow> match_lines conditions e lines | Some m \<Rightarrow> Inr (Some m))"

text \<open>The part of the loop body that feeds the line buffer of the event's key.\<close>

definition monitor_feed ::
  "monitor_matcher \<Rightarrow> monitor_evidence \<Rightarrow> bytes \<Rightarrow> nat
     \<Rightarrow> exc + (monitor_matcher \<times> monitor_match option)" where
  "monitor_feed x e data event_offset_base =
     bind_r (feed_keyed feed_one new_buffer (mx_buffers x) (me_key e)
               \<lparr>fi_data = data, fi_index = me_evidence_seq e,
                fi_timestamp = Some (me_timestamp_us e), fi_base = event_offset_base\<rparr>)
       (\<lambda>(bufs, result).
         let x' = x\<lparr>mx_buffers := bufs,
                    mx_line_processing_limited :=
                      mx_line_processing_limited x \<or> res_newly result \<noteq> 0\<rparr> in
         bind_r (match_lines (mx_conditions x) e (res_lines result)) (\<lambda>r. Inr (x', r)))"

definition monitor_step ::
  "monitor_matcher \<Rightarrow> monitor_evidence \<Rightarrow> exc + (monitor_matcher \<times> monitor_match option)" where
  "monitor_step x e =
     (let key = me_key e; data = me_data e in
      if key \<in> set (mx_discard_first_line x) then
        let newline = bytes_find data [nl] 0;
            discarded = (case newline of None \<Rightarrow> length data | Some k \<Rightarrow> k + 1);
            total = buffer_for 0 (mx_discarded_byte_counts x) key + discarded;
            x1 = x\<lparr>mx_line_processing_limited :=
                     mx_line_processing_limited x \<or> total > MAX_UART_LINE_BYTES\<rparr>
        in
        (case newline of
           None \<Rightarrow>
             Inr (x1\<lparr>mx_discarded_byte_counts := dict_set (mx_discarded_byte_counts x1) key total\<rparr>,
                  None)
         | Some _ \<Rightarrow>
             let x2 = x1\<lparr>mx_discard_first_line := filter (\<lambda>k. k \<noteq> key) (mx_discard_first_line x1),
                         mx_discarded_byte_counts := dict_pop (mx_discarded_byte_counts x1) key\<rparr>
             in
             if drop discarded data = [] then Inr (x2, None)
             else monitor_feed x2 e (drop discarded data) discarded)
      else monitor_feed x e data 0)"

fun monitor_process ::
  "monitor_matcher \<Rightarrow> monitor_evidence list \<Rightarrow> exc + (monitor_matcher \<times> monitor_match option)" where
  "monitor_process x [] = Inr (x, None)"
| "monitor_process x (e # es) =
     bind_r (monitor_step x e) (\<lambda>(x', r).
       case r of Some m \<Rightarrow> Inr (x', Some m) | None \<Rightarrow> monitor_process x' es)"

section \<open>One line\<close>

definition occurs_at :: "bytes \<Rightarrow> ustr \<Rightarrow> nat \<Rightarrow> bool" where
  "occurs_at raw p k \<longleftrightarrow>
     (case utf8_encode p of None \<Rightarrow> False | Some e \<Rightarrow> k \<le> length raw \<and> prefix e (drop k raw))"

definition line_hit :: "monitor_condition list \<Rightarrow> bytes \<Rightarrow> bool" where
  "line_hit conds raw \<longleftrightarrow> (\<exists>c \<in> set conds. raw_hit raw (mc_pattern c))"

text \<open>What a reported match says of the event and of the line it was found in.\<close>

definition describes ::
  "monitor_condition list \<Rightarrow> monitor_evidence \<Rightarrow> bytes \<Rightarrow> monitor_match \<Rightarrow> bool" where
  "describes conds e raw m \<longleftrightarrow>
     (mm_session_id m, mm_segment_id m, mm_channel m) = me_key e
     \<and> mm_source_evidence_seq m = me_evidence_seq e \<and> mm_timestamp_us m = me_timestamp_us e
     \<and> mm_total_line_bytes m = length raw
     \<and> mm_condition_index m < length conds \<and> mm_condition m = conds ! mm_condition_index m
     \<and> utf8_encode (mc_pattern (mm_condition m))
         = Some (slice raw (mm_match_start_byte m) (mm_match_end_byte m))
     \<and> (\<forall>i < length conds. \<forall>k. occurs_at raw (mc_pattern (conds ! i)) k \<longrightarrow>
          mm_match_start_byte m < k \<or> mm_match_start_byte m = k \<and> mm_condition_index m \<le> i)
     \<and> mm_excerpt_start_byte m \<le> mm_match_start_byte m
     \<and> mm_match_end_byte m \<le> mm_excerpt_end_byte m
     \<and> mm_excerpt_raw m = slice raw (mm_excerpt_start_byte m) (mm_excerpt_end_byte m)
     \<and> length (mm_excerpt_raw m) = min (length raw) MAX_MONITOR_MATCH_EXCERPT_BYTES
     \<and> mm_excerpt_text m = utf8_decode_replace (mm_excerpt_raw m)
     \<and> (mm_excerpt_truncated m \<longleftrightarrow> length raw > MAX_MONITOR_MATCH_EXCERPT_BYTES)"

definition conditions_ok :: "monitor_condition list \<Rightarrow> bool" where
  "conditions_ok conds \<longleftrightarrow> conds \<noteq> [] \<and> (\<forall>c \<in> set conds. wait_pattern_ok (mc_pattern c))"

lemma prefix_drop_sublist: "prefix e (drop k raw) \<Longrightarrow> sublist e raw"
  by (metis append_take_drop_id prefixE sublist_appendI)

lemma bytes_find_0_Some:
  "bytes_find raw e 0 = Some k \<longleftrightarrow>
     k \<le> length raw \<and> prefix e (drop k raw) \<and> (\<forall>j < k. \<not> prefix e (drop j raw))"
proof
  assume f: "bytes_find raw e 0 = Some k"
  from bytes_find_slice [OF f] have "k + length e \<le> length raw" "slice raw k (k + length e) = e"
    by simp_all
  then show "k \<le> length raw \<and> prefix e (drop k raw) \<and> (\<forall>j < k. \<not> prefix e (drop j raw))"
    using bytes_find_least [OF f] by (auto simp: slice_def) (metis take_is_prefix)
next
  assume r: "k \<le> length raw \<and> prefix e (drop k raw) \<and> (\<forall>j < k. \<not> prefix e (drop j raw))"
  then have "sublist e raw" using prefix_drop_sublist by blast
  then obtain k' where f: "bytes_find raw e 0 = Some k'"
    using bytes_find_None_iff [of 0 raw e] by auto
  from bytes_find_slice [OF f] have "prefix e (drop k' raw)"
    by (auto simp: slice_def) (metis take_is_prefix)
  moreover have "\<not> prefix e (drop j raw)" if "j < k'" for j
    using bytes_find_least [OF f _ that] by simp
  ultimately have "k' = k" using r by (metis linorder_neqE_nat)
  with f show "bytes_find raw e 0 = Some k" by simp
qed

lemma bytes_find_0_None: "bytes_find raw e 0 = None \<longleftrightarrow> \<not> sublist e raw"
  by (simp add: bytes_find_None_iff)

text \<open>The candidates are the first occurrences, each at the index of its condition.\<close>

lemma match_candidates_correct:
  assumes "\<forall>c \<in> set conds. wait_pattern_ok (mc_pattern c)"
  shows "\<exists>cs. match_candidates raw n conds = Inr cs
     \<and> set cs = {(k, n + i, length e) | k i e. i < length conds
          \<and> utf8_encode (mc_pattern (conds ! i)) = Some e \<and> bytes_find raw e 0 = Some k}
     \<and> (cs = [] \<longleftrightarrow> \<not> line_hit conds raw)"
  using assms
proof (induction conds arbitrary: n)
  case Nil
  then show ?case by (simp add: line_hit_def)
next
  case (Cons c conds)
  then obtain e where e: "utf8_encode (mc_pattern c) = Some e"
    by (auto elim: wait_pattern_ok_encode)
  from Cons.IH [of "Suc n"] Cons.prems obtain cs where
    cs: "match_candidates raw (Suc n) conds = Inr cs"
    and set_cs: "set cs = {(k, Suc n + i, length e) | k i e. i < length conds
          \<and> utf8_encode (mc_pattern (conds ! i)) = Some e \<and> bytes_find raw e 0 = Some k}"
    and nil: "cs = [] \<longleftrightarrow> \<not> line_hit conds raw" by auto
  have idx: "{(k, n + i, length e') | k i e'. i < length (c # conds)
          \<and> utf8_encode (mc_pattern ((c # conds) ! i)) = Some e' \<and> bytes_find raw e' 0 = Some k}
      = (case bytes_find raw e 0 of None \<Rightarrow> {} | Some k \<Rightarrow> {(k, n, length e)}) \<union> set cs"
    (is "?L = ?R")
  proof (intro set_eqI iffI)
    fix t assume "t \<in> ?L"
    then obtain k i e' where t: "t = (k, n + i, length e')" "i < length (c # conds)"
      "utf8_encode (mc_pattern ((c # conds) ! i)) = Some e'" "bytes_find raw e' 0 = Some k" by blast
    then show "t \<in> ?R" using e by (cases i) (auto simp: set_cs)
  next
    fix t assume "t \<in> ?R"
    then consider k where "bytes_find raw e 0 = Some k" "t = (k, n, length e)"
      | k i e' where "t = (k, Suc n + i, length e')" "i < length conds"
        "utf8_encode (mc_pattern (conds ! i)) = Some e'" "bytes_find raw e' 0 = Some k"
      by (auto simp: set_cs split: option.splits)
    then show "t \<in> ?L"
    proof cases
      case 1
      then have "t = (k, n + 0, length e)" by simp
      with 1 e show ?thesis by (intro CollectI exI [of _ k] exI [of _ 0] exI [of _ e]) simp
    next
      case 2
      then have "t = (k, n + Suc i, length e')" by simp
      with 2 show ?thesis by (intro CollectI exI [of _ k] exI [of _ "Suc i"] exI [of _ e']) simp
    qed
  qed
  have hit: "line_hit (c # conds) raw \<longleftrightarrow> bytes_find raw e 0 \<noteq> None \<or> line_hit conds raw"
    by (auto simp: line_hit_def raw_hit_def e bytes_find_0_None)
  show ?case unfolding idx hit using e cs nil by (auto split: option.splits)
qed

lemma fold_min_set: "fold min cs (c :: 'a :: linorder) = Min (set (c # cs))"
  by (simp only: Min.set_eq_fold)

lemma match_line_correct:
  assumes conds: "conditions_ok conds" and at: "line_at base C line"
  shows "\<exists>r. match_line conds e line = Inr r
     \<and> (case r of
          None \<Rightarrow> \<not> line_hit conds (ul_raw line)
        | Some m \<Rightarrow> line_hit conds (ul_raw line) \<and> describes conds e (ul_raw line) m
            \<and> slice C (base (mm_line_start_evidence_seq m) + mm_line_start_event_offset m)
                (base (mm_line_end_evidence_seq m) + mm_line_end_event_offset m) = ul_raw line)"
proof -
  let ?raw = "ul_raw line"
  from conds have "\<forall>c \<in> set conds. wait_pattern_ok (mc_pattern c)" by (simp add: conditions_ok_def)
  from match_candidates_correct [OF this, of ?raw 0] obtain cs where
    cs: "match_candidates ?raw 0 conds = Inr cs"
    and set_cs: "set cs = {(k, i, length e) | k i e. i < length conds
          \<and> utf8_encode (mc_pattern (conds ! i)) = Some e \<and> bytes_find ?raw e 0 = Some k}"
    and nil: "cs = [] \<longleftrightarrow> \<not> line_hit conds ?raw" by auto
  from at obtain ks i ke j where co: "ul_start_ingestion_index line = Some ks"
    "ul_start_event_offset line = Some i" "ul_end_ingestion_index line = Some ke"
    "ul_end_event_offset line = Some j" "slice C (base ks + i) (base ke + j) = ?raw"
    by (auto simp: line_at_def)
  show ?thesis
  proof (cases cs)
    case Nil
    with cs nil show ?thesis by (simp add: match_line_def)
  next
    case (Cons c cs')
    obtain k n len where best: "fold min cs' c = (k, n, len)" by (metis prod_cases3)
    then have minim: "Min (set cs) = (k, n, len)" by (simp only: fold_min_set Cons)
    have "(k, n, len) \<in> set cs" unfolding minim [symmetric] by (rule Min_in) (simp_all add: Cons)
    then obtain enc where n: "n < length conds" "utf8_encode (mc_pattern (conds ! n)) = Some enc"
      "bytes_find ?raw enc 0 = Some k" and len: "len = length enc"
      by (auto simp: set_cs)
    have least: "k < k' \<or> k = k' \<and> n \<le> n'" if n': "n' < length conds"
      "occurs_at ?raw (mc_pattern (conds ! n')) k'" for n' k'
    proof -
      from n'(2) obtain e' where e': "utf8_encode (mc_pattern (conds ! n')) = Some e'"
        "k' \<le> length ?raw" "prefix e' (drop k' ?raw)"
        by (auto simp: occurs_at_def split: option.splits)
      then have "sublist e' ?raw" using prefix_drop_sublist by blast
      then obtain k0 where k0: "bytes_find ?raw e' 0 = Some k0"
        using bytes_find_0_None [of ?raw e'] by auto
      with e' have "k0 \<le> k'" by (auto simp: bytes_find_0_Some not_less [symmetric])
      moreover have "(k0, n', length e') \<in> set cs" using n'(1) e'(1) k0 by (auto simp: set_cs)
      then have "(k, n, len) \<le> (k0, n', length e')" unfolding minim [symmetric] by simp
      then have "k < k0 \<or> k = k0 \<and> n \<le> n'" by auto
      ultimately show ?thesis by auto
    qed
    from bytes_find_slice [OF n(3)] have sl: "k + length enc \<le> length ?raw"
      "slice ?raw k (k + length enc) = enc" by simp_all
    have "length enc \<le> 256"
      using conds n(1,2) nth_mem [OF n(1)]
      by (auto simp: conditions_ok_def wait_pattern_ok_def split: option.splits)
    let ?es = "min k (length ?raw - MAX_MONITOR_MATCH_EXCERPT_BYTES)"
    let ?ee = "min (length ?raw) (?es + MAX_MONITOR_MATCH_EXCERPT_BYTES)"
    have win: "k + length enc \<le> ?ee" "length (slice ?raw ?es ?ee) = min (length ?raw) MAX_MONITOR_MATCH_EXCERPT_BYTES"
      using sl(1) \<open>length enc \<le> 256\<close> by (auto simp: slice_def MAX_MONITOR_MATCH_EXCERPT_BYTES_def)
    let ?m = "\<lparr>mm_condition_index = n, mm_condition = conds ! n,
      mm_session_id = me_session_id e, mm_source_evidence_seq = me_evidence_seq e,
      mm_segment_id = me_segment_id e, mm_timestamp_us = me_timestamp_us e,
      mm_channel = me_channel e, mm_line_start_evidence_seq = ks,
      mm_line_start_event_offset = i, mm_line_end_evidence_seq = ke,
      mm_line_end_event_offset = j, mm_total_line_bytes = length ?raw,
      mm_match_start_byte = k, mm_match_end_byte = k + len,
      mm_excerpt_start_byte = ?es, mm_excerpt_end_byte = ?ee,
      mm_excerpt_raw = slice ?raw ?es ?ee, mm_excerpt_text = utf8_decode_replace (slice ?raw ?es ?ee),
      mm_excerpt_truncated = (length (slice ?raw ?es ?ee) \<noteq> length ?raw)\<rparr>"
    have "match_line conds e line = Inr (Some ?m)"
      using cs co by (simp only: match_line_def Cons bind_r_Inr list.simps best Let_def prod.case
          required_coordinate_def option.case)
    moreover have "describes conds e ?raw ?m"
      unfolding describes_def monitor_match.simps me_key_def win(2) len
      using n sl win(1) least by (auto simp: min_def)
    moreover have "line_hit conds ?raw" using nil Cons by simp
    ultimately show ?thesis using co(5) by simp
  qed
qed

lemma match_lines_correct:
  assumes conds: "conditions_ok conds" and "\<forall>l \<in> set lines. line_at base C l"
  shows "\<exists>r. match_lines conds e lines = Inr r
     \<and> (case find (line_hit conds) (map ul_raw lines) of
          None \<Rightarrow> r = None
        | Some raw \<Rightarrow> \<exists>m. r = Some m \<and> describes conds e raw m
            \<and> slice C (base (mm_line_start_evidence_seq m) + mm_line_start_event_offset m)
                (base (mm_line_end_evidence_seq m) + mm_line_end_event_offset m) = raw)"
  using assms(2)
proof (induction lines)
  case (Cons l lines)
  from match_line_correct [OF conds, of base C l e] Cons.prems obtain r where
    "match_line conds e l = Inr r"
    "case r of None \<Rightarrow> \<not> line_hit conds (ul_raw l)
        | Some m \<Rightarrow> line_hit conds (ul_raw l) \<and> describes conds e (ul_raw l) m
            \<and> slice C (base (mm_line_start_evidence_seq m) + mm_line_start_event_offset m)
                (base (mm_line_end_evidence_seq m) + mm_line_end_event_offset m) = ul_raw l"
    by auto
  with Cons.IH Cons.prems show ?case by (cases r) auto
qed simp

section \<open>The eligible lines of a stream\<close>

definition mon_stream :: "monitor_key \<Rightarrow> monitor_evidence list \<Rightarrow> bytes" where
  "mon_stream k es = concat (map me_data (filter (\<lambda>e. me_key e = k) es))"

lemma mon_stream_simps [simp]:
  "mon_stream k [] = []"
  "mon_stream k (e # es) = (if me_key e = k then me_data e else []) @ mon_stream k es"
  "mon_stream k (es @ es') = mon_stream k es @ mon_stream k es'"
  by (simp_all add: mon_stream_def)

text \<open>
  The lines of a key that may match: all its complete lines, less the first one when the key had
  an unfinished line at the start. \<open>new_lines\<close> are those that one more event completes.
\<close>

definition eligible :: "monitor_key list \<Rightarrow> monitor_key \<Rightarrow> monitor_evidence list \<Rightarrow> bytes list" where
  "eligible inc k es =
     (if k \<in> set inc then tl else id) (fst (cut_lines [] (mon_stream k es)))"

definition new_lines ::
  "monitor_key list \<Rightarrow> monitor_evidence list \<Rightarrow> monitor_evidence \<Rightarrow> bytes list" where
  "new_lines inc pre e =
     drop (length (eligible inc (me_key e) pre)) (eligible inc (me_key e) (pre @ [e]))"

fun line_events ::
  "monitor_key list \<Rightarrow> monitor_evidence list \<Rightarrow> monitor_evidence list
     \<Rightarrow> (monitor_evidence \<times> bytes) list" where
  "line_events inc pre [] = []"
| "line_events inc pre (e # es) =
     map (Pair e) (filter fits (new_lines inc pre e)) @ line_events inc (pre @ [e]) es"

text \<open>Some line of the stream, complete or not, eligible or not, is longer than the limit.\<close>

definition over_line :: "monitor_key \<Rightarrow> monitor_evidence list \<Rightarrow> bool" where
  "over_line k es \<longleftrightarrow>
     (\<exists>l \<in> set (fst (cut_lines [] (mon_stream k es))) \<union> {snd (cut_lines [] (mon_stream k es))}. \<not> fits l)"

lemma overs_0_iff: "overs ls = 0 \<longleftrightarrow> (\<forall>l \<in> set ls. fits l)"
  by (auto simp: overs_def filter_empty_conv)

lemma over_0_iff: "over p = 0 \<longleftrightarrow> fits p"
  by (simp add: over_def)

lemma over_line_count:
  "over_line k es \<longleftrightarrow>
     overs (fst (cut_lines [] (mon_stream k es))) + over (snd (cut_lines [] (mon_stream k es))) \<noteq> 0"
  by (auto simp: over_line_def overs_0_iff over_0_iff)

lemma cut_lines_fst_Nil: "fst (cut_lines p x) = [] \<longleftrightarrow> nl \<notin> set x"
  by (induction p x rule: cut_lines.induct) (auto split: prod.splits)

lemma new_lines_started:
  assumes "me_key e \<notin> set inc \<or> nl \<in> set (mon_stream (me_key e) pre)"
  shows "new_lines inc pre e
    = fst (cut_lines (snd (cut_lines [] (mon_stream (me_key e) pre))) (me_data e))"
proof -
  have "tl (A @ B) = tl A @ B" if "A \<noteq> []" for A B :: "bytes list" using that by simp
  with assms show ?thesis
    by (auto simp: new_lines_def eligible_def cut_lines_fst_append cut_lines_fst_Nil)
qed

lemma new_lines_discarded:
  assumes "me_key e \<in> set inc" and "nl \<notin> set (mon_stream (me_key e) pre)"
  shows "nl \<notin> set (me_data e) \<Longrightarrow> new_lines inc pre e = []"
    and "me_data e = x @ nl # y \<Longrightarrow> nl \<notin> set x \<Longrightarrow> new_lines inc pre e = fst (cut_lines [] y)"
  using assms by (auto simp: new_lines_def eligible_def cut_lines_no_nl cut_lines_line
      simp flip: append_assoc split: prod.splits)

section \<open>One step\<close>

definition mon_hist :: "monitor_key list \<Rightarrow> monitor_evidence list \<Rightarrow> monitor_key \<Rightarrow> bytes \<times> bytes" where
  "mon_hist inc pre k =
     (mon_stream k pre,
      if k \<in> set inc \<and> nl \<notin> set (mon_stream k pre) then []
      else snd (cut_lines [] (mon_stream k pre)))"

definition mon_rel ::
  "(monitor_key \<Rightarrow> nat \<Rightarrow> nat) \<Rightarrow> monitor_key list \<Rightarrow> monitor_evidence list \<Rightarrow> monitor_matcher \<Rightarrow> bool" where
  "mon_rel bases inc pre x \<longleftrightarrow>
     (\<forall>k. hist_rel bases k (mon_hist inc pre k) (buffer_for new_buffer (mx_buffers x) k))
     \<and> set (mx_discard_first_line x) = {k \<in> set inc. nl \<notin> set (mon_stream k pre)}
     \<and> (\<forall>k \<in> set (mx_discard_first_line x).
          buffer_for 0 (mx_discarded_byte_counts x) k = length (mon_stream k pre))
     \<and> (mx_line_processing_limited x \<longleftrightarrow> (\<exists>k. over_line k pre))"

lemma over_line_other: "me_key e \<noteq> k \<Longrightarrow> over_line k (pre @ [e]) = over_line k pre"
  by (simp add: over_line_def)

lemma limited_step:
  assumes "l \<longleftrightarrow> (\<exists>k. over_line k pre)"
    and "over_line (me_key e) (pre @ [e]) \<longleftrightarrow> over_line (me_key e) pre \<or> c"
  shows "l \<or> c \<longleftrightarrow> (\<exists>k. over_line k (pre @ [e]))"
  using assms over_line_other by metis

text \<open>The feeding part of the body, for a line that begins or continues in this event.\<close>

lemma monitor_feed_correct:
  assumes conds: "conditions_ok (mx_conditions x)"
    and rel: "\<And>k. hist_rel bases k (H k) (buffer_for new_buffer (mx_buffers x) k)"
    and pos: "bases (me_key e) (me_evidence_seq e) + n = length (fst (H (me_key e)))"
  shows "\<exists>x' r ls bufs lim. monitor_feed x e data n = Inr (x', r)
     \<and> x' = x\<lparr>mx_buffers := bufs, mx_line_processing_limited := mx_line_processing_limited x \<or> lim\<rparr>
     \<and> (\<forall>k. hist_rel bases k ((H(me_key e := (fst (H (me_key e)) @ data,
              snd (cut_lines (snd (H (me_key e))) data)))) k) (buffer_for new_buffer bufs k))
     \<and> (overs (fst (cut_lines (snd (H (me_key e))) data))
          + over (snd (cut_lines (snd (H (me_key e))) data)) \<noteq> 0
        \<longleftrightarrow> over (snd (H (me_key e))) \<noteq> 0 \<or> lim)
     \<and> map ul_raw ls = filter fits (fst (cut_lines (snd (H (me_key e))) data))
     \<and> (\<forall>l \<in> set ls. line_at (bases (me_key e)) (fst (H (me_key e)) @ data) l)
     \<and> match_lines (mx_conditions x) e ls = Inr r"
proof -
  let ?k = "me_key e"
  let ?i = "\<lparr>fi_data = data, fi_index = me_evidence_seq e,
    fi_timestamp = Some (me_timestamp_us e), fi_base = n\<rparr>"
  have ok: "hist_ok bases ?k (H ?k) ?i" using pos by (simp add: hist_ok_def)
  from keyed_lines.keyed_step [OF rel ok] obtain bufs out where
    feed: "feed_keyed feed_one new_buffer (mx_buffers x) ?k ?i = Inr (bufs, out)"
    and rel': "\<forall>k'. hist_rel bases k' ((H(?k := hist_upd (H ?k) ?i)) k') (buffer_for new_buffer bufs k')"
    and spec: "hist_spec bases ?k (H ?k) ?i out"
    by blast
  from spec have res: "result_of (bases ?k) (fst (H ?k) @ data) (fst (cut_lines (snd (H ?k)) data)) out"
    and newly: "res_newly out + over (snd (H ?k))
      = overs (fst (cut_lines (snd (H ?k)) data)) + over (snd (cut_lines (snd (H ?k)) data))"
    by (auto simp: hist_spec_def)
  then have at: "\<forall>l \<in> set (res_lines out). line_at (bases ?k) (fst (H ?k) @ data) l"
    by (simp add: result_of_def)
  from match_lines_correct [OF conds at] obtain r where
    ml: "match_lines (mx_conditions x) e (res_lines out) = Inr r" by blast
  let ?x = "x\<lparr>mx_buffers := bufs,
    mx_line_processing_limited := mx_line_processing_limited x \<or> res_newly out \<noteq> 0\<rparr>"
  have "monitor_feed x e data n = Inr (?x, r)"
    using feed ml by (simp add: monitor_feed_def Let_def)
  moreover have "hist_upd (H ?k) ?i = (fst (H ?k) @ data, snd (cut_lines (snd (H ?k)) data))"
    by (simp add: hist_upd_def)
  ultimately show ?thesis
    using rel' res at ml newly
    by (intro exI [of _ ?x] exI [of _ r] exI [of _ "res_lines out"] exI [of _ bufs]
        exI [of _ "res_newly out \<noteq> 0"]) (auto simp: result_of_def)
qed

lemma mon_hist_other: "k \<noteq> me_key e \<Longrightarrow> mon_hist inc (pre @ [e]) k = mon_hist inc pre k"
  by (simp add: mon_hist_def)

lemma mon_hist_step_started:
  assumes "me_key e \<notin> set inc \<or> nl \<in> set (mon_stream (me_key e) pre)"
  shows "(mon_hist inc pre)(me_key e := (fst (mon_hist inc pre (me_key e)) @ me_data e,
      snd (cut_lines (snd (mon_hist inc pre (me_key e))) (me_data e)))) = mon_hist inc (pre @ [e])"
  using assms by (intro ext) (auto simp: mon_hist_def cut_lines_snd_append)

text \<open>
  What one step has to establish: the lines it looks at are those the event completes, and they
  lie where their coordinates say.
\<close>

definition step_result ::
  "(monitor_key \<Rightarrow> nat \<Rightarrow> nat) \<Rightarrow> monitor_key list \<Rightarrow> monitor_evidence list \<Rightarrow> monitor_evidence
     \<Rightarrow> monitor_matcher \<Rightarrow> monitor_matcher \<Rightarrow> monitor_match option \<Rightarrow> bool" where
  "step_result bases inc pre e x x' r \<longleftrightarrow>
     mon_rel bases inc (pre @ [e]) x' \<and> mx_conditions x' = mx_conditions x
     \<and> (\<exists>ls. map ul_raw ls = filter fits (new_lines inc pre e)
          \<and> (\<forall>l \<in> set ls. line_at (bases (me_key e)) (mon_stream (me_key e) (pre @ [e])) l)
          \<and> match_lines (mx_conditions x) e ls = Inr r)"

lemma mon_relI:
  assumes "\<And>k. hist_rel bases k (mon_hist inc pre k) (buffer_for new_buffer (mx_buffers x) k)"
    and "set (mx_discard_first_line x) = {k \<in> set inc. nl \<notin> set (mon_stream k pre)}"
    and "\<And>k. k \<in> set (mx_discard_first_line x) \<Longrightarrow>
          buffer_for 0 (mx_discarded_byte_counts x) k = length (mon_stream k pre)"
    and "mx_line_processing_limited x \<longleftrightarrow> (\<exists>k. over_line k pre)"
  shows "mon_rel bases inc pre x"
  using assms unfolding mon_rel_def by blast

lemma monitor_step_started:
  assumes conds: "conditions_ok (mx_conditions x)" and rel: "mon_rel bases inc pre x"
    and pos: "bases (me_key e) (me_evidence_seq e) = length (mon_stream (me_key e) pre)"
    and started: "me_key e \<notin> set (mx_discard_first_line x)"
  shows "\<exists>x' r. monitor_step x e = Inr (x', r) \<and> step_result bases inc pre e x x' r"
proof -
  let ?k = "me_key e"
  let ?S = "mon_stream ?k pre"
  have hist: "\<And>k. hist_rel bases k (mon_hist inc pre k) (buffer_for new_buffer (mx_buffers x) k)"
    and disc: "set (mx_discard_first_line x) = {k \<in> set inc. nl \<notin> set (mon_stream k pre)}"
    and cnt: "\<And>k. k \<in> set (mx_discard_first_line x) \<Longrightarrow>
          buffer_for 0 (mx_discarded_byte_counts x) k = length (mon_stream k pre)"
    and lim: "mx_line_processing_limited x \<longleftrightarrow> (\<exists>k. over_line k pre)"
    using rel unfolding mon_rel_def by blast+
  from started disc have st: "?k \<notin> set inc \<or> nl \<in> set ?S" by blast
  have h: "mon_hist inc pre ?k = (?S, snd (cut_lines [] ?S))" using st by (auto simp: mon_hist_def)
  have "bases ?k (me_evidence_seq e) + 0 = length (fst (mon_hist inc pre ?k))" using pos h by simp
  from monitor_feed_correct [OF conds hist this, of "me_data e"] obtain x' r ls bufs l where
    feed: "monitor_feed x e (me_data e) 0 = Inr (x', r)"
    and x': "x' = x\<lparr>mx_buffers := bufs, mx_line_processing_limited := mx_line_processing_limited x \<or> l\<rparr>"
    and hist': "\<forall>k. hist_rel bases k (mon_hist inc (pre @ [e]) k) (buffer_for new_buffer bufs k)"
    and newly: "overs (fst (cut_lines (snd (cut_lines [] ?S)) (me_data e)))
          + over (snd (cut_lines (snd (cut_lines [] ?S)) (me_data e))) \<noteq> 0
        \<longleftrightarrow> over (snd (cut_lines [] ?S)) \<noteq> 0 \<or> l"
    and ls: "map ul_raw ls = filter fits (fst (cut_lines (snd (cut_lines [] ?S)) (me_data e)))"
      "\<forall>l \<in> set ls. line_at (bases ?k) (?S @ me_data e) l" "match_lines (mx_conditions x) e ls = Inr r"
    unfolding mon_hist_step_started [OF st] unfolding h fst_conv snd_conv
    by - (elim exE conjE, rule that, assumption+)
  have "over_line ?k (pre @ [e]) \<longleftrightarrow> over_line ?k pre \<or> l"
    using newly by (auto simp: over_line_count cut_lines_fst_append cut_lines_snd_append)
  from limited_step [OF lim this] have lim': "mx_line_processing_limited x' \<longleftrightarrow> (\<exists>k. over_line k (pre @ [e]))"
    using x' by simp
  have same: "mx_discard_first_line x' = mx_discard_first_line x" using x' by simp
  have "mon_rel bases inc (pre @ [e]) x'"
  proof (rule mon_relI)
    show "set (mx_discard_first_line x') = {k \<in> set inc. nl \<notin> set (mon_stream k (pre @ [e]))}"
      unfolding same disc using st by auto
    show "buffer_for 0 (mx_discarded_byte_counts x') k = length (mon_stream k (pre @ [e]))"
      if "k \<in> set (mx_discard_first_line x')" for k
    proof -
      from that x' have "k \<in> set (mx_discard_first_line x)" by simp
      with cnt [OF this] started x' show ?thesis by (cases "k = ?k") auto
    qed
    show "hist_rel bases k (mon_hist inc (pre @ [e]) k) (buffer_for new_buffer (mx_buffers x') k)" for k
      using hist' [rule_format, of k] x' by simp
  qed (rule lim')
  moreover have "monitor_step x e = Inr (x', r)" using feed started by (simp add: monitor_step_def)
  moreover have "mx_conditions x' = mx_conditions x" using x' by simp
  ultimately show ?thesis
    using ls new_lines_started [OF st] unfolding step_result_def by auto
qed

lemma cut_line_split:
  assumes "nl \<in> set data"
  obtains x y where "data = x @ nl # y" and "nl \<notin> set x" and "bytes_find data [nl] 0 = Some (length x)"
proof -
  from split_list_first [OF assms] obtain x y where xy: "data = x @ nl # y" "nl \<notin> set x" by blast
  then have "bytes_find data [nl] 0 = Some (length x)"
    by (simp add: bytes_find_def find_at_single_split)
  with xy that show thesis by blast
qed

lemma hist_rel_idle: "hist_rel bases k (C, []) b \<Longrightarrow> hist_rel bases k (C @ D, []) b"
  by (simp add: hist_rel_def buffer_rel_def)

lemma monitor_step_discarding:
  assumes conds: "conditions_ok (mx_conditions x)" and rel: "mon_rel bases inc pre x"
    and pos: "bases (me_key e) (me_evidence_seq e) = length (mon_stream (me_key e) pre)"
    and disc_k: "me_key e \<in> set (mx_discard_first_line x)" and no_nl: "nl \<notin> set (me_data e)"
  shows "\<exists>x' r. monitor_step x e = Inr (x', r) \<and> step_result bases inc pre e x x' r"
proof -
  let ?k = "me_key e"
  let ?S = "mon_stream ?k pre"
  let ?t = "length (mon_stream ?k (pre @ [e]))"
  have hist: "\<And>k. hist_rel bases k (mon_hist inc pre k) (buffer_for new_buffer (mx_buffers x) k)"
    and disc: "set (mx_discard_first_line x) = {k \<in> set inc. nl \<notin> set (mon_stream k pre)}"
    and cnt: "\<And>k. k \<in> set (mx_discard_first_line x) \<Longrightarrow>
          buffer_for 0 (mx_discarded_byte_counts x) k = length (mon_stream k pre)"
    and lim: "mx_line_processing_limited x \<longleftrightarrow> (\<exists>k. over_line k pre)"
    using rel unfolding mon_rel_def by blast+
  from disc_k disc have inc: "?k \<in> set inc" "nl \<notin> set ?S" by blast+
  let ?x = "x\<lparr>mx_line_processing_limited := mx_line_processing_limited x \<or> ?t > MAX_UART_LINE_BYTES,
    mx_discarded_byte_counts := dict_set (mx_discarded_byte_counts x) ?k ?t\<rparr>"
  have "bytes_find (me_data e) [nl] 0 = None"
    using no_nl by (simp add: bytes_find_def find_at_single_None)
  then have step: "monitor_step x e = Inr (?x, None)"
    using disc_k cnt [OF disc_k] by (simp add: monitor_step_def Let_def)
  have "over_line ?k (pre @ [e]) \<longleftrightarrow> over_line ?k pre \<or> ?t > MAX_UART_LINE_BYTES"
    using inc(2) no_nl by (auto simp: over_line_def cut_lines_no_nl)
  from limited_step [OF lim this] have lim': "mx_line_processing_limited ?x \<longleftrightarrow> (\<exists>k. over_line k (pre @ [e]))"
    by simp
  have "mon_rel bases inc (pre @ [e]) ?x"
  proof (rule mon_relI)
    show "hist_rel bases k (mon_hist inc (pre @ [e]) k) (buffer_for new_buffer (mx_buffers ?x) k)" for k
    proof (cases "k = ?k")
      case True
      have "hist_rel bases k (?S, []) (buffer_for new_buffer (mx_buffers x) k)"
        using hist [of k] inc True by (simp add: mon_hist_def)
      from hist_rel_idle [OF this, of "me_data e"] show ?thesis
        using True inc no_nl by (simp add: mon_hist_def)
    next
      case False
      with hist [of k] mon_hist_other [OF False] show ?thesis by simp
    qed
    show "set (mx_discard_first_line ?x) = {k \<in> set inc. nl \<notin> set (mon_stream k (pre @ [e]))}"
      using disc no_nl by auto
    show "buffer_for 0 (mx_discarded_byte_counts ?x) k = length (mon_stream k (pre @ [e]))"
      if "k \<in> set (mx_discard_first_line ?x)" for k
      using that cnt [of k] by (cases "k = ?k") (auto simp: buffer_for_dict_set)
    show "mx_line_processing_limited ?x \<longleftrightarrow> (\<exists>k. over_line k (pre @ [e]))" by (rule lim')
  qed
  moreover have "match_lines (mx_conditions x) e [] = Inr None" by simp
  ultimately have "step_result bases inc pre e x ?x None"
    using new_lines_discarded(1) [OF inc no_nl] unfolding step_result_def
    by (intro conjI exI [of _ "[]"]) simp_all
  with step show ?thesis by blast
qed

lemma monitor_step_ending:
  assumes conds: "conditions_ok (mx_conditions x)" and rel: "mon_rel bases inc pre x"
    and pos: "bases (me_key e) (me_evidence_seq e) = length (mon_stream (me_key e) pre)"
    and disc_k: "me_key e \<in> set (mx_discard_first_line x)" and nl: "nl \<in> set (me_data e)"
  shows "\<exists>x' r. monitor_step x e = Inr (x', r) \<and> step_result bases inc pre e x x' r"
proof -
  let ?k = "me_key e"
  let ?S = "mon_stream ?k pre"
  have hist: "\<And>k. hist_rel bases k (mon_hist inc pre k) (buffer_for new_buffer (mx_buffers x) k)"
    and disc: "set (mx_discard_first_line x) = {k \<in> set inc. nl \<notin> set (mon_stream k pre)}"
    and cnt: "\<And>k. k \<in> set (mx_discard_first_line x) \<Longrightarrow>
          buffer_for 0 (mx_discarded_byte_counts x) k = length (mon_stream k pre)"
    and lim: "mx_line_processing_limited x \<longleftrightarrow> (\<exists>k. over_line k pre)"
    using rel unfolding mon_rel_def by blast+
  from disc_k disc have inc: "?k \<in> set inc" "nl \<notin> set ?S" by blast+
  from cut_line_split [OF nl] obtain a y where a: "me_data e = a @ nl # y" "nl \<notin> set a"
    "bytes_find (me_data e) [nl] 0 = Some (length a)" .
  let ?first = "?S @ a @ [nl]"
  let ?x1 = "x\<lparr>mx_line_processing_limited :=
      mx_line_processing_limited x \<or> length ?first > MAX_UART_LINE_BYTES,
    mx_discard_first_line := filter (\<lambda>k. k \<noteq> ?k) (mx_discard_first_line x),
    mx_discarded_byte_counts := dict_pop (mx_discarded_byte_counts x) ?k\<rparr>"
  let ?H = "(mon_hist inc pre)(?k := (?first, []))"
  have cut: "cut_lines [] (mon_stream ?k (pre @ [e]))
      = (?first # fst (cut_lines [] y), snd (cut_lines [] y))"
    using a(1,2) inc(2) by (simp add: cut_lines_append cut_lines_no_nl cut_lines_line split: prod.splits)
  have cutS: "cut_lines [] ?S = ([], ?S)" using inc(2) by (simp add: cut_lines_no_nl)
  have H: "\<And>k. hist_rel bases k (?H k) (buffer_for new_buffer (mx_buffers ?x1) k)"
  proof -
    fix k
    show "hist_rel bases k (?H k) (buffer_for new_buffer (mx_buffers ?x1) k)"
    proof (cases "k = ?k")
      case True
      have "hist_rel bases k (?S, []) (buffer_for new_buffer (mx_buffers x) k)"
        using hist [of k] inc True by (simp add: mon_hist_def)
      from hist_rel_idle [OF this, of "a @ [nl]"] True show ?thesis by simp
    next
      case False
      with hist [of k] show ?thesis by simp
    qed
  qed
  have disc1: "set (mx_discard_first_line x) - {?k} = {k \<in> set inc. nl \<notin> set (mon_stream k (pre @ [e]))}"
    unfolding disc using nl by auto
  have disc1': "set (filter (\<lambda>k. k \<noteq> ?k) (mx_discard_first_line x))
      = {k \<in> set inc. nl \<notin> set (mon_stream k (pre @ [e]))}"
    unfolding disc1 [symmetric] by auto
  have cnt1: "buffer_for 0 (dict_pop (mx_discarded_byte_counts x) ?k) k = length (mon_stream k (pre @ [e]))"
    if "k \<in> set (filter (\<lambda>k. k \<noteq> ?k) (mx_discard_first_line x))" for k
    using that cnt [of k] by (auto simp: buffer_for_dict_pop)
  have drop: "drop (length a + 1) (me_data e) = y" using a(1) by simp
  have tot: "buffer_for 0 (mx_discarded_byte_counts x) ?k + (length a + 1) = length ?first"
    using cnt [OF disc_k] by simp
  have new: "new_lines inc pre e = fst (cut_lines [] y)"
    by (rule new_lines_discarded(2) [OF inc a(1,2)])
  have H': "?H(?k := (fst (?H ?k) @ y, snd (cut_lines (snd (?H ?k)) y))) = mon_hist inc (pre @ [e])"
    using cut a(1) by (intro ext) (auto simp: mon_hist_def)
  have step: "monitor_step x e = (if y = [] then Inr (?x1, None) else monitor_feed ?x1 e y (length a + 1))"
    using disc_k a(3) drop tot by (simp add: monitor_step_def Let_def)
  show ?thesis
  proof (cases "y = []")
    case True
    have "over_line ?k (pre @ [e]) \<longleftrightarrow> over_line ?k pre \<or> length ?first > MAX_UART_LINE_BYTES"
      unfolding over_line_def cut cutS using True by (auto simp: MAX_UART_LINE_BYTES_def)
    from limited_step [OF lim this] have "mon_rel bases inc (pre @ [e]) ?x1"
      using H [unfolded True] H' disc1' cnt1 True by (intro mon_relI) (auto simp flip: H')
    moreover have "match_lines (mx_conditions x) e [] = Inr None" by simp
    ultimately have "step_result bases inc pre e x ?x1 None"
      using new True unfolding step_result_def by (intro conjI exI [of _ "[]"]) simp_all
    with step True show ?thesis by auto
  next
    case False
    have conds1: "conditions_ok (mx_conditions ?x1)" using conds by simp
    have "bases ?k (me_evidence_seq e) + (length a + 1) = length (fst (?H ?k))" using pos by simp
    from monitor_feed_correct [OF conds1 H this, of y] obtain x' r ls bufs l where
      feed: "monitor_feed ?x1 e y (length a + 1) = Inr (x', r)"
      and x': "x' = ?x1\<lparr>mx_buffers := bufs,
          mx_line_processing_limited := mx_line_processing_limited ?x1 \<or> l\<rparr>"
      and hist': "\<forall>k. hist_rel bases k (mon_hist inc (pre @ [e]) k) (buffer_for new_buffer bufs k)"
      and newly: "overs (fst (cut_lines [] y)) + over (snd (cut_lines [] y)) \<noteq> 0 \<longleftrightarrow> (0::nat) \<noteq> 0 \<or> l"
      and ls: "map ul_raw ls = filter fits (fst (cut_lines [] y))"
        "\<forall>l \<in> set ls. line_at (bases ?k) (?first @ y) l" "match_lines (mx_conditions ?x1) e ls = Inr r"
      unfolding H' unfolding fun_upd_same fst_conv snd_conv over_Nil
      by - (elim exE conjE, rule that, assumption+)
    have "over_line ?k (pre @ [e]) \<longleftrightarrow> over_line ?k pre \<or> (length ?first > MAX_UART_LINE_BYTES \<or> l)"
      using newly unfolding over_line_def cut cutS by (auto simp: overs_0_iff over_0_iff)
    from limited_step [OF lim this]
    have lim': "mx_line_processing_limited x' \<longleftrightarrow> (\<exists>k. over_line k (pre @ [e]))" using x' by auto
    have "mon_rel bases inc (pre @ [e]) x'"
      using hist' lim' disc1' cnt1 x' by (intro mon_relI) auto
    moreover have "mon_stream ?k (pre @ [e]) = ?first @ y" using a(1) by simp
    ultimately have "step_result bases inc pre e x x' r"
      using ls new x' unfolding step_result_def by auto
    with step feed False show ?thesis by auto
  qed
qed

lemma monitor_step_correct:
  assumes "conditions_ok (mx_conditions x)" and "mon_rel bases inc pre x"
    and "bases (me_key e) (me_evidence_seq e) = length (mon_stream (me_key e) pre)"
  shows "\<exists>x' r. monitor_step x e = Inr (x', r) \<and> step_result bases inc pre e x x' r"
  using monitor_step_started [OF assms] monitor_step_discarding [OF assms]
    monitor_step_ending [OF assms] by blast

section \<open>A whole run\<close>

definition mon_base :: "monitor_evidence list \<Rightarrow> monitor_key \<Rightarrow> nat \<Rightarrow> nat" where
  "mon_base es k seq =
     length (mon_stream k (takeWhile (\<lambda>e. \<not> (me_key e = k \<and> me_evidence_seq e = seq)) es))"

text \<open>Durable evidence numbers the units of a stream apart.\<close>

definition numbered_apart :: "monitor_evidence list \<Rightarrow> bool" where
  "numbered_apart es \<longleftrightarrow> distinct (map (\<lambda>e. (me_key e, me_evidence_seq e)) es)"

lemma mon_base_at:
  assumes "numbered_apart (pre @ e # post)"
  shows "mon_base (pre @ e # post) (me_key e) (me_evidence_seq e) = length (mon_stream (me_key e) pre)"
proof -
  have "takeWhile (\<lambda>e'. \<not> (me_key e' = me_key e \<and> me_evidence_seq e' = me_evidence_seq e)) (pre @ e # post) = pre"
    using assms by (subst takeWhile_append2) (auto simp: numbered_apart_def image_iff)
  then show ?thesis by (simp add: mon_base_def)
qed

text \<open>A match and the place of its line in the stream of its key.\<close>

definition located_match ::
  "monitor_condition list \<Rightarrow> monitor_evidence list \<Rightarrow> monitor_evidence \<Rightarrow> bytes \<Rightarrow> monitor_match \<Rightarrow> bool" where
  "located_match conds es e raw m \<longleftrightarrow>
     describes conds e raw m
     \<and> slice (mon_stream (me_key e) es)
         (mon_base es (me_key e) (mm_line_start_evidence_seq m) + mm_line_start_event_offset m)
         (mon_base es (me_key e) (mm_line_end_evidence_seq m) + mm_line_end_event_offset m) = raw"

definition some_over_line :: "monitor_evidence list \<Rightarrow> bool" where
  "some_over_line es \<longleftrightarrow> (\<exists>k. over_line k es)"

lemma find_map_Pair:
  "find (\<lambda>(e', raw). P raw) (map (Pair e) ls) = map_option (Pair e) (find P ls)"
  by (induction ls) auto

lemma find_append: "find P (xs @ ys) = (case find P xs of None \<Rightarrow> find P ys | Some x \<Rightarrow> Some x)"
  by (induction xs) auto

lemma step_result_found:
  assumes conds: "conditions_ok (mx_conditions x)"
    and res: "step_result (mon_base (pre @ e # post)) inc pre e x x' r"
  shows "case find (line_hit (mx_conditions x)) (filter fits (new_lines inc pre e)) of
          None \<Rightarrow> r = None
        | Some raw \<Rightarrow> \<exists>m. r = Some m \<and> located_match (mx_conditions x) (pre @ e # post) e raw m"
proof -
  let ?es = "pre @ e # post"
  from res obtain ls where ls: "map ul_raw ls = filter fits (new_lines inc pre e)"
    "\<forall>l \<in> set ls. line_at (mon_base ?es (me_key e)) (mon_stream (me_key e) (pre @ [e])) l"
    "match_lines (mx_conditions x) e ls = Inr r"
    unfolding step_result_def by blast
  have "mon_stream (me_key e) ?es = mon_stream (me_key e) (pre @ [e]) @ mon_stream (me_key e) post"
    by simp
  then have "\<forall>l \<in> set ls. line_at (mon_base ?es (me_key e)) (mon_stream (me_key e) ?es) l"
    using ls(2) line_at_mono by (simp only:) blast
  from match_lines_correct [OF conds this, of e] ls(1,3) show ?thesis
    by (auto simp: located_match_def split: option.splits)
qed

lemma monitor_process_correct:
  assumes "conditions_ok (mx_conditions x)" and "numbered_apart (pre @ es)"
    and "mon_rel (mon_base (pre @ es)) inc pre x"
  shows "\<exists>x' r. monitor_process x es = Inr (x', r)
     \<and> (case find (\<lambda>(e, raw). line_hit (mx_conditions x) raw) (line_events inc pre es) of
          None \<Rightarrow> r = None \<and> (mx_line_processing_limited x' \<longleftrightarrow> some_over_line (pre @ es))
        | Some (e, raw) \<Rightarrow> \<exists>m. r = Some m \<and> located_match (mx_conditions x) (pre @ es) e raw m)"
  using assms
proof (induction es arbitrary: pre x)
  case Nil
  then show ?case unfolding mon_rel_def some_over_line_def by simp
next
  case (Cons e es)
  from monitor_step_correct [OF Cons.prems(1,3) mon_base_at [OF Cons.prems(2)]] obtain x1 r where
    step: "monitor_step x e = Inr (x1, r)"
    and res: "step_result (mon_base (pre @ e # es)) inc pre e x x1 r" by blast
  from res have same: "mx_conditions x1 = mx_conditions x"
    and rel1: "mon_rel (mon_base ((pre @ [e]) @ es)) inc (pre @ [e]) x1"
    by (simp_all add: step_result_def)
  note found = step_result_found [OF Cons.prems(1) res]
  show ?case
  proof (cases "find (line_hit (mx_conditions x)) (filter fits (new_lines inc pre e))")
    case (Some raw)
    with found obtain m where "r = Some m" "located_match (mx_conditions x) (pre @ e # es) e raw m"
      by auto
    with Some step show ?thesis
      by (auto simp: find_append find_map_Pair case_prod_unfold [symmetric])
  next
    case None
    with found have "r = None" by simp
    moreover have ok1: "conditions_ok (mx_conditions x1)" using Cons.prems(1) same by simp
    have "numbered_apart ((pre @ [e]) @ es)" using Cons.prems(2) by simp
    from Cons.IH [OF ok1 this rel1, unfolded same append_assoc append_Cons append_Nil] obtain x' r' where
      "monitor_process x1 es = Inr (x', r')"
      "case find (\<lambda>(e, raw). line_hit (mx_conditions x) raw) (line_events inc (pre @ [e]) es) of
          None \<Rightarrow> r' = None \<and> (mx_line_processing_limited x' \<longleftrightarrow> some_over_line (pre @ e # es))
        | Some (e', raw) \<Rightarrow> \<exists>m. r' = Some m \<and> located_match (mx_conditions x) (pre @ e # es) e' raw m"
      by blast
    ultimately show ?thesis
      using step None by (simp add: find_append find_map_Pair)
  qed
qed

lemma mon_rel_new:
  assumes "mx_buffers x = []" and "mx_discard_first_line x = inc"
    and "mx_discarded_byte_counts x = []" and "\<not> mx_line_processing_limited x"
  shows "mon_rel bases inc [] x"
  using assms by (intro mon_relI) (simp_all add: mon_hist_def hist_rel_def buffer_rel_new
      buffer_for_def over_line_def)

section \<open>Validated requests\<close>

lemma validate_condition_Inr:
  "validate_condition c = Inr q \<Longrightarrow> wait_pattern_ok (mc_pattern q)"
  by (auto simp: validate_condition_def result_simps validate_wait_pattern_Inr split: raw_condition.splits)

lemma map_r_all: "map_r f xs = Inr ys \<Longrightarrow> (\<And>x y. f x = Inr y \<Longrightarrow> P y) \<Longrightarrow> \<forall>y \<in> set ys. P y"
  by (induction xs arbitrary: ys) (auto simp: result_simps)

lemma validate_monitor_conditions:
  assumes "validate_monitor_request PNone cs t = Inr q"
  shows "conditions_ok (mr_conditions q) \<and> length (mr_conditions q) \<le> MAX_MONITOR_CONDITIONS
     \<and> mr_mode q = ConditionsMode \<and> (\<exists>s. mr_timeout_s q = Some s \<and> 0 < s \<and> s \<le> 300)"
proof -
  from assms obtain raw cs' s where raw: "cs = SomeConditions raw" "1 \<le> length raw" "length raw \<le> 8"
    "map_r validate_condition raw = Inr cs'" "validate_wait_timeout t = Inr s"
    and q: "q = \<lparr>mr_mode = ConditionsMode, mr_duration_s = None, mr_conditions = cs', mr_timeout_s = Some s\<rparr>"
    by (auto simp: validate_monitor_request_def result_simps split: raw_conditions.splits if_splits)
  from map_r_all [OF raw(4), where P = "\<lambda>c. wait_pattern_ok (mc_pattern c)"] validate_condition_Inr
  have "\<forall>c \<in> set cs'. wait_pattern_ok (mc_pattern c)" by blast
  moreover from raw map_r_Inr_length [OF raw(4)] have "cs' \<noteq> []" "length cs' \<le> 8" by auto
  moreover have "0 < s \<and> s \<le> 300"
    using raw(5) unfolding validate_wait_timeout_def by (rule bounded_seconds_Inr)
  ultimately show ?thesis by (simp add: q conditions_ok_def MAX_MONITOR_CONDITIONS_def)
qed


text \<open>The evidence of the witness: a line under way, then a line with two of the patterns.\<close>

definition demo_evidence :: "monitor_evidence list" where
  "demo_evidence =
     [\<lparr>me_session_id = lit ''s'', me_evidence_seq = 1, me_segment_id = 0, me_timestamp_us = 5,
       me_channel = 0, me_data = ''XPANIC'' @ [nl] @ ''boo''\<rparr>,
      \<lparr>me_session_id = lit ''s'', me_evidence_seq = 2, me_segment_id = 0, me_timestamp_us = 6,
       me_channel = 0, me_data = ''t PANIC'' @ [nl]\<rparr>]"


end
