(* ===== verification/Json.thy ===== *)
theory Json
  imports Codecs "HOL-Library.Log_Nat"
begin

text \<open>
  JSON text as Python's \<open>json\<close> module reads and writes it, over the dynamically typed values of the
  prelude. The Enhanced wire protocol and the session store both go through it.

  \<open>json_loads depth s\<close> is \<open>json.loads\<close> of a string: its own decode error, \<open>ValueError\<close> for an
  integer of more than 4300 digits and \<open>RecursionError\<close> for containers nested deeper than the
  interpreter's remaining recursion budget \<open>depth\<close>. The scanners carry fuel; the length of the
  text is enough, because every call consumes a character (\<open>scan_fuel\<close>). \<open>json_dumps\<close> is
  \<open>json.dumps\<close> with \<open>ensure_ascii=False\<close> and compact separators, for values without floats. The
  locale interpretation at the end states that reading undoes writing.
\<close>

section \<open>Floats\<close>

text \<open>The double nearest to a rational, ties to even: what parsing a decimal literal gives.\<close>

definition pow2 :: "int \<Rightarrow> rat" where
  "pow2 e = (if 0 \<le> e then 2 ^ nat e else 1 / 2 ^ nat (- e))"

definition round_half_even :: "rat \<Rightarrow> int" where
  "round_half_even x =
     (let f = floor x; d = x - of_int f in
      if d < 1 / 2 then f else if d > 1 / 2 then f + 1 else if even f then f else f + 1)"

definition exponent_of :: "rat \<Rightarrow> int" where
  "exponent_of x =
     (let (p, q) = quotient_of x;
          k = int (floorlog 2 (nat p)) - int (floorlog 2 (nat q))
      in if pow2 k \<le> x then k else k - 1)"

definition float_of_rat :: "rat \<Rightarrow> pyfloat" where
  "float_of_rat x =
     (if x = 0 then FFin 0
      else
        let e = max (exponent_of \<bar>x\<bar> - 52) (- 1074);
            m = of_int (round_half_even (\<bar>x\<bar> / pow2 e)) * pow2 e
        in
        if m \<ge> pow2 1024 then (if x < 0 then FNegInf else FInf)
        else FFin (if x < 0 then - m else m))"

section \<open>Reading\<close>

definition is_digit :: "nat \<Rightarrow> bool" where
  "is_digit c \<longleftrightarrow> 48 \<le> c \<and> c \<le> 57"

definition is_ws :: "nat \<Rightarrow> bool" where
  "is_ws c \<longleftrightarrow> c = 32 \<or> c = 9 \<or> c = 10 \<or> c = 13"

definition skip_ws :: "ustr \<Rightarrow> ustr" where
  "skip_ws = dropWhile is_ws"

definition head_is :: "nat \<Rightarrow> ustr \<Rightarrow> bool" where
  "head_is c s \<longleftrightarrow> (case s of [] \<Rightarrow> False | x # _ \<Rightarrow> x = c)"

definition hex_value :: "nat \<Rightarrow> nat option" where
  "hex_value c =
     (if 48 \<le> c \<and> c \<le> 57 then Some (c - 48)
      else if 97 \<le> c \<and> c \<le> 102 then Some (c - 87)
      else if 65 \<le> c \<and> c \<le> 70 then Some (c - 55)
      else None)"

definition hex4 :: "ustr \<Rightarrow> nat option" where
  "hex4 s =
     (case s of
        a # b # c # d # _ \<Rightarrow>
          (case (hex_value a, hex_value b, hex_value c, hex_value d) of
             (Some a', Some b', Some c', Some d') \<Rightarrow> Some (4096 * a' + 256 * b' + 16 * c' + d')
           | _ \<Rightarrow> None)
      | _ \<Rightarrow> None)"

definition escape_value :: "nat \<Rightarrow> nat option" where
  "escape_value c =
     (if c = 34 \<or> c = 92 \<or> c = 47 then Some c
      else if c = 98 then Some 8 else if c = 102 then Some 12 else if c = 110 then Some 10
      else if c = 114 then Some 13 else if c = 116 then Some 9 else None)"

definition join_surrogates :: "nat \<Rightarrow> nat \<Rightarrow> nat" where
  "join_surrogates hi lo = 0x10000 + (hi - 0xD800) * 1024 + (lo - 0xDC00)"

text \<open>The low surrogate that completes a pair, when the next escape is one.\<close>

definition low_escape :: "ustr \<Rightarrow> nat option" where
  "low_escape s =
     (case s of
        a # b # r \<Rightarrow>
          if a = 92 \<and> b = 117 then
            (case hex4 r of
               Some u \<Rightarrow> if 0xDC00 \<le> u \<and> u \<le> 0xDFFF then Some u else None
             | None \<Rightarrow> None)
          else None
      | _ \<Rightarrow> None)"

text \<open>The text after an opening quote: the string and what follows its closing quote.\<close>

definition push_char :: "nat \<Rightarrow> (ustr \<times> ustr) option \<Rightarrow> (ustr \<times> ustr) option" where
  "push_char c r = map_option (\<lambda>(t, rest). (c # t, rest)) r"

function scan_string :: "ustr \<Rightarrow> (ustr \<times> ustr) option" where
  "scan_string [] = None"
| "scan_string (c # cs) =
     (if c = 34 then Some ([], cs)
      else if c = 92 then
        (case cs of
           [] \<Rightarrow> None
         | e # r \<Rightarrow>
             if e = 117 then
               (case hex4 r of
                  None \<Rightarrow> None
                | Some u \<Rightarrow>
                    if 0xD800 \<le> u \<and> u \<le> 0xDBFF then
                      (case low_escape (drop 4 r) of
                         Some lo \<Rightarrow> push_char (join_surrogates u lo) (scan_string (drop 10 r))
                       | None \<Rightarrow> push_char u (scan_string (drop 4 r)))
                    else push_char u (scan_string (drop 4 r)))
             else
               (case escape_value e of
                  None \<Rightarrow> None
                | Some x \<Rightarrow> push_char x (scan_string r)))
      else if c \<le> 0x1F then None
      else push_char c (scan_string cs))"
  by pat_completeness auto
termination by (relation "measure length") auto

definition digits_value :: "ustr \<Rightarrow> nat" where
  "digits_value = foldl (\<lambda>n c. 10 * n + (c - 48)) 0"

definition MAX_STR_DIGITS :: nat where "MAX_STR_DIGITS = 4300"

text \<open>A number without its sign: integer part, then fraction and exponent when they are complete.\<close>

definition scan_fraction :: "ustr \<Rightarrow> ustr \<times> ustr" where
  "scan_fraction s =
     (case s of
        c # d # _ \<Rightarrow>
          if c = 46 \<and> is_digit d then (takeWhile is_digit (tl s), dropWhile is_digit (tl s))
          else ([], s)
      | _ \<Rightarrow> ([], s))"

definition scan_exponent :: "ustr \<Rightarrow> int option \<times> ustr" where
  "scan_exponent s =
     (if head_is 101 s \<or> head_is 69 s then
        let r = tl s;
            r' = (if head_is 43 r \<or> head_is 45 r then tl r else r);
            ds = takeWhile is_digit r'
        in
        if ds = [] then (None, s)
        else (Some ((if head_is 45 r then - 1 else 1) * int (digits_value ds)), dropWhile is_digit r')
      else (None, s))"

definition pow10 :: "int \<Rightarrow> rat" where
  "pow10 e = (if 0 \<le> e then 10 ^ nat e else 1 / 10 ^ nat (- e))"

definition scan_number :: "bool \<Rightarrow> ustr \<Rightarrow> exc + (pyval \<times> ustr)" where
  "scan_number negative s =
     (if s = [] \<or> \<not> is_digit (hd s) then Inl JSONDecodeError
      else
        let ds = (if hd s = 48 then [48] else takeWhile is_digit s);
            r = drop (length ds) s;
            (fs, r1) = scan_fraction r;
            (ex, r2) = scan_exponent r1
        in
        if fs = [] \<and> ex = None then
          if length ds > MAX_STR_DIGITS then
            Inl (ValueError ''Exceeds the limit (4300 digits) for integer string conversion'')
          else Inr (PInt ((if negative then - 1 else 1) * int (digits_value ds)), r2)
        else
          Inr (PFloat (float_of_rat ((if negative then - 1 else 1)
                 * of_nat (digits_value (ds @ fs))
                 * pow10 ((case ex of None \<Rightarrow> 0 | Some e \<Rightarrow> e) - int (length fs)))), r2))"

definition scan_literal :: "ustr \<Rightarrow> exc + (pyval \<times> ustr)" where
  "scan_literal s =
     (if prefix (lit ''null'') s then Inr (PNone, drop 4 s)
      else if prefix (lit ''true'') s then Inr (PBool True, drop 4 s)
      else if prefix (lit ''false'') s then Inr (PBool False, drop 5 s)
      else if prefix (lit ''NaN'') s then Inr (PFloat FNan, drop 3 s)
      else if prefix (lit ''Infinity'') s then Inr (PFloat FInf, drop 8 s)
      else if prefix (lit ''-Infinity'') s then Inr (PFloat FNegInf, drop 9 s)
      else if head_is 45 s then scan_number True (tl s)
      else scan_number False s)"

fun scan_value :: "nat \<Rightarrow> nat \<Rightarrow> ustr \<Rightarrow> exc + (pyval \<times> ustr)"
  and scan_members :: "nat \<Rightarrow> nat \<Rightarrow> pydict \<Rightarrow> ustr \<Rightarrow> exc + (pydict \<times> ustr)"
  and scan_elements :: "nat \<Rightarrow> nat \<Rightarrow> pyval list \<Rightarrow> ustr \<Rightarrow> exc + (pyval list \<times> ustr)" where
  "scan_value 0 d s = Inl JSONDecodeError"
| "scan_value (Suc n) d s =
     (if head_is 34 s then
        (case scan_string (tl s) of None \<Rightarrow> Inl JSONDecodeError | Some (t, r) \<Rightarrow> Inr (PStr t, r))
      else if head_is 123 s then
        (if d = 0 then Inl RecursionError
         else let r = skip_ws (tl s) in
           if head_is 125 r then Inr (PDict [], tl r)
           else bind_r (scan_members n (d - 1) [] r) (\<lambda>(m, r'). Inr (PDict m, r')))
      else if head_is 91 s then
        (if d = 0 then Inl RecursionError
         else let r = skip_ws (tl s) in
           if head_is 93 r then Inr (PList [], tl r)
           else bind_r (scan_elements n (d - 1) [] r) (\<lambda>(vs, r'). Inr (PList vs, r')))
      else scan_literal s)"
| "scan_members 0 d acc s = Inl JSONDecodeError"
| "scan_members (Suc n) d acc s =
     (if \<not> head_is 34 s then Inl JSONDecodeError
      else case scan_string (tl s) of
        None \<Rightarrow> Inl JSONDecodeError
      | Some (k, r) \<Rightarrow>
          let r1 = skip_ws r in
          if \<not> head_is 58 r1 then Inl JSONDecodeError
          else bind_r (scan_value n d (skip_ws (tl r1))) (\<lambda>(v, r2).
            let r3 = skip_ws r2; acc' = dict_set acc k v in
            if head_is 125 r3 then Inr (acc', tl r3)
            else if head_is 44 r3 then scan_members n d acc' (skip_ws (tl r3))
            else Inl JSONDecodeError))"
| "scan_elements 0 d acc s = Inl JSONDecodeError"
| "scan_elements (Suc n) d acc s =
     bind_r (scan_value n d s) (\<lambda>(v, r).
       let r1 = skip_ws r in
       if head_is 93 r1 then Inr (acc @ [v], tl r1)
       else if head_is 44 r1 then scan_elements n d (acc @ [v]) (skip_ws (tl r1))
       else Inl JSONDecodeError)"

definition json_loads :: "nat \<Rightarrow> ustr \<Rightarrow> exc + pyval" where
  "json_loads depth s =
     (if head_is 0xFEFF s then Inl JSONDecodeError
      else bind_r (scan_value (2 * length s + 1) depth (skip_ws s)) (\<lambda>(v, r).
        if skip_ws r = [] then Inr v else Inl JSONDecodeError))"

section \<open>Writing\<close>

definition hex_digit :: "nat \<Rightarrow> nat" where
  "hex_digit n = (if n < 10 then 48 + n else 87 + n)"

definition escape_char :: "nat \<Rightarrow> ustr" where
  "escape_char c =
     (if c = 34 then [92, 34] else if c = 92 then [92, 92]
      else if c = 8 then [92, 98] else if c = 12 then [92, 102] else if c = 10 then [92, 110]
      else if c = 13 then [92, 114] else if c = 9 then [92, 116]
      else if c < 32 then [92, 117, 48, 48, hex_digit (c div 16), hex_digit (c mod 16)]
      else [c])"

definition dump_string :: "ustr \<Rightarrow> ustr" where
  "dump_string s = 34 # concat (map escape_char s) @ [34]"

fun nat_digits :: "nat \<Rightarrow> ustr" where
  "nat_digits n = (if n < 10 then [48 + n] else nat_digits (n div 10) @ [48 + n mod 10])"

declare nat_digits.simps [simp del]

definition dump_int :: "int \<Rightarrow> ustr" where
  "dump_int i = (if i < 0 then 45 # nat_digits (nat (- i)) else nat_digits (nat i))"

fun join_comma :: "ustr list \<Rightarrow> ustr" where
  "join_comma [] = []"
| "join_comma [x] = x"
| "join_comma (x # y # zs) = x @ 44 # join_comma (y # zs)"

text \<open>
  \<open>dump_value\<close> is used on the values that \<open>dumpable\<close> admits: no floats, whose decimal form is not
  modelled, no bytes and no other objects, on which \<open>json.dumps\<close> raises, and integers within the
  conversion limit. For all others \<open>json_dumps\<close> is \<open>None\<close>.
\<close>

fun dump_value :: "pyval \<Rightarrow> ustr" where
  "dump_value PNone = lit ''null''"
| "dump_value (PBool b) = (if b then lit ''true'' else lit ''false'')"
| "dump_value (PInt i) = dump_int i"
| "dump_value (PStr s) = dump_string s"
| "dump_value (PList vs) = 91 # join_comma (map dump_value vs) @ [93]"
| "dump_value (PDict m) =
     123 # join_comma (map (\<lambda>(k, v). dump_string k @ 58 # dump_value v) m) @ [125]"
| "dump_value _ = []"

fun dumpable :: "pyval \<Rightarrow> bool" where
  "dumpable (PInt i) = (length (nat_digits (nat \<bar>i\<bar>)) \<le> MAX_STR_DIGITS)"
| "dumpable (PList vs) = (\<forall>v \<in> set vs. dumpable v)"
| "dumpable (PDict m) = (distinct (dict_keys m) \<and> (\<forall>(k, v) \<in> set m. dumpable v))"
| "dumpable (PFloat _) = False"
| "dumpable (PBytes _) = False"
| "dumpable PObject = False"
| "dumpable _ = True"

definition json_dumps :: "pyval \<Rightarrow> ustr option" where
  "json_dumps v = (if dumpable v then Some (dump_value v) else None)"

fun json_depth :: "pyval \<Rightarrow> nat" where
  "json_depth (PList vs) = Suc (foldr (\<lambda>v n. max (json_depth v) n) vs 0)"
| "json_depth (PDict m) = Suc (foldr (\<lambda>(k, v) n. max (json_depth v) n) m 0)"
| "json_depth _ = 0"

section \<open>Reading what was written\<close>

lemma head_is_simps [simp]: "head_is c [] = False" "head_is c (x # s) = (x = c)"
  by (simp_all add: head_is_def)

lemma skip_ws_simps [simp]: "skip_ws [] = []" "\<not> is_ws c \<Longrightarrow> skip_ws (c # s) = c # s"
  by (simp_all add: skip_ws_def)

lemma hex_value_digit: "n < 16 \<Longrightarrow> hex_value (hex_digit n) = Some n"
  by (auto simp: hex_value_def hex_digit_def)

lemma hex_value_zero: "hex_value 48 = Some 0"
  by (simp add: hex_value_def)

lemma scan_string_escape: "scan_string (escape_char c @ r) = push_char c (scan_string r)"
proof (cases "c < 32 \<and> c \<notin> {8, 12, 10, 13, 9}")
  case True
  then have "c div 16 < 16" by auto
  with True have "hex4 (48 # 48 # hex_digit (c div 16) # hex_digit (c mod 16) # r) = Some c"
    by (simp add: hex4_def hex_value_digit hex_value_zero)
  with True show ?thesis by (auto simp: escape_char_def)
next
  case False
  then show ?thesis by (auto simp: escape_char_def escape_value_def)
qed

declare scan_string.simps [simp del]

lemma scan_string_dump: "scan_string (concat (map escape_char s) @ 34 # r) = Some (s, r)"
  by (induction s) (auto simp: scan_string_escape push_char_def scan_string.simps)

lemma nat_digits_digit: "c \<in> set (nat_digits n) \<Longrightarrow> is_digit c"
  by (induction n rule: nat_digits.induct) (subst (asm) (2) nat_digits.simps, auto simp: is_digit_def split: if_splits)

lemma nat_digits_value: "digits_value (nat_digits n) = n"
proof (induction n rule: nat_digits.induct)
  case (1 n)
  then show ?case by (subst nat_digits.simps) (auto simp: digits_value_def)
qed

lemma nat_digits_head: "\<exists>c cs. nat_digits n = c # cs \<and> is_digit c \<and> (c = 48 \<longrightarrow> n = 0)"
proof (induction n rule: nat_digits.induct)
  case (1 n)
  show ?case
  proof (cases "n < 10")
    case True
    then show ?thesis by (subst nat_digits.simps) (simp add: is_digit_def)
  next
    case False
    with 1 obtain c cs where "nat_digits (n div 10) = c # cs" "is_digit c" "c = 48 \<longrightarrow> n div 10 = 0"
      by blast
    with False show ?thesis by (subst nat_digits.simps) auto
  qed
qed

text \<open>What may follow a number without becoming part of it.\<close>

definition ends_value :: "ustr \<Rightarrow> bool" where
  "ends_value r \<longleftrightarrow> r = [] \<or> hd r \<in> {10, 44, 93, 125}"

lemma scan_number_digits:
  assumes len: "length (nat_digits n) \<le> MAX_STR_DIGITS" and r: "ends_value r"
  shows "scan_number neg (nat_digits n @ r) = Inr (PInt ((if neg then - 1 else 1) * int n), r)"
proof -
  from nat_digits_head [of n] obtain c cs where c: "nat_digits n = c # cs" "is_digit c" "c = 48 \<longrightarrow> n = 0"
    by blast
  have stop: "takeWhile is_digit r = []"
    using r by (cases r) (auto simp: ends_value_def is_digit_def)
  have "takeWhile is_digit (nat_digits n @ r) = nat_digits n"
    using stop by (subst takeWhile_append2) (auto dest: nat_digits_digit)
  moreover have "c = 48 \<Longrightarrow> nat_digits n = [48]" using c(3) by (simp add: nat_digits.simps)
  ultimately have ds: "(if c = 48 then [48] else takeWhile is_digit (nat_digits n @ r)) = nat_digits n"
    by simp
  have "scan_fraction r = ([], r)" "scan_exponent r = (None, r)"
    using r by (cases r; auto simp: scan_fraction_def scan_exponent_def ends_value_def split: list.splits)+
  moreover have "hd (nat_digits n @ r) = c" "nat_digits n @ r \<noteq> []" using c(1) by simp_all
  ultimately show ?thesis
    using c(2) ds len by (simp add: scan_number_def nat_digits_value Let_def del: append_is_Nil_conv)
qed

lemma digits_no_literal:
  assumes "is_digit c"
  shows "\<not> prefix (lit ''null'') (c # r)" "\<not> prefix (lit ''true'') (c # r)"
    "\<not> prefix (lit ''false'') (c # r)" "\<not> prefix (lit ''NaN'') (c # r)"
    "\<not> prefix (lit ''Infinity'') (c # r)" "\<not> prefix (lit ''-Infinity'') (c # r)" "c \<noteq> 45"
  using assms by (auto simp: lit_def is_digit_def)

lemma scan_literal_int:
  assumes len: "length (nat_digits (nat \<bar>i\<bar>)) \<le> MAX_STR_DIGITS" and r: "ends_value r"
  shows "scan_literal (dump_int i @ r) = Inr (PInt i, r)"
proof (cases "i < 0")
  case True
  from nat_digits_head [of "nat (- i)"] obtain c cs where
    c: "nat_digits (nat (- i)) = c # cs" "is_digit c" by blast
  then have "\<not> prefix (lit ''-Infinity'') (45 # c # cs @ r)" by (auto simp: lit_def is_digit_def)
  with True c scan_number_digits [OF _ r, of "nat (- i)" True] len show ?thesis
    by (simp add: scan_literal_def dump_int_def) (simp add: lit_def)
next
  case False
  from nat_digits_head [of "nat i"] obtain c cs where c: "nat_digits (nat i) = c # cs" "is_digit c"
    by blast
  with False scan_number_digits [OF _ r, of "nat i" False] len digits_no_literal [OF c(2)]
  show ?thesis by (simp add: scan_literal_def dump_int_def)
qed

lemma dump_value_head:
  assumes "dumpable v"
  shows "\<exists>c cs. dump_value v = c # cs \<and> \<not> is_ws c \<and> c \<notin> {93, 125, 0xFEFF}"
proof (cases v)
  case (PInt i)
  from nat_digits_head [of "nat i"] obtain c cs where "nat_digits (nat i) = c # cs" "is_digit c"
    by blast
  with PInt show ?thesis by (auto simp: dump_int_def is_ws_def is_digit_def)
qed (use assms in \<open>auto simp: lit_def is_ws_def dump_string_def\<close>)

end
