(* ===== verification/Json_Roundtrip.thy ===== *)
theory Json_Roundtrip
  imports Json
begin

text \<open>
  Reading undoes writing: \<open>json_loads\<close> on the text of \<open>json_dumps\<close> gives the value back, for every
  value the model writes and every recursion budget that covers its nesting. The locale \<open>codec\<close> is
  interpreted on the pair. The last section shows that the fuel of the scanners is never short.
\<close>

section \<open>Values\<close>

lemma json_depth_mem:
  "v \<in> set vs \<Longrightarrow> json_depth v \<le> foldr (\<lambda>v n. max (json_depth v) n) vs 0"
  by (induction vs) auto

lemma json_depth_entry:
  "(k, v) \<in> set m \<Longrightarrow> json_depth v \<le> foldr (\<lambda>(k, v) n. max (json_depth v) n) m 0"
  by (induction m) auto

text \<open>What the round trip needs of one value, stated for any fuel, budget and rest.\<close>

definition rescans :: "pyval \<Rightarrow> bool" where
  "rescans v \<longleftrightarrow>
     (\<forall>n d r. 2 * length (dump_value v) \<le> n \<longrightarrow> json_depth v \<le> d \<longrightarrow> ends_value r \<longrightarrow>
        scan_value n d (dump_value v @ r) = Inr (v, r))"

lemma rescansD:
  "rescans v \<Longrightarrow> 2 * length (dump_value v) \<le> n \<Longrightarrow> json_depth v \<le> d \<Longrightarrow> ends_value r \<Longrightarrow>
     scan_value n d (dump_value v @ r) = Inr (v, r)"
  by (simp add: rescans_def)

lemma not_ws_marks [simp]: "\<not> is_ws 44" "\<not> is_ws 93" "\<not> is_ws 125" "\<not> is_ws 58" "\<not> is_ws 34"
  by (simp_all add: is_ws_def)

lemma ends_value_marks [simp]:
  "ends_value (44 # r)" "ends_value (93 # r)" "ends_value (125 # r)" "ends_value []"
  by (simp_all add: ends_value_def)

lemma join_comma_Cons: "xs \<noteq> [] \<Longrightarrow> join_comma (x # xs) = x @ 44 # join_comma xs"
  by (cases xs) auto

lemma skip_ws_dump: "dumpable v \<Longrightarrow> skip_ws (dump_value v @ r) = dump_value v @ r"
  using dump_value_head [of v] by auto

lemma scan_elements_dump:
  assumes "vs \<noteq> []" and "\<forall>v \<in> set vs. dumpable v \<and> rescans v \<and> json_depth v \<le> d"
    and "2 * length (join_comma (map dump_value vs)) + 1 \<le> n"
  shows "scan_elements n d acc (join_comma (map dump_value vs) @ 93 # r) = Inr (acc @ vs, r)"
  using assms
proof (induction vs arbitrary: n acc)
  case (Cons v vs)
  from Cons.prems(3) obtain m where n: "n = Suc m" by (cases n) auto
  from Cons.prems(2) have v: "dumpable v" "rescans v" "json_depth v \<le> d" by auto
  show ?case
  proof (cases "vs = []")
    case True
    from rescansD [OF v(2) _ v(3), of m "93 # r"] Cons.prems(3) n True show ?thesis by simp
  next
    case False
    let ?rest = "join_comma (map dump_value vs) @ 93 # r"
    have join: "join_comma (map dump_value (v # vs)) = dump_value v @ 44 # join_comma (map dump_value vs)"
      using False by (simp add: join_comma_Cons)
    from Cons.prems(3) n join have len: "2 * length (dump_value v) \<le> m"
      "2 * length (join_comma (map dump_value vs)) + 1 \<le> m" by simp_all
    from False obtain w ws where "vs = w # ws" by (cases vs) auto
    with Cons.prems(2) have "skip_ws ?rest = ?rest"
      by (cases ws) (simp_all add: skip_ws_dump)
    moreover from rescansD [OF v(2) len(1) v(3), of "44 # ?rest"]
    have "scan_value m d (dump_value v @ 44 # ?rest) = Inr (v, 44 # ?rest)" by simp
    moreover have "scan_elements m d (acc @ [v]) ?rest = Inr (acc @ v # vs, r)"
      using Cons.IH [OF False _ len(2), of "acc @ [v]"] Cons.prems(2) by simp
    ultimately show ?thesis unfolding n join by (simp add: Let_def)
  qed
qed simp

abbreviation dump_entry :: "ustr \<times> pyval \<Rightarrow> ustr" where
  "dump_entry \<equiv> (\<lambda>(k, v). dump_string k @ 58 # dump_value v)"

lemma scan_members_dump:
  assumes "m \<noteq> []" and "\<forall>(k, v) \<in> set m. dumpable v \<and> rescans v \<and> json_depth v \<le> d"
    and "distinct (dict_keys (acc @ m))" and "2 * length (join_comma (map dump_entry m)) \<le> n"
  shows "scan_members n d acc (join_comma (map dump_entry m) @ 125 # r) = Inr (acc @ m, r)"
  using assms
proof (induction m arbitrary: n acc)
  case (Cons e m)
  obtain k v where e: "e = (k, v)" by fastforce
  have "1 \<le> length (join_comma (map dump_entry (e # m)))"
    by (cases m) (simp_all add: e dump_string_def)
  with Cons.prems(4) obtain j where n: "n = Suc j" by (cases n) auto
  from Cons.prems(2) e have v: "dumpable v" "rescans v" "json_depth v \<le> d" by auto
  have new: "dict_set acc k v = acc @ [(k, v)]"
    using Cons.prems(3) e by (intro dict_set_new) (auto simp: dict_keys_def)
  have key: "scan_string (concat (map escape_char k) @ 34 # 58 # x) = Some (k, 58 # x)" for x
    by (rule scan_string_dump)
  show ?case
  proof (cases "m = []")
    case True
    from Cons.prems(4) n True e have "2 * length (dump_value v) \<le> j" by (simp add: dump_string_def)
    from rescansD [OF v(2) this v(3), of "125 # r"] True v(1) show ?thesis
      by (simp add: n e dump_string_def key new skip_ws_dump)
  next
    case False
    let ?rest = "join_comma (map dump_entry m) @ 125 # r"
    have join: "join_comma (map dump_entry (e # m))
        = 34 # concat (map escape_char k) @ 34 # 58 # dump_value v @ 44 # join_comma (map dump_entry m)"
      using False by (simp add: join_comma_Cons e dump_string_def)
    from Cons.prems(4) n join have len: "2 * length (dump_value v) \<le> j"
      "2 * length (join_comma (map dump_entry m)) \<le> j" by simp_all
    from False obtain k' v' m' where "m = (k', v') # m'" by (cases m) auto
    then have ws: "skip_ws ?rest = ?rest" by (cases m') (simp_all add: dump_string_def)
    from rescansD [OF v(2) len(1) v(3), of "44 # ?rest"]
    have sv: "scan_value j d (dump_value v @ 44 # ?rest) = Inr (v, 44 # ?rest)" by simp
    have "distinct (dict_keys ((acc @ [(k, v)]) @ m))" using Cons.prems(3) e by simp
    from Cons.IH [OF False _ this len(2)] Cons.prems(2)
    have "scan_members j d (acc @ [(k, v)]) ?rest = Inr (acc @ (k, v) # m, r)" by simp
    with sv ws v(1) show ?thesis unfolding n join
      by (simp add: key new skip_ws_dump Let_def e)
  qed
qed simp

lemma rescansI:
  assumes "\<And>n d r. 2 * length (dump_value v) \<le> Suc n \<Longrightarrow> json_depth v \<le> d \<Longrightarrow> ends_value r \<Longrightarrow>
      scan_value (Suc n) d (dump_value v @ r) = Inr (v, r)"
    and "dump_value v \<noteq> []"
  shows "rescans v"
  unfolding rescans_def
proof (intro allI impI)
  fix n d r
  assume le: "2 * length (dump_value v) \<le> n" and "json_depth v \<le> d" "ends_value r"
  from le assms(2) obtain m where "n = Suc m" by (cases n) auto
  with assms(1) le \<open>json_depth v \<le> d\<close> \<open>ends_value r\<close>
  show "scan_value n d (dump_value v @ r) = Inr (v, r)" by simp
qed

lemma scan_value_literal:
  "s \<noteq> [] \<Longrightarrow> hd s \<notin> {34, 91, 123} \<Longrightarrow> scan_value (Suc n) d s = scan_literal s"
  by (cases s) auto

lemma dump_int_head: "\<exists>c cs. dump_int i = c # cs \<and> c \<notin> {34, 91, 123}"
proof -
  from nat_digits_head [of "nat i"] obtain c cs where "nat_digits (nat i) = c # cs" "is_digit c"
    by blast
  then show ?thesis by (auto simp: dump_int_def is_digit_def)
qed

lemma rescans_int: "dumpable (PInt i) \<Longrightarrow> rescans (PInt i)"
proof (intro rescansI)
  fix n d r
  assume "dumpable (PInt i)" and "ends_value r"
  with scan_literal_int [of i r] dump_int_head [of i]
  show "scan_value (Suc n) d (dump_value (PInt i) @ r) = Inr (PInt i, r)"
    by (subst scan_value_literal) auto
qed (use dump_int_head [of i] in auto)

lemma rescans_atom: "rescans PNone" "rescans (PBool b)"
  by (intro rescansI; simp add: lit_def scan_literal_def)+

lemma rescans_str: "rescans (PStr s)"
  by (intro rescansI) (simp_all add: dump_string_def scan_string_dump)

lemma rescans_list:
  assumes "dumpable (PList vs)" and "\<And>v. v \<in> set vs \<Longrightarrow> rescans v"
  shows "rescans (PList vs)"
proof (intro rescansI)
  fix n d r
  assume len: "2 * length (dump_value (PList vs)) \<le> Suc n" and dep: "json_depth (PList vs) \<le> d"
  then obtain d' where d: "d = Suc d'" by (cases d) auto
  show "scan_value (Suc n) d (dump_value (PList vs) @ r) = Inr (PList vs, r)"
  proof (cases "vs = []")
    case True
    then show ?thesis by (simp add: d)
  next
    case False
    let ?b = "join_comma (map dump_value vs) @ 93 # r"
    from False obtain w ws where vs: "vs = w # ws" by (cases vs) auto
    with assms(1) have dw: "dumpable w" by simp
    from dump_value_head [OF dw] vs have "\<exists>c cs. ?b = c # cs \<and> \<not> is_ws c \<and> c \<noteq> 93"
      by (cases ws) auto
    then have b: "skip_ws ?b = ?b" "\<not> head_is 93 ?b" by auto
    have "\<forall>v \<in> set vs. dumpable v \<and> rescans v \<and> json_depth v \<le> d'"
      using assms dep d by (fastforce dest: json_depth_mem)
    moreover have "2 * length (join_comma (map dump_value vs)) + 1 \<le> n" using len by simp
    ultimately have "scan_elements n d' [] ?b = Inr (vs, r)"
      using scan_elements_dump [OF False, of d' n "[]" r] by simp
    with b show ?thesis by (simp add: d)
  qed
qed simp

lemma rescans_dict:
  assumes "dumpable (PDict m)" and "\<And>k v. (k, v) \<in> set m \<Longrightarrow> rescans v"
  shows "rescans (PDict m)"
proof (intro rescansI)
  fix n d r
  assume len: "2 * length (dump_value (PDict m)) \<le> Suc n" and dep: "json_depth (PDict m) \<le> d"
  then obtain d' where d: "d = Suc d'" by (cases d) auto
  show "scan_value (Suc n) d (dump_value (PDict m) @ r) = Inr (PDict m, r)"
  proof (cases "m = []")
    case True
    then show ?thesis by (simp add: d)
  next
    case False
    let ?b = "join_comma (map dump_entry m) @ 125 # r"
    from False obtain k w ws where vs: "m = (k, w) # ws" by (cases m) auto
    then have "\<exists>cs. ?b = 34 # cs" by (cases ws) (auto simp: dump_string_def)
    then have b: "skip_ws ?b = ?b" "\<not> head_is 125 ?b" by auto
    have "\<forall>(k, v) \<in> set m. dumpable v \<and> rescans v \<and> json_depth v \<le> d'"
      using assms dep d by (fastforce dest: json_depth_entry)
    moreover have "2 * length (join_comma (map dump_entry m)) \<le> n" using len by simp
    moreover have "distinct (dict_keys ([] @ m))" using assms(1) by simp
    ultimately have "scan_members n d' [] ?b = Inr (m, r)"
      using scan_members_dump [OF False, of d' "[]" n r] by simp
    with b show ?thesis by (simp add: d)
  qed
qed simp

lemma dumpable_rescans: "dumpable v \<Longrightarrow> rescans v"
proof (induction v)
  case (PList vs)
  then show ?case by (intro rescans_list) auto
next
  case (PDict m)
  show ?case
  proof (rule rescans_dict)
    fix k v assume e: "(k, v) \<in> set m"
    with PDict.prems have "dumpable v" by auto
    with PDict.IH [OF e, of v] show "rescans v" by (simp add: snds.intros)
  qed (rule PDict.prems)
qed (auto intro: rescans_atom rescans_int rescans_str)

lemma json_loads_dumps:
  assumes "json_dumps v = Some s" and "json_depth v \<le> d"
  shows "json_loads d s = Inr v"
proof -
  from assms(1) have v: "dumpable v" "s = dump_value v"
    by (auto simp: json_dumps_def split: if_splits)
  from dump_value_head [OF v(1)] v(2) have s: "\<not> head_is 0xFEFF s" "skip_ws s = s" by auto
  have "scan_value (2 * length s + 1) d (dump_value v @ []) = Inr (v, [])"
    by (rule rescansD [OF dumpable_rescans [OF v(1)]]) (use v assms(2) in auto)
  with s v(2) show ?thesis by (simp add: json_loads_def)
qed

text \<open>A stored record: the text of a value and a newline.\<close>

lemma json_loads_dumps_line:
  assumes "json_dumps v = Some s" and "json_depth v \<le> d"
  shows "json_loads d (s @ [10]) = Inr v"
proof -
  from assms(1) have v: "dumpable v" "s = dump_value v"
    by (auto simp: json_dumps_def split: if_splits)
  from dump_value_head [OF v(1)] v(2) have s: "\<not> head_is 0xFEFF (s @ [10])" "skip_ws (s @ [10]) = s @ [10]"
    using skip_ws_dump [OF v(1), of "[10]"] by (auto simp: head_is_def split: list.splits)
  have "scan_value (2 * length (s @ [10]) + 1) d (dump_value v @ [10]) = Inr (v, [10])"
    by (rule rescansD [OF dumpable_rescans [OF v(1)]]) (use v assms(2) in \<open>auto simp: ends_value_def\<close>)
  with s v(2) show ?thesis by (simp add: json_loads_def skip_ws_def is_ws_def)
qed

section \<open>Fuel\<close>

text \<open>Every scanner leaves a shorter text.\<close>

lemma drop_tl_le: "length (tl s) \<le> length s" "length (skip_ws s) \<le> length s"
  by (simp_all add: skip_ws_def length_dropWhile_le)

lemma push_char_eq_Some: "push_char c r = Some (t, rest) \<longleftrightarrow> (\<exists>t'. r = Some (t', rest) \<and> t = c # t')"
  by (auto simp: push_char_def)

lemma scan_string_shorter: "scan_string s = Some (t, r) \<Longrightarrow> length r < length s"
proof (induction s arbitrary: t rule: length_induct)
  case (1 s)
  then obtain c cs where s: "s = c # cs" by (cases s) (auto simp: scan_string.simps)
  have step: "length r < length s" if "scan_string x = Some (t', r)" "length x \<le> length cs" for x t'
  proof -
    have "length x < length s" using that(2) s by simp
    with 1(1) that(1) have "length r < length x" by blast
    with that(2) s show ?thesis by simp
  qed
  from 1(2) show ?case unfolding s scan_string.simps(2)
    using step by (auto simp: s push_char_eq_Some split: if_splits list.splits option.splits)
qed

lemma scan_number_shorter:
  assumes "scan_number neg s = Inr (v, r)"
  shows "length r < length s"
proof -
  from assms have s: "s \<noteq> []" "is_digit (hd s)"
    by (auto simp: scan_number_def split: if_splits)
  let ?ds = "if hd s = 48 then [48] else takeWhile is_digit s"
  have ds: "length ?ds \<ge> 1" using s by (cases s) auto
  have fr: "length (snd (scan_fraction x)) \<le> length x" for x
    by (auto simp: scan_fraction_def split: list.splits)
       (metis dropWhile.simps(2) le_SucI length_Cons length_dropWhile_le)
  have ex: "length (snd (scan_exponent x)) \<le> length x" for x
    by (auto simp: scan_exponent_def Let_def intro: order_trans [OF length_dropWhile_le])
  from assms s have "r = snd (scan_exponent (snd (scan_fraction (drop (length ?ds) s))))"
    by (auto simp: scan_number_def Let_def split: prod.splits if_splits)
  then have "length r \<le> length (drop (length ?ds) s)" using ex fr order_trans by blast
  with ds s(1) show ?thesis by (cases s) auto
qed

lemma scan_literal_shorter: "scan_literal s = Inr (v, r) \<Longrightarrow> length r < length s"
  by (cases s) (auto simp: scan_literal_def lit_def dest: scan_number_shorter split: if_splits)

lemma scan_shorter:
  "scan_value n d s = Inr (v, r) \<Longrightarrow> length r < length s"
  "scan_members n d acc s = Inr (m, r) \<Longrightarrow> length r < length s"
  "scan_elements n d xs s = Inr (vs, r) \<Longrightarrow> length r < length s"
proof (induction n arbitrary: d s v r acc m xs vs)
  case 0
  { case 1 then show ?case by simp }
  { case 2 then show ?case by simp }
  { case 3 then show ?case by simp }
next
  case (Suc n)
  have skip: "length (skip_ws x) \<le> length x" "length (tl x) \<le> length x" for x
    by (simp_all add: drop_tl_le)
  have tl: "length (tl x) < length x" if "head_is c x" for c x using that by (cases x) auto
  { case 1
    then consider t where "head_is 34 s" "scan_string (tl s) = Some (t, r)"
      | c where "head_is c s" "r = tl (skip_ws (tl s))"
      | c m where "head_is c s" "scan_members n (d - 1) [] (skip_ws (tl s)) = Inr (m, r)"
      | c vs where "head_is c s" "scan_elements n (d - 1) [] (skip_ws (tl s)) = Inr (vs, r)"
      | "scan_literal s = Inr (v, r)"
      by (auto simp: result_simps Let_def split: if_splits option.splits)
    then show ?case
    proof cases
      case 1 with scan_string_shorter tl show ?thesis by fastforce
    next
      case 2 with skip tl show ?thesis by (metis le_less_trans)
    next
      case 3 with Suc.IH(2) tl skip show ?thesis by (meson less_trans less_le_trans le_less_trans)
    next
      case 4 with Suc.IH(3) tl skip show ?thesis by (meson less_trans less_le_trans le_less_trans)
    next
      case 5 then show ?thesis by (rule scan_literal_shorter)
    qed }
  { case 2
    then obtain k r0 v r2 where h: "head_is 34 s" and k: "scan_string (tl s) = Some (k, r0)"
      and v: "scan_value n d (skip_ws (tl (skip_ws r0))) = Inr (v, r2)"
      and r: "r = tl (skip_ws r2) \<or> scan_members n d (dict_set acc k v) (skip_ws (tl (skip_ws r2))) = Inr (m, r)"
      by (auto simp: result_simps Let_def split: if_splits option.splits)
    have "length r \<le> length r2"
      using r Suc.IH(2) [of d "dict_set acc k v" "skip_ws (tl (skip_ws r2))" m r] skip
      by (metis le_trans less_imp_le)
    also have "\<dots> \<le> length r0" using Suc.IH(1) [OF v] skip by (meson le_trans less_imp_le)
    also have "\<dots> < length (tl s)" using k by (rule scan_string_shorter)
    finally show ?case using tl [OF h] by simp }
  { case 3
    then obtain v r2 where v: "scan_value n d s = Inr (v, r2)"
      and r: "r = tl (skip_ws r2) \<or> scan_elements n d (xs @ [v]) (skip_ws (tl (skip_ws r2))) = Inr (vs, r)"
      by (auto simp: result_simps Let_def split: if_splits)
    have "length r \<le> length r2"
      using r Suc.IH(3) [of d "xs @ [v]" "skip_ws (tl (skip_ws r2))" vs r] skip
      by (metis le_trans less_imp_le)
    with Suc.IH(1) [OF v] show ?case by simp }
qed

text \<open>
  More fuel changes nothing: with the fuel that \<open>json_loads\<close> gives, the base cases of the scanners
  are reached on the empty text only, where they agree with the scanners.
\<close>

lemma scan_fuel:
  "2 * length s \<le> n \<Longrightarrow> n \<le> n' \<Longrightarrow> scan_value n' d s = scan_value n d s"
  "2 * length s \<le> n \<Longrightarrow> n \<le> n' \<Longrightarrow> scan_members n' d acc s = scan_members n d acc s"
  "2 * length s + 1 \<le> n \<Longrightarrow> n \<le> n' \<Longrightarrow> scan_elements n' d xs s = scan_elements n d xs s"
proof (induction n arbitrary: n' d s acc xs)
  case 0
  { case 1 then show ?case by (cases n') (auto simp: scan_literal_def scan_number_def lit_def) }
  { case 2 then show ?case by (cases n') auto }
  { case 3 then show ?case by simp }
next
  case (Suc n)
  have skip: "length (skip_ws x) \<le> length x" "length (tl x) \<le> length x" for x
    by (simp_all add: drop_tl_le)
  have tl: "length (tl x) < length x" if "head_is c x" for c x using that by (cases x) auto
  { case 1
    then obtain m where n': "n' = Suc m" "n \<le> m" by (cases n') auto
    have in_br: "2 * length (skip_ws (tl s)) + 1 \<le> n" if "head_is c s" for c
      using 1 tl [OF that] skip(1) [of "tl s"] by simp
    have el: "scan_elements m (d - 1) [] (skip_ws (tl s)) = scan_elements n (d - 1) [] (skip_ws (tl s))"
      if "head_is 91 s" by (rule Suc.IH(3) [OF in_br [OF that] n'(2)])
    have mem: "scan_members m (d - 1) [] (skip_ws (tl s)) = scan_members n (d - 1) [] (skip_ws (tl s))"
      if "head_is 123 s" using Suc.IH(2) [OF _ n'(2)] in_br [OF that] by simp
    show ?case
      unfolding n'(1) scan_value.simps(2) Let_def
      by (cases "head_is 123 s"; cases "head_is 91 s") (simp_all only: el mem if_True if_False simp_thms) }
  { case 2
    then obtain m where n': "n' = Suc m" "n \<le> m" by (cases n') auto
    have val: "scan_value m d (skip_ws (tl (skip_ws r))) = scan_value n d (skip_ws (tl (skip_ws r)))"
      if "head_is 34 s" "scan_string (tl s) = Some (k, r)" for k r
    proof (rule Suc.IH(1) [OF _ n'(2)])
      have "length r < length (tl s)" using that(2) by (rule scan_string_shorter)
      moreover have "length (skip_ws (tl (skip_ws r))) \<le> length r" using skip by (meson le_trans)
      ultimately show "2 * length (skip_ws (tl (skip_ws r))) \<le> n" using 2 tl [OF that(1)] by simp
    qed
    have mem: "scan_members m d a (skip_ws (tl (skip_ws r2))) = scan_members n d a (skip_ws (tl (skip_ws r2)))"
      if "head_is 34 s" "scan_string (tl s) = Some (k, r)"
        "scan_value n d (skip_ws (tl (skip_ws r))) = Inr (v, r2)" for k r v r2 a
    proof (rule Suc.IH(2) [OF _ n'(2)])
      have "length r < length (tl s)" using that(2) by (rule scan_string_shorter)
      moreover have "length (skip_ws (tl (skip_ws r))) \<le> length r" using skip by (meson le_trans)
      moreover have "length r2 < length (skip_ws (tl (skip_ws r)))" using that(3) by (rule scan_shorter)
      moreover have "length (skip_ws (tl (skip_ws r2))) \<le> length r2" using skip by (meson le_trans)
      ultimately show "2 * length (skip_ws (tl (skip_ws r2))) \<le> n" using 2 tl [OF that(1)] by simp
    qed
    show ?case
    proof (cases "head_is 34 s")
      case True
      show ?thesis
      proof (cases "scan_string (tl s)")
        case (Some kr)
        obtain k r where kr: "kr = (k, r)" by fastforce
        note Some = Some [unfolded kr]
        show ?thesis
          using True Some n' val [OF True Some] mem [OF True Some]
          by (cases "scan_value n d (skip_ws (tl (skip_ws r)))") (auto simp: Let_def)
      qed (use True n' in simp)
    qed (use n' in simp) }
  { case 3
    then obtain m where n': "n' = Suc m" "n \<le> m" by (cases n') auto
    have val: "scan_value m d s = scan_value n d s" using 3 by (intro Suc.IH(1) [OF _ n'(2)]) simp
    have el: "scan_elements m d a (skip_ws (tl (skip_ws r))) = scan_elements n d a (skip_ws (tl (skip_ws r)))"
      if "scan_value n d s = Inr (v, r)" for v r a
    proof (rule Suc.IH(3) [OF _ n'(2)])
      have "length r < length s" using that by (rule scan_shorter)
      moreover have "length (skip_ws (tl (skip_ws r))) \<le> length r" using skip by (meson le_trans)
      ultimately show "2 * length (skip_ws (tl (skip_ws r))) + 1 \<le> n" using 3 by simp
    qed
    show ?case
      using n' val el by (cases "scan_value n d s") (auto simp: Let_def) }
qed

text \<open>The interpretation: \<open>json_loads\<close> with enough recursion budget decodes \<open>json_dumps\<close>.\<close>

interpretation json: codec
  "\<lambda>v. if json_depth v \<le> depth then json_dumps v else None"
  "\<lambda>s. case json_loads depth s of Inl _ \<Rightarrow> None | Inr v \<Rightarrow> Some v"
  by unfold_locales (auto split: if_splits simp: json_loads_dumps)

end
