(* ===== verification/Protocol.thy ===== *)
theory Protocol
  imports Json_Roundtrip Validation Line_Buffer
begin

text \<open>
  The Enhanced wire protocol's device-to-host messages, \<open>device_connection/messages.py\<close> and
  \<open>device_connection/parser.py\<close>, and its host commands, \<open>device_connection/commands.py\<close>. A message
  is one JSON object; \<open>parse_device_message\<close> checks its keys, types and bounds exactly. Error texts
  are abbreviated, the exception classes of \<open>device_connection/errors.py\<close> are kept. \<open>depth\<close> is the
  interpreter's recursion budget, which \<open>json.loads\<close> consumes.
\<close>

section \<open>Messages\<close>

definition PROTOCOL_VERSION :: int where "PROTOCOL_VERSION = 1"

definition KNOWN_CAPABILITIES :: "ustr list" where
  "KNOWN_CAPABILITIES =
     map lit [''uart_receive'', ''gpio_control'', ''uart_send'', ''device_timestamp'',
              ''overflow_telemetry'', ''gpio_events'', ''power_sense'', ''msgpack'']"

definition KNOWN_ERROR_CODES :: "ustr list" where
  "KNOWN_ERROR_CODES =
     map lit [''invalid_command'', ''invalid_argument'', ''not_configured'', ''capture_active'',
              ''hardware_fault'', ''timeout'']"

record hello_message =
  hm_firmware :: ustr
  hm_device :: ustr
  hm_capabilities :: "ustr list"
  hm_protocol_version :: int

record uart_message =
  um_channel :: int
  um_timestamp_us :: int
  um_data :: bytes
  um_text :: ustr

record buffer_overflow_message =
  om_channel :: int
  om_timestamp_us :: int
  om_dropped_bytes :: int

record buffer_status_message =
  bs_timestamp_us :: int
  bs_uart_rx_size_bytes :: int
  bs_uart_rx_used_bytes :: int
  bs_uart_rx_high_water_bytes :: int
  bs_dropped_bytes_total :: int
  bs_overflow_events :: int

record command_success_message =
  cs_timestamp_us :: "int option"
  cs_bytes_accepted :: "int option"

record command_error_message =
  ce_error :: ustr
  ce_detail :: ustr

datatype device_message =
    Hello hello_message
  | Uart uart_message
  | BufferOverflow buffer_overflow_message
  | BufferStatus buffer_status_message
  | CommandSuccess command_success_message
  | CommandError command_error_message

section \<open>The parser\<close>

definition hello_keys :: "ustr list" where
  "hello_keys = map lit [''type'', ''v'', ''firmware'', ''device'', ''capabilities'']"
definition uart_keys :: "ustr list" where
  "uart_keys = map lit [''type'', ''channel'', ''timestamp_us'', ''data_b64'']"
definition buffer_overflow_keys :: "ustr list" where
  "buffer_overflow_keys = map lit [''type'', ''channel'', ''timestamp_us'', ''dropped_bytes'']"
definition buffer_status_keys :: "ustr list" where
  "buffer_status_keys =
     map lit [''type'', ''timestamp_us'', ''uart_rx_size_bytes'', ''uart_rx_used_bytes'',
              ''uart_rx_high_water_bytes'', ''dropped_bytes_total'', ''overflow_events'']"
definition command_success_keys :: "ustr list" where
  "command_success_keys = map lit [''ok'', ''timestamp_us'', ''bytes_accepted'']"
definition command_error_keys :: "ustr list" where
  "command_error_keys = map lit [''ok'', ''error'', ''detail'']"

definition MAX_HELLO_IDENTITY_BYTES :: nat where "MAX_HELLO_IDENTITY_BYTES = 64"
definition MAX_COMMAND_ERROR_DETAIL_BYTES :: nat where "MAX_COMMAND_ERROR_DETAIL_BYTES = 256"
definition MAX_UART_PAYLOAD_BYTES :: nat where "MAX_UART_PAYLOAD_BYTES = 32768"

definition load_json_object :: "nat \<Rightarrow> bytes \<Rightarrow> exc + pydict" where
  "load_json_object depth line =
     (case utf8_decode line of
        None \<Rightarrow> Inl (InvalidUtf8Error ''Protocol line is not valid UTF-8'')
      | Some text \<Rightarrow>
          bind_r (catch_r (\<lambda>e. e = JSONDecodeError)
                    (\<lambda>_. MalformedMessageError ''Protocol line is not valid JSON'')
                    (json_loads depth text)) (\<lambda>payload.
            case payload of
              PDict m \<Rightarrow> Inr m
            | _ \<Rightarrow> Inl (ProtocolValidationError ''Protocol line must decode to a JSON object'')))"

text \<open>The two key checks every message type begins with.\<close>

definition no_extra_keys :: "ustr list \<Rightarrow> pydict \<Rightarrow> exc + unit" where
  "no_extra_keys allowed m =
     (if set (dict_keys m) \<subseteq> set allowed then Inr ()
      else Inl (ProtocolValidationError ''Unexpected field(s)''))"

definition no_missing_keys :: "ustr list \<Rightarrow> pydict \<Rightarrow> exc + unit" where
  "no_missing_keys needed m =
     (if set needed \<subseteq> set (dict_keys m) then Inr ()
      else Inl (ProtocolValidationError ''Missing field(s)''))"

text \<open>\<open>payload[key]\<close>, used after the key checks.\<close>

definition item :: "string \<Rightarrow> pydict \<Rightarrow> pyval" where
  "item key m = (case map_of m (lit key) of None \<Rightarrow> PNone | Some v \<Rightarrow> v)"

definition validated_protocol_text :: "nat \<Rightarrow> bool \<Rightarrow> pyval \<Rightarrow> exc + ustr" where
  "validated_protocol_text max_bytes reject_edge_whitespace v =
     (case v of
        PStr s \<Rightarrow>
          (case utf8_encode s of
             None \<Rightarrow> Inl (ProtocolValidationError ''must be valid Unicode'')
           | Some e \<Rightarrow>
               if \<not> (1 \<le> length e \<and> length e \<le> max_bytes) then
                 Inl (ProtocolValidationError ''must encode to 1..max UTF-8 bytes'')
               else if reject_edge_whitespace \<and> (py_isspace (hd s) \<or> py_isspace (last s)) then
                 Inl (ProtocolValidationError ''must not have edge Unicode whitespace'')
               else if \<exists>c \<in> set s. is_cc c then
                 Inl (ProtocolValidationError ''must not contain Unicode control characters'')
               else Inr s)
      | _ \<Rightarrow> Inl (ProtocolValidationError ''must be a string''))"

definition validated_hello_identity :: "pyval \<Rightarrow> exc + ustr" where
  "validated_hello_identity = validated_protocol_text MAX_HELLO_IDENTITY_BYTES True"

fun parse_capabilities :: "ustr list \<Rightarrow> pyval list \<Rightarrow> exc + ustr list" where
  "parse_capabilities seen [] = Inr []"
| "parse_capabilities seen (v # vs) =
     (case v of
        PStr c \<Rightarrow>
          if c \<notin> set KNOWN_CAPABILITIES then
            Inl (ProtocolValidationError ''Unknown hello capability'')
          else if c \<in> set seen then Inl (ProtocolValidationError ''Duplicate hello capability'')
          else bind_r (parse_capabilities (c # seen) vs) (\<lambda>cs. Inr (c # cs))
      | _ \<Rightarrow> Inl (ProtocolValidationError ''Hello capabilities must be strings''))"

definition parse_hello :: "pydict \<Rightarrow> exc + device_message" where
  "parse_hello m =
     bind_r (no_extra_keys hello_keys m) (\<lambda>_.
     bind_r (no_missing_keys hello_keys m) (\<lambda>_.
       case item ''v'' m of
         PInt version \<Rightarrow>
           if version \<noteq> PROTOCOL_VERSION then Inl (ProtocolVersionError version)
           else
             bind_r (validated_hello_identity (item ''firmware'' m)) (\<lambda>firmware.
             bind_r (validated_hello_identity (item ''device'' m)) (\<lambda>device.
               case item ''capabilities'' m of
                 PList cs \<Rightarrow>
                   bind_r (parse_capabilities [] cs) (\<lambda>capabilities.
                     Inr (Hello \<lparr>hm_firmware = firmware, hm_device = device,
                                 hm_capabilities = capabilities, hm_protocol_version = version\<rparr>))
               | _ \<Rightarrow> Inl (ProtocolValidationError ''Hello capabilities must be an array'')))
       | _ \<Rightarrow> Inl (ProtocolValidationError ''Hello protocol version must be an integer'')))"

definition required_int :: "int \<Rightarrow> string \<Rightarrow> pydict \<Rightarrow> exc + int" where
  "required_int least key m =
     (case item key m of
        PInt i \<Rightarrow> if i < least then Inl (ProtocolValidationError ''integer out of range'') else Inr i
      | _ \<Rightarrow> Inl (ProtocolValidationError ''must be an integer''))"

definition required_non_negative_int :: "string \<Rightarrow> pydict \<Rightarrow> exc + int" where
  "required_non_negative_int = required_int 0"

definition required_positive_int :: "string \<Rightarrow> pydict \<Rightarrow> exc + int" where
  "required_positive_int = required_int 1"

definition optional_non_negative_int :: "string \<Rightarrow> pydict \<Rightarrow> exc + int option" where
  "optional_non_negative_int key m =
     (if lit key \<notin> set (dict_keys m) then Inr None
      else bind_r (required_non_negative_int key m) (\<lambda>i. Inr (Some i)))"

definition parse_uart :: "pydict \<Rightarrow> exc + device_message" where
  "parse_uart m =
     bind_r (no_extra_keys uart_keys m) (\<lambda>_.
     bind_r (no_missing_keys uart_keys m) (\<lambda>_.
     bind_r (required_non_negative_int ''channel'' m) (\<lambda>channel.
     bind_r (required_non_negative_int ''timestamp_us'' m) (\<lambda>timestamp_us.
       case item ''data_b64'' m of
         PStr data_b64 \<Rightarrow>
           (case b64decode data_b64 of
              None \<Rightarrow> Inl (ProtocolValidationError ''data_b64 is not valid base64'')
            | Some data \<Rightarrow>
                if \<not> (1 \<le> length data \<and> length data \<le> MAX_UART_PAYLOAD_BYTES) then
                  Inl (ProtocolValidationError ''data_b64 must decode to 1..32768 bytes'')
                else
                  Inr (Uart \<lparr>um_channel = channel, um_timestamp_us = timestamp_us, um_data = data,
                             um_text = utf8_decode_replace data\<rparr>))
       | _ \<Rightarrow> Inl (ProtocolValidationError ''data_b64 must be a base64 string'')))))"

definition parse_buffer_overflow :: "pydict \<Rightarrow> exc + device_message" where
  "parse_buffer_overflow m =
     bind_r (no_extra_keys buffer_overflow_keys m) (\<lambda>_.
     bind_r (no_missing_keys buffer_overflow_keys m) (\<lambda>_.
     bind_r (required_non_negative_int ''channel'' m) (\<lambda>channel.
     bind_r (required_non_negative_int ''timestamp_us'' m) (\<lambda>timestamp_us.
     bind_r (required_positive_int ''dropped_bytes'' m) (\<lambda>dropped_bytes.
       Inr (BufferOverflow \<lparr>om_channel = channel, om_timestamp_us = timestamp_us,
                            om_dropped_bytes = dropped_bytes\<rparr>))))))"

definition parse_buffer_status :: "pydict \<Rightarrow> exc + device_message" where
  "parse_buffer_status m =
     bind_r (no_extra_keys buffer_status_keys m) (\<lambda>_.
     bind_r (no_missing_keys buffer_status_keys m) (\<lambda>_.
     bind_r (required_non_negative_int ''timestamp_us'' m) (\<lambda>timestamp_us.
     bind_r (required_positive_int ''uart_rx_size_bytes'' m) (\<lambda>size.
     bind_r (required_non_negative_int ''uart_rx_used_bytes'' m) (\<lambda>used.
     bind_r (required_non_negative_int ''uart_rx_high_water_bytes'' m) (\<lambda>high_water.
     bind_r (required_non_negative_int ''dropped_bytes_total'' m) (\<lambda>dropped.
     bind_r (required_non_negative_int ''overflow_events'' m) (\<lambda>events.
       if used > size then
         Inl (ProtocolValidationError ''uart_rx_used_bytes cannot exceed uart_rx_size_bytes'')
       else if high_water > size then
         Inl (ProtocolValidationError ''uart_rx_high_water_bytes cannot exceed uart_rx_size_bytes'')
       else
         Inr (BufferStatus \<lparr>bs_timestamp_us = timestamp_us, bs_uart_rx_size_bytes = size,
                            bs_uart_rx_used_bytes = used, bs_uart_rx_high_water_bytes = high_water,
                            bs_dropped_bytes_total = dropped, bs_overflow_events = events\<rparr>)))))))))"

definition parse_command_success :: "pydict \<Rightarrow> exc + device_message" where
  "parse_command_success m =
     bind_r (no_extra_keys command_success_keys m) (\<lambda>_.
     bind_r (optional_non_negative_int ''timestamp_us'' m) (\<lambda>timestamp_us.
     bind_r (optional_non_negative_int ''bytes_accepted'' m) (\<lambda>bytes_accepted.
       case bytes_accepted of
         Some n \<Rightarrow>
           if n > 1024 then
             Inl (ProtocolValidationError ''bytes_accepted must not exceed 1024'')
           else Inr (CommandSuccess \<lparr>cs_timestamp_us = timestamp_us, cs_bytes_accepted = Some n\<rparr>)
       | None \<Rightarrow> Inr (CommandSuccess \<lparr>cs_timestamp_us = timestamp_us, cs_bytes_accepted = None\<rparr>))))"

definition parse_command_error :: "pydict \<Rightarrow> exc + device_message" where
  "parse_command_error m =
     bind_r (no_extra_keys command_error_keys m) (\<lambda>_.
     bind_r (no_missing_keys command_error_keys m) (\<lambda>_.
       case item ''error'' m of
         PStr error \<Rightarrow>
           if error \<notin> set KNOWN_ERROR_CODES then
             Inl (ProtocolValidationError ''error must be a known error code'')
           else
             bind_r (validated_protocol_text MAX_COMMAND_ERROR_DETAIL_BYTES False (item ''detail'' m))
               (\<lambda>detail. Inr (CommandError \<lparr>ce_error = error, ce_detail = detail\<rparr>))
       | _ \<Rightarrow> Inl (ProtocolValidationError ''error must be a known error code'')))"

definition parse_command_response :: "pydict \<Rightarrow> exc + device_message" where
  "parse_command_response m =
     (case item ''ok'' m of
        PBool True \<Rightarrow> parse_command_success m
      | PBool False \<Rightarrow> parse_command_error m
      | _ \<Rightarrow> Inl (ProtocolValidationError ''Command response ok must be a boolean''))"

definition parse_payload :: "pydict \<Rightarrow> exc + device_message" where
  "parse_payload m =
     (if lit ''ok'' \<in> set (dict_keys m) then parse_command_response m
      else case item ''type'' m of
        PStr t \<Rightarrow>
          if t = lit ''hello'' then parse_hello m
          else if t = lit ''uart'' then parse_uart m
          else if t = lit ''buffer_overflow'' then parse_buffer_overflow m
          else if t = lit ''buffer_status'' then parse_buffer_status m
          else Inl (UnsupportedMessageTypeError t)
      | _ \<Rightarrow> Inl (ProtocolValidationError ''Device message must include a string type field''))"

definition parse_device_message :: "nat \<Rightarrow> bytes \<Rightarrow> exc + device_message" where
  "parse_device_message depth line = bind_r (load_json_object depth line) parse_payload"

section \<open>Host commands\<close>

definition MAX_HOST_FRAME_BYTES :: nat where "MAX_HOST_FRAME_BYTES = 2048"

datatype control_state = Active | Idle

datatype host_command =
    ConfigureGpioMode gpio_channel gpio_mode gpio_level "gpio_level option"
  | PulseControl gpio_channel int
  | SetControlState gpio_channel control_state
  | UartSend bytes

fun to_payload :: "host_command \<Rightarrow> pydict" where
  "to_payload (ConfigureGpioMode channel mode active idle) =
     [(lit ''cmd'', PStr (lit ''configure_gpio_mode'')),
      (lit ''channel'', PStr (lit (channel_name channel))),
      (lit ''mode'', PStr (lit (mode_name mode))),
      (lit ''active_level'', PStr (lit (level_name active)))]
     @ (case idle of None \<Rightarrow> [] | Some l \<Rightarrow> [(lit ''idle_level'', PStr (lit (level_name l)))])"
| "to_payload (PulseControl channel pulse_ms) =
     [(lit ''cmd'', PStr (lit ''pulse_control'')),
      (lit ''channel'', PStr (lit (channel_name channel))),
      (lit ''pulse_ms'', PInt pulse_ms)]"
| "to_payload (SetControlState channel state) =
     [(lit ''cmd'', PStr (lit ''set_control_state'')),
      (lit ''channel'', PStr (lit (channel_name channel))),
      (lit ''state'', PStr (lit (case state of Active \<Rightarrow> ''active'' | Idle \<Rightarrow> ''idle'')))]"
| "to_payload (UartSend data) =
     [(lit ''cmd'', PStr (lit ''uart_send'')),
      (lit ''data_b64'', PStr (b64encode_str data))]"

text \<open>\<open>None\<close> is a payload \<open>json_dumps\<close> does not cover; no command has one.\<close>

definition encode_payload :: "pydict \<Rightarrow> (exc + bytes) option" where
  "encode_payload payload =
     (case json_dumps (PDict payload) of
        None \<Rightarrow> None
      | Some text \<Rightarrow>
          (case utf8_encode (text @ [10]) of
             None \<Rightarrow> Some (Inl UnicodeEncodeError)
           | Some frame \<Rightarrow>
               if length frame > MAX_HOST_FRAME_BYTES then
                 Some (Inl (HostCommandFrameTooLargeError (length frame) MAX_HOST_FRAME_BYTES))
               else Some (Inr frame)))"

definition to_ndjson :: "host_command \<Rightarrow> (exc + bytes) option" where
  "to_ndjson c = encode_payload (to_payload c)"

text \<open>\<open>except ValueError\<close> around a validator.\<close>

definition as_protocol_error :: "exc + 'a \<Rightarrow> exc + 'a" where
  "as_protocol_error = catch_r is_value_error (\<lambda>_. ProtocolValidationError ''invalid argument'')"

definition configure_gpio_mode_command ::
  "pyval \<Rightarrow> pyval \<Rightarrow> pyval \<Rightarrow> pyval \<Rightarrow> exc + host_command" where
  "configure_gpio_mode_command channel mode active_level idle_level =
     as_protocol_error
       (bind_r (validate_gpio_channel channel) (\<lambda>c.
        bind_r (validate_gpio_mode_configuration mode active_level idle_level) (\<lambda>(m, a, i).
          Inr (ConfigureGpioMode c m a i))))"

definition pulse_control_command :: "pyval \<Rightarrow> pyval \<Rightarrow> exc + host_command" where
  "pulse_control_command channel pulse_ms =
     as_protocol_error
       (bind_r (validate_gpio_channel channel) (\<lambda>c.
        bind_r (validate_reset_pulse pulse_ms) (\<lambda>p. Inr (PulseControl c p))))"

definition set_control_state_command :: "pyval \<Rightarrow> pyval \<Rightarrow> exc + host_command" where
  "set_control_state_command channel state =
     bind_r (as_protocol_error (validate_gpio_channel channel)) (\<lambda>c.
       if state = PStr (lit ''active'') then Inr (SetControlState c Active)
       else if state = PStr (lit ''idle'') then Inr (SetControlState c Idle)
       else Inl (ProtocolValidationError ''Control state must be active or idle''))"

definition uart_send_command :: "pyval \<Rightarrow> exc + host_command" where
  "uart_send_command data =
     (case data of
        PBytes d \<Rightarrow>
          if d = [] then Inl (ProtocolValidationError ''UART send data must not be empty'')
          else if length d > 1024 then
            Inl (ProtocolValidationError ''UART send data must not exceed 1024 bytes'')
          else Inr (UartSend d)
      | _ \<Rightarrow> Inl (ProtocolValidationError ''UART send data must be bytes''))"

definition uart_send_text_command :: "pyval \<Rightarrow> pyval \<Rightarrow> exc + host_command" where
  "uart_send_text_command text append_newline =
     bind_r (as_protocol_error (prepare_uart_send_payload text append_newline))
       (\<lambda>d. uart_send_command (PBytes d))"

section \<open>Properties of the encoder\<close>

lemma utf8_encode_ascii_list: "\<forall>c \<in> set s. c < 128 \<Longrightarrow> utf8_encode s = Some (map char_of s)"
  by (induction s) (auto simp: utf8_encode_cp_def)

lemma escape_char_printable: "x \<in> set (escape_char c) \<Longrightarrow> 32 \<le> x"
  by (auto simp: escape_char_def hex_digit_def split: if_splits)

lemma dump_string_printable: "x \<in> set (dump_string s) \<Longrightarrow> 32 \<le> x"
  by (auto simp: dump_string_def dest: escape_char_printable)

lemma join_comma_set: "x \<in> set (join_comma ss) \<Longrightarrow> x = 44 \<or> (\<exists>s \<in> set ss. x \<in> set s)"
  by (induction ss rule: join_comma.induct) auto

lemma dump_int_chars: "x \<in> set (dump_int i) \<Longrightarrow> x = 45 \<or> is_digit x"
  by (auto simp: dump_int_def dest: nat_digits_digit split: if_splits)

lemma dump_value_printable: "x \<in> set (dump_value v) \<Longrightarrow> 32 \<le> x"
proof (induction v)
  case (PInt i)
  then show ?case using dump_int_chars [of x i] by (auto simp: is_digit_def)
next
  case (PList vs)
  then show ?case by (auto dest!: join_comma_set)
next
  case (PDict m)
  from PDict.prems consider "x = 123" | "x = 125" | "x = 44"
    | k v where "(k, v) \<in> set m" "x \<in> set (dump_string k @ 58 # dump_value v)"
    by (auto dest!: join_comma_set)
  then show ?case
  proof cases
    case 4
    then show ?thesis using PDict.IH [OF 4(1), of v] by (auto simp: snds.intros dest: dump_string_printable)
  qed simp_all
qed (auto simp: lit_def dest: dump_string_printable split: if_splits)

section \<open>Properties of the commands\<close>

text \<open>What the builders produce.\<close>

fun command_ok :: "host_command \<Rightarrow> bool" where
  "command_ok (ConfigureGpioMode c m a i) = mode_matrix m a i"
| "command_ok (PulseControl c p) = (1 \<le> p \<and> p \<le> 10000)"
| "command_ok (SetControlState c s) = True"
| "command_ok (UartSend d) = (1 \<le> length d \<and> length d \<le> 1024)"

lemma as_protocol_error_Inr [simp]: "as_protocol_error m = Inr x \<longleftrightarrow> m = Inr x"
  by (simp add: as_protocol_error_def result_simps)

lemma builders_ok:
  "configure_gpio_mode_command ch m a i = Inr c \<Longrightarrow> command_ok c"
  "pulse_control_command ch p = Inr c \<Longrightarrow> command_ok c"
  "set_control_state_command ch s = Inr c \<Longrightarrow> command_ok c"
  "uart_send_command d = Inr c \<Longrightarrow> command_ok c"
  "uart_send_text_command t nlf = Inr c \<Longrightarrow> command_ok c"
proof -
  have u: "uart_send_command d = Inr c \<Longrightarrow> command_ok c" for d
    by (cases d) (auto simp: uart_send_command_def Suc_le_eq split: if_splits)
  then show "uart_send_command d = Inr c \<Longrightarrow> command_ok c" .
  show "uart_send_text_command t nlf = Inr c \<Longrightarrow> command_ok c"
    using u by (auto simp: uart_send_text_command_def result_simps)
  show "configure_gpio_mode_command ch m a i = Inr c \<Longrightarrow> command_ok c"
    by (auto simp: configure_gpio_mode_command_def result_simps mode_configuration_Inr)
  show "pulse_control_command ch p = Inr c \<Longrightarrow> command_ok c"
    by (auto simp: pulse_control_command_def result_simps validate_reset_pulse_def
        split: pyval.splits if_splits)
  show "set_control_state_command ch s = Inr c \<Longrightarrow> command_ok c"
    by (auto simp: set_control_state_command_def result_simps split: if_splits)
qed

lemma nat_digits_length: "n < 10 ^ k \<Longrightarrow> 1 \<le> k \<Longrightarrow> length (nat_digits n) \<le> k"
proof (induction n arbitrary: k rule: nat_digits.induct)
  case (1 n)
  show ?case
  proof (cases "n < 10")
    case True
    with 1(3) show ?thesis by (simp add: nat_digits.simps)
  next
    case False
    with 1(2,3) obtain j where k: "k = Suc j" "1 \<le> j"
      by (cases k; cases "k = 1") (auto simp: not_less numeral_eq_Suc)
    with 1(2) have "n div 10 < 10 ^ j" by (simp add: div_less_iff_less_mult mult.commute)
    from 1(1) [OF False this k(2)] False k(1) show ?thesis by (subst nat_digits.simps) simp
  qed
qed

lemma payload_dumpable: "command_ok c \<Longrightarrow> dumpable (PDict (to_payload c))"
proof (cases c)
  case (PulseControl ch p)
  assume "command_ok c"
  with PulseControl have "nat \<bar>p\<bar> < 10 ^ 5" by (simp add: nat_less_iff)
  then have "length (nat_digits (nat \<bar>p\<bar>)) \<le> 5" by (rule nat_digits_length) simp
  with PulseControl show ?thesis by (simp add: dict_keys_def MAX_STR_DIGITS_def)
qed (auto simp: dict_keys_def split: option.splits)

definition plain :: "string \<Rightarrow> bool" where
  "plain s \<longleftrightarrow> (\<forall>c \<in> set s. 43 \<le> (of_char c :: nat) \<and> (of_char c :: nat) < 128 \<and> (of_char c :: nat) \<noteq> 92)"

lemma plain_simps [simp]:
  "plain []"
  "plain (c # s) \<longleftrightarrow> 43 \<le> (of_char c :: nat) \<and> (of_char c :: nat) < 128 \<and> (of_char c :: nat) \<noteq> 92 \<and> plain s"
  by (auto simp: plain_def)

lemma dump_string_plain:
  assumes "plain s"
  shows "length (dump_string (lit s)) = length s + 2" "x \<in> set (dump_string (lit s)) \<Longrightarrow> x < 128"
proof -
  have "concat (map escape_char (lit s)) = lit s"
    using assms by (induction s) (auto simp: lit_def escape_char_def)
  then have "dump_string (lit s) = 34 # lit s @ [34]" by (simp add: dump_string_def)
  then show "length (dump_string (lit s)) = length s + 2" "x \<in> set (dump_string (lit s)) \<Longrightarrow> x < 128"
    using assms by (auto simp: lit_def plain_def)
qed

lemma names_plain [simp]:
  "plain (channel_name ch)" "plain (mode_name m)" "plain (level_name l)" "plain (b64encode d)"
proof -
  show "plain (channel_name ch)" by (cases ch; simp)
  show "plain (mode_name m)" by (cases m; simp)
  show "plain (level_name l)" by (cases l; simp)
  show "plain (b64encode d)" by (auto simp: plain_def b64_plain_def dest!: b64encode_plain)
qed

lemma names_length:
  "length (channel_name ch) = 5" "length (mode_name m) \<le> 10" "length (level_name l) \<le> 4"
  by ((cases ch; simp), (cases m; simp), (cases l; simp))

lemma configure_text:
  assumes "mode_matrix m a i"
  shows "length (dump_value (PDict (to_payload (ConfigureGpioMode ch m a i)))) < 2048
     \<and> (\<forall>x \<in> set (dump_value (PDict (to_payload (ConfigureGpioMode ch m a i)))). x < 128)"
  using names_length(1) [of ch] names_length(2) [of m] names_length(3) [of a] names_length(3) [of "the i"]
  by (cases i) (auto simp: dump_string_plain(1) dest: dump_string_plain(2) [rotated])

lemma control_text:
  "length (dump_value (PDict (to_payload (SetControlState ch s)))) < 2048
   \<and> (\<forall>x \<in> set (dump_value (PDict (to_payload (SetControlState ch s)))). x < 128)"
  using names_length(1) [of ch] by (cases s) (auto simp: dump_string_plain(1) dest: dump_string_plain(2) [rotated])

lemma pulse_text:
  assumes "1 \<le> p" and "p \<le> 10000"
  shows "length (dump_value (PDict (to_payload (PulseControl ch p)))) < 2048
     \<and> (\<forall>x \<in> set (dump_value (PDict (to_payload (PulseControl ch p)))). x < 128)"
proof -
  from assms have "nat p < 10 ^ 5" by (simp add: nat_less_iff)
  then have "length (dump_int p) \<le> 5" using assms nat_digits_length [of "nat p" 5] by (simp add: dump_int_def)
  moreover have "\<forall>x \<in> set (dump_int p). x < 128"
    by (auto simp: is_digit_def dest!: dump_int_chars)
  ultimately show ?thesis
    using names_length(1) [of ch]
    by (auto simp: dump_string_plain(1) dest: dump_string_plain(2) [rotated])
qed

lemma send_text:
  assumes "length d \<le> 1024"
  shows "length (dump_value (PDict (to_payload (UartSend d)))) < 2048
     \<and> (\<forall>x \<in> set (dump_value (PDict (to_payload (UartSend d)))). x < 128)"
proof -
  from assms have "(length d + 2) div 3 \<le> 1026 div 3" by (intro div_le_mono) simp
  then have "length (b64encode d) \<le> 1368" by (simp add: length_b64encode)
  then show ?thesis
    by (auto simp: b64encode_str_def dump_string_plain(1) dest: dump_string_plain(2) [rotated])
qed

lemma command_text:
  assumes "command_ok c"
  shows "length (dump_value (PDict (to_payload c))) < 2048
     \<and> (\<forall>x \<in> set (dump_value (PDict (to_payload c))). x < 128)"
proof (cases c)
  case (ConfigureGpioMode ch m a i)
  with assms have "mode_matrix m a i" by simp
  from configure_text [OF this] ConfigureGpioMode show ?thesis by blast
next
  case (PulseControl ch p)
  with assms have "1 \<le> p" "p \<le> 10000" by simp_all
  from pulse_text [OF this] PulseControl show ?thesis by blast
next
  case (SetControlState ch s)
  with control_text show ?thesis by blast
next
  case (UartSend d)
  with assms have "length d \<le> 1024" by simp
  from send_text [OF this] UartSend show ?thesis by blast
qed

lemma json_depth_payload: "json_depth (PDict (to_payload c)) = 1"
  by (cases c) (auto split: option.splits)

text \<open>The frame of a command that is in range.\<close>

lemma command_frame_exists:
  assumes ok: "command_ok c" and "1 \<le> depth"
  shows "\<exists>body. to_ndjson c = Some (Inr (body @ [nl])) \<and> length body < MAX_HOST_FRAME_BYTES
     \<and> nl \<notin> set body \<and> load_json_object depth body = Inr (to_payload c)"
proof -
  let ?v = "PDict (to_payload c)"
  let ?body = "map char_of (dump_value ?v) :: bytes"
  note short = command_text [OF ok]
  have js: "json_dumps ?v = Some (dump_value ?v)"
    using payload_dumpable [OF ok] by (simp add: json_dumps_def)
  have enc: "utf8_encode (dump_value ?v) = Some ?body"
    using short by (intro utf8_encode_ascii_list) blast
  have "utf8_encode (dump_value ?v @ [10]) = Some (map char_of (dump_value ?v @ [10]))"
    using short by (intro utf8_encode_ascii_list) auto
  moreover have "char_of (10 :: nat) = nl" by (simp add: char_of_eq_iff)
  ultimately have "utf8_encode (dump_value ?v @ [10]) = Some (?body @ [nl])"
    by (simp only: map_append list.map)
  then have "to_ndjson c = Some (Inr (?body @ [nl]))"
    using js short unfolding to_ndjson_def encode_payload_def
    by (simp only: option.case length_append length_map MAX_HOST_FRAME_BYTES_def) simp
  moreover have "nl \<notin> set ?body"
    using utf8_encode_ascii [OF enc, of nl] dump_value_printable [of 10 ?v] by auto
  moreover have "load_json_object depth ?body = Inr (to_payload c)"
    using utf8_decode_encode [OF enc] json_loads_dumps [OF js, of depth] assms(2) json_depth_payload [of c]
    by (simp add: load_json_object_def)
  ultimately show ?thesis using short by (auto simp: MAX_HOST_FRAME_BYTES_def)
qed

text \<open>
  C16: Every command a builder accepts encodes to one wire frame: it fits the 2048-byte limit, so
  the size error is never raised for it, the newline is its last byte and occurs nowhere else, and
  the receiver's JSON reader gets exactly the command's payload back.
\<close>

theorem host_command_frames:
  assumes "configure_gpio_mode_command ch m a i = Inr c \<or> pulse_control_command ch p = Inr c
      \<or> set_control_state_command ch st = Inr c \<or> uart_send_command d = Inr c
      \<or> uart_send_text_command t nlf = Inr c" and "1 \<le> depth"
  shows "\<exists>body. to_ndjson c = Some (Inr (body @ [nl])) \<and> length body < MAX_HOST_FRAME_BYTES
     \<and> nl \<notin> set body \<and> load_json_object depth body = Inr (to_payload c)"
proof -
  from assms(1) builders_ok have "command_ok c" by blast
  from command_frame_exists [OF this assms(2)] show ?thesis .
qed

theorem host_command_frames_witness:
  "\<exists>body. to_ndjson (UartSend ''hi'') = Some (Inr (body @ [nl])) \<and> nl \<notin> set body
     \<and> load_json_object 1 body = Inr (to_payload (UartSend ''hi''))"
proof -
  have "uart_send_command (PBytes ''hi'') = Inr (UartSend ''hi'')" by (simp add: uart_send_command_def)
  with host_command_frames [where c = "UartSend ''hi''" and depth = 1 and d = "PBytes ''hi''"]
  show ?thesis by (auto simp del: to_payload.simps)
qed

section \<open>Properties of the message parser\<close>

lemma key_checks [simp]:
  "no_extra_keys ks m = Inr u \<longleftrightarrow> set (dict_keys m) \<subseteq> set ks"
  "no_missing_keys ks m = Inr u \<longleftrightarrow> set ks \<subseteq> set (dict_keys m)"
  by (auto simp: no_extra_keys_def no_missing_keys_def)

lemma required_int_Inr: "required_int k key m = Inr i \<longleftrightarrow> item key m = PInt i \<and> k \<le> i"
  by (auto simp: required_int_def split: pyval.splits)

text \<open>A frame that carries the object \<open>m\<close>: the compact text a device sends for it.\<close>

definition frame_of :: "pydict \<Rightarrow> bytes \<Rightarrow> bool" where
  "frame_of m line \<longleftrightarrow> (\<exists>s. json_dumps (PDict m) = Some s \<and> utf8_encode s = Some line)"

lemma parse_frame:
  assumes "frame_of m line" and "json_depth (PDict m) \<le> depth"
  shows "parse_device_message depth line = parse_payload m"
proof -
  from assms(1) obtain s where t: "json_dumps (PDict m) = Some s" "utf8_encode s = Some line"
    by (auto simp: frame_of_def)
  from utf8_decode_encode [OF t(2)] json_loads_dumps [OF t(1) assms(2)]
  show ?thesis by (simp add: parse_device_message_def load_json_object_def)
qed

lemma parse_others_not_uart:
  "parse_hello m \<noteq> Inr (Uart u)" "parse_buffer_overflow m \<noteq> Inr (Uart u)"
  "parse_buffer_status m \<noteq> Inr (Uart u)" "parse_command_response m \<noteq> Inr (Uart u)"
  by (auto simp: parse_hello_def parse_buffer_overflow_def parse_buffer_status_def
      parse_command_response_def parse_command_success_def parse_command_error_def result_simps
      split: pyval.splits if_splits bool.splits option.splits)

lemma parse_others_not_hello:
  "parse_uart m \<noteq> Inr (Hello h)" "parse_buffer_overflow m \<noteq> Inr (Hello h)"
  "parse_buffer_status m \<noteq> Inr (Hello h)" "parse_command_response m \<noteq> Inr (Hello h)"
  by (auto simp: parse_uart_def parse_buffer_overflow_def parse_buffer_status_def
      parse_command_response_def parse_command_success_def parse_command_error_def result_simps
      split: pyval.splits if_splits bool.splits option.splits)

lemma parse_capabilities_Inr:
  "parse_capabilities seen vs = Inr cs \<longleftrightarrow>
     vs = map PStr cs \<and> distinct cs \<and> set cs \<subseteq> set KNOWN_CAPABILITIES \<and> set cs \<inter> set seen = {}"
proof (induction seen vs arbitrary: cs rule: parse_capabilities.induct)
  case (1 seen)
  then show ?case by auto
next
  case (2 seen v vs)
  show ?case
  proof (cases v)
    case (PStr c)
    from "2.IH" [OF PStr] show ?thesis
      by (cases cs) (auto simp: PStr result_simps)
  qed (cases cs; simp)+
qed

lemma no_ok_key:
  "set (dict_keys m) \<subseteq> set uart_keys \<Longrightarrow> lit ''ok'' \<notin> set (dict_keys m)"
  "set (dict_keys m) \<subseteq> set hello_keys \<Longrightarrow> lit ''ok'' \<notin> set (dict_keys m)"
  by (auto simp: uart_keys_def hello_keys_def)

text \<open>
  C17: Captured bytes cross the wire unchanged. A frame is read as a UART message exactly when its
  object has the four fields and no other, a non-negative integer channel and timestamp, and
  strict base64 of 1 to 32768 bytes; the message then carries exactly those bytes. In particular
  the base64 text of any such bytes is accepted and gives them back.
\<close>

theorem uart_message_exact:
  assumes "frame_of m line" and "json_depth (PDict m) \<le> depth"
  shows "parse_device_message depth line = Inr (Uart u) \<longleftrightarrow>
     set (dict_keys m) = set uart_keys \<and> item ''type'' m = PStr (lit ''uart'')
     \<and> item ''channel'' m = PInt (um_channel u) \<and> 0 \<le> um_channel u
     \<and> item ''timestamp_us'' m = PInt (um_timestamp_us u) \<and> 0 \<le> um_timestamp_us u
     \<and> (\<exists>b. item ''data_b64'' m = PStr b \<and> b64decode b = Some (um_data u))
     \<and> 1 \<le> length (um_data u) \<and> length (um_data u) \<le> 32768
     \<and> um_text u = utf8_decode_replace (um_data u)"
proof -
  have uart: "parse_uart m = Inr (Uart u) \<longleftrightarrow>
     set (dict_keys m) = set uart_keys
     \<and> item ''channel'' m = PInt (um_channel u) \<and> 0 \<le> um_channel u
     \<and> item ''timestamp_us'' m = PInt (um_timestamp_us u) \<and> 0 \<le> um_timestamp_us u
     \<and> (\<exists>b. item ''data_b64'' m = PStr b \<and> b64decode b = Some (um_data u))
     \<and> 1 \<le> length (um_data u) \<and> length (um_data u) \<le> 32768
     \<and> um_text u = utf8_decode_replace (um_data u)"
    by (cases u) (auto simp: parse_uart_def result_simps required_non_negative_int_def
        required_int_Inr MAX_UART_PAYLOAD_BYTES_def check_simps)
  have "parse_payload m = Inr (Uart u) \<longleftrightarrow>
      lit ''ok'' \<notin> set (dict_keys m) \<and> item ''type'' m = PStr (lit ''uart'') \<and> parse_uart m = Inr (Uart u)"
    by (auto simp: parse_payload_def parse_others_not_uart split: pyval.splits if_splits)
  with uart no_ok_key(1) [of m] show ?thesis unfolding parse_frame [OF assms] by auto
qed

definition demo_uart :: pydict where
  "demo_uart =
     [(lit ''type'', PStr (lit ''uart'')), (lit ''channel'', PInt 0), (lit ''timestamp_us'', PInt 7),
      (lit ''data_b64'', PStr (lit ''aGk=''))]"

lemma frame_exists:
  assumes "dumpable (PDict m)" and "\<forall>c \<in> set (dump_value (PDict m)). c < 128"
  obtains line where "frame_of m line"
  using assms utf8_encode_ascii_list [OF assms(2)] by (auto simp: frame_of_def json_dumps_def)

theorem uart_message_exact_witness:
  "\<exists>line. frame_of demo_uart line
     \<and> parse_device_message 1 line = Inr (Uart \<lparr>um_channel = 0, um_timestamp_us = 7, um_data = ''hi'',
         um_text = utf8_decode_replace ''hi''\<rparr>)"
proof -
  have "dumpable (PDict demo_uart)"
    by (simp add: demo_uart_def dict_keys_def MAX_STR_DIGITS_def nat_digits.simps)
  moreover have "\<forall>c \<in> set (dump_value (PDict demo_uart)). c < 128"
    by (simp add: demo_uart_def dump_string_def dump_int_def lit_def escape_char_def nat_digits.simps)
  ultimately obtain line where l: "frame_of demo_uart line" by (rule frame_exists)
  have d: "json_depth (PDict demo_uart) \<le> 1" by (simp add: demo_uart_def)
  have "b64encode_str ''hi'' = lit ''aGk=''" by (simp add: b64encode_str_def b64_char_def char_of_eq_iff)
  then have b: "b64decode (lit ''aGk='') = Some ''hi''" using b64decode_encode [of "''hi''"] by simp
  have "set (dict_keys demo_uart) = set uart_keys"
    by (simp add: demo_uart_def uart_keys_def dict_keys_def)
  then have "parse_device_message 1 line = Inr (Uart \<lparr>um_channel = 0, um_timestamp_us = 7, um_data = ''hi'',
         um_text = utf8_decode_replace ''hi''\<rparr>)"
    unfolding uart_message_exact [OF l d] using b by (simp add: item_def demo_uart_def)
  with l show ?thesis by blast
qed

text \<open>
  A handshake is accepted exactly when it has the five fields and no other, protocol version
  1, a firmware and a device name of 1 to 64 UTF-8 bytes without control characters or edge
  whitespace, and a list of distinct known capabilities; they are kept in their order.
\<close>

theorem hello_message_exact:
  assumes "frame_of m line" and "json_depth (PDict m) \<le> depth"
  shows "parse_device_message depth line = Inr (Hello h) \<longleftrightarrow>
     set (dict_keys m) = set hello_keys \<and> item ''type'' m = PStr (lit ''hello'')
     \<and> item ''v'' m = PInt 1 \<and> hm_protocol_version h = 1
     \<and> validated_hello_identity (item ''firmware'' m) = Inr (hm_firmware h)
     \<and> validated_hello_identity (item ''device'' m) = Inr (hm_device h)
     \<and> item ''capabilities'' m = PList (map PStr (hm_capabilities h))
     \<and> distinct (hm_capabilities h) \<and> set (hm_capabilities h) \<subseteq> set KNOWN_CAPABILITIES"
proof -
  have hello: "parse_hello m = Inr (Hello h) \<longleftrightarrow>
     set (dict_keys m) = set hello_keys
     \<and> item ''v'' m = PInt 1 \<and> hm_protocol_version h = 1
     \<and> validated_hello_identity (item ''firmware'' m) = Inr (hm_firmware h)
     \<and> validated_hello_identity (item ''device'' m) = Inr (hm_device h)
     \<and> item ''capabilities'' m = PList (map PStr (hm_capabilities h))
     \<and> distinct (hm_capabilities h) \<and> set (hm_capabilities h) \<subseteq> set KNOWN_CAPABILITIES"
    by (cases h) (auto simp: parse_hello_def result_simps PROTOCOL_VERSION_def parse_capabilities_Inr
        check_simps)
  have "parse_payload m = Inr (Hello h) \<longleftrightarrow>
      lit ''ok'' \<notin> set (dict_keys m) \<and> item ''type'' m = PStr (lit ''hello'') \<and> parse_hello m = Inr (Hello h)"
    by (auto simp: parse_payload_def parse_others_not_hello split: pyval.splits if_splits)
  with hello no_ok_key(2) [of m] show ?thesis unfolding parse_frame [OF assms] by auto
qed

definition demo_hello :: pydict where
  "demo_hello =
     [(lit ''type'', PStr (lit ''hello'')), (lit ''v'', PInt 1), (lit ''firmware'', PStr (lit ''fw'')),
      (lit ''device'', PStr (lit ''dev'')), (lit ''capabilities'', PList [PStr (lit ''uart_receive'')])]"

theorem hello_message_exact_witness:
  "\<exists>line. frame_of demo_hello line
     \<and> parse_device_message 2 line = Inr (Hello \<lparr>hm_firmware = lit ''fw'', hm_device = lit ''dev'',
         hm_capabilities = [lit ''uart_receive''], hm_protocol_version = 1\<rparr>)"
proof -
  have "dumpable (PDict demo_hello)"
    by (simp add: demo_hello_def dict_keys_def MAX_STR_DIGITS_def nat_digits.simps)
  moreover have "\<forall>c \<in> set (dump_value (PDict demo_hello)). c < 128"
    by (simp add: demo_hello_def dump_string_def dump_int_def lit_def escape_char_def nat_digits.simps)
  ultimately obtain line where l: "frame_of demo_hello line" by (rule frame_exists)
  have d: "json_depth (PDict demo_hello) \<le> 2" by (simp add: demo_hello_def)
  have id: "validated_hello_identity (PStr (lit s)) = Inr (lit s)" if "s = ''fw'' \<or> s = ''dev''" for s
  proof -
    from that have "utf8_encode (lit s) = Some s" by (intro utf8_encode_lit) auto
    with that show ?thesis
      by (auto simp: validated_hello_identity_def validated_protocol_text_def
          MAX_HELLO_IDENTITY_BYTES_def) (auto simp: lit_def py_isspace_def is_cc_def)
  qed
  have "set (dict_keys demo_hello) = set hello_keys"
    by (simp add: demo_hello_def hello_keys_def dict_keys_def)
  then have "parse_device_message 2 line = Inr (Hello \<lparr>hm_firmware = lit ''fw'', hm_device = lit ''dev'',
         hm_capabilities = [lit ''uart_receive''], hm_protocol_version = 1\<rparr>)"
    unfolding hello_message_exact [OF l d] using id
    by (simp add: item_def demo_hello_def KNOWN_CAPABILITIES_def)
  with l show ?thesis by blast
qed

end
