(* ===== verification/Ndjson_Stream.thy ===== *)
theory Ndjson_Stream
  imports Protocol
begin

text \<open>
  The incremental frame parser, \<open>device_connection/stream.py\<close>: serial chunks of any size go in,
  parsed messages come out, and the first bad frame stops the stream for good. \<open>feed_chunk\<close> is
  \<open>NdjsonStreamParser.feed\<close>; it returns the parser's state also when it raises. The lemmas show
  that the messages and the terminal failure are those of the stream's frames, however the stream
  is cut, and that at most 65535 bytes are ever held back.
\<close>

definition MAX_DEVICE_FRAME_BYTES :: nat where "MAX_DEVICE_FRAME_BYTES = 65536"
definition MAX_PENDING_DEVICE_FRAME_BYTES :: nat where
  "MAX_PENDING_DEVICE_FRAME_BYTES = MAX_DEVICE_FRAME_BYTES - 1"

record ndjson_parser =
  np_buffer :: bytes
  np_terminal_error :: "exc option"

definition new_ndjson_parser :: ndjson_parser where
  "new_ndjson_parser = \<lparr>np_buffer = [], np_terminal_error = None\<rparr>"

definition frame_body :: "bytes \<Rightarrow> exc + bytes" where
  "frame_body raw =
     (let line = (if suffix [cr] raw then butlast raw else raw) in
      if line = [] \<or> cr \<in> set line \<or> hd line \<noteq> CHR ''{'' \<or> last line \<noteq> CHR ''}'' then
        Inl (ProtocolValidationError ''Enhanced protocol frame must contain exactly one JSON object'')
      else Inr line)"

text \<open>\<open>buffer.split(b"\n")\<close>: the terminated lines, without their newline, and the rest.\<close>

definition split_lines :: "bytes \<Rightarrow> bytes list \<times> bytes" where
  "split_lines b = (case cut_lines [] b of (ls, r) \<Rightarrow> (map butlast ls, r))"

definition parse_frame_line :: "nat \<Rightarrow> bytes \<Rightarrow> exc + device_message" where
  "parse_frame_line depth line =
     (if length line + 1 > MAX_DEVICE_FRAME_BYTES then
        Inl (FrameTooLargeError (length line + 1) MAX_DEVICE_FRAME_BYTES)
      else bind_r (frame_body line) (parse_device_message depth))"

text \<open>The loop over the lines: the messages before the first exception, and that exception.\<close>

fun parse_lines :: "nat \<Rightarrow> bytes list \<Rightarrow> device_message list \<times> exc option" where
  "parse_lines depth [] = ([], None)"
| "parse_lines depth (line # lines) =
     (case parse_frame_line depth line of
        Inl e \<Rightarrow> ([], Some e)
      | Inr m \<Rightarrow> (case parse_lines depth lines of (ms, e) \<Rightarrow> (m # ms, e)))"

text \<open>\<open>if messages: return messages\<close>, else raise.\<close>

definition messages_or :: "device_message list \<Rightarrow> exc \<Rightarrow> exc + device_message list" where
  "messages_or ms e = (if ms \<noteq> [] then Inr ms else Inl e)"

definition feed_chunk ::
  "nat \<Rightarrow> ndjson_parser \<Rightarrow> bytes \<Rightarrow> ndjson_parser \<times> (exc + device_message list)" where
  "feed_chunk depth p chunk =
     (case np_terminal_error p of
        Some e \<Rightarrow> (p, Inl e)
      | None \<Rightarrow>
          if chunk = [] then (p, Inr [])
          else
            let (lines, rest) = split_lines (np_buffer p @ chunk);
                (ms, err) = parse_lines depth lines
            in
            (case err of
               Some e \<Rightarrow>
                 if is_protocol_error e then
                   (\<lparr>np_buffer = [], np_terminal_error = Some e\<rparr>, messages_or ms e)
                 else (p\<lparr>np_buffer := rest\<rparr>, Inl e)
             | None \<Rightarrow>
                 if length rest > MAX_PENDING_DEVICE_FRAME_BYTES then
                   let e = FrameTooLargeError (length rest) MAX_DEVICE_FRAME_BYTES in
                   (\<lparr>np_buffer = [], np_terminal_error = Some e\<rparr>, messages_or ms e)
                 else (p\<lparr>np_buffer := rest\<rparr>, Inr ms)))"

section \<open>A run of chunks\<close>

fun feed_chunks ::
  "nat \<Rightarrow> ndjson_parser \<Rightarrow> bytes list \<Rightarrow> ndjson_parser \<times> device_message list" where
  "feed_chunks depth p [] = (p, [])"
| "feed_chunks depth p (c # cs) =
     (case feed_chunk depth p c of
        (p', r) \<Rightarrow>
          (case feed_chunks depth p' cs of
             (p'', ms) \<Rightarrow> (p'', (case r of Inl _ \<Rightarrow> [] | Inr ms' \<Rightarrow> ms') @ ms)))"

text \<open>The specification: the frames of a whole stream.\<close>

definition frames :: "bytes \<Rightarrow> bytes list" where
  "frames s = fst (split_lines s)"

definition rest_of :: "bytes \<Rightarrow> bytes" where
  "rest_of s = snd (split_lines s)"

definition size_error :: "exc \<Rightarrow> bool" where
  "size_error e \<longleftrightarrow> (\<exists>n. e = FrameTooLargeError n MAX_DEVICE_FRAME_BYTES \<and> n \<ge> MAX_DEVICE_FRAME_BYTES)"

definition stream_result :: "nat \<Rightarrow> bytes \<Rightarrow> ndjson_parser \<Rightarrow> device_message list \<Rightarrow> bool" where
  "stream_result depth s p ms \<longleftrightarrow>
     ms = fst (parse_lines depth (frames s))
     \<and> (case snd (parse_lines depth (frames s)) of
          Some e \<Rightarrow> np_buffer p = [] \<and>
            (\<exists>e'. np_terminal_error p = Some e' \<and> (e' = e \<or> size_error e \<and> size_error e'))
        | None \<Rightarrow>
            if length (rest_of s) > MAX_PENDING_DEVICE_FRAME_BYTES then
              np_buffer p = [] \<and> (\<exists>e'. np_terminal_error p = Some e' \<and> size_error e')
            else np_buffer p = rest_of s \<and> np_terminal_error p = None)"

text \<open>No frame makes the parser raise something else than a protocol error.\<close>

definition frames_contained :: "nat \<Rightarrow> bytes \<Rightarrow> bool" where
  "frames_contained depth s \<longleftrightarrow>
     (\<forall>line \<in> set (frames s). \<forall>e. parse_frame_line depth line = Inl e \<longrightarrow> is_protocol_error e)"

lemma parse_lines_append:
  "parse_lines depth (xs @ ys) =
     (case parse_lines depth xs of
        (ms, Some e) \<Rightarrow> (ms, Some e)
      | (ms, None) \<Rightarrow> (case parse_lines depth ys of (ms', e) \<Rightarrow> (ms @ ms', e)))"
  by (induction xs) (auto split: sum.splits prod.splits option.splits)

lemma parse_lines_error:
  "snd (parse_lines depth xs) = Some e \<Longrightarrow> \<exists>x \<in> set xs. parse_frame_line depth x = Inl e"
  by (induction xs) (auto split: sum.splits prod.splits)

lemma frames_append:
  "frames (s @ t) = frames s @ frames (rest_of s @ t)" "rest_of (s @ t) = rest_of (rest_of s @ t)"
proof -
  obtain ls r where s: "cut_lines [] s = (ls, r)" by fastforce
  have r: "nl \<notin> set r" using cut_lines_rest [OF s] by simp
  then have "cut_lines [] (r @ t) = cut_lines r t" by (simp add: cut_lines_append cut_lines_no_nl)
  then show "frames (s @ t) = frames s @ frames (rest_of s @ t)"
    "rest_of (s @ t) = rest_of (rest_of s @ t)"
    by (simp_all add: frames_def rest_of_def split_lines_def cut_lines_append s split: prod.splits)
qed

text \<open>A rest that is already too long makes the frame it will become too long.\<close>

lemma long_rest_frame:
  assumes "frames (r @ t) = l # ls" and "nl \<notin> set r"
  shows "length r \<le> length l"
proof -
  obtain ls' r' where c: "cut_lines [] (r @ t) = (ls', r')" by fastforce
  with assms(1) obtain l0 where l0: "hd ls' = l0" "l = butlast l0" "ls' \<noteq> []"
    by (auto simp: frames_def split_lines_def)
  have "cut_lines r t = (ls', r')" using c assms(2) by (simp add: cut_lines_append cut_lines_no_nl)
  moreover have "length r < length (hd ls')" if "cut_lines r t = (ls', r')" "ls' \<noteq> []" for r t ls' r'
    using that
  proof (induction r t arbitrary: ls' r' rule: cut_lines.induct)
    case (2 p c cs)
    then show ?case by (fastforce split: if_splits prod.splits)
  qed simp
  ultimately show ?thesis using l0 by (cases l0 rule: rev_cases) fastforce+
qed

lemma rest_no_nl: "nl \<notin> set (rest_of s)"
  using cut_lines_rest [of "[]" s] by (auto simp: rest_of_def split_lines_def split: prod.splits)

lemma frames_rest: "frames (rest_of s) = []"
  using rest_no_nl [of s] by (simp add: frames_def split_lines_def cut_lines_no_nl)

lemma size_error_protocol: "size_error e \<Longrightarrow> is_protocol_error e"
  by (auto simp: size_error_def)

text \<open>One chunk extends the stream it refines.\<close>

lemma feed_chunk_refines:
  assumes rel: "stream_result depth s p ms" and ok: "frames_contained depth (s @ c)"
  shows "\<exists>p' r. feed_chunk depth p c = (p', r)
     \<and> stream_result depth (s @ c) p' (ms @ (case r of Inl _ \<Rightarrow> [] | Inr ms' \<Rightarrow> ms'))"
proof -
  obtain ms0 err where s: "parse_lines depth (frames s) = (ms0, err)" by fastforce
  obtain ms1 err1 where t: "parse_lines depth (frames (rest_of s @ c)) = (ms1, err1)" by fastforce
  have app: "parse_lines depth (frames (s @ c)) = (case err of Some e \<Rightarrow> (ms0, Some e) | None \<Rightarrow> (ms0 @ ms1, err1))"
    unfolding frames_append(1) [of s c] parse_lines_append s t by (auto split: option.splits)
  have ms: "ms = ms0" using rel s by (simp add: stream_result_def)
  show ?thesis
  proof (cases err)
    case (Some e)
    with rel s obtain e' where "np_buffer p = []" "np_terminal_error p = Some e'"
      "e' = e \<or> size_error e \<and> size_error e'"
      by (auto simp: stream_result_def)
    with app Some ms show ?thesis by (auto simp: feed_chunk_def stream_result_def)
  next
    case None
    show ?thesis
    proof (cases "length (rest_of s) > MAX_PENDING_DEVICE_FRAME_BYTES")
      case True
      with rel s None obtain e' where p: "np_buffer p = []" "np_terminal_error p = Some e'" "size_error e'"
        by (auto simp: stream_result_def)
      have "ms1 = [] \<and> (case err1 of Some e \<Rightarrow> size_error e
          | None \<Rightarrow> length (rest_of (rest_of s @ c)) > MAX_PENDING_DEVICE_FRAME_BYTES)"
      proof (cases "frames (rest_of s @ c)")
        case Nil
        then have "rest_of (rest_of s @ c) = rest_of s @ c"
          using cut_lines_concat [of "[]" "rest_of s @ c"]
          by (fastforce simp: frames_def rest_of_def split_lines_def split: prod.splits)
        with True Nil t show ?thesis by auto
      next
        case (Cons l ls)
        from long_rest_frame [OF Cons rest_no_nl] True
        have "length l + 1 > MAX_DEVICE_FRAME_BYTES" by (simp add: MAX_PENDING_DEVICE_FRAME_BYTES_def)
        with t Cons show ?thesis by (auto simp: parse_frame_line_def size_error_def)
      qed
      with p app None ms show ?thesis
        by (auto simp: feed_chunk_def stream_result_def frames_append(2) [of s c] split: option.splits)
    next
      case False
      with rel s None have p: "np_buffer p = rest_of s" "np_terminal_error p = None"
        by (auto simp: stream_result_def)
      have split: "split_lines (rest_of s @ c) = (frames (rest_of s @ c), rest_of (s @ c))"
        by (simp add: frames_append(2) [of s c]) (simp add: frames_def rest_of_def)
      show ?thesis
      proof (cases "c = []")
        case True
        with rel p show ?thesis by (simp add: feed_chunk_def)
      next
        case ne: False
        show ?thesis
        proof (cases err1)
          case (Some e)
          with parse_lines_error [of depth "frames (s @ c)"] app None ok
          have "is_protocol_error e" by (auto simp: frames_contained_def)
          with p ne split t Some app None ms show ?thesis
            by (auto simp: feed_chunk_def stream_result_def messages_or_def)
        next
          case err1: None
          with p ne split t app None ms show ?thesis
            by (auto simp: feed_chunk_def stream_result_def messages_or_def size_error_def
                MAX_PENDING_DEVICE_FRAME_BYTES_def Let_def)
        qed
      qed
    qed
  qed
qed

lemma frames_contained_prefix: "frames_contained depth (s @ t) \<Longrightarrow> frames_contained depth s"
  unfolding frames_contained_def frames_append(1) [of s t] by auto

lemma feed_chunks_refine:
  assumes "stream_result depth s p ms" and "frames_contained depth (s @ concat cs)"
  shows "case feed_chunks depth p cs of (p', ms') \<Rightarrow> stream_result depth (s @ concat cs) p' (ms @ ms')"
  using assms
proof (induction cs arbitrary: s p ms)
  case (Cons c cs)
  have "frames_contained depth (s @ c)"
    using Cons.prems(2) frames_contained_prefix [of depth "s @ c" "concat cs"] by simp
  from feed_chunk_refines [OF Cons.prems(1) this] obtain p1 r where
    feed: "feed_chunk depth p c = (p1, r)"
    and rel: "stream_result depth (s @ c) p1 (ms @ (case r of Inl _ \<Rightarrow> [] | Inr ms' \<Rightarrow> ms'))" by blast
  have "frames_contained depth ((s @ c) @ concat cs)" using Cons.prems(2) by simp
  from Cons.IH [OF rel this] feed show ?case by (auto split: prod.splits)
qed simp

lemma stream_result_new: "stream_result depth [] new_ndjson_parser []"
  by (simp add: stream_result_def new_ndjson_parser_def frames_def rest_of_def split_lines_def
      MAX_PENDING_DEVICE_FRAME_BYTES_def)


text \<open>A frame that acknowledges a command, as the device writes it.\<close>

definition ok_frame :: bytes where "ok_frame = ''{\"ok\":true}''"

lemma frame_body_braces:
  "cr \<notin> set x \<Longrightarrow> frame_body (CHR ''{'' # x @ [CHR ''}'']) = Inr (CHR ''{'' # x @ [CHR ''}''])"
  by (simp add: frame_body_def suffix_def)

lemma ok_frame_parses:
  assumes "1 \<le> depth"
  shows "parse_frame_line depth ok_frame
    = Inr (CommandSuccess \<lparr>cs_timestamp_us = None, cs_bytes_accepted = None\<rparr>)"
proof -
  let ?m = "[(lit ''ok'', PBool True)]"
  have dump: "dump_value (PDict ?m) = lit ok_frame"
    by (simp add: ok_frame_def dump_string_def lit_def escape_char_def)
  have "utf8_encode (lit ok_frame) = Some ok_frame"
    by (intro utf8_encode_lit) (simp add: ok_frame_def)
  then have "frame_of ?m ok_frame" by (simp add: frame_of_def json_dumps_def dict_keys_def flip: dump)
  from parse_frame [OF this, of depth] assms
  have "parse_device_message depth ok_frame = parse_payload ?m" by simp
  also have "\<dots> = Inr (CommandSuccess \<lparr>cs_timestamp_us = None, cs_bytes_accepted = None\<rparr>)"
    by (simp add: parse_payload_def parse_command_response_def item_def parse_command_success_def
        optional_non_negative_int_def dict_keys_def no_extra_keys_def command_success_keys_def)
  finally show ?thesis
    using frame_body_braces [of "''\"ok\":true''"]
    by (simp add: parse_frame_line_def ok_frame_def MAX_DEVICE_FRAME_BYTES_def)
qed


text \<open>A frame within the size limit whose integer exceeds Python's conversion limit.\<close>

definition long_integer_frame :: bytes where
  "long_integer_frame = CHR ''{'' # (''\"ok\":'' @ replicate 4301 (CHR ''1'')) @ [CHR ''}'']"

lemma scan_literal_long:
  assumes "length (c # cs) > MAX_STR_DIGITS" and "\<forall>x \<in> set (c # cs). is_digit x" and "c \<noteq> 48"
  shows "\<exists>msg. scan_literal (c # cs @ [125]) = Inl (ValueError msg)"
proof -
  have "takeWhile is_digit (cs @ [125]) = cs"
    using assms(2) by (subst takeWhile_append2) (auto simp: is_digit_def)
  moreover have "is_digit c" using assms(2) by simp
  ultimately show ?thesis
    using assms(1,3) digits_no_literal [of c]
    by (auto simp: scan_literal_def scan_number_def scan_fraction_def scan_exponent_def Let_def)
qed

lemma long_integer_escapes:
  assumes "1 \<le> depth"
  shows "\<exists>msg. parse_frame_line depth long_integer_frame = Inl (ValueError msg)"
proof -
  obtain cs :: ustr where cs: "replicate 4301 49 = 49 # cs" by (simp add: numeral_eq_Suc)
  have "length (49 # cs) > MAX_STR_DIGITS" "\<forall>x \<in> set (49 # cs). is_digit x"
    unfolding cs [symmetric] by (simp_all add: MAX_STR_DIGITS_def is_digit_def)
  then obtain msg where lit: "scan_literal (49 # cs @ [125]) = Inl (ValueError msg)"
    using scan_literal_long [of 49 cs] by auto
  let ?t = "lit long_integer_frame"
  have enc: "utf8_encode ?t = Some long_integer_frame"
    by (intro utf8_encode_lit) (auto simp: long_integer_frame_def)
  have "?t = 123 # 34 # 111 # 107 # 34 # 58 # replicate 4301 49 @ [125]"
    by (simp add: long_integer_frame_def lit_def)
  then have t: "?t = 123 # 34 # 111 # 107 # 34 # 58 # 49 # cs @ [125]" unfolding cs by simp
  have key: "scan_string (111 # 107 # 34 # r) = Some (lit ''ok'', r)" for r
    using scan_string_dump [of "lit ''ok''" r] by (simp add: lit_def escape_char_def)
  have val: "scan_value (Suc n) d (49 # cs @ [125]) = Inl (ValueError msg)" for n d
    using lit by simp
  obtain n where n: "2 * length ?t + 1 = Suc (Suc (Suc n))" unfolding t by simp
  have "json_loads depth ?t = Inl (ValueError msg)"
    unfolding json_loads_def n unfolding t
    using assms key val by (simp add: is_ws_def)
  then have "parse_device_message depth long_integer_frame = Inl (ValueError msg)"
    by (simp add: parse_device_message_def load_json_object_def utf8_decode_encode [OF enc])
  moreover have "frame_body long_integer_frame = Inr long_integer_frame"
    unfolding long_integer_frame_def by (rule frame_body_braces) auto
  moreover have "length long_integer_frame + 1 \<le> MAX_DEVICE_FRAME_BYTES"
    by (simp add: long_integer_frame_def MAX_DEVICE_FRAME_BYTES_def)
  ultimately show ?thesis by (simp add: parse_frame_line_def)
qed

text \<open>
  C18: A frame can escape the protocol errors. A single bounded frame, one JSON object whose
  integer has 4301 digits, makes \<open>feed\<close> raise a plain \<open>ValueError\<close>: the parser is not stopped, and
  the messages of the same chunk before and after that frame are lost without a trace.
\<close>

theorem ndjson_long_integer_escapes:
  "\<exists>msg. feed_chunk (Suc depth) new_ndjson_parser
       (ok_frame @ [nl] @ long_integer_frame @ [nl] @ ok_frame @ [nl])
     = (new_ndjson_parser, Inl (ValueError msg)) \<and> \<not> is_protocol_error (ValueError msg)"
proof -
  let ?c = "ok_frame @ [nl] @ long_integer_frame @ [nl] @ ok_frame @ [nl]"
  have nl: "nl \<notin> set ok_frame" "nl \<notin> set long_integer_frame"
    by (auto simp: ok_frame_def long_integer_frame_def)
  from cut_lines_line [OF nl(1), of "[]" "long_integer_frame @ nl # ok_frame @ [nl]"]
    cut_lines_line [OF nl(2), of "[]" "ok_frame @ [nl]"] cut_lines_line [OF nl(1), of "[]" "[]"]
  have "split_lines ?c = ([ok_frame, long_integer_frame, ok_frame], [])"
    by (simp add: split_lines_def butlast_append)
  with long_integer_escapes [of "Suc depth"] ok_frame_parses [of "Suc depth"]
  show ?thesis by (auto simp: feed_chunk_def new_ndjson_parser_def)
qed

end
