(* ===== verification/Gpio_Modes.thy ===== *)
theory Gpio_Modes
  imports Validation
begin

text \<open>
  GPIO role configuration, \<open>gpio_config/modes.py\<close> and \<open>gpio_config/configurator.py\<close>. The registry
  records, for each of the four control channels, what the firmware accepted and what was last
  rejected; the configurator asks the device first and records its answer.

  \<open>registry\<close> is the dictionary of \<open>GpioModeRegistry\<close>, total on the channels and iterated in the
  order of \<open>ALL_CONTROL_CHANNELS\<close>. \<open>now\<close> stands for the formatted reading of the registry's clock and
  \<open>control\<close> for the device the configurator is given. The abstract view \<open>assigned\<close> is the accepted
  configuration of each channel; the lemmas give each operation's effect on it, the invariant of
  the reachable registries, and the configurator's safety.
\<close>

section \<open>State\<close>

datatype gpio_state = Unconfigured | Configured | Rejected

record gpio_rejection =
  gr_role :: ustr
  gr_channel :: gpio_channel
  gr_dut_signal :: ustr
  gr_mode :: gpio_mode
  gr_active_level :: gpio_level
  gr_source :: gpio_source
  gr_error :: ustr
  gr_detail :: ustr
  gr_rejected_at :: ustr
  gr_idle_level :: "gpio_level option"
  gr_device_timestamp_us :: "nat option"

record channel_state =
  gc_channel :: gpio_channel
  gc_state :: gpio_state
  gc_role :: "ustr option"
  gc_dut_signal :: "ustr option"
  gc_mode :: "gpio_mode option"
  gc_active_level :: "gpio_level option"
  gc_idle_level :: "gpio_level option"
  gc_source :: "gpio_source option"
  gc_configured_at :: "ustr option"
  gc_device_timestamp_us :: "nat option"
  gc_last_rejected :: "gpio_rejection option"

definition blank_channel :: "gpio_channel \<Rightarrow> gpio_state \<Rightarrow> channel_state" where
  "blank_channel channel state =
     \<lparr>gc_channel = channel, gc_state = state, gc_role = None, gc_dut_signal = None, gc_mode = None,
      gc_active_level = None, gc_idle_level = None, gc_source = None, gc_configured_at = None,
      gc_device_timestamp_us = None, gc_last_rejected = None\<rparr>"

type_synonym registry = "gpio_channel \<Rightarrow> channel_state"

definition new_registry :: registry where
  "new_registry channel = blank_channel channel Unconfigured"

section \<open>Operations\<close>

definition registry_get :: "registry \<Rightarrow> pyval \<Rightarrow> exc + channel_state" where
  "registry_get r channel = bind_r (validate_gpio_channel channel) (\<lambda>c. Inr (r c))"

definition invalidate :: "registry \<Rightarrow> registry" where
  "invalidate r = (\<lambda>channel. blank_channel channel Unconfigured)"

definition find_by_role :: "registry \<Rightarrow> pyval \<Rightarrow> exc + channel_state option" where
  "find_by_role r role =
     bind_r (validate_gpio_role role) (\<lambda>name.
       Inr (find (\<lambda>s. gc_role s = Some name \<and> gc_state s = Configured) (map r ALL_CONTROL_CHANNELS)))"

definition clear_role_from_other_channels :: "registry \<Rightarrow> ustr \<Rightarrow> gpio_channel \<Rightarrow> registry" where
  "clear_role_from_other_channels r role channel =
     (\<lambda>c. if c = channel \<or> gc_role (r c) \<noteq> Some role then r c else blank_channel c Unconfigured)"

definition accept_mode ::
  "ustr \<Rightarrow> registry \<Rightarrow> pyval \<Rightarrow> pyval \<Rightarrow> pyval \<Rightarrow> pyval \<Rightarrow> pyval \<Rightarrow> pyval \<Rightarrow> pyval \<Rightarrow> nat option
     \<Rightarrow> exc + (registry \<times> channel_state)" where
  "accept_mode now r channel role dut_signal mode active_level idle_level source timestamp =
     bind_r (validate_gpio_configuration channel role dut_signal mode active_level idle_level) (\<lambda>q.
     bind_r (validate_gpio_source source) (\<lambda>src.
       let r' = clear_role_from_other_channels r (cfg_role q) (cfg_channel q);
           state = \<lparr>gc_channel = cfg_channel q, gc_state = Configured, gc_role = Some (cfg_role q),
             gc_dut_signal = Some (cfg_dut_signal q), gc_mode = Some (cfg_mode q),
             gc_active_level = Some (cfg_active_level q), gc_idle_level = cfg_idle_level q,
             gc_source = Some src, gc_configured_at = Some now,
             gc_device_timestamp_us = timestamp, gc_last_rejected = None\<rparr>
       in Inr (r'(cfg_channel q := state), state)))"

definition rejection_of ::
  "ustr \<Rightarrow> gpio_configuration \<Rightarrow> gpio_source \<Rightarrow> ustr \<Rightarrow> ustr \<Rightarrow> nat option \<Rightarrow> gpio_rejection" where
  "rejection_of now q src error detail timestamp =
     \<lparr>gr_role = cfg_role q, gr_channel = cfg_channel q, gr_dut_signal = cfg_dut_signal q,
      gr_mode = cfg_mode q, gr_active_level = cfg_active_level q, gr_source = src,
      gr_error = error, gr_detail = detail, gr_rejected_at = now,
      gr_idle_level = cfg_idle_level q, gr_device_timestamp_us = timestamp\<rparr>"

definition reject_mode ::
  "ustr \<Rightarrow> registry \<Rightarrow> pyval \<Rightarrow> pyval \<Rightarrow> pyval \<Rightarrow> pyval \<Rightarrow> pyval \<Rightarrow> pyval \<Rightarrow> pyval \<Rightarrow> ustr \<Rightarrow> ustr
     \<Rightarrow> nat option \<Rightarrow> exc + (registry \<times> channel_state)" where
  "reject_mode now r channel role dut_signal mode active_level idle_level source error detail timestamp =
     bind_r (validate_gpio_configuration channel role dut_signal mode active_level idle_level) (\<lambda>q.
     bind_r (validate_gpio_source source) (\<lambda>src.
       if error = [] then Inl (ValueError ''GPIO mode rejection error must not be empty'')
       else if detail = [] then Inl (ValueError ''GPIO mode rejection detail must not be empty'')
       else
         let current = r (cfg_channel q);
             rejection = rejection_of now q src error detail timestamp;
             state =
               (if gc_state current = Configured then current\<lparr>gc_last_rejected := Some rejection\<rparr>
                else (blank_channel (cfg_channel q) Rejected)
                  \<lparr>gc_role := Some (cfg_role q), gc_last_rejected := Some rejection\<rparr>)
         in Inr (r(cfg_channel q := state), state)))"

text \<open>The last rejection of the role in the order of the channels.\<close>

definition latest_rejection_for_role :: "registry \<Rightarrow> ustr \<Rightarrow> gpio_rejection option" where
  "latest_rejection_for_role r role =
     fold (\<lambda>c latest. case gc_last_rejected (r c) of
             None \<Rightarrow> latest
           | Some j \<Rightarrow> if gr_role j \<noteq> role then latest else Some j) ALL_CONTROL_CHANNELS None"

definition require_role_configured ::
  "registry \<Rightarrow> pyval \<Rightarrow> ustr option \<Rightarrow> exc + channel_state" where
  "require_role_configured r role operation =
     bind_r (validate_gpio_role role) (\<lambda>name.
     bind_r (find_by_role r (PStr name)) (\<lambda>found.
       case found of
         Some s \<Rightarrow> Inr s
       | None \<Rightarrow>
           (case latest_rejection_for_role r name of
              Some j \<Rightarrow>
                Inl (GpioConfigurationError (gr_detail j) operation (Some name) (Some (lit ''rejected'')))
            | None \<Rightarrow>
                Inl (GpioConfigurationError (lit ''GPIO role '' @ name @ lit '' is not configured'')
                       operation (Some name) (Some (lit ''unconfigured''))))))"

section \<open>The configurator\<close>

type_synonym device_control =
  "gpio_channel \<Rightarrow> gpio_mode \<Rightarrow> gpio_level \<Rightarrow> gpio_level option \<Rightarrow> exc + nat option"

definition configure_mode ::
  "device_control \<Rightarrow> ustr \<Rightarrow> registry \<Rightarrow> pyval \<Rightarrow> pyval \<Rightarrow> pyval \<Rightarrow> pyval \<Rightarrow> pyval \<Rightarrow> pyval \<Rightarrow> pyval
     \<Rightarrow> exc + (registry \<times> channel_state)" where
  "configure_mode control now r channel role dut_signal mode active_level idle_level source =
     bind_r (catch_r is_value_error (\<lambda>_. InputValidationError ''invalid GPIO configuration'')
       (validate_gpio_configuration channel role dut_signal mode active_level idle_level)) (\<lambda>q.
       let c = PStr (lit (channel_name (cfg_channel q)));
           m = PStr (lit (mode_name (cfg_mode q)));
           a = PStr (lit (level_name (cfg_active_level q)))
       in
       (case control (cfg_channel q) (cfg_mode q) (cfg_active_level q) (cfg_idle_level q) of
          Inr timestamp \<Rightarrow>
            accept_mode now r c (PStr (cfg_role q)) (PStr (cfg_dut_signal q)) m a
              (level_val (cfg_idle_level q)) source timestamp
        | Inl (DeviceControlError error detail) \<Rightarrow>
            if error = lit ''unexpected_response'' then Inl (GpioConfigurationError detail None None None)
            else
              reject_mode now r c (PStr (cfg_role q)) (PStr (cfg_dut_signal q)) m a
                (level_val (cfg_idle_level q)) source error detail None
        | Inl e \<Rightarrow> Inl e))"

section \<open>The abstract view\<close>

text \<open>The accepted configuration of a channel.\<close>

definition assigned :: "registry \<Rightarrow> gpio_channel \<Rightarrow> gpio_configuration option" where
  "assigned r c =
     (case (gc_state (r c), gc_role (r c), gc_dut_signal (r c), gc_mode (r c), gc_active_level (r c)) of
        (Configured, Some role, Some sig, Some m, Some a) \<Rightarrow>
          Some \<lparr>cfg_channel = gc_channel (r c), cfg_role = role, cfg_dut_signal = sig, cfg_mode = m,
                cfg_active_level = a, cfg_idle_level = gc_idle_level (r c)\<rparr>
      | _ \<Rightarrow> None)"

definition configuration_ok :: "gpio_configuration \<Rightarrow> bool" where
  "configuration_ok q \<longleftrightarrow>
     identifier_ok (cfg_role q) \<and> identifier_ok (cfg_dut_signal q)
     \<and> mode_matrix (cfg_mode q) (cfg_active_level q) (cfg_idle_level q)"

text \<open>A registry is well formed: each entry is in one of three shapes, and no role is configured twice.\<close>

definition channel_ok :: "gpio_channel \<Rightarrow> channel_state \<Rightarrow> bool" where
  "channel_ok c s \<longleftrightarrow>
     gc_channel s = c
     \<and> (case gc_state s of
          Unconfigured \<Rightarrow> s = blank_channel c Unconfigured
        | Configured \<Rightarrow>
            (\<exists>role sig m a. gc_role s = Some role \<and> gc_dut_signal s = Some sig \<and> gc_mode s = Some m
               \<and> gc_active_level s = Some a \<and> gc_source s \<noteq> None \<and> gc_configured_at s \<noteq> None
               \<and> configuration_ok \<lparr>cfg_channel = c, cfg_role = role, cfg_dut_signal = sig, cfg_mode = m,
                   cfg_active_level = a, cfg_idle_level = gc_idle_level s\<rparr>)
        | Rejected \<Rightarrow>
            (\<exists>j. gc_last_rejected s = Some j \<and> s = (blank_channel c Rejected)
               \<lparr>gc_role := Some (gr_role j), gc_last_rejected := Some j\<rparr>))
     \<and> (\<forall>j. gc_last_rejected s = Some j \<longrightarrow> gr_channel j = c \<and> gr_error j \<noteq> [] \<and> gr_detail j \<noteq> [])"

definition registry_ok :: "registry \<Rightarrow> bool" where
  "registry_ok r \<longleftrightarrow>
     (\<forall>c. channel_ok c (r c))
     \<and> (\<forall>c c' q q'. assigned r c = Some q \<longrightarrow> assigned r c' = Some q' \<longrightarrow> cfg_role q = cfg_role q' \<longrightarrow> c = c')"

text \<open>The steps that change a registry, and the registries they reach.\<close>

inductive registry_step :: "registry \<Rightarrow> registry \<Rightarrow> bool" where
  step_accept: "accept_mode now r ch role sig m a i src ts = Inr (r', s) \<Longrightarrow> registry_step r r'"
| step_reject: "reject_mode now r ch role sig m a i src err det ts = Inr (r', s) \<Longrightarrow> registry_step r r'"
| step_invalidate: "registry_step r (invalidate r)"

inductive registry_reachable :: "registry \<Rightarrow> bool" where
  reach_new: "registry_reachable new_registry"
| reach_step: "registry_reachable r \<Longrightarrow> registry_step r r' \<Longrightarrow> registry_reachable r'"

inductive_cases registry_stepE: "registry_step r r'"

lemma validate_gpio_source_Inr:
  "validate_gpio_source v = Inr s \<longleftrightarrow>
     v = PStr (lit (case s of FromConfig \<Rightarrow> ''config'' | FromRuntime \<Rightarrow> ''runtime''))"
  by (cases s) (auto simp: validate_gpio_source_def)

lemma configuration_Inr_ok:
  "validate_gpio_configuration ch role sig m a i = Inr q \<Longrightarrow> configuration_ok q"
  by (auto simp: validate_gpio_configuration_Inr configuration_ok_def)

lemma not_configured: "gc_state (r c) \<noteq> Configured \<Longrightarrow> assigned r c = None"
  by (cases "gc_state (r c)") (simp_all add: assigned_def)

text \<open>Each operation on the abstract view.\<close>

lemma accept_mode_cases:
  assumes "accept_mode now r ch role sig m a i src ts = Inr (r', s)"
  obtains q where "validate_gpio_configuration ch role sig m a i = Inr q"
    and "channel_ok (cfg_channel q) s" and "gc_state s = Configured" and "r' (cfg_channel q) = s"
    and "assigned r' (cfg_channel q) = Some q" and "gc_role s = Some (cfg_role q)"
    and "\<And>c. c \<noteq> cfg_channel q \<Longrightarrow>
      r' c = (if gc_role (r c) = Some (cfg_role q) then blank_channel c Unconfigured else r c)"
proof -
  from assms obtain q sr where q: "validate_gpio_configuration ch role sig m a i = Inr q"
    and s: "s = \<lparr>gc_channel = cfg_channel q, gc_state = Configured, gc_role = Some (cfg_role q),
             gc_dut_signal = Some (cfg_dut_signal q), gc_mode = Some (cfg_mode q),
             gc_active_level = Some (cfg_active_level q), gc_idle_level = cfg_idle_level q,
             gc_source = Some sr, gc_configured_at = Some now,
             gc_device_timestamp_us = ts, gc_last_rejected = None\<rparr>"
    and r': "r' = (clear_role_from_other_channels r (cfg_role q) (cfg_channel q))(cfg_channel q := s)"
    by (auto simp: accept_mode_def result_simps Let_def)
  from configuration_Inr_ok [OF q] s have "channel_ok (cfg_channel q) s"
    by (simp add: channel_ok_def configuration_ok_def)
  then show thesis
    using that [OF q] s r' by (auto simp: assigned_def clear_role_from_other_channels_def)
qed

lemma reject_mode_cases:
  assumes "reject_mode now r ch role sig m a i src err det ts = Inr (r', s)" and "registry_ok r"
  obtains q j where "validate_gpio_configuration ch role sig m a i = Inr q"
    and "channel_ok (cfg_channel q) s" and "r' = r(cfg_channel q := s)"
    and "gc_last_rejected s = Some j" and "gr_role j = cfg_role q" and "gr_error j = err" and "gr_detail j = det"
    and "assigned r' = assigned r"
proof -
  from assms(1) obtain q sr where q: "validate_gpio_configuration ch role sig m a i = Inr q"
    and ne: "err \<noteq> []" "det \<noteq> []"
    and s: "s = (if gc_state (r (cfg_channel q)) = Configured
        then r (cfg_channel q)\<lparr>gc_last_rejected := Some (rejection_of now q sr err det ts)\<rparr>
        else (blank_channel (cfg_channel q) Rejected)
          \<lparr>gc_role := Some (cfg_role q), gc_last_rejected := Some (rejection_of now q sr err det ts)\<rparr>)"
    and r': "r' = r(cfg_channel q := s)"
    by (auto simp: reject_mode_def result_simps Let_def split: if_splits)
  define j where "j = rejection_of now q sr err det ts"
  have j: "gr_role j = cfg_role q" "gr_channel j = cfg_channel q" "gr_error j = err" "gr_detail j = det"
    by (simp_all add: j_def rejection_of_def)
  note s = s [folded j_def]
  from assms(2) have ok: "channel_ok (cfg_channel q) (r (cfg_channel q))" by (simp add: registry_ok_def)
  have "channel_ok (cfg_channel q) s"
    using ok ne j s by (auto simp: channel_ok_def blank_channel_def split: if_splits)
  moreover have "assigned r' = assigned r"
  proof
    fix c show "assigned r' c = assigned r c"
    proof (cases "c = cfg_channel q \<and> gc_state (r c) \<noteq> Configured")
      case True
      then have "gc_state (r' c) \<noteq> Configured" using s r' by (auto simp: blank_channel_def)
      with True show ?thesis by (metis not_configured)
    next
      case False
      then have "r' c = r c \<or> r' c = r c\<lparr>gc_last_rejected := Some j\<rparr>" using s r' by auto
      then show ?thesis by (auto simp: assigned_def cong: option.case_cong gpio_state.case_cong)
    qed
  qed
  moreover have "gc_last_rejected s = Some j" using s by auto
  ultimately show thesis using that [OF q] r' j by blast
qed

lemma assigned_Some:
  assumes "registry_ok r" and "assigned r c = Some q"
  shows "gc_state (r c) = Configured" "gc_role (r c) = Some (cfg_role q)" "cfg_channel q = c"
    "configuration_ok q"
proof -
  from assms(1) have "channel_ok c (r c)" by (simp add: registry_ok_def)
  with assms(2) show "gc_state (r c) = Configured" "gc_role (r c) = Some (cfg_role q)" "cfg_channel q = c"
    "configuration_ok q"
    by (auto simp: assigned_def channel_ok_def split: option.splits gpio_state.splits)
qed

lemma assigned_configured:
  assumes "registry_ok r" and "gc_state (r c) = Configured"
  shows "\<exists>q. assigned r c = Some q"
proof -
  from assms(1) have "channel_ok c (r c)" by (simp add: registry_ok_def)
  with assms(2) show ?thesis by (auto simp: assigned_def channel_ok_def)
qed

lemma channel_ok_blank [simp]: "channel_ok c (blank_channel c Unconfigured)"
  by (simp add: channel_ok_def blank_channel_def)

lemma assigned_cong: "r c = r' c \<Longrightarrow> assigned r c = assigned r' c"
  by (simp only: assigned_def)

lemma assigned_blank: "r c = blank_channel c st \<Longrightarrow> assigned r c = None"
  by (simp add: assigned_def blank_channel_def split: gpio_state.splits)

text \<open>What accepting does to the abstract view: the role moves to the channel.\<close>

definition assign ::
  "gpio_configuration \<Rightarrow> (gpio_channel \<Rightarrow> gpio_configuration option) \<Rightarrow> gpio_channel \<Rightarrow> gpio_configuration option" where
  "assign q A c =
     (if c = cfg_channel q then Some q
      else case A c of None \<Rightarrow> None | Some q' \<Rightarrow> if cfg_role q' = cfg_role q then None else Some q')"

lemma accept_mode_assigned:
  assumes ok: "registry_ok r" and acc: "accept_mode now r ch role sig m a i src ts = Inr (r', s)"
  shows "\<exists>q. validate_gpio_configuration ch role sig m a i = Inr q \<and> assigned r' = assign q (assigned r)
     \<and> r' (cfg_channel q) = s \<and> registry_ok r'"
proof -
  obtain q where
    q: "validate_gpio_configuration ch role sig m a i = Inr q"
    and s: "channel_ok (cfg_channel q) s" "gc_state s = Configured" "r' (cfg_channel q) = s"
    and at: "assigned r' (cfg_channel q) = Some q" and "gc_role s = Some (cfg_role q)"
    and other: "\<And>c. c \<noteq> cfg_channel q \<Longrightarrow>
      r' c = (if gc_role (r c) = Some (cfg_role q) then blank_channel c Unconfigured else r c)"
    by (rule accept_mode_cases [OF acc], rule that, assumption+)
  have eq: "assigned r' c = assign q (assigned r) c" for c
  proof (cases "c = cfg_channel q")
    case True
    with at show ?thesis by (simp add: assign_def)
  next
    case False
    show ?thesis
    proof (cases "gc_role (r c) = Some (cfg_role q)")
      case True
      with other [OF False] False assigned_Some(2) [OF ok, of c] show ?thesis
        by (auto simp: assign_def assigned_blank split: option.splits)
    next
      case role: False
      with other [OF False] have "assigned r' c = assigned r c" by (intro assigned_cong) simp
      with role False assigned_Some(2) [OF ok, of c] show ?thesis
        by (auto simp: assign_def split: option.splits)
    qed
  qed
  have ch: "channel_ok c (r' c)" for c
    using s other ok by (cases "c = cfg_channel q") (auto simp: registry_ok_def)
  have "c = c'" if "assign q (assigned r) c = Some q1" "assign q (assigned r) c' = Some q2"
    "cfg_role q1 = cfg_role q2" for c c' q1 q2
    using that ok by (auto simp: assign_def registry_ok_def split: if_splits option.splits)
  with ch eq have "registry_ok r'" by (auto simp: registry_ok_def)
  with q eq s show ?thesis by blast
qed

lemma reject_mode_assigned:
  assumes ok: "registry_ok r" and rej: "reject_mode now r ch role sig m a i src err det ts = Inr (r', s)"
  shows "assigned r' = assigned r \<and> registry_ok r'
     \<and> (\<exists>j. gc_last_rejected s = Some j \<and> gr_error j = err \<and> gr_detail j = det)"
proof -
  obtain q j where "validate_gpio_configuration ch role sig m a i = Inr q"
    "channel_ok (cfg_channel q) s" "r' = r(cfg_channel q := s)" "gc_last_rejected s = Some j"
    "gr_role j = cfg_role q" "gr_error j = err" "gr_detail j = det" and eq: "assigned r' = assigned r"
    by (rule reject_mode_cases [OF rej ok], rule that, assumption+)
  with ok show ?thesis by (auto simp: registry_ok_def)
qed

lemma registry_ok_invalidate: "registry_ok (invalidate r)"
  by (simp add: registry_ok_def invalidate_def assigned_blank)

lemma registry_ok_new: "registry_ok new_registry"
  by (simp add: registry_ok_def new_registry_def assigned_blank)

lemma registry_step_ok: "registry_step r r' \<Longrightarrow> registry_ok r \<Longrightarrow> registry_ok r'"
proof (erule registry_stepE)
  fix now ch role sig m a i src ts s
  assume "registry_ok r" and "accept_mode now r ch role sig m a i src ts = Inr (r', s)"
  from accept_mode_assigned [OF this] show "registry_ok r'" by blast
next
  fix now ch role sig m a i src err det ts s
  assume "registry_ok r" and "reject_mode now r ch role sig m a i src err det ts = Inr (r', s)"
  from reject_mode_assigned [OF this] show "registry_ok r'" by blast
qed (simp add: registry_ok_invalidate)

text \<open>
  C22: No sequence of acceptances, rejections and helper resets corrupts the GPIO registry. In
  every reachable registry each channel is unconfigured with no other data, configured with a
  complete electrically valid assignment, or rejected with the rejection's role, and no role is
  configured on two channels.
\<close>

theorem gpio_registry_invariant: "registry_reachable r \<Longrightarrow> registry_ok r"
proof (induction rule: registry_reachable.induct)
  case reach_new
  show ?case by (rule registry_ok_new)
next
  case (reach_step r r')
  then show ?case using registry_step_ok by blast
qed

theorem gpio_registry_invariant_witness:
  "\<exists>r s. accept_mode (lit ''t'') new_registry (PStr (lit ''CTRL1'')) (PStr (lit ''reset'')) (PStr (lit ''NRST''))
       (PStr (lit ''open_drain'')) (PStr (lit ''low'')) PNone (PStr (lit ''config'')) None = Inr (r, s)
     \<and> registry_ok r \<and> gc_state (r CTRL1) = Configured"
proof -
  let ?q = "\<lparr>cfg_channel = CTRL1, cfg_role = lit ''reset'', cfg_dut_signal = lit ''NRST'',
    cfg_mode = OpenDrain, cfg_active_level = Low, cfg_idle_level = None\<rparr>"
  have "identifier_ok (lit s)" if "s = ''reset'' \<or> s = ''NRST''" for s
  proof -
    from that have "utf8_encode (lit s) = Some s" by (intro utf8_encode_lit) auto
    with that show ?thesis
      by (auto simp: identifier_ok_def) (auto simp: lit_def is_unicode_whitespace_def is_cc_def)
  qed
  then have q: "validate_gpio_configuration (PStr (lit ''CTRL1'')) (PStr (lit ''reset'')) (PStr (lit ''NRST''))
      (PStr (lit ''open_drain'')) (PStr (lit ''low'')) PNone = Inr ?q"
    by (simp add: validate_gpio_configuration_Inr)
  obtain r s where acc: "accept_mode (lit ''t'') new_registry (PStr (lit ''CTRL1'')) (PStr (lit ''reset''))
      (PStr (lit ''NRST'')) (PStr (lit ''open_drain'')) (PStr (lit ''low'')) PNone (PStr (lit ''config'')) None
      = Inr (r, s)"
    by (simp add: accept_mode_def q validate_gpio_source_def Let_def)
  then have "registry_reachable r" by (blast intro: reach_new reach_step step_accept)
  then have "registry_ok r" by (rule gpio_registry_invariant)
  moreover have "gc_state (r CTRL1) = Configured"
    using acc by (auto simp: accept_mode_def q validate_gpio_source_def Let_def)
  ultimately show ?thesis using acc by blast
qed

text \<open>
  C23: The registry believes the device and nothing else. Configuring validates the request before
  the device sees it: an invalid request gives the same input error whatever the device would say.
  When the call succeeds, either the device acknowledged exactly the requested channel, mode and
  levels, and the role now belongs to that channel alone, or the device refused it and no accepted
  assignment changed, the refusal being recorded with the device's error and detail.
\<close>

theorem configure_mode_follows_device:
  assumes ok: "registry_ok r"
  shows "case validate_gpio_configuration ch role sig m a i of
      Inl e \<Rightarrow> \<exists>e'. configure_mode control now r ch role sig m a i src = Inl e'
          \<and> (\<forall>control'. configure_mode control' now r ch role sig m a i src = Inl e')
    | Inr q \<Rightarrow>
        (case configure_mode control now r ch role sig m a i src of
           Inl _ \<Rightarrow> True
         | Inr (r', s) \<Rightarrow> registry_ok r'
             \<and> (case control (cfg_channel q) (cfg_mode q) (cfg_active_level q) (cfg_idle_level q) of
                  Inr ts \<Rightarrow> assigned r' = assign q (assigned r) \<and> assigned r' (cfg_channel q) = Some q
                | Inl e \<Rightarrow> \<exists>err det. e = DeviceControlError err det \<and> assigned r' = assigned r
                    \<and> (\<exists>j. gc_last_rejected s = Some j \<and> gr_error j = err \<and> gr_detail j = det)))"
proof (cases "validate_gpio_configuration ch role sig m a i")
  case (Inl e)
  then show ?thesis by (simp add: configure_mode_def)
next
  case (Inr q)
  let ?c = "PStr (lit (channel_name (cfg_channel q)))" and ?m = "PStr (lit (mode_name (cfg_mode q)))"
  let ?a = "PStr (lit (level_name (cfg_active_level q)))" and ?i = "level_val (cfg_idle_level q)"
  from Inr have again: "validate_gpio_configuration ?c (PStr (cfg_role q)) (PStr (cfg_dut_signal q)) ?m ?a ?i = Inr q"
    by (simp add: validate_gpio_configuration_Inr)
  let ?answer = "control (cfg_channel q) (cfg_mode q) (cfg_active_level q) (cfg_idle_level q)"
  show ?thesis
  proof (cases "configure_mode control now r ch role sig m a i src")
    case res: (Inr rs)
    obtain r' s where rs: "rs = (r', s)" by fastforce
    show ?thesis
    proof (cases ?answer)
      case ans: (Inr ts)
      with res rs Inr have "accept_mode now r ?c (PStr (cfg_role q)) (PStr (cfg_dut_signal q)) ?m ?a ?i src ts
          = Inr (r', s)"
        by (simp add: configure_mode_def)
      from accept_mode_assigned [OF ok this] again ans res rs Inr show ?thesis by (auto simp: assign_def)
    next
      case ans: (Inl e)
      with res rs Inr obtain err det where e: "e = DeviceControlError err det"
        and "reject_mode now r ?c (PStr (cfg_role q)) (PStr (cfg_dut_signal q)) ?m ?a ?i src err det None
          = Inr (r', s)"
        by (auto simp: configure_mode_def split: exc.splits if_splits)
      from reject_mode_assigned [OF ok this(2)] e ans res rs Inr show ?thesis by auto
    qed
  qed (use Inr in simp)
qed

theorem configure_mode_follows_device_witness:
  "\<exists>e. configure_mode (\<lambda>_ _ _ _. Inr None) (lit ''t'') new_registry (PStr (lit ''CTRL9'')) PNone PNone PNone PNone PNone PNone
     = Inl e \<and> configure_mode (\<lambda>_ _ _ _. Inl RecursionError) (lit ''t'') new_registry (PStr (lit ''CTRL9'')) PNone PNone PNone PNone PNone PNone
     = Inl e"
proof -
  from configure_mode_follows_device [OF registry_ok_new, where ch = "PStr (lit ''CTRL9'')" and role = PNone
      and sig = PNone and m = PNone and a = PNone and i = PNone and src = PNone and now = "lit ''t''"
      and control = "\<lambda>_ _ _ _. Inr None"]
  show ?thesis
    by (auto simp: validate_gpio_configuration_def validate_gpio_channel_def ALL_CONTROL_CHANNELS_def)
qed

lemma all_channels: "set ALL_CONTROL_CHANNELS = UNIV"
  by (auto simp: ALL_CONTROL_CHANNELS_def) (metis gpio_channel.exhaust)

lemma find_by_role_iff:
  assumes ok: "registry_ok r" and "identifier_ok name"
  shows "find_by_role r (PStr name) = Inr (Some s) \<longleftrightarrow>
    (\<exists>c q. assigned r c = Some q \<and> cfg_role q = name \<and> s = r c)"
proof -
  let ?P = "\<lambda>s. gc_role s = Some name \<and> gc_state s = Configured"
  have v: "validate_gpio_role (PStr name) = Inr name"
    using assms(2) by (simp add: validate_gpio_role_def validate_gpio_identifier_Inr)
  have P: "?P (r c) \<longleftrightarrow> (\<exists>q. assigned r c = Some q \<and> cfg_role q = name)" for c
    using assigned_Some [OF ok, of c] assigned_configured [OF ok, of c] by fastforce
  have one: "c = c'" if "?P (r c)" "?P (r c')" for c c'
    using that ok unfolding P registry_ok_def by blast
  have "find ?P (map r ALL_CONTROL_CHANNELS) = Some s \<longleftrightarrow> (\<exists>c. ?P (r c) \<and> s = r c)"
  proof
    assume "find ?P (map r ALL_CONTROL_CHANNELS) = Some s"
    then show "\<exists>c. ?P (r c) \<and> s = r c" by (auto simp: find_Some_iff)
  next
    assume "\<exists>c. ?P (r c) \<and> s = r c"
    then obtain c where c: "?P (r c)" "s = r c" by blast
    then have "find ?P (map r ALL_CONTROL_CHANNELS) \<noteq> None"
      using all_channels by (auto simp: find_None_iff)
    then obtain s' where s': "find ?P (map r ALL_CONTROL_CHANNELS) = Some s'" by blast
    then obtain c' where "?P (r c')" "s' = r c'" by (auto simp: find_Some_iff)
    with one c s' show "find ?P (map r ALL_CONTROL_CHANNELS) = Some s" by metis
  qed
  with v P show ?thesis by (auto simp: find_by_role_def)
qed

text \<open>
  A workflow that requires a role gets it exactly when some channel has it accepted, and then
  that channel's state, which is unique; in every other case it gets a configuration error naming
  the operation and the role.
\<close>

theorem require_role_exact:
  assumes "registry_ok r" and "identifier_ok name"
  shows "(require_role_configured r (PStr name) operation = Inr s \<longleftrightarrow>
      (\<exists>c q. assigned r c = Some q \<and> cfg_role q = name \<and> s = r c))
    \<and> ((\<forall>c q. assigned r c = Some q \<longrightarrow> cfg_role q \<noteq> name) \<longrightarrow>
      (\<exists>detail state. require_role_configured r (PStr name) operation
         = Inl (GpioConfigurationError detail operation (Some name) (Some state))))"
proof -
  have v: "validate_gpio_role (PStr name) = Inr name"
    using assms(2) by (simp add: validate_gpio_role_def validate_gpio_identifier_Inr)
  then obtain found where f: "find_by_role r (PStr name) = Inr found" by (simp add: find_by_role_def)
  show ?thesis
  proof (cases found)
    case None
    with find_by_role_iff [OF assms] v f show ?thesis
      by (auto simp: require_role_configured_def split: option.splits)
  next
    case (Some t)
    with find_by_role_iff [OF assms, of t] f have "\<exists>c q. assigned r c = Some q \<and> cfg_role q = name" by auto
    moreover have "require_role_configured r (PStr name) operation = Inr t"
      using v f Some by (simp add: require_role_configured_def)
    ultimately show ?thesis using find_by_role_iff [OF assms, of s] f Some by auto
  qed
qed

theorem require_role_exact_witness:
  "\<exists>detail state. require_role_configured new_registry (PStr (lit ''reset'')) None
     = Inl (GpioConfigurationError detail None (Some (lit ''reset'')) (Some state))"
proof -
  have e: "utf8_encode (lit ''reset'') = Some ''reset''" by (intro utf8_encode_lit) auto
  have "identifier_ok (lit ''reset'')"
    by (simp add: identifier_ok_def e) (auto simp: lit_def is_unicode_whitespace_def is_cc_def)
  from require_role_exact [OF registry_ok_new this, of None] show ?thesis
    by (auto simp: assigned_def new_registry_def blank_channel_def)
qed

definition refused :: "ustr \<Rightarrow> string \<Rightarrow> string \<Rightarrow> registry \<Rightarrow> exc + (registry \<times> channel_state)" where
  "refused now channel detail r =
     reject_mode now r (PStr (lit channel)) (PStr (lit ''reset'')) (PStr (lit ''NRST''))
       (PStr (lit ''open_drain'')) (PStr (lit ''low'')) PNone (PStr (lit ''config''))
       (lit ''hardware_fault'') (lit detail) None"

text \<open>
  The detail a workflow is shown for a rejected role is not the latest one. When a role is
  refused first on \<open>CTRL3\<close> and later on \<open>CTRL0\<close>, the error carries the older refusal's detail,
  because the search keeps the last channel and not the last time.
\<close>

theorem latest_rejection_is_stale:
  "\<exists>r1 s1 r2 s2. refused (lit ''2026-01-01T00:00:00Z'') ''CTRL3'' ''old'' new_registry = Inr (r1, s1)
     \<and> refused (lit ''2026-01-02T00:00:00Z'') ''CTRL0'' ''new'' r1 = Inr (r2, s2)
     \<and> require_role_configured r2 (PStr (lit ''reset'')) None
         = Inl (GpioConfigurationError (lit ''old'') None (Some (lit ''reset'')) (Some (lit ''rejected'')))"
proof -
  have idok: "identifier_ok (lit s)" if "s = ''reset'' \<or> s = ''NRST''" for s
  proof -
    from that have "utf8_encode (lit s) = Some s" by (intro utf8_encode_lit) auto
    with that show ?thesis
      by (auto simp: identifier_ok_def) (auto simp: lit_def is_unicode_whitespace_def is_cc_def)
  qed
  have q: "validate_gpio_configuration (PStr (lit (channel_name c))) (PStr (lit ''reset'')) (PStr (lit ''NRST''))
      (PStr (lit ''open_drain'')) (PStr (lit ''low'')) PNone = Inr \<lparr>cfg_channel = c, cfg_role = lit ''reset'',
      cfg_dut_signal = lit ''NRST'', cfg_mode = OpenDrain, cfg_active_level = Low, cfg_idle_level = None\<rparr>" for c
    using idok by (simp add: validate_gpio_configuration_Inr)
  have r: "validate_gpio_role (PStr (lit ''reset'')) = Inr (lit ''reset'')"
    using idok by (simp add: validate_gpio_role_def validate_gpio_identifier_Inr)
  show ?thesis
    using q [of CTRL3] q [of CTRL0] r
    by (simp add: refused_def reject_mode_def validate_gpio_source_def new_registry_def blank_channel_def
        require_role_configured_def find_by_role_def ALL_CONTROL_CHANNELS_def
        latest_rejection_for_role_def rejection_of_def Let_def)
qed

end
