(* ===== verification/Gpio_Config.thy ===== *)
theory Gpio_Config
  imports Gpio_Modes
begin

text \<open>
  The hardware GPIO configuration, \<open>gpio_config/config.py\<close>: the \<open>[hardware]\<close> table of the project
  file, already read by the TOML library into nested dictionaries, is checked and turned into one
  control mapping per role. \<open>config_allows\<close> states which tables are accepted; the lemmas show that
  the parser accepts exactly those. Reading the file itself is not modelled.
\<close>

section \<open>Data\<close>

record hardware_mapping =
  hc_role :: ustr
  hc_channel :: gpio_channel
  hc_dut_signal :: ustr
  hc_mode :: gpio_mode
  hc_active_level :: gpio_level
  hc_idle_level :: "gpio_level option"

record hardware_gpio_config =
  hg_dut_io_voltage :: "rat option"
  hg_controls :: "(ustr \<times> hardware_mapping) list"

section \<open>The parser\<close>

text \<open>\<open>hardware.get(key, {})\<close> with \<open>None\<close> read as the empty table.\<close>

definition sub_table :: "string \<Rightarrow> pydict \<Rightarrow> exc + pydict" where
  "sub_table key m =
     (case map_of m (lit key) of
        None \<Rightarrow> Inr []
      | Some PNone \<Rightarrow> Inr []
      | Some (PDict d) \<Rightarrow> Inr d
      | Some _ \<Rightarrow> Inl (GpioConfigError ''must be a TOML table''))"

definition validate_role_name :: "pyval \<Rightarrow> exc + ustr" where
  "validate_role_name role =
     catch_r is_value_error (\<lambda>_. GpioConfigError ''invalid GPIO role'') (validate_gpio_role role)"

text \<open>The literal \<open>1.8\<close> is the nearest double; \<open>float(value)\<close> is exact on the integers that pass.\<close>

definition MIN_IO_VOLTAGE :: rat where "MIN_IO_VOLTAGE = 8106479329266893 / 4503599627370496"
definition MAX_IO_VOLTAGE :: rat where "MAX_IO_VOLTAGE = 5"

definition optional_voltage :: "pyval option \<Rightarrow> exc + rat option" where
  "optional_voltage v =
     (case v of
        None \<Rightarrow> Inr None
      | Some PNone \<Rightarrow> Inr None
      | Some (PInt n) \<Rightarrow>
          if int_overflows_float n then Inl OverflowError
          else if of_int n < MIN_IO_VOLTAGE \<or> of_int n > MAX_IO_VOLTAGE then
            Inl (GpioConfigError ''hardware.dut_io_voltage must be between 1.8 and 5.0'')
          else Inr (Some (of_int n))
      | Some (PFloat (FFin q)) \<Rightarrow>
          if q < MIN_IO_VOLTAGE \<or> q > MAX_IO_VOLTAGE then
            Inl (GpioConfigError ''hardware.dut_io_voltage must be between 1.8 and 5.0'')
          else Inr (Some q)
      | Some (PFloat _) \<Rightarrow> Inl (GpioConfigError ''hardware.dut_io_voltage must be between 1.8 and 5.0'')
      | Some _ \<Rightarrow> Inl (GpioConfigError ''hardware.dut_io_voltage must be a number''))"

definition required_string :: "pydict \<Rightarrow> string \<Rightarrow> exc + ustr" where
  "required_string m key =
     (case map_of m (lit key) of
        None \<Rightarrow> Inl (GpioConfigError (key @ '' is required''))
      | Some v \<Rightarrow>
          (case v of PStr s \<Rightarrow> Inr s | _ \<Rightarrow> Inl (GpioConfigError (key @ '' must be a non-empty string''))))"

definition optional_string :: "pydict \<Rightarrow> string \<Rightarrow> exc + ustr option" where
  "optional_string m key =
     (case map_of m (lit key) of
        None \<Rightarrow> Inr None
      | Some PNone \<Rightarrow> Inr None
      | Some (PStr s) \<Rightarrow> Inr (Some s)
      | Some _ \<Rightarrow> Inl (GpioConfigError (key @ '' must be a non-empty string'')))"

definition control_keys :: "ustr list" where
  "control_keys = map lit [''channel'', ''dut_signal'', ''mode'', ''active_level'', ''idle_level'']"

definition parse_control_mapping :: "ustr \<Rightarrow> pydict \<Rightarrow> exc + hardware_mapping" where
  "parse_control_mapping role m =
     (if \<not> set (dict_keys m) \<subseteq> set control_keys then
        Inl (GpioConfigError ''Unexpected hardware.control field(s)'')
      else
        bind_r (required_string m ''channel'') (\<lambda>channel.
        bind_r (required_string m ''dut_signal'') (\<lambda>dut_signal.
        bind_r (required_string m ''mode'') (\<lambda>mode.
        bind_r (required_string m ''active_level'') (\<lambda>active_level.
        bind_r (optional_string m ''idle_level'') (\<lambda>idle_level.
        bind_r (catch_r is_value_error (\<lambda>_. GpioConfigError ''hardware.control is invalid'')
                 (validate_gpio_configuration (PStr channel) (PStr role) (PStr dut_signal)
                    (PStr mode) (PStr active_level) (opt_str idle_level))) (\<lambda>request.
          Inr \<lparr>hc_role = cfg_role request, hc_channel = cfg_channel request,
               hc_dut_signal = cfg_dut_signal request, hc_mode = cfg_mode request,
               hc_active_level = cfg_active_level request,
               hc_idle_level = cfg_idle_level request\<rparr>)))))))"

fun parse_controls ::
  "(ustr \<times> hardware_mapping) list \<Rightarrow> (gpio_channel \<times> ustr) list \<Rightarrow> pydict
     \<Rightarrow> exc + (ustr \<times> hardware_mapping) list" where
  "parse_controls controls assigned_channels [] = Inr controls"
| "parse_controls controls assigned_channels ((role, raw) # rest) =
     bind_r (validate_role_name (PStr role)) (\<lambda>role_name.
       case raw of
         PDict raw_mapping \<Rightarrow>
           bind_r (parse_control_mapping role_name raw_mapping) (\<lambda>mapping.
             if map_of assigned_channels (hc_channel mapping) \<noteq> None then
               Inl (GpioConfigError ''GPIO channel is assigned to two roles'')
             else
               parse_controls (dict_set controls role_name mapping)
                 (dict_set assigned_channels (hc_channel mapping) role_name) rest)
       | _ \<Rightarrow> Inl (GpioConfigError ''hardware.control entry must be a TOML table''))"

definition parse_hardware_gpio_config :: "pyval \<Rightarrow> exc + hardware_gpio_config" where
  "parse_hardware_gpio_config data =
     (case data of
        PDict top_table \<Rightarrow>
          bind_r (sub_table ''hardware'' top_table) (\<lambda>hardware.
          bind_r (optional_voltage (map_of hardware (lit ''dut_io_voltage''))) (\<lambda>voltage.
          bind_r (sub_table ''control'' hardware) (\<lambda>table.
          bind_r (parse_controls [] [] table) (\<lambda>controls.
            Inr \<lparr>hg_dut_io_voltage = voltage, hg_controls = controls\<rparr>))))
      | _ \<Rightarrow> Inl (GpioConfigError ''configuration root must be a TOML table''))"

definition require_control :: "hardware_gpio_config \<Rightarrow> pyval \<Rightarrow> exc + hardware_mapping" where
  "require_control config role =
     bind_r (validate_role_name role) (\<lambda>role_name.
       case map_of (hg_controls config) role_name of
         Some mapping \<Rightarrow> Inr mapping
       | None \<Rightarrow> Inl (GpioConfigError ''hardware.control role is not configured''))"

section \<open>What is accepted\<close>

definition entry_allows :: "ustr \<Rightarrow> pydict \<Rightarrow> hardware_mapping \<Rightarrow> bool" where
  "entry_allows role m h \<longleftrightarrow>
     set (dict_keys m) \<subseteq> set control_keys
     \<and> hc_role h = role \<and> identifier_ok role \<and> identifier_ok (hc_dut_signal h)
     \<and> mode_matrix (hc_mode h) (hc_active_level h) (hc_idle_level h)
     \<and> map_of m (lit ''channel'') = Some (PStr (lit (channel_name (hc_channel h))))
     \<and> map_of m (lit ''dut_signal'') = Some (PStr (hc_dut_signal h))
     \<and> map_of m (lit ''mode'') = Some (PStr (lit (mode_name (hc_mode h))))
     \<and> map_of m (lit ''active_level'') = Some (PStr (lit (level_name (hc_active_level h))))
     \<and> (case map_of m (lit ''idle_level'') of
          None \<Rightarrow> hc_idle_level h = None
        | Some v \<Rightarrow> v = level_val (hc_idle_level h))"

definition pair_allows :: "ustr \<times> pyval \<Rightarrow> ustr \<times> hardware_mapping \<Rightarrow> bool" where
  "pair_allows entry control \<longleftrightarrow>
     fst control = fst entry
     \<and> (\<exists>m. snd entry = PDict m \<and> entry_allows (fst entry) m (snd control))"

definition table_allows :: "pydict \<Rightarrow> (ustr \<times> hardware_mapping) list \<Rightarrow> bool" where
  "table_allows table controls \<longleftrightarrow>
     list_all2 pair_allows table controls
     \<and> distinct (map (hc_channel \<circ> snd) controls)"

definition voltage_allows :: "pyval option \<Rightarrow> rat option \<Rightarrow> bool" where
  "voltage_allows v q \<longleftrightarrow>
     (case q of
        None \<Rightarrow> v = None \<or> v = Some PNone
      | Some r \<Rightarrow> MIN_IO_VOLTAGE \<le> r \<and> r \<le> MAX_IO_VOLTAGE
          \<and> (v = Some (PFloat (FFin r)) \<or> (\<exists>n. v = Some (PInt n) \<and> r = of_int n)))"

definition config_allows :: "pyval \<Rightarrow> hardware_gpio_config \<Rightarrow> bool" where
  "config_allows data config \<longleftrightarrow>
     (\<exists>top_table hardware table.
        data = PDict top_table
        \<and> sub_table ''hardware'' top_table = Inr hardware \<and> sub_table ''control'' hardware = Inr table
        \<and> voltage_allows (map_of hardware (lit ''dut_io_voltage'')) (hg_dut_io_voltage config)
        \<and> table_allows table (hg_controls config))"

section \<open>Lemmas\<close>

lemma validate_role_name_Inr:
  "validate_role_name role = Inr name \<longleftrightarrow> role = PStr name \<and> identifier_ok name"
  by (simp add: validate_role_name_def result_simps validate_gpio_role_def validate_gpio_identifier_Inr)

lemma required_string_Inr: "required_string m key = Inr s \<longleftrightarrow> map_of m (lit key) = Some (PStr s)"
  by (auto simp: required_string_def split: option.splits pyval.splits)

lemma optional_string_Inr:
  "optional_string m key = Inr s \<longleftrightarrow>
     (case map_of m (lit key) of None \<Rightarrow> s = None | Some v \<Rightarrow> v = opt_str s)"
  by (cases s) (auto simp: optional_string_def split: option.splits pyval.splits)

lemma level_val_PNone: "PNone = level_val l \<longleftrightarrow> l = None"
  by (cases l) simp_all

lemma opt_str_level: "opt_str s = level_val l \<longleftrightarrow> s = map_option (\<lambda>a. lit (level_name a)) l"
  by (cases s; cases l) auto

lemma optional_voltage_Inr: "optional_voltage v = Inr q \<longleftrightarrow> voltage_allows v q"
proof -
  have "\<not> int_overflows_float n" if "of_int n \<le> MAX_IO_VOLTAGE" "MIN_IO_VOLTAGE \<le> of_int n" for n
    using that by (auto simp: int_overflows_float_def MAX_IO_VOLTAGE_def MIN_IO_VOLTAGE_def)
  then show ?thesis
    by (cases q) (auto simp: optional_voltage_def voltage_allows_def not_less
        split: option.splits pyval.splits pyfloat.splits if_splits)
qed

lemma parse_control_mapping_Inr: "parse_control_mapping role m = Inr h \<longleftrightarrow> entry_allows role m h"
proof
  assume "parse_control_mapping role m = Inr h"
  then show "entry_allows role m h"
    by (cases h)
       (auto simp: parse_control_mapping_def entry_allows_def result_simps required_string_Inr
          optional_string_Inr validate_gpio_configuration_Inr level_val_PNone split: if_splits option.splits)
next
  assume h: "entry_allows role m h"
  let ?q = "\<lparr>cfg_channel = hc_channel h, cfg_role = role, cfg_dut_signal = hc_dut_signal h,
     cfg_mode = hc_mode h, cfg_active_level = hc_active_level h, cfg_idle_level = hc_idle_level h\<rparr>"
  let ?i = "map_option (\<lambda>a. lit (level_name a)) (hc_idle_level h)"
  from h have "optional_string m ''idle_level'' = Inr ?i" and "opt_str ?i = level_val (hc_idle_level h)"
    by (auto simp: entry_allows_def optional_string_Inr opt_str_level split: option.splits)
       (metis opt_str_level)
  moreover from h have "validate_gpio_configuration (PStr (lit (channel_name (hc_channel h)))) (PStr role)
      (PStr (hc_dut_signal h)) (PStr (lit (mode_name (hc_mode h))))
      (PStr (lit (level_name (hc_active_level h)))) (level_val (hc_idle_level h)) = Inr ?q"
    by (simp add: validate_gpio_configuration_Inr entry_allows_def)
  ultimately show "parse_control_mapping role m = Inr h"
    using h by (cases h)
      (simp add: parse_control_mapping_def entry_allows_def required_string_def)
qed

text \<open>The loop over the control table, with what it has accepted so far.\<close>

lemma parse_controls_Inr:
  assumes "dict_keys acc @ dict_keys table = keys" and "distinct keys"
    and "dict_keys owners = map (hc_channel \<circ> snd) acc"
  shows "parse_controls acc owners table = Inr controls \<longleftrightarrow>
    (\<exists>new. controls = acc @ new
       \<and> list_all2 pair_allows table new
       \<and> distinct (map (hc_channel \<circ> snd) new)
       \<and> (\<forall>e \<in> set new. hc_channel (snd e) \<notin> set (dict_keys owners)))"
  using assms
proof (induction table arbitrary: acc owners)
  case Nil
  then show ?case by auto
next
  case (Cons entry table)
  obtain role raw where entry: "entry = (role, raw)" by fastforce
  from Cons.prems(1,2) entry have "distinct (dict_keys acc @ role # dict_keys table)"
    by (simp add: dict_keys_def)
  then have fresh: "role \<notin> set (dict_keys acc)" by simp
  have step: "parse_controls acc owners (entry # table) = Inr controls \<longleftrightarrow>
      (\<exists>m h. raw = PDict m \<and> entry_allows role m h \<and> hc_channel h \<notin> set (dict_keys owners)
        \<and> parse_controls (acc @ [(role, h)]) (dict_set owners (hc_channel h) role) table = Inr controls)"
    by (cases raw)
       (auto simp: entry result_simps validate_role_name_Inr parse_control_mapping_Inr
          dict_set_new fresh map_of_eq_None_dict entry_allows_def split: if_splits)
  have IH: "parse_controls (acc @ [(role, h)]) (dict_set owners (hc_channel h) role) table = Inr controls \<longleftrightarrow>
    (\<exists>new. controls = (acc @ [(role, h)]) @ new
       \<and> list_all2 pair_allows table new
       \<and> distinct (map (hc_channel \<circ> snd) new)
       \<and> (\<forall>e \<in> set new. hc_channel (snd e) \<notin> set (dict_keys (dict_set owners (hc_channel h) role))))"
    if "hc_channel h \<notin> set (dict_keys owners)" for h
    using Cons.prems that entry
    by (intro Cons.IH) (auto simp: dict_keys_def dict_set_new)
  have "parse_controls acc owners (entry # table) = Inr controls \<longleftrightarrow>
      (\<exists>m h new. raw = PDict m \<and> entry_allows role m h \<and> hc_channel h \<notin> set (dict_keys owners)
         \<and> controls = acc @ (role, h) # new \<and> list_all2 pair_allows table new
         \<and> distinct (map (hc_channel \<circ> snd) new)
         \<and> (\<forall>e \<in> set new. hc_channel (snd e) \<notin> set (dict_keys (dict_set owners (hc_channel h) role))))"
    unfolding step using IH by (simp cong: conj_cong)
  also have "\<dots> \<longleftrightarrow> (\<exists>control new. pair_allows entry control
         \<and> hc_channel (snd control) \<notin> set (dict_keys owners)
         \<and> controls = acc @ control # new \<and> list_all2 pair_allows table new
         \<and> distinct (map (hc_channel \<circ> snd) new)
         \<and> (\<forall>e \<in> set new. hc_channel (snd e) \<notin> insert (hc_channel (snd control)) (set (dict_keys owners))))"
    by (auto simp: pair_allows_def entry dict_keys_dict_set)
  also have "\<dots> \<longleftrightarrow> (\<exists>new. controls = acc @ new \<and> list_all2 pair_allows (entry # table) new
         \<and> distinct (map (hc_channel \<circ> snd) new)
         \<and> (\<forall>e \<in> set new. hc_channel (snd e) \<notin> set (dict_keys owners)))"
    by (auto simp: list_all2_Cons1; force)
  finally show ?case .
qed

text \<open>
  C24: The parser accepts exactly the electrically sound GPIO tables. A configuration comes out
  exactly when the voltage is absent or a finite number from 1.8 to 5, every control entry has
  only the known keys with a valid role, signal and electrical mode, and no channel is given to
  two roles; the result holds one mapping per table entry, in order, with the entry's values.
\<close>

theorem gpio_config_exact:
  assumes "\<And>top_table hardware table. data = PDict top_table \<Longrightarrow> sub_table ''hardware'' top_table = Inr hardware
      \<Longrightarrow> sub_table ''control'' hardware = Inr table \<Longrightarrow> distinct (dict_keys table)"
  shows "parse_hardware_gpio_config data = Inr config \<longleftrightarrow> config_allows data config"
proof -
  have loop: "parse_controls [] [] table = Inr controls \<longleftrightarrow> table_allows table controls"
    if "distinct (dict_keys table)" for table controls
    using parse_controls_Inr [of "[]" table "dict_keys table" "[]" controls] that
    by (simp add: dict_keys_def table_allows_def)
  show ?thesis
  proof (cases data)
    case (PDict top_table)
    with assms loop show ?thesis
      by (cases config) (auto simp: parse_hardware_gpio_config_def config_allows_def result_simps
          optional_voltage_Inr)
  qed (simp_all add: parse_hardware_gpio_config_def config_allows_def)
qed

definition sample_table :: pyval where
  "sample_table =
     PDict [(lit ''hardware'', PDict [
       (lit ''dut_io_voltage'', PInt 3),
       (lit ''control'', PDict [
         (lit ''reset'', PDict [
           (lit ''channel'', PStr (lit ''CTRL0'')), (lit ''dut_signal'', PStr (lit ''NRST'')),
           (lit ''mode'', PStr (lit ''open_drain'')), (lit ''active_level'', PStr (lit ''low''))])])])]"

theorem gpio_config_exact_witness:
  "config_allows sample_table
     \<lparr>hg_dut_io_voltage = Some 3,
      hg_controls = [(lit ''reset'', \<lparr>hc_role = lit ''reset'', hc_channel = CTRL0,
        hc_dut_signal = lit ''NRST'', hc_mode = OpenDrain, hc_active_level = Low,
        hc_idle_level = None\<rparr>)]\<rparr>"
  (is "config_allows sample_table ?config")
proof -
  have ids: "identifier_ok (lit ''reset'')" "identifier_ok (lit ''NRST'')"
    by (simp_all add: identifier_ok_def utf8_encode_lit)
       (simp_all add: lit_def is_unicode_whitespace_def is_cc_def)
  have "parse_controls [] [] [(lit ''reset'', PDict [
           (lit ''channel'', PStr (lit ''CTRL0'')), (lit ''dut_signal'', PStr (lit ''NRST'')),
           (lit ''mode'', PStr (lit ''open_drain'')), (lit ''active_level'', PStr (lit ''low''))])]
      = Inr (hg_controls ?config)"
    by (subst parse_controls_Inr [of "[]" _ "[lit ''reset'']"])
       (auto simp: dict_keys_def pair_allows_def entry_allows_def control_keys_def ids)
  then have p: "parse_hardware_gpio_config sample_table = Inr ?config"
    by (simp add: parse_hardware_gpio_config_def sample_table_def sub_table_def optional_voltage_def
        int_overflows_float_def MIN_IO_VOLTAGE_def MAX_IO_VOLTAGE_def)
  have "parse_hardware_gpio_config sample_table = Inr ?config \<longleftrightarrow> config_allows sample_table ?config"
    by (rule gpio_config_exact) (auto simp: sample_table_def sub_table_def dict_keys_def)
  with p show ?thesis by simp
qed

text \<open>The exceptions of each part.\<close>

fun config_error :: "exc \<Rightarrow> bool" where
  "config_error (GpioConfigError _) = True"
| "config_error _ = False"

lemma identifier_raises [raises_intros]: "raises_only is_value_error (validate_gpio_identifier f v)"
  by (cases v) (auto simp: validate_gpio_identifier_def split: option.split)

lemma gpio_configuration_raises [raises_intros]:
  "raises_only is_value_error (validate_gpio_configuration c r d m a i)"
  unfolding validate_gpio_configuration_def validate_gpio_channel_def validate_gpio_role_def
    validate_gpio_dut_signal_def validate_gpio_mode_configuration_def validate_gpio_mode_def
    validate_gpio_level_def
  by (intro raises_intros) auto

lemma catch_value_error [raises_intros]:
  "raises_only is_value_error m \<Longrightarrow> raises_only config_error (catch_r is_value_error (\<lambda>_. GpioConfigError d) m)"
  by (cases m) auto

lemma required_string_raises [raises_intros]: "raises_only config_error (required_string m key)"
  by (auto simp: required_string_def split: option.split pyval.split)

lemma optional_string_raises [raises_intros]: "raises_only config_error (optional_string m key)"
  by (auto simp: optional_string_def split: option.split pyval.split)

lemma sub_table_raises [raises_intros]: "raises_only config_error (sub_table key m)"
  by (auto simp: sub_table_def split: option.split pyval.split)

lemma control_mapping_raises [raises_intros]: "raises_only config_error (parse_control_mapping r m)"
  unfolding parse_control_mapping_def by (intro raises_intros) auto

lemma parse_controls_raises [raises_intros]: "raises_only config_error (parse_controls acc owners table)"
proof (induction acc owners table rule: parse_controls.induct)
  case (2 acc owners r raw rest)
  have "raises_only config_error (validate_role_name (PStr r))"
    unfolding validate_role_name_def validate_gpio_role_def by (intro raises_intros)
  then show ?case
    using 2 by (cases raw) (auto intro!: raises_intros)
qed simp

lemma optional_voltage_raises:
  "raises_only (\<lambda>e. config_error e \<or> e = OverflowError) (optional_voltage v)"
  by (auto simp: optional_voltage_def split: option.split pyval.split pyfloat.split)


end
