(* ===== verification/Storage.thy ===== *)
theory Storage
  imports Json_Roundtrip
begin

text \<open>
  The files of a debug session and the system calls that change them, \<open>session_store/persistence.py\<close>.
  A call may work, fail with an \<open>OSError\<close> or be the last one before the process dies; which of these
  happens is a schedule with one outcome per call, so a theorem over all schedules covers every
  failure and every crash point. A crash keeps the effects of the calls made so far.

  \<open>io\<close> is the type of a piece of code that makes such calls; \<open>triple\<close> is its Hoare logic, with one
  condition for each way the code can end. The transaction marker is the one file whose bytes are
  not kept: \<open>sd_marker\<close> holds the JSON value written to it. Temporary files have unique names and
  are invisible to the rest of the code; consecutive calls that only touch them are one call here.
\<close>

section \<open>The session directory\<close>

datatype session_file =
    Metadata | UartRaw | UartEvents | OperationEvents | HardwareEvents | ConnectionEvents
  | DetectedPatterns | MetadataBackup | PatternsBackup

fun file_name :: "session_file \<Rightarrow> string" where
  "file_name Metadata = ''metadata.json''"
| "file_name UartRaw = ''uart_raw.log''"
| "file_name UartEvents = ''uart_events.jsonl''"
| "file_name OperationEvents = ''operation_events.jsonl''"
| "file_name HardwareEvents = ''hardware_events.jsonl''"
| "file_name ConnectionEvents = ''connection_events.jsonl''"
| "file_name DetectedPatterns = ''detected_patterns.json''"
| "file_name MetadataBackup = ''.evidence-transaction.metadata.before''"
| "file_name PatternsBackup = ''.evidence-transaction.patterns.before''"

lemma file_name_inj: "file_name f = file_name g \<longleftrightarrow> f = g"
  by (cases f; cases g) simp_all

record 'm session_disk =
  sd_files :: "session_file \<Rightarrow> bytes option"
  sd_marker :: "pyval option"
  sd_current :: "'m option"

text \<open>\<open>sd_current\<close> is the part in memory: the marker of the transaction object, lost in a crash.\<close>

section \<open>Code that makes system calls\<close>

datatype outcome = Works | Fails nat | Dies nat

datatype 'a ending = Done 'a | Raised exc | Crashed

record 'm world =
  disk :: "'m session_disk"
  schedule :: "outcome list"

type_synonym ('m, 'a) io = "'m world \<Rightarrow> 'a ending \<times> 'm world"

definition return_io :: "'a \<Rightarrow> ('m, 'a) io" where
  "return_io a = (\<lambda>w. (Done a, w))"

definition raise_io :: "exc \<Rightarrow> ('m, 'a) io" where
  "raise_io e = (\<lambda>w. (Raised e, w))"

definition bind_io :: "('m, 'a) io \<Rightarrow> ('a \<Rightarrow> ('m, 'b) io) \<Rightarrow> ('m, 'b) io" where
  "bind_io c k = (\<lambda>w. case c w of
     (Done a, w') \<Rightarrow> k a w' | (Raised e, w') \<Rightarrow> (Raised e, w') | (Crashed, w') \<Rightarrow> (Crashed, w'))"

text \<open>\<open>try c except p as e: h e\<close>; a crash runs no handler.\<close>

definition catch_io :: "(exc \<Rightarrow> bool) \<Rightarrow> (exc \<Rightarrow> ('m, 'a) io) \<Rightarrow> ('m, 'a) io \<Rightarrow> ('m, 'a) io" where
  "catch_io p h c = (\<lambda>w. case c w of
     (Raised e, w') \<Rightarrow> (if p e then h e w' else (Raised e, w')) | r \<Rightarrow> r)"

definition gets_io :: "('m session_disk \<Rightarrow> 'a) \<Rightarrow> ('m, 'a) io" where
  "gets_io f = (\<lambda>w. (Done (f (disk w)), w))"

definition modify_io :: "('m session_disk \<Rightarrow> 'm session_disk) \<Rightarrow> ('m, unit) io" where
  "modify_io f = (\<lambda>w. (Done (), w\<lparr>disk := f (disk w)\<rparr>))"

definition lift_io :: "exc + 'a \<Rightarrow> ('m, 'a) io" where
  "lift_io r = (case r of Inl e \<Rightarrow> raise_io e | Inr a \<Rightarrow> return_io a)"

text \<open>
  One system call: \<open>full\<close> is its effect or the \<open>OSError\<close> of its own, \<open>part n\<close> what it leaves behind
  when it fails or dies having done \<open>n\<close> bytes.
\<close>

definition call_io ::
  "('m session_disk \<Rightarrow> exc + ('a \<times> 'm session_disk)) \<Rightarrow> (nat \<Rightarrow> 'm session_disk \<Rightarrow> 'm session_disk)
     \<Rightarrow> ('m, 'a) io" where
  "call_io full part = (\<lambda>w.
     let w' = w\<lparr>schedule := tl (schedule w)\<rparr> in
     (case (case schedule w of [] \<Rightarrow> Works | r # _ \<Rightarrow> r) of
        Works \<Rightarrow>
          (case full (disk w) of
             Inl e \<Rightarrow> (Raised e, w') | Inr (a, d) \<Rightarrow> (Done a, w'\<lparr>disk := d\<rparr>))
      | Fails n \<Rightarrow> (Raised (OSError ''''), w'\<lparr>disk := part n (disk w)\<rparr>)
      | Dies n \<Rightarrow> (Crashed, w'\<lparr>disk := part n (disk w)\<rparr>)))"

definition atomic_io :: "('m session_disk \<Rightarrow> exc + ('a \<times> 'm session_disk)) \<Rightarrow> ('m, 'a) io" where
  "atomic_io full = call_io full (\<lambda>_ d. d)"

text \<open>A call whose effect no other code sees: opening, syncing or closing a descriptor.\<close>

definition quiet_io :: "('m, unit) io" where
  "quiet_io = atomic_io (\<lambda>d. Inr ((), d))"

fun is_os_error :: "exc \<Rightarrow> bool" where
  "is_os_error (OSError _) = True"
| "is_os_error _ = False"

fun is_persistence_error :: "exc \<Rightarrow> bool" where
  "is_persistence_error (SessionPersistenceError _ _) = True"
| "is_persistence_error _ = False"

text \<open>\<open>except OSError as exc: raise _error(operation, path, exc)\<close>\<close>

definition as_persistence :: "string \<Rightarrow> ('m, 'a) io \<Rightarrow> ('m, 'a) io" where
  "as_persistence operation = catch_io is_os_error (\<lambda>_. raise_io (SessionPersistenceError operation True))"

fun each_io :: "('a \<Rightarrow> ('m, unit) io) \<Rightarrow> 'a list \<Rightarrow> ('m, unit) io" where
  "each_io c [] = return_io ()"
| "each_io c (x # xs) = bind_io (c x) (\<lambda>_. each_io c xs)"

section \<open>System calls\<close>

definition put_file :: "session_file \<Rightarrow> bytes option \<Rightarrow> 'm session_disk \<Rightarrow> 'm session_disk" where
  "put_file f b d = d\<lparr>sd_files := (sd_files d)(f := b)\<rparr>"

definition unlink_missing_ok :: "session_file \<Rightarrow> ('m, unit) io" where
  "unlink_missing_ok f = atomic_io (\<lambda>d. Inr ((), put_file f None d))"

definition os_link :: "session_file \<Rightarrow> session_file \<Rightarrow> ('m, unit) io" where
  "os_link src dst = atomic_io (\<lambda>d.
     if sd_files d src = None \<or> sd_files d dst \<noteq> None then Inl (OSError ''link'')
     else Inr ((), put_file dst (sd_files d src) d))"

definition os_replace :: "session_file \<Rightarrow> session_file \<Rightarrow> ('m, unit) io" where
  "os_replace src dst = atomic_io (\<lambda>d.
     if sd_files d src = None then Inl (OSError ''replace'')
     else Inr ((), put_file src None (put_file dst (sd_files d src) d)))"

definition read_file :: "session_file \<Rightarrow> ('m, bytes) io" where
  "read_file f = atomic_io (\<lambda>d.
     case sd_files d f of None \<Rightarrow> Inl (OSError ''open'') | Some b \<Rightarrow> Inr (b, d))"

definition file_exists :: "session_file \<Rightarrow> ('m, bool) io" where
  "file_exists f = gets_io (\<lambda>d. sd_files d f \<noteq> None)"

section \<open>\<open>persistence.py\<close>\<close>

text \<open>
  \<open>write_serialized\<close>: a temporary file is written and synced, renamed over the target, and the
  directory is synced. When the last step fails the target has already been replaced.
\<close>

definition write_serialized :: "session_file \<Rightarrow> bytes \<Rightarrow> ('m, unit) io" where
  "write_serialized f data =
     as_persistence ''write'' (
       bind_io quiet_io (\<lambda>_.
       bind_io (atomic_io (\<lambda>d. Inr ((), put_file f (Some data) d))) (\<lambda>_.
       quiet_io)))"

definition write_marker :: "pyval \<Rightarrow> ('m, unit) io" where
  "write_marker v =
     as_persistence ''write'' (
       bind_io quiet_io (\<lambda>_.
       bind_io (atomic_io (\<lambda>d. Inr ((), d\<lparr>sd_marker := Some v\<rparr>))) (\<lambda>_.
       quiet_io)))"

definition unlink_marker :: "('m, unit) io" where
  "unlink_marker = atomic_io (\<lambda>d. Inr ((), d\<lparr>sd_marker := None\<rparr>))"

definition read_marker_object :: "('m, pydict) io" where
  "read_marker_object =
     bind_io (as_persistence ''read'' (atomic_io (\<lambda>d.
       case sd_marker d of None \<Rightarrow> Inl (OSError ''open'') | Some v \<Rightarrow> Inr (v, d)))) (\<lambda>v.
       case v of
         PDict m \<Rightarrow> return_io m
       | _ \<Rightarrow> raise_io (ValueError ''must contain a JSON object''))"

definition append_part :: "session_file \<Rightarrow> bytes \<Rightarrow> 'm session_disk \<Rightarrow> 'm session_disk" where
  "append_part f data d =
     put_file f (Some ((case sd_files d f of None \<Rightarrow> [] | Some b \<Rightarrow> b) @ data)) d"

definition truncate_part :: "session_file \<Rightarrow> nat \<Rightarrow> 'm session_disk \<Rightarrow> 'm session_disk" where
  "truncate_part f n d = put_file f (map_option (take n) (sd_files d f)) d"

text \<open>
  \<open>append_serialized\<close>: a write or sync that fails is undone by truncating to the old size, as well
  as that works; a failing \<open>close\<close> is not.
\<close>

definition undo_append :: "session_file \<Rightarrow> nat \<Rightarrow> ('m, unit) io" where
  "undo_append f original_size =
     catch_io is_os_error (\<lambda>_. return_io ())
       (bind_io (atomic_io (\<lambda>d. Inr ((), truncate_part f original_size d))) (\<lambda>_. quiet_io))"

definition write_and_sync :: "session_file \<Rightarrow> bytes \<Rightarrow> ('m, unit) io" where
  "write_and_sync f data =
     bind_io (call_io (\<lambda>d. Inr ((), append_part f data d)) (\<lambda>n. append_part f (take n data))) (\<lambda>_. quiet_io)"

definition append_serialized :: "session_file \<Rightarrow> bytes \<Rightarrow> ('m, unit) io" where
  "append_serialized f data =
     as_persistence ''append'' (
       bind_io (atomic_io (\<lambda>d. Inr ((), append_part f [] d))) (\<lambda>_.
       bind_io (atomic_io (\<lambda>d. Inr (length (the (sd_files d f)), d))) (\<lambda>original_size.
       bind_io
         (catch_io is_os_error (\<lambda>e. bind_io (undo_append f original_size) (\<lambda>_. raise_io e))
           (write_and_sync f data))
         (\<lambda>_. quiet_io))))"

text \<open>\<open>evidence_file_bytes\<close> sums the files that exist.\<close>

definition evidence_files :: "session_file list" where
  "evidence_files =
     [UartRaw, UartEvents, OperationEvents, HardwareEvents, ConnectionEvents, DetectedPatterns]"

definition evidence_file_bytes :: "('m, nat) io" where
  "evidence_file_bytes =
     as_persistence ''account evidence'' (atomic_io (\<lambda>d.
       Inr (sum_list (map (\<lambda>f. case sd_files d f of None \<Rightarrow> 0 | Some b \<Rightarrow> length b) evidence_files), d)))"

definition refresh_storage_accounting :: "pydict \<Rightarrow> ('m, pydict) io" where
  "refresh_storage_accounting metadata =
     (case map_of metadata (lit ''storage'') of
        None \<Rightarrow> return_io metadata
      | Some PNone \<Rightarrow> return_io metadata
      | Some (PDict storage) \<Rightarrow>
          bind_io evidence_file_bytes (\<lambda>n.
            return_io (dict_set metadata (lit ''storage'')
              (PDict (dict_set storage (lit ''evidence_bytes_written'') (PInt (int n))))))
      | Some _ \<Rightarrow> raise_io (ValueError ''session metadata storage must be a JSON object''))"

section \<open>A Hoare logic with failures and crashes\<close>

text \<open>
  From a disk satisfying \<open>P\<close>, under schedules of the outcomes \<open>A\<close>, the code ends normally in \<open>Q\<close>,
  with an exception in \<open>E\<close>, or crashes in \<open>X\<close>.
\<close>

definition triple ::
  "(outcome \<Rightarrow> bool) \<Rightarrow> ('m session_disk \<Rightarrow> bool) \<Rightarrow> ('m, 'a) io \<Rightarrow> ('a \<Rightarrow> 'm session_disk \<Rightarrow> bool)
     \<Rightarrow> (exc \<Rightarrow> 'm session_disk \<Rightarrow> bool) \<Rightarrow> ('m session_disk \<Rightarrow> bool) \<Rightarrow> bool" where
  "triple A P c Q E X \<longleftrightarrow>
     (\<forall>w. P (disk w) \<longrightarrow> list_all A (schedule w) \<longrightarrow>
        list_all A (schedule (snd (c w)))
        \<and> (case fst (c w) of
             Done a \<Rightarrow> Q a (disk (snd (c w)))
           | Raised e \<Rightarrow> E e (disk (snd (c w)))
           | Crashed \<Rightarrow> X (disk (snd (c w)))))"

lemma triple_use:
  assumes "triple A P c Q E X" and "P (disk w)" and "list_all A (schedule w)"
  shows "list_all A (schedule (snd (c w)))"
    and "fst (c w) = Done a \<Longrightarrow> Q a (disk (snd (c w)))"
    and "fst (c w) = Raised e \<Longrightarrow> E e (disk (snd (c w)))"
    and "fst (c w) = Crashed \<Longrightarrow> X (disk (snd (c w)))"
  using assms by (auto simp: triple_def split: ending.splits)

named_theorems triple_intros \<open>rules of the Hoare logic\<close>

lemma triple_fix: "(\<And>d. P d \<Longrightarrow> triple A ((=) d) c Q E X) \<Longrightarrow> triple A P c Q E X"
  by (simp add: triple_def)

lemma triple_pre: "triple A P c Q E X \<Longrightarrow> (\<And>d. P' d \<Longrightarrow> P d) \<Longrightarrow> triple A P' c Q E X"
  by (simp add: triple_def)

lemma triple_conseq:
  "triple A P c Q E X \<Longrightarrow> (\<And>d. P' d \<Longrightarrow> P d) \<Longrightarrow> (\<And>a d. Q a d \<Longrightarrow> Q' a d) \<Longrightarrow> (\<And>e d. E e d \<Longrightarrow> E' e d)
     \<Longrightarrow> (\<And>d. X d \<Longrightarrow> X' d) \<Longrightarrow> triple A P' c Q' E' X'"
  unfolding triple_def by (fastforce split: ending.splits)

lemma triple_return: "(\<And>d. P d \<Longrightarrow> Q a d) \<Longrightarrow> triple A P (return_io a) Q E X"
  by (simp add: triple_def return_io_def)

lemma triple_raise: "(\<And>d. P d \<Longrightarrow> E e d) \<Longrightarrow> triple A P (raise_io e) Q E X"
  by (simp add: triple_def raise_io_def)

lemma triple_gets: "(\<And>d. P d \<Longrightarrow> Q (f d) d) \<Longrightarrow> triple A P (gets_io f) Q E X"
  by (simp add: triple_def gets_io_def)

lemma triple_modify: "(\<And>d. P d \<Longrightarrow> Q () (f d)) \<Longrightarrow> triple A P (modify_io f) Q E X"
  by (simp add: triple_def modify_io_def)

lemma triple_bind:
  assumes "triple A P c R E X" and "\<And>a. triple A (R a) (k a) Q E X"
  shows "triple A P (bind_io c k) Q E X"
proof (unfold triple_def, intro allI impI)
  fix w :: "'a world"
  assume w: "P (disk w)" "list_all A (schedule w)"
  obtain r w' where c: "c w = (r, w')" by fastforce
  note first = triple_use [OF assms(1) w, unfolded c, simplified]
  show "list_all A (schedule (snd (bind_io c k w)))
    \<and> (case fst (bind_io c k w) of Done a \<Rightarrow> Q a (disk (snd (bind_io c k w)))
        | Raised e \<Rightarrow> E e (disk (snd (bind_io c k w))) | Crashed \<Rightarrow> X (disk (snd (bind_io c k w))))"
  proof (cases r)
    case (Done a)
    with first have "R a (disk w')" "list_all A (schedule w')" by auto
    from triple_use [OF assms(2) this] show ?thesis
      by (simp add: bind_io_def c Done split: ending.split)
  qed (use first in \<open>simp_all add: bind_io_def c\<close>)
qed

lemma triple_conj: "(C \<Longrightarrow> triple A P c Q E X) \<Longrightarrow> triple A (\<lambda>d. C \<and> P d) c Q E X"
  by (simp add: triple_def)

text \<open>Reading the disk fixes it for what follows.\<close>

lemma triple_bind_gets:
  "(\<And>d. P d \<Longrightarrow> triple A ((=) d) (k (f d)) Q E X) \<Longrightarrow> triple A P (bind_io (gets_io f) k) Q E X"
  by (auto simp: triple_def bind_io_def gets_io_def)

lemma triple_bind_modify:
  "(\<And>d. P d \<Longrightarrow> triple A ((=) (f d)) (k ()) Q E X) \<Longrightarrow> triple A P (bind_io (modify_io f) k) Q E X"
  by (auto simp: triple_def bind_io_def modify_io_def)

lemma triple_catch:
  assumes "triple A P c Q R X" and "\<And>e. p e \<Longrightarrow> triple A (R e) (h e) Q E X"
    and "\<And>e d. \<not> p e \<Longrightarrow> R e d \<Longrightarrow> E e d"
  shows "triple A P (catch_io p h c) Q E X"
proof (unfold triple_def, intro allI impI)
  fix w :: "'a world"
  assume w: "P (disk w)" "list_all A (schedule w)"
  obtain r w' where c: "c w = (r, w')" by fastforce
  note first = triple_use [OF assms(1) w, unfolded c, simplified]
  show "list_all A (schedule (snd (catch_io p h c w)))
    \<and> (case fst (catch_io p h c w) of Done a \<Rightarrow> Q a (disk (snd (catch_io p h c w)))
        | Raised e \<Rightarrow> E e (disk (snd (catch_io p h c w))) | Crashed \<Rightarrow> X (disk (snd (catch_io p h c w))))"
  proof (cases r)
    case (Raised e)
    with first have e: "R e (disk w')" "list_all A (schedule w')" by auto
    show ?thesis
    proof (cases "p e")
      case True
      from triple_use [OF assms(2) [OF True] e] True show ?thesis
        by (simp add: catch_io_def c Raised split: ending.split)
    next
      case False
      with e assms(3) show ?thesis by (simp add: catch_io_def c Raised)
    qed
  qed (use first in \<open>simp_all add: catch_io_def c\<close>)
qed

lemma triple_call:
  assumes "\<And>d a d'. P d \<Longrightarrow> full d = Inr (a, d') \<Longrightarrow> Q a d'"
    and "\<And>d e. P d \<Longrightarrow> full d = Inl e \<Longrightarrow> E e d"
    and "\<And>d n. P d \<Longrightarrow> A (Fails n) \<Longrightarrow> E (OSError '''') (part n d)"
    and "\<And>d n. P d \<Longrightarrow> X (part n d)"
  shows "triple A P (call_io full part) Q E X"
proof -
  have "list_all A (schedule w) \<Longrightarrow> list_all A (tl (schedule w))" for w :: "'a world"
    by (cases "schedule w") simp_all
  then show ?thesis
    using assms unfolding triple_def call_io_def Let_def
    by (auto split: list.splits outcome.splits sum.splits prod.splits)
qed

lemma triple_atomic:
  assumes "\<And>d a d'. P d \<Longrightarrow> full d = Inr (a, d') \<Longrightarrow> Q a d'"
    and "\<And>d e. P d \<Longrightarrow> full d = Inl e \<Longrightarrow> E e d"
    and "\<And>d n. P d \<Longrightarrow> A (Fails n) \<Longrightarrow> E (OSError '''') d"
    and "\<And>d. P d \<Longrightarrow> X d"
  shows "triple A P (atomic_io full) Q E X"
  unfolding atomic_io_def using assms by (intro triple_call)

lemma triple_quiet:
  assumes "\<And>d. P d \<Longrightarrow> Q () d" and "\<And>d n. P d \<Longrightarrow> A (Fails n) \<Longrightarrow> E (OSError '''') d" and "\<And>d. P d \<Longrightarrow> X d"
  shows "triple A P quiet_io Q E X"
  unfolding quiet_io_def using assms by (intro triple_atomic) auto

lemma triple_each:
  assumes "\<And>x. x \<in> set xs \<Longrightarrow> triple A I (c x) (\<lambda>_. I) E X"
  shows "triple A I (each_io c xs) (\<lambda>_. I) E X"
  using assms by (induction xs) (auto intro!: triple_return triple_bind)

section \<open>The persistence operations in the logic\<close>

lemma triple_persistence:
  assumes "triple A P c Q (\<lambda>e d. is_os_error e \<and> F d) X"
    and "\<And>d. F d \<Longrightarrow> E (SessionPersistenceError operation True) d"
  shows "triple A P (as_persistence operation c) Q E X"
  unfolding as_persistence_def
  using assms by (intro triple_catch [OF assms(1)] triple_raise) auto

text \<open>The disk on entry is fixed to \<open>d\<close>; a failure or a crash can come before or after the change.\<close>

lemma triple_write_serialized:
  assumes "Q () (put_file f (Some data) d)"
    and "\<And>n. A (Fails n) \<Longrightarrow> E (SessionPersistenceError ''write'' True) d"
    and "\<And>n. A (Fails n) \<Longrightarrow> E (SessionPersistenceError ''write'' True) (put_file f (Some data) d)"
    and "X d" and "X (put_file f (Some data) d)"
  shows "triple A ((=) d) (write_serialized f data) Q E X"
  unfolding write_serialized_def
  by (rule triple_persistence [where F = "E (SessionPersistenceError ''write'' True)"],
      rule triple_bind [where R = "\<lambda>_. (=) d"], (rule triple_quiet; use assms in auto),
      rule triple_bind [where R = "\<lambda>_. (=) (put_file f (Some data) d)"],
      (rule triple_atomic; use assms in auto), (rule triple_quiet; use assms in auto), simp)

lemma triple_write_marker:
  assumes "Q () (d\<lparr>sd_marker := Some v\<rparr>)"
    and "\<And>n. A (Fails n) \<Longrightarrow> E (SessionPersistenceError ''write'' True) d"
    and "\<And>n. A (Fails n) \<Longrightarrow> E (SessionPersistenceError ''write'' True) (d\<lparr>sd_marker := Some v\<rparr>)"
    and "X d" and "X (d\<lparr>sd_marker := Some v\<rparr>)"
  shows "triple A ((=) d) (write_marker v) Q E X"
  unfolding write_marker_def
  by (rule triple_persistence [where F = "E (SessionPersistenceError ''write'' True)"],
      rule triple_bind [where R = "\<lambda>_. (=) d"], (rule triple_quiet; use assms in auto),
      rule triple_bind [where R = "\<lambda>_. (=) (d\<lparr>sd_marker := Some v\<rparr>)"],
      (rule triple_atomic; use assms in auto), (rule triple_quiet; use assms in auto), simp)

lemma append_part_append [simp]: "append_part f x (append_part f y d) = append_part f (y @ x) d"
  by (simp add: append_part_def put_file_def)

lemma truncate_append_part:
  "sd_files d f = Some b \<Longrightarrow> truncate_part f (length b) (append_part f x d) = append_part f [] d"
  by (simp add: append_part_def truncate_part_def put_file_def)

lemma append_part_Nil: "sd_files d f = Some b \<Longrightarrow> append_part f [] d = d"
  by (simp add: append_part_def put_file_def fun_upd_idem)

lemma triple_append_serialized:
  assumes "sd_files d f = Some b" and "Q () (append_part f data d)"
    and "\<And>n x. A (Fails n) \<Longrightarrow> E (SessionPersistenceError ''append'' True) (append_part f x d)"
    and "\<And>x. X (append_part f x d)"
  shows "triple A ((=) d) (append_serialized f data) Q E X"
proof -
  note d = append_part_Nil [OF assms(1)]
  let ?F = "\<lambda>d'. \<exists>n x. A (Fails n) \<and> d' = append_part f x d"
  let ?E = "\<lambda>e d'. is_os_error e \<and> ?F d'"
  have X: "X d" using assms(4) [of "[]"] d by simp
  have F: "?F d" if "A (Fails n)" for n using that d by metis
  have undo: "triple A ?F (undo_append f (length b)) (\<lambda>_. ?F) E' X" for E'
    unfolding undo_append_def
    by (rule triple_catch [where R = ?E], rule triple_bind [where R = "\<lambda>_. ?F"];
        (rule triple_atomic triple_quiet triple_return)?)
       (use assms(4) in \<open>auto simp: truncate_append_part [OF assms(1)]\<close>)
  have inner: "triple A ((=) d) (write_and_sync f data) (\<lambda>_. (=) (append_part f data d)) ?E X"
    unfolding write_and_sync_def
    by (rule triple_bind [where R = "\<lambda>_. (=) (append_part f data d)"]; (rule triple_call triple_quiet)?)
       (use assms(4) in auto)
  have guarded: "triple A ((=) d)
      (catch_io is_os_error (\<lambda>e. bind_io (undo_append f (length b)) (\<lambda>_. raise_io e)) (write_and_sync f data))
      (\<lambda>_. (=) (append_part f data d)) ?E X"
    by (rule triple_catch [OF inner], rule triple_bind [OF triple_pre [OF undo]])
       (auto intro!: triple_raise)
  show ?thesis
    unfolding append_serialized_def
    apply (rule triple_persistence [where F = ?F])
     apply (rule triple_bind [where R = "\<lambda>_. (=) d"])
      apply (rule triple_atomic; use d X F in \<open>simp\<close>)
     apply (rule triple_bind [where R = "\<lambda>n d'. n = length b \<and> d' = d"])
      apply (rule triple_atomic; use X F assms(1) in \<open>simp\<close>)
     apply (rule triple_fix)
     apply (rule triple_bind [where R = "\<lambda>_. (=) (append_part f data d)"])
    using guarded apply simp
     apply (rule triple_quiet; use assms in \<open>auto\<close>)
    using assms(3) by blast
qed

end
