(* ===== verification/Transactions.thy ===== *)
theory Transactions
  imports Storage
begin

text \<open>
  The crash-recoverable evidence transactions, \<open>session_store/transactions.py\<close>, and the commit unit
  the session store runs in them (\<open>session_store/store.py\<close>): appended evidence, optionally replaced
  patterns, then the marker with the digest of the new metadata, then the metadata.

  \<open>digest\<close> stands for the SHA-256 hex digest. \<open>undoable\<close> and \<open>redoable\<close> describe every disk a crash
  can leave: recovery takes the first back to the state before the unit and the second on to the
  state after it. Hard links are copies here, which nobody can tell apart because the linked files
  are only ever replaced, never written in place.
\<close>

section \<open>The marker\<close>

datatype transaction_state = Prepared | EvidenceWritten | Committed

fun state_name :: "transaction_state \<Rightarrow> string" where
  "state_name Prepared = ''prepared''"
| "state_name EvidenceWritten = ''evidence_written''"
| "state_name Committed = ''committed''"

record transaction_marker =
  tm_state :: transaction_state
  tm_append_offsets :: "(session_file \<times> nat) list"
  tm_replace_patterns :: bool
  tm_metadata_before :: ustr
  tm_patterns_before :: "ustr option"
  tm_expected_metadata :: "ustr option"

type_synonym 'a txn_io = "(transaction_marker, 'a) io"
type_synonym txn_disk = "transaction_marker session_disk"

definition append_files :: "session_file list" where
  "append_files = [UartRaw, UartEvents, OperationEvents, HardwareEvents, ConnectionEvents]"

fun opt_digest :: "ustr option \<Rightarrow> pyval" where
  "opt_digest None = PNone"
| "opt_digest (Some s) = PStr s"

definition marker_json :: "transaction_marker \<Rightarrow> pydict" where
  "marker_json m =
     [(lit ''schema_version'', PInt 1),
      (lit ''state'', PStr (lit (state_name (tm_state m)))),
      (lit ''append_offsets'',
         PDict (map (\<lambda>(f, n). (lit (file_name f), PInt (int n))) (tm_append_offsets m))),
      (lit ''replace_detected_patterns'', PBool (tm_replace_patterns m)),
      (lit ''metadata_before_sha256'', PStr (tm_metadata_before m)),
      (lit ''patterns_before_sha256'', opt_digest (tm_patterns_before m)),
      (lit ''expected_metadata_sha256'', opt_digest (tm_expected_metadata m))]"

definition valid_digest :: "ustr \<Rightarrow> bool" where
  "valid_digest s \<longleftrightarrow> length s = 64 \<and> (\<forall>c \<in> set s. 48 \<le> c \<and> c \<le> 57 \<or> 97 \<le> c \<and> c \<le> 102)"

definition required_digest :: "pydict \<Rightarrow> string \<Rightarrow> exc + ustr" where
  "required_digest m key =
     (case map_of m (lit key) of
        Some (PStr s) \<Rightarrow> if valid_digest s then Inr s else Inl (ValueError ''evidence transaction digest is invalid'')
      | _ \<Rightarrow> Inl (ValueError ''evidence transaction digest is invalid''))"

definition optional_digest :: "pydict \<Rightarrow> string \<Rightarrow> exc + ustr option" where
  "optional_digest m key =
     (case map_of m (lit key) of
        None \<Rightarrow> Inr None
      | Some PNone \<Rightarrow> Inr None
      | Some (PStr s) \<Rightarrow>
          if valid_digest s then Inr (Some s) else Inl (ValueError ''evidence transaction digest is invalid'')
      | Some _ \<Rightarrow> Inl (ValueError ''evidence transaction digest is invalid''))"

definition file_of_name :: "ustr \<Rightarrow> session_file option" where
  "file_of_name name = List.find (\<lambda>f. lit (file_name f) = name) append_files"

fun parse_offsets :: "pydict \<Rightarrow> exc + (session_file \<times> nat) list" where
  "parse_offsets [] = Inr []"
| "parse_offsets ((name, v) # rest) =
     (case (file_of_name name, v) of
        (Some f, PInt i) \<Rightarrow>
          if i < 0 then Inl (ValueError ''evidence transaction append offset is invalid'')
          else bind_r (parse_offsets rest) (\<lambda>offsets. Inr ((f, nat i) # offsets))
      | _ \<Rightarrow> Inl (ValueError ''evidence transaction append offset is invalid''))"

text \<open>A state that is a list or an object is not hashable, and the test for membership raises.\<close>

definition parse_state :: "pyval option \<Rightarrow> exc + transaction_state" where
  "parse_state v =
     (case v of
        Some (PList _) \<Rightarrow> Inl (TypeError ''unhashable'')
      | Some (PDict _) \<Rightarrow> Inl (TypeError ''unhashable'')
      | Some (PStr s) \<Rightarrow>
          (case List.find (\<lambda>t. lit (state_name t) = s) [Prepared, EvidenceWritten, Committed] of
             Some t \<Rightarrow> Inr t
           | None \<Rightarrow> Inl (ValueError ''evidence transaction state is invalid''))
      | _ \<Rightarrow> Inl (ValueError ''evidence transaction state is invalid''))"

definition marker_from_json :: "pydict \<Rightarrow> exc + transaction_marker" where
  "marker_from_json m =
     (if map_of m (lit ''schema_version'') \<notin> {Some (PInt 1), Some (PFloat (FFin 1))} then
        Inl (ValueError ''unsupported evidence transaction schema'')
      else
        bind_r (parse_state (map_of m (lit ''state''))) (\<lambda>state.
        case map_of m (lit ''append_offsets'') of
          Some (PDict raw_offsets) \<Rightarrow>
            bind_r (parse_offsets raw_offsets) (\<lambda>offsets.
            case map_of m (lit ''replace_detected_patterns'') of
              Some (PBool replace_patterns) \<Rightarrow>
                bind_r (required_digest m ''metadata_before_sha256'') (\<lambda>metadata_before.
                bind_r (optional_digest m ''patterns_before_sha256'') (\<lambda>patterns_before.
                bind_r (optional_digest m ''expected_metadata_sha256'') (\<lambda>expected_metadata.
                  if replace_patterns \<noteq> (patterns_before \<noteq> None) then
                    Inl (ValueError ''evidence transaction pattern preimage is inconsistent'')
                  else if state = Prepared \<and> expected_metadata \<noteq> None then
                    Inl (ValueError ''prepared evidence transaction has an expected metadata digest'')
                  else if state \<noteq> Prepared \<and> expected_metadata = None then
                    Inl (ValueError ''advanced evidence transaction lacks an expected metadata digest'')
                  else
                    Inr \<lparr>tm_state = state, tm_append_offsets = offsets,
                         tm_replace_patterns = replace_patterns, tm_metadata_before = metadata_before,
                         tm_patterns_before = patterns_before, tm_expected_metadata = expected_metadata\<rparr>)))
            | _ \<Rightarrow> Inl (ValueError ''evidence transaction pattern flag must be boolean''))
        | _ \<Rightarrow> Inl (ValueError ''evidence transaction append_offsets must be an object'')))"

section \<open>Operations\<close>

definition digest_file :: "(bytes \<Rightarrow> ustr) \<Rightarrow> session_file \<Rightarrow> ustr txn_io" where
  "digest_file digest f = bind_io (as_persistence ''digest'' (read_file f)) (\<lambda>b. return_io (digest b))"

definition sync_directory :: "unit txn_io" where
  "sync_directory = as_persistence ''sync transaction directory'' quiet_io"

definition cleanup :: "unit txn_io" where
  "cleanup =
     as_persistence ''clean transaction'' (
       bind_io (unlink_missing_ok MetadataBackup) (\<lambda>_.
       bind_io (unlink_missing_ok PatternsBackup) (\<lambda>_.
       bind_io unlink_marker (\<lambda>_. sync_directory))))"

definition restore_or_remove_orphan :: "session_file \<Rightarrow> session_file \<Rightarrow> unit txn_io" where
  "restore_or_remove_orphan target backup =
     bind_io (file_exists backup) (\<lambda>present.
       if \<not> present then return_io ()
       else bind_io (file_exists target) (\<lambda>target_present.
         if target_present then unlink_missing_ok backup else os_replace backup target))"

definition cleanup_orphan_backups :: "unit txn_io" where
  "cleanup_orphan_backups =
     bind_io (file_exists MetadataBackup) (\<lambda>m.
     bind_io (file_exists PatternsBackup) (\<lambda>p.
       if \<not> m \<and> \<not> p then return_io ()
       else
         as_persistence ''clean orphan transaction'' (
           bind_io (restore_or_remove_orphan Metadata MetadataBackup) (\<lambda>_.
           bind_io (restore_or_remove_orphan DetectedPatterns PatternsBackup) (\<lambda>_.
             sync_directory)))))"

definition truncate_to :: "session_file \<Rightarrow> nat \<Rightarrow> unit txn_io" where
  "truncate_to f offset =
     as_persistence ''restore append offset'' (
       bind_io (atomic_io (\<lambda>d.
         case sd_files d f of
           None \<Rightarrow> Inl (OSError ''open'')
         | Some b \<Rightarrow>
             if length b < offset then
               Inl (OSError ''transaction append target is shorter than its saved offset'')
             else Inr ((), d))) (\<lambda>_.
       bind_io (atomic_io (\<lambda>d. Inr ((), truncate_part f offset d))) (\<lambda>_. quiet_io)))"

definition restore_backup :: "(bytes \<Rightarrow> ustr) \<Rightarrow> session_file \<Rightarrow> session_file \<Rightarrow> ustr \<Rightarrow> unit txn_io" where
  "restore_backup digest target backup expected =
     bind_io (file_exists backup) (\<lambda>present.
       if present then as_persistence ''restore transaction preimage'' (os_replace backup target)
       else bind_io (digest_file digest target) (\<lambda>found.
         if found \<noteq> expected then raise_io (ValueError ''transaction preimage is unavailable'')
         else return_io ()))"

definition roll_back :: "(bytes \<Rightarrow> ustr) \<Rightarrow> transaction_marker \<Rightarrow> unit txn_io" where
  "roll_back digest m =
     bind_io (each_io (\<lambda>(f, offset). truncate_to f offset) (tm_append_offsets m)) (\<lambda>_.
     bind_io
       (if tm_replace_patterns m then
          (case tm_patterns_before m of
             None \<Rightarrow> raise_io (ValueError ''transaction patterns preimage digest is missing'')
           | Some before \<Rightarrow> restore_backup digest DetectedPatterns PatternsBackup before)
        else return_io ()) (\<lambda>_.
     bind_io (restore_backup digest Metadata MetadataBackup (tm_metadata_before m)) (\<lambda>_.
     bind_io sync_directory (\<lambda>_. cleanup))))"

definition metadata_matches_expected :: "(bytes \<Rightarrow> ustr) \<Rightarrow> transaction_marker \<Rightarrow> bool txn_io" where
  "metadata_matches_expected digest m =
     (case tm_expected_metadata m of
        None \<Rightarrow> return_io False
      | Some expected \<Rightarrow> bind_io (digest_file digest Metadata) (\<lambda>found. return_io (found = expected)))"

definition persistence_or_value_error :: "exc \<Rightarrow> bool" where
  "persistence_or_value_error e \<longleftrightarrow> is_persistence_error e \<or> is_value_error e"

definition unsafe :: "string \<Rightarrow> 'a txn_io \<Rightarrow> 'a txn_io" where
  "unsafe operation =
     catch_io persistence_or_value_error (\<lambda>_. raise_io (SessionPersistenceError operation False))"

datatype transaction_recovery = RecoveredCommitted | RolledBack

definition recover_transaction :: "(bytes \<Rightarrow> ustr) \<Rightarrow> transaction_recovery option txn_io" where
  "recover_transaction digest =
     bind_io (gets_io (\<lambda>d. sd_marker d \<noteq> None)) (\<lambda>present.
       if \<not> present then bind_io cleanup_orphan_backups (\<lambda>_. return_io None)
       else
         unsafe ''recover transaction'' (
           bind_io read_marker_object (\<lambda>v.
           bind_io (lift_io (marker_from_json v)) (\<lambda>m.
             if tm_state m = Committed then
               bind_io cleanup (\<lambda>_. return_io (Some RecoveredCommitted))
             else
               bind_io
                 (if tm_state m = EvidenceWritten then metadata_matches_expected digest m
                  else return_io False) (\<lambda>matches.
                 if matches then bind_io cleanup (\<lambda>_. return_io (Some RecoveredCommitted))
                 else bind_io (roll_back digest m) (\<lambda>_. return_io (Some RolledBack)))))))"

fun append_offsets :: "(session_file \<times> nat) list \<Rightarrow> session_file list \<Rightarrow> (session_file \<times> nat) list txn_io" where
  "append_offsets offsets [] = return_io offsets"
| "append_offsets offsets (f # fs) =
     (if f \<notin> set append_files then
        raise_io (ValueError ''transaction append target must be a session evidence file'')
      else if f \<in> set (dict_keys offsets) then append_offsets offsets fs
      else
        bind_io (as_persistence ''read append offset'' (bind_io (read_file f) (\<lambda>b. return_io (length b))))
          (\<lambda>n. append_offsets (offsets @ [(f, n)]) fs))"

definition link_and_mark :: "transaction_marker \<Rightarrow> unit txn_io" where
  "link_and_mark m =
     bind_io (os_link Metadata MetadataBackup) (\<lambda>_.
     bind_io (if tm_replace_patterns m then os_link DetectedPatterns PatternsBackup else return_io ()) (\<lambda>_.
     bind_io sync_directory (\<lambda>_. write_marker (PDict (marker_json m)))))"

definition give_up :: "exc \<Rightarrow> unit txn_io" where
  "give_up e =
     bind_io
       (catch_io is_persistence_error
          (\<lambda>_. raise_io (SessionPersistenceError ''prepare transaction'' False)) cleanup)
       (\<lambda>_. if is_persistence_error e then raise_io e
            else raise_io (SessionPersistenceError ''prepare transaction'' True))"

definition install_transaction :: "transaction_marker \<Rightarrow> unit txn_io" where
  "install_transaction m =
     bind_io (catch_io (\<lambda>e. is_os_error e \<or> is_persistence_error e) give_up (link_and_mark m))
       (\<lambda>_. modify_io (\<lambda>d. d\<lparr>sd_current := Some m\<rparr>))"

definition begin_transaction ::
  "(bytes \<Rightarrow> ustr) \<Rightarrow> session_file list \<Rightarrow> bool \<Rightarrow> unit txn_io" where
  "begin_transaction digest append_paths replace_patterns =
     bind_io (recover_transaction digest) (\<lambda>_.
     bind_io (append_offsets [] append_paths) (\<lambda>offsets.
     bind_io (digest_file digest Metadata) (\<lambda>metadata_before.
     bind_io (if replace_patterns then
                bind_io (digest_file digest DetectedPatterns) (\<lambda>p. return_io (Some p))
              else return_io None) (\<lambda>patterns_before.
       install_transaction
         \<lparr>tm_state = Prepared, tm_append_offsets = offsets, tm_replace_patterns = replace_patterns,
          tm_metadata_before = metadata_before, tm_patterns_before = patterns_before,
          tm_expected_metadata = None\<rparr>))))"

text \<open>The methods of the transaction object, which work on its current marker.\<close>

definition current_marker :: "transaction_marker txn_io" where
  "current_marker = gets_io (\<lambda>d. the (sd_current d))"

definition prepare_metadata :: "(bytes \<Rightarrow> ustr) \<Rightarrow> bytes \<Rightarrow> unit txn_io" where
  "prepare_metadata digest serialized =
     bind_io current_marker (\<lambda>m.
       let m' = m\<lparr>tm_state := EvidenceWritten, tm_expected_metadata := Some (digest serialized)\<rparr> in
       bind_io (modify_io (\<lambda>d. d\<lparr>sd_current := Some m'\<rparr>)) (\<lambda>_.
         write_marker (PDict (marker_json m'))))"

definition commit :: "unit txn_io" where
  "commit =
     bind_io current_marker (\<lambda>m.
       if tm_state m \<noteq> EvidenceWritten then
         raise_io (RuntimeError ''evidence transaction metadata was not prepared'')
       else
         bind_io
           (catch_io is_persistence_error
             (\<lambda>_. bind_io
                (catch_io is_persistence_error
                   (\<lambda>_. raise_io (SessionPersistenceError ''commit bookkeeping'' False)) cleanup)
                (\<lambda>_. return_io False))
             (bind_io (write_marker (PDict (marker_json (m\<lparr>tm_state := Committed\<rparr>)))) (\<lambda>_. return_io True)))
           (\<lambda>marked.
             if marked then catch_io is_persistence_error (\<lambda>_. return_io ()) cleanup else return_io ()))"

definition abort_transaction :: "(bytes \<Rightarrow> ustr) \<Rightarrow> unit txn_io" where
  "abort_transaction digest =
     bind_io current_marker (\<lambda>m. unsafe ''rollback'' (roll_back digest m))"

definition evidence_transaction ::
  "(bytes \<Rightarrow> ustr) \<Rightarrow> session_file list \<Rightarrow> bool \<Rightarrow> unit txn_io \<Rightarrow> unit txn_io" where
  "evidence_transaction digest append_paths replace_patterns body =
     bind_io (begin_transaction digest append_paths replace_patterns) (\<lambda>_.
     bind_io
       (catch_io (\<lambda>_. True) (\<lambda>e. bind_io (abort_transaction digest) (\<lambda>_. raise_io e)) body)
       (\<lambda>_. commit))"

text \<open>
  The commit unit of the session store. The new metadata is computed from the size of the evidence
  on disk, which it records, and the computation may fail.
\<close>

record evidence_unit =
  eu_appends :: "(session_file \<times> bytes) list"
  eu_patterns :: "bytes option"
  eu_metadata :: "nat \<Rightarrow> exc + bytes"

definition unit_body :: "(bytes \<Rightarrow> ustr) \<Rightarrow> evidence_unit \<Rightarrow> unit txn_io" where
  "unit_body digest u =
     bind_io (each_io (\<lambda>(f, data). append_serialized f data) (eu_appends u)) (\<lambda>_.
     bind_io (case eu_patterns u of
                None \<Rightarrow> return_io () | Some p \<Rightarrow> write_serialized DetectedPatterns p) (\<lambda>_.
     bind_io evidence_file_bytes (\<lambda>evidence_bytes.
     bind_io (lift_io (eu_metadata u evidence_bytes)) (\<lambda>metadata.
     bind_io (prepare_metadata digest metadata) (\<lambda>_.
       write_serialized Metadata metadata)))))"

definition commit_unit :: "(bytes \<Rightarrow> ustr) \<Rightarrow> evidence_unit \<Rightarrow> unit txn_io" where
  "commit_unit digest u =
     evidence_transaction digest (map fst (eu_appends u)) (eu_patterns u \<noteq> None) (unit_body digest u)"

end
