(* ===== verification/Transaction_Recovery.thy ===== *)
theory Transaction_Recovery
  imports Transactions
begin

text \<open>
  Crash safety of the evidence transactions (theory \<open>Transactions\<close>): what a crash can leave on disk,
  and that recovery turns it into the state before the unit or the state after it.
\<close>

section \<open>The marker survives its JSON form\<close>

definition marker_ok :: "transaction_marker \<Rightarrow> bool" where
  "marker_ok m \<longleftrightarrow>
     fst ` set (tm_append_offsets m) \<subseteq> set append_files
     \<and> valid_digest (tm_metadata_before m)
     \<and> (case tm_patterns_before m of None \<Rightarrow> \<not> tm_replace_patterns m
        | Some s \<Rightarrow> tm_replace_patterns m \<and> valid_digest s)
     \<and> (case tm_expected_metadata m of None \<Rightarrow> tm_state m = Prepared
        | Some s \<Rightarrow> tm_state m \<noteq> Prepared \<and> valid_digest s)"

lemma file_of_name [simp]: "f \<in> set append_files \<Longrightarrow> file_of_name (lit (file_name f)) = Some f"
  by (cases f) (simp_all add: file_of_name_def append_files_def)

lemma parse_offsets_json:
  "fst ` set offsets \<subseteq> set append_files \<Longrightarrow>
     parse_offsets (map (\<lambda>(f, n). (lit (file_name f), PInt (int n))) offsets) = Inr offsets"
  by (induction offsets) auto

lemma parse_state_name [simp]: "parse_state (Some (PStr (lit (state_name t)))) = Inr t"
  by (cases t) (simp_all add: parse_state_def)

lemma optional_digest_json:
  "map_of d (lit key) = Some (opt_digest v) \<Longrightarrow> (case v of None \<Rightarrow> True | Some s \<Rightarrow> valid_digest s)
     \<Longrightarrow> optional_digest d key = Inr v"
  by (cases v) (simp_all add: optional_digest_def)

lemma marker_json_roundtrip:
  assumes "marker_ok m"
  shows "marker_from_json (marker_json m) = Inr m"
proof -
  have d: "required_digest (marker_json m) ''metadata_before_sha256'' = Inr (tm_metadata_before m)"
    using assms by (simp add: required_digest_def marker_json_def marker_ok_def)
  have o1: "optional_digest (marker_json m) ''patterns_before_sha256'' = Inr (tm_patterns_before m)"
    by (rule optional_digest_json)
       (use assms in \<open>auto simp: marker_json_def marker_ok_def split: option.splits\<close>)
  have o2: "optional_digest (marker_json m) ''expected_metadata_sha256'' = Inr (tm_expected_metadata m)"
    by (rule optional_digest_json)
       (use assms in \<open>auto simp: marker_json_def marker_ok_def split: option.splits\<close>)
  have l: "map_of (marker_json m) (lit ''schema_version'') = Some (PInt 1)"
    "map_of (marker_json m) (lit ''state'') = Some (PStr (lit (state_name (tm_state m))))"
    "map_of (marker_json m) (lit ''append_offsets'') =
      Some (PDict (map (\<lambda>(f, n). (lit (file_name f), PInt (int n))) (tm_append_offsets m)))"
    "map_of (marker_json m) (lit ''replace_detected_patterns'') = Some (PBool (tm_replace_patterns m))"
    by (simp_all add: marker_json_def)
  have p: "parse_offsets (map (\<lambda>(f, n). (lit (file_name f), PInt (int n))) (tm_append_offsets m))
      = Inr (tm_append_offsets m)"
    using assms by (intro parse_offsets_json) (simp add: marker_ok_def)
  show ?thesis
    unfolding marker_from_json_def l d o1 o2
    using assms p by (cases m) (auto simp: marker_ok_def split: option.splits)
qed

section \<open>Disks that recovery handles\<close>

type_synonym file_state = "session_file \<Rightarrow> bytes option"

definition backup_files :: "session_file set" where
  "backup_files = {MetadataBackup, PatternsBackup}"

text \<open>The directory holds exactly the evidence \<open>f\<close> and no bookkeeping.\<close>

definition settled :: "file_state \<Rightarrow> txn_disk \<Rightarrow> bool" where
  "settled f d \<longleftrightarrow> sd_marker d = None \<and> sd_files d = f(MetadataBackup := None, PatternsBackup := None)"

text \<open>The marker of a unit that started from the evidence \<open>f\<close>.\<close>

definition marker_for :: "(bytes \<Rightarrow> ustr) \<Rightarrow> file_state \<Rightarrow> transaction_marker \<Rightarrow> bool" where
  "marker_for digest f m \<longleftrightarrow>
     marker_ok m \<and> tm_state m \<noteq> Committed
     \<and> f Metadata \<noteq> None \<and> tm_metadata_before m = digest (the (f Metadata))
     \<and> (tm_replace_patterns m \<longrightarrow>
          f DetectedPatterns \<noteq> None \<and> tm_patterns_before m = Some (digest (the (f DetectedPatterns))))
     \<and> tm_expected_metadata m \<noteq> Some (digest (the (f Metadata)))
     \<and> (\<forall>(g, n) \<in> set (tm_append_offsets m). \<exists>b. f g = Some b \<and> n = length b)"

text \<open>
  The evidence under way: appended files have grown, and the old patterns are in their backup. The
  metadata are looked at apart, because a failing rename can leave the new ones.
\<close>

definition evidence_core :: "file_state \<Rightarrow> transaction_marker \<Rightarrow> file_state \<Rightarrow> bool" where
  "evidence_core f m g \<longleftrightarrow>
     (\<forall>x. x \<notin> backup_files \<longrightarrow> x \<noteq> Metadata \<longrightarrow> x \<notin> fst ` set (tm_append_offsets m)
        \<longrightarrow> \<not> (tm_replace_patterns m \<and> x = DetectedPatterns) \<longrightarrow> g x = f x)
     \<and> (\<forall>x \<in> fst ` set (tm_append_offsets m). \<exists>b y. f x = Some b \<and> g x = Some (b @ y))
     \<and> (if tm_replace_patterns m then
          g PatternsBackup = f DetectedPatterns \<or> g PatternsBackup = None \<and> g DetectedPatterns = f DetectedPatterns
        else g PatternsBackup = None)"

definition old_metadata :: "file_state \<Rightarrow> file_state \<Rightarrow> bool" where
  "old_metadata f g \<longleftrightarrow>
     g Metadata = f Metadata \<and> (g MetadataBackup = None \<or> g MetadataBackup = f Metadata)"

definition orphaned :: "file_state \<Rightarrow> txn_disk \<Rightarrow> bool" where
  "orphaned f d \<longleftrightarrow>
     sd_marker d = None \<and> f Metadata \<noteq> None
     \<and> (\<forall>x. x \<notin> backup_files \<longrightarrow> sd_files d x = f x)
     \<and> (sd_files d MetadataBackup = None \<or> sd_files d MetadataBackup = f Metadata)
     \<and> (sd_files d PatternsBackup = None \<or> sd_files d PatternsBackup = f DetectedPatterns)"

definition undoable :: "(bytes \<Rightarrow> ustr) \<Rightarrow> file_state \<Rightarrow> txn_disk \<Rightarrow> bool" where
  "undoable digest f d \<longleftrightarrow>
     orphaned f d
     \<or> (\<exists>m. sd_marker d = Some (PDict (marker_json m)) \<and> marker_for digest f m
          \<and> evidence_core f m (sd_files d) \<and> old_metadata f (sd_files d))"

definition redoable :: "(bytes \<Rightarrow> ustr) \<Rightarrow> file_state \<Rightarrow> txn_disk \<Rightarrow> bool" where
  "redoable digest f d \<longleftrightarrow>
     f Metadata \<noteq> None \<and> (\<forall>x. x \<notin> backup_files \<longrightarrow> sd_files d x = f x)
     \<and> (case sd_marker d of
          None \<Rightarrow> sd_files d MetadataBackup = None \<and> sd_files d PatternsBackup = None
        | Some v \<Rightarrow> \<exists>m. v = PDict (marker_json m) \<and> marker_ok m
            \<and> (tm_state m = Committed
               \<or> tm_state m = EvidenceWritten
                 \<and> tm_expected_metadata m = Some (digest (the (f Metadata)))))"

text \<open>An exception needs a call that can fail.\<close>

definition faulty :: "(outcome \<Rightarrow> bool) \<Rightarrow> bool" where
  "faulty A \<longleftrightarrow> (\<exists>n. A (Fails n))"

lemma faultyI [simp, intro]: "A (Fails n) \<Longrightarrow> faulty A"
  by (auto simp: faulty_def)

section \<open>Cleaning up\<close>

fun cleanup_stage :: "nat \<Rightarrow> txn_disk \<Rightarrow> txn_disk" where
  "cleanup_stage 0 d = d"
| "cleanup_stage (Suc 0) d = put_file MetadataBackup None d"
| "cleanup_stage (Suc (Suc 0)) d = put_file PatternsBackup None (put_file MetadataBackup None d)"
| "cleanup_stage _ d = (put_file PatternsBackup None (put_file MetadataBackup None d))\<lparr>sd_marker := None\<rparr>"

lemma triple_cleanup:
  assumes Q: "Q () (cleanup_stage 3 d)"
    and E: "\<And>i n. i \<le> 3 \<Longrightarrow> A (Fails n) \<Longrightarrow> E (SessionPersistenceError ''clean transaction'' True) (cleanup_stage i d)"
    and E': "\<And>n. A (Fails n) \<Longrightarrow> E (SessionPersistenceError ''sync transaction directory'' True) (cleanup_stage 3 d)"
    and X: "\<And>i. i \<le> 3 \<Longrightarrow> X (cleanup_stage i d)"
  shows "triple A ((=) d) cleanup Q E X"
proof -
  let ?F = "\<lambda>e d'. is_os_error e \<and> (\<exists>i n. i \<le> 3 \<and> A (Fails n) \<and> d' = cleanup_stage i d)
    \<or> (\<exists>n. A (Fails n)) \<and> e = SessionPersistenceError ''sync transaction directory'' True \<and> d' = cleanup_stage 3 d"
  have stages: "cleanup_stage 2 d = put_file PatternsBackup None (put_file MetadataBackup None d)"
    "cleanup_stage 3 d = (cleanup_stage 2 d)\<lparr>sd_marker := None\<rparr>"
    by (simp_all add: numeral_2_eq_2 numeral_3_eq_3)
  have F: "\<exists>i \<le> 3. (\<exists>n. A (Fails n)) \<and> cleanup_stage j d = cleanup_stage i d" if "j \<le> 3" "A (Fails n)" for j n
    using that by blast
  have body: "triple A ((=) d)
      (bind_io (unlink_missing_ok MetadataBackup) (\<lambda>_.
       bind_io (unlink_missing_ok PatternsBackup) (\<lambda>_.
       bind_io unlink_marker (\<lambda>_. sync_directory)))) Q ?F X"
    unfolding unlink_missing_ok_def unlink_marker_def sync_directory_def
  proof (rule triple_bind [where R = "\<lambda>_. (=) (cleanup_stage 1 d)"], goal_cases)
    case 1
    show ?case by (rule triple_atomic) (use F [of 0] X [of 0] in auto)
  next
    case 2
    show ?case
    proof (rule triple_bind [where R = "\<lambda>_. (=) (cleanup_stage 2 d)"], goal_cases)
      case 1
      show ?case by (rule triple_atomic) (use F [of 1] X [of 1] stages in auto)
    next
      case 2
      show ?case
      proof (rule triple_bind [where R = "\<lambda>_. (=) (cleanup_stage 3 d)"], goal_cases)
        case 1
        show ?case by (rule triple_atomic) (use F [of 2] X [of 2] stages in auto)
      next
        case 2
        show ?case
          by (rule triple_persistence [where F = "\<lambda>d'. d' = cleanup_stage 3 d \<and> (\<exists>n. A (Fails n))"],
              rule triple_quiet) (use Q X [of 3] in auto)
      qed
    qed
  qed
  show ?thesis
    unfolding cleanup_def as_persistence_def
    by (rule triple_catch [OF body], rule triple_raise) (use E E' in auto)
qed


lemma stage_files: "i \<le> 3 \<Longrightarrow> x \<notin> backup_files \<Longrightarrow> sd_files (cleanup_stage i d) x = sd_files d x"
  by (cases "(i, d)" rule: cleanup_stage.cases) (auto simp: put_file_def backup_files_def)

lemma stage_backups:
  "i \<le> 3 \<Longrightarrow> x \<in> backup_files \<Longrightarrow> sd_files (cleanup_stage i d) x = None \<or> sd_files (cleanup_stage i d) x = sd_files d x"
  by (cases "(i, d)" rule: cleanup_stage.cases) (auto simp: put_file_def backup_files_def)

lemma stage_marker:
  "i \<le> 3 \<Longrightarrow> sd_marker (cleanup_stage i d) = sd_marker d
     \<or> sd_marker (cleanup_stage i d) = None \<and> sd_files (cleanup_stage i d) MetadataBackup = None
       \<and> sd_files (cleanup_stage i d) PatternsBackup = None"
  by (cases "(i, d)" rule: cleanup_stage.cases) (auto simp: put_file_def)

lemma stage_last:
  "(\<And>x. x \<notin> backup_files \<Longrightarrow> sd_files d x = f x) \<Longrightarrow> settled f (cleanup_stage 3 d)"
  by (auto simp: settled_def put_file_def numeral_3_eq_3 backup_files_def)

lemma redoable_stage: "redoable digest f d \<Longrightarrow> i \<le> 3 \<Longrightarrow> redoable digest f (cleanup_stage i d)"
  using stage_marker [of i d] stage_backups [of i MetadataBackup d] stage_backups [of i PatternsBackup d]
  by (auto simp: redoable_def stage_files backup_files_def split: option.splits)

lemma redoable_settled: "redoable digest f d \<Longrightarrow> settled f (cleanup_stage 3 d)"
  by (rule stage_last) (simp add: redoable_def)

lemma redo_cleanup:
  "triple A (redoable digest f) cleanup (\<lambda>_. settled f)
     (\<lambda>e d. is_persistence_error e \<and> faulty A \<and> redoable digest f d) (redoable digest f)"
  by (rule triple_fix, rule triple_cleanup)
     (auto intro: redoable_stage redoable_settled)

text \<open>A rolled back disk: the evidence is back, the backups and the marker may still be there.\<close>

definition rolled_back :: "(bytes \<Rightarrow> ustr) \<Rightarrow> file_state \<Rightarrow> txn_disk \<Rightarrow> bool" where
  "rolled_back digest f d \<longleftrightarrow>
     f Metadata \<noteq> None
     \<and> (\<forall>x. x \<notin> backup_files \<longrightarrow> sd_files d x = f x)
     \<and> (sd_files d MetadataBackup = None \<or> sd_files d MetadataBackup = f Metadata)
     \<and> (sd_files d PatternsBackup = None \<or> sd_files d PatternsBackup = f DetectedPatterns)
     \<and> (case sd_marker d of
          None \<Rightarrow> True
        | Some v \<Rightarrow> \<exists>m. v = PDict (marker_json m) \<and> marker_for digest f m
            \<and> (tm_replace_patterns m \<or> sd_files d PatternsBackup = None))"

lemma append_files_visible: "x \<in> set append_files \<Longrightarrow> x \<notin> backup_files \<and> x \<noteq> Metadata \<and> x \<noteq> DetectedPatterns"
  by (auto simp: append_files_def backup_files_def)

lemma marker_for_offset:
  "marker_for digest f m \<Longrightarrow> x \<in> fst ` set (tm_append_offsets m) \<Longrightarrow> x \<in> set append_files \<and> f x \<noteq> None"
  by (fastforce simp: marker_for_def marker_ok_def)

lemma rolled_back_undoable: "rolled_back digest f d \<Longrightarrow> undoable digest f d"
proof (cases "sd_marker d")
  case None
  then show "rolled_back digest f d \<Longrightarrow> undoable digest f d"
    by (simp add: rolled_back_def undoable_def orphaned_def)
next
  case (Some v)
  assume r: "rolled_back digest f d"
  with Some obtain m where m: "v = PDict (marker_json m)" "marker_for digest f m"
    "tm_replace_patterns m \<or> sd_files d PatternsBackup = None"
    by (auto simp: rolled_back_def)
  have "\<exists>b y. f x = Some b \<and> sd_files d x = Some (b @ y)" if "x \<in> fst ` set (tm_append_offsets m)" for x
    using marker_for_offset [OF m(2) that] append_files_visible [of x] r
    by (auto simp: rolled_back_def intro: exI [of _ "[]"])
  moreover have "DetectedPatterns \<notin> backup_files" by (simp add: backup_files_def)
  ultimately have "evidence_core f m (sd_files d)"
    using r m(3) unfolding evidence_core_def rolled_back_def by auto
  moreover have "old_metadata f (sd_files d)"
    using r by (auto simp: old_metadata_def rolled_back_def backup_files_def)
  ultimately show "undoable digest f d"
    using m Some unfolding undoable_def by auto
qed

lemma rolled_back_stage: "rolled_back digest f d \<Longrightarrow> i \<le> 3 \<Longrightarrow> rolled_back digest f (cleanup_stage i d)"
  using stage_marker [of i d] stage_backups [of i MetadataBackup d] stage_backups [of i PatternsBackup d]
  by (auto simp: rolled_back_def stage_files backup_files_def split: option.splits)

lemma rolled_back_settled: "rolled_back digest f d \<Longrightarrow> settled f (cleanup_stage 3 d)"
  by (rule stage_last) (simp add: rolled_back_def)

lemma undo_cleanup:
  "triple A (rolled_back digest f) cleanup (\<lambda>_. settled f)
     (\<lambda>e d. is_persistence_error e \<and> faulty A \<and> undoable digest f d) (undoable digest f)"
  by (rule triple_fix, rule triple_cleanup)
     (auto intro: rolled_back_undoable rolled_back_stage rolled_back_settled)

section \<open>Rolling back\<close>

text \<open>
  The disk during a rollback with marker \<open>m\<close>, the files \<open>restored\<close> already back. \<open>kept\<close> says whether
  the metadata are still the old ones; when they are not, their backup is there, but recovery after
  a crash is not safe.
\<close>

definition rolling ::
  "bool \<Rightarrow> (bytes \<Rightarrow> ustr) \<Rightarrow> file_state \<Rightarrow> transaction_marker \<Rightarrow> session_file set \<Rightarrow> txn_disk \<Rightarrow> bool" where
  "rolling kept digest f m restored d \<longleftrightarrow>
     (\<exists>m'. sd_marker d = Some (PDict (marker_json m')) \<and> marker_for digest f m'
        \<and> tm_append_offsets m' = tm_append_offsets m \<and> tm_replace_patterns m' = tm_replace_patterns m)
     \<and> marker_for digest f m \<and> evidence_core f m (sd_files d)
     \<and> (if kept then old_metadata f (sd_files d) else sd_files d MetadataBackup = f Metadata)
     \<and> (\<forall>x \<in> restored. sd_files d x = f x)"

definition stuck :: "bool \<Rightarrow> (bytes \<Rightarrow> ustr) \<Rightarrow> file_state \<Rightarrow> txn_disk \<Rightarrow> bool" where
  "stuck kept digest f d \<longleftrightarrow> (kept \<longrightarrow> undoable digest f d)"

lemma rolling_stuck: "rolling kept digest f m restored d \<Longrightarrow> stuck kept digest f d"
  by (fastforce simp: rolling_def undoable_def evidence_core_def stuck_def)

lemma truncate_offset:
  assumes "rolling kept digest f m restored d" and "(x, n) \<in> set (tm_append_offsets m)"
  shows "\<exists>b y. f x = Some b \<and> n = length b \<and> sd_files d x = Some (b @ y)"
    and "rolling kept digest f m (insert x restored) (truncate_part x n d)"
proof -
  from assms have "\<exists>b y. f x = Some b \<and> sd_files d x = Some (b @ y)"
    by (force simp: rolling_def evidence_core_def)
  moreover from assms have "\<exists>b. f x = Some b \<and> n = length b"
    by (force simp: rolling_def marker_for_def)
  ultimately show first: "\<exists>b y. f x = Some b \<and> n = length b \<and> sd_files d x = Some (b @ y)" by auto
  then have t: "sd_files (truncate_part x n d) = (sd_files d)(x := f x)"
    by (auto simp: truncate_part_def put_file_def)
  from assms have "x \<in> set append_files" by (force dest: marker_for_offset simp: rolling_def)
  then have x: "x \<notin> backup_files" "x \<noteq> DetectedPatterns" "x \<noteq> Metadata"
    by (auto dest: append_files_visible)
  have "sd_marker (truncate_part x n d) = sd_marker d" by (simp add: truncate_part_def put_file_def)
  moreover have "evidence_core f m ((sd_files d)(x := f x))"
    using assms first x unfolding rolling_def evidence_core_def backup_files_def
    by (auto intro: exI [of _ "[]"])
  moreover have "old_metadata f ((sd_files d)(x := f x)) = old_metadata f (sd_files d)"
    "((sd_files d)(x := f x)) MetadataBackup = sd_files d MetadataBackup"
    using x by (auto simp: old_metadata_def backup_files_def)
  ultimately show "rolling kept digest f m (insert x restored) (truncate_part x n d)"
    using assms(1) by (auto simp: rolling_def t)
qed

lemma truncate_step:
  assumes "(x, n) \<in> set (tm_append_offsets m)"
  shows "triple A (rolling kept digest f m restored) (truncate_to x n) (\<lambda>_. rolling kept digest f m (insert x restored))
    (\<lambda>e d. is_persistence_error e \<and> faulty A \<and> stuck kept digest f d) (stuck kept digest f)"
  unfolding truncate_to_def
proof (rule triple_persistence [where F = "\<lambda>d. faulty A \<and> stuck kept digest f d"], goal_cases)
  case 1
  show ?case
  proof (rule triple_bind [where R = "\<lambda>_. rolling kept digest f m restored"], goal_cases)
    case 1
    show ?case
      by (rule triple_atomic) (use truncate_offset(1) [OF _ assms] in \<open>fastforce dest: rolling_stuck\<close>)+
  next
    case 2
    show ?case
      by (rule triple_bind [where R = "\<lambda>_. rolling kept digest f m (insert x restored)"]; (rule triple_atomic triple_quiet)?)
         (auto dest: rolling_stuck intro: truncate_offset(2) [OF _ assms])
  qed
qed simp

lemma truncate_loop:
  "set offsets \<subseteq> set (tm_append_offsets m) \<Longrightarrow>
     triple A (rolling kept digest f m restored) (each_io (\<lambda>(x, n). truncate_to x n) offsets)
       (\<lambda>_. rolling kept digest f m (fst ` set offsets \<union> restored))
       (\<lambda>e d. is_persistence_error e \<and> faulty A \<and> stuck kept digest f d) (stuck kept digest f)"
proof (induction offsets arbitrary: restored)
  case Nil
  show ?case by (auto intro: triple_return)
next
  case (Cons entry offsets)
  obtain x n where entry: "entry = (x, n)" by fastforce
  show ?case
    unfolding entry each_io.simps prod.case
  proof (rule triple_bind)
    show "triple A (rolling kept digest f m restored) (truncate_to x n) (\<lambda>_. rolling kept digest f m (insert x restored))
      (\<lambda>e d. is_persistence_error e \<and> faulty A \<and> stuck kept digest f d) (stuck kept digest f)"
      using Cons.prems entry by (intro truncate_step) simp
  next
    fix a
    from Cons.prems have "set offsets \<subseteq> set (tm_append_offsets m)" by simp
    from Cons.IH [OF this, of "insert x restored"]
    show "triple A (rolling kept digest f m (insert x restored)) (each_io (\<lambda>(x, n). truncate_to x n) offsets)
       (\<lambda>_. rolling kept digest f m (fst ` set ((x, n) # offsets) \<union> restored))
       (\<lambda>e d. is_persistence_error e \<and> faulty A \<and> stuck kept digest f d) (stuck kept digest f)"
      by (simp add: Un_insert_right)
  qed
qed

text \<open>One preimage put back, from its backup or because it is still in place.\<close>

lemma restore_step:
  assumes "\<And>d. P d \<Longrightarrow> \<exists>b. g = Some b \<and> expected = digest b"
    and "\<And>d. P d \<Longrightarrow> sd_files d backup = g \<or> sd_files d backup = None \<and> sd_files d target = g"
    and "\<And>d. P d \<Longrightarrow> sd_files d backup = g \<Longrightarrow> R (put_file backup None (put_file target g d))"
    and "\<And>d. P d \<Longrightarrow> sd_files d backup = None \<Longrightarrow> R d"
    and "\<And>d. P d \<Longrightarrow> U d"
  shows "triple A P (restore_backup digest target backup expected) (\<lambda>_. R)
    (\<lambda>e d. is_persistence_error e \<and> faulty A \<and> U d) U"
  unfolding restore_backup_def file_exists_def
proof (rule triple_bind_gets)
  fix d
  assume P: "P d"
  from assms(1) [OF P] obtain b where b: "g = Some b" "expected = digest b" by blast
  show "triple A ((=) d)
     (if sd_files d backup \<noteq> None then as_persistence ''restore transaction preimage'' (os_replace backup target)
      else bind_io (digest_file digest target) (\<lambda>found.
         if found \<noteq> expected then raise_io (ValueError ''transaction preimage is unavailable'')
         else return_io ())) (\<lambda>_. R) (\<lambda>e d. is_persistence_error e \<and> faulty A \<and> U d) U"
  proof (cases "sd_files d backup = None")
    case False
    with assms(2) [OF P] have "sd_files d backup = g" by blast
    with False b assms(3) [OF P] assms(5) [OF P] show ?thesis
      by (auto simp: os_replace_def intro!: triple_persistence [where F = "\<lambda>d. faulty A \<and> U d"] triple_atomic)
  next
    case True
    with assms(2) [OF P] b have t: "sd_files d target = Some b" by auto
    have "triple A ((=) d) (digest_file digest target) (\<lambda>s d'. s = expected \<and> d' = d)
        (\<lambda>e d. is_persistence_error e \<and> faulty A \<and> U d) U"
      unfolding digest_file_def read_file_def
      by (rule triple_bind [where R = "\<lambda>s d'. s = b \<and> d' = d"],
          rule triple_persistence [where F = "\<lambda>d. faulty A \<and> U d"], rule triple_atomic)
         (use t b assms(5) [OF P] in \<open>auto intro!: triple_return\<close>)
    then show ?thesis
      using True assms(4) [OF P True]
      by (simp, intro triple_bind) (auto intro!: triple_return triple_raise)
  qed
qed

lemma rolling_patterns:
  assumes "rolling kept digest f m (fst ` set (tm_append_offsets m)) d" and "tm_replace_patterns m"
  shows "sd_files d PatternsBackup = f DetectedPatterns
      \<or> sd_files d PatternsBackup = None \<and> sd_files d DetectedPatterns = f DetectedPatterns"
    and "sd_files d PatternsBackup = f DetectedPatterns \<Longrightarrow>
      rolling kept digest f m (fst ` set (tm_append_offsets m) \<union> {DetectedPatterns})
        (put_file PatternsBackup None (put_file DetectedPatterns (f DetectedPatterns) d))"
    and "sd_files d PatternsBackup = None \<Longrightarrow>
      rolling kept digest f m (fst ` set (tm_append_offsets m) \<union> {DetectedPatterns}) d"
proof -
  from assms have nn: "f DetectedPatterns \<noteq> None" by (auto simp: rolling_def marker_for_def)
  from assms show one: "sd_files d PatternsBackup = f DetectedPatterns
      \<or> sd_files d PatternsBackup = None \<and> sd_files d DetectedPatterns = f DetectedPatterns"
    by (auto simp: rolling_def evidence_core_def)
  have vis: "x \<noteq> PatternsBackup \<and> x \<noteq> MetadataBackup \<and> x \<noteq> DetectedPatterns"
    if "x \<in> fst ` set (tm_append_offsets m)" for x
    using marker_for_offset [of digest f m x] that assms(1) append_files_visible [of x]
    by (auto simp: rolling_def backup_files_def)
  let ?g = "(sd_files d)(DetectedPatterns := f DetectedPatterns, PatternsBackup := None)"
  have g: "?g x = sd_files d x" if "x \<in> fst ` set (tm_append_offsets m)" for x
    using vis [OF that] by simp
  from assms have "evidence_core f m (sd_files d)" by (simp add: rolling_def)
  with assms(2) g have "evidence_core f m ?g"
    unfolding evidence_core_def backup_files_def by simp
  moreover have "old_metadata f ?g = old_metadata f (sd_files d)" by (simp add: old_metadata_def)
  ultimately show "rolling kept digest f m (fst ` set (tm_append_offsets m) \<union> {DetectedPatterns})
        (put_file PatternsBackup None (put_file DetectedPatterns (f DetectedPatterns) d))"
    using assms g unfolding rolling_def put_file_def by simp
  show "rolling kept digest f m (fst ` set (tm_append_offsets m) \<union> {DetectedPatterns}) d"
    if "sd_files d PatternsBackup = None"
    using assms one that nn by (auto simp: rolling_def)
qed

lemma rolling_no_patterns:
  assumes "rolling kept digest f m (fst ` set (tm_append_offsets m)) d" and "\<not> tm_replace_patterns m"
  shows "rolling kept digest f m (fst ` set (tm_append_offsets m) \<union> {DetectedPatterns}) d"
proof -
  from assms have "DetectedPatterns \<notin> fst ` set (tm_append_offsets m)"
    using marker_for_offset [of digest f m DetectedPatterns] append_files_visible [of DetectedPatterns]
    by (auto simp: rolling_def)
  with assms have "sd_files d DetectedPatterns = f DetectedPatterns"
    by (auto simp: rolling_def evidence_core_def backup_files_def)
  with assms(1) show ?thesis by (simp add: rolling_def)
qed

text \<open>All evidence is back; restoring the metadata makes the disk rolled back.\<close>

lemma rolling_metadata:
  assumes r: "rolling kept digest f m (fst ` set (tm_append_offsets m) \<union> {DetectedPatterns}) d"
  shows "\<exists>b. f Metadata = Some b \<and> tm_metadata_before m = digest b"
    and "sd_files d MetadataBackup = f Metadata
      \<or> sd_files d MetadataBackup = None \<and> sd_files d Metadata = f Metadata"
    and "rolled_back digest f (put_file MetadataBackup None (put_file Metadata (f Metadata) d))"
    and "sd_files d MetadataBackup = None \<Longrightarrow> rolled_back digest f d"
proof -
  have others: "sd_files d x = f x" if "x \<notin> backup_files" "x \<noteq> Metadata" for x
    using that r by (cases "x = DetectedPatterns") (auto simp: rolling_def evidence_core_def)
  from r show b: "\<exists>b. f Metadata = Some b \<and> tm_metadata_before m = digest b"
    by (auto simp: rolling_def marker_for_def)
  from r obtain m' where m': "sd_marker d = Some (PDict (marker_json m'))"
    "marker_for digest f m'" "tm_replace_patterns m' = tm_replace_patterns m"
    by (auto simp: rolling_def)
  from r have p: "if tm_replace_patterns m then sd_files d PatternsBackup = f DetectedPatterns \<or> sd_files d PatternsBackup = None
     else sd_files d PatternsBackup = None"
    by (auto simp: rolling_def evidence_core_def split: if_splits)
  from r show one: "sd_files d MetadataBackup = f Metadata
      \<or> sd_files d MetadataBackup = None \<and> sd_files d Metadata = f Metadata"
    by (auto simp: rolling_def old_metadata_def split: if_splits)
  show "rolled_back digest f (put_file MetadataBackup None (put_file Metadata (f Metadata) d))"
    using b m' p others unfolding rolled_back_def put_file_def
    by (auto simp: backup_files_def split: if_splits)
  show "rolled_back digest f d" if "sd_files d MetadataBackup = None"
  proof -
    from one that b have "sd_files d Metadata = f Metadata" by auto
    with others have "sd_files d x = f x" if "x \<notin> backup_files" for x
      using that by (cases "x = Metadata") auto
    then show ?thesis
      using b m' p that unfolding rolled_back_def by (auto split: if_splits)
  qed
qed

lemma rolled_back_stuck: "rolled_back digest f d \<Longrightarrow> stuck kept digest f d"
  by (simp add: stuck_def rolled_back_undoable)

lemma restore_patterns:
  "triple A (rolling kept digest f m (fst ` set (tm_append_offsets m)))
     (if tm_replace_patterns m then
        (case tm_patterns_before m of
           None \<Rightarrow> raise_io (ValueError ''transaction patterns preimage digest is missing'')
         | Some before \<Rightarrow> restore_backup digest DetectedPatterns PatternsBackup before)
      else return_io ())
     (\<lambda>_. rolling kept digest f m (fst ` set (tm_append_offsets m) \<union> {DetectedPatterns}))
     (\<lambda>e d. is_persistence_error e \<and> faulty A \<and> stuck kept digest f d) (stuck kept digest f)"
proof (cases "tm_replace_patterns m")
  case False
  with rolling_no_patterns show ?thesis
    by (simp only: if_False) (rule triple_return, blast)
next
  case True
  show ?thesis
  proof (cases "tm_patterns_before m")
    case None
    with True have "\<not> rolling kept digest f m R d" for R d
      by (auto simp: rolling_def marker_for_def)
    then show ?thesis by (auto simp: triple_def)
  next
    case (Some before)
    have "triple A (rolling kept digest f m (fst ` set (tm_append_offsets m)))
        (restore_backup digest DetectedPatterns PatternsBackup before)
        (\<lambda>_. rolling kept digest f m (fst ` set (tm_append_offsets m) \<union> {DetectedPatterns}))
        (\<lambda>e d. is_persistence_error e \<and> faulty A \<and> stuck kept digest f d) (stuck kept digest f)"
    proof (rule restore_step [where g = "f DetectedPatterns"])
      fix d
      assume d: "rolling kept digest f m (fst ` set (tm_append_offsets m)) d"
      then show "\<exists>b. f DetectedPatterns = Some b \<and> before = digest b"
        using True Some by (auto simp: rolling_def marker_for_def)
      show "sd_files d PatternsBackup = f DetectedPatterns
          \<or> sd_files d PatternsBackup = None \<and> sd_files d DetectedPatterns = f DetectedPatterns"
        by (rule rolling_patterns [OF d True])
      show "stuck kept digest f d" using d by (rule rolling_stuck)
    qed (use True in \<open>auto dest: rolling_patterns\<close>)
    with True Some show ?thesis by simp
  qed
qed

lemma restore_metadata:
  "triple A (rolling kept digest f m (fst ` set (tm_append_offsets m) \<union> {DetectedPatterns}))
     (restore_backup digest Metadata MetadataBackup (tm_metadata_before m)) (\<lambda>_. rolled_back digest f)
     (\<lambda>e d. is_persistence_error e \<and> faulty A \<and> stuck kept digest f d) (stuck kept digest f)"
  by (rule restore_step [where g = "f Metadata"])
     (blast dest: rolling_metadata rolling_stuck)+

lemma undo_roll_back:
  "triple A (rolling kept digest f m {}) (roll_back digest m) (\<lambda>_. settled f)
     (\<lambda>e d. is_persistence_error e \<and> faulty A \<and> stuck kept digest f d) (stuck kept digest f)"
  unfolding roll_back_def sync_directory_def
proof (rule triple_bind [where R = "\<lambda>_. rolling kept digest f m (fst ` set (tm_append_offsets m))"], goal_cases)
  case 1
  show ?case using truncate_loop [of "tm_append_offsets m" m A kept digest f "{}"] by simp
next
  case 2
  have cleaned: "triple A (rolled_back digest f) cleanup (\<lambda>_. settled f)
      (\<lambda>e d. is_persistence_error e \<and> faulty A \<and> stuck kept digest f d) (stuck kept digest f)"
    by (rule triple_conseq [OF undo_cleanup]) (auto simp: stuck_def)
  show ?case
    by (rule triple_bind [OF restore_patterns], rule triple_bind [OF restore_metadata],
        rule triple_bind [OF _ cleaned], rule triple_persistence [where F = "\<lambda>d. faulty A \<and> stuck kept digest f d"],
        rule triple_quiet) (auto dest: rolled_back_stuck)
qed

section \<open>Recovery\<close>

lemma unsafe_triple:
  assumes "triple A P c Q (\<lambda>e d. is_persistence_error e \<and> faulty A \<and> U d) X"
  shows "triple A P (unsafe operation c) Q (\<lambda>e d. is_persistence_error e \<and> faulty A \<and> U d) X"
  unfolding unsafe_def
  by (rule triple_catch [OF assms], rule triple_raise) (auto simp: persistence_or_value_error_def)

lemma orphan_step:
  assumes "backup = MetadataBackup \<and> target = Metadata \<or> backup = PatternsBackup \<and> target = DetectedPatterns"
    and "orphaned f d"
  shows "triple A ((=) d) (restore_or_remove_orphan target backup)
    (\<lambda>_ d'. d' = put_file backup None d \<and> orphaned f d') (\<lambda>e d. is_os_error e \<and> faulty A \<and> orphaned f d) (orphaned f)"
  unfolding restore_or_remove_orphan_def file_exists_def
proof (rule triple_bind_gets)
  fix d'
  assume d': "d = d'"
  have removed: "orphaned f (put_file backup None d)"
    using assms by (auto simp: orphaned_def put_file_def backup_files_def)
  have there: "sd_files d target \<noteq> None" if "sd_files d backup \<noteq> None"
    using assms that by (auto simp: orphaned_def backup_files_def)
  have idem: "put_file backup None d = d" if "sd_files d backup = None"
    using that by (simp add: put_file_def fun_upd_idem)
  show "triple A ((=) d')
     (if \<not> sd_files d' backup \<noteq> None then return_io ()
      else bind_io (gets_io (\<lambda>d. sd_files d target \<noteq> None)) (\<lambda>target_present.
        if target_present then unlink_missing_ok backup else os_replace backup target))
     (\<lambda>_ d'. d' = put_file backup None d \<and> orphaned f d') (\<lambda>e d. is_os_error e \<and> faulty A \<and> orphaned f d) (orphaned f)"
    using assms(2) removed there idem d'
    by (auto simp: unlink_missing_ok_def intro!: triple_return triple_bind_gets triple_atomic)
qed

lemma recover_orphans:
  "triple A (orphaned f) cleanup_orphan_backups (\<lambda>_. settled f)
     (\<lambda>e d. is_persistence_error e \<and> faulty A \<and> orphaned f d) (orphaned f)"
  unfolding cleanup_orphan_backups_def file_exists_def
proof (rule triple_bind_gets, rule triple_bind_gets)
  fix d d'
  assume d: "orphaned f d" and d': "d = d'"
  have settled: "settled f d" if "orphaned f d" "sd_files d MetadataBackup = None" "sd_files d PatternsBackup = None" for d
    using that by (auto simp: settled_def orphaned_def backup_files_def)
  let ?d1 = "put_file MetadataBackup None d"
  let ?d2 = "put_file PatternsBackup None ?d1"
  have "triple A ((=) d)
      (as_persistence ''clean orphan transaction'' (
         bind_io (restore_or_remove_orphan Metadata MetadataBackup) (\<lambda>_.
         bind_io (restore_or_remove_orphan DetectedPatterns PatternsBackup) (\<lambda>_. sync_directory))))
      (\<lambda>_. settled f) (\<lambda>e d. is_persistence_error e \<and> faulty A \<and> orphaned f d) (orphaned f)"
    unfolding as_persistence_def
  proof (rule triple_catch [where R = "\<lambda>e d. (is_os_error e \<or> is_persistence_error e) \<and> faulty A \<and> orphaned f d"], goal_cases)
    case 1
    show ?case
    proof (rule triple_bind [where R = "\<lambda>_ d'. d' = ?d1 \<and> orphaned f d'"], goal_cases)
      case 1
      show ?case by (rule triple_conseq [OF orphan_step [OF _ d]]) auto
    next
      case 2
      show ?case
      proof (rule triple_fix, elim conjE, hypsubst, rule triple_bind [where R = "\<lambda>_ d'. d' = ?d2 \<and> orphaned f d'"], goal_cases)
        case (1 d)
        then show ?case by (intro triple_conseq [OF orphan_step]) auto
      next
        case (2 d)
        show ?case
          unfolding sync_directory_def
          by (rule triple_persistence [where F = "\<lambda>d. faulty A \<and> orphaned f d"], rule triple_quiet)
             (auto intro!: settled simp: put_file_def)
      qed
    qed
  qed (auto intro!: triple_raise)
  then show "triple A ((=) d')
     (if \<not> sd_files d MetadataBackup \<noteq> None \<and> \<not> sd_files d' PatternsBackup \<noteq> None then return_io ()
      else as_persistence ''clean orphan transaction'' (
         bind_io (restore_or_remove_orphan Metadata MetadataBackup) (\<lambda>_.
         bind_io (restore_or_remove_orphan DetectedPatterns PatternsBackup) (\<lambda>_. sync_directory))))
     (\<lambda>_. settled f) (\<lambda>e d. is_persistence_error e \<and> faulty A \<and> orphaned f d) (orphaned f)"
    using d d' settled by (auto intro!: triple_return)
qed

lemma read_marker_triple:
  assumes "sd_marker d = Some (PDict v)" and "U d"
  shows "triple A ((=) d) read_marker_object (\<lambda>v' d'. v' = v \<and> d' = d)
    (\<lambda>e d. is_persistence_error e \<and> faulty A \<and> U d) U"
  unfolding read_marker_object_def
proof (rule triple_bind [where R = "\<lambda>v' d'. v' = PDict v \<and> d' = d"], goal_cases)
  case 1
  show ?case
    by (rule triple_persistence [where F = "\<lambda>d. faulty A \<and> U d"], rule triple_atomic) (use assms in auto)
next
  case (2 a)
  show ?case by (rule triple_conj) (auto intro!: triple_return)
qed

text \<open>Recovery with a marker on disk: reading it back, and the two ways on.\<close>

lemma recover_marked:
  assumes marker: "sd_marker d = Some (PDict (marker_json m))" and ok: "marker_ok m"
    and metadata: "sd_files d Metadata = Some b" and U: "U d"
    and forward: "tm_state m = Committed \<or> tm_state m = EvidenceWritten \<and> tm_expected_metadata m = Some (digest b)
      \<Longrightarrow> triple A ((=) d) cleanup (\<lambda>_. Q (Some RecoveredCommitted)) (\<lambda>e d. is_persistence_error e \<and> faulty A \<and> U d) U"
    and backward: "tm_state m \<noteq> Committed \<Longrightarrow> tm_expected_metadata m \<noteq> Some (digest b)
      \<Longrightarrow> triple A ((=) d) (roll_back digest m) (\<lambda>_. Q (Some RolledBack)) (\<lambda>e d. is_persistence_error e \<and> faulty A \<and> U d) U"
  shows "triple A ((=) d) (recover_transaction digest) Q (\<lambda>e d. is_persistence_error e \<and> faulty A \<and> U d) U"
proof -
  let ?E = "\<lambda>e d. is_persistence_error e \<and> faulty A \<and> U d"
  have matches: "triple A ((=) d)
      (if tm_state m = EvidenceWritten then metadata_matches_expected digest m else return_io False)
      (\<lambda>r d'. d' = d \<and> r = (tm_state m = EvidenceWritten \<and> tm_expected_metadata m = Some (digest b))) ?E U"
    unfolding metadata_matches_expected_def digest_file_def read_file_def
    using U metadata
    by (auto split: option.split intro!: triple_return triple_bind [where R = "\<lambda>s d'. s = digest b \<and> d' = d"]
        triple_bind [where R = "\<lambda>s d'. s = b \<and> d' = d"] triple_persistence [where F = "\<lambda>d. faulty A \<and> U d"] triple_atomic)
  have expected: "tm_state m \<noteq> EvidenceWritten \<Longrightarrow> tm_state m \<noteq> Committed \<Longrightarrow> tm_expected_metadata m = None"
    using ok by (cases "tm_state m") (auto simp: marker_ok_def split: option.splits)
  have decide: "triple A (\<lambda>d'. d' = d \<and> r = (tm_state m = EvidenceWritten \<and> tm_expected_metadata m = Some (digest b)))
     (if r then bind_io cleanup (\<lambda>_. return_io (Some RecoveredCommitted))
      else bind_io (roll_back digest m) (\<lambda>_. return_io (Some RolledBack))) Q ?E U"
    if "tm_state m \<noteq> Committed" for r
  proof (rule triple_fix, elim conjE, hypsubst)
    show "triple A ((=) d)
      (if tm_state m = EvidenceWritten \<and> tm_expected_metadata m = Some (digest b)
       then bind_io cleanup (\<lambda>_. return_io (Some RecoveredCommitted))
       else bind_io (roll_back digest m) (\<lambda>_. return_io (Some RolledBack))) Q ?E U"
      using that expected
      by (auto intro!: triple_bind [OF forward] triple_bind [OF backward] triple_return)
  qed
  have main: "triple A ((=) d)
      (bind_io (lift_io (marker_from_json (marker_json m))) (\<lambda>m.
             if tm_state m = Committed then
               bind_io cleanup (\<lambda>_. return_io (Some RecoveredCommitted))
             else
               bind_io
                 (if tm_state m = EvidenceWritten then metadata_matches_expected digest m
                  else return_io False) (\<lambda>matches.
                 if matches then bind_io cleanup (\<lambda>_. return_io (Some RecoveredCommitted))
                 else bind_io (roll_back digest m) (\<lambda>_. return_io (Some RolledBack))))) Q ?E U"
    unfolding marker_json_roundtrip [OF ok] lift_io_def sum.case
  proof (rule triple_bind [where R = "\<lambda>m' d'. m' = m \<and> d' = d"], goal_cases)
    case 1
    show ?case by (rule triple_return) simp
  next
    case (2 m')
    show ?case
    proof (rule triple_fix, elim conjE, hypsubst, cases "tm_state m = Committed")
      case True
      then show "triple A ((=) d)
        (if tm_state m = Committed then bind_io cleanup (\<lambda>_. return_io (Some RecoveredCommitted))
         else bind_io
                 (if tm_state m = EvidenceWritten then metadata_matches_expected digest m
                  else return_io False) (\<lambda>matches.
                 if matches then bind_io cleanup (\<lambda>_. return_io (Some RecoveredCommitted))
                 else bind_io (roll_back digest m) (\<lambda>_. return_io (Some RolledBack)))) Q ?E U"
        by (auto intro!: triple_bind [OF forward] triple_return)
    next
      case False
      from triple_bind [OF matches decide [OF False]] False
      show "triple A ((=) d)
        (if tm_state m = Committed then bind_io cleanup (\<lambda>_. return_io (Some RecoveredCommitted))
         else bind_io
                 (if tm_state m = EvidenceWritten then metadata_matches_expected digest m
                  else return_io False) (\<lambda>matches.
                 if matches then bind_io cleanup (\<lambda>_. return_io (Some RecoveredCommitted))
                 else bind_io (roll_back digest m) (\<lambda>_. return_io (Some RolledBack)))) Q ?E U"
        by simp
    qed
  qed
  show ?thesis
    unfolding recover_transaction_def
    by (rule triple_bind_gets, hypsubst, simp add: marker, rule unsafe_triple,
        rule triple_bind [OF read_marker_triple [where U = U, OF marker U]], rule triple_fix, elim conjE, hypsubst, rule main)
qed

lemma undo_recover:
  "triple A (undoable digest f) (recover_transaction digest)
     (\<lambda>r d. settled f d \<and> r \<noteq> Some RecoveredCommitted)
     (\<lambda>e d. is_persistence_error e \<and> faulty A \<and> undoable digest f d) (undoable digest f)"
proof (rule triple_fix)
  fix d
  assume d: "undoable digest f d"
  show "triple A ((=) d) (recover_transaction digest) (\<lambda>r d. settled f d \<and> r \<noteq> Some RecoveredCommitted)
     (\<lambda>e d. is_persistence_error e \<and> faulty A \<and> undoable digest f d) (undoable digest f)"
  proof (cases "sd_marker d")
    case None
    with d have o: "orphaned f d" by (auto simp: undoable_def)
    have "triple A ((=) d) (bind_io cleanup_orphan_backups (\<lambda>_. return_io None))
       (\<lambda>r d. settled f d \<and> r \<noteq> Some RecoveredCommitted)
       (\<lambda>e d. is_persistence_error e \<and> faulty A \<and> undoable digest f d) (undoable digest f)"
      by (rule triple_bind [where R = "\<lambda>_. settled f"], rule triple_conseq [OF recover_orphans])
         (use o in \<open>auto simp: undoable_def intro!: triple_return\<close>)
    with None show ?thesis
      unfolding recover_transaction_def by (auto intro!: triple_bind_gets)
  next
    case (Some v)
    with d obtain m where m: "sd_marker d = Some (PDict (marker_json m))" and mf: "marker_for digest f m"
      and e: "evidence_core f m (sd_files d)" "old_metadata f (sd_files d)"
      by (auto simp: undoable_def orphaned_def)
    from mf obtain b where b: "f Metadata = Some b" by (auto simp: marker_for_def)
    have "Metadata \<notin> fst ` set (tm_append_offsets m)"
      using marker_for_offset [OF mf, of Metadata] append_files_visible [of Metadata] by blast
    with e b have db: "sd_files d Metadata = Some b"
      by (auto simp: old_metadata_def backup_files_def)
    have ok: "marker_ok m" and ne: "tm_state m \<noteq> Committed" "tm_expected_metadata m \<noteq> Some (digest b)"
      using mf b by (auto simp: marker_for_def)
    have r: "rolling True digest f m {} d" using m mf e by (auto simp: rolling_def)
    show ?thesis
      by (rule recover_marked [where U = "undoable digest f", OF m ok db d]) (use ne r in \<open>auto simp: stuck_def intro!: triple_conseq [OF undo_roll_back [where kept = True]]\<close>)
  qed
qed

lemma redo_recover:
  "triple A (redoable digest f) (recover_transaction digest)
     (\<lambda>r d. settled f d \<and> r \<noteq> Some RolledBack)
     (\<lambda>e d. is_persistence_error e \<and> faulty A \<and> redoable digest f d) (redoable digest f)"
proof (rule triple_fix)
  fix d
  assume d: "redoable digest f d"
  show "triple A ((=) d) (recover_transaction digest) (\<lambda>r d. settled f d \<and> r \<noteq> Some RolledBack)
     (\<lambda>e d. is_persistence_error e \<and> faulty A \<and> redoable digest f d) (redoable digest f)"
  proof (cases "sd_marker d")
    case None
    with d have "sd_files d MetadataBackup = None" "sd_files d PatternsBackup = None" "settled f d"
      by (auto simp: redoable_def settled_def backup_files_def)
    with None show ?thesis
      unfolding recover_transaction_def cleanup_orphan_backups_def file_exists_def
      by (auto intro!: triple_bind_gets triple_return triple_bind [where R = "\<lambda>_. settled f"])
  next
    case (Some v)
    with d obtain m where m: "sd_marker d = Some (PDict (marker_json m))" and ok: "marker_ok m"
      and st: "tm_state m = Committed \<or> tm_state m = EvidenceWritten \<and> f Metadata \<noteq> None
                 \<and> tm_expected_metadata m = Some (digest (the (f Metadata)))"
      by (auto simp: redoable_def)
    from d obtain b where b: "f Metadata = Some b" "sd_files d Metadata = Some b"
      by (auto simp: redoable_def backup_files_def)
    with st have "tm_state m = Committed \<or> tm_state m = EvidenceWritten \<and> tm_expected_metadata m = Some (digest b)"
      by auto
    then show ?thesis
      by (intro recover_marked [where U = "redoable digest f", OF m ok b(2) d]) (use d in \<open>auto intro!: triple_conseq [OF redo_cleanup]\<close>)
  qed
qed

end
