(* ===== verification/Transaction_Atomicity.thy ===== *)
theory Transaction_Atomicity
  imports Transaction_Recovery
begin

text \<open>
  Atomicity of the commit unit (theory \<open>Transactions\<close>): the triples of beginning, running, aborting
  and committing a unit, and the properties that follow for every schedule of failures and crashes.
\<close>

section \<open>What a unit does to the evidence\<close>

fun grown :: "file_state \<Rightarrow> (session_file \<times> bytes) list \<Rightarrow> file_state" where
  "grown f [] = f"
| "grown f ((x, data) # rest) = grown (f(x := map_option (\<lambda>b. b @ data) (f x))) rest"

definition unit_evidence :: "file_state \<Rightarrow> evidence_unit \<Rightarrow> file_state" where
  "unit_evidence f u =
     (case eu_patterns u of
        None \<Rightarrow> grown f (eu_appends u)
      | Some p \<Rightarrow> (grown f (eu_appends u))(DetectedPatterns := Some p))"

definition evidence_size :: "file_state \<Rightarrow> nat" where
  "evidence_size f = sum_list (map (\<lambda>x. case f x of None \<Rightarrow> 0 | Some b \<Rightarrow> length b) evidence_files)"

definition unit_after :: "file_state \<Rightarrow> evidence_unit \<Rightarrow> exc + file_state" where
  "unit_after f u =
     bind_r (eu_metadata u (evidence_size (unit_evidence f u))) (\<lambda>metadata.
       Inr ((unit_evidence f u)(Metadata := Some metadata)))"

text \<open>A unit the session store would run on this evidence.\<close>

definition unit_ok :: "file_state \<Rightarrow> evidence_unit \<Rightarrow> bool" where
  "unit_ok f u \<longleftrightarrow>
     f MetadataBackup = None \<and> f PatternsBackup = None \<and> f Metadata \<noteq> None
     \<and> (\<forall>x \<in> fst ` set (eu_appends u). x \<in> set append_files \<and> f x \<noteq> None)
     \<and> (eu_patterns u \<noteq> None \<longrightarrow> f DetectedPatterns \<noteq> None)"

lemma grown_other: "x \<notin> fst ` set appends \<Longrightarrow> grown f appends x = f x"
  by (induction f appends rule: grown.induct) auto

lemma grown_snoc: "grown f (appends @ [(x, data)]) = (grown f appends)(x := map_option (\<lambda>b. b @ data) (grown f appends x))"
  by (induction f appends rule: grown.induct) (simp_all del: fun_upd_apply)

lemma grown_extends: "f x = Some b \<Longrightarrow> \<exists>y. grown f appends x = Some (b @ y)"
proof (induction f appends arbitrary: b rule: grown.induct)
  case (2 f z data rest)
  let ?g = "f(z := map_option (\<lambda>b. b @ data) (f z))"
  from 2(2) have "\<exists>y. ?g x = Some (b @ y)" by (cases "z = x") auto
  then obtain y where "?g x = Some (b @ y)" by blast
  from "2.IH" [OF this] show ?case by (auto simp del: fun_upd_apply)
qed simp

section \<open>Beginning\<close>

definition with_backups :: "bool \<Rightarrow> file_state \<Rightarrow> file_state \<Rightarrow> file_state" where
  "with_backups flag f g =
     g(MetadataBackup := f Metadata, PatternsBackup := if flag then f DetectedPatterns else None)"

definition begun ::
  "(bytes \<Rightarrow> ustr) \<Rightarrow> file_state \<Rightarrow> session_file list \<Rightarrow> bool \<Rightarrow> transaction_marker \<Rightarrow> file_state \<Rightarrow> txn_disk \<Rightarrow> bool" where
  "begun digest f paths flag m g d \<longleftrightarrow>
     marker_for digest f m \<and> fst ` set (tm_append_offsets m) = set paths \<and> tm_replace_patterns m = flag
     \<and> sd_current d = Some m \<and> sd_marker d = Some (PDict (marker_json m))
     \<and> sd_files d = with_backups flag f g"

fun unsafe_error :: "exc \<Rightarrow> bool" where
  "unsafe_error (SessionPersistenceError _ safe) = (\<not> safe)"
| "unsafe_error _ = False"

lemma settled_undoable: "settled f d \<Longrightarrow> f Metadata \<noteq> None \<Longrightarrow> undoable digest f d"
  by (auto simp: settled_def undoable_def orphaned_def backup_files_def)

lemma settled_redoable: "settled f d \<Longrightarrow> f Metadata \<noteq> None \<Longrightarrow> redoable digest f d"
  by (auto simp: settled_def redoable_def backup_files_def)

lemma append_offsets_triple:
  assumes "\<And>x. x \<in> set paths \<Longrightarrow> x \<in> set append_files \<and> (\<exists>b. f x = Some b)"
    and "sd_files d = f"
    and "\<forall>(g, n) \<in> set offsets. \<exists>b. f g = Some b \<and> n = length b"
    and "faulty A \<Longrightarrow> E (SessionPersistenceError ''read append offset'' True) d" and "X d"
  shows "triple A ((=) d) (append_offsets offsets paths)
    (\<lambda>r d'. d' = d \<and> fst ` set r = fst ` set offsets \<union> set paths
        \<and> (\<forall>(g, n) \<in> set r. \<exists>b. f g = Some b \<and> n = length b)) E X"
  using assms(1,3)
proof (induction paths arbitrary: offsets)
  case Nil
  then show ?case by (auto intro!: triple_return)
next
  case (Cons x paths)
  from Cons.prems(1) [of x] obtain b where x: "x \<in> set append_files" "f x = Some b" by auto
  show ?case
  proof (cases "x \<in> set (dict_keys offsets)")
    case True
    then have "fst ` set offsets \<union> set (x # paths) = fst ` set offsets \<union> set paths"
      by (auto simp: dict_keys_def)
    with True x Cons.IH [of offsets] Cons.prems show ?thesis by simp
  next
    case False
    have read: "triple A ((=) d)
        (as_persistence ''read append offset'' (bind_io (read_file x) (\<lambda>b. return_io (length b))))
        (\<lambda>n d'. n = length b \<and> d' = d) E X"
      unfolding read_file_def
      by (rule triple_persistence [where F = "\<lambda>d'. faulty A \<and> d' = d"],
          rule triple_bind [where R = "\<lambda>r d'. r = b \<and> d' = d"], rule triple_atomic)
         (use x assms(2,4,5) in \<open>auto intro!: triple_return\<close>)
    have rest: "triple A ((=) d) (append_offsets (offsets @ [(x, length b)]) paths)
      (\<lambda>r d'. d' = d \<and> fst ` set r = fst ` set (offsets @ [(x, length b)]) \<union> set paths
        \<and> (\<forall>(g, n) \<in> set r. \<exists>b. f g = Some b \<and> n = length b)) E X"
      using Cons.prems x by (intro Cons.IH) auto
    have "fst ` set (offsets @ [(x, length b)]) \<union> set paths = fst ` set offsets \<union> set (x # paths)"
      by auto
    with rest have rest': "triple A (\<lambda>d'. n = length b \<and> d' = d) (append_offsets (offsets @ [(x, n)]) paths)
      (\<lambda>r d'. d' = d \<and> fst ` set r = fst ` set offsets \<union> set (x # paths)
        \<and> (\<forall>(g, n) \<in> set r. \<exists>b. f g = Some b \<and> n = length b)) E X" for n
      by (intro triple_conj) (auto elim: triple_pre)
    show ?thesis
      using False x by (simp del: set_simps) (rule triple_bind [OF read rest'])
  qed
qed

lemma digest_triple:
  assumes "sd_files d x = Some b" and "faulty A \<Longrightarrow> E (SessionPersistenceError ''digest'' True) d" and "X d"
  shows "triple A ((=) d) (digest_file digest x) (\<lambda>r d'. d' = d \<and> r = digest b) E X"
  unfolding digest_file_def read_file_def
  by (rule triple_bind [where R = "\<lambda>r d'. r = b \<and> d' = d"],
      rule triple_persistence [where F = "\<lambda>d'. faulty A \<and> d' = d"], rule triple_atomic)
     (use assms in \<open>auto intro!: triple_return\<close>)

lemma recover_settled: "triple A (settled f) (recover_transaction digest) (\<lambda>_. settled f) E X"
proof -
  have "triple A (settled f) cleanup_orphan_backups (\<lambda>_. settled f) E X"
    unfolding cleanup_orphan_backups_def file_exists_def
    by (auto simp: settled_def intro!: triple_bind_gets triple_return)
  then show ?thesis
    unfolding recover_transaction_def
    by (intro triple_bind_gets)
       (auto simp: settled_def intro!: triple_bind [where R = "\<lambda>_. settled f"] triple_return elim: triple_pre)
qed

definition beginnable :: "file_state \<Rightarrow> session_file list \<Rightarrow> bool \<Rightarrow> bool" where
  "beginnable f paths flag \<longleftrightarrow>
     f MetadataBackup = None \<and> f PatternsBackup = None \<and> f Metadata \<noteq> None
     \<and> (\<forall>x \<in> set paths. x \<in> set append_files \<and> f x \<noteq> None) \<and> (flag \<longrightarrow> f DetectedPatterns \<noteq> None)"

lemma settled_eq: "beginnable f paths flag \<Longrightarrow> settled f d \<longleftrightarrow> sd_marker d = None \<and> sd_files d = f"
  by (auto simp: settled_def beginnable_def fun_upd_idem)

text \<open>Linking the backups and writing the marker, from the disk \<open>d\<close>.\<close>

definition begin_error :: "(outcome \<Rightarrow> bool) \<Rightarrow> (bytes \<Rightarrow> ustr) \<Rightarrow> file_state \<Rightarrow> exc \<Rightarrow> txn_disk \<Rightarrow> bool" where
  "begin_error A digest f e d \<longleftrightarrow>
     is_persistence_error e \<and> faulty A \<and> (settled f d \<or> unsafe_error e) \<and> undoable digest f d"

lemma link_triple:
  assumes b: "beginnable f paths (tm_replace_patterns m)" and d: "settled f d" and m: "marker_for digest f m"
    and d': "d' = d\<lparr>sd_files := with_backups (tm_replace_patterns m) f f, sd_marker := Some (PDict (marker_json m))\<rparr>"
  shows "triple A ((=) d) (link_and_mark m) (\<lambda>_. (=) d')
    (\<lambda>e d. (is_os_error e \<or> is_persistence_error e \<and> \<not> unsafe_error e) \<and> faulty A \<and> rolled_back digest f d) (undoable digest f)"
proof -
  let ?flag = "tm_replace_patterns m"
  let ?d1 = "put_file MetadataBackup (f Metadata) d"
  let ?d2 = "if ?flag then put_file PatternsBackup (f DetectedPatterns) ?d1 else ?d1"
  let ?E = "\<lambda>e d. (is_os_error e \<or> is_persistence_error e \<and> \<not> unsafe_error e) \<and> faulty A \<and> rolled_back digest f d"
  from b d have sd: "sd_marker d = None" "sd_files d = f" by (simp_all add: settled_eq)
  have r: "rolled_back digest f d" "rolled_back digest f ?d1" "rolled_back digest f ?d2" "rolled_back digest f d'"
    using b m sd by (auto simp: rolled_back_def beginnable_def put_file_def backup_files_def d' with_backups_def)
  note u = r [THEN rolled_back_undoable]
  have last: "?d2\<lparr>sd_marker := Some (PDict (marker_json m))\<rparr> = d'"
    using sd b by (auto simp: d' put_file_def with_backups_def beginnable_def fun_upd_idem)
  show ?thesis
    unfolding link_and_mark_def os_link_def sync_directory_def
  proof (rule triple_bind [where R = "\<lambda>_. (=) ?d1"], goal_cases)
    case 1
    show ?case by (rule triple_atomic) (use b sd r u in \<open>auto simp: beginnable_def\<close>)
  next
    case 2
    show ?case
    proof (rule triple_bind [where R = "\<lambda>_. (=) ?d2"], goal_cases)
      case 1
      show ?case
        using b sd r u
        by (auto simp: beginnable_def put_file_def intro!: triple_atomic triple_return split: if_splits)
    next
      case 2
      show ?case
        by (rule triple_bind [where R = "\<lambda>_. (=) ?d2"],
            rule triple_persistence [where F = "\<lambda>d. faulty A \<and> rolled_back digest f d"], rule triple_quiet)
           (use r u last in \<open>auto intro!: triple_write_marker\<close>)
    qed
  qed
qed

lemma give_up_triple:
  assumes "f Metadata \<noteq> None" and "\<not> unsafe_error e"
  shows "triple A (\<lambda>d. faulty A \<and> rolled_back digest f d) (give_up e) Q (begin_error A digest f) (undoable digest f)"
  unfolding give_up_def
proof (rule triple_conj, rule triple_bind [where R = "\<lambda>_. settled f"], rule triple_catch [OF undo_cleanup], goal_cases)
  case (1 e)
  show ?case by (rule triple_raise) (auto simp: begin_error_def)
next
  case (2 e)
  then show ?case by simp
next
  case (3 a)
  then show ?case using assms by (auto intro!: triple_raise settled_undoable simp: begin_error_def)
qed

lemma install_triple:
  assumes b: "beginnable f paths (tm_replace_patterns m)" and m: "marker_for digest f m"
    and p: "fst ` set (tm_append_offsets m) = set paths"
  shows "triple A (settled f) (install_transaction m)
    (\<lambda>_ d. begun digest f paths (tm_replace_patterns m) m f d) (begin_error A digest f) (undoable digest f)"
proof (rule triple_fix)
  fix d
  assume d: "settled f d"
  from b have nn: "f Metadata \<noteq> None" by (simp add: beginnable_def)
  let ?d' = "d\<lparr>sd_files := with_backups (tm_replace_patterns m) f f, sd_marker := Some (PDict (marker_json m))\<rparr>"
  have "triple A ((=) d) (catch_io (\<lambda>e. is_os_error e \<or> is_persistence_error e) give_up (link_and_mark m))
      (\<lambda>_. (=) ?d') (begin_error A digest f) (undoable digest f)"
  proof (rule triple_catch [OF link_triple [OF b d m refl]], goal_cases)
    case (1 e)
    show ?case
    proof (cases "unsafe_error e")
      case True
      with 1 have "\<not> (is_os_error e \<or> is_persistence_error e \<and> \<not> unsafe_error e)" by (cases e) auto
      then show ?thesis by (auto simp: triple_def)
    next
      case False
      show ?thesis
        by (rule triple_pre [OF give_up_triple [where f = f, OF nn False]]) blast
    qed
  qed blast
  then show "triple A ((=) d) (install_transaction m)
    (\<lambda>_ d. begun digest f paths (tm_replace_patterns m) m f d) (begin_error A digest f) (undoable digest f)"
    unfolding install_transaction_def
    by (rule triple_bind) (rule triple_modify, use m p in \<open>auto simp: begun_def\<close>)
qed

lemma begin_triple:
  assumes b: "beginnable f paths flag" and digest: "\<And>b. valid_digest (digest b)"
  shows "triple A (settled f) (begin_transaction digest paths flag)
    (\<lambda>_ d. \<exists>m. begun digest f paths flag m f d \<and> tm_state m = Prepared) (begin_error A digest f) (undoable digest f)"
  unfolding begin_transaction_def
proof (rule triple_bind [OF recover_settled], rule triple_fix)
  fix d
  assume d: "settled f d"
  from b obtain mb where mb: "f Metadata = Some mb" by (auto simp: beginnable_def)
  from b d have sd: "sd_files d = f" by (simp add: settled_eq)
  have und: "undoable digest f d" using d mb by (intro settled_undoable) simp_all
  have Ed: "begin_error A digest f (SessionPersistenceError x True) d" if "faulty A" for x
    using that und d by (simp add: begin_error_def)
  let ?patterns = "\<lambda>p. p = (if flag then Some (digest (the (f DetectedPatterns))) else None)"
  let ?offsets = "\<lambda>r. fst ` set r = set paths \<and> (\<forall>(g, n) \<in> set r. \<exists>b. f g = Some b \<and> n = length b)"
  have offsets: "triple A ((=) d) (append_offsets [] paths) (\<lambda>r d'. ?offsets r \<and> d' = d)
      (begin_error A digest f) (undoable digest f)"
    by (rule triple_conseq [OF append_offsets_triple [where f = f and offsets = "[]"
          and E = "begin_error A digest f" and X = "undoable digest f" and d = d]])
       (use b sd und Ed in \<open>auto simp: beginnable_def\<close>)
  have patterns: "triple A ((=) d)
      (if flag then bind_io (digest_file digest DetectedPatterns) (\<lambda>p. return_io (Some p)) else return_io None)
      (\<lambda>p d'. ?patterns p \<and> d' = d) (begin_error A digest f) (undoable digest f)"
    using b sd und Ed
    by (auto simp: beginnable_def intro!: triple_return triple_bind [OF digest_triple])
  have install: "triple A (\<lambda>d'. d' = d)
      (install_transaction \<lparr>tm_state = Prepared, tm_append_offsets = offs, tm_replace_patterns = flag,
          tm_metadata_before = digest mb, tm_patterns_before = p, tm_expected_metadata = None\<rparr>)
      (\<lambda>_ d. \<exists>m. begun digest f paths flag m f d \<and> tm_state m = Prepared) (begin_error A digest f) (undoable digest f)"
    (is "triple A _ (install_transaction ?m) _ _ _")
    if "?offsets offs" "?patterns p" for offs p
  proof -
    have "marker_for digest f ?m"
      using that b mb digest
      by (auto simp: marker_for_def marker_ok_def beginnable_def)
    with b that have "triple A (settled f) (install_transaction ?m) (\<lambda>_ d. begun digest f paths flag ?m f d)
        (begin_error A digest f) (undoable digest f)"
      using install_triple [of f paths ?m digest A] by simp
    then show ?thesis
      by (rule triple_conseq) (use d in auto)
  qed
  show "triple A ((=) d)
     (bind_io (append_offsets [] paths) (\<lambda>offsets.
     bind_io (digest_file digest Metadata) (\<lambda>metadata_before.
     bind_io (if flag then
                bind_io (digest_file digest DetectedPatterns) (\<lambda>p. return_io (Some p))
              else return_io None) (\<lambda>patterns_before.
       install_transaction
         \<lparr>tm_state = Prepared, tm_append_offsets = offsets, tm_replace_patterns = flag,
          tm_metadata_before = metadata_before, tm_patterns_before = patterns_before,
          tm_expected_metadata = None\<rparr>))))
     (\<lambda>_ d. \<exists>m. begun digest f paths flag m f d \<and> tm_state m = Prepared) (begin_error A digest f) (undoable digest f)"
  proof (rule triple_bind [OF offsets], rule triple_conj)
    fix offs
    assume offs: "?offsets offs"
    show "triple A (\<lambda>d'. d' = d)
     (bind_io (digest_file digest Metadata) (\<lambda>metadata_before.
     bind_io (if flag then
                bind_io (digest_file digest DetectedPatterns) (\<lambda>p. return_io (Some p))
              else return_io None) (\<lambda>patterns_before.
       install_transaction
         \<lparr>tm_state = Prepared, tm_append_offsets = offs, tm_replace_patterns = flag,
          tm_metadata_before = metadata_before, tm_patterns_before = patterns_before,
          tm_expected_metadata = None\<rparr>)))
     (\<lambda>_ d. \<exists>m. begun digest f paths flag m f d \<and> tm_state m = Prepared) (begin_error A digest f) (undoable digest f)"
    proof (rule triple_fix, hypsubst, rule triple_bind [where R = "\<lambda>r d'. r = digest mb \<and> d' = d"], goal_cases)
      case 1
      show ?case by (rule triple_conseq [OF digest_triple [where E = "begin_error A digest f"]]) (use sd mb und Ed in auto)
    next
      case (2 r)
      show ?case
        by (rule triple_conj, rule triple_fix, hypsubst, rule triple_bind [OF patterns], rule triple_conj)
           (use install [OF offs] in simp)
    qed
  qed
qed

section \<open>The body of a unit\<close>

definition unit_growth :: "file_state \<Rightarrow> session_file list \<Rightarrow> bool \<Rightarrow> file_state \<Rightarrow> bool" where
  "unit_growth f paths flag g \<longleftrightarrow>
     (\<forall>x. x \<notin> backup_files \<longrightarrow> x \<notin> set paths \<longrightarrow> \<not> (flag \<and> x = DetectedPatterns) \<longrightarrow> g x = f x)
     \<and> (\<forall>x \<in> set paths. \<exists>b y. f x = Some b \<and> g x = Some (b @ y))"

text \<open>A transaction that can still be rolled back.\<close>

definition live :: "bool \<Rightarrow> (bytes \<Rightarrow> ustr) \<Rightarrow> file_state \<Rightarrow> txn_disk \<Rightarrow> bool" where
  "live kept digest f d \<longleftrightarrow> (\<exists>m. sd_current d = Some m \<and> rolling kept digest f m {} d)"

lemma live_undoable: "live True digest f d \<Longrightarrow> undoable digest f d"
  using rolling_stuck [of True] by (auto simp: live_def stuck_def)

lemma begun_rolling:
  assumes b: "begun digest f paths flag m g d" and g: "unit_growth f paths flag g"
    and d': "sd_files d' = sd_files d" "sd_marker d' = sd_marker d"
    and m': "marker_for digest f m'" "tm_append_offsets m' = tm_append_offsets m" "tm_replace_patterns m' = tm_replace_patterns m"
  shows "rolling True digest f m' {} d'"
proof -
  from b have paths: "fst ` set (tm_append_offsets m) = set paths" and flag: "tm_replace_patterns m = flag"
    and files: "sd_files d = with_backups flag f g" and m: "marker_for digest f m"
    "sd_marker d = Some (PDict (marker_json m))"
    by (auto simp: begun_def)
  have vis: "x \<noteq> MetadataBackup \<and> x \<noteq> PatternsBackup \<and> x \<noteq> Metadata \<and> x \<noteq> DetectedPatterns" if "x \<in> set paths" for x
    using marker_for_offset [OF m(1)] append_files_visible [of x] that paths by (auto simp: backup_files_def)
  have "evidence_core f m' (with_backups flag f g)"
    using g vis flag paths m'
    by (auto simp: evidence_core_def with_backups_def unit_growth_def backup_files_def)
  moreover from vis have "Metadata \<notin> set paths" by blast
  with g have "old_metadata f (with_backups flag f g)"
    by (auto simp: old_metadata_def with_backups_def unit_growth_def backup_files_def)
  ultimately show ?thesis
    using m m' files d' by (auto simp: rolling_def)
qed

lemma begun_live:
  "begun digest f paths flag m g d \<Longrightarrow> unit_growth f paths flag g \<Longrightarrow> live True digest f d"
  unfolding live_def using begun_rolling [of digest f paths flag m g d d m] by (auto simp: begun_def)

lemma begun_paths:
  assumes "begun digest f paths flag m g d" and "x \<in> set paths"
  shows "x \<notin> backup_files" and "x \<noteq> Metadata" and "x \<noteq> DetectedPatterns"
  using assms marker_for_offset [of digest f m x] append_files_visible [of x] by (auto simp: begun_def)

lemma growth_append:
  "unit_growth f paths flag g \<Longrightarrow> x \<in> set paths \<Longrightarrow>
     unit_growth f paths flag (g(x := map_option (\<lambda>b. b @ y) (g x)))"
  unfolding unit_growth_def by (auto simp: append_assoc)

lemma begun_append:
  assumes b: "begun digest f paths flag m g d" and x: "x \<in> set paths"
  shows "begun digest f paths flag m (g(x := Some ((case g x of None \<Rightarrow> [] | Some b \<Rightarrow> b) @ y))) (append_part x y d)"
proof -
  from begun_paths [OF b x] have "x \<noteq> MetadataBackup" "x \<noteq> PatternsBackup" by (auto simp: backup_files_def)
  with b show ?thesis
    by (auto simp: begun_def append_part_def put_file_def with_backups_def)
qed

lemma append_step:
  assumes g: "unit_growth f paths flag g" and x: "x \<in> set paths"
  shows "triple A (begun digest f paths flag m g) (append_serialized x data)
    (\<lambda>_. begun digest f paths flag m (g(x := map_option (\<lambda>b. b @ data) (g x))))
    (\<lambda>_ d. faulty A \<and> live True digest f d) (undoable digest f)"
proof (rule triple_fix)
  fix d
  assume b: "begun digest f paths flag m g d"
  from g x obtain c where c: "g x = Some c" by (auto simp: unit_growth_def)
  from begun_paths [OF b x] b c have dx: "sd_files d x = Some c"
    by (auto simp: begun_def with_backups_def backup_files_def)
  have after: "begun digest f paths flag m (g(x := map_option (\<lambda>b. b @ y) (g x))) (append_part x y d)" for y
    using begun_append [OF b x, of y] c by simp
  note l = begun_live [OF after growth_append [OF g x]]
  show "triple A ((=) d) (append_serialized x data)
    (\<lambda>_. begun digest f paths flag m (g(x := map_option (\<lambda>b. b @ data) (g x))))
    (\<lambda>_ d. faulty A \<and> live True digest f d) (undoable digest f)"
    by (rule triple_append_serialized [OF dx]) (use after l live_undoable in blast)+
qed

lemma append_loop:
  "unit_growth f paths flag g \<Longrightarrow> fst ` set appends \<subseteq> set paths \<Longrightarrow>
     triple A (begun digest f paths flag m g) (each_io (\<lambda>(x, data). append_serialized x data) appends)
       (\<lambda>_. begun digest f paths flag m (grown g appends)) (\<lambda>_ d. faulty A \<and> live True digest f d) (undoable digest f)
     \<and> unit_growth f paths flag (grown g appends)"
proof (induction appends arbitrary: g)
  case Nil
  then show ?case by (auto intro: triple_return)
next
  case (Cons entry appends)
  obtain x data where entry: "entry = (x, data)" by fastforce
  from Cons.prems entry have x: "x \<in> set paths" by simp
  let ?g = "g(x := map_option (\<lambda>b. b @ data) (g x))"
  have rest: "fst ` set appends \<subseteq> set paths" using Cons.prems(2) by simp
  note IH0 = Cons.IH [OF growth_append [OF Cons.prems(1) x, of data] rest]
  have IH: "triple A (begun digest f paths flag m ?g) (each_io (\<lambda>(x, data). append_serialized x data) appends)
       (\<lambda>_. begun digest f paths flag m (grown ?g appends)) (\<lambda>_ d. faulty A \<and> live True digest f d) (undoable digest f)"
    "unit_growth f paths flag (grown ?g appends)" using IH0 by blast+
  have "triple A (begun digest f paths flag m g) (each_io (\<lambda>(x, data). append_serialized x data) (entry # appends))
       (\<lambda>_. begun digest f paths flag m (grown ?g appends)) (\<lambda>_ d. faulty A \<and> live True digest f d) (undoable digest f)"
    unfolding entry each_io.simps prod.case
    by (rule triple_bind [OF append_step [OF Cons.prems(1) x] IH(1)])
  with IH(2) show ?case by (simp add: entry del: fun_upd_apply)
qed

lemma pattern_step:
  assumes g: "unit_growth f paths True g" and b: "begun digest f paths True m g d"
  shows "begun digest f paths True m (g(DetectedPatterns := Some p)) (put_file DetectedPatterns (Some p) d)"
    and "unit_growth f paths True (g(DetectedPatterns := Some p))"
  using b g begun_paths(3) [OF b]
  by (auto simp: begun_def put_file_def with_backups_def unit_growth_def)

lemma write_patterns:
  assumes g: "unit_growth f paths flag g" and p: "p \<noteq> None \<longleftrightarrow> flag"
  shows "triple A (begun digest f paths flag m g)
    (case p of None \<Rightarrow> return_io () | Some b \<Rightarrow> write_serialized DetectedPatterns b)
    (\<lambda>_. begun digest f paths flag m (case p of None \<Rightarrow> g | Some b \<Rightarrow> g(DetectedPatterns := Some b)))
    (\<lambda>_ d. faulty A \<and> live True digest f d) (undoable digest f)"
proof (cases p)
  case None
  then show ?thesis by (auto intro!: triple_return)
next
  case (Some q)
  with p have flag: "flag = True" by auto
  show ?thesis
    unfolding Some option.case
  proof (rule triple_fix)
    fix d
    assume b: "begun digest f paths flag m g d"
    note after = pattern_step [OF g [unfolded flag] b [unfolded flag], of q]
    have "live True digest f d" "live True digest f (put_file DetectedPatterns (Some q) d)"
      using begun_live [OF b g] begun_live [OF after] by auto
    then show "triple A ((=) d) (write_serialized DetectedPatterns q)
      (\<lambda>_. begun digest f paths flag m (g(DetectedPatterns := Some q)))
      (\<lambda>_ d. faulty A \<and> live True digest f d) (undoable digest f)"
      using after(1) flag by (intro triple_write_serialized) (auto dest: live_undoable)
  qed
qed

lemma growth_patterns:
  "unit_growth f paths flag g \<Longrightarrow> p \<noteq> None \<longleftrightarrow> flag \<Longrightarrow> DetectedPatterns \<notin> set paths
     \<Longrightarrow> unit_growth f paths flag (case p of None \<Rightarrow> g | Some b \<Rightarrow> g(DetectedPatterns := Some b))"
  by (auto simp: unit_growth_def split: option.split)

lemma size_step:
  assumes g: "unit_growth f paths flag g"
  shows "triple A (begun digest f paths flag m g) evidence_file_bytes
    (\<lambda>n d. n = evidence_size g \<and> begun digest f paths flag m g d) (\<lambda>_ d. faulty A \<and> live True digest f d) (undoable digest f)"
proof -
  have "sum_list (map (\<lambda>x. case sd_files d x of None \<Rightarrow> 0 | Some b \<Rightarrow> length b) evidence_files) = evidence_size g"
    if "begun digest f paths flag m g d" for d
    using that by (simp add: begun_def with_backups_def evidence_size_def evidence_files_def)
  with begun_live [OF _ g] show ?thesis
    unfolding evidence_file_bytes_def
    by (intro triple_persistence [where F = "\<lambda>d. faulty A \<and> live True digest f d"] triple_atomic)
       (auto dest: live_undoable)
qed

text \<open>The marker on its way to the new metadata.\<close>

definition advanced :: "(bytes \<Rightarrow> ustr) \<Rightarrow> bytes \<Rightarrow> transaction_marker \<Rightarrow> transaction_marker" where
  "advanced digest metadata m =
     m\<lparr>tm_state := EvidenceWritten, tm_expected_metadata := Some (digest metadata)\<rparr>"

lemma advanced_for:
  assumes "marker_for digest f m" and "\<And>b. valid_digest (digest b)"
    and "digest metadata \<noteq> digest (the (f Metadata))"
  shows "marker_for digest f (advanced digest metadata m)"
    and "tm_append_offsets (advanced digest metadata m) = tm_append_offsets m"
    and "tm_replace_patterns (advanced digest metadata m) = tm_replace_patterns m"
    and "tm_state (advanced digest metadata m) = EvidenceWritten"
    and "tm_expected_metadata (advanced digest metadata m) = Some (digest metadata)"
  using assms by (auto simp: marker_for_def marker_ok_def advanced_def split: option.splits)

lemma prepare_step:
  assumes g: "unit_growth f paths flag g" and digest: "\<And>b. valid_digest (digest b)"
    and ne: "digest metadata \<noteq> digest (the (f Metadata))"
  shows "triple A (begun digest f paths flag m g) (prepare_metadata digest metadata)
    (\<lambda>_. begun digest f paths flag (advanced digest metadata m) g)
    (\<lambda>_ d. faulty A \<and> live True digest f d) (undoable digest f)"
  unfolding prepare_metadata_def current_marker_def Let_def
proof (rule triple_bind_gets, rule triple_bind_modify)
  fix d d'
  assume b: "begun digest f paths flag m g d" and "d = d'"
  then have c: "the (sd_current d) = m" and mf: "marker_for digest f m" by (auto simp: begun_def)
  note adv = advanced_for [OF mf digest ne]
  let ?m = "advanced digest metadata m"
  have r: "live True digest f (d\<lparr>sd_current := Some ?m\<rparr>)"
    unfolding live_def using begun_rolling [OF b g _ _ adv(1-3), of "d\<lparr>sd_current := Some ?m\<rparr>"] by simp
  have after: "begun digest f paths flag ?m g (d\<lparr>sd_current := Some ?m, sd_marker := Some (PDict (marker_json ?m))\<rparr>)"
    using b adv by (simp add: begun_def)
  have "triple A ((=) (d\<lparr>sd_current := Some ?m\<rparr>)) (write_marker (PDict (marker_json ?m)))
    (\<lambda>_. begun digest f paths flag ?m g) (\<lambda>_ d. faulty A \<and> live True digest f d) (undoable digest f)"
    by (rule triple_write_marker) (use after begun_live [OF after g] r live_undoable in simp_all)
  then show "triple A ((=) (d'\<lparr>sd_current := Some (the (sd_current d)\<lparr>tm_state := EvidenceWritten,
          tm_expected_metadata := Some (digest metadata)\<rparr>)\<rparr>))
     (write_marker (PDict (marker_json (the (sd_current d)
        \<lparr>tm_state := EvidenceWritten, tm_expected_metadata := Some (digest metadata)\<rparr>))))
    (\<lambda>_. begun digest f paths flag (advanced digest metadata m) g) (\<lambda>_ d. faulty A \<and> live True digest f d) (undoable digest f)"
    unfolding c \<open>d = d'\<close> [symmetric] advanced_def .
qed

text \<open>The metadata rename, after which a crash is recovered forward.\<close>

lemma begun_redoable:
  assumes b: "begun digest f paths flag m g d" and st: "tm_state m = EvidenceWritten"
    and e: "tm_expected_metadata m = Some (digest metadata)" and g: "g Metadata = Some metadata"
  shows "redoable digest g d"
  using assms by (auto simp: begun_def redoable_def with_backups_def backup_files_def marker_for_def)

lemma metadata_step:
  assumes g: "unit_growth f paths flag g" and st: "tm_state m = EvidenceWritten"
    and e: "tm_expected_metadata m = Some (digest metadata)"
  shows "triple A (begun digest f paths flag m g) (write_serialized Metadata metadata)
    (\<lambda>_ d. begun digest f paths flag m (g(Metadata := Some metadata)) d)
    (\<lambda>_ d. faulty A \<and> (live True digest f d \<or> live False digest f d))
    (\<lambda>d. undoable digest f d \<or> redoable digest (g(Metadata := Some metadata)) d)"
proof (rule triple_fix)
  fix d
  assume b: "begun digest f paths flag m g d"
  let ?d = "put_file Metadata (Some metadata) d"
  have l: "live True digest f d" by (rule begun_live [OF b g])
  have after: "begun digest f paths flag m (g(Metadata := Some metadata)) ?d"
    using b by (auto simp: begun_def put_file_def with_backups_def)
  have red: "redoable digest (g(Metadata := Some metadata)) ?d"
    by (rule begun_redoable [OF after st e]) simp
  have "rolling True digest f m {} d"
    using begun_rolling [OF b g, of d m] b by (auto simp: begun_def)
  then have "rolling False digest f m {} ?d"
    using b unfolding rolling_def evidence_core_def begun_def
    by (auto simp: put_file_def with_backups_def dest: marker_for_offset append_files_visible)
  then have "live False digest f ?d"
    using b by (auto simp: live_def begun_def put_file_def)
  with l after red show "triple A ((=) d) (write_serialized Metadata metadata)
    (\<lambda>_ d. begun digest f paths flag m (g(Metadata := Some metadata)) d)
    (\<lambda>_ d. faulty A \<and> (live True digest f d \<or> live False digest f d))
    (\<lambda>d. undoable digest f d \<or> redoable digest (g(Metadata := Some metadata)) d)"
    by (intro triple_write_serialized) (auto dest: live_undoable)
qed

section \<open>Aborting and committing\<close>

lemma abort_triple:
  "triple A (live kept digest f) (abort_transaction digest) (\<lambda>_. settled f)
     (\<lambda>e d. unsafe_error e \<and> faulty A \<and> stuck kept digest f d) (stuck kept digest f)"
  unfolding abort_transaction_def current_marker_def
proof (rule triple_bind_gets)
  fix d
  assume "live kept digest f d"
  then obtain m where m: "sd_current d = Some m" "rolling kept digest f m {} d" by (auto simp: live_def)
  show "triple A ((=) d) (unsafe ''rollback'' (roll_back digest (the (sd_current d)))) (\<lambda>_. settled f)
     (\<lambda>e d. unsafe_error e \<and> faulty A \<and> stuck kept digest f d) (stuck kept digest f)"
    unfolding unsafe_def m option.sel
    by (rule triple_catch [OF triple_pre [OF undo_roll_back [where kept = kept and f = f]]])
       (use m in \<open>auto simp: persistence_or_value_error_def intro!: triple_raise\<close>)
qed

lemma commit_triple:
  "triple A (\<lambda>d. \<exists>m. begun digest f paths flag m g d \<and> tm_state m = EvidenceWritten \<and> g Metadata = Some metadata
        \<and> tm_expected_metadata m = Some (digest metadata)) commit (\<lambda>_. redoable digest g)
     (\<lambda>e d. unsafe_error e \<and> faulty A \<and> redoable digest g d) (redoable digest g)"
  unfolding commit_def current_marker_def
proof (rule triple_bind_gets, elim exE conjE)
  fix d m
  assume b: "begun digest f paths flag m g d" and st: "tm_state m = EvidenceWritten"
    and g: "g Metadata = Some metadata" and e: "tm_expected_metadata m = Some (digest metadata)"
  let ?E = "\<lambda>e d. unsafe_error e \<and> faulty A \<and> redoable digest g d"
  from b have c: "the (sd_current d) = m" by (simp add: begun_def)
  have red: "redoable digest g d" by (rule begun_redoable [OF b st e g])
  have red': "redoable digest g (d\<lparr>sd_marker := Some (PDict (marker_json (m\<lparr>tm_state := Committed\<rparr>)))\<rparr>)"
  proof -
    have "marker_ok (m\<lparr>tm_state := Committed\<rparr>)"
      using b e by (auto simp: begun_def marker_for_def marker_ok_def split: option.splits)
    with red show ?thesis by (auto simp: redoable_def intro!: exI [of _ "m\<lparr>tm_state := Committed\<rparr>"])
  qed
  have settled: "redoable digest g d" if "settled g d" for d
    using that g by (intro settled_redoable) simp_all
  have mark: "triple A ((=) d) (bind_io (write_marker (PDict (marker_json (m\<lparr>tm_state := Committed\<rparr>)))) (\<lambda>_. return_io True))
      (\<lambda>_. redoable digest g) (\<lambda>e d. is_persistence_error e \<and> faulty A \<and> redoable digest g d) (redoable digest g)"
    by (rule triple_bind [where R = "\<lambda>_. redoable digest g"], rule triple_write_marker)
       (use red red' in \<open>auto intro!: triple_return\<close>)
  have clean: "triple A (redoable digest g) cleanup (\<lambda>_. redoable digest g)
      (\<lambda>e d. is_persistence_error e \<and> faulty A \<and> redoable digest g d) (redoable digest g)"
    by (rule triple_conseq [OF redo_cleanup]) (use settled in auto)
  have salvage: "triple A (redoable digest g)
      (bind_io (catch_io is_persistence_error
          (\<lambda>_. raise_io (SessionPersistenceError ''commit bookkeeping'' False)) cleanup) (\<lambda>_. return_io False))
      (\<lambda>_. redoable digest g) ?E (redoable digest g)"
    by (rule triple_bind [where R = "\<lambda>_. redoable digest g"],
        rule triple_catch [OF clean])
       (auto intro!: triple_raise triple_return)
  have finish: "triple A (redoable digest g)
      (if marked then catch_io is_persistence_error (\<lambda>_. return_io ()) cleanup else return_io ())
      (\<lambda>_. redoable digest g) ?E (redoable digest g)" for marked
    by (cases marked)
       (auto intro!: triple_return triple_catch [OF clean])
  show "triple A ((=) d)
     (if tm_state (the (sd_current d)) \<noteq> EvidenceWritten then
         raise_io (RuntimeError ''evidence transaction metadata was not prepared'')
       else
         bind_io
           (catch_io is_persistence_error
             (\<lambda>_. bind_io
                (catch_io is_persistence_error
                   (\<lambda>_. raise_io (SessionPersistenceError ''commit bookkeeping'' False)) cleanup)
                (\<lambda>_. return_io False))
             (bind_io (write_marker (PDict (marker_json (the (sd_current d)\<lparr>tm_state := Committed\<rparr>))))
                (\<lambda>_. return_io True)))
           (\<lambda>marked.
             if marked then catch_io is_persistence_error (\<lambda>_. return_io ()) cleanup else return_io ()))
     (\<lambda>_. redoable digest g) ?E (redoable digest g)"
    unfolding c
    by (simp only: st simp_thms if_False, rule triple_bind [OF _ finish], rule triple_catch [OF mark])
       (auto intro: triple_pre [OF salvage])
qed

section \<open>The unit as a whole\<close>

lemma unit_beginnable: "unit_ok f u \<Longrightarrow> beginnable f (map fst (eu_appends u)) (eu_patterns u \<noteq> None)"
  by (auto simp: unit_ok_def beginnable_def)

definition changes_digest :: "(bytes \<Rightarrow> ustr) \<Rightarrow> file_state \<Rightarrow> evidence_unit \<Rightarrow> bool" where
  "changes_digest digest f u \<longleftrightarrow>
     (\<forall>metadata. eu_metadata u (evidence_size (unit_evidence f u)) = Inr metadata
        \<longrightarrow> digest metadata \<noteq> digest (the (f Metadata)))"

lemma body_triple:
  assumes u: "unit_ok f u" and digest: "\<And>b. valid_digest (digest b)" and ne: "changes_digest digest f u"
  shows "triple A (\<lambda>d. \<exists>m. begun digest f (map fst (eu_appends u)) (eu_patterns u \<noteq> None) m f d \<and> tm_state m = Prepared)
    (unit_body digest u)
    (\<lambda>_ d. \<exists>g metadata m. unit_after f u = Inr g \<and> begun digest f (map fst (eu_appends u)) (eu_patterns u \<noteq> None) m g d
       \<and> tm_state m = EvidenceWritten \<and> g Metadata = Some metadata \<and> tm_expected_metadata m = Some (digest metadata))
    (\<lambda>_ d. (faulty A \<or> (\<exists>e. unit_after f u = Inl e)) \<and> live True digest f d
       \<or> faulty A \<and> live False digest f d)
    (\<lambda>d. undoable digest f d \<or> (\<exists>g. unit_after f u = Inr g \<and> redoable digest g d))"
    (is "triple A _ _ ?Q ?E ?X")
proof (rule triple_fix, elim exE conjE)
  fix d m
  let ?paths = "map fst (eu_appends u)" and ?flag = "eu_patterns u \<noteq> None"
  let ?g = "unit_evidence f u"
  assume b: "begun digest f ?paths ?flag m f d"
  have g0: "unit_growth f ?paths ?flag f"
    using u by (auto simp: unit_growth_def unit_ok_def intro: exI [of _ "[]"])
  have paths: "fst ` set (eu_appends u) \<subseteq> set ?paths" by simp
  note loop = append_loop [OF g0 paths, of A digest m]
  from loop have g1: "unit_growth f ?paths ?flag (grown f (eu_appends u))" by blast
  have "DetectedPatterns \<notin> set ?paths" using begun_paths(3) [OF b] by blast
  from growth_patterns [OF g1 refl this] have g2: "unit_growth f ?paths ?flag ?g"
    by (simp add: unit_evidence_def)
  have early: "triple A P c Q ?E ?X" if "triple A P c Q (\<lambda>_ d. faulty A \<and> live True digest f d) (undoable digest f)" for P c Q
    by (rule triple_conseq [OF that]) auto
  have mf: "marker_for digest f m" using b by (simp add: begun_def)
  have writing: "triple A (begun digest f ?paths ?flag m ?g)
      (bind_io (prepare_metadata digest metadata) (\<lambda>_. write_serialized Metadata metadata)) ?Q ?E ?X"
    if md: "eu_metadata u (evidence_size ?g) = Inr metadata" for metadata
  proof -
    have n: "digest metadata \<noteq> digest (the (f Metadata))" using ne md by (simp add: changes_digest_def)
    note adv = advanced_for [OF mf digest n]
    have after: "unit_after f u = Inr (?g(Metadata := Some metadata))" by (simp add: unit_after_def md)
    show ?thesis
      by (rule triple_bind [OF early [OF prepare_step [OF g2 digest n]]],
          rule triple_conseq [OF metadata_step [where digest = digest, OF g2 adv(4) adv(5)]])
         (use after adv in auto)
  qed
  have lifted: "triple A (\<lambda>d. n = evidence_size ?g \<and> begun digest f ?paths ?flag m ?g d)
     (bind_io (lift_io (eu_metadata u n)) (\<lambda>metadata.
        bind_io (prepare_metadata digest metadata) (\<lambda>_. write_serialized Metadata metadata))) ?Q ?E ?X" for n
  proof (rule triple_conj, hypsubst)
    show "triple A (begun digest f ?paths ?flag m ?g)
      (bind_io (lift_io (eu_metadata u (evidence_size ?g))) (\<lambda>metadata.
        bind_io (prepare_metadata digest metadata) (\<lambda>_. write_serialized Metadata metadata))) ?Q ?E ?X"
    proof (cases "eu_metadata u (evidence_size ?g)")
      case (Inl e)
      then show ?thesis
        unfolding lift_io_def
        by (auto intro!: triple_bind [where R = "\<lambda>_ _. False"] triple_raise begun_live [OF _ g2] simp: triple_def [of _ "\<lambda>_. False"] unit_after_def)
    next
      case (Inr metadata)
      show ?thesis
        unfolding lift_io_def Inr sum.case
        by (rule triple_bind [where R = "\<lambda>r d. r = metadata \<and> begun digest f ?paths ?flag m ?g d"],
            (rule triple_return, simp), rule triple_conj, hypsubst, rule writing [OF Inr])
    qed
  qed
  show "triple A ((=) d) (unit_body digest u) ?Q ?E ?X"
    unfolding unit_body_def
    by (rule triple_pre [where P = "begun digest f ?paths ?flag m f"],
        rule triple_bind [OF early [OF conjunct1 [OF loop]]],
        rule triple_bind [OF early [OF write_patterns [OF g1 refl]]],
        rule triple_bind [OF early [OF size_step]])
       (use b g2 lifted in \<open>simp_all add: unit_evidence_def\<close>)
qed


text \<open>How a unit can end, under any schedule.\<close>

definition unit_done :: "(bytes \<Rightarrow> ustr) \<Rightarrow> file_state \<Rightarrow> evidence_unit \<Rightarrow> txn_disk \<Rightarrow> bool" where
  "unit_done digest f u d \<longleftrightarrow> (\<exists>g. unit_after f u = Inr g \<and> redoable digest g d)"

definition unit_failed ::
  "(outcome \<Rightarrow> bool) \<Rightarrow> file_state \<Rightarrow> evidence_unit \<Rightarrow> exc \<Rightarrow> txn_disk \<Rightarrow> bool" where
  "unit_failed A f u e d \<longleftrightarrow>
     settled f d \<and> (faulty A \<or> (\<exists>e. unit_after f u = Inl e)) \<or> unsafe_error e \<and> faulty A"

lemma unit_triple:
  assumes u: "unit_ok f u" and digest: "\<And>b. valid_digest (digest b)" and ne: "changes_digest digest f u"
  shows "triple A (settled f) (commit_unit digest u) (\<lambda>_. unit_done digest f u) (unit_failed A f u)
    (\<lambda>d. undoable digest f d \<or> unit_done digest f u d \<or> faulty A)"
    (is "triple A _ _ _ ?E ?X")
proof -
  let ?paths = "map fst (eu_appends u)" and ?flag = "eu_patterns u \<noteq> None"
  have start: "triple A (settled f) (begin_transaction digest ?paths ?flag)
      (\<lambda>_ d. \<exists>m. begun digest f ?paths ?flag m f d \<and> tm_state m = Prepared) ?E ?X"
    by (rule triple_conseq [OF begin_triple [OF unit_beginnable [OF u] digest]])
       (auto simp: begin_error_def unit_failed_def)
  have abort: "triple A (live kept digest f) (bind_io (abort_transaction digest) (\<lambda>_. raise_io e)) Q ?E ?X"
    if "(kept \<and> (\<exists>e. unit_after f u = Inl e)) \<or> faulty A" for kept e Q
    by (rule triple_bind [where R = "\<lambda>_. settled f"], rule triple_conseq [OF abort_triple])
       (use that in \<open>auto simp: unit_failed_def stuck_def intro!: triple_raise\<close>)
  have aborted: "triple A (\<lambda>d. (faulty A \<or> (\<exists>e. unit_after f u = Inl e)) \<and> live True digest f d
       \<or> faulty A \<and> live False digest f d) (bind_io (abort_transaction digest) (\<lambda>_. raise_io e)) Q ?E ?X" for e Q
  proof (rule triple_fix, elim disjE)
    fix d
    assume d: "(faulty A \<or> (\<exists>e. unit_after f u = Inl e)) \<and> live True digest f d"
    then show "triple A ((=) d) (bind_io (abort_transaction digest) (\<lambda>_. raise_io e)) Q ?E ?X"
      by (intro triple_pre [OF abort [of True]]) blast+
  next
    fix d
    assume d: "faulty A \<and> live False digest f d"
    then show "triple A ((=) d) (bind_io (abort_transaction digest) (\<lambda>_. raise_io e)) Q ?E ?X"
      by (intro triple_pre [OF abort [of False]]) blast+
  qed
  have body: "triple A (\<lambda>d. \<exists>m. begun digest f ?paths ?flag m f d \<and> tm_state m = Prepared)
      (catch_io (\<lambda>_. True) (\<lambda>e. bind_io (abort_transaction digest) (\<lambda>_. raise_io e)) (unit_body digest u))
      (\<lambda>_ d. \<exists>g metadata m. unit_after f u = Inr g \<and> begun digest f ?paths ?flag m g d
       \<and> tm_state m = EvidenceWritten \<and> g Metadata = Some metadata \<and> tm_expected_metadata m = Some (digest metadata))
      ?E ?X"
    by (rule triple_catch [OF _ aborted], rule triple_conseq [OF body_triple [OF u digest ne]])
       (auto simp: unit_done_def)
  have finish: "triple A (\<lambda>d. \<exists>g metadata m. unit_after f u = Inr g \<and> begun digest f ?paths ?flag m g d
       \<and> tm_state m = EvidenceWritten \<and> g Metadata = Some metadata \<and> tm_expected_metadata m = Some (digest metadata))
      commit (\<lambda>_. unit_done digest f u) ?E ?X"
    by (rule triple_fix, elim exE conjE, rule triple_conseq [OF commit_triple])
       (auto simp: unit_done_def unit_failed_def)
  show ?thesis
    unfolding commit_unit_def evidence_transaction_def
    by (rule triple_bind [OF start], rule triple_bind [OF body], rule finish)
qed

section \<open>No crash without a cause\<close>

text \<open>Code that crashes only when the schedule says so.\<close>

definition no_crash :: "transaction_marker world \<Rightarrow> bool" where
  "no_crash w \<longleftrightarrow> (\<forall>n. Dies n \<notin> set (schedule w))"

definition calm :: "(transaction_marker, 'a) io \<Rightarrow> bool" where
  "calm c \<longleftrightarrow> (\<forall>w. no_crash w \<longrightarrow> fst (c w) \<noteq> Crashed \<and> no_crash (snd (c w)))"

lemma calm_basic: "calm (return_io a)" "calm (raise_io e)" "calm (gets_io f)" "calm (modify_io g)"
  by (auto simp: calm_def no_crash_def return_io_def raise_io_def gets_io_def modify_io_def)

lemma calm_call: "calm (call_io full part)"
proof -
  have "no_crash w \<Longrightarrow> no_crash (w\<lparr>schedule := tl (schedule w)\<rparr>)" for w
    by (cases "schedule w") (auto simp: no_crash_def)
  then show ?thesis
    by (fastforce simp: calm_def call_io_def Let_def no_crash_def split: sum.splits list.splits outcome.splits)
qed

lemma calm_bind: "calm c \<Longrightarrow> (\<And>a. calm (k a)) \<Longrightarrow> calm (bind_io c k)"
  by (fastforce simp: calm_def bind_io_def split: ending.splits prod.splits)

lemma calm_catch: "calm c \<Longrightarrow> (\<And>e. calm (h e)) \<Longrightarrow> calm (catch_io p h c)"
  by (fastforce simp: calm_def catch_io_def split: ending.splits prod.splits)

lemma calm_if: "calm c \<Longrightarrow> calm c' \<Longrightarrow> calm (if b then c else c')"
  by simp

lemma calm_each: "(\<And>x. calm (c x)) \<Longrightarrow> calm (each_io c xs)"
  by (induction xs) (simp_all add: calm_basic calm_bind)

lemmas calm_intros = calm_basic calm_call calm_bind calm_catch calm_if calm_each

lemmas io_defs = as_persistence_def quiet_io_def atomic_io_def unlink_missing_ok_def os_link_def os_replace_def
  read_file_def write_serialized_def write_marker_def unlink_marker_def read_marker_object_def
  undo_append_def write_and_sync_def append_serialized_def evidence_file_bytes_def file_exists_def lift_io_def

lemma calm_recover: "calm (recover_transaction digest)"
  unfolding recover_transaction_def cleanup_orphan_backups_def restore_or_remove_orphan_def sync_directory_def
    unsafe_def cleanup_def metadata_matches_expected_def digest_file_def roll_back_def truncate_to_def
    restore_backup_def io_defs
  by (auto intro!: calm_intros split: sum.split pyval.split option.split prod.split)

lemma calm_append_offsets: "calm (append_offsets offsets paths)"
  by (induction offsets paths rule: append_offsets.induct) (auto simp: io_defs intro!: calm_intros)

lemma calm_commit_unit: "calm (commit_unit digest u)"
  unfolding commit_unit_def evidence_transaction_def begin_transaction_def install_transaction_def give_up_def
    link_and_mark_def unit_body_def prepare_metadata_def commit_def abort_transaction_def current_marker_def
    unsafe_def roll_back_def restore_backup_def truncate_to_def cleanup_def sync_directory_def digest_file_def
    io_defs Let_def
  by (auto intro!: calm_intros calm_recover calm_append_offsets split: sum.split option.split prod.split)

section \<open>Restarts\<close>

definition restart :: "outcome list \<Rightarrow> transaction_marker world \<Rightarrow> transaction_marker world" where
  "restart events w = \<lparr>disk = (disk w)\<lparr>sd_current := None\<rparr>, schedule = events\<rparr>"

text \<open>One attempt at recovery for each schedule, whatever happens to it.\<close>

fun restarts :: "(bytes \<Rightarrow> ustr) \<Rightarrow> outcome list list \<Rightarrow> transaction_marker world \<Rightarrow> transaction_marker world" where
  "restarts digest [] w = w"
| "restarts digest (events # rest) w =
     restarts digest rest (snd (recover_transaction digest (restart events w)))"

lemma restart_disk [simp]:
  "undoable digest f (disk (restart events w)) = undoable digest f (disk w)"
  "redoable digest f (disk (restart events w)) = redoable digest f (disk w)"
  "schedule (restart events w) = events"
  by (simp_all add: restart_def undoable_def orphaned_def redoable_def split: option.split)

lemma restarts_undoable:
  assumes "f Metadata \<noteq> None"
  shows "undoable digest f (disk w) \<Longrightarrow> undoable digest f (disk (restarts digest crashes w))"
proof (induction crashes arbitrary: w)
  case (Cons events crashes)
  let ?w = "restart events w"
  note t = triple_use [OF undo_recover [of "\<lambda>_. True" digest f], of ?w]
  have "undoable digest f (disk (snd (recover_transaction digest ?w)))"
    using t Cons.prems assms
    by (cases "fst (recover_transaction digest ?w)") (auto simp: list_all_iff settled_undoable)
  with Cons.IH show ?case by simp
qed simp

lemma restarts_redoable:
  assumes "f Metadata \<noteq> None"
  shows "redoable digest f (disk w) \<Longrightarrow> redoable digest f (disk (restarts digest crashes w))"
proof (induction crashes arbitrary: w)
  case (Cons events crashes)
  let ?w = "restart events w"
  note t = triple_use [OF redo_recover [of "\<lambda>_. True" digest f], of ?w]
  have "redoable digest f (disk (snd (recover_transaction digest ?w)))"
    using t Cons.prems assms
    by (cases "fst (recover_transaction digest ?w)") (auto simp: list_all_iff settled_redoable)
  with Cons.IH show ?case by simp
qed simp

text \<open>A recovery nobody disturbs ends, and says which way it went.\<close>

lemma recovery_ends:
  assumes "recover_transaction digest (restart [] w) = (r, w')"
  shows "undoable digest f (disk w) \<Longrightarrow> settled f (disk w') \<and> (\<exists>out. r = Done out \<and> out \<noteq> Some RecoveredCommitted)"
    and "redoable digest f (disk w) \<Longrightarrow> settled f (disk w') \<and> (\<exists>out. r = Done out \<and> out \<noteq> Some RolledBack)"
proof -
  have c: "r \<noteq> Crashed"
    using calm_recover [of digest] assms unfolding calm_def
    by (metis restart_disk(3) fst_conv no_crash_def list.set(1) empty_iff)
  note u = triple_use [OF undo_recover [of "\<lambda>_. False" digest f], of "restart [] w", unfolded assms, simplified]
  note d = triple_use [OF redo_recover [of "\<lambda>_. False" digest f], of "restart [] w", unfolded assms, simplified]
  show "undoable digest f (disk w) \<Longrightarrow> settled f (disk w') \<and> (\<exists>out. r = Done out \<and> out \<noteq> Some RecoveredCommitted)"
    using u c by (cases r) (auto simp: faulty_def)
  show "redoable digest f (disk w) \<Longrightarrow> settled f (disk w') \<and> (\<exists>out. r = Done out \<and> out \<noteq> Some RolledBack)"
    using d c by (cases r) (auto simp: faulty_def)
qed

section \<open>The properties\<close>

lemma unit_after_metadata: "unit_after f u = Inr g \<Longrightarrow> g Metadata \<noteq> None"
  by (auto simp: unit_after_def result_simps)

text \<open>
  C9: A crash at any point cannot tear a commit unit. The process may die at any system call of the
  unit, inside an append included, and recovery may be interrupted any number of times by crashes
  and by I/O errors; the next undisturbed recovery returns and leaves, without any bookkeeping,
  either exactly the evidence from before the unit or exactly the evidence with the whole unit. It
  is the latter whenever the unit had returned, and what recovery reports agrees with it.
\<close>

theorem unit_survives_crashes:
  assumes "unit_ok f u" and "\<And>b. valid_digest (digest b)" and "changes_digest digest f u"
    and "settled f (disk w)" and "\<forall>n. Fails n \<notin> set (schedule w)"
    and "commit_unit digest u w = (r, w1)"
    and "recover_transaction digest (restart [] (restarts digest crashes w1)) = (r', w2)"
  shows "\<exists>out. r' = Done out
    \<and> (settled f (disk w2) \<and> r \<noteq> Done () \<and> out \<noteq> Some RecoveredCommitted
       \<or> (\<exists>g. unit_after f u = Inr g \<and> settled g (disk w2) \<and> out \<noteq> Some RolledBack))"
proof -
  let ?A = "\<lambda>e. \<forall>n. e \<noteq> Fails n"
  have nf: "\<not> faulty ?A" by (simp add: faulty_def)
  have A: "list_all ?A (schedule w)" using assms(5) by (auto simp: list_all_iff)
  note t = triple_use [OF unit_triple [OF assms(1-3), of ?A] assms(4) A, unfolded assms(6), simplified]
  from assms(1) have fm: "f Metadata \<noteq> None" by (simp add: unit_ok_def)
  have "undoable digest f (disk w1) \<and> r \<noteq> Done () \<or> unit_done digest f u (disk w1)"
    using t nf fm by (cases r) (auto simp: unit_failed_def settled_undoable)
  then show ?thesis
  proof
    assume u: "undoable digest f (disk w1) \<and> r \<noteq> Done ()"
    then have "undoable digest f (disk (restarts digest crashes w1))" using fm restarts_undoable by blast
    from recovery_ends(1) [OF assms(7) this] u show ?thesis by blast
  next
    assume "unit_done digest f u (disk w1)"
    then obtain g where g: "unit_after f u = Inr g" "redoable digest g (disk w1)" by (auto simp: unit_done_def)
    then have "redoable digest g (disk (restarts digest crashes w1))"
      using unit_after_metadata restarts_redoable by blast
    from recovery_ends(2) [OF assms(7) this] g show ?thesis by blast
  qed
qed

text \<open>A small unit, and a death in the middle of its append.\<close>

definition sample_digest :: "bytes \<Rightarrow> ustr" where
  "sample_digest b = replicate 64 (if b = ''old'' then 48 else 49)"

definition sample_evidence :: file_state where
  "sample_evidence x = (if x = Metadata then Some ''old'' else if x = UartRaw then Some ''A'' else None)"

definition sample_unit :: evidence_unit where
  "sample_unit = \<lparr>eu_appends = [(UartRaw, ''BC'')], eu_patterns = None, eu_metadata = (\<lambda>_. Inr ''new'')\<rparr>"

definition sample_world :: "outcome list \<Rightarrow> transaction_marker world" where
  "sample_world events =
     \<lparr>disk = \<lparr>sd_files = sample_evidence, sd_marker = None, sd_current = None\<rparr>, schedule = events\<rparr>"

lemma sample_ok: "unit_ok sample_evidence sample_unit" "valid_digest (sample_digest b)"
    "changes_digest sample_digest sample_evidence sample_unit" "settled sample_evidence (disk (sample_world events))"
  by (auto simp: unit_ok_def sample_evidence_def sample_unit_def append_files_def valid_digest_def
      sample_digest_def changes_digest_def settled_def sample_world_def)

theorem unit_survives_crashes_witness:
  "\<exists>out w2. recover_transaction sample_digest (restart []
       (restarts sample_digest [[Works, Dies 0]]
         (snd (commit_unit sample_digest sample_unit (sample_world (replicate 9 Works @ [Dies 1]))))))
     = (Done out, w2) \<and> (settled sample_evidence (disk w2) \<or> (\<exists>g. settled g (disk w2)))"
proof -
  let ?w = "sample_world (replicate 9 Works @ [Dies 1])"
  obtain r w1 where run: "commit_unit sample_digest sample_unit ?w = (r, w1)" by fastforce
  obtain r' w2 where recovered: "recover_transaction sample_digest
      (restart [] (restarts sample_digest [[Works, Dies 0]] w1)) = (r', w2)" by fastforce
  have "\<forall>n. Fails n \<notin> set (schedule ?w)" by (simp add: sample_world_def)
  from unit_survives_crashes [OF sample_ok this run recovered] recovered run
  show ?thesis by auto
qed

text \<open>
  C10: Without a crash, a failing unit is undone on the spot. Whatever calls fail, the unit either
  returns with all of it on disk, or it raises with exactly the old evidence and no bookkeeping
  left, or it raises the error that forbids touching the session further. When no call fails and
  the metadata can be built, it returns.
\<close>

theorem unit_fails_cleanly:
  assumes "unit_ok f u" and "\<And>b. valid_digest (digest b)" and "changes_digest digest f u"
    and "settled f (disk w)" and "\<forall>n. Dies n \<notin> set (schedule w)"
    and "commit_unit digest u w = (r, w1)"
  shows "(case r of
        Done _ \<Rightarrow> \<exists>g. unit_after f u = Inr g \<and> (\<forall>x. x \<notin> backup_files \<longrightarrow> sd_files (disk w1) x = g x)
      | Raised e \<Rightarrow> settled f (disk w1) \<or> unsafe_error e
      | Crashed \<Rightarrow> False)
    \<and> ((\<forall>n. Fails n \<notin> set (schedule w)) \<longrightarrow> (\<exists>g. unit_after f u = Inr g) \<longrightarrow> r = Done ())"
proof -
  have c: "r \<noteq> Crashed"
    using calm_commit_unit [of digest u] assms(5,6) unfolding calm_def no_crash_def by (metis fst_conv)
  note t = triple_use [OF unit_triple [OF assms(1-3), of "\<lambda>_. True"] assms(4), unfolded assms(6), simplified]
  have "case r of Done _ \<Rightarrow> unit_done digest f u (disk w1)
      | Raised e \<Rightarrow> settled f (disk w1) \<or> unsafe_error e | Crashed \<Rightarrow> False"
    using t c by (cases r) (auto simp: unit_failed_def list_all_iff)
  moreover have "r = Done ()" if "\<forall>n. Fails n \<notin> set (schedule w)" "unit_after f u = Inr g" for g
  proof -
    let ?A = "\<lambda>e. \<forall>n. e \<noteq> Fails n"
    have A: "list_all ?A (schedule w)" using that by (auto simp: list_all_iff)
    note t = triple_use [OF unit_triple [OF assms(1-3), of ?A] assms(4) A, unfolded assms(6), simplified]
    show ?thesis using t c that(2) by (cases r) (auto simp: unit_failed_def faulty_def)
  qed
  ultimately show ?thesis
    by (auto simp: unit_done_def redoable_def split: ending.splits)
qed

theorem unit_fails_cleanly_witness:
  "case fst (commit_unit sample_digest sample_unit (sample_world (replicate 9 Works @ [Fails 1]))) of
     Crashed \<Rightarrow> False | _ \<Rightarrow> True"
  using unit_fails_cleanly [OF sample_ok(1) sample_ok(2) sample_ok(3)
      sample_ok(4) [of "replicate 9 Works @ [Fails 1]"] _ surjective_pairing]
  by (auto simp: sample_world_def split: ending.split)

text \<open>
  C11: A failure followed by a crash does tear a unit. The directory sync after the rename of the
  metadata fails, so the unit rolls back; it has truncated the evidence but not yet restored the
  metadata when the process dies. Recovery finds the metadata it expects, reports the unit as
  committed and keeps the new metadata beside the truncated evidence.
\<close>

theorem failed_sync_then_crash_tears_unit:
  "let w1 = commit_unit sample_digest sample_unit
       (sample_world (replicate 18 Works @ [Fails 0, Works, Works, Dies 0]));
     w2 = recover_transaction sample_digest (restart [] (snd w1))
   in fst w1 = Crashed \<and> fst w2 = Done (Some RecoveredCommitted)
     \<and> sd_files (disk (snd w2)) Metadata = Some ''new'' \<and> sd_files (disk (snd w2)) UartRaw = Some ''A''"
  by code_simp

end
