(* ===== verification/Contracts.thy ===== *)
theory Contracts
  imports Uart_Processor Protocol
begin

text \<open>
  The backend-neutral contracts of \<open>backends/contracts.py\<close>: the identity of a backend, the provenance
  of its timestamps, its events, what it can report about lost bytes, and the error that carries the
  classification of malformed input; with the check a host frame passes before it is written
  (\<open>device_connection/transport.py\<close>) and the health of a capture source (\<open>workflows/capture.py\<close>).

  The checks of the \<open>__post_init__\<close> methods are the \<open>make_\<close> functions: they take the values a caller
  may pass and return the object or the exception.
\<close>

section \<open>Identity and timing\<close>

datatype backend_mode = BasicBackend | EnhancedBackend

fun backend_mode_name :: "backend_mode \<Rightarrow> string" where
  "backend_mode_name BasicBackend = ''basic''"
| "backend_mode_name EnhancedBackend = ''enhanced''"

record backend_info =
  bi_mode :: backend_mode
  bi_port :: ustr
  bi_device :: "ustr option"
  bi_firmware :: "ustr option"
  bi_capabilities :: "ustr set"

datatype timestamp_source = HostTime | DeviceTime
datatype timestamp_clock = MonotonicClock | Rp2040Timer | Rp2350Timer

text \<open>The unit and the origin of a timestamp have one value each: \<open>us\<close> and \<open>segment_start\<close>.\<close>

record segment_timestamp =
  st_source :: timestamp_source
  st_clock :: timestamp_clock
  st_source_origin_us :: int
  st_observation_point :: ustr
  st_event_granularity :: ustr

record segment_context =
  sc_segment_id :: nat
  sc_timestamp :: segment_timestamp

section \<open>Events\<close>

record buffer_overflow_event =
  bo_segment_id :: nat
  bo_timestamp_us :: nat
  bo_channel :: nat
  bo_dropped_bytes :: nat

record buffer_status_event =
  be_segment_id :: nat
  be_timestamp_us :: nat
  be_size_bytes :: nat
  be_used_bytes :: nat
  be_high_water_bytes :: nat
  be_dropped_bytes_total :: nat
  be_overflow_events :: nat

datatype backend_event =
    ReceiveEvent uart_receive_event
  | OverflowEvent buffer_overflow_event
  | StatusEvent buffer_status_event

section \<open>Capability policy\<close>

text \<open>A policy is a boolean; its source has one value.\<close>

definition make_send_policy :: "pyval \<Rightarrow> pyval \<Rightarrow> exc + bool" where
  "make_send_policy tx_policy_enabled source =
     (case tx_policy_enabled of
        PBool b \<Rightarrow>
          if source \<noteq> PStr (lit ''hardware.uart.tx_enabled'') then
            Inl (ValueError ''UART-send TX policy source is invalid'')
          else Inr b
      | _ \<Rightarrow> Inl (ValueError ''UART-send TX policy must be a boolean''))"

definition apply_capability_policy :: "ustr set \<Rightarrow> bool \<Rightarrow> ustr set" where
  "apply_capability_policy capabilities tx_policy_enabled =
     (if \<not> tx_policy_enabled then capabilities - {lit ''uart_send''} else capabilities)"

section \<open>Integrity\<close>

datatype loss_status = NoneReported | LossReported | NotObservable

fun loss_status_name :: "loss_status \<Rightarrow> string" where
  "loss_status_name NoneReported = ''none_reported''"
| "loss_status_name LossReported = ''loss_reported''"
| "loss_status_name NotObservable = ''not_observable''"

record uart_integrity =
  ui_loss_status :: loss_status
  ui_observation_scope :: "ustr option"
  ui_dropped_bytes :: "int option"

text \<open>The lookup of an unhashable value in a set raises \<open>TypeError\<close>.\<close>

fun unhashable :: "pyval \<Rightarrow> bool" where
  "unhashable (PList _) = True"
| "unhashable (PDict _) = True"
| "unhashable _ = False"

fun is_non_negative_int :: "pyval \<Rightarrow> bool" where
  "is_non_negative_int (PInt n) = (0 \<le> n)"
| "is_non_negative_int _ = False"

lemma is_non_negative_int_iff: "is_non_negative_int v \<longleftrightarrow> (\<exists>n \<ge> 0. v = PInt n)"
  by (cases v) auto

definition loss_status_of :: "pyval \<Rightarrow> loss_status option" where
  "loss_status_of v =
     (if v = PStr (lit ''none_reported'') then Some NoneReported
      else if v = PStr (lit ''loss_reported'') then Some LossReported
      else if v = PStr (lit ''not_observable'') then Some NotObservable
      else None)"

definition rx_scope :: ustr where
  "rx_scope = lit ''debug_helper_rx_buffer''"

definition make_uart_integrity :: "pyval \<Rightarrow> pyval \<Rightarrow> pyval \<Rightarrow> exc + uart_integrity" where
  "make_uart_integrity status scope dropped =
     (if unhashable status then Inl (TypeError ''unhashable type'')
      else
      (case loss_status_of status of
         None \<Rightarrow> Inl (ValueError ''UART integrity loss status is invalid'')
       | Some s \<Rightarrow>
      if dropped \<noteq> PNone \<and> \<not> is_non_negative_int dropped then
        Inl (ValueError ''UART integrity dropped bytes must be non-negative or null'')
      else
        let d = (case dropped of PInt n \<Rightarrow> Some n | _ \<Rightarrow> None) in
        if s = NotObservable then
          if scope \<noteq> PNone \<or> d \<noteq> None then
            Inl (ValueError ''not-observable UART integrity cannot claim loss telemetry'')
          else Inr \<lparr>ui_loss_status = s, ui_observation_scope = None, ui_dropped_bytes = None\<rparr>
        else if scope \<noteq> PStr rx_scope then
          Inl (ValueError ''observable UART integrity requires the Debug Helper RX scope'')
        else if s = NoneReported \<and> d \<noteq> Some 0 then
          Inl (ValueError ''none-reported UART integrity requires zero dropped bytes'')
        else Inr \<lparr>ui_loss_status = s, ui_observation_scope = Some rx_scope, ui_dropped_bytes = d\<rparr>))"

definition integrity_for_backend :: "backend_mode \<Rightarrow> uart_integrity" where
  "integrity_for_backend mode =
     (case mode of
        BasicBackend \<Rightarrow>
          \<lparr>ui_loss_status = NotObservable, ui_observation_scope = None, ui_dropped_bytes = None\<rparr>
      | EnhancedBackend \<Rightarrow>
          \<lparr>ui_loss_status = NoneReported, ui_observation_scope = Some rx_scope, ui_dropped_bytes = Some 0\<rparr>)"

section \<open>Snapshots\<close>

record backend_snapshot =
  sn_info :: backend_info
  sn_capabilities :: "ustr set"
  sn_tx_policy_enabled :: bool
  sn_segment :: "segment_context option"
  sn_integrity :: uart_integrity
  sn_serial_provenance :: "pydict option"

definition make_backend_snapshot ::
  "backend_info \<Rightarrow> ustr set \<Rightarrow> bool \<Rightarrow> segment_context option \<Rightarrow> uart_integrity \<Rightarrow> pydict option
     \<Rightarrow> exc + backend_snapshot" where
  "make_backend_snapshot info capabilities policy segment integrity provenance =
     (if capabilities \<noteq> apply_capability_policy (bi_capabilities info) policy then
        Inl (ValueError ''backend snapshot capabilities do not match applied policy'')
      else if bi_mode info = BasicBackend \<and> ui_loss_status integrity \<noteq> NotObservable then
        Inl (ValueError ''Basic backend integrity must be not_observable'')
      else if bi_mode info = EnhancedBackend \<and> ui_loss_status integrity = NotObservable then
        Inl (ValueError ''Enhanced backend integrity must describe its RX buffer observer'')
      else Inr \<lparr>sn_info = info, sn_capabilities = capabilities, sn_tx_policy_enabled = policy,
                sn_segment = segment, sn_integrity = integrity, sn_serial_provenance = provenance\<rparr>)"

section \<open>Input errors\<close>

definition input_error_kinds :: "ustr list" where
  "input_error_kinds = map lit [''frame_too_large'', ''invalid_utf8'', ''invalid_json'', ''invalid_message'']"

text \<open>
  The constructor of \<open>BackendInputError\<close>: the exception object it builds, or the \<open>ValueError\<close> it raises
  itself. The arguments of the object are its detail, kind, operation, mode and the two frame sizes.
\<close>

definition make_backend_input_error ::
  "ustr \<Rightarrow> ustr \<Rightarrow> ustr option \<Rightarrow> ustr option \<Rightarrow> int option \<Rightarrow> int option \<Rightarrow> exc + exc" where
  "make_backend_input_error detail kind operation mode observed limit =
     (if kind \<notin> set input_error_kinds then Inl (ValueError ''backend input classification is invalid'')
      else if (observed = None) \<noteq> (limit = None) then
        Inl (ValueError ''backend frame-size context must be complete or omitted'')
      else if kind = lit ''frame_too_large'' \<and> observed = None then
        Inl (ValueError ''frame_too_large input requires frame-size context'')
      else if kind \<noteq> lit ''frame_too_large'' \<and> observed \<noteq> None then
        Inl (ValueError ''backend frame sizes require frame_too_large input'')
      else if (case observed of
                 None \<Rightarrow> False
               | Some n \<Rightarrow> n \<le> 0 \<or> (case limit of None \<Rightarrow> True | Some m \<Rightarrow> m \<le> 0 \<or> n < m)) then
        Inl (ValueError ''backend frame-size context is invalid'')
      else Inr (BackendInputError detail kind operation mode observed limit))"

text \<open>\<open>x or y\<close> on optional text.\<close>

fun or_text :: "ustr option \<Rightarrow> ustr \<Rightarrow> ustr" where
  "or_text None t = t"
| "or_text (Some s) t = (if s = [] then t else s)"

fun with_context :: "exc \<Rightarrow> ustr \<Rightarrow> backend_mode \<Rightarrow> exc + exc" where
  "with_context (BackendInputError detail kind operation mode observed limit) op m =
     make_backend_input_error detail kind (Some (or_text operation op))
       (Some (or_text mode (lit (backend_mode_name m)))) observed limit"
| "with_context e op m = Inr e"

fun structured_context :: "exc \<Rightarrow> pydict option" where
  "structured_context (BackendInputError detail kind operation mode observed limit) =
     (case (operation, mode) of
        (Some op, Some m) \<Rightarrow>
          Some ([(lit ''operation'', PStr op), (lit ''backend_mode'', PStr m), (lit ''input_error'', PStr kind)]
            @ (case (observed, limit) of
                 (Some n, Some k) \<Rightarrow>
                   [(lit ''observed_frame_bytes'', PInt n), (lit ''max_frame_bytes'', PInt k)]
               | _ \<Rightarrow> []))
      | _ \<Rightarrow> None)"
| "structured_context e = None"

text \<open>The result of a complete transmission.\<close>

record send_result =
  sr_bytes_accepted :: int
  sr_device_timestamp_us :: "int option"

section \<open>Frames and capture sources\<close>

definition validate_host_command_frame :: "pyval \<Rightarrow> exc + unit" where
  "validate_host_command_frame command =
     (case command of
        PBytes b \<Rightarrow>
          if length b > MAX_HOST_FRAME_BYTES then
            Inl (HostCommandFrameTooLargeError (length b) MAX_HOST_FRAME_BYTES)
          else if \<not> suffix [nl] b then
            Inl (ValueError ''serial commands must be newline-terminated NDJSON'')
          else Inr ()
      | _ \<Rightarrow> Inl (TypeError ''serial commands must be bytes''))"

record source_health =
  sh_connected :: bool
  sh_integrity :: "uart_integrity option"
  sh_backend_snapshot :: "backend_snapshot option"
  sh_connection_generation :: int

definition make_source_health ::
  "bool \<Rightarrow> uart_integrity option \<Rightarrow> backend_snapshot option \<Rightarrow> int \<Rightarrow> exc + source_health" where
  "make_source_health is_connected integrity snapshot generation =
     (if generation < 0 then Inl (ValueError ''source connection generation must be non-negative'')
      else Inr \<lparr>sh_connected = is_connected, sh_integrity = integrity, sh_backend_snapshot = snapshot,
                sh_connection_generation = generation\<rparr>)"

section \<open>Properties\<close>

text \<open>What an integrity claim may say.\<close>

definition integrity_ok :: "uart_integrity \<Rightarrow> bool" where
  "integrity_ok u \<longleftrightarrow>
     (case ui_loss_status u of
        NotObservable \<Rightarrow> ui_observation_scope u = None \<and> ui_dropped_bytes u = None
      | NoneReported \<Rightarrow> ui_observation_scope u = Some rx_scope \<and> ui_dropped_bytes u = Some 0
      | LossReported \<Rightarrow> ui_observation_scope u = Some rx_scope \<and> (\<forall>n. ui_dropped_bytes u = Some n \<longrightarrow> 0 \<le> n))"

definition opt_int :: "int option \<Rightarrow> pyval" where
  "opt_int v = (case v of None \<Rightarrow> PNone | Some n \<Rightarrow> PInt n)"

lemma loss_status_of_Some: "loss_status_of v = Some s \<longleftrightarrow> v = PStr (lit (loss_status_name s))"
  by (cases s) (auto simp: loss_status_of_def)

lemma make_uart_integrity_Inr:
  "make_uart_integrity status scope dropped = Inr u \<longleftrightarrow>
     integrity_ok u \<and> status = PStr (lit (loss_status_name (ui_loss_status u)))
     \<and> scope = opt_str (ui_observation_scope u) \<and> dropped = opt_int (ui_dropped_bytes u)"
proof
  assume m: "make_uart_integrity status scope dropped = Inr u"
  then obtain s where s: "status = PStr (lit (loss_status_name s))" "loss_status_of status = Some s"
    by (auto simp: make_uart_integrity_def check_simps loss_status_of_Some)
  from m s(2) have d: "dropped = PNone \<or> (\<exists>n \<ge> 0. dropped = PInt n)"
    by (auto simp: make_uart_integrity_def check_simps is_non_negative_int_iff)
  from m s d show "integrity_ok u \<and> status = PStr (lit (loss_status_name (ui_loss_status u)))
     \<and> scope = opt_str (ui_observation_scope u) \<and> dropped = opt_int (ui_dropped_bytes u)"
    by (cases s) (auto simp: make_uart_integrity_def integrity_ok_def opt_int_def Let_def check_simps)
next
  assume r: "integrity_ok u \<and> status = PStr (lit (loss_status_name (ui_loss_status u)))
     \<and> scope = opt_str (ui_observation_scope u) \<and> dropped = opt_int (ui_dropped_bytes u)"
  then have "loss_status_of status = Some (ui_loss_status u)" by (simp add: loss_status_of_Some)
  with r show "make_uart_integrity status scope dropped = Inr u"
    by (cases u; cases "ui_loss_status u")
       (auto simp: make_uart_integrity_def integrity_ok_def opt_int_def split: option.splits)
qed

lemma integrity_for_backend_ok: "integrity_ok (integrity_for_backend mode)"
  by (cases mode) (simp_all add: integrity_for_backend_def integrity_ok_def)

text \<open>The errors the constructor builds.\<close>

fun input_error_ok :: "exc \<Rightarrow> bool" where
  "input_error_ok (BackendInputError detail kind op m observed limit) =
     (kind \<in> set input_error_kinds
      \<and> (if kind = lit ''frame_too_large''
         then \<exists>n k. observed = Some n \<and> limit = Some k \<and> 0 < k \<and> k \<le> n
         else observed = None \<and> limit = None))"
| "input_error_ok e = False"

lemma make_backend_input_error_Inr:
  "make_backend_input_error detail kind op m observed limit = Inr e \<longleftrightarrow>
     e = BackendInputError detail kind op m observed limit \<and> input_error_ok e"
  by (cases observed; cases limit; cases "kind = lit ''frame_too_large''")
     (auto simp: make_backend_input_error_def check_simps)

end
