(* ===== verification/Enhanced_Backend.thy ===== *)
theory Enhanced_Backend
  imports Contracts Ndjson_Stream
begin

text \<open>
  The Enhanced v1 adapters of \<open>backends/enhanced.py\<close>: parsed device messages become backend-neutral
  events, protocol errors become classified input errors, and the semantic controls and the UART
  sender each exchange one command frame with the device.

  The transport is a parameter: a function \<open>request\<close> from the frame, the timeout and the state of the
  connection to the response (or the exception) and the next state. Timeouts are rational numbers;
  the rounding of \<open>pulse_ms / 1000.0 + 0.5\<close> to a float is not modelled.
\<close>

section \<open>Translation of messages\<close>

definition normalize_enhanced_hello :: "hello_message \<Rightarrow> ustr \<Rightarrow> backend_info" where
  "normalize_enhanced_hello hello port =
     \<lparr>bi_mode = EnhancedBackend, bi_port = port, bi_device = Some (hm_device hello),
      bi_firmware = Some (hm_firmware hello), bi_capabilities = set (hm_capabilities hello)\<rparr>"

definition relative_timestamp :: "int \<Rightarrow> int \<Rightarrow> exc + nat" where
  "relative_timestamp timestamp_us source_origin_us =
     (if source_origin_us < 0 then Inl (ValueError ''Enhanced source origin must be non-negative'')
      else if timestamp_us < source_origin_us then
        Inl (BackendInputError (lit ''Enhanced event timestamp precedes its segment origin'')
               (lit ''invalid_message'') None (Some (lit ''enhanced'')) None None)
      else Inr (nat (timestamp_us - source_origin_us)))"

definition normalize_enhanced_message ::
  "device_message \<Rightarrow> nat \<Rightarrow> int \<Rightarrow> exc + backend_event option" where
  "normalize_enhanced_message message segment_id source_origin_us =
     (case message of
        Uart m \<Rightarrow>
          bind_r (relative_timestamp (um_timestamp_us m) source_origin_us) (\<lambda>t.
            Inr (Some (ReceiveEvent
              \<lparr>ev_segment_id = segment_id, ev_timestamp_us = t, ev_channel = nat (um_channel m),
               ev_data = um_data m\<rparr>)))
      | BufferOverflow m \<Rightarrow>
          bind_r (relative_timestamp (om_timestamp_us m) source_origin_us) (\<lambda>t.
            Inr (Some (OverflowEvent
              \<lparr>bo_segment_id = segment_id, bo_timestamp_us = t, bo_channel = nat (om_channel m),
               bo_dropped_bytes = nat (om_dropped_bytes m)\<rparr>)))
      | BufferStatus m \<Rightarrow>
          bind_r (relative_timestamp (bs_timestamp_us m) source_origin_us) (\<lambda>t.
            Inr (Some (StatusEvent
              \<lparr>be_segment_id = segment_id, be_timestamp_us = t,
               be_size_bytes = nat (bs_uart_rx_size_bytes m), be_used_bytes = nat (bs_uart_rx_used_bytes m),
               be_high_water_bytes = nat (bs_uart_rx_high_water_bytes m),
               be_dropped_bytes_total = nat (bs_dropped_bytes_total m),
               be_overflow_events = nat (bs_overflow_events m)\<rparr>)))
      | _ \<Rightarrow> Inr None)"

fun enhanced_message_timestamp_us :: "device_message \<Rightarrow> int option" where
  "enhanced_message_timestamp_us (Uart m) = Some (um_timestamp_us m)"
| "enhanced_message_timestamp_us (BufferOverflow m) = Some (om_timestamp_us m)"
| "enhanced_message_timestamp_us (BufferStatus m) = Some (bs_timestamp_us m)"
| "enhanced_message_timestamp_us _ = None"

definition enhanced_segment_context :: "nat \<Rightarrow> int \<Rightarrow> segment_context" where
  "enhanced_segment_context segment_id source_origin_us =
     \<lparr>sc_segment_id = segment_id,
      sc_timestamp = \<lparr>st_source = DeviceTime, st_clock = Rp2350Timer,
        st_source_origin_us = source_origin_us,
        st_observation_point = lit ''debug_helper_uart_receive'',
        st_event_granularity = lit ''uart_event''\<rparr>\<rparr>"

section \<open>Classification of protocol errors\<close>

text \<open>The class attribute \<open>input_error\<close> and the two frame sizes of each protocol error.\<close>

fun protocol_input_error :: "exc \<Rightarrow> ustr" where
  "protocol_input_error (FrameTooLargeError _ _) = lit ''frame_too_large''"
| "protocol_input_error (MalformedMessageError _) = lit ''invalid_json''"
| "protocol_input_error (InvalidUtf8Error _) = lit ''invalid_utf8''"
| "protocol_input_error _ = lit ''invalid_message''"

fun protocol_frame_sizes :: "exc \<Rightarrow> int option \<times> int option" where
  "protocol_frame_sizes (FrameTooLargeError observed limit) = (Some (int observed), Some (int limit))"
| "protocol_frame_sizes _ = (None, None)"

definition protocol_detail :: "ustr \<Rightarrow> ustr" where
  "protocol_detail kind =
     (if kind = lit ''frame_too_large'' then
        lit ''Enhanced protocol frame exceeds the device-to-host size limit''
      else if kind = lit ''invalid_utf8'' then lit ''Enhanced protocol frame is not valid UTF-8''
      else if kind = lit ''invalid_json'' then lit ''Enhanced protocol frame is not valid JSON''
      else lit ''Enhanced protocol message does not match the expected schema'')"

definition backend_input_error_from_protocol :: "exc \<Rightarrow> ustr option \<Rightarrow> exc + exc" where
  "backend_input_error_from_protocol e operation =
     make_backend_input_error (protocol_detail (protocol_input_error e)) (protocol_input_error e) operation
       (Some (lit ''enhanced'')) (fst (protocol_frame_sizes e)) (snd (protocol_frame_sizes e))"

text \<open>\<open>raise backend_input_error_from_protocol(...)\<close>: the object, or the error of its constructor.\<close>

definition raise_made :: "exc + exc \<Rightarrow> exc + 'a" where
  "raise_made m = (case m of Inl e \<Rightarrow> Inl e | Inr e \<Rightarrow> Inl e)"

section \<open>The event stream\<close>

record event_stream =
  es_segment_id :: nat
  es_source_origin_us :: int
  es_parser :: ndjson_parser

definition new_event_stream :: "nat \<Rightarrow> int \<Rightarrow> event_stream" where
  "new_event_stream segment_id source_origin_us =
     \<lparr>es_segment_id = segment_id, es_source_origin_us = source_origin_us, es_parser = new_ndjson_parser\<rparr>"

fun normalize_messages :: "nat \<Rightarrow> int \<Rightarrow> device_message list \<Rightarrow> exc + backend_event list" where
  "normalize_messages segment_id origin [] = Inr []"
| "normalize_messages segment_id origin (m # ms) =
     bind_r (normalize_enhanced_message m segment_id origin) (\<lambda>e.
     bind_r (normalize_messages segment_id origin ms) (\<lambda>es.
       Inr (case e of None \<Rightarrow> es | Some ev \<Rightarrow> ev # es)))"

definition event_feed :: "nat \<Rightarrow> event_stream \<Rightarrow> bytes \<Rightarrow> event_stream \<times> (exc + backend_event list)" where
  "event_feed depth s chunk =
     (case feed_chunk depth (es_parser s) chunk of
        (p, r) \<Rightarrow>
          (s\<lparr>es_parser := p\<rparr>,
           case r of
             Inl e \<Rightarrow>
               if is_protocol_error e then raise_made (backend_input_error_from_protocol e None) else Inl e
           | Inr ms \<Rightarrow> normalize_messages (es_segment_id s) (es_source_origin_us s) ms))"

section \<open>Commands and their responses\<close>

fun message_class :: "device_message \<Rightarrow> string" where
  "message_class (Hello _) = ''HelloMessage''"
| "message_class (Uart _) = ''UartMessage''"
| "message_class (BufferOverflow _) = ''BufferOverflowMessage''"
| "message_class (BufferStatus _) = ''BufferStatusMessage''"
| "message_class (CommandSuccess _) = ''CommandSuccessMessage''"
| "message_class (CommandError _) = ''CommandErrorMessage''"

definition control_success_timestamp :: "device_message \<Rightarrow> string \<Rightarrow> exc + int option" where
  "control_success_timestamp response label =
     (case response of
        CommandSuccess m \<Rightarrow> Inr (cs_timestamp_us m)
      | CommandError m \<Rightarrow> Inl (DeviceControlError (ce_error m) (ce_detail m))
      | _ \<Rightarrow> Inl (DeviceControlError (lit ''unexpected_response'')
               (lit (''Expected command response for '' @ label @ '', got '' @ message_class response))))"

definition uart_send_result :: "device_message \<Rightarrow> nat \<Rightarrow> exc + send_result" where
  "uart_send_result response expected_bytes =
     (case response of
        CommandError m \<Rightarrow> Inl (BackendWriteError (ce_detail m) None (ce_error m))
      | CommandSuccess m \<Rightarrow>
          if cs_bytes_accepted m \<noteq> Some (int expected_bytes) then
            Inl (BackendWriteError
              (lit ''Enhanced UART send acknowledgement did not accept the complete payload'')
              (cs_bytes_accepted m) (lit ''hardware_fault''))
          else
          (case cs_timestamp_us m of
             None \<Rightarrow>
               Inl (BackendWriteError (lit ''Enhanced UART send acknowledgement omitted timestamp_us'')
                 (cs_bytes_accepted m) (lit ''hardware_fault''))
           | Some t \<Rightarrow>
               Inr \<lparr>sr_bytes_accepted = int expected_bytes, sr_device_timestamp_us = Some t\<rparr>)
      | _ \<Rightarrow> Inl (BackendWriteError (lit ''Enhanced UART send received an unexpected response'') None
               (lit ''hardware_fault'')))"

type_synonym 's transport = "bytes \<Rightarrow> rat \<Rightarrow> 's \<Rightarrow> (exc + device_message) \<times> 's"

definition DEFAULT_ENHANCED_COMMAND_TIMEOUT_S :: rat where "DEFAULT_ENHANCED_COMMAND_TIMEOUT_S = 1"
definition ENHANCED_PULSE_COMPLETION_MARGIN_S :: rat where "ENHANCED_PULSE_COMPLETION_MARGIN_S = 1 / 2"

text \<open>The frame of a command, or what \<open>to_ndjson\<close> raises.\<close>

definition command_frame :: "host_command \<Rightarrow> exc + bytes" where
  "command_frame c =
     (case to_ndjson c of
        None \<Rightarrow> Inl (ValueError ''Exceeds the limit (4300 digits) for integer string conversion'')
      | Some r \<Rightarrow> r)"

definition is_host_frame_error :: "exc \<Rightarrow> bool" where
  "is_host_frame_error e \<longleftrightarrow> (\<exists>n m. e = HostCommandFrameTooLargeError n m)"

text \<open>\<open>_request_success\<close>: the exceptions of the exchange become control errors or input errors.\<close>

definition request_failure :: "string \<Rightarrow> string \<Rightarrow> exc \<Rightarrow> exc" where
  "request_failure operation label e =
     (case e of
        TransportWriteError detail accepted error \<Rightarrow> DeviceControlError error detail
      | TransportTimeoutError \<Rightarrow>
          DeviceControlError (lit ''timeout'') (lit (''Timed out waiting for '' @ label @ '' response''))
      | HostCommandFrameTooLargeError n m \<Rightarrow> e
      | _ \<Rightarrow>
          if is_protocol_error e then
            (case backend_input_error_from_protocol e (Some (lit operation)) of Inl e' \<Rightarrow> e' | Inr e' \<Rightarrow> e')
          else e)"

definition request_success ::
  "'s transport \<Rightarrow> string \<Rightarrow> string option \<Rightarrow> rat \<Rightarrow> bytes \<Rightarrow> 's \<Rightarrow> (exc + int option) \<times> 's" where
  "request_success request operation response_label timeout_s command s =
     (let label = (case response_label of None \<Rightarrow> operation | Some l \<Rightarrow> l) in
      case request command timeout_s s of
        (Inl e, s') \<Rightarrow> (Inl (request_failure operation label e), s')
      | (Inr response, s') \<Rightarrow> (control_success_timestamp response label, s'))"

definition enhanced_configure_gpio_mode ::
  "'s transport \<Rightarrow> rat \<Rightarrow> pyval \<Rightarrow> pyval \<Rightarrow> pyval \<Rightarrow> pyval \<Rightarrow> 's \<Rightarrow> (exc + int option) \<times> 's" where
  "enhanced_configure_gpio_mode request timeout_s channel mode active_level idle_level s =
     (case bind_r (configure_gpio_mode_command channel mode active_level idle_level) command_frame of
        Inl e \<Rightarrow> (Inl e, s)
      | Inr frame \<Rightarrow>
          request_success request ''configure_gpio_mode'' (Some ''GPIO mode configuration'') timeout_s frame s)"

definition enhanced_pulse_control ::
  "'s transport \<Rightarrow> rat \<Rightarrow> pyval \<Rightarrow> int \<Rightarrow> 's \<Rightarrow> (exc + int option) \<times> 's" where
  "enhanced_pulse_control request timeout_s channel pulse_ms s =
     (case bind_r (pulse_control_command channel (PInt pulse_ms)) command_frame of
        Inl e \<Rightarrow> (Inl e, s)
      | Inr frame \<Rightarrow>
          request_success request ''reset'' None
            (max timeout_s (of_int pulse_ms / 1000 + ENHANCED_PULSE_COMPLETION_MARGIN_S)) frame s)"

definition enhanced_set_control_state ::
  "'s transport \<Rightarrow> rat \<Rightarrow> pyval \<Rightarrow> pyval \<Rightarrow> 's \<Rightarrow> (exc + int option) \<times> 's" where
  "enhanced_set_control_state request timeout_s channel state s =
     (case bind_r (set_control_state_command channel state) command_frame of
        Inl e \<Rightarrow> (Inl e, s)
      | Inr frame \<Rightarrow> request_success request ''set_boot_mode'' None timeout_s frame s)"

text \<open>
  \<open>send_uart\<close>: the frame is built inside the \<open>try\<close>, so every other exception, also of \<open>to_ndjson\<close>,
  becomes a write error.
\<close>

definition send_failure :: "exc \<Rightarrow> exc" where
  "send_failure e =
     (case e of
        TransportWriteError detail accepted error \<Rightarrow> BackendWriteError detail None error
      | TransportTimeoutError \<Rightarrow>
          BackendWriteError (lit ''Enhanced UART send timed out'') None (lit ''timeout'')
      | HostCommandFrameTooLargeError n m \<Rightarrow> e
      | BackendInputError detail kind operation mode observed limit \<Rightarrow> e
      | _ \<Rightarrow>
          if is_protocol_error e then
            (case backend_input_error_from_protocol e (Some (lit ''uart_send'')) of Inl e' \<Rightarrow> e' | Inr e' \<Rightarrow> e')
          else BackendWriteError (lit ''Enhanced UART send transport failed'') None (lit ''hardware_fault''))"

definition enhanced_send_uart ::
  "'s transport \<Rightarrow> rat \<Rightarrow> bytes \<Rightarrow> 's \<Rightarrow> (exc + send_result) \<times> 's" where
  "enhanced_send_uart request timeout_s data s =
     (case uart_send_command (PBytes data) of
        Inl e \<Rightarrow> (Inl e, s)
      | Inr command \<Rightarrow>
          (case command_frame command of
             Inl e \<Rightarrow> (Inl (send_failure e), s)
           | Inr frame \<Rightarrow>
               (case request frame timeout_s s of
                  (Inl e, s') \<Rightarrow> (Inl (send_failure e), s')
                | (Inr response, s') \<Rightarrow> (uart_send_result response (length data), s'))))"

section \<open>What a frame can raise\<close>

text \<open>
  A parsed frame raises a protocol error without frame sizes, or one of the two exceptions of
  \<open>json.loads\<close> that the parser does not catch.
\<close>

definition parse_error :: "exc \<Rightarrow> bool" where
  "parse_error e \<longleftrightarrow>
     is_protocol_error e \<and> protocol_frame_sizes e = (None, None) \<and> protocol_input_error e \<noteq> lit ''frame_too_large''
     \<or> e = RecursionError \<or> (\<exists>m. e = ValueError m)"

definition scan_error :: "exc \<Rightarrow> bool" where
  "scan_error e \<longleftrightarrow> e = JSONDecodeError \<or> e = RecursionError \<or> (\<exists>m. e = ValueError m)"

lemma scan_error_simps [simp]: "scan_error JSONDecodeError" "scan_error RecursionError" "scan_error (ValueError m)"
  by (simp_all add: scan_error_def)

lemma scan_number_raises [raises_intros]: "raises_only scan_error (scan_number b s)"
  by (auto simp: scan_number_def Let_def split: prod.split)

lemma scan_literal_raises [raises_intros]: "raises_only scan_error (scan_literal s)"
  unfolding scan_literal_def by (intro raises_intros) simp_all

lemma scan_raises:
  "raises_only scan_error (scan_value n d s)"
  "raises_only scan_error (scan_members n d acc s)"
  "raises_only scan_error (scan_elements n d vs s)"
  by (induction n d s and n d acc s and n d vs s rule: scan_value_scan_members_scan_elements.induct)
     (auto intro!: raises_intros simp: Let_def)

lemma json_loads_raises: "raises_only scan_error (json_loads depth t)"
  unfolding json_loads_def by (auto intro!: raises_intros scan_raises simp del: scan_value.simps)

lemma parse_error_simps [simp]:
  "parse_error (ProtocolValidationError m)" "parse_error (ProtocolVersionError v)"
  "parse_error (UnsupportedMessageTypeError t)" "parse_error (MalformedMessageError m)"
  "parse_error (InvalidUtf8Error m)" "parse_error RecursionError" "parse_error (ValueError m)"
  by (simp_all add: parse_error_def)

lemma raises_only_pyval [raises_intros]:
  "(\<And>t. v = PStr t \<Longrightarrow> raises_only P (f t)) \<Longrightarrow> P e \<Longrightarrow> raises_only P (case v of PStr t \<Rightarrow> f t | _ \<Rightarrow> Inl e)"
  "(\<And>i. v = PInt i \<Longrightarrow> raises_only P (g i)) \<Longrightarrow> P e \<Longrightarrow> raises_only P (case v of PInt i \<Rightarrow> g i | _ \<Rightarrow> Inl e)"
  "(\<And>vs. v = PList vs \<Longrightarrow> raises_only P (h vs)) \<Longrightarrow> P e \<Longrightarrow> raises_only P (case v of PList vs \<Rightarrow> h vs | _ \<Rightarrow> Inl e)"
  "(\<And>m. v = PDict m \<Longrightarrow> raises_only P (k m)) \<Longrightarrow> P e \<Longrightarrow> raises_only P (case v of PDict m \<Rightarrow> k m | _ \<Rightarrow> Inl e)"
  by (cases v; simp)+

lemma key_check_raises [raises_intros]:
  "raises_only parse_error (no_extra_keys ks m)" "raises_only parse_error (no_missing_keys ks m)"
  "raises_only parse_error (required_int k f m)" "raises_only parse_error (required_non_negative_int f m)"
  "raises_only parse_error (required_positive_int f m)"
  "raises_only parse_error (optional_non_negative_int f m)"
  "raises_only parse_error (validated_protocol_text n b v)" "raises_only parse_error (validated_hello_identity v)"
  unfolding no_extra_keys_def no_missing_keys_def required_int_def required_non_negative_int_def
    required_positive_int_def optional_non_negative_int_def validated_protocol_text_def
    validated_hello_identity_def
  by (auto intro!: raises_intros)

lemma parse_capabilities_raises [raises_intros]: "raises_only parse_error (parse_capabilities seen vs)"
  by (induction seen vs rule: parse_capabilities.induct) (auto intro!: raises_intros)

lemma parse_message_raises [raises_intros]:
  "raises_only parse_error (parse_hello m)" "raises_only parse_error (parse_uart m)"
  "raises_only parse_error (parse_buffer_overflow m)" "raises_only parse_error (parse_buffer_status m)"
  "raises_only parse_error (parse_command_success m)" "raises_only parse_error (parse_command_error m)"
  unfolding parse_hello_def parse_uart_def parse_buffer_overflow_def parse_buffer_status_def
    parse_command_success_def parse_command_error_def
  by (auto intro!: raises_intros)

lemma parse_payload_raises [raises_intros]: "raises_only parse_error (parse_payload m)"
  unfolding parse_payload_def parse_command_response_def
  by (auto intro!: raises_intros split: pyval.split bool.split)

lemma parse_device_message_raises: "raises_only parse_error (parse_device_message depth line)"
proof -
  have "raises_only (\<lambda>e. parse_error (if e = JSONDecodeError then MalformedMessageError m else e)) (json_loads depth t)"
    for m t
    by (rule raises_only_mono [OF json_loads_raises]) (auto simp: scan_error_def)
  then show ?thesis
    unfolding parse_device_message_def load_json_object_def
    by (auto intro!: raises_intros)
qed

lemma parse_frame_line_raises:
  "parse_frame_line depth line = Inl e \<Longrightarrow> parse_error e \<or> size_error e"
proof -
  assume "parse_frame_line depth line = Inl e"
  moreover have "raises_only parse_error (bind_r (frame_body line) (parse_device_message depth))"
    unfolding frame_body_def by (auto intro!: raises_intros parse_device_message_raises simp: Let_def)
  ultimately show ?thesis
    by (auto simp: parse_frame_line_def size_error_def dest: raises_onlyD split: if_splits)
qed

text \<open>The messages a frame yields carry natural numbers, so their translation loses nothing.\<close>

fun message_ok :: "device_message \<Rightarrow> bool" where
  "message_ok (Uart m) \<longleftrightarrow> 0 \<le> um_channel m \<and> 0 \<le> um_timestamp_us m"
| "message_ok (BufferOverflow m) \<longleftrightarrow> 0 \<le> om_channel m \<and> 0 \<le> om_timestamp_us m \<and> 0 < om_dropped_bytes m"
| "message_ok (BufferStatus m) \<longleftrightarrow>
     0 \<le> bs_timestamp_us m \<and> 0 < bs_uart_rx_size_bytes m \<and> 0 \<le> bs_uart_rx_used_bytes m
     \<and> 0 \<le> bs_uart_rx_high_water_bytes m \<and> 0 \<le> bs_dropped_bytes_total m \<and> 0 \<le> bs_overflow_events m"
| "message_ok _ \<longleftrightarrow> True"

lemma parse_payload_ok: "parse_payload m = Inr d \<Longrightarrow> message_ok d"
  by (auto simp: parse_payload_def parse_command_response_def parse_hello_def parse_uart_def
      parse_buffer_overflow_def parse_buffer_status_def parse_command_success_def parse_command_error_def
      required_non_negative_int_def required_positive_int_def required_int_Inr result_simps check_simps
      split: if_splits pyval.splits bool.splits option.splits)

lemma parse_frame_line_ok: "parse_frame_line depth line = Inr d \<Longrightarrow> message_ok d"
  by (auto simp: parse_frame_line_def parse_device_message_def result_simps check_simps dest: parse_payload_ok)

lemma parse_lines_ok: "d \<in> set (fst (parse_lines depth ls)) \<Longrightarrow> message_ok d"
  by (induction ls) (auto split: sum.splits prod.splits dest: parse_frame_line_ok)

section \<open>The errors of a stream\<close>

lemma size_error_made:
  "size_error e \<Longrightarrow> \<exists>n. backend_input_error_from_protocol e operation = Inr (BackendInputError
     (lit ''Enhanced protocol frame exceeds the device-to-host size limit'') (lit ''frame_too_large'')
     operation (Some (lit ''enhanced'')) (Some (int n)) (Some (int MAX_DEVICE_FRAME_BYTES)))
     \<and> MAX_DEVICE_FRAME_BYTES \<le> n"
  by (auto simp: size_error_def backend_input_error_from_protocol_def make_backend_input_error_def
      protocol_detail_def input_error_kinds_def MAX_DEVICE_FRAME_BYTES_def)

lemma protocol_input_error_kind: "protocol_input_error e \<in> set input_error_kinds"
  by (cases e) (simp_all add: input_error_kinds_def)

definition sized :: "exc \<Rightarrow> bool" where
  "sized e \<longleftrightarrow> (\<forall>n k. e = FrameTooLargeError n k \<longrightarrow> 0 < k \<and> k \<le> n)"

lemma classified:
  assumes "is_protocol_error e" and "sized e"
  shows "\<exists>detail kind observed limit.
      backend_input_error_from_protocol e operation =
        Inr (BackendInputError detail kind operation (Some (lit ''enhanced'')) observed limit)
      \<and> input_error_ok (BackendInputError detail kind operation (Some (lit ''enhanced'')) observed limit)"
  using assms
  by (cases e) (auto simp: backend_input_error_from_protocol_def make_backend_input_error_def
      input_error_kinds_def sized_def)

lemma parse_error_sized: "parse_error e \<Longrightarrow> sized e"
  by (auto simp: parse_error_def sized_def)

lemma size_error_sized: "size_error e \<Longrightarrow> sized e"
  by (auto simp: size_error_def sized_def MAX_DEVICE_FRAME_BYTES_def)

definition parser_ok :: "ndjson_parser \<Rightarrow> bool" where
  "parser_ok p \<longleftrightarrow> (\<forall>e. np_terminal_error p = Some e \<longrightarrow> is_protocol_error e \<and> sized e)"

lemma feed_chunk_errors:
  assumes "feed_chunk depth p c = (p', r)" and "parser_ok p"
  shows "parser_ok p' \<and> (\<forall>e. r = Inl e \<longrightarrow> is_protocol_error e \<and> sized e
     \<or> np_terminal_error p' = None \<and> (e = RecursionError \<or> (\<exists>m. e = ValueError m)))"
proof (cases "np_terminal_error p = None \<and> c \<noteq> []")
  case False
  with assms show ?thesis
    by (cases "np_terminal_error p") (auto simp: feed_chunk_def parser_ok_def)
next
  case True
  obtain ls rest ms err where s: "split_lines (np_buffer p @ c) = (ls, rest)" "parse_lines depth ls = (ms, err)"
    by fastforce
  show ?thesis
  proof (cases err)
    case None
    have "size_error (FrameTooLargeError (length rest) MAX_DEVICE_FRAME_BYTES)"
      if "length rest > MAX_PENDING_DEVICE_FRAME_BYTES"
      using that by (simp add: size_error_def MAX_PENDING_DEVICE_FRAME_BYTES_def)
    with True None s assms(1) size_error_sized show ?thesis
      by (auto simp: feed_chunk_def parser_ok_def messages_or_def Let_def split: if_splits)
  next
    case (Some e)
    with parse_lines_error [of depth ls e] s obtain l where "parse_frame_line depth l = Inl e" by auto
    from parse_frame_line_raises [OF this] parse_error_sized size_error_sized size_error_protocol
    have "is_protocol_error e \<and> sized e \<or> e = RecursionError \<or> (\<exists>m. e = ValueError m)"
      by (auto simp: parse_error_def)
    with True Some s assms(1) show ?thesis
      by (auto simp: feed_chunk_def parser_ok_def messages_or_def Let_def split: if_splits)
  qed
qed

section \<open>Properties of the event stream\<close>

fun event_feeds ::
  "nat \<Rightarrow> event_stream \<Rightarrow> bytes list \<Rightarrow> event_stream \<times> backend_event list" where
  "event_feeds depth s [] = (s, [])"
| "event_feeds depth s (c # cs) =
     (case event_feed depth s c of
        (s', r) \<Rightarrow>
          (case event_feeds depth s' cs of
             (s'', es) \<Rightarrow> (s'', (case r of Inl _ \<Rightarrow> [] | Inr es' \<Rightarrow> es') @ es)))"

lemma event_feeds_ok:
  "event_feeds depth s cs = (s', es) \<Longrightarrow> parser_ok (es_parser s) \<Longrightarrow>
     parser_ok (es_parser s') \<and> es_segment_id s' = es_segment_id s
     \<and> es_source_origin_us s' = es_source_origin_us s"
proof (induction cs arbitrary: s es)
  case (Cons c cs)
  obtain p r where f: "feed_chunk depth (es_parser s) c = (p, r)" by fastforce
  from feed_chunk_errors [OF f Cons.prems(2)] have "parser_ok p" by blast
  with Cons.IH [of "s\<lparr>es_parser := p\<rparr>"] Cons.prems(1) f show ?case
    by (auto simp: event_feed_def split: prod.splits)
qed simp

lemma relative_timestamp_errors:
  "0 \<le> origin \<Longrightarrow> relative_timestamp t origin = Inl e \<Longrightarrow>
     e = BackendInputError (lit ''Enhanced event timestamp precedes its segment origin'')
           (lit ''invalid_message'') None (Some (lit ''enhanced'')) None None"
  by (auto simp: relative_timestamp_def split: if_splits)

lemma normalize_messages_errors:
  "0 \<le> origin \<Longrightarrow> normalize_messages seg origin ms = Inl e \<Longrightarrow>
     e = BackendInputError (lit ''Enhanced event timestamp precedes its segment origin'')
           (lit ''invalid_message'') None (Some (lit ''enhanced'')) None None"
  by (induction ms)
     (auto simp: normalize_enhanced_message_def result_simps split: device_message.splits
        dest: relative_timestamp_errors)

text \<open>
  C27: Whatever bytes the device sends, the event stream raises either a well-formed input error
  of the Enhanced backend, never the \<open>ValueError\<close> of that error's own consistency checks, or one of
  the two exceptions of \<open>json.loads\<close> the parser lets through, and only then does it stay open.
\<close>

theorem event_stream_errors:
  assumes "event_feeds depth (new_event_stream seg origin) cs = (s, es)" and "0 \<le> origin"
    and "event_feed depth s c = (s', Inl e)"
  shows "(\<exists>detail kind observed limit.
       e = BackendInputError detail kind None (Some (lit ''enhanced'')) observed limit) \<and> input_error_ok e
     \<or> np_terminal_error (es_parser s') = None \<and> (e = RecursionError \<or> (\<exists>m. e = ValueError m))"
proof -
  have "parser_ok (es_parser (new_event_stream seg origin))"
    by (simp add: new_event_stream_def new_ndjson_parser_def parser_ok_def)
  with event_feeds_ok [OF assms(1)] have ok: "parser_ok (es_parser s)" "es_source_origin_us s = origin"
    by (auto simp: new_event_stream_def)
  obtain p r where f: "feed_chunk depth (es_parser s) c = (p, r)" by fastforce
  show ?thesis
  proof (cases r)
    case (Inr ms)
    with f assms(2,3) ok(2) normalize_messages_errors [of origin "es_segment_id s" ms e]
    show ?thesis by (auto simp: event_feed_def input_error_kinds_def)
  next
    case (Inl e0)
    with feed_chunk_errors [OF f ok(1)] have "is_protocol_error e0 \<and> sized e0
      \<or> np_terminal_error p = None \<and> (e0 = RecursionError \<or> (\<exists>m. e0 = ValueError m))" by blast
    then show ?thesis
    proof
      assume "is_protocol_error e0 \<and> sized e0"
      with classified [of e0 None] obtain detail kind observed limit where
        b: "backend_input_error_from_protocol e0 None =
            Inr (BackendInputError detail kind None (Some (lit ''enhanced'')) observed limit)"
          "input_error_ok (BackendInputError detail kind None (Some (lit ''enhanced'')) observed limit)"
        by blast
      with f Inl assms(3) \<open>is_protocol_error e0 \<and> sized e0\<close>
      have "e = BackendInputError detail kind None (Some (lit ''enhanced'')) observed limit"
        by (simp add: event_feed_def raise_made_def)
      with b(2) show ?thesis by blast
    next
      assume "np_terminal_error p = None \<and> (e0 = RecursionError \<or> (\<exists>m. e0 = ValueError m))"
      with f Inl assms(3) show ?thesis by (auto simp: event_feed_def)
    qed
  qed
qed

theorem event_stream_errors_witness:
  "\<exists>s'. event_feed 1 (new_event_stream 0 0) [nl] = (s', Inl (BackendInputError
       (lit ''Enhanced protocol message does not match the expected schema'') (lit ''invalid_message'')
       None (Some (lit ''enhanced'')) None None))
     \<and> input_error_ok (BackendInputError
       (lit ''Enhanced protocol message does not match the expected schema'') (lit ''invalid_message'')
       None (Some (lit ''enhanced'')) None None)"
proof -
  let ?e = "BackendInputError (lit ''Enhanced protocol message does not match the expected schema'')
    (lit ''invalid_message'') None (Some (lit ''enhanced'')) None None"
  obtain s' where f: "event_feed 1 (new_event_stream 0 0) [nl] = (s', Inl ?e)"
    by (simp add: event_feed_def new_event_stream_def feed_chunk_def new_ndjson_parser_def split_lines_def
        parse_frame_line_def frame_body_def MAX_DEVICE_FRAME_BYTES_def messages_or_def raise_made_def
        backend_input_error_from_protocol_def make_backend_input_error_def input_error_kinds_def protocol_detail_def)
  from event_stream_errors [of 1 0 0 "[]" "new_event_stream 0 0" "[]", OF _ _ f] f show ?thesis by auto
qed

text \<open>The event a message stands for.\<close>

fun event_of :: "nat \<Rightarrow> int \<Rightarrow> device_message \<Rightarrow> backend_event \<Rightarrow> bool" where
  "event_of seg origin (Uart m) (ReceiveEvent e) \<longleftrightarrow>
     ev_segment_id e = seg \<and> origin + int (ev_timestamp_us e) = um_timestamp_us m
     \<and> int (ev_channel e) = um_channel m \<and> ev_data e = um_data m"
| "event_of seg origin (BufferOverflow m) (OverflowEvent e) \<longleftrightarrow>
     bo_segment_id e = seg \<and> origin + int (bo_timestamp_us e) = om_timestamp_us m
     \<and> int (bo_channel e) = om_channel m \<and> int (bo_dropped_bytes e) = om_dropped_bytes m"
| "event_of seg origin (BufferStatus m) (StatusEvent e) \<longleftrightarrow>
     be_segment_id e = seg \<and> origin + int (be_timestamp_us e) = bs_timestamp_us m
     \<and> int (be_size_bytes e) = bs_uart_rx_size_bytes m \<and> int (be_used_bytes e) = bs_uart_rx_used_bytes m
     \<and> int (be_high_water_bytes e) = bs_uart_rx_high_water_bytes m
     \<and> int (be_dropped_bytes_total e) = bs_dropped_bytes_total m
     \<and> int (be_overflow_events e) = bs_overflow_events m"
| "event_of seg origin _ _ \<longleftrightarrow> False"

abbreviation carries_event :: "device_message \<Rightarrow> bool" where
  "carries_event m \<equiv> enhanced_message_timestamp_us m \<noteq> None"

definition in_segment :: "int \<Rightarrow> device_message \<Rightarrow> bool" where
  "in_segment origin m \<longleftrightarrow> (\<forall>t. enhanced_message_timestamp_us m = Some t \<longrightarrow> origin \<le> t)"

lemma normalize_message_ok:
  "0 \<le> origin \<Longrightarrow> message_ok m \<Longrightarrow> in_segment origin m \<Longrightarrow>
     \<exists>e. normalize_enhanced_message m seg origin = Inr e
        \<and> (case e of None \<Rightarrow> \<not> carries_event m | Some ev \<Rightarrow> carries_event m \<and> event_of seg origin m ev)"
  by (cases m) (auto simp: normalize_enhanced_message_def relative_timestamp_def in_segment_def)

lemma normalize_messages_ok:
  "0 \<le> origin \<Longrightarrow> \<forall>m \<in> set ms. message_ok m \<and> in_segment origin m \<Longrightarrow>
     \<exists>es. normalize_messages seg origin ms = Inr es
        \<and> list_all2 (event_of seg origin) (filter carries_event ms) es"
proof (induction ms)
  case (Cons m ms)
  from Cons obtain es where es: "normalize_messages seg origin ms = Inr es"
    "list_all2 (event_of seg origin) (filter carries_event ms) es" by auto
  from normalize_message_ok [of origin m seg] Cons.prems obtain e where
    e: "normalize_enhanced_message m seg origin = Inr e"
      "case e of None \<Rightarrow> \<not> carries_event m | Some ev \<Rightarrow> carries_event m \<and> event_of seg origin m ev" by auto
  show ?case
  proof (cases e)
    case None
    with e es show ?thesis by simp
  next
    case (Some ev)
    with e(2) have "carries_event m" "event_of seg origin m ev" by simp_all
    with e(1) es Some show ?thesis by simp
  qed
qed simp

lemma normalize_messages_append:
  "normalize_messages seg origin (xs @ ys) =
     bind_r (normalize_messages seg origin xs) (\<lambda>as.
     bind_r (normalize_messages seg origin ys) (\<lambda>bs. Inr (as @ bs)))"
proof (induction xs)
  case Nil
  then show ?case by (cases "normalize_messages seg origin ys") simp_all
next
  case (Cons x xs)
  then show ?case
    by (cases "normalize_enhanced_message x seg origin"; cases "normalize_messages seg origin xs";
        cases "normalize_messages seg origin ys") (auto split: option.splits)
qed

text \<open>The events of a run are the translation of the messages its frame parser delivers.\<close>

lemma event_feeds_messages:
  assumes "feed_chunks depth (es_parser s) cs = (p, ms)"
    and "normalize_messages (es_segment_id s) (es_source_origin_us s) ms = Inr es"
  shows "event_feeds depth s cs = (s\<lparr>es_parser := p\<rparr>, es)"
  using assms
proof (induction cs arbitrary: s ms es)
  case (Cons c cs)
  obtain p1 r where f: "feed_chunk depth (es_parser s) c = (p1, r)" by fastforce
  obtain ms2 where r: "feed_chunks depth p1 cs = (p, ms2)"
    "ms = (case r of Inl _ \<Rightarrow> [] | Inr ms' \<Rightarrow> ms') @ ms2"
    using Cons.prems(1) f by (auto split: prod.splits)
  from Cons.prems(2) r(2) obtain es1 es2 where
    e: "normalize_messages (es_segment_id s) (es_source_origin_us s) (case r of Inl _ \<Rightarrow> [] | Inr ms' \<Rightarrow> ms') = Inr es1"
      "normalize_messages (es_segment_id s) (es_source_origin_us s) ms2 = Inr es2" "es = es1 @ es2"
    by (auto simp: normalize_messages_append result_simps)
  have "event_feeds depth (s\<lparr>es_parser := p1\<rparr>) cs = (s\<lparr>es_parser := p\<rparr>, es2)"
    using Cons.IH [of "s\<lparr>es_parser := p1\<rparr>" ms2 es2] r(1) e(2) by simp
  with f e(1,3) show ?case
    by (cases r) (auto simp: event_feed_def raise_made_def split: sum.splits)
qed simp


text \<open>A frame with an event, as the device writes it.\<close>

definition uart_frame :: bytes where
  "uart_frame = CHR ''{'' # ''\"type\":\"uart\",\"channel\":0,\"timestamp_us\":7,\"data_b64\":\"aGk=\"'' @ [CHR ''}'']"

lemma uart_frame_parses:
  "parse_frame_line 1 uart_frame = Inr (Uart \<lparr>um_channel = 0, um_timestamp_us = 7, um_data = ''hi'',
     um_text = utf8_decode_replace ''hi''\<rparr>)"
proof -
  have dump: "dump_value (PDict demo_uart) = lit uart_frame"
    by (simp add: uart_frame_def demo_uart_def dump_string_def dump_int_def lit_def escape_char_def nat_digits.simps)
  have "utf8_encode (lit uart_frame) = Some uart_frame"
    by (intro utf8_encode_lit) (simp add: uart_frame_def)
  moreover have "dumpable (PDict demo_uart)"
    by (simp add: demo_uart_def dict_keys_def MAX_STR_DIGITS_def nat_digits.simps)
  ultimately have f: "frame_of demo_uart uart_frame" by (simp add: frame_of_def json_dumps_def flip: dump)
  have "b64encode_str ''hi'' = lit ''aGk=''" by (simp add: b64encode_str_def b64_char_def char_of_eq_iff)
  then have b: "b64decode (lit ''aGk='') = Some ''hi''" using b64decode_encode [of "''hi''"] by simp
  have "parse_device_message 1 uart_frame = parse_payload demo_uart"
    by (rule parse_frame [OF f]) (simp add: demo_uart_def)
  also have "\<dots> = Inr (Uart \<lparr>um_channel = 0, um_timestamp_us = 7, um_data = ''hi'',
      um_text = utf8_decode_replace ''hi''\<rparr>)"
    using b by (simp add: parse_payload_def parse_uart_def item_def demo_uart_def dict_keys_def uart_keys_def
        no_extra_keys_def no_missing_keys_def required_non_negative_int_def required_int_def
        MAX_UART_PAYLOAD_BYTES_def)
  finally show ?thesis
    using frame_body_braces [of "butlast (tl uart_frame)"]
    by (simp add: parse_frame_line_def MAX_DEVICE_FRAME_BYTES_def uart_frame_def)
qed


section \<open>Properties of the command exchanges\<close>

text \<open>What the transport is relied on for: a frame-size error it raises names sizes that fit.\<close>

definition transport_sized :: "'s transport \<Rightarrow> bool" where
  "transport_sized request \<longleftrightarrow>
     (\<forall>frame t s e s'. request frame t s = (Inl e, s') \<longrightarrow> is_protocol_error e \<longrightarrow> sized e)"

lemma command_frame_ok:
  assumes "command_ok c"
  obtains body where "command_frame c = Inr (body @ [nl])" and "nl \<notin> set body"
    and "load_json_object 1 body = Inr (to_payload c)"
    and "validate_host_command_frame (PBytes (body @ [nl])) = Inr ()"
proof -
  from command_frame_exists [OF assms, of 1] obtain body where
    "to_ndjson c = Some (Inr (body @ [nl]))" "length body < MAX_HOST_FRAME_BYTES"
    "nl \<notin> set body" "load_json_object 1 body = Inr (to_payload c)" by auto
  then show thesis
    using that by (simp add: command_frame_def validate_host_command_frame_def suffix_def)
qed

lemma uart_send_command_Inr:
  "uart_send_command (PBytes d) = Inr c \<longleftrightarrow> c = UartSend d \<and> 1 \<le> length d \<and> length d \<le> 1024"
  by (auto simp: uart_send_command_def Suc_le_eq split: if_splits)

lemma send_failure_kind:
  assumes "is_protocol_error e \<longrightarrow> sized e"
  shows "(\<exists>m b k. send_failure e = BackendWriteError m b k) \<or> is_host_frame_error e
     \<or> (\<exists>d k op m n l. send_failure e = BackendInputError d k op m n l)"
proof (cases "is_protocol_error e \<and> \<not> is_host_frame_error e")
  case True
  with assms classified [of e "Some (lit ''uart_send'')"] show ?thesis
    by (cases e) (auto simp: send_failure_def is_host_frame_error_def)
next
  case False
  then show ?thesis by (cases e) (auto simp: send_failure_def is_host_frame_error_def)
qed

text \<open>
  C28: The Enhanced sender reports success only for a complete transmission: the device acknowledged,
  with a time, exactly as many bytes as were asked for, and the one frame written holds them in
  base64. A payload of no or more than 1024 bytes is refused before anything is written. Every other
  failure is a write error or an input error, unless the transport itself refuses the frame.
\<close>

theorem enhanced_send_complete:
  assumes "transport_sized request" and "enhanced_send_uart request t d s = (r, s')"
  shows "case r of
      Inr q \<Rightarrow> sr_bytes_accepted q = int (length d)
        \<and> (\<exists>body ts. load_json_object 1 body = Inr (to_payload (UartSend d))
             \<and> request (body @ [nl]) t s
                 = (Inr (CommandSuccess \<lparr>cs_timestamp_us = Some ts, cs_bytes_accepted = Some (int (length d))\<rparr>), s')
             \<and> sr_device_timestamp_us q = Some ts)
    | Inl e \<Rightarrow>
        if 1 \<le> length d \<and> length d \<le> 1024 then
          (\<exists>m b k. e = BackendWriteError m b k) \<or> (\<exists>dt k op m n l. e = BackendInputError dt k op m n l)
          \<or> is_host_frame_error e
        else s' = s \<and> (\<exists>m. e = ProtocolValidationError m)"
proof (cases "1 \<le> length d \<and> length d \<le> 1024")
  case False
  then have "\<exists>m. uart_send_command (PBytes d) = Inl (ProtocolValidationError m)"
    by (auto simp: uart_send_command_def Suc_le_eq)
  with assms(2) False show ?thesis by (auto simp: enhanced_send_uart_def)
next
  case True
  then have c: "uart_send_command (PBytes d) = Inr (UartSend d)" by (simp add: uart_send_command_Inr)
  from builders_ok(4) [OF c] obtain body where
    b: "command_frame (UartSend d) = Inr (body @ [nl])" "load_json_object 1 body = Inr (to_payload (UartSend d))"
    by (rule command_frame_ok)
  obtain q s1 where q: "request (body @ [nl]) t s = (q, s1)" by fastforce
  show ?thesis
  proof (cases q)
    case (Inl e)
    with assms(1) q have "is_protocol_error e \<longrightarrow> sized e" unfolding transport_sized_def by blast
    from send_failure_kind [OF this] assms(2) c b q Inl True show ?thesis
      by (auto simp: enhanced_send_uart_def is_host_frame_error_def send_failure_def)
  next
    case (Inr resp)
    with assms(2) c b(1) q have r: "r = uart_send_result resp (length d)" "s' = s1"
      by (simp_all add: enhanced_send_uart_def)
    show ?thesis
    proof (cases r)
      case (Inl e)
      with r True show ?thesis
        by (cases resp) (auto simp: uart_send_result_def split: if_splits option.splits)
    next
      case (Inr r')
      with r obtain m ts where m: "resp = CommandSuccess m" "cs_bytes_accepted m = Some (int (length d))"
        "cs_timestamp_us m = Some ts"
        "r' = \<lparr>sr_bytes_accepted = int (length d), sr_device_timestamp_us = Some ts\<rparr>"
        by (cases resp) (auto simp: uart_send_result_def split: if_splits option.splits)
      then have "m = \<lparr>cs_timestamp_us = Some ts, cs_bytes_accepted = Some (int (length d))\<rparr>" by simp
      with m(1,4) q \<open>q = Inr resp\<close> r(2) b(2) Inr show ?thesis by auto
    qed
  qed
qed

text \<open>A transport whose device acknowledges whatever it is sent, counting the frames.\<close>

definition acknowledging :: "int \<Rightarrow> nat transport" where
  "acknowledging n frame t s =
     (Inr (CommandSuccess \<lparr>cs_timestamp_us = Some 9, cs_bytes_accepted = Some n\<rparr>), Suc s)"

theorem enhanced_send_complete_witness:
  "\<exists>q. enhanced_send_uart (acknowledging 2) 1 ''hi'' 0 = (Inr q, 1) \<and> sr_bytes_accepted q = 2"
proof -
  have "transport_sized (acknowledging 2)" by (simp add: transport_sized_def acknowledging_def)
  moreover have c: "uart_send_command (PBytes ''hi'') = Inr (UartSend ''hi'')"
    by (simp add: uart_send_command_def)
  from builders_ok(4) [OF c] obtain body where "command_frame (UartSend ''hi'') = Inr (body @ [nl])"
    by (rule command_frame_ok)
  with c have "enhanced_send_uart (acknowledging 2) 1 ''hi'' 0
      = (Inr \<lparr>sr_bytes_accepted = 2, sr_device_timestamp_us = Some 9\<rparr>, 1)"
    by (simp add: enhanced_send_uart_def acknowledging_def uart_send_result_def)
  ultimately show ?thesis
    using enhanced_send_complete [of "acknowledging 2" 1 "''hi''" 0] by fastforce
qed

end
