(* ===== verification/Device_Actions.thy ===== *)
theory Device_Actions
  imports Enhanced_Backend Gpio_Modes
begin

text \<open>
  The hardware actions of \<open>workflows/device_actions.py\<close>: reset and boot mode, guarded by the registry
  of accepted GPIO roles. The device control is a parameter with its own state; the wall clock is the
  formatted time it gives.
\<close>

datatype device_action = ResetAction | SetBootModeAction

record action_result =
  ar_action :: device_action
  ar_performed_at :: ustr
  ar_device_timestamp_us :: "int option"
  ar_pulse_ms :: "int option"
  ar_mode :: "boot_mode option"

definition make_action_result ::
  "device_action \<Rightarrow> ustr \<Rightarrow> int option \<Rightarrow> int option \<Rightarrow> boot_mode option \<Rightarrow> exc + action_result" where
  "make_action_result action performed_at timestamp pulse_ms mode =
     (let result = \<lparr>ar_action = action, ar_performed_at = performed_at, ar_device_timestamp_us = timestamp,
        ar_pulse_ms = pulse_ms, ar_mode = mode\<rparr> in
      case action of
        ResetAction \<Rightarrow>
          if pulse_ms = None \<or> mode \<noteq> None then Inl (ValueError ''reset results require pulse_ms and omit mode'')
          else Inr result
      | SetBootModeAction \<Rightarrow>
          if mode = None \<or> pulse_ms \<noteq> None then Inl (ValueError ''boot-mode results require mode and omit pulse_ms'')
          else Inr result)"

text \<open>\<open>_run_action\<close>: a control error becomes an action error, everything else passes.\<close>

definition run_action :: "(exc + 'a) \<times> 's \<Rightarrow> (exc + 'a) \<times> 's" where
  "run_action res =
     (case res of
        (Inl (DeviceControlError error detail), s) \<Rightarrow> (Inl (DeviceActionError error detail), s)
      | _ \<Rightarrow> res)"

definition role_guard ::
  "registry \<Rightarrow> string \<Rightarrow> string \<Rightarrow> exc + 'v \<Rightarrow> exc + ('v \<times> channel_state)" where
  "role_guard registry role operation validated =
     bind_r (catch_r is_value_error (\<lambda>_. InputValidationError ''invalid action argument'') validated) (\<lambda>v.
     bind_r (require_role_configured registry (PStr (lit role)) (Some (lit operation))) (\<lambda>c. Inr (v, c)))"

definition reset_dut ::
  "registry \<Rightarrow> (pyval \<Rightarrow> int \<Rightarrow> 's \<Rightarrow> (exc + int option) \<times> 's) \<Rightarrow> ustr \<Rightarrow> pyval \<Rightarrow> 's
     \<Rightarrow> (exc + action_result) \<times> 's" where
  "reset_dut registry pulse_control now pulse_ms s =
     (case role_guard registry ''reset'' ''reset'' (validate_reset_pulse pulse_ms) of
        Inl e \<Rightarrow> (Inl e, s)
      | Inr (p, c) \<Rightarrow>
          (case run_action (pulse_control (PStr (lit (channel_name (gc_channel c)))) p s) of
             (Inl e, s') \<Rightarrow> (Inl e, s')
           | (Inr ts, s') \<Rightarrow> (make_action_result ResetAction now ts (Some p) None, s')))"

definition set_boot_mode ::
  "registry \<Rightarrow> (pyval \<Rightarrow> pyval \<Rightarrow> 's \<Rightarrow> (exc + int option) \<times> 's) \<Rightarrow> ustr \<Rightarrow> pyval \<Rightarrow> 's
     \<Rightarrow> (exc + action_result) \<times> 's" where
  "set_boot_mode registry set_control_state now mode s =
     (case role_guard registry ''boot'' ''set_boot_mode'' (validate_boot_mode mode) of
        Inl e \<Rightarrow> (Inl e, s)
      | Inr (m, c) \<Rightarrow>
          let state = (case m of BootBootloader \<Rightarrow> ''active'' | BootNormal \<Rightarrow> ''idle'') in
          (case run_action (set_control_state (PStr (lit (channel_name (gc_channel c)))) (PStr (lit state)) s) of
             (Inl e, s') \<Rightarrow> (Inl e, s')
           | (Inr ts, s') \<Rightarrow> (make_action_result SetBootModeAction now ts None (Some m), s')))"

section \<open>What reaches the device\<close>

lemma identifier_roles: "identifier_ok (lit ''reset'')" "identifier_ok (lit ''boot'')"
proof -
  have e: "utf8_encode (lit ''reset'') = Some ''reset''" "utf8_encode (lit ''boot'') = Some ''boot''"
    by (intro utf8_encode_lit; simp)+
  show "identifier_ok (lit ''reset'')" "identifier_ok (lit ''boot'')"
    by (simp_all add: identifier_ok_def e) (auto simp: lit_def is_unicode_whitespace_def is_cc_def)
qed

lemma require_role_Inr:
  assumes "registry_ok r" and "identifier_ok name" and "require_role_configured r (PStr name) operation = Inr c"
  shows "\<exists>q. assigned r (gc_channel c) = Some q \<and> cfg_role q = name"
proof -
  from assms(3) obtain n where n: "validate_gpio_role (PStr name) = Inr n" "find_by_role r (PStr n) = Inr (Some c)"
    by (auto simp: require_role_configured_def result_simps split: option.splits)
  from n(1) have "n = name" by (auto simp: validate_gpio_role_def validate_gpio_identifier_Inr)
  with n(2) find_by_role_iff [OF assms(1,2)] obtain ch q where
    "assigned r ch = Some q" "cfg_role q = name" "c = r ch" by auto
  moreover have "gc_channel (r ch) = ch"
    using assms(1) by (simp add: registry_ok_def channel_ok_def)
  ultimately show ?thesis by auto
qed

lemma role_guard_Inr:
  assumes "registry_ok r" and "identifier_ok (lit role)" and "role_guard r role operation m = Inr (v, c)"
  shows "m = Inr v \<and> (\<exists>q. assigned r (gc_channel c) = Some q \<and> cfg_role q = lit role)"
  using assms(3) require_role_Inr [OF assms(1,2), of _ c] by (auto simp: role_guard_def result_simps)

lemma role_guard_Inl:
  assumes "role_guard r role operation m = Inl e" and "raises_only is_value_error m" and "identifier_ok (lit role)"
  shows "(\<exists>t. e = InputValidationError t) \<or> (\<exists>d st. e = GpioConfigurationError d (Some (lit operation)) (Some (lit role)) (Some st))"
proof -
  have v: "validate_gpio_role (PStr (lit role)) = Inr (lit role)"
    using assms(3) by (simp add: validate_gpio_role_def validate_gpio_identifier_Inr)
  from assms(1) v show ?thesis
    using raises_onlyD [OF assms(2)]
    by (cases m) (auto simp: role_guard_def require_role_configured_def find_by_role_def result_simps
        split: option.splits)
qed

lemma validate_channel_name: "validate_gpio_channel (PStr (lit (channel_name c))) = Inr c"
  by (cases c) (simp_all add: validate_gpio_channel_def ALL_CONTROL_CHANNELS_def)

lemma validate_reset_pulse_raises: "raises_only is_value_error (validate_reset_pulse v)"
  by (auto simp: validate_reset_pulse_def raises_only_def split: pyval.splits if_splits)

lemma validate_boot_mode_raises: "raises_only is_value_error (validate_boot_mode v)"
  by (auto simp: validate_boot_mode_def raises_only_def split: if_splits)

lemma request_success_Inr:
  "request_success request op lb t frame s = (Inr ts, s') \<longleftrightarrow>
     (\<exists>m. request frame t s = (Inr (CommandSuccess m), s') \<and> ts = cs_timestamp_us m)"
  by (auto simp: request_success_def control_success_timestamp_def Let_def
      split: prod.splits sum.splits device_message.splits)

text \<open>The frame of a control command, as the device reads it.\<close>

definition one_command :: "'s transport \<Rightarrow> host_command \<Rightarrow> rat \<Rightarrow> 's \<Rightarrow> exc + device_message \<Rightarrow> 's \<Rightarrow> bool" where
  "one_command request c t s r s' \<longleftrightarrow>
     (\<exists>body. load_json_object 1 body = Inr (to_payload c) \<and> nl \<notin> set body
        \<and> validate_host_command_frame (PBytes (body @ [nl])) = Inr () \<and> request (body @ [nl]) t s = (r, s'))"

lemma one_commandI:
  assumes "command_ok c" and "command_frame c = Inr frame"
  shows "one_command request c t s (fst (request frame t s)) (snd (request frame t s))"
proof -
  from command_frame_ok [OF assms(1)] assms(2) obtain body where
    "frame = body @ [nl]" "nl \<notin> set body" "load_json_object 1 body = Inr (to_payload c)"
    "validate_host_command_frame (PBytes (body @ [nl])) = Inr ()" by auto
  then show ?thesis unfolding one_command_def by (metis prod.collapse)
qed

lemma pulse_built:
  assumes "1 \<le> p" and "p \<le> 10000"
  obtains frame where "bind_r (pulse_control_command (PStr (lit (channel_name c))) (PInt p)) command_frame = Inr frame"
    and "command_frame (PulseControl c p) = Inr frame" and "command_ok (PulseControl c p)"
proof -
  have c: "pulse_control_command (PStr (lit (channel_name c))) (PInt p) = Inr (PulseControl c p)"
    using assms by (simp add: pulse_control_command_def as_protocol_error_def validate_channel_name
        validate_reset_pulse_def)
  from builders_ok(2) [OF c] have ok: "command_ok (PulseControl c p)" .
  then obtain body where "command_frame (PulseControl c p) = Inr (body @ [nl])" by (rule command_frame_ok)
  with c ok show thesis using that by simp
qed

lemma control_state_built:
  assumes "st = ''active'' \<and> x = Active \<or> st = ''idle'' \<and> x = Idle"
  obtains frame where
    "bind_r (set_control_state_command (PStr (lit (channel_name c))) (PStr (lit st))) command_frame = Inr frame"
    and "command_frame (SetControlState c x) = Inr frame" and "command_ok (SetControlState c x)"
proof -
  have c: "set_control_state_command (PStr (lit (channel_name c))) (PStr (lit st)) = Inr (SetControlState c x)"
    using assms by (auto simp: set_control_state_command_def as_protocol_error_def validate_channel_name)
  from builders_ok(3) [OF c] have ok: "command_ok (SetControlState c x)" .
  then obtain body where "command_frame (SetControlState c x) = Inr (body @ [nl])" by (rule command_frame_ok)
  with c ok show thesis using that by simp
qed

lemma run_action_Inr [simp]: "run_action x = (Inr v, s) \<longleftrightarrow> x = (Inr v, s)"
  by (cases x) (auto simp: run_action_def split: sum.splits exc.splits)

lemma exchange_result:
  assumes "request frame w s = (resp, s1)"
  shows "\<exists>r. run_action (request_success request op lb w frame s) = (r, s1)
     \<and> (case r of Inr v \<Rightarrow> \<exists>m. resp = Inr (CommandSuccess m) \<and> v = cs_timestamp_us m
        | Inl _ \<Rightarrow> \<forall>m. resp \<noteq> Inr (CommandSuccess m))"
proof -
  obtain ts s2 where sc: "request_success request op lb w frame s = (ts, s2)" by fastforce
  have s2: "s2 = s1" using sc assms by (auto simp: request_success_def Let_def split: sum.splits)
  show ?thesis
  proof (cases ts)
    case (Inr v)
    with sc assms obtain m where "resp = Inr (CommandSuccess m)" "v = cs_timestamp_us m"
      by (auto simp: request_success_Inr)
    with sc s2 Inr show ?thesis by (simp add: run_action_def)
  next
    case (Inl e)
    with sc assms have "\<forall>m. resp \<noteq> Inr (CommandSuccess m)"
      by (auto simp: request_success_def control_success_timestamp_def Let_def)
    moreover obtain e' where "run_action (ts, s2) = (Inl e', s2)"
      using Inl by (cases e) (simp_all add: run_action_def)
    ultimately show ?thesis using sc s2 by auto
  qed
qed

text \<open>
  C29: The DUT is reset only through a channel whose reset role the device has accepted. For a well
  formed registry a call of \<open>reset_dut\<close> over the Enhanced control either leaves the connection
  untouched, with an input error for an invalid pulse or a configuration error that names the role,
  or writes exactly one frame, the pulse of the requested length on the channel of the role, and
  waits at least half a second longer than the pulse; it succeeds exactly when the device
  acknowledges that frame.
\<close>

theorem reset_dut_guarded:
  assumes "registry_ok r" and "reset_dut r (enhanced_pulse_control request t) now v s = (x, s')"
  shows "(\<exists>e. x = Inl e \<and> s' = s \<and> ((\<exists>m. e = InputValidationError m) \<or>
        (\<exists>d st. e = GpioConfigurationError d (Some (lit ''reset'')) (Some (lit ''reset'')) (Some st))))
    \<or> (\<exists>p c q w resp. v = PInt p \<and> 1 \<le> p \<and> p \<le> 10000 \<and> assigned r c = Some q \<and> cfg_role q = lit ''reset''
        \<and> of_int p / 1000 + 1 / 2 \<le> w \<and> one_command request (PulseControl c p) w s resp s'
        \<and> (case x of
             Inr res \<Rightarrow> \<exists>m. resp = Inr (CommandSuccess m)
               \<and> res = \<lparr>ar_action = ResetAction, ar_performed_at = now,
                    ar_device_timestamp_us = cs_timestamp_us m, ar_pulse_ms = Some p, ar_mode = None\<rparr>
           | Inl _ \<Rightarrow> \<forall>m. resp \<noteq> Inr (CommandSuccess m)))"
proof (cases "role_guard r ''reset'' ''reset'' (validate_reset_pulse v)")
  case (Inl e)
  with role_guard_Inl [OF Inl validate_reset_pulse_raises identifier_roles(1)] assms(2)
  show ?thesis by (auto simp: reset_dut_def)
next
  case (Inr g)
  then obtain p c where g: "role_guard r ''reset'' ''reset'' (validate_reset_pulse v) = Inr (p, c)" by (cases g) auto
  from role_guard_Inr [OF assms(1) identifier_roles(1) g] obtain q where
    q: "validate_reset_pulse v = Inr p" "assigned r (gc_channel c) = Some q" "cfg_role q = lit ''reset''" by auto
  from q(1) have p: "v = PInt p" "1 \<le> p" "p \<le> 10000"
    by (auto simp: validate_reset_pulse_def split: pyval.splits if_splits)
  define w where "w = max t (of_int p / 1000 + ENHANCED_PULSE_COMPLETION_MARGIN_S)"
  from p(2,3) obtain frame where
    f: "bind_r (pulse_control_command (PStr (lit (channel_name (gc_channel c)))) (PInt p)) command_frame = Inr frame"
      "command_frame (PulseControl (gc_channel c) p) = Inr frame" "command_ok (PulseControl (gc_channel c) p)"
    by (rule pulse_built)
  obtain resp s1 where rq: "request frame w s = (resp, s1)" by fastforce
  from one_commandI [OF f(3,2), of request w s] rq
  have one: "one_command request (PulseControl (gc_channel c) p) w s resp s1" by simp
  from exchange_result [of request frame w s resp s1 "''reset''" None, OF rq] obtain ra where
    ra: "run_action (enhanced_pulse_control request t (PStr (lit (channel_name (gc_channel c)))) p s) = (ra, s1)"
      "case ra of Inr v' \<Rightarrow> \<exists>m. resp = Inr (CommandSuccess m) \<and> v' = cs_timestamp_us m
        | Inl _ \<Rightarrow> \<forall>m. resp \<noteq> Inr (CommandSuccess m)"
    using f(1) by (auto simp: enhanced_pulse_control_def w_def)
  have w: "of_int p / 1000 + 1 / 2 \<le> w" by (simp add: w_def ENHANCED_PULSE_COMPLETION_MARGIN_S_def)
  have "s' = s1 \<and> (case x of
      Inr res \<Rightarrow> \<exists>m. resp = Inr (CommandSuccess m)
        \<and> res = \<lparr>ar_action = ResetAction, ar_performed_at = now,
             ar_device_timestamp_us = cs_timestamp_us m, ar_pulse_ms = Some p, ar_mode = None\<rparr>
    | Inl _ \<Rightarrow> \<forall>m. resp \<noteq> Inr (CommandSuccess m))"
    using assms(2) g ra by (cases ra) (auto simp: reset_dut_def make_action_result_def)
  with p q w one show ?thesis by blast
qed

text \<open>A registry with an accepted reset role, and a device that acknowledges every frame.\<close>

definition reset_configuration :: gpio_configuration where
  "reset_configuration =
     \<lparr>cfg_channel = CTRL1, cfg_role = lit ''reset'', cfg_dut_signal = lit ''reset'', cfg_mode = OpenDrain,
      cfg_active_level = Low, cfg_idle_level = None\<rparr>"

lemma reset_accepted:
  obtains r s where "accept_mode (lit ''t'') new_registry (PStr (lit ''CTRL1'')) (PStr (lit ''reset''))
      (PStr (lit ''reset'')) (PStr (lit ''open_drain'')) (PStr (lit ''low'')) PNone (PStr (lit ''config'')) None = Inr (r, s)"
    and "registry_ok r" and "assigned r CTRL1 = Some reset_configuration"
proof -
  have "validate_gpio_configuration (PStr (lit ''CTRL1'')) (PStr (lit ''reset'')) (PStr (lit ''reset''))
      (PStr (lit ''open_drain'')) (PStr (lit ''low'')) PNone = Inr reset_configuration"
    using identifier_roles(1) by (simp add: reset_configuration_def validate_gpio_configuration_Inr)
  moreover have "validate_gpio_source (PStr (lit ''config'')) = Inr FromConfig"
    by (simp add: validate_gpio_source_Inr)
  ultimately obtain r s where a: "accept_mode (lit ''t'') new_registry (PStr (lit ''CTRL1'')) (PStr (lit ''reset''))
      (PStr (lit ''reset'')) (PStr (lit ''open_drain'')) (PStr (lit ''low'')) PNone (PStr (lit ''config'')) None = Inr (r, s)"
    by (simp add: accept_mode_def Let_def)
  from accept_mode_assigned [OF registry_ok_new a]
    \<open>validate_gpio_configuration _ _ _ _ _ _ = _\<close>
  show thesis using that [OF a] by (auto simp: reset_configuration_def assign_def)
qed

theorem reset_dut_guarded_witness:
  "\<exists>r res s'. registry_ok r
     \<and> reset_dut r (enhanced_pulse_control (acknowledging 0) 1) (lit ''now'') (PInt 100) 0 = (Inr res, s')
     \<and> ar_pulse_ms res = Some 100 \<and> assigned r CTRL1 = Some reset_configuration"
proof -
  obtain r where r: "registry_ok r" "assigned r CTRL1 = Some reset_configuration"
    by (rule reset_accepted) blast
  obtain x s' where x: "reset_dut r (enhanced_pulse_control (acknowledging 0) 1) (lit ''now'') (PInt 100) 0 = (x, s')"
    by fastforce
  have "role_guard r ''reset'' ''reset'' (validate_reset_pulse (PInt 100)) = Inr (100, r CTRL1)"
  proof -
    have "find_by_role r (PStr (lit ''reset'')) = Inr (Some (r CTRL1))"
      unfolding find_by_role_iff [OF r(1) identifier_roles(1)]
      by (intro exI [of _ CTRL1] exI [of _ reset_configuration]) (simp add: r(2), simp add: reset_configuration_def)
    moreover have "validate_gpio_role (PStr (lit ''reset'')) = Inr (lit ''reset'')"
      using identifier_roles(1) by (simp add: validate_gpio_role_def validate_gpio_identifier_Inr)
    ultimately show ?thesis by (simp add: role_guard_def require_role_configured_def validate_reset_pulse_def)
  qed
  moreover have "gc_channel (r CTRL1) = CTRL1" using r(1) by (simp add: registry_ok_def channel_ok_def)
  moreover obtain frame where
    "bind_r (pulse_control_command (PStr (lit (channel_name CTRL1))) (PInt 100)) command_frame = Inr frame"
    by (rule pulse_built [of 100 CTRL1]) auto
  ultimately have "\<exists>res. x = Inr res"
    using x by (auto simp: reset_dut_def enhanced_pulse_control_def request_success_def acknowledging_def
        control_success_timestamp_def run_action_def make_action_result_def Let_def)
  with reset_dut_guarded [OF r(1) x] obtain res where "x = Inr res" "ar_pulse_ms res = Some 100" by auto
  with r x show ?thesis by blast
qed

end
