(* ===== verification/Log_Replay.thy ===== *)
theory Log_Replay
  imports Uart_Processor Protocol "HOL-Library.Product_Lexorder"
begin

text \<open>
  The bounded replay of stored UART evidence, the core of \<open>session_store/log_replay.py\<close>: the prefix
  of the evidence file is cut into records, each is decoded and checked, its bytes go through the
  same line buffers as the live capture, and three collectors keep the newest lines.

  A collector holds its records in a \<open>heapq\<close>. What the code observes of the heap is its least entry and
  its sorted contents, and no two entries are equal since each has its own sequence number; the
  model keeps the entries in a list sorted by their keys.
\<close>

section \<open>Records\<close>

record recent_log_line =
  rl_segment_id :: nat
  rl_channel :: nat
  rl_timestamp_us :: nat
  rl_ingestion_index :: nat
  rl_line_index_in_event :: nat
  rl_line_raw_b64 :: ustr
  rl_line_text :: ustr
  rl_partial :: bool

record oversized_log_line =
  og_segment_id :: nat
  og_channel :: nat
  og_ingestion_index :: nat
  og_line_index_in_event :: nat
  og_line_start_ingestion_index :: nat
  og_line_start_event_offset :: nat
  og_line_end_ingestion_index :: nat
  og_line_end_event_offset :: nat
  og_total_line_bytes :: nat
  og_terminated :: bool
  og_timestamp_us :: nat

definition MAX_RECENT_LOG_LINES :: int where "MAX_RECENT_LOG_LINES = 1000"

definition validate_log_lines :: "pyval \<Rightarrow> exc + nat" where
  "validate_log_lines v =
     (case v of
        PInt n \<Rightarrow>
          if 1 \<le> n \<and> n \<le> MAX_RECENT_LOG_LINES then Inr (nat n)
          else Inl (InputValidationError ''log lines must be an integer from 1 to 1000'')
      | _ \<Rightarrow> Inl (InputValidationError ''log lines must be an integer from 1 to 1000''))"

definition replay_coordinate :: "nat option \<Rightarrow> exc + nat" where
  "replay_coordinate v =
     (case v of
        None \<Rightarrow> Inl (ValueError ''replayed UART line is missing an evidence coordinate'')
      | Some n \<Rightarrow> Inr n)"

definition normal_record :: "nat \<Rightarrow> nat \<Rightarrow> nat \<Rightarrow> bool \<Rightarrow> uart_line \<Rightarrow> exc + recent_log_line" where
  "normal_record segment_id channel timestamp_us partial l =
     bind_r (replay_coordinate (ul_ingestion_index l)) (\<lambda>ii.
     bind_r (replay_coordinate (ul_line_index_in_event l)) (\<lambda>li.
       Inr \<lparr>rl_segment_id = segment_id, rl_channel = channel, rl_timestamp_us = timestamp_us,
            rl_ingestion_index = ii, rl_line_index_in_event = li,
            rl_line_raw_b64 = b64encode_str (ul_raw l), rl_line_text = ul_text l, rl_partial = partial\<rparr>))"

definition oversized_record :: "nat \<Rightarrow> nat \<Rightarrow> oversized_uart_line \<Rightarrow> exc + oversized_log_line" where
  "oversized_record segment_id channel l =
     bind_r (replay_coordinate (ol_ingestion_index l)) (\<lambda>ii.
     bind_r (replay_coordinate (ol_line_index_in_event l)) (\<lambda>li.
     bind_r (replay_coordinate (ol_start_ingestion_index l)) (\<lambda>si.
     bind_r (replay_coordinate (ol_start_event_offset l)) (\<lambda>so.
     bind_r (replay_coordinate (ol_end_ingestion_index l)) (\<lambda>ei.
     bind_r (replay_coordinate (ol_end_event_offset l)) (\<lambda>eo.
     bind_r (replay_coordinate (ol_timestamp_us l)) (\<lambda>ts.
       Inr \<lparr>og_segment_id = segment_id, og_channel = channel, og_ingestion_index = ii,
            og_line_index_in_event = li, og_line_start_ingestion_index = si,
            og_line_start_event_offset = so, og_line_end_ingestion_index = ei,
            og_line_end_event_offset = eo, og_total_line_bytes = ol_total_bytes l,
            og_terminated = ol_terminated l, og_timestamp_us = ts\<rparr>)))))))"

definition log_line_key :: "recent_log_line \<Rightarrow> nat \<times> nat" where
  "log_line_key r = (rl_ingestion_index r, rl_line_index_in_event r)"

definition oversized_key :: "oversized_log_line \<Rightarrow> nat \<times> nat" where
  "oversized_key r = (og_ingestion_index r, og_line_index_in_event r)"

section \<open>The newest records\<close>

type_synonym 'a entry = "((nat \<times> nat) \<times> nat) \<times> 'a"

record 'a bounded_newest =
  bn_limit :: nat
  bn_next_sequence :: nat
  bn_heap :: "'a entry list"
  bn_omitted :: nat

definition new_newest :: "nat \<Rightarrow> 'a bounded_newest" where
  "new_newest limit = \<lparr>bn_limit = limit, bn_next_sequence = 0, bn_heap = [], bn_omitted = 0\<rparr>"

definition newest_add :: "('a \<Rightarrow> nat \<times> nat) \<Rightarrow> 'a \<Rightarrow> 'a bounded_newest \<Rightarrow> 'a bounded_newest" where
  "newest_add key r b =
     (let e = ((key r, bn_next_sequence b), r);
          b' = b\<lparr>bn_next_sequence := Suc (bn_next_sequence b)\<rparr>
      in
      if length (bn_heap b) < bn_limit b then b'\<lparr>bn_heap := insort_key fst e (bn_heap b)\<rparr>
      else
        let b'' = b'\<lparr>bn_omitted := Suc (bn_omitted b)\<rparr> in
        if fst (fst (hd (bn_heap b))) < key r then b''\<lparr>bn_heap := insort_key fst e (tl (bn_heap b))\<rparr>
        else b'')"

definition newest_values :: "'a bounded_newest \<Rightarrow> 'a list" where
  "newest_values b = map snd (bn_heap b)"

definition newest_add_all :: "('a \<Rightarrow> nat \<times> nat) \<Rightarrow> 'a list \<Rightarrow> 'a bounded_newest \<Rightarrow> 'a bounded_newest" where
  "newest_add_all key rs b = fold (newest_add key) rs b"

text \<open>
  The specification for records that arrive in the order of their coordinates: the last ones.
\<close>

definition newest_rel :: "('a \<Rightarrow> nat \<times> nat) \<Rightarrow> 'a list \<Rightarrow> 'a bounded_newest \<Rightarrow> bool" where
  "newest_rel key all b \<longleftrightarrow>
     newest_values b = drop (length all - bn_limit b) all \<and> bn_omitted b = length all - bn_limit b
     \<and> (\<forall>e \<in> set (bn_heap b). fst (fst e) = key (snd e) \<and> snd (fst e) < bn_next_sequence b)"

lemma newest_rel_new: "newest_rel key [] (new_newest n)"
  by (simp add: newest_rel_def new_newest_def newest_values_def)

lemma insort_last: "\<forall>x \<in> set xs. f x \<le> f a \<Longrightarrow> f a \<notin> f ` set xs \<Longrightarrow> insort_key f a xs = xs @ [a]"
  by (induction xs) (auto simp: order_le_less)

lemma newest_add_rel:
  assumes rel: "newest_rel key all b" and pos: "0 < bn_limit b" and newer: "\<forall>x \<in> set all. key x < key r"
  shows "newest_rel key (all @ [r]) (newest_add key r b)"
proof -
  let ?e = "((key r, bn_next_sequence b), r)"
  have vals: "map snd (bn_heap b) = drop (length all - bn_limit b) all"
    using rel by (simp add: newest_rel_def newest_values_def)
  have key: "\<forall>e \<in> set (bn_heap b). fst (fst e) = key (snd e) \<and> snd (fst e) < bn_next_sequence b"
    using rel by (simp add: newest_rel_def)
  have below: "fst e < fst ?e" if "e \<in> set (bn_heap b)" for e
  proof -
    from that vals have "snd e \<in> set all" by (metis in_set_dropD image_eqI list.set_map)
    with newer have "key (snd e) < key r" by blast
    moreover have "fst (fst e) = key (snd e)" using key that by blast
    ultimately show ?thesis by (cases e) (auto simp: less_prod_def)
  qed
  have len: "length (bn_heap b) = min (length all) (bn_limit b)"
    using arg_cong [OF vals, of length] by simp
  have ins: "insort_key fst ?e xs = xs @ [?e]" if "set xs \<subseteq> set (bn_heap b)" for xs
  proof (rule insort_last)
    show "\<forall>x \<in> set xs. fst x \<le> fst ?e" using below that by (meson less_imp_le subsetD)
    show "fst ?e \<notin> fst ` set xs"
    proof
      assume "fst ?e \<in> fst ` set xs"
      then obtain x where x: "x \<in> set xs" "fst x = fst ?e" by (metis imageE)
      with below that have "fst x < fst ?e" by blast
      with x(2) show False by simp
    qed
  qed
  show ?thesis
  proof (cases "length (bn_heap b) < bn_limit b")
    case True
    then have "length all < bn_limit b" using len by auto
    with True ins [of "bn_heap b"] vals key rel show ?thesis
      by (auto simp: newest_add_def newest_rel_def newest_values_def Let_def)
  next
    case False
    with len have le: "bn_limit b \<le> length all" "length (bn_heap b) = bn_limit b" by auto
    with pos obtain m ms where h: "bn_heap b = m # ms" by (cases "bn_heap b") auto
    have "fst (fst m) < key r"
    proof -
      from h vals have "snd m \<in> set all" by (metis in_set_dropD image_eqI list.set_map list.set_intros(1))
      with h key newer show ?thesis by auto
    qed
    moreover have "map snd ms @ [r] = drop (Suc (length all) - bn_limit b) (all @ [r])"
    proof -
      have "map snd ms = tl (drop (length all - bn_limit b) all)" using vals h by (metis list.simps(9) list.sel(3))
      then show ?thesis using le pos by (simp add: Suc_diff_le drop_Suc tl_drop)
    qed
    moreover have "insort_key fst ?e ms = ms @ [?e]" by (rule ins) (auto simp: h)
    ultimately show ?thesis
      using False h key rel le
      by (auto simp: newest_add_def newest_rel_def newest_values_def Let_def Suc_diff_le)
  qed
qed

lemma newest_add_limit [simp]: "bn_limit (newest_add key r b) = bn_limit b"
  by (simp add: newest_add_def Let_def)

lemma newest_add_all_rel:
  assumes "newest_rel key all b" and "0 < bn_limit b" and "sorted_wrt (\<lambda>x y. key x < key y) (all @ rs)"
  shows "newest_rel key (all @ rs) (newest_add_all key rs b) \<and> bn_limit (newest_add_all key rs b) = bn_limit b"
  using assms
proof (induction rs arbitrary: all b)
  case (Cons r rs)
  from Cons.prems(3) have "\<forall>x \<in> set all. key x < key r" by (simp add: sorted_wrt_append)
  from newest_add_rel [OF Cons.prems(1,2) this] Cons.IH [of "all @ [r]" "newest_add key r b"] Cons.prems
  show ?case by (simp add: newest_add_all_def)
qed (simp add: newest_add_all_def)

section \<open>The stored events\<close>

text \<open>\<open>bytes.splitlines(keepends=True)\<close>: a line ends at a newline, a carriage return, or both.\<close>

fun splitlines_keep :: "bytes \<Rightarrow> bytes \<Rightarrow> bytes list" where
  "splitlines_keep p [] = (if p = [] then [] else [p])"
| "splitlines_keep p [c] = [p @ [c]]"
| "splitlines_keep p (c # d # cs) =
     (if c = nl then (p @ [nl]) # splitlines_keep [] (d # cs)
      else if c = cr \<and> d = nl then (p @ [cr, nl]) # splitlines_keep [] cs
      else if c = cr then (p @ [cr]) # splitlines_keep [] (d # cs)
      else splitlines_keep (p @ [c]) (d # cs))"

record stored_event =
  se_segment_id :: nat
  se_channel :: nat
  se_timestamp_us :: nat
  se_data :: bytes
  se_evidence_seq :: "nat option"

definition uart_event_keys :: "ustr list" where
  "uart_event_keys = map lit [''type'', ''segment_id'', ''timestamp_us'', ''channel'', ''data_b64'', ''text'']"

definition v2_uart_event_keys :: "ustr list" where
  "v2_uart_event_keys =
     map lit [''evidence_seq'', ''type'', ''segment_id'', ''timestamp_us'', ''recorded_at'', ''channel'',
              ''data_b64'', ''raw_offset_start'', ''raw_offset_end'']"

definition event_int :: "string \<Rightarrow> pydict \<Rightarrow> exc + nat" where
  "event_int key m =
     (case dict_get key m of
        PInt n \<Rightarrow>
          if n < 0 then Inl (ValueError ''UART evidence field must be a non-negative integer'') else Inr (nat n)
      | _ \<Rightarrow> Inl (ValueError ''UART evidence field must be a non-negative integer''))"

definition decode_event_fields :: "pydict \<Rightarrow> nat set \<Rightarrow> int \<Rightarrow> exc + stored_event" where
  "decode_event_fields m valid_segment_ids schema_version =
     (if set (dict_keys m) \<noteq> set (if schema_version = 2 then v2_uart_event_keys else uart_event_keys) then
        Inl (ValueError ''UART evidence record fields are invalid'')
      else if dict_get ''type'' m \<noteq> PStr (lit (if schema_version = 2 then ''uart_rx'' else ''uart'')) then
        Inl (ValueError ''UART evidence record type is invalid'')
      else
        bind_r (event_int ''segment_id'' m) (\<lambda>segment_id.
          if segment_id \<notin> valid_segment_ids then
            Inl (ValueError ''UART evidence references an unknown segment'')
          else
        bind_r (event_int ''timestamp_us'' m) (\<lambda>timestamp_us.
        bind_r (event_int ''channel'' m) (\<lambda>channel.
          case dict_get ''data_b64'' m of
            PStr data_b64 \<Rightarrow>
              (case b64decode data_b64 of
                 None \<Rightarrow> Inl (ValueError ''UART evidence data_b64 is invalid'')
               | Some data \<Rightarrow>
                   if schema_version = 1 \<and> dict_get ''text'' m \<noteq> PStr (utf8_decode_replace data) then
                     Inl (ValueError ''UART evidence text projection does not match exact bytes'')
                   else
                     bind_r (if schema_version = 2
                             then bind_r (event_int ''evidence_seq'' m) (\<lambda>n. Inr (Some n)) else Inr None) (\<lambda>seq.
                       Inr \<lparr>se_segment_id = segment_id, se_channel = channel, se_timestamp_us = timestamp_us,
                            se_data = data, se_evidence_seq = seq\<rparr>))
          | _ \<Rightarrow> Inl (ValueError ''UART evidence data_b64 must be a string'')))))"

definition decode_uart_event :: "nat \<Rightarrow> nat set \<Rightarrow> int \<Rightarrow> bytes \<Rightarrow> exc + stored_event" where
  "decode_uart_event depth valid_segment_ids schema_version raw =
     (if \<not> suffix [nl] raw \<or> raw = [nl] then
        Inl (ValueError ''uart_events.jsonl contains an incomplete or empty record'')
      else
      (case utf8_decode raw of
         None \<Rightarrow> Inl UnicodeDecodeError
       | Some t \<Rightarrow>
           bind_r (json_loads depth t) (\<lambda>v.
             case v of
               PDict m \<Rightarrow> decode_event_fields m valid_segment_ids schema_version
             | _ \<Rightarrow> Inl (ValueError ''UART evidence record fields are invalid''))))"

section \<open>The replay\<close>

type_synonym replay_key = "nat \<times> nat"

record replay_state =
  rp_buffers :: "(replay_key \<times> line_buffer) list"
  rp_last_timestamps :: "(replay_key \<times> nat) list"
  rp_complete :: "recent_log_line bounded_newest"
  rp_partial :: "recent_log_line bounded_newest"
  rp_oversized :: "oversized_log_line bounded_newest"
  rp_event_count :: nat

record replay_result =
  rr_snapshot_event_count :: nat
  rr_complete_lines :: "recent_log_line list"
  rr_partial_lines :: "recent_log_line list"
  rr_oversized_lines :: "oversized_log_line list"
  rr_omitted_complete_lines :: nat
  rr_omitted_partial_lines :: nat
  rr_omitted_oversized_lines :: nat

definition new_replay :: "nat \<Rightarrow> replay_state" where
  "new_replay limit =
     \<lparr>rp_buffers = [], rp_last_timestamps = [], rp_complete = new_newest limit,
      rp_partial = new_newest limit, rp_oversized = new_newest limit, rp_event_count = 0\<rparr>"

definition replay_event :: "nat \<Rightarrow> stored_event \<Rightarrow> replay_state \<Rightarrow> exc + replay_state" where
  "replay_event file_index e st =
     (let index = (case se_evidence_seq e of None \<Rightarrow> file_index | Some n \<Rightarrow> n);
          key = (se_segment_id e, se_channel e)
      in
      bind_r (feed_keyed feed_one new_buffer (rp_buffers st) key
                \<lparr>fi_data = se_data e, fi_index = index, fi_timestamp = Some (se_timestamp_us e), fi_base = 0\<rparr>)
        (\<lambda>(bufs, result).
      bind_r (map_r (normal_record (se_segment_id e) (se_channel e) (se_timestamp_us e) False) (res_lines result))
        (\<lambda>lines.
      bind_r (map_r (oversized_record (se_segment_id e) (se_channel e)) (res_oversized result)) (\<lambda>overs.
        Inr (st\<lparr>rp_buffers := bufs,
               rp_last_timestamps := dict_set (rp_last_timestamps st) key (se_timestamp_us e),
               rp_complete := newest_add_all log_line_key lines (rp_complete st),
               rp_oversized := newest_add_all oversized_key overs (rp_oversized st),
               rp_event_count := Suc (rp_event_count st)\<rparr>)))))"

fun replay_records :: "(bytes \<Rightarrow> exc + stored_event) \<Rightarrow> nat \<Rightarrow> bytes list \<Rightarrow> replay_state \<Rightarrow> exc + replay_state" where
  "replay_records decode i [] st = Inr st"
| "replay_records decode i (raw # raws) st =
     bind_r (decode raw) (\<lambda>e.
     bind_r (replay_event i e st) (\<lambda>st'. replay_records decode (Suc i) raws st'))"

fun replay_flush :: "(replay_key \<times> line_buffer) list \<Rightarrow> replay_state \<Rightarrow> exc + replay_state" where
  "replay_flush [] st = Inr st"
| "replay_flush ((key, b) # bufs) st =
     bind_r (flush_result b) (\<lambda>(_, result).
     bind_r (map_r (normal_record (fst key) (snd key)
                      (case map_of (rp_last_timestamps st) key of None \<Rightarrow> 0 | Some t \<Rightarrow> t) True)
              (res_lines result)) (\<lambda>lines.
     bind_r (map_r (oversized_record (fst key) (snd key)) (res_oversized result)) (\<lambda>overs.
       replay_flush bufs
         (st\<lparr>rp_partial := newest_add_all log_line_key lines (rp_partial st),
            rp_oversized := newest_add_all oversized_key overs (rp_oversized st)\<rparr>))))"

definition replay_uart_prefix :: "nat \<Rightarrow> bytes \<Rightarrow> nat \<Rightarrow> nat set \<Rightarrow> int \<Rightarrow> exc + replay_result" where
  "replay_uart_prefix depth prefix_bytes lines valid_segment_ids schema_version =
     bind_r (replay_records (decode_uart_event depth valid_segment_ids schema_version) 0
               (splitlines_keep [] prefix_bytes) (new_replay lines)) (\<lambda>st.
     bind_r (replay_flush (rp_buffers st) st) (\<lambda>st'.
       Inr \<lparr>rr_snapshot_event_count = rp_event_count st',
            rr_complete_lines = newest_values (rp_complete st'),
            rr_partial_lines = newest_values (rp_partial st'),
            rr_oversized_lines = newest_values (rp_oversized st'),
            rr_omitted_complete_lines = bn_omitted (rp_complete st'),
            rr_omitted_partial_lines = bn_omitted (rp_partial st'),
            rr_omitted_oversized_lines = bn_omitted (rp_oversized st')\<rparr>))"

section \<open>The coordinates within one event\<close>

text \<open>The lines and descriptors a call adds, numbered upwards from \<open>n\<close>.\<close>

definition adds :: "nat option \<Rightarrow> nat option \<Rightarrow> nat \<Rightarrow> line_result \<Rightarrow> line_result \<Rightarrow> bool" where
  "adds ii ts n acc acc' \<longleftrightarrow>
     (\<exists>ls os ns ms. res_lines acc' = res_lines acc @ ls \<and> res_oversized acc' = res_oversized acc @ os
        \<and> map ul_line_index_in_event ls = map Some ns \<and> sorted_wrt (<) ns \<and> (\<forall>i \<in> set ns. n \<le> i)
        \<and> map ol_line_index_in_event os = map Some ms \<and> sorted_wrt (<) ms \<and> (\<forall>j \<in> set ms. n \<le> j)
        \<and> (\<forall>l \<in> set ls. ul_ingestion_index l = ii)
        \<and> (\<forall>l \<in> set os. ol_ingestion_index l = ii \<and> ol_timestamp_us l = ts))"

lemma adds_refl: "adds ii ts n acc acc"
  by (simp add: adds_def)

lemma feed_step_adds:
  assumes "feed_step b data ii ts base off endo term lidx acc = Inr (b', acc')"
  shows "\<exists>ls os. res_lines acc' = res_lines acc @ ls \<and> res_oversized acc' = res_oversized acc @ os
    \<and> (ls = [] \<or> (\<exists>l. ls = [l] \<and> ul_line_index_in_event l = Some lidx \<and> ul_ingestion_index l = ii))
    \<and> (os = [] \<or> (\<exists>l. os = [l] \<and> ol_line_index_in_event l = Some lidx \<and> ol_ingestion_index l = ii \<and> ol_timestamp_us l = ts))"
  using assms
  by (auto simp: feed_step_def close_oversized_def finish_oversized_line_def Let_def
      split: option.splits if_splits)

lemma adds_step:
  assumes "feed_step b data ii ts base off endo term lidx acc = Inr (b', acc1)" and "adds ii ts (Suc lidx) acc1 acc'"
  shows "adds ii ts lidx acc acc'"
proof -
  from feed_step_adds [OF assms(1)] obtain ls os where
    a: "res_lines acc1 = res_lines acc @ ls" "res_oversized acc1 = res_oversized acc @ os"
    and l: "ls = [] \<or> (\<exists>l. ls = [l] \<and> ul_line_index_in_event l = Some lidx \<and> ul_ingestion_index l = ii)"
    and o': "os = [] \<or> (\<exists>l. os = [l] \<and> ol_line_index_in_event l = Some lidx \<and> ol_ingestion_index l = ii \<and> ol_timestamp_us l = ts)"
    by blast
  from assms(2) obtain ls' os' ns ms where
    b: "res_lines acc' = res_lines acc1 @ ls'" "res_oversized acc' = res_oversized acc1 @ os'"
      "map ul_line_index_in_event ls' = map Some ns" "sorted_wrt (<) ns" "\<forall>i \<in> set ns. Suc lidx \<le> i"
      "map ol_line_index_in_event os' = map Some ms" "sorted_wrt (<) ms" "\<forall>j \<in> set ms. Suc lidx \<le> j"
      "\<forall>l \<in> set ls'. ul_ingestion_index l = ii"
      "\<forall>l \<in> set os'. ol_ingestion_index l = ii \<and> ol_timestamp_us l = ts"
    unfolding adds_def by blast
  have i: "\<exists>ns1. map ul_line_index_in_event (ls @ ls') = map Some ns1 \<and> sorted_wrt (<) ns1 \<and> (\<forall>i \<in> set ns1. lidx \<le> i)"
    by (rule exI [of _ "if ls = [] then ns else lidx # ns"])
       (use l b(3-5) in \<open>auto simp: Suc_le_eq intro: less_imp_le\<close>)
  have j: "\<exists>ms1. map ol_line_index_in_event (os @ os') = map Some ms1 \<and> sorted_wrt (<) ms1 \<and> (\<forall>j \<in> set ms1. lidx \<le> j)"
    by (rule exI [of _ "if os = [] then ms else lidx # ms"])
       (use o' b(6-8) in \<open>auto simp: Suc_le_eq intro: less_imp_le\<close>)
  from i j obtain ns1 ms1 where
    "map ul_line_index_in_event (ls @ ls') = map Some ns1" "sorted_wrt (<) ns1" "\<forall>i \<in> set ns1. lidx \<le> i"
    "map ol_line_index_in_event (os @ os') = map Some ms1" "sorted_wrt (<) ms1" "\<forall>j \<in> set ms1. lidx \<le> j"
    by blast
  moreover have "res_lines acc' = res_lines acc @ (ls @ ls')" "res_oversized acc' = res_oversized acc @ (os @ os')"
    using a b by simp_all
  moreover have "\<forall>l \<in> set (ls @ ls'). ul_ingestion_index l = ii"
    "\<forall>l \<in> set (os @ os'). ol_ingestion_index l = ii \<and> ol_timestamp_us l = ts"
    using l o' b(9,10) by auto
  ultimately show ?thesis unfolding adds_def by blast
qed

lemma feed_loop_adds:
  "feed_loop b data ii ts base off lidx acc = Inr (b', acc') \<Longrightarrow> adds ii ts lidx acc acc'"
proof (induction b data ii ts base off lidx acc arbitrary: b' acc' rule: feed_loop.induct)
  case (1 b data ii ts base off lidx acc)
  show ?case
  proof (cases "length data \<le> off")
    case True
    with "1.prems" show ?thesis by (simp add: feed_loop.simps adds_refl)
  next
    case off: False
    show ?thesis
    proof (cases "bytes_find data [nl] off")
      case None
      with off "1.prems" have s: "feed_step b data ii ts base off (length data) False lidx acc = Inr (b', acc')"
        by (simp add: feed_loop.simps)
      from adds_step [OF s adds_refl] show ?thesis .
    next
      case (Some k)
      with off "1.prems" obtain b1 acc1 where
        s: "feed_step b data ii ts base off (Suc k) True lidx acc = Inr (b1, acc1)"
        and r: "feed_loop b1 data ii ts base (Suc k) (Suc lidx) acc1 = Inr (b', acc')"
        by (auto simp: feed_loop.simps [of b] split: sum.splits prod.splits)
      from "1.IH" [OF off Some s refl r] have "adds ii ts (Suc lidx) acc1 acc'" .
      from adds_step [OF s this] show ?thesis .
    qed
  qed
qed

lemma feed_one_adds:
  "feed_one b i = Inr (b', r) \<Longrightarrow> adds (Some (fi_index i)) (fi_timestamp i) 0 no_lines r"
  by (auto simp: feed_one_def feed_result_def adds_refl dest: feed_loop_adds split: if_splits)

text \<open>A buffer that holds something knows where it is, so that a flush can be reported.\<close>

definition indexed :: "line_buffer \<Rightarrow> bool" where
  "indexed b \<longleftrightarrow>
     (pending b \<noteq> [] \<longrightarrow> pending_line_index_in_event b \<noteq> None)
     \<and> (oversized_total_bytes b \<noteq> None \<longrightarrow> oversized_line_index_in_event b \<noteq> None \<and> oversized_timestamp_us b \<noteq> None)"

lemma indexed_new: "indexed new_buffer"
  by (simp add: indexed_def new_buffer_def)

lemma feed_step_indexed:
  "feed_step b data ii (Some ts) base off endo term lidx acc = Inr (b', acc') \<Longrightarrow> indexed b \<Longrightarrow> indexed b'"
  by (auto simp: feed_step_def close_oversized_def finish_oversized_line_def clear_pending_def indexed_def Let_def
      split: option.splits if_splits)

lemma feed_loop_indexed:
  "feed_loop b data ii (Some ts) base off lidx acc = Inr (b', acc') \<Longrightarrow> indexed b \<Longrightarrow> indexed b'"
proof (induction b data ii "Some ts" base off lidx acc arbitrary: b' acc' rule: feed_loop.induct)
  case (1 b data ii base off lidx acc)
  show ?case
  proof (cases "length data \<le> off")
    case True
    with "1.prems" show ?thesis by (simp add: feed_loop.simps)
  next
    case off: False
    show ?thesis
    proof (cases "bytes_find data [nl] off")
      case None
      with off "1.prems" feed_step_indexed show ?thesis by (auto simp: feed_loop.simps)
    next
      case (Some k)
      with off "1.prems"(1) obtain b1 acc1 where
        s: "feed_step b data ii (Some ts) base off (Suc k) True lidx acc = Inr (b1, acc1)"
        and r: "feed_loop b1 data ii (Some ts) base (Suc k) (Suc lidx) acc1 = Inr (b', acc')"
        by (auto simp: feed_loop.simps [of b] split: sum.splits prod.splits)
      from feed_step_indexed [OF s "1.prems"(2)] have "indexed b1" .
      from "1.hyps" [OF off Some s refl r this] show ?thesis .
    qed
  qed
qed

lemma feed_one_indexed:
  "feed_one b i = Inr (b', r) \<Longrightarrow> fi_timestamp i = Some ts \<Longrightarrow> indexed b \<Longrightarrow> indexed b'"
  by (auto simp: feed_one_def feed_result_def dest: feed_loop_indexed split: if_splits)

section \<open>The replay of a sequence of events\<close>

fun replay_events :: "nat \<Rightarrow> stored_event list \<Rightarrow> replay_state \<Rightarrow> exc + replay_state" where
  "replay_events i [] st = Inr st"
| "replay_events i (e # es) st = bind_r (replay_event i e st) (replay_events (Suc i) es)"

lemma replay_records_events:
  "map_r decode raws = Inr es \<Longrightarrow> replay_records decode i raws st = replay_events i es st"
proof (induction raws arbitrary: es i st)
  case (Cons raw raws)
  then show ?case by (cases "decode raw"; cases "map_r decode raws"; cases es) (auto simp: bind_r_def split: sum.splits)
qed simp

text \<open>The events with the index each is replayed under, and the stream of a segment and channel.\<close>

definition se_key :: "stored_event \<Rightarrow> replay_key" where
  "se_key e = (se_segment_id e, se_channel e)"

definition event_index :: "nat \<Rightarrow> stored_event \<Rightarrow> nat" where
  "event_index i e = (case se_evidence_seq e of None \<Rightarrow> i | Some n \<Rightarrow> n)"

fun number_events :: "nat \<Rightarrow> stored_event list \<Rightarrow> (nat \<times> stored_event) list" where
  "number_events i [] = []"
| "number_events i (e # es) = (event_index i e, e) # number_events (Suc i) es"

definition stored_stream :: "replay_key \<Rightarrow> (nat \<times> stored_event) list \<Rightarrow> bytes" where
  "stored_stream k ies = concat (map (\<lambda>(i, e). se_data e) (filter (\<lambda>(i, e). se_key e = k) ies))"

definition replay_base :: "(nat \<times> stored_event) list \<Rightarrow> replay_key \<Rightarrow> nat \<Rightarrow> nat" where
  "replay_base ies k x = length (stored_stream k (filter (\<lambda>(i, e). i < x) ies))"

definition replay_hist :: "(nat \<times> stored_event) list \<Rightarrow> replay_key \<Rightarrow> bytes \<times> bytes" where
  "replay_hist ies k = (stored_stream k ies, snd (cut_lines [] (stored_stream k ies)))"

lemma stored_stream_append [simp]:
  "stored_stream k (xs @ ys) = stored_stream k xs @ stored_stream k ys"
  "stored_stream k [(i, e)] = (if se_key e = k then se_data e else [])"
  "stored_stream k [] = []"
  by (simp_all add: stored_stream_def)

definition rl_key :: "recent_log_line \<Rightarrow> replay_key" where
  "rl_key r = (rl_segment_id r, rl_channel r)"

text \<open>The complete lines met so far, without the bound.\<close>

definition replay_rel ::
  "(nat \<times> stored_event) list \<Rightarrow> nat \<Rightarrow> (nat \<times> stored_event) list \<Rightarrow> recent_log_line list \<Rightarrow> replay_state \<Rightarrow> bool" where
  "replay_rel ies n pre L st \<longleftrightarrow>
     (\<forall>k. hist_rel (replay_base ies) k (replay_hist pre k) (buffer_for new_buffer (rp_buffers st) k)
        \<and> indexed (buffer_for new_buffer (rp_buffers st) k))
     \<and> distinct (dict_keys (rp_buffers st))
     \<and> newest_rel log_line_key L (rp_complete st) \<and> bn_limit (rp_complete st) = n
     \<and> sorted_wrt (\<lambda>x y. log_line_key x < log_line_key y) L
     \<and> (\<forall>r \<in> set L. rl_ingestion_index r \<in> fst ` set pre \<and> \<not> rl_partial r)
     \<and> (\<forall>k. map rl_line_raw_b64 (filter (\<lambda>r. rl_key r = k) L)
          = map b64encode_str (filter fits (fst (cut_lines [] (stored_stream k pre)))))
     \<and> rp_event_count st = length pre"

lemma replay_rel_new: "replay_rel ies n [] [] (new_replay n)"
  by (simp add: replay_rel_def new_replay_def newest_rel_new hist_rel_def buffer_rel_new replay_hist_def
      indexed_new dict_keys_def) (simp add: new_newest_def)

lemma normal_records_ok:
  assumes "\<forall>l \<in> set ls. ul_ingestion_index l = Some i" and "map ul_line_index_in_event ls = map Some ns"
  shows "\<exists>cs. map_r (normal_record seg ch ts pt) ls = Inr cs \<and> map log_line_key cs = map (Pair i) ns
    \<and> map rl_line_raw_b64 cs = map (\<lambda>l. b64encode_str (ul_raw l)) ls
    \<and> (\<forall>c \<in> set cs. rl_key c = (seg, ch) \<and> rl_ingestion_index c = i \<and> rl_partial c = pt)"
  using assms
proof (induction ls arbitrary: ns)
  case (Cons l ls)
  then obtain m ms where ns: "ns = m # ms" "ul_line_index_in_event l = Some m" "map ul_line_index_in_event ls = map Some ms"
    by (cases ns) auto
  from Cons.IH [OF _ ns(3)] Cons.prems(1) obtain cs where
    "map_r (normal_record seg ch ts pt) ls = Inr cs" "map log_line_key cs = map (Pair i) ms"
    "map rl_line_raw_b64 cs = map (\<lambda>l. b64encode_str (ul_raw l)) ls"
    "\<forall>c \<in> set cs. rl_key c = (seg, ch) \<and> rl_ingestion_index c = i \<and> rl_partial c = pt" by auto
  moreover obtain c where "normal_record seg ch ts pt l = Inr c" "log_line_key c = (i, m)"
    "rl_line_raw_b64 c = b64encode_str (ul_raw l)" "rl_key c = (seg, ch)" "rl_ingestion_index c = i" "rl_partial c = pt"
    using ns Cons.prems(1) by (simp add: normal_record_def replay_coordinate_def log_line_key_def rl_key_def)
  ultimately show ?case using ns by simp
qed simp

lemma oversized_record_ok:
  "over_at base_of C l \<Longrightarrow> ol_line_index_in_event l \<noteq> None \<Longrightarrow> ol_timestamp_us l \<noteq> None \<Longrightarrow>
     \<exists>x. oversized_record seg ch l = Inr x"
  by (auto simp: over_at_def oversized_record_def replay_coordinate_def)

lemma oversized_records_ok:
  assumes "\<forall>l \<in> set os. ol_ingestion_index l = Some i \<and> ol_timestamp_us l = Some ts"
    and "\<forall>l \<in> set os. ol_line_index_in_event l \<noteq> None" and "\<forall>l \<in> set os. over_at base_of C l"
  shows "\<exists>cs. map_r (oversized_record seg ch) os = Inr cs"
  using assms
  by (induction os) (auto simp: oversized_record_def replay_coordinate_def over_at_def)

lemma event_fresh:
  assumes "sorted_wrt (<) (map fst (pre @ (i, e) # post))"
  shows "\<forall>j \<in> fst ` set pre. j < i" and "replay_base (pre @ (i, e) # post) k i = length (stored_stream k pre)"
proof -
  show pre: "\<forall>j \<in> fst ` set pre. j < i" using assms by (auto simp: sorted_wrt_append)
  have "filter (\<lambda>(j, e). j < i) pre = pre" using pre by (force simp: filter_id_conv)
  moreover have "filter (\<lambda>(j, e). j < i) post = []"
    using assms by (force simp: filter_empty_conv sorted_wrt_append)
  ultimately show "replay_base (pre @ (i, e) # post) k i = length (stored_stream k pre)"
    by (simp add: replay_base_def)
qed

lemma replay_hist_step:
  "(replay_hist pre)(se_key e := hist_upd (replay_hist pre (se_key e)) f) = replay_hist (pre @ [(i, e)])"
  if "fi_data f = se_data e"
  using that by (auto simp: replay_hist_def hist_upd_def fun_eq_iff cut_lines_append split: prod.splits)

lemma replay_event_step:
  assumes rel: "replay_rel (pre @ (event_index i e, e) # post) n pre L st" and pos: "0 < n"
    and srt: "sorted_wrt (<) (map fst (pre @ (event_index i e, e) # post))"
  shows "\<exists>st' L'. replay_event i e st = Inr st'
     \<and> replay_rel (pre @ (event_index i e, e) # post) n (pre @ [(event_index i e, e)]) L' st'"
proof -
  let ?x = "event_index i e"
  let ?ies = "pre @ (?x, e) # post"
  let ?k = "se_key e"
  let ?f = "\<lparr>fi_data = se_data e, fi_index = ?x, fi_timestamp = Some (se_timestamp_us e), fi_base = 0\<rparr>"
  note r = rel [unfolded replay_rel_def]
  have hist: "\<And>k. hist_rel (replay_base ?ies) k (replay_hist pre k) (buffer_for new_buffer (rp_buffers st) k)"
    using r by blast
  have ok: "hist_ok (replay_base ?ies) ?k (replay_hist pre ?k) ?f"
    using event_fresh(2) [OF srt] by (simp add: hist_ok_def replay_hist_def)
  from keyed_lines.keyed_step [OF hist ok] obtain bufs out where
    feed: "feed_keyed feed_one new_buffer (rp_buffers st) ?k ?f = Inr (bufs, out)"
    and hist': "\<forall>k'. hist_rel (replay_base ?ies) k' (((replay_hist pre)(?k := hist_upd (replay_hist pre ?k) ?f)) k')
        (buffer_for new_buffer bufs k')"
    and spec: "hist_spec (replay_base ?ies) ?k (replay_hist pre ?k) ?f out"
    and keys: "dict_keys bufs = (if ?k \<in> set (dict_keys (rp_buffers st))
      then dict_keys (rp_buffers st) else dict_keys (rp_buffers st) @ [?k])"
    by blast
  from feed obtain b' where b': "feed_one (buffer_for new_buffer (rp_buffers st) ?k) ?f = Inr (b', out)"
    "bufs = dict_set (rp_buffers st) ?k b'" by (auto simp: feed_keyed_def result_simps)
  from feed_one_adds [OF b'(1)] obtain ns ms where
    ns: "map ul_line_index_in_event (res_lines out) = map Some ns" "sorted_wrt (<) ns"
      "\<forall>l \<in> set (res_lines out). ul_ingestion_index l = Some ?x"
    and ms: "map ol_line_index_in_event (res_oversized out) = map Some ms"
      "\<forall>l \<in> set (res_oversized out). ol_ingestion_index l = Some ?x \<and> ol_timestamp_us l = Some (se_timestamp_us e)"
    by (auto simp: adds_def no_lines_def)
  from normal_records_ok [OF ns(3,1), of "se_segment_id e" "se_channel e" "se_timestamp_us e" False] obtain cs where
    cs: "map_r (normal_record (se_segment_id e) (se_channel e) (se_timestamp_us e) False) (res_lines out) = Inr cs"
      "map log_line_key cs = map (Pair ?x) ns" "map rl_line_raw_b64 cs = map (\<lambda>l. b64encode_str (ul_raw l)) (res_lines out)"
      "\<forall>c \<in> set cs. rl_key c = ?k \<and> rl_ingestion_index c = ?x \<and> \<not> rl_partial c"
    by (auto simp: se_key_def)
  have res: "result_of (replay_base ?ies ?k) (stored_stream ?k pre @ se_data e)
      (fst (cut_lines (snd (replay_hist pre ?k)) (se_data e))) out"
    using spec by (simp add: hist_spec_def replay_hist_def)
  have idx: "\<forall>l \<in> set (res_oversized out). ol_line_index_in_event l \<noteq> None"
    using ms(1) by (metis image_eqI list.set_map option.simps(3) imageE)
  have at: "\<forall>l \<in> set (res_oversized out).
      over_at (replay_base ?ies ?k) (stored_stream ?k pre @ se_data e) l"
    using res by (simp add: result_of_def)
  from oversized_records_ok [OF ms(2) idx at] obtain os where
    os: "map_r (oversized_record (se_segment_id e) (se_channel e)) (res_oversized out) = Inr os" by blast
  let ?st = "st\<lparr>rp_buffers := bufs, rp_last_timestamps := dict_set (rp_last_timestamps st) ?k (se_timestamp_us e),
    rp_complete := newest_add_all log_line_key cs (rp_complete st),
    rp_oversized := newest_add_all oversized_key os (rp_oversized st), rp_event_count := Suc (rp_event_count st)\<rparr>"
  have step: "replay_event i e st = Inr ?st"
    using feed cs(1) os by (simp add: replay_event_def event_index_def se_key_def)
  have sorted: "sorted_wrt (\<lambda>x y. log_line_key x < log_line_key y) (L @ cs)"
  proof -
    have "sorted_wrt (<) (map log_line_key cs)"
      unfolding cs(2) using ns(2) by (simp add: sorted_wrt_map less_prod_def)
    moreover have "log_line_key x < log_line_key y" if "x \<in> set L" "y \<in> set cs" for x y
    proof -
      from that(1) r have "rl_ingestion_index x \<in> fst ` set pre" by blast
      with event_fresh(1) [OF srt] have "rl_ingestion_index x < ?x" by blast
      with that(2) cs(4) show ?thesis by (simp add: log_line_key_def less_prod_def)
    qed
    ultimately show ?thesis using r by (simp add: sorted_wrt_append sorted_wrt_map)
  qed
  have ind: "\<And>k. indexed (buffer_for new_buffer (rp_buffers st) k)" using r by blast
  have old: "\<And>k. map rl_line_raw_b64 (filter (\<lambda>r. rl_key r = k) L)
      = map b64encode_str (filter fits (fst (cut_lines [] (stored_stream k pre))))" using r by blast
  have lines: "map rl_line_raw_b64 (filter (\<lambda>r. rl_key r = k) (L @ cs))
      = map b64encode_str (filter fits (fst (cut_lines [] (stored_stream k (pre @ [(?x, e)])))))" for k
  proof (cases "k = ?k")
    case True
    have raws: "map ul_raw (res_lines out) = filter fits (fst (cut_lines (snd (replay_hist pre ?k)) (se_data e)))"
      using res by (simp add: result_of_def)
    have "map rl_line_raw_b64 cs = map b64encode_str (map ul_raw (res_lines out))" by (simp add: cs(3))
    then have new: "map rl_line_raw_b64 cs = map b64encode_str (filter fits (fst (cut_lines (snd (replay_hist pre ?k)) (se_data e))))"
      unfolding raws .
    have "filter (\<lambda>r. rl_key r = k) cs = cs" using True cs(4) by (simp add: filter_id_conv)
    with True new old show ?thesis by (simp add: cut_lines_fst_append replay_hist_def)
  next
    case False
    then have "filter (\<lambda>r. rl_key r = k) cs = []" using cs(4) by (auto simp: filter_empty_conv)
    with False old show ?thesis by simp
  qed
  have bufs': "hist_rel (replay_base ?ies) k (replay_hist (pre @ [(?x, e)]) k) (buffer_for new_buffer bufs k)
      \<and> indexed (buffer_for new_buffer bufs k)" for k
  proof -
    have "indexed (buffer_for new_buffer bufs k)"
      using feed_one_indexed [OF b'(1)] ind unfolding b'(2) by (simp add: buffer_for_dict_set)
    moreover have "fi_data ?f = se_data e" by simp
    from hist' [rule_format, of k] have
      "hist_rel (replay_base ?ies) k (replay_hist (pre @ [(?x, e)]) k) (buffer_for new_buffer bufs k)"
      unfolding replay_hist_step [OF \<open>fi_data ?f = se_data e\<close>, of pre ?x] .
    ultimately show ?thesis by blast
  qed
  have lim: "bn_limit (rp_complete st) = n" and new: "newest_rel log_line_key L (rp_complete st)"
    using r by blast+
  from newest_add_all_rel [OF new _ sorted] pos lim
  have "newest_rel log_line_key (L @ cs) (newest_add_all log_line_key cs (rp_complete st))
      \<and> bn_limit (newest_add_all log_line_key cs (rp_complete st)) = n" by simp
  with bufs' keys r lines sorted cs(4) have "replay_rel ?ies n (pre @ [(?x, e)]) (L @ cs) ?st"
    unfolding replay_rel_def by auto
  with step show ?thesis by blast
qed

lemma replay_events_correct:
  assumes "replay_rel (pre @ number_events i es) n pre L st" and "0 < n"
    and "sorted_wrt (<) (map fst (pre @ number_events i es))"
  shows "\<exists>st' L'. replay_events i es st = Inr st'
     \<and> replay_rel (pre @ number_events i es) n (pre @ number_events i es) L' st'"
  using assms
proof (induction es arbitrary: i pre L st)
  case (Cons e es)
  let ?x = "(event_index i e, e)"
  from replay_event_step [of pre i e "number_events (Suc i) es" n L st] Cons.prems obtain st1 L1 where
    one: "replay_event i e st = Inr st1"
      "replay_rel (pre @ ?x # number_events (Suc i) es) n (pre @ [?x]) L1 st1" by auto
  from Cons.IH [of "pre @ [?x]" "Suc i" L1 st1] one(2) Cons.prems(2,3) obtain st' L' where
    "replay_events (Suc i) es st1 = Inr st'"
    "replay_rel ((pre @ [?x]) @ number_events (Suc i) es) n ((pre @ [?x]) @ number_events (Suc i) es) L' st'"
    by auto
  with one(1) show ?case by auto
qed auto

text \<open>The flush reports what is unfinished and does not touch the complete lines.\<close>

lemma map_r_total: "(\<And>x. x \<in> set xs \<Longrightarrow> \<exists>y. f x = Inr y) \<Longrightarrow> \<exists>ys. map_r f xs = Inr ys"
proof (induction xs)
  case (Cons x xs)
  have "\<exists>y. f x = Inr y" by (rule Cons.prems) simp
  moreover have "\<exists>ys. map_r f xs = Inr ys" by (rule Cons.IH) (rule Cons.prems, simp)
  ultimately show ?case by auto
qed simp

lemma flush_records_ok:
  assumes "hist_rel bases k h b" and "indexed b" and "flush_result b = Inr (b', out)"
  shows "\<exists>cs os. map_r (normal_record s c t True) (res_lines out) = Inr cs
     \<and> map_r (oversized_record s c) (res_oversized out) = Inr os"
proof -
  from hist_rel_flush [OF assms(1)] assms(3) have
    at: "result_of (bases k) (fst h) (if snd h = [] then [] else [snd h]) out" by auto
  have "\<forall>l \<in> set (res_lines out). ul_ingestion_index l \<noteq> None \<and> ul_line_index_in_event l \<noteq> None"
    using at assms(2,3)
    by (auto simp: result_of_def line_at_def flush_result_def indexed_def no_lines_def Let_def result_simps
        split: if_splits)
  then have "\<exists>cs. map_r (normal_record s c t True) (res_lines out) = Inr cs"
    by (intro map_r_total) (auto simp: normal_record_def replay_coordinate_def)
  moreover have some: "\<forall>l \<in> set (res_oversized out). ol_line_index_in_event l \<noteq> None \<and> ol_timestamp_us l \<noteq> None"
    using assms(2,3)
    by (auto simp: flush_result_def indexed_def no_lines_def Let_def finish_oversized_line_def split: if_splits option.splits)
  have "\<forall>l \<in> set (res_oversized out). over_at (bases k) (fst h) l" using at by (simp add: result_of_def)
  with some have "\<forall>l \<in> set (res_oversized out). \<exists>x. oversized_record s c l = Inr x"
    using oversized_record_ok by blast
  then have "\<exists>os. map_r (oversized_record s c) (res_oversized out) = Inr os" by (intro map_r_total) blast
  ultimately show ?thesis by blast
qed

lemma replay_flush_ok:
  assumes "\<forall>(k, b) \<in> set bufs. hist_rel bases k (H k) b \<and> indexed b"
  shows "\<exists>st'. replay_flush bufs st = Inr st' \<and> rp_complete st' = rp_complete st
     \<and> rp_event_count st' = rp_event_count st"
  using assms
proof (induction bufs arbitrary: st)
  case (Cons kb bufs)
  obtain key b where kb: "kb = (key, b)" by (cases kb)
  with Cons.prems have b: "hist_rel bases key (H key) b" "indexed b" by auto
  from hist_rel_flush [OF b(1)] obtain b' out where f: "flush_result b = Inr (b', out)" by blast
  from flush_records_ok [OF b f] obtain cs os where
    r: "map_r (normal_record (fst key) (snd key) (case map_of (rp_last_timestamps st) key of None \<Rightarrow> 0 | Some t \<Rightarrow> t) True)
        (res_lines out) = Inr cs" "map_r (oversized_record (fst key) (snd key)) (res_oversized out) = Inr os"
    by blast
  from Cons.prems have "\<forall>(k, b) \<in> set bufs. hist_rel bases k (H k) b \<and> indexed b" by simp
  from Cons.IH [OF this, of "st\<lparr>rp_partial := newest_add_all log_line_key cs (rp_partial st),
      rp_oversized := newest_add_all oversized_key os (rp_oversized st)\<rparr>"] kb f r
  show ?case by simp
qed simp

text \<open>A replay whose records all decode, with the complete lines it met.\<close>

lemma replay_run:
  assumes "map_r (decode_uart_event depth segs schema) (splitlines_keep [] file) = Inr es"
    and "sorted_wrt (<) (map fst (number_events 0 es))" and "validate_log_lines v = Inr n"
  obtains R L st where "replay_uart_prefix depth file n segs schema = Inr R"
    and "replay_rel (number_events 0 es) n (number_events 0 es) L st"
    and "rr_complete_lines R = newest_values (rp_complete st)"
    and "rr_omitted_complete_lines R = bn_omitted (rp_complete st)"
    and "rr_snapshot_event_count R = rp_event_count st"
proof -
  from assms(3) have "0 < n" by (auto simp: validate_log_lines_def split: pyval.splits if_splits)
  from replay_events_correct [of "[]" 0 es n "[]" "new_replay n", OF _ this] replay_rel_new assms(2)
  obtain st L where run: "replay_events 0 es (new_replay n) = Inr st"
    and rel: "replay_rel (number_events 0 es) n (number_events 0 es) L st" by auto
  note r = rel [unfolded replay_rel_def]
  have "\<forall>(k, b) \<in> set (rp_buffers st). hist_rel (replay_base (number_events 0 es)) k (replay_hist (number_events 0 es) k) b \<and> indexed b"
  proof clarify
    fix s c b assume "((s, c), b) \<in> set (rp_buffers st)"
    with r have "map_of (rp_buffers st) (s, c) = Some b" by (auto simp: dict_keys_def)
    then have "buffer_for new_buffer (rp_buffers st) (s, c) = b" by (simp add: buffer_for_def)
    with r show "hist_rel (replay_base (number_events 0 es)) (s, c) (replay_hist (number_events 0 es) (s, c)) b \<and> indexed b"
      by blast
  qed
  from replay_flush_ok [OF this, of st] obtain st' where
    fl: "replay_flush (rp_buffers st) st = Inr st'" "rp_complete st' = rp_complete st"
      "rp_event_count st' = rp_event_count st" by blast
  have "replay_records (decode_uart_event depth segs schema) 0 (splitlines_keep [] file) (new_replay n) = Inr st"
    using run by (simp add: replay_records_events [OF assms(1)])
  with fl have "replay_uart_prefix depth file n segs schema =
      Inr \<lparr>rr_snapshot_event_count = rp_event_count st', rr_complete_lines = newest_values (rp_complete st),
        rr_partial_lines = newest_values (rp_partial st'), rr_oversized_lines = newest_values (rp_oversized st'),
        rr_omitted_complete_lines = bn_omitted (rp_complete st), rr_omitted_partial_lines = bn_omitted (rp_partial st'),
        rr_omitted_oversized_lines = bn_omitted (rp_oversized st')\<rparr>"
    by (simp add: replay_uart_prefix_def)
  with fl(3) rel show thesis using that by simp
qed

text \<open>
  C31: The replay returns the newest complete lines of the evidence, exactly. When every record of
  the prefix decodes and the event numbers rise, there is a list of all complete lines, ordered by
  their coordinates, that holds for every segment and channel exactly the newline-terminated lines
  (of at most 65536 bytes) of its bytes; the replay succeeds, returns the last \<open>n\<close> of them and counts
  the others as omitted.
\<close>

theorem replay_recent_lines:
  assumes "map_r (decode_uart_event depth segs schema) (splitlines_keep [] file) = Inr es"
    and "sorted_wrt (<) (map fst (number_events 0 es))" and "validate_log_lines v = Inr n"
  shows "\<exists>R L. replay_uart_prefix depth file n segs schema = Inr R
     \<and> rr_complete_lines R = drop (length L - n) L \<and> rr_omitted_complete_lines R = length L - n
     \<and> sorted_wrt (\<lambda>x y. log_line_key x < log_line_key y) L
     \<and> (\<forall>k. map rl_line_raw_b64 (filter (\<lambda>r. rl_key r = k) L)
          = map b64encode_str (filter fits (fst (cut_lines [] (stored_stream k (number_events 0 es))))))
     \<and> rr_snapshot_event_count R = length (number_events 0 es)"
proof -
  obtain R L st where run: "replay_uart_prefix depth file n segs schema = Inr R"
    and rel: "replay_rel (number_events 0 es) n (number_events 0 es) L st"
    and R: "rr_complete_lines R = newest_values (rp_complete st)"
      "rr_omitted_complete_lines R = bn_omitted (rp_complete st)"
      "rr_snapshot_event_count R = rp_event_count st"
    using assms by (rule replay_run)
  from rel [unfolded replay_rel_def] R run show ?thesis by (auto simp: newest_rel_def)
qed

text \<open>Records written one to a line come back as these lines.\<close>

lemma splitlines_line:
  "nl \<notin> set b \<Longrightarrow> cr \<notin> set b \<Longrightarrow> splitlines_keep p (b @ nl # rest) = (p @ b @ [nl]) # splitlines_keep [] rest"
proof (induction b arbitrary: p)
  case Nil
  then show ?case by (cases rest) simp_all
next
  case (Cons c cs)
  then obtain d ds where ds: "cs @ nl # rest = d # ds" by (cases cs) auto
  with Cons.IH [of "p @ [c]"] Cons.prems show ?case by auto
qed

lemma stored_line_decodes:
  assumes "json_dumps (PDict m) = Some t" and "utf8_encode t = Some line" and "json_depth (PDict m) \<le> depth"
  shows "decode_uart_event depth segs schema (line @ [nl]) = decode_event_fields m segs schema"
proof -
  have "utf8_encode (t @ [10]) = Some (line @ [nl])"
    using assms(2) by (simp add: utf8_encode_append utf8_encode_cp_def char_of_eq_iff)
  then have "utf8_decode (line @ [nl]) = Some (t @ [10])" by (rule utf8_decode_encode)
  moreover have "line \<noteq> []"
  proof -
    have "dumpable (PDict m)" "t = dump_value (PDict m)" using assms(1) by (auto simp: json_dumps_def split: if_splits)
    with dump_value_head [of "PDict m"] have "t \<noteq> []" by auto
    with utf8_encode_length [OF assms(2)] show ?thesis by auto
  qed
  ultimately show ?thesis
    using json_loads_dumps_line [OF assms(1,3)] by (simp add: decode_uart_event_def)
qed

definition demo_record :: pydict where
  "demo_record =
     [(lit ''evidence_seq'', PInt 3), (lit ''type'', PStr (lit ''uart_rx'')), (lit ''segment_id'', PInt 0),
      (lit ''timestamp_us'', PInt 1), (lit ''recorded_at'', PStr (lit ''t'')), (lit ''channel'', PInt 0),
      (lit ''data_b64'', PStr (lit ''aAo='')), (lit ''raw_offset_start'', PInt 0), (lit ''raw_offset_end'', PInt 2)]"

definition demo_event :: stored_event where
  "demo_event =
     \<lparr>se_segment_id = 0, se_channel = 0, se_timestamp_us = 1, se_data = ''h'' @ [nl], se_evidence_seq = Some 3\<rparr>"

lemma demo_line_decodes:
  obtains line where "map_r (decode_uart_event 1 {0} 2) (splitlines_keep [] (line @ [nl])) = Inr [demo_event]"
proof -
  have d: "dumpable (PDict demo_record)"
    by (simp add: demo_record_def dict_keys_def MAX_STR_DIGITS_def nat_digits.simps)
  have "\<forall>c \<in> set (dump_value (PDict demo_record)). c < 128"
    by (simp add: demo_record_def dump_string_def dump_int_def lit_def escape_char_def nat_digits.simps)
  then have enc: "utf8_encode (dump_value (PDict demo_record)) = Some (map char_of (dump_value (PDict demo_record)))"
    by (rule utf8_encode_ascii_list)
  define line :: bytes where "line = map char_of (dump_value (PDict demo_record))"
  have nonl: "nl \<notin> set line" "cr \<notin> set line"
    using utf8_encode_ascii [OF enc, of nl] utf8_encode_ascii [OF enc, of cr]
      dump_value_printable [of 10 "PDict demo_record"] dump_value_printable [of 13 "PDict demo_record"]
    by (auto simp: line_def)
  have "b64encode_str (''h'' @ [nl]) = lit ''aAo=''" by (simp add: b64encode_str_def b64_char_def char_of_eq_iff)
  then have b: "b64decode (lit ''aAo='') = Some (''h'' @ [nl])" using b64decode_encode [of "''h'' @ [nl]"] by simp
  have "decode_event_fields demo_record {0} 2 = Inr demo_event"
    using b by (simp add: decode_event_fields_def demo_record_def demo_event_def v2_uart_event_keys_def dict_keys_def dict_get_def event_int_def)
  moreover have "decode_uart_event 1 {0} 2 (line @ [nl]) = decode_event_fields demo_record {0} 2"
  proof (rule stored_line_decodes)
    show "json_dumps (PDict demo_record) = Some (dump_value (PDict demo_record))" using d by (simp only: json_dumps_def if_True)
    show "utf8_encode (dump_value (PDict demo_record)) = Some line" using enc by (simp only: line_def)
    show "json_depth (PDict demo_record) \<le> 1" by (simp add: demo_record_def)
  qed
  ultimately have "map_r (decode_uart_event 1 {0} 2) (splitlines_keep [] (line @ [nl])) = Inr [demo_event]"
    using splitlines_line [OF nonl, of "[]" "[]"] by simp
  then show thesis by (rule that)
qed

lemma five_lines: "validate_log_lines (PInt 5) = Inr 5"
  by (simp add: validate_log_lines_def MAX_RECENT_LOG_LINES_def)

theorem replay_recent_lines_witness:
  "\<exists>line R. replay_uart_prefix 1 (line @ [nl]) 5 {0} 2 = Inr R \<and> rr_omitted_complete_lines R = 0
     \<and> map rl_line_raw_b64 (rr_complete_lines R) = [b64encode_str (''h'' @ [nl])]"
proof -
  obtain line where line: "map_r (decode_uart_event 1 {0} 2) (splitlines_keep [] (line @ [nl])) = Inr [demo_event]"
    by (rule demo_line_decodes)
  obtain R L where
    R: "replay_uart_prefix 1 (line @ [nl]) 5 {0} 2 = Inr R" "rr_complete_lines R = drop (length L - 5) L"
      "rr_omitted_complete_lines R = length L - 5"
      "\<forall>k. map rl_line_raw_b64 (filter (\<lambda>r. rl_key r = k) L)
        = map b64encode_str (filter fits (fst (cut_lines [] (stored_stream k (number_events 0 [demo_event])))))"
    using replay_recent_lines [OF line _ five_lines] by auto
  have all: "rl_key r = (0, 0)" if "r \<in> set L" for r
  proof (rule ccontr)
    assume n: "rl_key r \<noteq> (0, 0)"
    have "stored_stream (rl_key r) (number_events 0 [demo_event]) = []"
      using n by (auto simp: stored_stream_def se_key_def demo_event_def)
    with R(4) [rule_format, of "rl_key r"] have "filter (\<lambda>x. rl_key x = rl_key r) L = []" by simp
    with that show False by (auto simp: filter_empty_conv)
  qed
  have "stored_stream (0, 0) (number_events 0 [demo_event]) = ''h'' @ [nl]" by (simp add: stored_stream_def se_key_def demo_event_def)
  moreover have "filter (\<lambda>r. rl_key r = (0, 0)) L = L" using all by (simp add: filter_id_conv)
  ultimately have "map rl_line_raw_b64 L = [b64encode_str (''h'' @ [nl])]"
    using R(4) [rule_format, of "(0, 0)"] by (simp add: MAX_UART_LINE_BYTES_def)
  with R(1-3) show ?thesis by (metis One_nat_def length_map list.size(3,4) drop0 diff_is_0_eq' plus_nat.add_0 numeral_One one_le_numeral)
qed

section \<open>Replay and live capture\<close>

text \<open>The stored form of an event, as far as the replay of its bytes goes.\<close>

definition stores :: "stored_event \<Rightarrow> uart_receive_event \<Rightarrow> bool" where
  "stores e ev \<longleftrightarrow> se_segment_id e = ev_segment_id ev \<and> se_channel e = ev_channel ev \<and> se_data e = ev_data ev"

lemma stored_stream_stream:
  "list_all2 stores es evs \<Longrightarrow> stored_stream k (number_events i es) = stream k evs"
proof (induction es evs arbitrary: i rule: list_all2_induct)
  case (Cons e es ev evs)
  then show ?case
    by (simp add: stored_stream_def stores_def se_key_def ev_key_def)
qed (simp add: stored_stream_def)

text \<open>
  C32: The replay of the stored events reports the lines the live capture reported. When the
  evidence file holds, in order, the events a capture processor handled, then for every segment and
  channel the complete lines the replay meets (of which it returns the newest \<open>n\<close>) have exactly the
  bytes of the lines the processor reported for it.
\<close>

theorem replay_agrees_with_capture:
  assumes "map_r (decode_uart_event depth segs schema) (splitlines_keep [] file) = Inr es"
    and "sorted_wrt (<) (map fst (number_events 0 es))" and "validate_log_lines v = Inr n"
    and "list_all2 stores es evs" and "validate_patterns w = Inr ps"
  shows "\<exists>R L p rs. replay_uart_prefix depth file n segs schema = Inr R
     \<and> rr_complete_lines R = drop (length L - n) L
     \<and> process_events (new_processor (Some ps)) evs = Inr (p, rs)
     \<and> (\<forall>k. map rl_line_raw_b64 (filter (\<lambda>r. rl_key r = k) L)
          = map (\<lambda>l. b64encode_str (ul_raw l)) (key_lines k rs))"
proof -
  obtain R L st where run: "replay_uart_prefix depth file n segs schema = Inr R"
    and rel: "replay_rel (number_events 0 es) n (number_events 0 es) L st"
    and R: "rr_complete_lines R = newest_values (rp_complete st)"
    using assms(1-3) by (rule replay_run)
  note r = rel [unfolded replay_rel_def]
  have old: "\<And>k. map rl_line_raw_b64 (filter (\<lambda>r. rl_key r = k) L)
      = map b64encode_str (filter fits (fst (cut_lines [] (stored_stream k (number_events 0 es)))))"
    using r by blast
  let ?n = "new_processor (Some ps)"
  have pat: "\<forall>q \<in> set (pr_patterns ?n). wait_pattern_ok q"
    using validate_patterns_ok [OF assms(5)] by (simp add: new_processor_def patterns_ok_def)
  have "pr_next_ingestion_index ?n = length []" by (simp add: new_processor_def)
  from process_events_correct [of "[]" evs, OF _ this pat] proc_rel_new obtain p rs where
    proc: "process_events ?n evs = Inr (p, rs)" and
    lines: "\<forall>k. map ul_raw (key_lines k rs) = filter fits (fst (cut_lines [] (stream k evs)))"
    by auto
  have "map rl_line_raw_b64 (filter (\<lambda>r. rl_key r = k) L) = map (\<lambda>l. b64encode_str (ul_raw l)) (key_lines k rs)" for k
  proof -
    have "map rl_line_raw_b64 (filter (\<lambda>r. rl_key r = k) L) = map b64encode_str (map ul_raw (key_lines k rs))"
      unfolding old stored_stream_stream [OF assms(4)] lines [rule_format] ..
    then show ?thesis by simp
  qed
  moreover have "rr_complete_lines R = drop (length L - n) L"
    using r R by (simp add: newest_rel_def)
  ultimately show ?thesis using run proc by blast
qed

theorem replay_agrees_with_capture_witness:
  "\<exists>line R L p rs. replay_uart_prefix 1 (line @ [nl]) 5 {0} 2 = Inr R \<and> rr_complete_lines R = drop (length L - 5) L
     \<and> process_events (new_processor (Some [lit ''OK'']))
         [\<lparr>ev_segment_id = 0, ev_timestamp_us = 9, ev_channel = 0, ev_data = ''h'' @ [nl]\<rparr>] = Inr (p, rs)
     \<and> map rl_line_raw_b64 (filter (\<lambda>r. rl_key r = (0, 0)) L)
         = map (\<lambda>l. b64encode_str (ul_raw l)) (key_lines (0, 0) rs)"
proof -
  have e: "utf8_encode (lit ''OK'') = Some ''OK''" by (rule utf8_encode_lit) simp
  have pats: "validate_patterns (PList [PStr (lit ''OK'')]) = Inr [lit ''OK'']"
    by (simp add: validate_patterns_def validate_wait_pattern_def MAX_WAIT_PATTERN_BYTES_def e) (simp add: lit_def)
  obtain line where line: "map_r (decode_uart_event 1 {0} 2) (splitlines_keep [] (line @ [nl])) = Inr [demo_event]"
    by (rule demo_line_decodes)
  have "list_all2 stores [demo_event]
      [\<lparr>ev_segment_id = 0, ev_timestamp_us = 9, ev_channel = 0, ev_data = ''h'' @ [nl]\<rparr>]"
    by (simp add: stores_def demo_event_def)
  from replay_agrees_with_capture [OF line _ five_lines this pats] show ?thesis by simp blast
qed

end
