(* ===== verification/Dut_Profile.thy ===== *)
theory Dut_Profile
  imports Contracts Gpio_Config "HOL-Library.List_Lexorder"
begin

text \<open>
  The DUT profile: the tables of the project file with the command-line overrides laid over them
  become one validated immutable profile (\<open>profile/config.py\<close>, \<open>profile/models.py\<close>), whose projection
  onto the backend (\<open>backends/settings.py\<close>) names the serial port, directly or by the USB identity of
  exactly one attached device (\<open>backends/selection.py\<close>, \<open>device_connection/discovery.py\<close>).

  Parameters: the Unicode tables behind \<open>str.isprintable\<close> and \<open>str.lower\<close>, and the canonical JSON text of the
  projection, which contains floats, with its SHA-256 digest. Reading the TOML file is not modelled.
\<close>

section \<open>Data\<close>

record uart_profile_config =
  uc_baudrate :: pyval
  uc_data_bits :: pyval
  uc_parity :: pyval
  uc_stop_bits :: pyval
  uc_rtscts :: pyval
  uc_xonxoff :: pyval
  uc_tx_enabled :: pyval
  uc_default_line_ending :: pyval
  uc_dtr_on_open :: pyval
  uc_rts_on_open :: pyval

record dut_profile_config =
  pc_name :: pyval
  pc_mode :: pyval
  pc_serial_port :: pyval
  pc_reconnect_timeout_s :: pyval
  pc_topology :: pyval
  pc_usb_vid :: pyval
  pc_usb_pid :: pyval
  pc_usb_serial_number :: pyval
  pc_uart :: uart_profile_config
  pc_hardware :: hardware_gpio_config

datatype selector_strategy = ExactPath | EnhancedDiscovery | UsbIdentity

fun strategy_name :: "selector_strategy \<Rightarrow> string" where
  "strategy_name ExactPath = ''exact_path''"
| "strategy_name EnhancedDiscovery = ''enhanced_discovery''"
| "strategy_name UsbIdentity = ''usb_identity''"

record serial_selector =
  sl_strategy :: selector_strategy
  sl_exact_path :: "ustr option"
  sl_vid :: "int option"
  sl_pid :: "int option"
  sl_serial_number :: "ustr option"

record effective_uart_settings =
  eu_baudrate :: int
  eu_data_bits :: int
  eu_parity :: ustr
  eu_stop_bits :: int
  eu_rtscts :: bool
  eu_xonxoff :: bool
  eu_tx_enabled :: bool
  eu_default_line_ending :: ustr
  eu_dtr_on_open :: ustr
  eu_rts_on_open :: ustr

record dut_profile =
  dp_name :: "ustr option"
  dp_backend_mode :: backend_mode
  dp_selector :: serial_selector
  dp_current_serial_port :: "ustr option"
  dp_reconnect_timeout_s :: rat
  dp_topology :: ustr
  dp_uart :: effective_uart_settings
  dp_dut_io_voltage :: "rat option"
  dp_controls :: "hardware_mapping list"

record backend_settings =
  bs_mode :: backend_mode
  bs_serial_port :: "ustr option"
  bs_reconnect_timeout_s :: rat
  bs_baudrate :: int
  bs_data_bits :: int
  bs_parity :: ustr
  bs_stop_bits :: int
  bs_tx_enabled :: bool
  bs_rtscts :: bool
  bs_xonxoff :: bool
  bs_dtr_on_open :: ustr
  bs_rts_on_open :: ustr
  bs_topology :: ustr
  bs_usb_vid :: "int option"
  bs_usb_pid :: "int option"
  bs_usb_serial_number :: "ustr option"

definition DEFAULT_BASIC_BAUDRATE :: int where "DEFAULT_BASIC_BAUDRATE = 115200"
definition ENHANCED_BAUDRATE :: int where "ENHANCED_BAUDRATE = 460800"
definition DEFAULT_RECONNECT_TIMEOUT_S :: rat where "DEFAULT_RECONNECT_TIMEOUT_S = 5"
definition MAX_PROFILE_NAME_BYTES :: nat where "MAX_PROFILE_NAME_BYTES = 128"
definition MAX_PROFILE_PROJECTION_BYTES :: nat where "MAX_PROFILE_PROJECTION_BYTES = 65536"

definition backend_settings_of :: "dut_profile \<Rightarrow> backend_settings" where
  "backend_settings_of p =
     \<lparr>bs_mode = dp_backend_mode p, bs_serial_port = dp_current_serial_port p,
      bs_reconnect_timeout_s = dp_reconnect_timeout_s p, bs_baudrate = eu_baudrate (dp_uart p),
      bs_data_bits = eu_data_bits (dp_uart p), bs_parity = eu_parity (dp_uart p),
      bs_stop_bits = eu_stop_bits (dp_uart p), bs_tx_enabled = eu_tx_enabled (dp_uart p),
      bs_rtscts = eu_rtscts (dp_uart p), bs_xonxoff = eu_xonxoff (dp_uart p),
      bs_dtr_on_open = eu_dtr_on_open (dp_uart p), bs_rts_on_open = eu_rts_on_open (dp_uart p),
      bs_topology = dp_topology p, bs_usb_vid = sl_vid (dp_selector p),
      bs_usb_pid = sl_pid (dp_selector p), bs_usb_serial_number = sl_serial_number (dp_selector p)\<rparr>"

definition hardware_gpio_config_of :: "dut_profile \<Rightarrow> hardware_gpio_config" where
  "hardware_gpio_config_of p =
     \<lparr>hg_dut_io_voltage = dp_dut_io_voltage p,
      hg_controls = fold (\<lambda>m d. dict_set d (hc_role m) m) (dp_controls p) []\<rparr>"

definition opt_float :: "rat option \<Rightarrow> pyval" where
  "opt_float v = (case v of None \<Rightarrow> PNone | Some q \<Rightarrow> PFloat (FFin q))"

definition control_json :: "hardware_mapping \<Rightarrow> pydict" where
  "control_json m =
     [(lit ''role'', PStr (hc_role m)), (lit ''channel'', PStr (lit (channel_name (hc_channel m)))),
      (lit ''dut_signal'', PStr (hc_dut_signal m)), (lit ''mode'', PStr (lit (mode_name (hc_mode m)))),
      (lit ''active_level'', PStr (lit (level_name (hc_active_level m)))),
      (lit ''idle_level'', level_val (hc_idle_level m))]"

definition selector_json :: "serial_selector \<Rightarrow> pydict" where
  "selector_json s =
     [(lit ''strategy'', PStr (lit (strategy_name (sl_strategy s)))),
      (lit ''exact_path'', opt_str (sl_exact_path s))]
     @ (if sl_strategy s = UsbIdentity then
          [(lit ''vid'', opt_int (sl_vid s)), (lit ''pid'', opt_int (sl_pid s)),
           (lit ''serial_number'', opt_str (sl_serial_number s))]
        else [])"

definition profile_projection :: "dut_profile \<Rightarrow> pydict" where
  "profile_projection p =
     (let u = dp_uart p in
     [(lit ''name'', opt_str (dp_name p)),
      (lit ''backend'', PDict
        [(lit ''mode'', PStr (lit (backend_mode_name (dp_backend_mode p)))),
         (lit ''topology'', PStr (dp_topology p)),
         (lit ''selector'', PDict (selector_json (dp_selector p))),
         (lit ''current_serial_port'', opt_str (dp_current_serial_port p)),
         (lit ''reconnect_timeout_s'', PFloat (FFin (dp_reconnect_timeout_s p)))]),
      (lit ''hardware'', PDict
        [(lit ''dut_io_voltage'', opt_float (dp_dut_io_voltage p)),
         (lit ''uart'', PDict
           [(lit ''baudrate'', PInt (eu_baudrate u)), (lit ''data_bits'', PInt (eu_data_bits u)),
            (lit ''parity'', PStr (eu_parity u)), (lit ''stop_bits'', PInt (eu_stop_bits u)),
            (lit ''rtscts'', PBool (eu_rtscts u)), (lit ''xonxoff'', PBool (eu_xonxoff u)),
            (lit ''tx_enabled'', PBool (eu_tx_enabled u)),
            (lit ''default_line_ending'', PStr (eu_default_line_ending u)),
            (lit ''control_lines'', PDict
              [(lit ''dtr_on_open'', PStr (eu_dtr_on_open u)), (lit ''rts_on_open'', PStr (eu_rts_on_open u))])]),
         (lit ''control'', PList (map (PDict \<circ> control_json) (dp_controls p)))])])"

section \<open>Parsing the tables\<close>

definition optional_table :: "string \<Rightarrow> pydict \<Rightarrow> exc + pydict" where
  "optional_table key m =
     (case map_of m (lit key) of
        None \<Rightarrow> Inr []
      | Some (PDict d) \<Rightarrow> Inr d
      | Some _ \<Rightarrow> Inl (DutProfileError ''must be a TOML table''))"

definition reject_extra_fields :: "string list \<Rightarrow> pydict \<Rightarrow> exc + unit" where
  "reject_extra_fields allowed m =
     (if \<not> set (dict_keys m) \<subseteq> set (map lit allowed) then Inl (DutProfileError ''Unexpected field(s)'')
      else Inr ())"

definition get_default :: "string \<Rightarrow> pyval \<Rightarrow> pydict \<Rightarrow> pyval" where
  "get_default key d m = (case map_of m (lit key) of None \<Rightarrow> d | Some v \<Rightarrow> v)"

definition is_gpio_config_error :: "exc \<Rightarrow> bool" where
  "is_gpio_config_error e \<longleftrightarrow> (case e of GpioConfigError _ \<Rightarrow> True | _ \<Rightarrow> False)"

definition str_val :: "string \<Rightarrow> pyval" where "str_val s = PStr (lit s)"

definition parse_dut_profile_config :: "pyval \<Rightarrow> exc + dut_profile_config" where
  "parse_dut_profile_config raw =
     (case raw of
        PDict raw_config \<Rightarrow>
          bind_r (optional_table ''profile'' raw_config) (\<lambda>profile.
          bind_r (reject_extra_fields [''name''] profile) (\<lambda>_.
          bind_r (optional_table ''backend'' raw_config) (\<lambda>backend.
          bind_r (reject_extra_fields
                    [''mode'', ''serial_port'', ''reconnect_timeout_s'', ''topology'', ''selector''] backend) (\<lambda>_.
          bind_r (optional_table ''selector'' backend) (\<lambda>selector.
          bind_r (reject_extra_fields [''vid'', ''pid'', ''serial_number''] selector) (\<lambda>_.
          bind_r (optional_table ''hardware'' raw_config) (\<lambda>hardware.
          bind_r (optional_table ''uart'' hardware) (\<lambda>uart.
          bind_r (reject_extra_fields
                    [''baudrate'', ''data_bits'', ''parity'', ''stop_bits'', ''rtscts'', ''xonxoff'', ''tx_enabled'',
                     ''default_line_ending'', ''control_lines''] uart) (\<lambda>_.
          bind_r (optional_table ''control_lines'' uart) (\<lambda>control_lines.
          bind_r (reject_extra_fields [''dtr_on_open'', ''rts_on_open''] control_lines) (\<lambda>_.
          bind_r (catch_r is_gpio_config_error (\<lambda>_. DutProfileError ''invalid hardware table'')
                    (parse_hardware_gpio_config raw)) (\<lambda>gpio.
            Inr \<lparr>pc_name = dict_get ''name'' profile, pc_mode = dict_get ''mode'' backend,
                 pc_serial_port = dict_get ''serial_port'' backend,
                 pc_reconnect_timeout_s =
                   get_default ''reconnect_timeout_s'' (PFloat (FFin DEFAULT_RECONNECT_TIMEOUT_S)) backend,
                 pc_topology = get_default ''topology'' (str_val ''external_uart'') backend,
                 pc_usb_vid = dict_get ''vid'' selector, pc_usb_pid = dict_get ''pid'' selector,
                 pc_usb_serial_number = dict_get ''serial_number'' selector,
                 pc_uart =
                   \<lparr>uc_baudrate = dict_get ''baudrate'' uart,
                    uc_data_bits = get_default ''data_bits'' (PInt 8) uart,
                    uc_parity = get_default ''parity'' (str_val ''none'') uart,
                    uc_stop_bits = get_default ''stop_bits'' (PInt 1) uart,
                    uc_rtscts = get_default ''rtscts'' (PBool False) uart,
                    uc_xonxoff = get_default ''xonxoff'' (PBool False) uart,
                    uc_tx_enabled = get_default ''tx_enabled'' (PBool False) uart,
                    uc_default_line_ending = get_default ''default_line_ending'' (str_val ''none'') uart,
                    uc_dtr_on_open = get_default ''dtr_on_open'' (str_val ''driver_default'') control_lines,
                    uc_rts_on_open = get_default ''rts_on_open'' (str_val ''driver_default'') control_lines\<rparr>,
                 pc_hardware = gpio\<rparr>))))))))))))
      | _ \<Rightarrow> Inl (DutProfileError ''configuration root must be a TOML table''))"

section \<open>Checking single values\<close>

text \<open>\<open>value not in {...}\<close> for a set of strings: an unhashable value raises \<open>TypeError\<close>.\<close>

definition one_of :: "string list \<Rightarrow> exc \<Rightarrow> pyval \<Rightarrow> exc + ustr" where
  "one_of allowed e v =
     (if unhashable v then Inl (TypeError ''unhashable type'')
      else
        (case v of
           PStr s \<Rightarrow> if s \<in> set (map lit allowed) then Inr s else Inl e
         | _ \<Rightarrow> Inl e))"

definition resolve_profile_mode :: "dut_profile_config \<Rightarrow> pyval \<Rightarrow> exc + backend_mode" where
  "resolve_profile_mode config override =
     (let raw_mode = (if override \<noteq> PNone then override else pc_mode config) in
      if raw_mode = PNone then Inl (DutProfileError ''Backend mode is required'')
      else if raw_mode = str_val ''basic'' then Inr BasicBackend
      else if raw_mode = str_val ''enhanced'' then Inr EnhancedBackend
      else Inl (DutProfileError ''backend mode must be basic or enhanced''))"

definition optional_name :: "pyval \<Rightarrow> exc + ustr option" where
  "optional_name v =
     (case v of
        PNone \<Rightarrow> Inr None
      | PStr s \<Rightarrow>
          (case utf8_encode s of
             None \<Rightarrow> Inl UnicodeEncodeError
           | Some encoded \<Rightarrow>
               if encoded = [] \<or> length encoded > MAX_PROFILE_NAME_BYTES \<or> py_isspace (hd s) \<or> py_isspace (last s)
                  \<or> (\<exists>c \<in> set s. is_cc c)
               then Inl (DutProfileError ''profile.name must be 1..128 UTF-8 bytes'')
               else Inr (Some s))
      | _ \<Rightarrow> Inl (DutProfileError ''profile.name must be a string''))"

definition topology_of :: "pyval \<Rightarrow> exc + ustr" where
  "topology_of = one_of [''external_uart'', ''native_usb_console''] (DutProfileError ''backend topology'')"

definition profile_serial_port :: "pyval \<Rightarrow> exc + ustr" where
  "profile_serial_port v = catch_r is_value_error (\<lambda>_. DutProfileError ''serial port'') (validate_serial_port v)"

definition positive_integer :: "pyval \<Rightarrow> exc + int" where
  "positive_integer v =
     (case v of
        PInt n \<Rightarrow> if n \<le> 0 then Inl (DutProfileError ''must be a positive integer'') else Inr n
      | _ \<Rightarrow> Inl (DutProfileError ''must be a positive integer''))"

definition fixed_integer :: "int \<Rightarrow> pyval \<Rightarrow> exc + int" where
  "fixed_integer expected v =
     (case v of
        PInt n \<Rightarrow> if n \<noteq> expected then Inl (DutProfileError ''fixed integer'') else Inr n
      | _ \<Rightarrow> Inl (DutProfileError ''fixed integer''))"

definition fixed_string :: "string \<Rightarrow> pyval \<Rightarrow> exc + ustr" where
  "fixed_string expected v =
     (if v \<noteq> str_val expected then Inl (DutProfileError ''fixed string'') else Inr (lit expected))"

definition boolean_of :: "pyval \<Rightarrow> exc + bool" where
  "boolean_of v = (case v of PBool b \<Rightarrow> Inr b | _ \<Rightarrow> Inl (DutProfileError ''must be a boolean''))"

definition line_ending_of :: "pyval \<Rightarrow> exc + ustr" where
  "line_ending_of =
     one_of [''none'', ''lf'', ''cr'', ''crlf''] (DutProfileError ''default_line_ending is invalid'')"

definition control_line_behavior :: "pyval \<Rightarrow> exc + ustr" where
  "control_line_behavior =
     one_of [''driver_default'', ''asserted'', ''deasserted''] (DutProfileError ''control line behavior'')"

text \<open>The literal \<open>0.1\<close> is the nearest double.\<close>

definition MIN_RECONNECT_TIMEOUT_S :: rat where
  "MIN_RECONNECT_TIMEOUT_S = 3602879701896397 / 36028797018963968"

definition finite_number :: "rat \<Rightarrow> rat \<Rightarrow> pyval \<Rightarrow> exc + rat" where
  "finite_number minimum maximum v =
     (let e = DutProfileError ''must be a finite number'';
          check = (\<lambda>q. if q < minimum \<or> q > maximum then Inl e else Inr q)
      in
      (case v of
         PInt n \<Rightarrow> if int_overflows_float n then Inl OverflowError else check (of_int n)
       | PFloat (FFin q) \<Rightarrow> check q
       | _ \<Rightarrow> Inl e))"

section \<open>Overrides and resolution\<close>

text \<open>The keyword arguments of \<open>resolve_dut_profile\<close>; \<open>PNone\<close> is no override.\<close>

record profile_overrides =
  ov_name :: pyval
  ov_mode :: pyval
  ov_serial_port :: pyval
  ov_topology :: pyval
  ov_baudrate :: pyval
  ov_reconnect_timeout_s :: pyval
  ov_data_bits :: pyval
  ov_parity :: pyval
  ov_stop_bits :: pyval
  ov_rtscts :: pyval
  ov_xonxoff :: pyval
  ov_tx_enabled :: pyval
  ov_default_line_ending :: pyval
  ov_dtr_on_open :: pyval
  ov_rts_on_open :: pyval
  ov_usb_vid :: pyval
  ov_usb_pid :: pyval
  ov_usb_serial_number :: pyval

definition over_value :: "pyval \<Rightarrow> pyval \<Rightarrow> pyval" where
  "over_value override configured = (if override = PNone then configured else override)"

definition resolve_baudrate :: "backend_mode \<Rightarrow> pyval \<Rightarrow> exc + int" where
  "resolve_baudrate mode configured =
     bind_r (if configured = PNone then
               Inr (if mode = BasicBackend then DEFAULT_BASIC_BAUDRATE else ENHANCED_BAUDRATE)
             else positive_integer configured) (\<lambda>baudrate.
       if mode = EnhancedBackend \<and> baudrate \<noteq> ENHANCED_BAUDRATE then
         Inl (DutProfileError ''Enhanced backend baudrate is fixed at 460800'')
       else Inr baudrate)"

definition resolve_uart :: "backend_mode \<Rightarrow> uart_profile_config \<Rightarrow> profile_overrides \<Rightarrow> exc + effective_uart_settings" where
  "resolve_uart mode u ov =
     bind_r (resolve_baudrate mode (over_value (ov_baudrate ov) (uc_baudrate u))) (\<lambda>baudrate.
     bind_r (fixed_integer 8 (over_value (ov_data_bits ov) (uc_data_bits u))) (\<lambda>data_bits.
     bind_r (fixed_string ''none'' (over_value (ov_parity ov) (uc_parity u))) (\<lambda>parity.
     bind_r (fixed_integer 1 (over_value (ov_stop_bits ov) (uc_stop_bits u))) (\<lambda>stop_bits.
     bind_r (boolean_of (over_value (ov_rtscts ov) (uc_rtscts u))) (\<lambda>rtscts.
     bind_r (boolean_of (over_value (ov_xonxoff ov) (uc_xonxoff u))) (\<lambda>xonxoff.
     bind_r (boolean_of (over_value (ov_tx_enabled ov) (uc_tx_enabled u))) (\<lambda>tx_enabled.
     bind_r (line_ending_of (over_value (ov_default_line_ending ov) (uc_default_line_ending u))) (\<lambda>line_ending.
     bind_r (control_line_behavior (over_value (ov_dtr_on_open ov) (uc_dtr_on_open u))) (\<lambda>dtr_on_open.
     bind_r (control_line_behavior (over_value (ov_rts_on_open ov) (uc_rts_on_open u))) (\<lambda>rts_on_open.
       if rtscts \<and> rts_on_open \<noteq> lit ''driver_default'' then
         Inl (DutProfileError ''RTS application state conflicts with hardware.uart.rtscts'')
       else if rtscts then Inl (DutProfileError ''hardware.uart.rtscts must be false in Phase 1'')
       else if xonxoff then Inl (DutProfileError ''hardware.uart.xonxoff must be false in Phase 1'')
       else
         Inr \<lparr>eu_baudrate = baudrate, eu_data_bits = data_bits, eu_parity = parity,
              eu_stop_bits = stop_bits, eu_rtscts = rtscts, eu_xonxoff = xonxoff,
              eu_tx_enabled = tx_enabled, eu_default_line_ending = line_ending,
              eu_dtr_on_open = dtr_on_open, eu_rts_on_open = rts_on_open\<rparr>))))))))))"

fun usb_id_ok :: "pyval \<Rightarrow> bool" where
  "usb_id_ok (PInt n) = (0 \<le> n \<and> n \<le> 65535)"
| "usb_id_ok _ = False"

definition check_usb_identity :: "(nat \<Rightarrow> bool) \<Rightarrow> ustr \<Rightarrow> pyval \<Rightarrow> pyval \<Rightarrow> pyval \<Rightarrow> exc + unit" where
  "check_usb_identity printable topology vid pid serial_number =
     (if vid = PNone \<and> pid = PNone \<and> serial_number = PNone then Inr ()
      else if topology \<noteq> lit ''native_usb_console'' then
        Inl (DutProfileError ''USB identity selector requires native_usb_console topology'')
      else if \<not> usb_id_ok vid \<or> \<not> usb_id_ok pid then
        Inl (DutProfileError ''USB selector vid and pid must be integers 0..65535'')
      else
        (case serial_number of
           PStr s \<Rightarrow>
             if s = [] \<or> length s > 128 \<or> (\<exists>c \<in> set s. \<not> printable c) then
               Inl (DutProfileError ''USB selector requires a bounded non-empty serial_number'')
             else Inr ()
         | _ \<Rightarrow> Inl (DutProfileError ''USB selector requires a bounded non-empty serial_number'')))"

fun int_option :: "pyval \<Rightarrow> int option" where
  "int_option (PInt n) = Some n"
| "int_option _ = None"

fun str_option :: "pyval \<Rightarrow> ustr option" where
  "str_option (PStr s) = Some s"
| "str_option _ = None"

text \<open>
  The controls come in the order of their role names; \<open>canonical_json\<close> is the text of the
  projection or the exception its serialisation raises.
\<close>

definition resolve_dut_profile ::
  "(nat \<Rightarrow> bool) \<Rightarrow> (pydict \<Rightarrow> exc + bytes) \<Rightarrow> dut_profile_config \<Rightarrow> profile_overrides \<Rightarrow> exc + dut_profile" where
  "resolve_dut_profile printable canonical_json config ov =
     (let vid = over_value (ov_usb_vid ov) (pc_usb_vid config);
          pid = over_value (ov_usb_pid ov) (pc_usb_pid config);
          serial_number = over_value (ov_usb_serial_number ov) (pc_usb_serial_number config)
      in
      bind_r (resolve_profile_mode config (ov_mode ov)) (\<lambda>mode.
      bind_r (optional_name (over_value (ov_name ov) (pc_name config))) (\<lambda>name.
      bind_r (topology_of (over_value (ov_topology ov) (pc_topology config))) (\<lambda>topology.
      bind_r (let raw_port = over_value (ov_serial_port ov) (pc_serial_port config) in
              if raw_port = PNone then Inr None
              else bind_r (profile_serial_port raw_port) (\<lambda>p. Inr (Some p))) (\<lambda>port.
        if mode = BasicBackend \<and> port = None then
          Inl (DutProfileError ''Basic backend requires a serial port'')
        else if topology = lit ''native_usb_console'' \<and> port = None then
          Inl (DutProfileError ''native_usb_console requires an exact serial path'')
        else
      bind_r (finite_number MIN_RECONNECT_TIMEOUT_S 60
                (over_value (ov_reconnect_timeout_s ov) (pc_reconnect_timeout_s config))) (\<lambda>timeout.
      bind_r (resolve_uart mode (pc_uart config) ov) (\<lambda>uart.
      bind_r (check_usb_identity printable topology vid pid serial_number) (\<lambda>_.
        let p =
          \<lparr>dp_name = name, dp_backend_mode = mode,
           dp_selector =
             \<lparr>sl_strategy =
                (if serial_number \<noteq> PNone then UsbIdentity
                 else if port \<noteq> None then ExactPath else EnhancedDiscovery),
              sl_exact_path = port, sl_vid = int_option vid, sl_pid = int_option pid,
              sl_serial_number = str_option serial_number\<rparr>,
           dp_current_serial_port = port, dp_reconnect_timeout_s = timeout, dp_topology = topology,
           dp_uart = uart, dp_dut_io_voltage = hg_dut_io_voltage (pc_hardware config),
           dp_controls = map snd (sort_key fst (hg_controls (pc_hardware config)))\<rparr>
        in
        bind_r (canonical_json (profile_projection p)) (\<lambda>text.
          if length text > MAX_PROFILE_PROJECTION_BYTES then
            Inl (DutProfileError ''effective DUT Profile exceeds its size limit'')
          else Inr p)))))))))"

section \<open>Selecting the device\<close>

record serial_port_candidate =
  sp_device :: ustr
  sp_description :: ustr
  sp_hwid :: ustr
  sp_vid :: "int option"
  sp_pid :: "int option"
  sp_serial_number :: "ustr option"
  sp_manufacturer :: "ustr option"
  sp_product :: "ustr option"
  sp_interface :: "ustr option"
  sp_location :: "ustr option"
  sp_is_dutchmate_hint :: bool

definition has_dutchmate_text_hint :: "(ustr \<Rightarrow> ustr) \<Rightarrow> ustr option list \<Rightarrow> bool" where
  "has_dutchmate_text_hint lower values =
     list_ex (\<lambda>v. case v of None \<Rightarrow> False
                  | Some s \<Rightarrow> s \<noteq> [] \<and> find_at (lit ''dutchmate'') (lower s) 0 \<noteq> None) values"

text \<open>The port information of the serial library has the same fields, without the hint.\<close>

definition candidate_from_port :: "(ustr \<Rightarrow> ustr) \<Rightarrow> serial_port_candidate \<Rightarrow> serial_port_candidate" where
  "candidate_from_port lower port =
     port\<lparr>sp_is_dutchmate_hint :=
       has_dutchmate_text_hint lower
         [Some (sp_device port), Some (sp_description port), Some (sp_hwid port), sp_manufacturer port,
          sp_product port, sp_interface port]\<rparr>"

definition list_serial_ports ::
  "(ustr \<Rightarrow> ustr) \<Rightarrow> serial_port_candidate list \<Rightarrow> serial_port_candidate list" where
  "list_serial_ports lower ports = map (candidate_from_port lower) ports"

definition list_dutchmate_candidates ::
  "(ustr \<Rightarrow> ustr) \<Rightarrow> serial_port_candidate list \<Rightarrow> serial_port_candidate list" where
  "list_dutchmate_candidates lower ports = filter sp_is_dutchmate_hint (list_serial_ports lower ports)"

definition select_backend_settings ::
  "backend_settings \<Rightarrow> serial_port_candidate list \<Rightarrow> exc + backend_settings" where
  "select_backend_settings s ports =
     (if bs_topology s \<noteq> lit ''native_usb_console'' \<or> bs_usb_serial_number s = None then Inr s
      else
        let hits = filter (\<lambda>p. sp_vid p = bs_usb_vid s \<and> sp_pid p = bs_usb_pid s
                             \<and> sp_serial_number p = bs_usb_serial_number s) ports
        in
        if length hits \<noteq> 1 then
          Inl (ConnectionLifecycleError (lit ''service_unavailable'')
            (Some (lit (if length hits > 1 then ''ambiguous_device'' else ''device_not_found''))))
        else bind_r (validate_serial_port (PStr (sp_device (hd hits)))) (\<lambda>d. Inr (s\<lparr>bs_serial_port := Some d\<rparr>)))"

section \<open>What a profile is\<close>

definition uart_settings_ok :: "backend_mode \<Rightarrow> effective_uart_settings \<Rightarrow> bool" where
  "uart_settings_ok mode u \<longleftrightarrow>
     0 < eu_baudrate u \<and> (mode = EnhancedBackend \<longrightarrow> eu_baudrate u = ENHANCED_BAUDRATE)
     \<and> eu_data_bits u = 8 \<and> eu_parity u = lit ''none'' \<and> eu_stop_bits u = 1
     \<and> \<not> eu_rtscts u \<and> \<not> eu_xonxoff u
     \<and> eu_default_line_ending u \<in> set (map lit [''none'', ''lf'', ''cr'', ''crlf''])
     \<and> eu_dtr_on_open u \<in> set (map lit [''driver_default'', ''asserted'', ''deasserted''])
     \<and> eu_rts_on_open u \<in> set (map lit [''driver_default'', ''asserted'', ''deasserted''])"

definition usb_number_ok :: "int option \<Rightarrow> bool" where
  "usb_number_ok v \<longleftrightarrow> (\<exists>n. v = Some n \<and> 0 \<le> n \<and> n \<le> 65535)"

text \<open>The selector is of one of three shapes; only the enhanced backend discovers its port.\<close>

definition selector_ok :: "backend_mode \<Rightarrow> ustr \<Rightarrow> ustr option \<Rightarrow> serial_selector \<Rightarrow> bool" where
  "selector_ok mode topology port s \<longleftrightarrow>
     sl_exact_path s = port
     \<and> (case sl_strategy s of
          UsbIdentity \<Rightarrow>
            topology = lit ''native_usb_console'' \<and> port \<noteq> None \<and> usb_number_ok (sl_vid s)
            \<and> usb_number_ok (sl_pid s)
            \<and> (\<exists>n. sl_serial_number s = Some n \<and> n \<noteq> [] \<and> length n \<le> 128)
        | ExactPath \<Rightarrow> port \<noteq> None \<and> sl_vid s = None \<and> sl_pid s = None \<and> sl_serial_number s = None
        | EnhancedDiscovery \<Rightarrow>
            mode = EnhancedBackend \<and> topology = lit ''external_uart'' \<and> port = None
            \<and> sl_vid s = None \<and> sl_pid s = None \<and> sl_serial_number s = None)"

definition profile_name_ok :: "ustr option \<Rightarrow> bool" where
  "profile_name_ok v \<longleftrightarrow>
     (\<forall>s. v = Some s \<longrightarrow>
        s \<noteq> [] \<and> \<not> py_isspace (hd s) \<and> \<not> py_isspace (last s) \<and> list_all (Not \<circ> is_cc) s
        \<and> (\<exists>b. utf8_encode s = Some b \<and> length b \<le> MAX_PROFILE_NAME_BYTES))"

definition profile_ok :: "dut_profile \<Rightarrow> bool" where
  "profile_ok p \<longleftrightarrow>
     profile_name_ok (dp_name p)
     \<and> dp_topology p \<in> set (map lit [''external_uart'', ''native_usb_console''])
     \<and> (dp_backend_mode p = BasicBackend \<longrightarrow> dp_current_serial_port p \<noteq> None)
     \<and> MIN_RECONNECT_TIMEOUT_S \<le> dp_reconnect_timeout_s p \<and> dp_reconnect_timeout_s p \<le> 60
     \<and> uart_settings_ok (dp_backend_mode p) (dp_uart p)
     \<and> selector_ok (dp_backend_mode p) (dp_topology p) (dp_current_serial_port p) (dp_selector p)
     \<and> sorted (map hc_role (dp_controls p))"

lemma one_of_Inr [check_simps]: "one_of allowed e v = Inr s \<longleftrightarrow> v = PStr s \<and> s \<in> set (map lit allowed)"
  by (cases v) (auto simp: one_of_def)

lemma optional_name_Inr: "optional_name v = Inr n \<Longrightarrow> profile_name_ok n"
  by (cases v) (auto simp: optional_name_def profile_name_ok_def list_all_iff check_simps split: if_splits)

lemma finite_number_Inr: "finite_number a b v = Inr q \<Longrightarrow> a \<le> q \<and> q \<le> b"
  by (cases v) (auto simp: finite_number_def Let_def check_simps split: pyfloat.splits if_splits)

lemma positive_integer_Inr: "positive_integer v = Inr n \<Longrightarrow> 0 < n"
  by (cases v) (auto simp: positive_integer_def split: if_splits)

lemma fixed_integer_Inr: "fixed_integer k v = Inr n \<Longrightarrow> n = k"
  by (cases v) (auto simp: fixed_integer_def split: if_splits)

lemma fixed_string_Inr: "fixed_string k v = Inr n \<Longrightarrow> n = lit k"
  by (auto simp: fixed_string_def split: if_splits)

lemma resolve_baudrate_Inr:
  "resolve_baudrate mode v = Inr n \<Longrightarrow> 0 < n \<and> (mode = EnhancedBackend \<longrightarrow> n = ENHANCED_BAUDRATE)"
  by (auto simp: resolve_baudrate_def result_simps check_simps DEFAULT_BASIC_BAUDRATE_def ENHANCED_BAUDRATE_def
      split: if_splits dest: positive_integer_Inr)

lemma resolve_uart_Inr: "resolve_uart mode u ov = Inr q \<Longrightarrow> uart_settings_ok mode q"
  unfolding resolve_uart_def line_ending_of_def control_line_behavior_def
  by (clarsimp simp: result_simps check_simps uart_settings_ok_def simp del: set_map list.set list.map
      dest!: resolve_baudrate_Inr fixed_integer_Inr fixed_string_Inr)

lemma usb_id_ok_iff: "usb_id_ok v \<longleftrightarrow> (\<exists>n. v = PInt n \<and> 0 \<le> n \<and> n \<le> 65535)"
  by (cases v) auto

lemma check_usb_identity_Inr:
  "check_usb_identity printable topology vid pid serial_number = Inr () \<Longrightarrow>
     vid = PNone \<and> pid = PNone \<and> serial_number = PNone
     \<or> topology = lit ''native_usb_console'' \<and> usb_number_ok (int_option vid) \<and> usb_number_ok (int_option pid)
       \<and> (\<exists>s. serial_number = PStr s \<and> s \<noteq> [] \<and> length s \<le> 128)"
  by (cases serial_number)
     (auto simp: check_usb_identity_def usb_number_ok_def usb_id_ok_iff split: if_splits)

text \<open>
  C33: Whatever values the project file and the command line hold, a profile that resolves is well
  formed: 8N1 without flow control, a positive baud rate that is 460800 for the enhanced backend, a
  reconnect timeout from 0.1 to 60 seconds, a bounded printable name, one of the two topologies, a serial port whenever the
  backend is basic or the console is native USB, and a selector of one of three shapes, of which
  the USB identity has two 16 bit numbers and a bounded serial number. The role, the mode and the
  port that an override names are the ones of the profile.
\<close>

theorem resolved_profile_ok:
  assumes "resolve_dut_profile printable canonical_json config ov = Inr p"
    and "list_all (\<lambda>(role, m). hc_role m = role) (hg_controls (pc_hardware config))"
  shows "profile_ok p
    \<and> (ov_mode ov \<noteq> PNone \<longrightarrow> ov_mode ov = PStr (lit (backend_mode_name (dp_backend_mode p))))
    \<and> (ov_serial_port ov \<noteq> PNone \<longrightarrow> (\<exists>d. ov_serial_port ov = PStr d \<and> dp_current_serial_port p = Some d))
    \<and> (ov_name ov \<noteq> PNone \<longrightarrow> (\<exists>s. ov_name ov = PStr s \<and> dp_name p = Some s))"
proof -
  let ?vid = "over_value (ov_usb_vid ov) (pc_usb_vid config)"
  let ?pid = "over_value (ov_usb_pid ov) (pc_usb_pid config)"
  let ?sn = "over_value (ov_usb_serial_number ov) (pc_usb_serial_number config)"
  let ?port = "over_value (ov_serial_port ov) (pc_serial_port config)"
  let ?controls = "map snd (sort_key fst (hg_controls (pc_hardware config)))"
  from assms(1) obtain mode name topology port timeout uart where
    mode: "resolve_profile_mode config (ov_mode ov) = Inr mode"
    and name: "optional_name (over_value (ov_name ov) (pc_name config)) = Inr name"
    and topology: "topology_of (over_value (ov_topology ov) (pc_topology config)) = Inr topology"
    and port: "(if ?port = PNone then Inr None else bind_r (profile_serial_port ?port) (\<lambda>p. Inr (Some p))) = Inr port"
    and need: "mode = BasicBackend \<longrightarrow> port \<noteq> None" "topology = lit ''native_usb_console'' \<longrightarrow> port \<noteq> None"
    and timeout: "finite_number MIN_RECONNECT_TIMEOUT_S 60
          (over_value (ov_reconnect_timeout_s ov) (pc_reconnect_timeout_s config)) = Inr timeout"
    and uart: "resolve_uart mode (pc_uart config) ov = Inr uart"
    and usb: "check_usb_identity printable topology ?vid ?pid ?sn = Inr ()"
    and p: "dp_name p = name" "dp_backend_mode p = mode" "dp_current_serial_port p = port"
      "dp_reconnect_timeout_s p = timeout" "dp_topology p = topology" "dp_uart p = uart"
      "dp_controls p = ?controls"
      "dp_selector p = \<lparr>sl_strategy = (if ?sn \<noteq> PNone then UsbIdentity
                 else if port \<noteq> None then ExactPath else EnhancedDiscovery),
              sl_exact_path = port, sl_vid = int_option ?vid, sl_pid = int_option ?pid,
              sl_serial_number = str_option ?sn\<rparr>"
    unfolding resolve_dut_profile_def Let_def
    by (auto simp: result_simps check_simps)
  have topo: "topology \<in> set (map lit [''external_uart'', ''native_usb_console''])"
    using topology by (simp add: topology_of_def check_simps)
  have modes: "mode = BasicBackend \<or> mode = EnhancedBackend" by (cases mode) simp_all
  have selector: "selector_ok mode topology port (dp_selector p)"
    using check_usb_identity_Inr [OF usb] need modes topo
    by (auto simp: selector_ok_def p(8))
  have "map hc_role ?controls = map fst (sort_key fst (hg_controls (pc_hardware config)))"
    using assms(2) by (auto simp: list_all_iff)
  then have sorted: "sorted (map hc_role (dp_controls p))" unfolding p(7) by (simp only: sorted_sort_key)
  have given: "ov_mode ov \<noteq> PNone \<Longrightarrow> ov_mode ov = PStr (lit (backend_mode_name mode))"
    using mode by (auto simp: resolve_profile_mode_def Let_def str_val_def split: if_splits)
  have at: "ov_serial_port ov = PStr d \<and> port = Some d" if "ov_serial_port ov \<noteq> PNone" "port = Some d" for d
    using port that
    by (auto simp: over_value_def profile_serial_port_def result_simps validate_serial_port_def check_simps
        split: pyval.splits option.splits if_splits)
  have some: "port \<noteq> None" if "ov_serial_port ov \<noteq> PNone"
    using port that by (auto simp: over_value_def result_simps)
  have named: "\<exists>s. ov_name ov = PStr s \<and> name = Some s" if "ov_name ov \<noteq> PNone"
    using name that
    by (auto simp: over_value_def optional_name_def split: pyval.splits option.splits if_splits)
  show ?thesis
    unfolding profile_ok_def p(1-6)
    using optional_name_Inr [OF name] topo need finite_number_Inr [OF timeout] resolve_uart_Inr [OF uart]
      selector sorted given at some named
    by (auto simp: p(7))
qed

definition demo_config :: dut_profile_config where
  "demo_config =
     \<lparr>pc_name = PNone, pc_mode = str_val ''enhanced'', pc_serial_port = PNone,
      pc_reconnect_timeout_s = PFloat (FFin DEFAULT_RECONNECT_TIMEOUT_S),
      pc_topology = str_val ''external_uart'', pc_usb_vid = PNone, pc_usb_pid = PNone,
      pc_usb_serial_number = PNone,
      pc_uart =
        \<lparr>uc_baudrate = PNone, uc_data_bits = PInt 8, uc_parity = str_val ''none'', uc_stop_bits = PInt 1,
         uc_rtscts = PBool False, uc_xonxoff = PBool False, uc_tx_enabled = PBool False,
         uc_default_line_ending = str_val ''none'', uc_dtr_on_open = str_val ''driver_default'',
         uc_rts_on_open = str_val ''driver_default''\<rparr>,
      pc_hardware = \<lparr>hg_dut_io_voltage = None, hg_controls = []\<rparr>\<rparr>"

lemma demo_config_parsed:
  "parse_dut_profile_config (PDict [(lit ''backend'', PDict [(lit ''mode'', str_val ''enhanced'')])]) = Inr demo_config"
  by (simp add: parse_dut_profile_config_def optional_table_def reject_extra_fields_def dict_keys_def
      parse_hardware_gpio_config_def sub_table_def optional_voltage_def demo_config_def get_default_def dict_get_def)

definition demo_overrides :: profile_overrides where
  "demo_overrides =
     \<lparr>ov_name = PNone, ov_mode = str_val ''basic'', ov_serial_port = str_val ''COM3'', ov_topology = PNone,
      ov_baudrate = PNone, ov_reconnect_timeout_s = PInt 2, ov_data_bits = PNone, ov_parity = PNone,
      ov_stop_bits = PNone, ov_rtscts = PNone, ov_xonxoff = PNone, ov_tx_enabled = PBool True,
      ov_default_line_ending = str_val ''lf'', ov_dtr_on_open = PNone, ov_rts_on_open = PNone,
      ov_usb_vid = PNone, ov_usb_pid = PNone, ov_usb_serial_number = PNone\<rparr>"

theorem resolved_profile_ok_witness:
  "\<exists>p. resolve_dut_profile (\<lambda>_. True) (\<lambda>_. Inr []) demo_config demo_overrides = Inr p
       \<and> profile_ok p \<and> dp_backend_mode p = BasicBackend"
proof -
  have port: "validate_serial_port (PStr (lit ''COM3'')) = Inr (lit ''COM3'')"
    by (simp add: validate_serial_port_def utf8_encode_lit MAX_SERIAL_PORT_BYTES_def)
       (simp add: lit_def is_unicode_whitespace_def is_cc_def)
  obtain p where p: "resolve_dut_profile (\<lambda>_. True) (\<lambda>_. Inr []) demo_config demo_overrides = Inr p"
    by (simp add: resolve_dut_profile_def demo_config_def demo_overrides_def over_value_def
        resolve_profile_mode_def str_val_def optional_name_def topology_of_def one_of_def profile_serial_port_def
        port finite_number_def MIN_RECONNECT_TIMEOUT_S_def int_overflows_float_def resolve_uart_def
        resolve_baudrate_def fixed_integer_def fixed_string_def boolean_of_def line_ending_of_def
        control_line_behavior_def check_usb_identity_def MAX_PROFILE_PROJECTION_BYTES_def)
  have "hg_controls (pc_hardware demo_config) = []" by (simp add: demo_config_def)
  with resolved_profile_ok [OF p] have ok: "profile_ok p"
      "ov_mode demo_overrides \<noteq> PNone \<longrightarrow> ov_mode demo_overrides = PStr (lit (backend_mode_name (dp_backend_mode p)))"
    by simp_all
  from ok(2) have "dp_backend_mode p = BasicBackend"
    by (cases "dp_backend_mode p") (simp_all add: demo_overrides_def str_val_def)
  with p ok(1) show ?thesis by blast
qed

section \<open>Unique selection\<close>

lemma select_backend_settings_unique:
  assumes "select_backend_settings s ports = Inr s'"
  shows "s' = s \<or> (\<exists>c. filter (\<lambda>p. sp_vid p = bs_usb_vid s \<and> sp_pid p = bs_usb_pid s
                             \<and> sp_serial_number p = bs_usb_serial_number s) ports = [c]
                    \<and> s' = s\<lparr>bs_serial_port := Some (sp_device c)\<rparr>)"
proof (rule disjCI)
  let ?hits = "filter (\<lambda>p. sp_vid p = bs_usb_vid s \<and> sp_pid p = bs_usb_pid s
                             \<and> sp_serial_number p = bs_usb_serial_number s) ports"
  assume "\<not> (\<exists>c. ?hits = [c] \<and> s' = s\<lparr>bs_serial_port := Some (sp_device c)\<rparr>)"
  moreover have "validate_serial_port (PStr d) = Inr d' \<Longrightarrow> d' = d" for d d'
    by (auto simp: validate_serial_port_def check_simps split: option.splits if_splits)
  ultimately show "s' = s"
    using assms by (cases ?hits) (auto simp: select_backend_settings_def Let_def result_simps split: if_splits)
qed

end
