(* ===== verification/Evidence_Records.thy ===== *)
theory Evidence_Records
  imports Uart_Processor Contracts "HOL-Library.Product_Lexorder"
begin

text \<open>
  The derived records of a session, \<open>session_store/evidence.py\<close>: a pattern match found by the capture
  processor becomes a JSON object with a bounded excerpt of its line, an oversized line becomes a
  \<open>line_limit_exceeded\<close> fact, and the stored objects are read back as validated references, of
  which the earliest failure match is the first error of the session.
\<close>

section \<open>Building records\<close>

definition FAILURE_PATTERNS :: "ustr set" where
  "FAILURE_PATTERNS = {lit ''ERROR'', lit ''ASSERT'', lit ''PANIC'', lit ''HardFault''}"

definition MAX_MATCH_EXCERPT_BYTES :: nat where "MAX_MATCH_EXCERPT_BYTES = 4096"

abbreviation PNat :: "nat \<Rightarrow> pyval" where "PNat n \<equiv> PInt (int n)"

record match_excerpt =
  ex_start_byte :: nat
  ex_end_byte :: nat
  ex_text :: ustr
  ex_raw_b64 :: ustr
  ex_excerpt_truncated :: bool

definition match_coordinate :: "nat option \<Rightarrow> exc + nat" where
  "match_coordinate v =
     (case v of None \<Rightarrow> Inl (ValueError ''pattern match is missing a coordinate'') | Some n \<Rightarrow> Inr n)"

definition make_match_excerpt :: "bytes \<Rightarrow> nat \<Rightarrow> nat \<Rightarrow> match_excerpt" where
  "make_match_excerpt line_raw match_start_byte match_end_byte =
     (let (start_byte, end_byte) =
            (if length line_raw \<le> MAX_MATCH_EXCERPT_BYTES then (0, length line_raw)
             else
               let match_bytes = int match_end_byte - int match_start_byte;
                   leading_budget = (int MAX_MATCH_EXCERPT_BYTES - match_bytes) div 2;
                   s = max 0 (int match_start_byte - leading_budget);
                   s' = nat (min s (int (length line_raw) - int MAX_MATCH_EXCERPT_BYTES))
               in (s', s' + MAX_MATCH_EXCERPT_BYTES));
          raw = slice line_raw start_byte end_byte
      in \<lparr>ex_start_byte = start_byte, ex_end_byte = end_byte, ex_text = utf8_decode_replace raw,
          ex_raw_b64 = b64encode_str raw, ex_excerpt_truncated = (length raw \<noteq> length line_raw)\<rparr>)"

definition excerpt_json :: "match_excerpt \<Rightarrow> pydict" where
  "excerpt_json x =
     [(lit ''start_byte'', PNat (ex_start_byte x)), (lit ''end_byte'', PNat (ex_end_byte x)),
      (lit ''text'', PStr (ex_text x)), (lit ''raw_b64'', PStr (ex_raw_b64 x)),
      (lit ''excerpt_truncated'', PBool (ex_excerpt_truncated x))]"

definition opt_nat :: "nat option \<Rightarrow> pyval" where
  "opt_nat v = (case v of None \<Rightarrow> PNone | Some n \<Rightarrow> PNat n)"

definition detected_pattern_record :: "capture_result \<Rightarrow> nat \<Rightarrow> pattern_match \<Rightarrow> exc + pydict" where
  "detected_pattern_record result segment_id m =
     bind_r (match_coordinate (pm_match_start_byte m)) (\<lambda>match_start_byte.
     bind_r (match_coordinate (pm_match_end_byte m)) (\<lambda>match_end_byte.
     bind_r (match_coordinate (pm_ingestion_index m)) (\<lambda>ingestion_index.
     bind_r (match_coordinate (pm_line_index_in_event m)) (\<lambda>line_index_in_event.
     bind_r (match_coordinate (pm_line_start_ingestion_index m)) (\<lambda>line_start_ingestion_index.
     bind_r (match_coordinate (pm_line_start_event_offset m)) (\<lambda>line_start_event_offset.
     bind_r (match_coordinate (pm_line_end_ingestion_index m)) (\<lambda>line_end_ingestion_index.
     bind_r (match_coordinate (pm_line_end_event_offset m)) (\<lambda>line_end_event_offset.
       Inr [(lit ''pattern'', PStr (pm_pattern m)), (lit ''segment_id'', PNat segment_id),
            (lit ''timestamp_us'', opt_nat (cr_timestamp_us result)),
            (lit ''channel'', PNat (cr_channel result)),
            (lit ''ingestion_index'', PNat ingestion_index),
            (lit ''line_index_in_event'', PNat line_index_in_event),
            (lit ''line_start_ingestion_index'', PNat line_start_ingestion_index),
            (lit ''line_start_event_offset'', PNat line_start_event_offset),
            (lit ''line_end_ingestion_index'', PNat line_end_ingestion_index),
            (lit ''line_end_event_offset'', PNat line_end_event_offset),
            (lit ''total_line_bytes'', PNat (length (pm_line_raw m))),
            (lit ''match_start_byte'', PNat match_start_byte),
            (lit ''match_end_byte'', PNat match_end_byte),
            (lit ''match_excerpt'',
             PDict (excerpt_json (make_match_excerpt (pm_line_raw m) match_start_byte match_end_byte)))]))))))))"

definition detected_pattern_records :: "capture_result \<Rightarrow> nat \<Rightarrow> exc + pydict list" where
  "detected_pattern_records result segment_id =
     map_r (detected_pattern_record result segment_id) (cr_matches result)"

definition line_limit_exceeded_event_json :: "capture_result \<Rightarrow> oversized_uart_line \<Rightarrow> exc + pydict" where
  "line_limit_exceeded_event_json result line =
     bind_r (match_coordinate (ol_ingestion_index line)) (\<lambda>ingestion_index.
     bind_r (match_coordinate (ol_line_index_in_event line)) (\<lambda>line_index_in_event.
     bind_r (match_coordinate (ol_start_ingestion_index line)) (\<lambda>line_start_ingestion_index.
     bind_r (match_coordinate (ol_start_event_offset line)) (\<lambda>line_start_event_offset.
     bind_r (match_coordinate (ol_end_ingestion_index line)) (\<lambda>line_end_ingestion_index.
     bind_r (match_coordinate (ol_end_event_offset line)) (\<lambda>line_end_event_offset.
       Inr [(lit ''type'', PStr (lit ''line_limit_exceeded'')),
            (lit ''segment_id'', PNat (cr_segment_id result)),
            (lit ''timestamp_us'', opt_nat (ol_timestamp_us line)),
            (lit ''channel'', PNat (cr_channel result)),
            (lit ''ingestion_index'', PNat ingestion_index),
            (lit ''line_index_in_event'', PNat line_index_in_event),
            (lit ''line_start_ingestion_index'', PNat line_start_ingestion_index),
            (lit ''line_start_event_offset'', PNat line_start_event_offset),
            (lit ''line_end_ingestion_index'', PNat line_end_ingestion_index),
            (lit ''line_end_event_offset'', PNat line_end_event_offset),
            (lit ''total_line_bytes'', PNat (ol_total_bytes line)),
            (lit ''terminated'', PBool (ol_terminated line))]))))))"

section \<open>Reading records\<close>

record first_error_view =
  fe_pattern :: ustr
  fe_detected_pattern_index :: nat
  fe_segment_id :: nat
  fe_timestamp_us :: nat
  fe_channel :: nat
  fe_ingestion_index :: nat
  fe_line_index_in_event :: nat
  fe_line_start_ingestion_index :: nat
  fe_line_start_event_offset :: nat
  fe_line_end_ingestion_index :: nat
  fe_line_end_event_offset :: nat
  fe_total_line_bytes :: nat
  fe_match_start_byte :: nat
  fe_match_end_byte :: nat
  fe_match_excerpt :: match_excerpt

record v2_first_error_view = first_error_view +
  fv_source_evidence_seq :: nat

definition pattern_int :: "pydict \<Rightarrow> string \<Rightarrow> exc + nat" where
  "pattern_int m key =
     (case dict_get key m of
        PInt n \<Rightarrow>
          if n < 0 then Inl (ValueError ''detected pattern field must be a non-negative integer'')
          else Inr (nat n)
      | _ \<Rightarrow> Inl (ValueError ''detected pattern field must be a non-negative integer''))"

definition pattern_excerpt :: "pyval \<Rightarrow> exc + match_excerpt" where
  "pattern_excerpt v =
     (case v of
        PDict x \<Rightarrow>
          (case (dict_get ''text'' x, dict_get ''raw_b64'' x) of
             (PStr t, PStr raw_b64) \<Rightarrow>
               (case dict_get ''excerpt_truncated'' x of
                  PBool truncated \<Rightarrow>
                    bind_r (pattern_int x ''start_byte'') (\<lambda>start_byte.
                    bind_r (pattern_int x ''end_byte'') (\<lambda>end_byte.
                      Inr \<lparr>ex_start_byte = start_byte, ex_end_byte = end_byte, ex_text = t,
                           ex_raw_b64 = raw_b64, ex_excerpt_truncated = truncated\<rparr>))
                | _ \<Rightarrow> Inl (ValueError ''detected pattern excerpt_truncated must be a boolean''))
           | _ \<Rightarrow> Inl (ValueError ''detected pattern excerpt text/base64 is invalid''))
      | _ \<Rightarrow> Inl (ValueError ''detected pattern match_excerpt must be a JSON object''))"

definition view_pattern :: "pydict \<Rightarrow> nat \<Rightarrow> ustr \<Rightarrow> exc + first_error_view" where
  "view_pattern m index pattern_name =
     bind_r (pattern_int m ''segment_id'') (\<lambda>segment_id.
     bind_r (pattern_int m ''timestamp_us'') (\<lambda>timestamp_us.
     bind_r (pattern_int m ''channel'') (\<lambda>channel.
     bind_r (pattern_int m ''ingestion_index'') (\<lambda>ingestion_index.
     bind_r (pattern_int m ''line_index_in_event'') (\<lambda>line_index_in_event.
     bind_r (pattern_int m ''line_start_ingestion_index'') (\<lambda>line_start_ingestion_index.
     bind_r (pattern_int m ''line_start_event_offset'') (\<lambda>line_start_event_offset.
     bind_r (pattern_int m ''line_end_ingestion_index'') (\<lambda>line_end_ingestion_index.
     bind_r (pattern_int m ''line_end_event_offset'') (\<lambda>line_end_event_offset.
     bind_r (pattern_int m ''total_line_bytes'') (\<lambda>total_line_bytes.
     bind_r (pattern_int m ''match_start_byte'') (\<lambda>match_start_byte.
     bind_r (pattern_int m ''match_end_byte'') (\<lambda>match_end_byte.
     bind_r (pattern_excerpt (dict_get ''match_excerpt'' m)) (\<lambda>x.
       Inr \<lparr>fe_pattern = pattern_name, fe_detected_pattern_index = index, fe_segment_id = segment_id,
            fe_timestamp_us = timestamp_us, fe_channel = channel, fe_ingestion_index = ingestion_index,
            fe_line_index_in_event = line_index_in_event,
            fe_line_start_ingestion_index = line_start_ingestion_index,
            fe_line_start_event_offset = line_start_event_offset,
            fe_line_end_ingestion_index = line_end_ingestion_index,
            fe_line_end_event_offset = line_end_event_offset, fe_total_line_bytes = total_line_bytes,
            fe_match_start_byte = match_start_byte, fe_match_end_byte = match_end_byte,
            fe_match_excerpt = x\<rparr>)))))))))))))"

definition detected_pattern_at :: "pyval list \<Rightarrow> pyval \<Rightarrow> exc + first_error_view" where
  "detected_pattern_at detected_patterns index =
     (case index of
        PInt i \<Rightarrow>
          if \<not> (0 \<le> i \<and> i < int (length detected_patterns)) then
            Inl (ValueError ''detected-pattern index is out of range'')
          else
            (case detected_patterns ! nat i of
               PDict m \<Rightarrow>
                 (case dict_get ''pattern'' m of
                    PStr name \<Rightarrow>
                      if name = [] then Inl (ValueError ''detected pattern name is invalid'')
                      else view_pattern m (nat i) name
                  | _ \<Rightarrow> Inl (ValueError ''detected pattern name is invalid''))
             | _ \<Rightarrow> Inl (ValueError ''detected patterns must contain JSON objects''))
      | _ \<Rightarrow> Inl (ValueError ''detected-pattern index is out of range''))"

text \<open>\<open>min(candidates, key=...)\<close>: the first candidate with the least key.\<close>

fun min_candidate :: "('k::linorder \<times> 'a) list \<Rightarrow> 'a option" where
  "min_candidate [] = None"
| "min_candidate (c # cs) = Some (snd (fold (\<lambda>x best. if fst x < fst best then x else best) cs c))"

definition v2_candidate ::
  "pyval list \<Rightarrow> nat \<Rightarrow> exc + ((nat \<times> nat \<times> nat) \<times> v2_first_error_view) option" where
  "v2_candidate detected_patterns i =
     (case detected_patterns ! i of
        PDict m \<Rightarrow>
          bind_r (pattern_int m ''source_evidence_seq'') (\<lambda>seq.
          bind_r (detected_pattern_at detected_patterns (PNat i)) (\<lambda>e.
            if fe_pattern e \<notin> FAILURE_PATTERNS then Inr None
            else Inr (Some ((seq, fe_line_index_in_event e, i),
                            first_error_view.extend e (v2_first_error_view.fields seq)))))
      | _ \<Rightarrow> Inl (ValueError ''detected patterns must contain JSON objects''))"

definition somes :: "'a option list \<Rightarrow> 'a list" where
  "somes = List.map_filter id"

definition v2_first_error :: "pyval list \<Rightarrow> exc + v2_first_error_view option" where
  "v2_first_error detected_patterns =
     bind_r (map_r (v2_candidate detected_patterns) [0..<length detected_patterns]) (\<lambda>cs.
       Inr (min_candidate (somes cs)))"

text \<open>\<open>first_error\<close> orders the segments by their position in the metadata.\<close>

fun segment_order :: "nat \<Rightarrow> pyval list \<Rightarrow> (int \<times> nat) list \<Rightarrow> (int \<times> nat) list" where
  "segment_order position [] order = order"
| "segment_order position (v # vs) order =
     segment_order (Suc position) vs
       (case v of
          PDict m \<Rightarrow> (case dict_get ''segment_id'' m of PInt i \<Rightarrow> dict_set order i position | _ \<Rightarrow> order)
        | _ \<Rightarrow> order)"

definition first_candidate ::
  "(int \<times> nat) list \<Rightarrow> pyval list \<Rightarrow> nat \<Rightarrow> exc + ((nat \<times> nat \<times> nat \<times> nat) \<times> first_error_view) option" where
  "first_candidate order detected_patterns i =
     (case detected_patterns ! i of
        PDict m \<Rightarrow>
          let name = dict_get ''pattern'' m in
          if unhashable name then Inl (TypeError ''unhashable type'')
          else if name \<notin> PStr ` FAILURE_PATTERNS then Inr None
          else
            bind_r (pattern_int m ''segment_id'') (\<lambda>segment_id.
            bind_r (pattern_int m ''ingestion_index'') (\<lambda>ingestion_index.
            bind_r (pattern_int m ''line_index_in_event'') (\<lambda>line_index_in_event.
            bind_r (detected_pattern_at detected_patterns (PNat i)) (\<lambda>e.
              Inr (Some
                ((case map_of order (int segment_id) of
                    Some position \<Rightarrow> position | None \<Rightarrow> length order + segment_id,
                  ingestion_index, line_index_in_event, i), e))))))
      | _ \<Rightarrow> Inl (ValueError ''detected patterns must contain JSON objects''))"

definition first_error :: "pyval list \<Rightarrow> pyval list \<Rightarrow> exc + first_error_view option" where
  "first_error detected_patterns segments =
     bind_r (map_r (first_candidate (segment_order 0 segments []) detected_patterns)
               [0..<length detected_patterns]) (\<lambda>cs.
       Inr (min_candidate (somes cs)))"

section \<open>The excerpt\<close>

text \<open>The excerpt of a line is at most 4096 bytes long and contains the match.\<close>

lemma make_match_excerpt_covers:
  assumes "a \<le> b" and "b \<le> length raw" and "b - a \<le> MAX_MATCH_EXCERPT_BYTES"
  defines "x \<equiv> make_match_excerpt raw a b"
  shows "ex_start_byte x \<le> a" and "b \<le> ex_end_byte x" and "ex_end_byte x \<le> length raw"
    and "ex_end_byte x - ex_start_byte x = min (length raw) MAX_MATCH_EXCERPT_BYTES"
    and "b64decode (ex_raw_b64 x) = Some (slice raw (ex_start_byte x) (ex_end_byte x))"
    and "ex_excerpt_truncated x \<longleftrightarrow> MAX_MATCH_EXCERPT_BYTES < length raw"
proof -
  define m where "m = int b - int a"
  define s where "s = max 0 (int a - (int MAX_MATCH_EXCERPT_BYTES - m) div 2)"
  define n where "n = nat (min s (int (length raw) - int MAX_MATCH_EXCERPT_BYTES))"
  have long: "n \<le> a \<and> b \<le> n + MAX_MATCH_EXCERPT_BYTES \<and> n + MAX_MATCH_EXCERPT_BYTES \<le> length raw"
    if "MAX_MATCH_EXCERPT_BYTES < length raw"
    using that assms(1-3) unfolding n_def s_def m_def MAX_MATCH_EXCERPT_BYTES_def by linarith
  have x: "ex_start_byte x = (if length raw \<le> MAX_MATCH_EXCERPT_BYTES then 0 else n)"
      "ex_end_byte x = (if length raw \<le> MAX_MATCH_EXCERPT_BYTES then length raw else n + MAX_MATCH_EXCERPT_BYTES)"
    by (simp_all add: x_def make_match_excerpt_def Let_def n_def s_def m_def)
  have raw: "ex_raw_b64 x = b64encode_str (slice raw (ex_start_byte x) (ex_end_byte x))"
      "ex_excerpt_truncated x = (length (slice raw (ex_start_byte x) (ex_end_byte x)) \<noteq> length raw)"
    by (simp_all add: x_def make_match_excerpt_def split_beta Let_def)
  show "ex_start_byte x \<le> a" and "b \<le> ex_end_byte x" and e: "ex_end_byte x \<le> length raw"
    using long assms(1,2) by (auto simp: x)
  show d: "ex_end_byte x - ex_start_byte x = min (length raw) MAX_MATCH_EXCERPT_BYTES"
    by (auto simp: x)
  show "b64decode (ex_raw_b64 x) = Some (slice raw (ex_start_byte x) (ex_end_byte x))"
    by (simp add: raw b64decode_encode)
  show "ex_excerpt_truncated x \<longleftrightarrow> MAX_MATCH_EXCERPT_BYTES < length raw"
    unfolding raw(2) using d by (simp add: e) linarith
qed

section \<open>Records read back\<close>

lemma map_r_nth:
  assumes "\<And>x. x \<in> set xs \<Longrightarrow> \<exists>y. f x = Inr y"
  shows "\<exists>ys. map_r f xs = Inr ys \<and> length ys = length xs \<and> (\<forall>i < length xs. f (xs ! i) = Inr (ys ! i))"
  using assms
proof (induction xs)
  case (Cons x xs)
  from Cons.prems obtain y where y: "f x = Inr y" by auto
  from Cons obtain ys where "map_r f xs = Inr ys" "length ys = length xs"
    "\<forall>i < length xs. f (xs ! i) = Inr (ys ! i)"
    by auto
  with y show ?case by (auto simp: nth_Cons split: nat.split)
qed simp

lemma map_r_Inr_nth: "map_r f xs = Inr ys \<Longrightarrow> i < length xs \<Longrightarrow> f (xs ! i) = Inr (ys ! i)"
  by (induction xs arbitrary: ys i) (auto simp: result_simps nth_Cons split: nat.split)

text \<open>What the detector's matches satisfy: a located, non-empty pattern inside its line.\<close>

definition storable :: "pattern_match \<Rightarrow> bool" where
  "storable m \<longleftrightarrow>
     pm_pattern m \<noteq> []
     \<and> (\<exists>a b. pm_match_start_byte m = Some a \<and> pm_match_end_byte m = Some b \<and> a \<le> b
          \<and> b \<le> length (pm_line_raw m) \<and> b - a \<le> MAX_MATCH_EXCERPT_BYTES)
     \<and> None \<notin> {pm_ingestion_index m, pm_line_index_in_event m, pm_line_start_ingestion_index m,
                pm_line_start_event_offset m, pm_line_end_ingestion_index m, pm_line_end_event_offset m}"

definition shows_match :: "nat \<Rightarrow> nat \<Rightarrow> nat \<Rightarrow> nat \<Rightarrow> pattern_match \<Rightarrow> first_error_view \<Rightarrow> bool" where
  "shows_match segment_id timestamp_us channel index m e \<longleftrightarrow>
     (\<exists>a b. pm_match_start_byte m = Some a \<and> pm_match_end_byte m = Some b \<and>
        e = \<lparr>fe_pattern = pm_pattern m, fe_detected_pattern_index = index, fe_segment_id = segment_id,
             fe_timestamp_us = timestamp_us, fe_channel = channel,
             fe_ingestion_index = the (pm_ingestion_index m),
             fe_line_index_in_event = the (pm_line_index_in_event m),
             fe_line_start_ingestion_index = the (pm_line_start_ingestion_index m),
             fe_line_start_event_offset = the (pm_line_start_event_offset m),
             fe_line_end_ingestion_index = the (pm_line_end_ingestion_index m),
             fe_line_end_event_offset = the (pm_line_end_event_offset m),
             fe_total_line_bytes = length (pm_line_raw m), fe_match_start_byte = a, fe_match_end_byte = b,
             fe_match_excerpt = make_match_excerpt (pm_line_raw m) a b\<rparr>)"

lemma record_view:
  assumes "storable m" and "cr_timestamp_us r = Some t"
  shows "\<exists>d. detected_pattern_record r s m = Inr d
           \<and> (\<forall>ps i. i < length ps \<longrightarrow> ps ! i = PDict d \<longrightarrow>
                (\<exists>e. detected_pattern_at ps (PNat i) = Inr e \<and> shows_match s t (cr_channel r) i m e))"
proof -
  from assms(1) obtain a b where ab: "pm_match_start_byte m = Some a" "pm_match_end_byte m = Some b"
    and name: "pm_pattern m \<noteq> []"
    by (auto simp: storable_def)
  from assms(1) obtain i l si so ei eo where c: "pm_ingestion_index m = Some i" "pm_line_index_in_event m = Some l"
    "pm_line_start_ingestion_index m = Some si" "pm_line_start_event_offset m = Some so"
    "pm_line_end_ingestion_index m = Some ei" "pm_line_end_event_offset m = Some eo"
    unfolding storable_def by (metis insertI1 insertI2 option.exhaust)
  show ?thesis
    by (auto simp: detected_pattern_record_def match_coordinate_def ab c assms(2) opt_nat_def
        detected_pattern_at_def name view_pattern_def pattern_int_def pattern_excerpt_def excerpt_json_def
        shows_match_def)
qed


definition demo_match :: pattern_match where
  "demo_match =
     \<lparr>pm_pattern = lit ''ERROR'', pm_line_text = lit ''xERROR'', pm_line_raw = ''xERROR'' @ [nl],
      pm_match_start_byte = Some 1, pm_match_end_byte = Some 6, pm_ingestion_index = Some 0,
      pm_line_index_in_event = Some 0, pm_line_start_ingestion_index = Some 0,
      pm_line_start_event_offset = Some 0, pm_line_end_ingestion_index = Some 0,
      pm_line_end_event_offset = Some 7\<rparr>"


section \<open>The earliest failure\<close>

lemma fold_least:
  fixes c :: "'k::linorder \<times> 'a" and cs :: "('k \<times> 'a) list"
  shows "fold (\<lambda>x best. if fst x < fst best then x else best) cs c \<in> set (c # cs)
    \<and> (\<forall>x \<in> set (c # cs). fst (fold (\<lambda>x best. if fst x < fst best then x else best) cs c) \<le> fst x)"
proof (induction cs arbitrary: c)
  case (Cons y cs)
  let ?c = "if fst y < fst c then y else c"
  let ?r = "fold (\<lambda>x best. if fst x < fst best then x else best) cs ?c"
  have r: "?r \<in> set (?c # cs)" "\<forall>x \<in> set (?c # cs). fst ?r \<le> fst x" using Cons.IH [of ?c] by blast+
  have c: "fst ?c \<le> fst y" "fst ?c \<le> fst c" by auto
  from r(2) have "fst ?r \<le> fst ?c" by (rule bspec) simp
  note r' = order_trans [OF this c(1)] order_trans [OF this c(2)]
  with r show ?case by (simp split: if_splits) blast+
qed simp

lemma min_candidate_least:
  assumes "min_candidate cs = Some v"
  shows "\<exists>k. (k, v) \<in> set cs \<and> (\<forall>x \<in> set cs. k \<le> fst x)"
proof (cases cs)
  case (Cons c cs')
  let ?r = "fold (\<lambda>x best. if fst x < fst best then x else best) cs' c"
  from assms Cons have "v = snd ?r" by simp
  with fold_least [of cs' c] Cons have "(fst ?r, v) \<in> set cs \<and> (\<forall>x \<in> set cs. fst ?r \<le> fst x)" by simp
  then show ?thesis ..
qed (use assms in simp)

lemma set_somes: "x \<in> set (somes cs) \<longleftrightarrow> Some x \<in> set cs"
  by (induction cs) (auto simp: somes_def map_filter_def)

lemma min_candidate_None: "min_candidate cs = None \<longleftrightarrow> cs = []"
  by (cases cs) simp_all

text \<open>
  The v2 first error is the failure match with the least evidence sequence number, then the least
  line of its event.
\<close>

lemma v2_first_error_least:
  assumes "v2_first_error ps = Inr r"
  shows "case r of
      None \<Rightarrow> \<forall>i < length ps. v2_candidate ps i = Inr None
    | Some v \<Rightarrow> \<exists>i k. i < length ps \<and> v2_candidate ps i = Inr (Some (k, v))
        \<and> (\<forall>j k' v'. j < length ps \<longrightarrow> v2_candidate ps j = Inr (Some (k', v')) \<longrightarrow> k \<le> k')"
proof -
  from assms obtain cs where cs: "map_r (v2_candidate ps) [0..<length ps] = Inr cs" "r = min_candidate (somes cs)"
    by (auto simp: v2_first_error_def result_simps)
  have len: "length cs = length ps" using map_r_Inr_length [OF cs(1)] by simp
  have nth: "v2_candidate ps i = Inr (cs ! i)" if "i < length ps" for i
    using map_r_Inr_nth [OF cs(1), of i] that by simp
  have mem: "x \<in> set (somes cs) \<longleftrightarrow> (\<exists>i < length ps. v2_candidate ps i = Inr (Some x))" for x
  proof -
    have "x \<in> set (somes cs) \<longleftrightarrow> (\<exists>i < length cs. cs ! i = Some x)"
      unfolding set_somes by (simp add: in_set_conv_nth)
    with nth len show ?thesis by auto
  qed
  show ?thesis
  proof (cases r)
    case None
    with cs(2) have "somes cs = []" using min_candidate_None [of "somes cs"] by simp
    with mem have none: "v2_candidate ps i \<noteq> Inr (Some x)" if "i < length ps" for i x using that by auto
    have "v2_candidate ps i = Inr None" if "i < length ps" for i
      using nth [OF that] none [OF that] by (cases "cs ! i") auto
    with None show ?thesis by simp
  next
    case (Some v)
    with cs(2) min_candidate_least [of "somes cs" v] obtain k where k: "(k, v) \<in> set (somes cs)"
        "\<forall>x \<in> set (somes cs). k \<le> fst x"
      by auto
    from k(1) obtain i where i: "i < length ps" "v2_candidate ps i = Inr (Some (k, v))" by (auto simp: mem)
    have "k \<le> k'" if "j < length ps" "v2_candidate ps j = Inr (Some (k', v'))" for j k' v'
    proof -
      have "(k', v') \<in> set (somes cs)" using that by (auto simp: mem)
      with k(2) show ?thesis by fastforce
    qed
    with i show ?thesis unfolding Some option.case by blast
  qed
qed

end
