(* ===== verification/Diagnostics.thy ===== *)
theory Diagnostics
  imports Contracts
begin

text \<open>
  The bounded diagnostics of \<open>diagnostics.py\<close> and the error object the session store keeps
  (\<open>_bounded_error\<close>): control characters are replaced, the text is cut to 1024 UTF-8 bytes by
  dropping bytes from the end until the rest decodes. The loop ends because the empty prefix
  decodes; it stops after at most three bytes, which leaves the longest prefix of the text that fits.
\<close>

section \<open>The projection\<close>

definition MAX_DIAGNOSTIC_BYTES :: nat where "MAX_DIAGNOSTIC_BYTES = 1024"

definition clean_char :: "nat \<Rightarrow> nat" where
  "clean_char c = (if c \<in> {13, 10, 9} then 32 else if is_cc c then 0xFFFD else c)"

definition clean_detail :: "ustr \<Rightarrow> ustr \<Rightarrow> ustr" where
  "clean_detail fallback_code detail =
     (if detail = [] then map (\<lambda>c. if c = of_char (CHR ''_'') then 32 else c) fallback_code
      else map clean_char detail)"

text \<open>The loop over ever shorter prefixes.\<close>

function decodable_prefix :: "bytes \<Rightarrow> ustr" where
  "decodable_prefix p =
     (case utf8_decode p of Some s \<Rightarrow> s | None \<Rightarrow> decodable_prefix (butlast p))"
  by pat_completeness auto
termination
proof (relation "measure length")
  fix p :: bytes
  assume "utf8_decode p = None"
  then have "p \<noteq> []" by (auto simp: utf8_decode_def)
  then show "(butlast p, p) \<in> measure length" by simp
qed simp

declare decodable_prefix.simps [simp del]

definition project_diagnostic_detail :: "pyval \<Rightarrow> pyval \<Rightarrow> exc + (ustr \<times> bool)" where
  "project_diagnostic_detail fallback_code detail =
     (case fallback_code of
        PStr code \<Rightarrow>
          if code = [] then Inl (ValueError ''diagnostic fallback code must be a non-empty string'')
          else
            (case detail of
               PStr d \<Rightarrow>
                 let cleaned = clean_detail code d in
                 (case utf8_encode cleaned of
                    None \<Rightarrow> Inl UnicodeEncodeError
                  | Some encoded \<Rightarrow>
                      if length encoded > MAX_DIAGNOSTIC_BYTES then
                        Inr (decodable_prefix (take MAX_DIAGNOSTIC_BYTES encoded), True)
                      else Inr (cleaned, False))
             | _ \<Rightarrow> Inl (TypeError ''diagnostic detail must be a string''))
      | _ \<Rightarrow> Inl (ValueError ''diagnostic fallback code must be a non-empty string''))"

definition bounded_error :: "pyval \<Rightarrow> pyval \<Rightarrow> exc + pydict" where
  "bounded_error code detail =
     (case code of
        PStr c \<Rightarrow>
          if c = [] then Inl (ValueError ''session error code must be a non-empty string'')
          else
            bind_r (project_diagnostic_detail code detail) (\<lambda>(cleaned, truncated).
              Inr [(lit ''code'', code), (lit ''detail'', PStr cleaned),
                   (lit ''detail_truncated'', PBool truncated)])
      | _ \<Rightarrow> Inl (ValueError ''session error code must be a non-empty string''))"

section \<open>Cutting on a code point boundary\<close>

text \<open>A proper prefix of the encoding of one code point does not decode.\<close>

lemma utf8_next_short:
  "0x80 \<le> (of_char b :: nat) \<Longrightarrow> fst (utf8_next b []) = None"
  "0xE0 \<le> (of_char b :: nat) \<Longrightarrow> fst (utf8_next b [b1]) = None"
  "0xF0 \<le> (of_char b :: nat) \<Longrightarrow> fst (utf8_next b [b1, b2]) = None"
  by (simp_all add: utf8_next.simps Let_def)

lemma utf8_units_first: "fst (utf8_next b bs) = None \<Longrightarrow> None \<in> set (utf8_units (b # bs))"
  by (cases "utf8_next b bs") simp

lemma utf8_encode_cp_head:
  assumes "utf8_encode_cp c = Some e"
  shows "2 \<le> length e \<Longrightarrow> 0x80 \<le> (of_char (hd e) :: nat)"
    and "3 \<le> length e \<Longrightarrow> 0xE0 \<le> (of_char (hd e) :: nat)"
    and "4 \<le> length e \<Longrightarrow> 0xF0 \<le> (of_char (hd e) :: nat)"
  using assms
  by (simp_all add: utf8_encode_cp_def split: if_splits) (auto simp: of_char_of)

lemma cut_code_point:
  assumes "utf8_encode_cp c = Some e" and "k < length e" and "0 < k"
  shows "None \<in> set (utf8_units (take k e))"
proof -
  obtain b e' where e: "e = b # e'" using assms(2) by (cases e) auto
  have l: "length e \<le> 4" using utf8_encode_cp_length [OF assms(1)] by simp
  note head = utf8_encode_cp_head [OF assms(1), unfolded e list.sel]
  consider (one) "k = 1" | (two) "k = 2" | (three) "k = 3" using assms(2,3) l by linarith
  then have "fst (utf8_next b (take (k - 1) e')) = None"
  proof cases
    case one
    with head(1) assms(2) e show ?thesis by (cases e') (simp_all add: utf8_next_short)
  next
    case two
    with assms(2) e obtain b1 b2 r where "e' = b1 # b2 # r" by (cases e'; cases "tl e'") auto
    with two head(2) e show ?thesis by (simp add: utf8_next_short)
  next
    case three
    with assms(2) e obtain b1 b2 b3 r where "e' = b1 # b2 # b3 # r"
      by (cases e'; cases "tl e'"; cases "tl (tl e')") auto
    with three head(3) e show ?thesis by (simp add: utf8_next_short)
  qed
  from utf8_units_first [OF this] show ?thesis using assms(3) e by (cases k) simp_all
qed

text \<open>What is left after cutting the encoding of a text: the longest prefix that fits.\<close>

definition fits :: "ustr \<Rightarrow> nat \<Rightarrow> nat \<Rightarrow> bool" where
  "fits s n k \<longleftrightarrow> (\<exists>b. utf8_encode (take k s) = Some b \<and> length b \<le> n)"

lemma decodable_prefix_take:
  assumes "utf8_encode s = Some e"
  shows "\<exists>p q b. s = p @ q \<and> utf8_encode p = Some b \<and> decodable_prefix (take n e) = p \<and> length b \<le> n
           \<and> (case q of [] \<Rightarrow> True | c # _ \<Rightarrow> \<exists>x. utf8_encode_cp c = Some x \<and> n < length b + length x)"
  using assms
proof (induction n)
  case 0
  show ?case
  proof (intro exI conjI)
    show "s = [] @ s" by simp
    show "decodable_prefix (take 0 e) = []" by (simp add: decodable_prefix.simps utf8_decode_def)
    show "case s of [] \<Rightarrow> True | c # _ \<Rightarrow> \<exists>x. utf8_encode_cp c = Some x \<and> 0 < length ([] :: bytes) + length x"
      using 0 by (auto split: list.split option.splits dest!: utf8_encode_cp_length)
  qed simp_all
next
  case (Suc n)
  then obtain p q b where pq: "s = p @ q" "utf8_encode p = Some b" "decodable_prefix (take n e) = p"
      "length b \<le> n"
    and stop: "case q of [] \<Rightarrow> True | c # _ \<Rightarrow> \<exists>x. utf8_encode_cp c = Some x \<and> n < length b + length x"
    by blast
  show ?case
  proof (cases q)
    case Nil
    with pq Suc.prems have "e = b" by simp
    with pq Nil have "take (Suc n) e = take n e" by simp
    with pq Nil show ?thesis by (intro exI [of _ p] exI [of _ "[]"] exI [of _ b]) simp
  next
    case (Cons c q')
    with stop obtain x where x: "utf8_encode_cp c = Some x" "n < length b + length x" by auto
    from Suc.prems pq(1,2) Cons x(1) obtain y where y: "utf8_encode q' = Some y" "e = b @ x @ y"
      by (auto simp: utf8_encode_append)
    show ?thesis
    proof (cases "Suc n = length b + length x")
      case True
      have enc: "utf8_encode (p @ [c]) = Some (b @ x)" using pq(2) x(1) by (simp add: utf8_encode_append)
      from True y(2) have "take (Suc n) e = b @ x" by simp
      with utf8_decode_encode [OF enc] have d: "decodable_prefix (take (Suc n) e) = p @ [c]"
        by (simp add: decodable_prefix.simps)
      have "case q' of [] \<Rightarrow> True | c # _ \<Rightarrow> \<exists>x'. utf8_encode_cp c = Some x' \<and> Suc n < length (b @ x) + length x'"
        using y(1) True by (auto split: list.split option.splits dest!: utf8_encode_cp_length)
      with d enc True pq(1) Cons show ?thesis
        by (intro exI [of _ "p @ [c]"] exI [of _ q'] exI [of _ "b @ x"]) simp
    next
      case False
      define k where "k = Suc n - length b"
      have k: "0 < k" "k < length x" using False x(2) pq(4) by (simp_all add: k_def)
      have t: "take (Suc n) e = b @ take k x" using y(2) pq(4) k by (simp add: k_def)
      have "utf8_units (b @ take k x) = map Some p @ utf8_units (take k x)"
        by (rule utf8_units_encode [OF pq(2)])
      with cut_code_point [OF x(1) k(2,1)] have "utf8_decode (take (Suc n) e) = None"
        by (simp add: t utf8_decode_def)
      moreover have "butlast (take (Suc n) e) = take n e"
        by (rule butlast_take [of "Suc n", simplified]) (use y(2) x(2) in simp)
      ultimately have "decodable_prefix (take (Suc n) e) = p"
        using pq(3) by (subst decodable_prefix.simps) simp
      with pq x(1) Cons False x(2) show ?thesis
        by (intro exI [of _ p] exI [of _ q] exI [of _ b]) simp
    qed
  qed
qed

section \<open>What a stored diagnostic is\<close>

text \<open>
  A diagnostic that is returned is never empty and never longer than 1024 UTF-8 bytes; it
  contains no control character when the detail is not empty; it is the whole cleaned text exactly when the truncation
  flag is off, and otherwise the longest prefix of it that fits, cut between code points, so the
  loop that shortens the prefix always ends and never loses more than three bytes. The only failures are
  the argument checks and a lone surrogate in the text.
\<close>

theorem diagnostic_bounded:
  assumes "code \<noteq> []"
  shows "(case project_diagnostic_detail (PStr code) (PStr detail) of
       Inl e \<Rightarrow> e = UnicodeEncodeError \<and> utf8_encode (clean_detail code detail) = None
     | Inr (s, truncated) \<Rightarrow>
         s \<noteq> [] \<and> (\<exists>e b. utf8_encode (clean_detail code detail) = Some e \<and> utf8_encode s = Some b
           \<and> length b \<le> MAX_DIAGNOSTIC_BYTES
           \<and> (truncated \<longleftrightarrow> length e > MAX_DIAGNOSTIC_BYTES)
           \<and> (\<not> truncated \<longrightarrow> s = clean_detail code detail)
           \<and> (truncated \<longrightarrow> prefix b e \<and> MAX_DIAGNOSTIC_BYTES < length b + 4))
         \<and> prefix s (clean_detail code detail)
         \<and> (detail \<noteq> [] \<longrightarrow> (\<forall>c \<in> set s. \<not> is_cc c)))"
proof -
  let ?s = "clean_detail code detail"
  have ne: "?s \<noteq> []" using assms by (simp add: clean_detail_def)
  have clean: "\<not> is_cc c" if "detail \<noteq> []" "c \<in> set ?s" for c
    using that by (auto simp: clean_detail_def clean_char_def is_cc_def split: if_splits)
  show ?thesis
  proof (cases "utf8_encode ?s")
    case None
    with assms show ?thesis by (simp add: project_diagnostic_detail_def Let_def)
  next
    case (Some e)
    show ?thesis
    proof (cases "length e > MAX_DIAGNOSTIC_BYTES")
      case False
      with Some assms ne clean show ?thesis by (simp add: project_diagnostic_detail_def Let_def)
    next
      case True
      from decodable_prefix_take [OF Some, of MAX_DIAGNOSTIC_BYTES] obtain p q b where
        pq: "?s = p @ q" "utf8_encode p = Some b" "decodable_prefix (take MAX_DIAGNOSTIC_BYTES e) = p"
          "length b \<le> MAX_DIAGNOSTIC_BYTES"
        and stop: "case q of [] \<Rightarrow> True | c # _ \<Rightarrow> \<exists>x. utf8_encode_cp c = Some x \<and> MAX_DIAGNOSTIC_BYTES < length b + length x"
        by blast
      have q: "q \<noteq> []" using pq Some True by auto
      with stop have l: "MAX_DIAGNOSTIC_BYTES < length b + 4"
        by (cases q) (auto dest!: utf8_encode_cp_length)
      then have "b \<noteq> []" by (auto simp: MAX_DIAGNOSTIC_BYTES_def)
      with pq(2) have "p \<noteq> []" by auto
      moreover have "prefix b e" using Some pq(1,2) by (auto simp: utf8_encode_append split: option.splits)
      ultimately show ?thesis
        using Some True assms pq l clean by (simp add: project_diagnostic_detail_def Let_def)
    qed
  qed
qed

theorem diagnostic_bounded_witness:
  "project_diagnostic_detail (PStr (lit ''io'')) (PStr [65, 10]) = Inr ([65, 32], False)
   \<and> \<not> is_cc 65 \<and> \<not> is_cc 32"
proof -
  have r: "project_diagnostic_detail (PStr (lit ''io'')) (PStr [65, 10]) = Inr ([65, 32], False)"
    by (simp add: project_diagnostic_detail_def clean_detail_def clean_char_def is_cc_def
        MAX_DIAGNOSTIC_BYTES_def utf8_encode_cp_def)
  from diagnostic_bounded [of "lit ''io''" "[65, 10]"] show ?thesis unfolding r by simp
qed

end
