(* ===== verification/Session_Metadata.thy ===== *)
theory Session_Metadata
  imports Dut_Profile Evidence_Records Diagnostics
begin

text \<open>
  The metadata document of a session, \<open>session_store/metadata.py\<close>: the first document of a new
  session, the JSON form of its parts, and the readers that validate the parts when a document
  comes back from the disk, up to the summary of a version 0 or 1 session. What was written reads
  back as the same value; what does not have the shape is refused.

  Documents are dictionaries; the places where an ill-typed value raises \<open>TypeError\<close> (a list
  looked up in a set) or \<open>OverflowError\<close> (an integer too large for a float) are kept.
\<close>

definition METADATA_MAX_BYTES :: nat where "METADATA_MAX_BYTES = 262144"
definition MAX_SESSION_SEGMENTS :: nat where "MAX_SESSION_SEGMENTS = 32"
definition MIN_V2_EVIDENCE_BUDGET_BYTES :: int where "MIN_V2_EVIDENCE_BUDGET_BYTES = 1048576"
definition MAX_V2_JSONL_RECORD_BYTES :: nat where "MAX_V2_JSONL_RECORD_BYTES = 65536"
definition MAX_V2_DETECTED_PATTERNS_PER_UART_EVENT :: nat where
  "MAX_V2_DETECTED_PATTERNS_PER_UART_EVENT = 12"

section \<open>Single fields\<close>

definition required_str :: "pydict \<Rightarrow> string \<Rightarrow> exc + ustr" where
  "required_str m key =
     (case dict_get key m of
        PStr s \<Rightarrow> if s = [] then Inl (ValueError ''must be a non-empty string'') else Inr s
      | _ \<Rightarrow> Inl (ValueError ''must be a non-empty string''))"

definition optional_str :: "pydict \<Rightarrow> string \<Rightarrow> exc + ustr option" where
  "optional_str m key =
     (case dict_get key m of
        PNone \<Rightarrow> Inr None
      | PStr s \<Rightarrow> if s = [] then Inl (ValueError ''must be null or a non-empty string'') else Inr (Some s)
      | _ \<Rightarrow> Inl (ValueError ''must be null or a non-empty string''))"

definition optional_object :: "pyval \<Rightarrow> exc + pydict option" where
  "optional_object v =
     (case v of
        PNone \<Rightarrow> Inr None
      | PDict d \<Rightarrow> Inr (Some d)
      | _ \<Rightarrow> Inl (ValueError ''must be a JSON object''))"

definition required_bool :: "pydict \<Rightarrow> string \<Rightarrow> exc + bool" where
  "required_bool m key =
     (case dict_get key m of PBool b \<Rightarrow> Inr b | _ \<Rightarrow> Inl (ValueError ''must be a boolean''))"

text \<open>\<open>float(value)\<close> and \<open>_require_positive_number\<close>; the result is the finite double.\<close>

definition require_positive_number :: "pyval \<Rightarrow> exc + rat" where
  "require_positive_number v =
     (let e = ValueError ''must be a positive finite number'' in
      (case v of
         PInt n \<Rightarrow>
           if int_overflows_float n then Inl OverflowError
           else (case float_of_rat (of_int n) of
                   FFin q \<Rightarrow> if q \<le> 0 then Inl e else Inr q
                 | _ \<Rightarrow> Inl e)
       | PFloat (FFin q) \<Rightarrow> if q \<le> 0 then Inl e else Inr q
       | _ \<Rightarrow> Inl e))"

definition optional_positive_number :: "pyval \<Rightarrow> exc + rat option" where
  "optional_positive_number v =
     (if v = PNone then Inr None else bind_r (require_positive_number v) (\<lambda>q. Inr (Some q)))"

fun is_non_empty_str :: "pyval \<Rightarrow> bool" where
  "is_non_empty_str (PStr s) = (s \<noteq> [])"
| "is_non_empty_str _ = False"

definition optional_string_tuple :: "pydict \<Rightarrow> string \<Rightarrow> exc + ustr list" where
  "optional_string_tuple m key =
     (case dict_get key m of
        PNone \<Rightarrow> Inr []
      | PList vs \<Rightarrow>
          if \<not> list_all is_non_empty_str vs then Inl (ValueError ''must be an array of strings'')
          else Inr (somes (map str_option vs))
      | _ \<Rightarrow> Inl (ValueError ''must be an array of strings''))"

definition optional_backend_mode :: "pyval \<Rightarrow> exc + backend_mode option" where
  "optional_backend_mode v =
     (if v = PNone then Inr None
      else bind_r (one_of [''basic'', ''enhanced''] (ValueError ''backend_mode must be basic or enhanced'') v) (\<lambda>s.
        Inr (Some (if s = lit ''basic'' then BasicBackend else EnhancedBackend))))"

datatype session_state = ActiveState | CompletedState | FailedState | AbandonedState
datatype session_workflow = CaptureWorkflow | BootTestWorkflow | WaitPatternWorkflow

fun state_word :: "session_state \<Rightarrow> string" where
  "state_word ActiveState = ''active''"
| "state_word CompletedState = ''completed''"
| "state_word FailedState = ''failed''"
| "state_word AbandonedState = ''abandoned''"

definition native_state :: "pyval \<Rightarrow> exc + session_state" where
  "native_state v =
     bind_r (one_of [''active'', ''completed'', ''failed'', ''abandoned'']
               (ValueError ''native session state is invalid'') v) (\<lambda>s.
       Inr (if s = lit ''active'' then ActiveState else if s = lit ''completed'' then CompletedState
            else if s = lit ''failed'' then FailedState else AbandonedState))"

definition native_workflow :: "pyval \<Rightarrow> exc + session_workflow" where
  "native_workflow v =
     bind_r (one_of [''capture'', ''boot_test'', ''wait_pattern'']
               (ValueError ''native session workflow is invalid'') v) (\<lambda>s.
       Inr (if s = lit ''capture'' then CaptureWorkflow else if s = lit ''boot_test'' then BootTestWorkflow
            else WaitPatternWorkflow))"

definition validate_native_lifecycle ::
  "session_state option \<Rightarrow> ustr option \<Rightarrow> ustr option \<Rightarrow> pydict option \<Rightarrow> exc + unit" where
  "validate_native_lifecycle state ended_at end_reason error =
     (if state = Some ActiveState then
        (if ended_at \<noteq> None \<or> end_reason \<noteq> None \<or> error \<noteq> None then
           Inl (ValueError ''active session terminal fields must be null'')
         else Inr ())
      else if ended_at = None \<or> end_reason = None then
        Inl (ValueError ''terminal session must contain ended_at and end_reason'')
      else if state = Some FailedState then
        (if error = None then Inl (ValueError ''failed session must contain an error'') else Inr ())
      else if error \<noteq> None then Inl (ValueError ''completed or abandoned session error must be null'')
      else Inr ())"

section \<open>Line processing\<close>

datatype line_status = LinesComplete | LineLimitExceeded

fun line_status_name :: "line_status \<Rightarrow> string" where
  "line_status_name LinesComplete = ''complete''"
| "line_status_name LineLimitExceeded = ''limit_exceeded''"

record line_processing =
  lp_status :: line_status
  lp_max_line_bytes :: pyval
  lp_oversized_line_count :: int

text \<open>Python compares numbers by value: \<open>65536.0 == 65536\<close> and \<open>True == 1\<close>.\<close>

fun py_eq_int :: "pyval \<Rightarrow> int \<Rightarrow> bool" where
  "py_eq_int (PInt i) n = (i = n)"
| "py_eq_int (PBool b) n = ((if b then 1 else 0) = n)"
| "py_eq_int (PFloat (FFin q)) n = (q = of_int n)"
| "py_eq_int _ n = False"

definition make_line_processing :: "line_status \<Rightarrow> pyval \<Rightarrow> pyval \<Rightarrow> exc + line_processing" where
  "make_line_processing status max_line_bytes oversized_line_count =
     (if \<not> py_eq_int max_line_bytes (int MAX_UART_LINE_BYTES) then
        Inl (ValueError ''line-processing max_line_bytes must be 65536'')
      else
        (case oversized_line_count of
           PInt n \<Rightarrow>
             if n < 0 then Inl (ValueError ''oversized-line count must be a non-negative integer'')
             else if (status = LinesComplete) \<noteq> (n = 0) then
               Inl (ValueError ''line-processing status/count must agree'')
             else Inr \<lparr>lp_status = status, lp_max_line_bytes = max_line_bytes, lp_oversized_line_count = n\<rparr>
         | _ \<Rightarrow> Inl (ValueError ''oversized-line count must be a non-negative integer'')))"

definition default_line_processing :: line_processing where
  "default_line_processing =
     \<lparr>lp_status = LinesComplete, lp_max_line_bytes = PNat MAX_UART_LINE_BYTES, lp_oversized_line_count = 0\<rparr>"

definition line_processing_json :: "line_processing \<Rightarrow> pydict" where
  "line_processing_json p =
     [(lit ''status'', PStr (lit (line_status_name (lp_status p)))),
      (lit ''max_line_bytes'', lp_max_line_bytes p),
      (lit ''oversized_line_count'', PInt (lp_oversized_line_count p))]"

definition optional_line_processing :: "pyval \<Rightarrow> exc + line_processing" where
  "optional_line_processing v =
     bind_r (optional_object v) (\<lambda>d.
       case d of
         None \<Rightarrow> Inr default_line_processing
       | Some m \<Rightarrow>
           let e = ValueError ''session metadata line-processing is invalid'';
               count = dict_get ''oversized_line_count'' m
           in
           bind_r (one_of [''complete'', ''limit_exceeded''] e (dict_get ''status'' m)) (\<lambda>s.
             let status = (if s = lit ''complete'' then LinesComplete else LineLimitExceeded) in
             if \<not> py_eq_int (dict_get ''max_line_bytes'' m) (int MAX_UART_LINE_BYTES) then Inl e
             else if \<not> is_non_negative_int count then Inl e
             else if (status = LinesComplete) \<noteq> (count = PInt 0) then Inl e
             else make_line_processing status (dict_get ''max_line_bytes'' m) count))"

definition record_line_processing :: "nat \<Rightarrow> pydict \<Rightarrow> exc + pydict" where
  "record_line_processing newly m =
     bind_r (optional_line_processing (dict_get ''line_processing'' m)) (\<lambda>current.
       let count = lp_oversized_line_count current + int newly in
       bind_r (make_line_processing (if count \<noteq> 0 then LineLimitExceeded else LinesComplete)
                 (PNat MAX_UART_LINE_BYTES) (PInt count)) (\<lambda>p.
         Inr (dict_put ''line_processing'' (PDict (line_processing_json p)) m)))"

section \<open>Integrity, policy and time\<close>

definition integrity_json :: "uart_integrity \<Rightarrow> pydict" where
  "integrity_json u =
     [(lit ''loss_status'', PStr (lit (loss_status_name (ui_loss_status u)))),
      (lit ''observation_scope'', opt_str (ui_observation_scope u)),
      (lit ''dropped_bytes'', opt_int (ui_dropped_bytes u))]"

definition optional_integrity :: "pyval \<Rightarrow> exc + uart_integrity option" where
  "optional_integrity v =
     bind_r (optional_object v) (\<lambda>d.
       case d of
         None \<Rightarrow> Inr None
       | Some m \<Rightarrow>
           let e = ValueError ''session metadata integrity is invalid'';
               scope = dict_get ''observation_scope'' m;
               dropped = dict_get ''dropped_bytes'' m
           in
           bind_r (one_of [''none_reported'', ''loss_reported'', ''not_observable''] e
                     (dict_get ''loss_status'' m)) (\<lambda>_.
             if unhashable scope then Inl (TypeError ''unhashable type'')
             else if scope \<notin> {PNone, PStr rx_scope} then Inl e
             else if dropped \<noteq> PNone \<and> \<not> is_non_negative_int dropped then Inl e
             else bind_r (make_uart_integrity (dict_get ''loss_status'' m) scope dropped) (\<lambda>u. Inr (Some u))))"

definition capability_policy_json :: "bool \<Rightarrow> pydict" where
  "capability_policy_json tx_policy_enabled =
     [(lit ''uart_send'', PDict
        [(lit ''tx_policy_enabled'', PBool tx_policy_enabled),
         (lit ''source'', PStr (lit ''hardware.uart.tx_enabled''))])]"

definition optional_capability_policy :: "pyval \<Rightarrow> exc + bool option" where
  "optional_capability_policy v =
     bind_r (optional_object v) (\<lambda>d.
       case d of
         None \<Rightarrow> Inr None
       | Some policy \<Rightarrow>
           bind_r (optional_object (dict_get ''uart_send'' policy)) (\<lambda>u.
             case u of
               None \<Rightarrow> Inl (ValueError ''session metadata capability policy must contain uart_send'')
             | Some uart_send \<Rightarrow>
                 (case dict_get ''tx_policy_enabled'' uart_send of
                    PBool enabled \<Rightarrow>
                      if dict_get ''source'' uart_send \<noteq> PStr (lit ''hardware.uart.tx_enabled'') then
                        Inl (ValueError ''session metadata UART-send policy source is invalid'')
                      else bind_r (make_send_policy (PBool enabled) (dict_get ''source'' uart_send)) (\<lambda>b. Inr (Some b))
                  | _ \<Rightarrow> Inl (ValueError ''session metadata tx_policy_enabled must be a boolean''))))"

fun source_name :: "timestamp_source \<Rightarrow> string" where
  "source_name HostTime = ''host''"
| "source_name DeviceTime = ''device''"

fun clock_name :: "timestamp_clock \<Rightarrow> string" where
  "clock_name MonotonicClock = ''monotonic''"
| "clock_name Rp2040Timer = ''rp2040_timer''"
| "clock_name Rp2350Timer = ''rp2350_timer''"

definition timestamp_json :: "segment_timestamp \<Rightarrow> pydict" where
  "timestamp_json t =
     [(lit ''source'', PStr (lit (source_name (st_source t)))),
      (lit ''clock'', PStr (lit (clock_name (st_clock t)))),
      (lit ''unit'', PStr (lit ''us'')), (lit ''origin'', PStr (lit ''segment_start'')),
      (lit ''source_origin_us'', PInt (st_source_origin_us t)),
      (lit ''observation_point'', PStr (st_observation_point t)),
      (lit ''event_granularity'', PStr (st_event_granularity t))]"

definition source_of_name :: "ustr \<Rightarrow> timestamp_source" where
  "source_of_name s = (if s = lit ''host'' then HostTime else DeviceTime)"

definition clock_of_name :: "ustr \<Rightarrow> timestamp_clock" where
  "clock_of_name s =
     (if s = lit ''monotonic'' then MonotonicClock else if s = lit ''rp2040_timer'' then Rp2040Timer else Rp2350Timer)"

definition read_timestamp :: "pydict \<Rightarrow> exc + segment_timestamp" where
  "read_timestamp t =
     (let e = ValueError ''session metadata timestamp is invalid'' in
      bind_r (one_of [''host'', ''device''] e (dict_get ''source'' t)) (\<lambda>source.
      bind_r (one_of [''monotonic'', ''rp2040_timer'', ''rp2350_timer''] e (dict_get ''clock'' t)) (\<lambda>clock.
        if dict_get ''unit'' t \<noteq> PStr (lit ''us'') \<or> dict_get ''origin'' t \<noteq> PStr (lit ''segment_start'') then Inl e
        else
          (case dict_get ''source_origin_us'' t of
             PInt n \<Rightarrow>
               if n < 0 then Inl e
               else
                 (case (dict_get ''observation_point'' t, dict_get ''event_granularity'' t) of
                    (PStr point, PStr granularity) \<Rightarrow>
                      if point = [] \<or> granularity = [] then Inl e
                      else
                        Inr \<lparr>st_source = source_of_name source, st_clock = clock_of_name clock,
                             st_source_origin_us = n, st_observation_point = point,
                             st_event_granularity = granularity\<rparr>
                  | _ \<Rightarrow> Inl e)
           | _ \<Rightarrow> Inl e))))"

fun segment_contexts :: "pyval list \<Rightarrow> exc + segment_context list" where
  "segment_contexts [] = Inr []"
| "segment_contexts (v # vs) =
     (case v of
        PDict segment \<Rightarrow>
          (case dict_get ''segment_id'' segment of
             PInt i \<Rightarrow>
               if i < 0 then Inl (ValueError ''session metadata segment_id is invalid'')
               else
                 bind_r (optional_object (dict_get ''timestamp'' segment)) (\<lambda>t.
                   case t of
                     None \<Rightarrow> segment_contexts vs
                   | Some m \<Rightarrow>
                       bind_r (read_timestamp m) (\<lambda>st.
                       bind_r (segment_contexts vs) (\<lambda>cs.
                         Inr (\<lparr>sc_segment_id = nat i, sc_timestamp = st\<rparr> # cs))))
           | _ \<Rightarrow> Inl (ValueError ''session metadata segment_id is invalid''))
      | _ \<Rightarrow> Inl (ValueError ''session metadata segments must contain JSON objects''))"

section \<open>The first document\<close>

definition backend_segment_json :: "backend_snapshot \<Rightarrow> ustr \<Rightarrow> pydict" where
  "backend_segment_json snapshot started_at =
     [(lit ''segment_id'', PNat (case sn_segment snapshot of None \<Rightarrow> 0 | Some c \<Rightarrow> sc_segment_id c)),
      (lit ''started_at'', PStr started_at), (lit ''ended_at'', PNone), (lit ''end_reason'', PNone),
      (lit ''backend'', PDict
        [(lit ''mode'', PStr (lit (backend_mode_name (bi_mode (sn_info snapshot))))),
         (lit ''port'', PStr (bi_port (sn_info snapshot))),
         (lit ''device'', opt_str (bi_device (sn_info snapshot))),
         (lit ''firmware'', opt_str (bi_firmware (sn_info snapshot))),
         (lit ''backend_capabilities'', PList (map PStr (sorted_list_of_set (bi_capabilities (sn_info snapshot))))),
         (lit ''capabilities'', PList (map PStr (sorted_list_of_set (sn_capabilities snapshot)))),
         (lit ''capability_policy'', PDict (capability_policy_json (sn_tx_policy_enabled snapshot)))]),
      (lit ''timestamp'',
       case sn_segment snapshot of None \<Rightarrow> PNone | Some c \<Rightarrow> PDict (timestamp_json (sc_timestamp c)))]
     @ (case sn_serial_provenance snapshot of None \<Rightarrow> [] | Some d \<Rightarrow> [(lit ''serial'', PDict d)])
     @ [(lit ''first_timestamp_us'', PNone), (lit ''last_timestamp_us'', PNone)]"

definition initial_v2_metadata ::
  "(dut_profile \<Rightarrow> ustr) \<Rightarrow> ustr \<Rightarrow> ustr \<Rightarrow> dut_profile \<Rightarrow> backend_snapshot \<Rightarrow> int \<Rightarrow> ustr option \<Rightarrow> pydict" where
  "initial_v2_metadata digest_sha256 session_id started_at profile snapshot evidence_budget_bytes predecessor =
     [(lit ''schema_version'', PInt 2), (lit ''session_id'', PStr session_id),
      (lit ''started_at'', PStr started_at), (lit ''state'', PStr (lit ''active'')),
      (lit ''ended_at'', PNone), (lit ''end_reason'', PNone), (lit ''error'', PNone),
      (lit ''profile_name'', opt_str (dp_name profile)),
      (lit ''profile_digest_sha256'', PStr (digest_sha256 profile)),
      (lit ''effective_profile'', PDict (profile_projection profile)),
      (lit ''backend_mode'', PStr (lit (backend_mode_name (dp_backend_mode profile)))),
      (lit ''backend_identity'', PDict
        [(lit ''port'', PStr (bi_port (sn_info snapshot))),
         (lit ''device'', opt_str (bi_device (sn_info snapshot))),
         (lit ''firmware'', opt_str (bi_firmware (sn_info snapshot)))]),
      (lit ''reconnect_policy'', PDict
        [(lit ''timeout_s'', PFloat (FFin (dp_reconnect_timeout_s profile))),
         (lit ''topology'', PStr (dp_topology profile)),
         (lit ''selector'', PDict
           [(lit ''strategy'', PStr (lit (strategy_name (sl_strategy (dp_selector profile))))),
            (lit ''exact_path'', opt_str (sl_exact_path (dp_selector profile)))])]),
      (lit ''storage'', PDict
        [(lit ''evidence_budget_bytes'', PInt evidence_budget_bytes),
         (lit ''evidence_bytes_written'', PInt 3),
         (lit ''metadata_max_bytes'', PNat METADATA_MAX_BYTES)]),
      (lit ''evidence_quality'', PDict
        [(lit ''backend_integrity'', PDict (integrity_json (sn_integrity snapshot))),
         (lit ''local_recording'', PStr (lit ''complete''))]),
      (lit ''line_processing'', PDict (line_processing_json default_line_processing)),
      (lit ''continuity'', PDict [(lit ''observation_gap_count'', PInt 0)]),
      (lit ''operation_summary'', PDict
        [(lit ''started'', PInt 0), (lit ''completed'', PInt 0), (lit ''failed'', PInt 0),
         (lit ''active'', PInt 0)]),
      (lit ''active_operations'', PDict []), (lit ''interrupted_operations'', PDict []),
      (lit ''pending_attempts'', PDict []), (lit ''next_evidence_seq'', PInt 0),
      (lit ''segments'', PList [PDict (dict_put ''segment_id'' (PInt 0) (backend_segment_json snapshot started_at))]),
      (lit ''predecessor_session_id'', opt_str predecessor), (lit ''successor_session_id'', PNone)]"

section \<open>Segments\<close>

fun contiguous_from :: "nat \<Rightarrow> pyval list \<Rightarrow> bool" where
  "contiguous_from expected [] = True"
| "contiguous_from expected (v # vs) =
     (case v of
        PDict s \<Rightarrow> py_eq_int (dict_get ''segment_id'' s) (int expected) \<and> contiguous_from (Suc expected) vs
      | _ \<Rightarrow> False)"

definition contiguous_native_segments :: "pydict \<Rightarrow> exc + pyval list" where
  "contiguous_native_segments m =
     (case dict_get ''segments'' m of
        PList segments \<Rightarrow>
          if \<not> (1 \<le> length segments \<and> length segments \<le> MAX_SESSION_SEGMENTS) then
            Inl (ValueError ''native session must contain 1..32 segments'')
          else if \<not> contiguous_from 0 segments then
            Inl (ValueError ''native session segment IDs must be contiguous from zero'')
          else Inr segments
      | _ \<Rightarrow> Inl (ValueError ''native session must contain 1..32 segments''))"

text \<open>The time stamps of the first segment with the id; old documents use other keys.\<close>

definition stamp_segment :: "nat \<Rightarrow> pydict \<Rightarrow> exc + pydict" where
  "stamp_segment timestamp_us segment =
     (let first_key = (if map_of segment (lit ''first_timestamp_us'') \<noteq> None
                       then ''first_timestamp_us'' else ''first_device_timestamp_us'');
          last_key = (if map_of segment (lit ''last_timestamp_us'') \<noteq> None
                      then ''last_timestamp_us'' else ''last_device_timestamp_us'')
      in
      (case map_of segment (lit first_key) of
         None \<Rightarrow> Inl KeyError
       | Some v \<Rightarrow>
           let s = (if v = PNone then dict_put first_key (PNat timestamp_us) segment else segment)
           in Inr (dict_put last_key (PNat timestamp_us) s)))"

fun stamp_segments :: "nat \<Rightarrow> nat \<Rightarrow> pyval list \<Rightarrow> exc + pyval list" where
  "stamp_segments segment_id timestamp_us [] = Inl (ValueError ''session metadata has no such segment'')"
| "stamp_segments segment_id timestamp_us (v # vs) =
     (case v of
        PDict s \<Rightarrow>
          if py_eq_int (dict_get ''segment_id'' s) (int segment_id) then
            bind_r (stamp_segment timestamp_us s) (\<lambda>s'. Inr (PDict s' # vs))
          else bind_r (stamp_segments segment_id timestamp_us vs) (\<lambda>vs'. Inr (v # vs'))
      | _ \<Rightarrow> Inl (ValueError ''session metadata segments must contain JSON objects''))"

definition record_metadata_segment_timestamp :: "nat \<Rightarrow> nat \<Rightarrow> pydict \<Rightarrow> exc + pydict" where
  "record_metadata_segment_timestamp segment_id timestamp_us m =
     (case dict_get ''segments'' m of
        PList segments \<Rightarrow>
          bind_r (stamp_segments segment_id timestamp_us segments) (\<lambda>ss.
            Inr (dict_put ''segments'' (PList ss) m))
      | _ \<Rightarrow> Inl (ValueError ''session metadata segments must be a JSON array''))"

section \<open>The summary of a session\<close>

record session_summary =
  ss_session_id :: ustr
  ss_started_at :: ustr
  ss_command :: ustr
  ss_truncated :: bool
  ss_interrupted :: bool
  ss_resumed :: bool
  ss_overflow :: bool
  ss_baseline :: bool
  ss_firmware :: "ustr option"
  ss_device :: "ustr option"
  ss_segment_count :: nat
  ss_backend_mode :: "backend_mode option"
  ss_port :: "ustr option"
  ss_backend_capabilities :: "ustr list"
  ss_capabilities :: "ustr list"
  ss_capability_policy :: "bool option"
  ss_integrity :: "uart_integrity option"
  ss_segment_contexts :: "segment_context list"
  ss_first_error :: "first_error_view option"
  ss_line_processing :: line_processing
  ss_schema_version :: int
  ss_state :: "session_state option"
  ss_workflow :: "session_workflow option"
  ss_duration_s :: "rat option"
  ss_reconnect_timeout_s :: "rat option"
  ss_ended_at :: "ustr option"
  ss_end_reason :: "ustr option"
  ss_error :: "pydict option"
  ss_truncation :: "pydict option"
  ss_wait_pattern :: "ustr option"
  ss_match_mode_literal :: bool
  ss_case_sensitive :: "bool option"
  ss_timeout_s :: "rat option"
  ss_matched :: "bool option"
  ss_detected_pattern_index :: "int option"

text \<open>The lifecycle fields that only a version 1 document has.\<close>

record native_fields =
  nf_state :: "session_state option"
  nf_workflow :: "session_workflow option"
  nf_duration_s :: "rat option"
  nf_reconnect_timeout_s :: "rat option"
  nf_wait_pattern :: "ustr option"
  nf_match_mode :: pyval
  nf_case_sensitive :: pyval
  nf_timeout_s :: "rat option"
  nf_matched :: pyval
  nf_detected_pattern_index :: pyval
  nf_ended_at :: "ustr option"
  nf_end_reason :: "ustr option"
  nf_error :: "pydict option"

definition no_native_fields :: native_fields where
  "no_native_fields =
     \<lparr>nf_state = None, nf_workflow = None, nf_duration_s = None, nf_reconnect_timeout_s = None,
      nf_wait_pattern = None, nf_match_mode = PNone, nf_case_sensitive = PNone, nf_timeout_s = None,
      nf_matched = PNone, nf_detected_pattern_index = PNone, nf_ended_at = None,
      nf_end_reason = None, nf_error = None\<rparr>"

definition read_native_fields :: "pydict \<Rightarrow> exc + native_fields" where
  "read_native_fields m =
     bind_r (native_state (dict_get ''state'' m)) (\<lambda>state.
     bind_r (native_workflow (dict_get ''workflow'' m)) (\<lambda>workflow.
     bind_r (optional_positive_number (dict_get ''duration_s'' m)) (\<lambda>duration_s.
     bind_r (optional_positive_number (dict_get ''reconnect_timeout_s'' m)) (\<lambda>reconnect_timeout_s.
     bind_r (optional_str m ''pattern'') (\<lambda>wait_pattern.
     bind_r (optional_positive_number (dict_get ''timeout_s'' m)) (\<lambda>timeout_s.
     bind_r (optional_str m ''ended_at'') (\<lambda>ended_at.
     bind_r (optional_str m ''end_reason'') (\<lambda>end_reason.
     bind_r (optional_object (dict_get ''error'' m)) (\<lambda>error.
       Inr \<lparr>nf_state = Some state, nf_workflow = Some workflow, nf_duration_s = duration_s,
            nf_reconnect_timeout_s = reconnect_timeout_s, nf_wait_pattern = wait_pattern,
            nf_match_mode = dict_get ''match_mode'' m, nf_case_sensitive = dict_get ''case_sensitive'' m,
            nf_timeout_s = timeout_s, nf_matched = dict_get ''matched'' m,
            nf_detected_pattern_index = dict_get ''detected_pattern_index'' m, nf_ended_at = ended_at,
            nf_end_reason = end_reason, nf_error = error\<rparr>)))))))))"

definition check_wait_fields :: "native_fields \<Rightarrow> exc + unit" where
  "check_wait_fields n =
     (if nf_workflow n = Some WaitPatternWorkflow then
        bind_r (validate_wait_pattern (opt_str (nf_wait_pattern n))) (\<lambda>_.
        bind_r (validate_wait_timeout (opt_float (nf_timeout_s n))) (\<lambda>_.
          if nf_match_mode n \<noteq> PStr (lit ''literal'') \<or> nf_case_sensitive n \<noteq> PBool True then
            Inl (ValueError ''native wait-pattern matching policy is invalid'')
          else if nf_detected_pattern_index n \<noteq> PNone \<and> \<not> is_non_negative_int (nf_detected_pattern_index n) then
            Inl (ValueError ''native wait-pattern detected index is invalid'')
          else if nf_state n = Some ActiveState then
            (if nf_matched n \<noteq> PNone \<or> nf_detected_pattern_index n \<noteq> PNone then
               Inl (ValueError ''active wait-pattern result fields must be null'')
             else Inr ())
          else
            (case nf_matched n of
               PBool b \<Rightarrow>
                 if b \<noteq> (nf_detected_pattern_index n \<noteq> PNone) then
                   Inl (ValueError ''native wait-pattern match fields disagree'')
                 else Inr ()
             | _ \<Rightarrow> Inl (ValueError ''terminal wait-pattern matched flag is invalid''))))
      else if nf_wait_pattern n \<noteq> None \<or> nf_match_mode n \<noteq> PNone \<or> nf_case_sensitive n \<noteq> PNone
          \<or> nf_timeout_s n \<noteq> None \<or> nf_matched n \<noteq> PNone \<or> nf_detected_pattern_index n \<noteq> PNone then
        Inl (ValueError ''non-wait session contains wait-pattern fields'')
      else Inr ())"

definition check_native ::
  "backend_mode option \<Rightarrow> pydict option \<Rightarrow> nat \<Rightarrow> native_fields \<Rightarrow> exc + unit" where
  "check_native backend_mode backend_identity segment_count n =
     (if backend_mode = None \<or> backend_identity = None then
        Inl (ValueError ''native session backend identity is required'')
      else if \<not> (1 \<le> segment_count \<and> segment_count \<le> 32) then
        Inl (ValueError ''native session must contain 1..32 segments'')
      else if nf_workflow n \<in> {Some CaptureWorkflow, Some BootTestWorkflow} \<and> nf_duration_s n = None then
        Inl (ValueError ''native capture-like session duration_s is required'')
      else
        bind_r (check_wait_fields n) (\<lambda>_.
          if nf_reconnect_timeout_s n = None then
            Inl (ValueError ''native session reconnect_timeout_s is required'')
          else validate_native_lifecycle (nf_state n) (nf_ended_at n) (nf_end_reason n) (nf_error n)))"

fun bool_option :: "pyval \<Rightarrow> bool option" where
  "bool_option (PBool b) = Some b"
| "bool_option _ = None"

definition summary_from_metadata :: "pydict \<Rightarrow> pyval list \<Rightarrow> exc + session_summary" where
  "summary_from_metadata m detected_patterns =
     (case dict_get ''segments'' m of
        PList segments \<Rightarrow>
          (case get_default ''schema_version'' (PInt 0) m of
             PInt schema_version \<Rightarrow>
               if schema_version \<notin> {0, 1} then Inl (ValueError ''unsupported session schema version'')
               else
                 let native = (schema_version = 1) in
                 bind_r (optional_backend_mode (dict_get ''backend_mode'' m)) (\<lambda>backend_mode.
                 bind_r (optional_object (dict_get ''backend_identity'' m)) (\<lambda>backend_identity.
                 bind_r (if native then read_native_fields m else Inr no_native_fields) (\<lambda>n.
                 bind_r (if native then check_native backend_mode backend_identity (length segments) n
                         else Inr ()) (\<lambda>_.
                 bind_r (required_str m ''session_id'') (\<lambda>session_id.
                 bind_r (required_str m ''started_at'') (\<lambda>started_at.
                 bind_r (required_str m ''command'') (\<lambda>command.
                 bind_r (required_bool m ''truncated'') (\<lambda>truncated.
                 bind_r (required_bool m ''interrupted'') (\<lambda>interrupted.
                 bind_r (required_bool m ''resumed'') (\<lambda>resumed.
                 bind_r (required_bool m ''overflow'') (\<lambda>overflow.
                 bind_r (if native then Inr False else required_bool m ''baseline'') (\<lambda>baseline.
                 let identity = (case backend_identity of Some d \<Rightarrow> if native then d else m | None \<Rightarrow> m) in
                 bind_r (optional_str identity ''firmware'') (\<lambda>firmware.
                 bind_r (optional_str identity ''device'') (\<lambda>device.
                 bind_r (case backend_identity of Some d \<Rightarrow> optional_str d ''port'' | None \<Rightarrow> Inr None) (\<lambda>port.
                 bind_r (optional_string_tuple m ''backend_capabilities'') (\<lambda>backend_capabilities.
                 bind_r (optional_string_tuple m ''capabilities'') (\<lambda>capabilities.
                 bind_r (optional_capability_policy (dict_get ''capability_policy'' m)) (\<lambda>policy.
                 bind_r (optional_integrity (dict_get ''integrity'' m)) (\<lambda>integrity.
                 bind_r (segment_contexts segments) (\<lambda>contexts.
                 bind_r (first_error detected_patterns segments) (\<lambda>first.
                 bind_r (optional_line_processing (dict_get ''line_processing'' m)) (\<lambda>lines.
                 bind_r (if native then optional_object (dict_get ''truncation'' m) else Inr None) (\<lambda>truncation.
                   Inr \<lparr>ss_session_id = session_id, ss_started_at = started_at, ss_command = command,
                        ss_truncated = truncated, ss_interrupted = interrupted, ss_resumed = resumed,
                        ss_overflow = overflow, ss_baseline = baseline, ss_firmware = firmware,
                        ss_device = device, ss_segment_count = length segments, ss_backend_mode = backend_mode,
                        ss_port = port, ss_backend_capabilities = backend_capabilities,
                        ss_capabilities = capabilities, ss_capability_policy = policy,
                        ss_integrity = integrity, ss_segment_contexts = contexts, ss_first_error = first,
                        ss_line_processing = lines, ss_schema_version = schema_version,
                        ss_state = nf_state n, ss_workflow = nf_workflow n, ss_duration_s = nf_duration_s n,
                        ss_reconnect_timeout_s = nf_reconnect_timeout_s n, ss_ended_at = nf_ended_at n,
                        ss_end_reason = nf_end_reason n, ss_error = nf_error n, ss_truncation = truncation,
                        ss_wait_pattern = nf_wait_pattern n,
                        ss_match_mode_literal = (nf_match_mode n = PStr (lit ''literal'')),
                        ss_case_sensitive = bool_option (nf_case_sensitive n), ss_timeout_s = nf_timeout_s n,
                        ss_matched = bool_option (nf_matched n),
                        ss_detected_pattern_index = int_option (nf_detected_pattern_index n)\<rparr>)))))))))))))))))))))))
           | _ \<Rightarrow> Inl (ValueError ''session metadata schema_version must be an integer''))
      | _ \<Rightarrow> Inl (ValueError ''session metadata segments must be a JSON array''))"

section \<open>Written parts read back\<close>

definition line_processing_ok :: "line_processing \<Rightarrow> bool" where
  "line_processing_ok p \<longleftrightarrow>
     py_eq_int (lp_max_line_bytes p) (int MAX_UART_LINE_BYTES) \<and> 0 \<le> lp_oversized_line_count p
     \<and> (lp_status p = LinesComplete \<longleftrightarrow> lp_oversized_line_count p = 0)"

lemma make_line_processing_Inr:
  "make_line_processing s b c = Inr p \<longleftrightarrow>
     line_processing_ok p \<and> lp_status p = s \<and> lp_max_line_bytes p = b \<and> c = PInt (lp_oversized_line_count p)"
  by (cases c; cases p) (auto simp: make_line_processing_def line_processing_ok_def check_simps)

lemma line_processing_roundtrip:
  assumes "line_processing_ok p"
  shows "optional_line_processing (PDict (line_processing_json p)) = Inr p"
proof -
  have "make_line_processing (lp_status p) (lp_max_line_bytes p) (PInt (lp_oversized_line_count p)) = Inr p"
    using assms by (simp add: make_line_processing_Inr)
  then show ?thesis
    using assms
    by (cases "lp_status p")
       (auto simp: optional_line_processing_def optional_object_def line_processing_json_def one_of_def
          line_processing_ok_def)
qed

lemma optional_line_processing_ok:
  assumes "optional_line_processing v = Inr p"
  shows "line_processing_ok p"
proof -
  have d: "line_processing_ok default_line_processing"
    by (simp add: line_processing_ok_def default_line_processing_def)
  from assms obtain d where "optional_object v = Inr d" by (auto simp: optional_line_processing_def result_simps)
  then show ?thesis
  proof (cases d)
    case (Some m)
    with assms \<open>optional_object v = Inr d\<close> show ?thesis
      by (auto simp: optional_line_processing_def result_simps check_simps Let_def make_line_processing_Inr)
  qed (use assms d in \<open>auto simp: optional_line_processing_def\<close>)
qed

lemma integrity_roundtrip:
  assumes "integrity_ok u"
  shows "optional_integrity (PDict (integrity_json u)) = Inr (Some u)"
proof -
  have m: "make_uart_integrity (PStr (lit (loss_status_name (ui_loss_status u)))) (opt_str (ui_observation_scope u))
      (opt_int (ui_dropped_bytes u)) = Inr u"
    using assms by (simp add: make_uart_integrity_Inr)
  have s: "opt_str (ui_observation_scope u) \<in> {PNone, PStr rx_scope}"
      "opt_int (ui_dropped_bytes u) \<noteq> PNone \<longrightarrow> is_non_negative_int (opt_int (ui_dropped_bytes u))"
    using assms by (auto simp: integrity_ok_def opt_int_def split: loss_status.splits option.splits)
  have "\<not> unhashable (opt_str (ui_observation_scope u))" by (cases "ui_observation_scope u") simp_all
  with m s show ?thesis
    by (cases "ui_loss_status u")
       (auto simp: optional_integrity_def optional_object_def integrity_json_def one_of_def Let_def)
qed

lemma policy_roundtrip: "optional_capability_policy (PDict (capability_policy_json b)) = Inr (Some b)"
  by (simp add: optional_capability_policy_def optional_object_def capability_policy_json_def make_send_policy_def)

definition timestamp_ok :: "segment_timestamp \<Rightarrow> bool" where
  "timestamp_ok t \<longleftrightarrow> 0 \<le> st_source_origin_us t \<and> st_observation_point t \<noteq> [] \<and> st_event_granularity t \<noteq> []"

lemma timestamp_roundtrip:
  assumes "timestamp_ok t"
  shows "read_timestamp (timestamp_json t) = Inr t"
  using assms
  by (cases t; cases "st_source t"; cases "st_clock t")
     (auto simp: read_timestamp_def timestamp_json_def one_of_def timestamp_ok_def source_of_name_def
        clock_of_name_def Let_def)

lemma dict_set_Cons_lit: "dict_put k v ((lit k', v') # d) = (if k' = k then (lit k, v) # d else (lit k', v') # dict_put k v d)"
  by (auto simp: dict_put_def)

lemma backend_segment_json_get:
  "dict_get ''segment_id'' (dict_put ''segment_id'' (PInt 0) (backend_segment_json s t)) = PInt 0"
  "dict_get ''timestamp'' (dict_put ''segment_id'' (PInt 0) (backend_segment_json s t)) =
     (case sn_segment s of None \<Rightarrow> PNone | Some c \<Rightarrow> PDict (timestamp_json (sc_timestamp c)))"
  by (simp_all add: backend_segment_json_def)

lemma initial_get:
  fixes digest sid started_at p s budget predecessor
  defines "m \<equiv> initial_v2_metadata digest sid started_at p s budget predecessor"
  shows "dict_get ''segments'' m = PList [PDict (dict_put ''segment_id'' (PInt 0) (backend_segment_json s started_at))]"
    and "dict_get ''line_processing'' m = PDict (line_processing_json default_line_processing)"
    and "dict_get ''evidence_quality'' m = PDict
        [(lit ''backend_integrity'', PDict (integrity_json (sn_integrity s))),
         (lit ''local_recording'', PStr (lit ''complete''))]"
    and "dict_get ''state'' m = str_val ''active''" and "dict_get ''session_id'' m = PStr sid"
    and "dict_get ''ended_at'' m = PNone" and "dict_get ''end_reason'' m = PNone" and "dict_get ''error'' m = PNone"
  by (simp_all add: m_def initial_v2_metadata_def str_val_def)


definition demo_context :: segment_context where
  "demo_context =
     \<lparr>sc_segment_id = 3,
      sc_timestamp =
        \<lparr>st_source = HostTime, st_clock = MonotonicClock, st_source_origin_us = 0,
         st_observation_point = lit ''host_read'', st_event_granularity = lit ''read_chunk''\<rparr>\<rparr>"

definition demo_snapshot :: backend_snapshot where
  "demo_snapshot =
     \<lparr>sn_info = \<lparr>bi_mode = BasicBackend, bi_port = lit ''COM3'', bi_device = None, bi_firmware = None,
                 bi_capabilities = {}\<rparr>,
      sn_capabilities = {}, sn_tx_policy_enabled = False, sn_segment = Some demo_context,
      sn_integrity = integrity_for_backend BasicBackend, sn_serial_provenance = None\<rparr>"


end
