(* ===== verification/Store_Records.thy ===== *)
theory Store_Records
  imports Session_Metadata
begin

text \<open>
  The functions of \<open>session_store/store.py\<close> that read and change the metadata document of a version 2
  session without touching the disk: the evidence counter, the open operations with their evidence
  ranges, the attempts that still wait for a result, the loss counters, and what happens to the
  ownership of a session that ends. A document is a dictionary; every check the code makes on an
  ill-typed document is a branch.
\<close>

section \<open>Counters and identifiers\<close>

definition v2_next_sequence :: "pydict \<Rightarrow> exc + nat" where
  "v2_next_sequence m =
     (case dict_get ''next_evidence_seq'' m of
        PInt n \<Rightarrow>
          if n < 0 then Inl (ValueError ''v2 next_evidence_seq must be a non-negative integer'') else Inr (nat n)
      | _ \<Rightarrow> Inl (ValueError ''v2 next_evidence_seq must be a non-negative integer''))"

definition v2_count :: "pydict \<Rightarrow> string \<Rightarrow> exc + nat" where
  "v2_count summary key =
     (case dict_get key summary of
        PInt n \<Rightarrow>
          if n < 0 then Inl (ValueError ''v2 operation summary count is invalid'') else Inr (nat n)
      | _ \<Rightarrow> Inl (ValueError ''v2 operation summary count is invalid''))"

definition get_dict :: "string \<Rightarrow> string \<Rightarrow> pydict \<Rightarrow> exc + pydict" where
  "get_dict message key m =
     (case dict_get key m of PDict d \<Rightarrow> Inr d | _ \<Rightarrow> Inl (ValueError message))"

definition last_segment :: "string \<Rightarrow> pydict \<Rightarrow> exc + (pyval list \<times> pydict)" where
  "last_segment message m =
     (case dict_get ''segments'' m of
        PList segments \<Rightarrow>
          if segments = [] then Inl (ValueError message)
          else (case last segments of PDict s \<Rightarrow> Inr (butlast segments, s) | _ \<Rightarrow> Inl (ValueError message))
      | _ \<Rightarrow> Inl (ValueError message))"

definition current_v2_segment_id :: "pydict \<Rightarrow> exc + nat" where
  "current_v2_segment_id m =
     bind_r (last_segment ''v2 session must contain a current segment'' m) (\<lambda>(_, s).
       case dict_get ''segment_id'' s of
         PInt i \<Rightarrow> if i < 0 then Inl (ValueError ''v2 current segment ID is invalid'') else Inr (nat i)
       | _ \<Rightarrow> Inl (ValueError ''v2 current segment ID is invalid''))"

definition validate_v2_identifier :: "pyval \<Rightarrow> exc + ustr" where
  "validate_v2_identifier v =
     (case v of
        PStr s \<Rightarrow>
          if s = [] then Inl (ValueError ''must contain 1..128 UTF-8 bytes'')
          else
            (case utf8_encode s of
               None \<Rightarrow> Inl (ValueError ''must not contain Unicode control characters'')
             | Some encoded \<Rightarrow>
                 if length encoded > 128 then Inl (ValueError ''must contain 1..128 UTF-8 bytes'')
                 else if py_isspace (hd s) \<or> py_isspace (last s) then
                   Inl (ValueError ''must not contain edge whitespace'')
                 else if \<exists>c \<in> set s. is_cc c then
                   Inl (ValueError ''must not contain Unicode control characters'')
                 else Inr s)
      | _ \<Rightarrow> Inl (ValueError ''must contain 1..128 UTF-8 bytes''))"

section \<open>The terminal record of an operation\<close>

definition V2_OPERATION_OUTCOMES :: "ustr list" where
  "V2_OPERATION_OUTCOMES =
     map lit [''elapsed'', ''matched'', ''timeout'', ''disconnected'', ''released'', ''cancelled'', ''error'']"

definition bounded_v2_operation_error :: "pyval \<Rightarrow> exc + pydict" where
  "bounded_v2_operation_error error =
     (case error of
        PDict d \<Rightarrow>
          bind_r (validate_v2_identifier (dict_get ''code'' d)) (\<lambda>code.
            case dict_get ''detail'' d of
              PStr _ \<Rightarrow> bounded_error (PStr code) (dict_get ''detail'' d)
            | _ \<Rightarrow> Inl (ValueError ''operation error detail must be a string''))
      | _ \<Rightarrow> Inl (ValueError ''operation error data must be an object''))"

definition v2_terminal_projection :: "ustr \<Rightarrow> pyval \<Rightarrow> pyval \<Rightarrow> pyval \<Rightarrow> exc + (pyval \<times> pyval)" where
  "v2_terminal_projection outcome error matched_condition line_processing_limited =
     (if outcome \<notin> set V2_OPERATION_OUTCOMES then
        Inl (ValueError ''outcome must use the normalized Phase 1 vocabulary'')
      else
        bind_r
          (if outcome = lit ''error'' then
             if error = PNone then Inl (ValueError ''error outcome requires bounded error data'')
             else bind_r (bounded_v2_operation_error error) (\<lambda>d. Inr (PDict d))
           else if error \<noteq> PNone then
             Inl (ValueError ''operation error data is only valid for the error outcome'')
           else Inr PNone) (\<lambda>operation_error.
          if \<not> py_is_bool line_processing_limited then
            Inl (ValueError ''line_processing_limited must be a boolean'')
          else if outcome = lit ''matched'' then
            (case matched_condition of
               PDict d \<Rightarrow> Inr (operation_error, PDict d)
             | _ \<Rightarrow> Inl (ValueError ''matched outcome requires matched condition evidence''))
          else if matched_condition \<noteq> PNone then
            Inl (ValueError ''matched condition evidence requires matched outcome'')
          else Inr (operation_error, PNone)))"

definition v2_active_operation :: "pydict \<Rightarrow> ustr \<Rightarrow> exc + pydict" where
  "v2_active_operation m operation_id =
     bind_r (get_dict ''v2 active_operations must be an object'' ''active_operations'' m) (\<lambda>ops.
       case map_of ops operation_id of
         Some (PDict d) \<Rightarrow> Inr d
       | _ \<Rightarrow> Inl (ValueError ''v2 operation is not active''))"

text \<open>The copy of a list of ranges: every element has to be an object.\<close>

fun dict_items :: "pyval list \<Rightarrow> pydict list option" where
  "dict_items [] = Some []"
| "dict_items (v # vs) =
     (case v of PDict d \<Rightarrow> map_option ((#) d) (dict_items vs) | _ \<Rightarrow> None)"

definition close_last :: "nat \<Rightarrow> pydict list \<Rightarrow> pydict list" where
  "close_last n ranges =
     butlast ranges @ [dict_put ''end_evidence_seq_exclusive'' (PNat n) (last ranges)]"

definition operation_ranges :: "string \<Rightarrow> string \<Rightarrow> pydict \<Rightarrow> exc + pydict list" where
  "operation_ranges malformed item_malformed operation =
     (case dict_get ''ranges'' operation of
        PList vs \<Rightarrow>
          if vs = [] then Inl (ValueError malformed)
          else (case dict_items vs of None \<Rightarrow> Inl (ValueError item_malformed) | Some ranges \<Rightarrow> Inr ranges)
      | _ \<Rightarrow> Inl (ValueError malformed))"

definition v2_terminal_ranges :: "pydict \<Rightarrow> nat \<Rightarrow> exc + pydict list" where
  "v2_terminal_ranges operation terminal_seq =
     bind_r (operation_ranges ''v2 operation ranges are malformed'' ''v2 operation range is malformed'' operation)
       (\<lambda>ranges. Inr (close_last (terminal_seq + 1) ranges))"

definition require_v2_operation_active :: "pydict \<Rightarrow> ustr option \<Rightarrow> exc + unit" where
  "require_v2_operation_active m operation_id =
     (case operation_id of
        None \<Rightarrow> Inr ()
      | Some i \<Rightarrow>
          bind_r (get_dict ''v2 active_operations must be an object'' ''active_operations'' m) (\<lambda>ops.
            case map_of ops i of
              Some (PDict _) \<Rightarrow> Inr ()
            | _ \<Rightarrow> Inl (ValueError ''v2 action operation_id must reference an active operation'')))"

section \<open>Attempts\<close>

datatype attempt_type = UartTxAttempt | ControlAttempt

fun attempt_name :: "attempt_type \<Rightarrow> string" where
  "attempt_name UartTxAttempt = ''uart_tx_attempt''"
| "attempt_name ControlAttempt = ''control_attempt''"

fun attempt_result_name :: "attempt_type \<Rightarrow> string" where
  "attempt_result_name UartTxAttempt = ''uart_tx_result''"
| "attempt_result_name ControlAttempt = ''control_result''"

definition v2_attempt_key :: "ustr \<Rightarrow> ustr \<Rightarrow> ustr" where
  "v2_attempt_key type_name attempt_id = type_name @ lit '':'' @ attempt_id"

definition check_pending_attempt :: "ustr \<Rightarrow> pyval \<Rightarrow> exc + unit" where
  "check_pending_attempt key v =
     (case v of
        PDict attempt \<Rightarrow>
          bind_r (one_of [''uart_tx_attempt'', ''control_attempt''] (ValueError ''v2 pending attempt type is invalid'')
                    (dict_get ''attempt_type'' attempt)) (\<lambda>type_name.
            case dict_get ''attempt_id'' attempt of
              PStr attempt_id \<Rightarrow>
                if key \<noteq> v2_attempt_key type_name attempt_id then
                  Inl (ValueError ''v2 pending attempt identity is invalid'')
                else
                  (case dict_get ''session_id'' attempt of
                     PStr session_id \<Rightarrow>
                       bind_r (validate_session_id (PStr session_id)) (\<lambda>_.
                         if \<not> is_non_negative_int (dict_get ''evidence_seq'' attempt) then
                           Inl (ValueError ''v2 pending attempt evidence sequence is invalid'')
                         else Inr ())
                   | _ \<Rightarrow> Inl (ValueError ''v2 pending attempt session ID is invalid''))
            | _ \<Rightarrow> Inl (ValueError ''v2 pending attempt identity is invalid''))
      | _ \<Rightarrow> Inl (ValueError ''v2 pending attempt metadata is malformed''))"

fun check_pending_attempts :: "pydict \<Rightarrow> exc + unit" where
  "check_pending_attempts [] = Inr ()"
| "check_pending_attempts ((key, v) # rest) =
     bind_r (check_pending_attempt key v) (\<lambda>_. check_pending_attempts rest)"

definition v2_pending_attempts :: "pydict \<Rightarrow> exc + pydict" where
  "v2_pending_attempts m =
     bind_r (get_dict ''v2 pending_attempts must be an object'' ''pending_attempts'' m) (\<lambda>raw.
     bind_r (check_pending_attempts raw) (\<lambda>_. Inr raw))"

definition v2_pending_attempt :: "pydict \<Rightarrow> attempt_type \<Rightarrow> ustr \<Rightarrow> exc + pydict option" where
  "v2_pending_attempt m t attempt_id =
     bind_r (v2_pending_attempts m) (\<lambda>pending.
       Inr (case map_of pending (v2_attempt_key (lit (attempt_name t)) attempt_id) of
              Some (PDict d) \<Rightarrow> Some d | _ \<Rightarrow> None))"

text \<open>
  \<open>_v2_attempt_ids\<close> reads the records of one stream: the attempts seen and those without a result.
  A result of an attempt of an earlier session of the chain is skipped.
\<close>

fun v2_attempt_ids ::
  "ustr \<Rightarrow> attempt_type \<Rightarrow> ustr list \<Rightarrow> ustr list \<Rightarrow> pydict list \<Rightarrow> exc + (ustr list \<times> ustr list)" where
  "v2_attempt_ids session_id t seen waiting [] = Inr (seen, waiting)"
| "v2_attempt_ids session_id t seen waiting (r # rs) =
     (let event_type = dict_get ''type'' r in
      if unhashable event_type then Inl (TypeError ''unhashable type'')
      else if event_type \<notin> {str_val (attempt_name t), str_val (attempt_result_name t)} then
        v2_attempt_ids session_id t seen waiting rs
      else
        (case dict_get ''attempt_id'' r of
           PStr attempt_id \<Rightarrow>
             if event_type = str_val (attempt_name t) then
               if attempt_id \<in> set seen then Inl (ValueError ''contains a duplicate attempt ID'')
               else v2_attempt_ids session_id t (attempt_id # seen) (attempt_id # waiting) rs
             else if get_default ''attempt_session_id'' (PStr session_id) r \<noteq> PStr session_id then
               v2_attempt_ids session_id t seen waiting rs
             else if attempt_id \<notin> set waiting then
               Inl (ValueError ''result has no preceding unresolved attempt'')
             else v2_attempt_ids session_id t seen (removeAll attempt_id waiting) rs
         | _ \<Rightarrow> Inl (ValueError ''attempt_id is invalid'')))"

fun v2_operation_id_seen :: "ustr \<Rightarrow> pydict list \<Rightarrow> exc + bool" where
  "v2_operation_id_seen operation_id [] = Inr False"
| "v2_operation_id_seen operation_id (r # rs) =
     (let event_type = dict_get ''type'' r in
      if unhashable event_type then Inl (TypeError ''unhashable type'')
      else if event_type \<notin> {str_val ''operation_started'', str_val ''operation_continued'', str_val ''operation_terminal''}
      then v2_operation_id_seen operation_id rs
      else
        (case dict_get ''operation_id'' r of
           PStr recorded_id \<Rightarrow>
             if recorded_id = operation_id then Inr True else v2_operation_id_seen operation_id rs
         | _ \<Rightarrow> Inl (ValueError ''operation_id is invalid'')))"

section \<open>Loss counters\<close>

definition record_v2_integrity_loss :: "nat \<Rightarrow> bool \<Rightarrow> bool option \<Rightarrow> pydict \<Rightarrow> exc + pydict" where
  "record_v2_integrity_loss dropped_bytes cumulative reported_loss m =
     bind_r (get_dict ''v2 evidence_quality must be an object'' ''evidence_quality'' m) (\<lambda>quality.
     bind_r (get_dict ''v2 backend_integrity must be an object'' ''backend_integrity'' quality) (\<lambda>integrity.
       case dict_get ''dropped_bytes'' integrity of
         PInt previous \<Rightarrow>
           if previous < 0 then Inl (ValueError ''v2 backend integrity dropped bytes are invalid'')
           else
             let observed = (if cumulative then max previous (int dropped_bytes) else previous + int dropped_bytes);
                 status = (if observed \<noteq> 0 \<or> reported_loss = Some True then ''loss_reported'' else ''none_reported'');
                 integrity' =
                   dict_put ''dropped_bytes'' (PInt observed)
                     (dict_put ''observation_scope'' (PStr rx_scope)
                       (dict_put ''loss_status'' (str_val status) integrity))
             in Inr (dict_put ''evidence_quality'' (PDict (dict_put ''backend_integrity'' (PDict integrity') quality)) m)
       | _ \<Rightarrow> Inl (ValueError ''v2 backend integrity dropped bytes are invalid'')))"

definition require_matching_capture_result :: "uart_receive_event \<Rightarrow> capture_result \<Rightarrow> exc + unit" where
  "require_matching_capture_result event result =
     (if ev_segment_id event \<noteq> cr_segment_id result then
        Inl (ValueError ''UART event and capture result segments must match'')
      else if ev_channel event \<noteq> cr_channel result then
        Inl (ValueError ''UART event and capture result channels must match'')
      else if Some (ev_timestamp_us event) \<noteq> cr_timestamp_us result then
        Inl (ValueError ''UART event and capture result timestamps must match'')
      else Inr ())"

section \<open>The end of a session\<close>

definition interrupted_operation :: "nat \<Rightarrow> pydict \<Rightarrow> exc + pydict" where
  "interrupted_operation end_evidence_seq operation =
     bind_r (operation_ranges ''v2 active operation ranges are malformed''
               ''v2 active operation range is malformed'' operation) (\<lambda>ranges.
       if dict_get ''end_evidence_seq_exclusive'' (last ranges) \<noteq> PNone then
         Inl (ValueError ''v2 active operation range is already closed'')
       else
         Inr [(lit ''operation_type'', dict_get ''operation_type'' operation),
              (lit ''ranges'', PList (map PDict (close_last end_evidence_seq ranges)))])"

fun interrupt_all :: "nat \<Rightarrow> pydict \<Rightarrow> pydict \<Rightarrow> exc + pydict" where
  "interrupt_all end_evidence_seq interrupted [] = Inr interrupted"
| "interrupt_all end_evidence_seq interrupted ((operation_id, v) # rest) =
     (case v of
        PDict operation \<Rightarrow>
          if map_of interrupted operation_id \<noteq> None then
            Inl (ValueError ''v2 interrupted operation ID is duplicated'')
          else
            bind_r (interrupted_operation end_evidence_seq operation) (\<lambda>d.
              interrupt_all end_evidence_seq (dict_set interrupted operation_id (PDict d)) rest)
      | _ \<Rightarrow> Inl (ValueError ''v2 active operation metadata is malformed''))"

definition relinquish_v2_ownership :: "pydict \<Rightarrow> exc + pydict" where
  "relinquish_v2_ownership m =
     (let malformed = ''v2 operation ownership metadata is malformed'' in
      bind_r (get_dict malformed ''active_operations'' m) (\<lambda>active.
      bind_r (get_dict malformed ''interrupted_operations'' m) (\<lambda>interrupted.
      bind_r (get_dict ''v2 operation summary is malformed'' ''operation_summary'' m) (\<lambda>summary.
      bind_r (v2_count summary ''active'') (\<lambda>count.
        if count \<noteq> length active then
          Inl (ValueError ''v2 active operation summary disagrees with ownership'')
        else
          bind_r (v2_next_sequence m) (\<lambda>end_evidence_seq.
          bind_r (interrupt_all end_evidence_seq interrupted active) (\<lambda>interrupted'.
            Inr (dict_put ''operation_summary'' (PDict (dict_put ''active'' (PInt 0) summary))
                  (dict_put ''interrupted_operations'' (PDict interrupted')
                    (dict_put ''active_operations'' (PDict []) m))))))))))"

end
