(* ===== verification/Uart_Send.thy ===== *)
theory Uart_Send
  imports Enhanced_Backend
begin

text \<open>
  The audited transmission of \<open>workflows/uart_send.py\<close>: the attempt is stored, the payload is
  dispatched once, the result is stored. The recorder and the sender are parameters, operations on a
  state of their own, gathered in the record \<open>send_ports\<close>; the attempt identifier and the formatted
  time are arguments.
\<close>

section \<open>Operations that can raise and change a state\<close>

type_synonym ('s, 'a) op = "'s \<Rightarrow> (exc + 'a) \<times> 's"

definition bind_s :: "('s, 'a) op \<Rightarrow> ('a \<Rightarrow> ('s, 'b) op) \<Rightarrow> ('s, 'b) op" where
  "bind_s m f s = (case m s of (Inl e, s') \<Rightarrow> (Inl e, s') | (Inr a, s') \<Rightarrow> f a s')"

definition return_s :: "'a \<Rightarrow> ('s, 'a) op" where
  "return_s a s = (Inr a, s)"

definition raise_s :: "exc \<Rightarrow> ('s, 'a) op" where
  "raise_s e s = (Inl e, s)"

text \<open>The outcome of an operation as a value, for a \<open>try\<close> statement.\<close>

definition try_s :: "('s, 'a) op \<Rightarrow> ('s, exc + 'a) op" where
  "try_s m s = (case m s of (r, s') \<Rightarrow> (Inr r, s'))"

section \<open>The workflow\<close>

record evidence_admission =
  va_session_id :: ustr
  va_evidence_seq :: nat

record send_workflow_result =
  us_performed_at :: ustr
  us_device_timestamp_us :: "int option"
  us_attempt_id :: ustr
  us_data_b64 :: ustr
  us_accepted_bytes :: int
  us_status :: ustr
  us_audit_status :: ustr
  us_transformation :: pydict
  us_attempt_session_id :: ustr
  us_attempt_evidence_seq :: nat
  us_result_session_id :: ustr
  us_result_evidence_seq :: nat

record 's send_ports =
  sp_health :: "('s, source_health) op"
  sp_attempt :: "ustr \<Rightarrow> bytes \<Rightarrow> ustr option \<Rightarrow> pydict \<Rightarrow> ('s, evidence_admission) op"
  sp_send :: "bytes \<Rightarrow> ('s, send_result) op"
  sp_result :: "ustr \<Rightarrow> ustr \<Rightarrow> int option \<Rightarrow> ('s, evidence_admission) op"
  sp_input_failed :: "exc \<Rightarrow> ('s, unit) op"

text \<open>The failures the workflow handles, with their public error code and the bytes accepted.\<close>

fun send_failure_code :: "exc \<Rightarrow> (ustr \<times> int option) option" where
  "send_failure_code (BackendWriteError m accepted error) = Some (error, accepted)"
| "send_failure_code (BackendInputError d k op m n l) = Some (lit ''backend_input_error'', None)"
| "send_failure_code _ = None"

fun is_backend_input_error :: "exc \<Rightarrow> bool" where
  "is_backend_input_error (BackendInputError _ _ _ _ _ _) = True"
| "is_backend_input_error _ = False"

definition record_result ::
  "'s send_ports \<Rightarrow> ustr \<Rightarrow> ustr \<Rightarrow> int option \<Rightarrow> ('s, evidence_admission) op" where
  "record_result P attempt_id status accepted =
     bind_s (try_s (sp_result P attempt_id status accepted)) (\<lambda>r.
       case r of
         Inr a \<Rightarrow> return_s a
       | Inl e \<Rightarrow>
           if is_runtime_error e \<or> is_value_error e then
             raise_s (UartSendError (lit ''persistence_fault'')
               (lit ''UART result could not be stored; the durable attempt outcome is unknown'')
               [(lit ''attempt_id'', PStr attempt_id), (lit ''outcome'', PStr (lit ''unknown'')),
                (lit ''may_have_reached_dut'', PBool True)])
           else raise_s e)"

definition complete_send :: "bytes \<Rightarrow> send_result \<Rightarrow> ('s, send_result) op" where
  "complete_send d q =
     (if sr_bytes_accepted q \<noteq> int (length d) then
        raise_s (BackendWriteError (lit ''UART backend did not accept the complete payload'')
          (Some (sr_bytes_accepted q)) (lit ''hardware_fault''))
      else return_s q)"

definition send_failed :: "'s send_ports \<Rightarrow> ustr \<Rightarrow> int \<Rightarrow> exc \<Rightarrow> ('s, send_workflow_result) op" where
  "send_failed P attempt_id generation e =
     (case send_failure_code e of
        None \<Rightarrow> raise_s e
      | Some (error, accepted) \<Rightarrow>
          bind_s (sp_health P) (\<lambda>h.
          bind_s (record_result P attempt_id error accepted) (\<lambda>_.
          bind_s (if is_backend_input_error e then sp_input_failed P e else return_s ()) (\<lambda>_.
            raise_s (UartSendError error (lit ''UART transmission failed'')
              [(lit ''attempt_id'', PStr attempt_id),
               (lit ''bytes_accepted'', opt_int accepted),
               (lit ''may_have_reached_dut'', PBool True),
               (lit ''connection_interrupted'',
                PBool (\<not> sh_connected h \<or> sh_connection_generation h \<noteq> generation))])))))"

definition send_succeeded ::
  "'s send_ports \<Rightarrow> ustr \<Rightarrow> uart_tx_payload \<Rightarrow> ustr \<Rightarrow> evidence_admission \<Rightarrow> send_result
     \<Rightarrow> ('s, send_workflow_result) op" where
  "send_succeeded P attempt_id payload now attempt q =
     bind_s (record_result P attempt_id (lit ''success'') (Some (sr_bytes_accepted q))) (\<lambda>res.
       return_s \<lparr>us_performed_at = now, us_device_timestamp_us = sr_device_timestamp_us q,
         us_attempt_id = attempt_id, us_data_b64 = tx_data_b64 payload,
         us_accepted_bytes = sr_bytes_accepted q, us_status = lit ''success'',
         us_audit_status = lit ''recorded'', us_transformation = tx_transformation payload,
         us_attempt_session_id = va_session_id attempt, us_attempt_evidence_seq = va_evidence_seq attempt,
         us_result_session_id = va_session_id res, us_result_evidence_seq = va_evidence_seq res\<rparr>)"

definition run_uart_send ::
  "'s send_ports \<Rightarrow> ustr \<Rightarrow> ustr \<Rightarrow> uart_tx_payload \<Rightarrow> ustr option \<Rightarrow> ('s, send_workflow_result) op" where
  "run_uart_send P attempt_id now payload operation_id =
     bind_s (sp_health P) (\<lambda>h.
     bind_s (sp_attempt P attempt_id (tx_data payload) operation_id (tx_transformation payload)) (\<lambda>attempt.
     bind_s (try_s (bind_s (sp_send P (tx_data payload)) (complete_send (tx_data payload)))) (\<lambda>r.
       case r of
         Inl e \<Rightarrow> send_failed P attempt_id (sh_connection_generation h) e
       | Inr q \<Rightarrow> send_succeeded P attempt_id payload now attempt q)))"

section \<open>The order of the calls\<close>

text \<open>The same ports, with a log of the calls that leave a trace: on the DUT, or in the evidence.\<close>

datatype call =
    CallAttempt ustr bytes
  | CallSend bytes
  | CallResult ustr ustr "int option"
  | CallInputFailed exc

definition with_log :: "call list \<Rightarrow> ('s, 'a) op \<Rightarrow> ('s \<times> call list, 'a) op" where
  "with_log cs m = (\<lambda>(s, log). case m s of (r, s') \<Rightarrow> (r, (s', log @ cs)))"

definition logged :: "'s send_ports \<Rightarrow> ('s \<times> call list) send_ports" where
  "logged P =
     \<lparr>sp_health = with_log [] (sp_health P),
      sp_attempt = (\<lambda>i d op t. with_log [CallAttempt i d] (sp_attempt P i d op t)),
      sp_send = (\<lambda>d. with_log [CallSend d] (sp_send P d)),
      sp_result = (\<lambda>i st n. with_log [CallResult i st n] (sp_result P i st n)),
      sp_input_failed = (\<lambda>e. with_log [CallInputFailed e] (sp_input_failed P e))\<rparr>"

lemma with_log_apply: "with_log cs m (s, l) = (fst (m s), (snd (m s), l @ cs))"
  by (simp add: with_log_def split: prod.splits)

lemma logged_simps [simp]:
  "sp_health (logged P) = with_log [] (sp_health P)"
  "sp_attempt (logged P) i d op t = with_log [CallAttempt i d] (sp_attempt P i d op t)"
  "sp_send (logged P) d = with_log [CallSend d] (sp_send P d)"
  "sp_result (logged P) i st n = with_log [CallResult i st n] (sp_result P i st n)"
  "sp_input_failed (logged P) e = with_log [CallInputFailed e] (sp_input_failed P e)"
  by (simp_all add: logged_def)

lemmas op_simps = bind_s_def return_s_def raise_s_def try_s_def with_log_apply

lemma record_result_log:
  "record_result (logged P) i st n (s, l) = (r, (s', l')) \<Longrightarrow> l' = l @ [CallResult i st n]"
  by (auto simp: record_result_def op_simps split: sum.splits prod.splits if_splits)

text \<open>What is relied on: reading the health of the source raises nothing.\<close>

definition health_total :: "'s send_ports \<Rightarrow> bool" where
  "health_total P \<longleftrightarrow> (\<forall>s e s'. sp_health P s \<noteq> (Inl e, s'))"

lemma health_totalE:
  assumes "health_total P"
  obtains h s' where "sp_health P s = (Inr h, s')"
  using assms unfolding health_total_def by (metis old.sum.exhaust surj_pair)

lemma send_failed_log:
  assumes "send_failed (logged P) i g e (s, l) = (r, (s', l'))" and "health_total P"
    and "send_failure_code e = Some (code, accepted)"
  shows "\<exists>tl. l' = l @ CallResult i code accepted # tl \<and> set tl \<subseteq> {CallInputFailed e} \<and> length tl \<le> 1
    \<and> (\<exists>e'. r = Inl e')"
proof -
  obtain h s1 where h: "sp_health P s = (Inr h, s1)" using assms(2) by (rule health_totalE)
  obtain r2 s2 l2 where r2: "record_result (logged P) i code accepted (s1, l) = (r2, (s2, l2))"
    by (metis surj_pair)
  from record_result_log [OF this] have l2: "l2 = l @ [CallResult i code accepted]" .
  show ?thesis
  proof (cases r2)
    case (Inl e2)
    with assms(1,3) h r2 l2 show ?thesis by (auto simp: send_failed_def op_simps)
  next
    case (Inr a)
    show ?thesis
    proof (cases "is_backend_input_error e")
      case False
      with assms(1,3) h r2 l2 Inr show ?thesis by (auto simp: send_failed_def op_simps)
    next
      case True
      with assms(1,3) h r2 l2 Inr show ?thesis
        by (cases "sp_input_failed P e s2") (auto simp: send_failed_def op_simps split: sum.splits)
    qed
  qed
qed

lemma complete_send_cases:
  obtains "sr_bytes_accepted q = int (length d)" "complete_send d q s = (Inr q, s)"
  | "complete_send d q s = (Inl (BackendWriteError (lit ''UART backend did not accept the complete payload'')
        (Some (sr_bytes_accepted q)) (lit ''hardware_fault'')), s)"
  by (cases "sr_bytes_accepted q = int (length d)") (auto simp: complete_send_def return_s_def raise_s_def)

lemma send_succeeded_log:
  assumes "send_succeeded (logged P) i p now att q (s, l) = (r, (s', l'))"
    and "sr_bytes_accepted q = int (length (tx_data p))"
  shows "l' = l @ [CallResult i (lit ''success'') (Some (int (length (tx_data p))))]
    \<and> (\<forall>res. r = Inr res \<longrightarrow> us_accepted_bytes res = int (length (tx_data p))
         \<and> us_data_b64 res = b64encode_str (tx_data p) \<and> us_attempt_id res = i
         \<and> us_attempt_evidence_seq res = va_evidence_seq att)"
proof -
  obtain r2 s2 l2 where r2: "record_result (logged P) i (lit ''success'') (Some (sr_bytes_accepted q)) (s, l)
      = (r2, (s2, l2))" by (metis surj_pair)
  from record_result_log [OF this] have "l2 = l @ [CallResult i (lit ''success'') (Some (sr_bytes_accepted q))]" .
  with assms r2 show ?thesis
    by (cases r2) (auto simp: send_succeeded_def op_simps tx_data_b64_def)
qed

text \<open>
  C30: No byte is sent without a stored attempt, no payload is sent twice, and every dispatch is
  followed by the attempt to store its result. When the sender raises only write and input errors, a
  run makes these calls and no other: the attempt alone, when it cannot be stored; or the attempt,
  one dispatch of exactly the payload and one result under the same identifier, after which an input
  error is also reported to the recorder. Success is returned only after a complete transmission
  whose result was stored as success.
\<close>

theorem uart_send_audited:
  assumes "run_uart_send (logged P) i now p opid (s, []) = (r, (s', calls))" and "health_total P"
    and "\<And>u e u'. sp_send P (tx_data p) u = (Inl e, u') \<Longrightarrow> send_failure_code e \<noteq> None"
  shows "calls = [CallAttempt i (tx_data p)] \<and> (\<exists>e. r = Inl e)
    \<or> calls = [CallAttempt i (tx_data p), CallSend (tx_data p),
          CallResult i (lit ''success'') (Some (int (length (tx_data p))))]
      \<and> (\<forall>res. r = Inr res \<longrightarrow> us_accepted_bytes res = int (length (tx_data p))
          \<and> us_data_b64 res = b64encode_str (tx_data p) \<and> us_attempt_id res = i)
    \<or> (\<exists>e status accepted tl. send_failure_code e = Some (status, accepted)
        \<and> calls = [CallAttempt i (tx_data p), CallSend (tx_data p), CallResult i status accepted] @ tl
        \<and> set tl \<subseteq> {CallInputFailed e} \<and> length tl \<le> 1 \<and> (\<exists>e'. r = Inl e'))"
proof -
  let ?d = "tx_data p"
  obtain h s1 where h: "sp_health P s = (Inr h, s1)" using assms(2) by (rule health_totalE)
  obtain a s2 where a: "sp_attempt P i ?d opid (tx_transformation p) s1 = (a, s2)" by fastforce
  show ?thesis
  proof (cases a)
    case (Inl e)
    with assms(1) h a show ?thesis by (auto simp: run_uart_send_def op_simps)
  next
    case (Inr att)
    let ?l = "[CallAttempt i ?d, CallSend ?d]"
    obtain q s3 where q: "sp_send P ?d s2 = (q, s3)" by fastforce
    have failed: "?thesis" if run: "send_failed (logged P) i (sh_connection_generation h) e (s3, ?l) = (r, (s', calls))"
      and code: "send_failure_code e = Some (code, accepted)" for e code accepted
    proof -
      from send_failed_log [OF run assms(2) code] obtain tl where
        tl: "calls = ?l @ CallResult i code accepted # tl" "set tl \<subseteq> {CallInputFailed e}" "length tl \<le> 1" "\<exists>e'. r = Inl e'"
        by auto
      have "calls = [CallAttempt i ?d, CallSend ?d, CallResult i code accepted] @ tl" using tl(1) by simp
      with code tl(2-4) show ?thesis by blast
    qed
    show ?thesis
    proof (cases q)
      case (Inl e)
      with assms(3) q obtain code accepted where c: "send_failure_code e = Some (code, accepted)" by fastforce
      have "send_failed (logged P) i (sh_connection_generation h) e (s3, ?l) = (r, (s', calls))"
        unfolding assms(1) [symmetric] by (simp add: run_uart_send_def op_simps h a q Inr Inl)
      then show ?thesis using c by (rule failed)
    next
      case ok: (Inr sr)
      show ?thesis
      proof (rule complete_send_cases [where q = sr and d = ?d and s = "(s3, ?l)"])
        assume c: "sr_bytes_accepted sr = int (length ?d)" "complete_send ?d sr (s3, ?l) = (Inr sr, s3, ?l)"
        then have "send_succeeded (logged P) i p now att sr (s3, ?l) = (r, (s', calls))"
          unfolding assms(1) [symmetric] by (simp add: run_uart_send_def op_simps h a q Inr ok)
        from send_succeeded_log [OF this c(1)] show ?thesis by (intro disjI2 disjI1) simp
      next
        assume c: "complete_send ?d sr (s3, ?l) =
          (Inl (BackendWriteError (lit ''UART backend did not accept the complete payload'')
            (Some (sr_bytes_accepted sr)) (lit ''hardware_fault'')), s3, ?l)"
        then have "send_failed (logged P) i (sh_connection_generation h)
            (BackendWriteError (lit ''UART backend did not accept the complete payload'')
            (Some (sr_bytes_accepted sr)) (lit ''hardware_fault'')) (s3, ?l) = (r, (s', calls))"
          unfolding assms(1) [symmetric] by (simp add: run_uart_send_def op_simps h a q Inr ok)
        then show ?thesis by (rule failed) simp
      qed
    qed
  qed
qed

text \<open>Ports over the Enhanced sender: its connection is the state, the recorder stores everything.\<close>

definition demo_health :: source_health where
  "demo_health = \<lparr>sh_connected = True, sh_integrity = None, sh_backend_snapshot = None, sh_connection_generation = 1\<rparr>"

definition enhanced_ports :: "'s transport \<Rightarrow> rat \<Rightarrow> 's send_ports" where
  "enhanced_ports request t =
     \<lparr>sp_health = (\<lambda>s. (Inr demo_health, s)),
      sp_attempt = (\<lambda>_ _ _ _ s. (Inr \<lparr>va_session_id = lit ''s'', va_evidence_seq = 4\<rparr>, s)),
      sp_send = enhanced_send_uart request t,
      sp_result = (\<lambda>_ _ _ s. (Inr \<lparr>va_session_id = lit ''s'', va_evidence_seq = 5\<rparr>, s)),
      sp_input_failed = (\<lambda>_ s. (Inr (), s))\<rparr>"

definition demo_payload :: uart_tx_payload where
  "demo_payload = \<lparr>tx_data = ''hi'', tx_input_form = FormDataB64, tx_line_ending = None, tx_resolved_line_ending = None\<rparr>"

lemma acknowledged_send:
  "enhanced_send_uart (acknowledging 2) 1 ''hi'' s
     = (Inr \<lparr>sr_bytes_accepted = 2, sr_device_timestamp_us = Some 9\<rparr>, Suc s)"
proof -
  have c: "uart_send_command (PBytes ''hi'') = Inr (UartSend ''hi'')" by (simp add: uart_send_command_def)
  from builders_ok(4) [OF c] obtain body where "command_frame (UartSend ''hi'') = Inr (body @ [nl])"
    by (rule command_frame_ok)
  with c show ?thesis by (simp add: enhanced_send_uart_def acknowledging_def uart_send_result_def)
qed

theorem uart_send_audited_witness:
  "\<exists>r s'. run_uart_send (logged (enhanced_ports (acknowledging 2) 1)) (lit ''a'') (lit ''now'') demo_payload None (0, [])
     = (r, (s', [CallAttempt (lit ''a'') ''hi'', CallSend ''hi'', CallResult (lit ''a'') (lit ''success'') (Some 2)]))"
proof -
  let ?P = "enhanced_ports (acknowledging 2) 1"
  obtain r s' calls where run: "run_uart_send (logged ?P) (lit ''a'') (lit ''now'') demo_payload None (0, []) = (r, (s', calls))"
    by (metis surj_pair)
  have h: "health_total ?P" by (simp add: health_total_def enhanced_ports_def)
  have s: "sp_send ?P (tx_data demo_payload) u = (Inr \<lparr>sr_bytes_accepted = 2, sr_device_timestamp_us = Some 9\<rparr>, Suc u)" for u
    by (simp add: enhanced_ports_def demo_payload_def acknowledged_send)
  have "\<exists>res. r = Inr res"
    using run s by (auto simp: run_uart_send_def op_simps enhanced_ports_def demo_payload_def complete_send_def
        send_succeeded_def record_result_def)
  with uart_send_audited [OF run h] s run show ?thesis by (auto simp: demo_payload_def)
qed

end
