(* ===== verification/Evidence_Store.thy ===== *)
theory Evidence_Store
  imports Store_Records Uart_Send Storage
begin

text \<open>
  The version 2 session store, \<open>session_store/store.py\<close>, above its files: a session is its metadata
  document and the records of its four evidence streams with the raw UART bytes and the detected patterns; an
  operation reads the document, builds a record, checks that it fits into the byte budget, rolls over to a
  successor session when it does not, and commits record and document as one unit.

  A unit is one durable step here. The step works or fails, as the schedule \<open>so_steps\<close> says; that a
  failing unit leaves the files as they were is the result of the theory on transactions. After a
  failure the store ends the session as failed, with a single write, which may fail before or
  after it took effect. Not modelled are failures of reads, a rollback that fails itself (the start-up recovery
  repairs it), and the deletion of old sessions.

  Parameters: the formatted clock and the identifiers of new sessions, one of each for every tick, the sizes of
  serialised records and documents, the text of an exception and the digest of a profile.
\<close>

section \<open>State\<close>

record v2_session =
  vs_metadata :: pydict
  vs_raw :: bytes
  vs_uart :: "pydict list"
  vs_operation :: "pydict list"
  vs_hardware :: "pydict list"
  vs_connection :: "pydict list"
  vs_patterns :: "pyval list"

datatype step_outcome = StepWorks | StepFails | StepFailsLate

record v2_store =
  so_sessions :: "ustr \<Rightarrow> v2_session option"
  so_tick :: nat
  so_steps :: "step_outcome list"
  so_profiles :: "ustr \<Rightarrow> dut_profile option"
  so_snapshots :: "ustr \<Rightarrow> backend_snapshot option"

record store_env =
  en_time :: "nat \<Rightarrow> ustr"
  en_new_id :: "nat \<Rightarrow> ustr"
  en_jsonl_size :: "pydict \<Rightarrow> nat"
  en_doc_size :: "pyval \<Rightarrow> nat"
  en_exc_text :: "exc \<Rightarrow> ustr"
  en_digest :: "dut_profile \<Rightarrow> ustr"
  en_budget :: int

type_synonym 'a store_op = "(v2_store, 'a) op"

record v2_admission = evidence_admission +
  va_rolled_over :: bool
  va_next_evidence_seq :: nat

definition lift_s :: "exc + 'a \<Rightarrow> ('s, 'a) op" where
  "lift_s r s = (r, s)"

definition read_clock :: "store_env \<Rightarrow> ustr store_op" where
  "read_clock E s = (Inr (en_time E (so_tick s)), s\<lparr>so_tick := Suc (so_tick s)\<rparr>)"

definition next_step :: "step_outcome store_op" where
  "next_step s =
     (Inr (case so_steps s of [] \<Rightarrow> StepWorks | r # _ \<Rightarrow> r), s\<lparr>so_steps := tl (so_steps s)\<rparr>)"

definition load_session :: "ustr \<Rightarrow> v2_session store_op" where
  "load_session sid s =
     (case so_sessions s sid of
        None \<Rightarrow> (Inl (SessionPersistenceError ''read'' True), s)
      | Some q \<Rightarrow> (Inr q, s))"

definition put_session :: "ustr \<Rightarrow> v2_session \<Rightarrow> unit store_op" where
  "put_session sid q s = (Inr (), s\<lparr>so_sessions := (so_sessions s)(sid \<mapsto> q)\<rparr>)"

text \<open>\<open>metadata.get("schema_version") != 2 or metadata.get("state") != "active"\<close>\<close>

definition is_active_v2 :: "pydict \<Rightarrow> bool" where
  "is_active_v2 m \<longleftrightarrow> py_eq_int (dict_get ''schema_version'' m) 2 \<and> dict_get ''state'' m = str_val ''active''"

definition require_active_v2_metadata :: "ustr \<Rightarrow> pydict store_op" where
  "require_active_v2_metadata sid =
     bind_s (load_session sid) (\<lambda>q.
       let m = vs_metadata q in
       if \<not> is_active_v2 m then raise_s (ValueError ''schema-v2 evidence can only append while active'')
       else if dict_get ''session_id'' m \<noteq> PStr sid then
         raise_s (ValueError ''schema-v2 handle does not match session metadata'')
       else return_s m)"

section \<open>Sizes\<close>

definition evidence_bytes :: "store_env \<Rightarrow> v2_session \<Rightarrow> nat" where
  "evidence_bytes E q =
     length (vs_raw q)
     + sum_list (map (en_jsonl_size E) (vs_uart q)) + sum_list (map (en_jsonl_size E) (vs_operation q))
     + sum_list (map (en_jsonl_size E) (vs_hardware q)) + sum_list (map (en_jsonl_size E) (vs_connection q))
     + en_doc_size E (PList (vs_patterns q))"

definition account_storage :: "store_env \<Rightarrow> v2_session \<Rightarrow> pydict \<Rightarrow> exc + pydict" where
  "account_storage E q m =
     (case dict_get ''storage'' m of
        PNone \<Rightarrow> Inr m
      | PDict storage \<Rightarrow>
          Inr (dict_put ''storage'' (PDict (dict_put ''evidence_bytes_written'' (PNat (evidence_bytes E q)) storage)) m)
      | _ \<Rightarrow> Inl (ValueError ''session metadata storage must be a JSON object''))"

definition require_metadata_capacity :: "store_env \<Rightarrow> pydict \<Rightarrow> exc + unit" where
  "require_metadata_capacity E m =
     (if en_doc_size E (PDict m) > METADATA_MAX_BYTES then
        Inl (ValueError ''session metadata exceeds its fixed size limit'')
      else Inr ())"

definition v2_unit_fits :: "pydict \<Rightarrow> int \<Rightarrow> exc + bool" where
  "v2_unit_fits m unit_bytes =
     bind_r (get_dict ''v2 storage metadata must be an object'' ''storage'' m) (\<lambda>storage.
       case (dict_get ''evidence_bytes_written'' storage, dict_get ''evidence_budget_bytes'' storage) of
         (PInt written, PInt budget) \<Rightarrow> Inr (written + unit_bytes \<le> budget)
       | _ \<Rightarrow> Inl (ValueError ''v2 evidence accounting is invalid''))"

section \<open>The end of a session\<close>

definition close_current_segment :: "ustr \<Rightarrow> ustr \<Rightarrow> pydict \<Rightarrow> exc + pydict" where
  "close_current_segment ended_at end_reason m =
     bind_r (last_segment ''native session must contain a current segment'' m) (\<lambda>(before, s).
       if dict_get ''ended_at'' s = PNone then
         if dict_get ''end_reason'' s \<noteq> PNone then
           Inl (ValueError ''open session segment cannot have an end reason'')
         else
           Inr (dict_put ''segments''
                 (PList (before @ [PDict (dict_put ''end_reason'' (PStr end_reason)
                                           (dict_put ''ended_at'' (PStr ended_at) s))])) m)
       else if dict_get ''end_reason'' s = PNone then
         Inl (ValueError ''closed session segment must have an end reason'')
       else Inr m)"

definition terminal_fields :: "session_state \<Rightarrow> ustr \<Rightarrow> pyval \<Rightarrow> pyval \<Rightarrow> ustr \<Rightarrow> pydict \<Rightarrow> pydict" where
  "terminal_fields state end_reason error truncation ended_at m =
     (let m' = dict_put ''error'' error (dict_put ''end_reason'' (PStr end_reason)
                 (dict_put ''ended_at'' (PStr ended_at) (dict_put ''state'' (str_val (state_word state)) m)))
      in
      if truncation = PNone then m'
      else dict_put ''truncation'' truncation (dict_put ''truncated'' (PBool True) m'))"

definition terminalize_session ::
  "store_env \<Rightarrow> ustr \<Rightarrow> session_state \<Rightarrow> ustr \<Rightarrow> pyval \<Rightarrow> pyval \<Rightarrow> (pydict \<Rightarrow> exc + pydict) \<Rightarrow> unit store_op" where
  "terminalize_session E sid state end_reason error truncation mutator =
     bind_s (load_session sid) (\<lambda>q.
       let m = vs_metadata q in
       if \<not> py_eq_int (dict_get ''schema_version'' m) 2 then
         raise_s (ValueError ''only schema-v2 sessions can be terminalized'')
       else if dict_get ''state'' m \<noteq> str_val ''active'' then
         raise_s (ValueError ''session lifecycle transition requires active state'')
       else
         bind_s (lift_s (bind_r (mutator m) relinquish_v2_ownership)) (\<lambda>m1.
         bind_s (read_clock E) (\<lambda>ended_at.
         bind_s (lift_s
           (bind_r (close_current_segment ended_at end_reason
                      (terminal_fields state end_reason error truncation ended_at m1)) (\<lambda>m2.
            bind_r (account_storage E q m2) (\<lambda>m3.
            bind_r (require_metadata_capacity E m3) (\<lambda>_. Inr m3))))) (\<lambda>m3.
         bind_s next_step (\<lambda>outcome.
         bind_s (if outcome = StepFails then return_s () else put_session sid (q\<lparr>vs_metadata := m3\<rparr>)) (\<lambda>_.
           if outcome \<noteq> StepWorks then raise_s (SessionPersistenceError ''write'' True)
           else (\<lambda>s. (Inr (), s\<lparr>so_profiles := (so_profiles s)(sid := None),
                              so_snapshots := (so_snapshots s)(sid := None)\<rparr>))))))))"

definition complete_session :: "store_env \<Rightarrow> ustr \<Rightarrow> ustr \<Rightarrow> unit store_op" where
  "complete_session E sid end_reason = terminalize_session E sid CompletedState end_reason PNone PNone Inr"

definition fail_session :: "store_env \<Rightarrow> ustr \<Rightarrow> ustr \<Rightarrow> ustr \<Rightarrow> ustr \<Rightarrow> unit store_op" where
  "fail_session E sid end_reason error_code detail =
     bind_s (lift_s (bounded_error (PStr error_code) (PStr detail))) (\<lambda>e.
       terminalize_session E sid FailedState end_reason (PDict e) PNone Inr)"

definition abandon_session :: "store_env \<Rightarrow> ustr \<Rightarrow> unit store_op" where
  "abandon_session E sid = terminalize_session E sid AbandonedState (lit ''service_restart'') PNone PNone Inr"

definition record_persistence_fault :: "pydict \<Rightarrow> exc + pydict" where
  "record_persistence_fault m =
     bind_r (get_dict ''v2 evidence_quality must be an object'' ''evidence_quality'' m) (\<lambda>quality.
       Inr (dict_put ''evidence_quality''
             (PDict (dict_put ''local_recording'' (str_val ''persistence_fault'') quality)) m))"

definition fail_on_persistence :: "store_env \<Rightarrow> ustr \<Rightarrow> exc \<Rightarrow> unit store_op" where
  "fail_on_persistence E sid cause =
     bind_s (lift_s (bounded_error (str_val ''persistence_fault'') (PStr (en_exc_text E cause)))) (\<lambda>e.
       terminalize_session E sid FailedState (lit ''persistence_error'') (PDict e) PNone record_persistence_fault)"

definition fail_active_v2_persistence :: "store_env \<Rightarrow> ustr \<Rightarrow> exc \<Rightarrow> unit store_op" where
  "fail_active_v2_persistence E sid cause =
     bind_s (load_session sid) (\<lambda>q.
       if \<not> is_active_v2 (vs_metadata q) then return_s () else fail_on_persistence E sid cause)"

section \<open>A commit\<close>

text \<open>
  The unit with its new records is \<open>q\<close> and the changed document is \<open>m\<close>. An exception before the
  step leaves everything as it was; a failing step ends the session.
\<close>

definition commit_unit_of :: "store_env \<Rightarrow> ustr \<Rightarrow> v2_session \<Rightarrow> exc + pydict \<Rightarrow> unit store_op" where
  "commit_unit_of E sid q m =
     bind_s (lift_s (bind_r m (\<lambda>m.
        bind_r (account_storage E q m) (\<lambda>m'.
        bind_r (require_metadata_capacity E m') (\<lambda>_. Inr m'))))) (\<lambda>m'.
     bind_s next_step (\<lambda>outcome.
       if outcome = StepWorks then put_session sid (q\<lparr>vs_metadata := m'\<rparr>)
       else
         let e = SessionPersistenceError ''append'' True in
         bind_s (fail_active_v2_persistence E sid e) (\<lambda>_. raise_s e)))"

section \<open>Creation\<close>

definition new_v2_session :: "pydict \<Rightarrow> v2_session" where
  "new_v2_session m =
     \<lparr>vs_metadata = m, vs_raw = [], vs_uart = [], vs_operation = [], vs_hardware = [],
      vs_connection = [], vs_patterns = []\<rparr>"

definition create_v2_session ::
  "store_env \<Rightarrow> dut_profile \<Rightarrow> backend_snapshot \<Rightarrow> ustr option \<Rightarrow> ustr store_op" where
  "create_v2_session E profile snapshot predecessor =
     (if en_budget E < MIN_V2_EVIDENCE_BUDGET_BYTES then
        raise_s (ValueError ''schema-v2 evidence budget is too small'')
      else if bi_mode (sn_info snapshot) \<noteq> dp_backend_mode profile then
        raise_s (ValueError ''v2 backend snapshot mode must match the DUT Profile'')
      else if sn_segment snapshot = None then
        raise_s (ValueError ''v2 session creation requires timestamp provenance'')
      else if Some (bi_port (sn_info snapshot)) \<noteq> dp_current_serial_port profile
           \<and> sl_strategy (dp_selector profile) \<noteq> UsbIdentity then
        raise_s (ValueError ''v2 backend snapshot port must match the DUT Profile'')
      else
        (\<lambda>s.
          (let sid = en_new_id E (so_tick s) in
           bind_s (read_clock E) (\<lambda>started_at.
           bind_s (lift_s (validate_session_id (PStr sid))) (\<lambda>_.
           bind_s (\<lambda>s. (Inr (so_sessions s sid), s)) (\<lambda>existing.
             if existing \<noteq> None then raise_s (OSError ''exists'')
             else
               let m = initial_v2_metadata (en_digest E) sid started_at profile snapshot (en_budget E) predecessor in
               bind_s (lift_s (require_metadata_capacity E m)) (\<lambda>_.
               bind_s next_step (\<lambda>outcome.
                 if outcome \<noteq> StepWorks then raise_s (SessionPersistenceError ''write'' True)
                 else
                   bind_s (put_session sid (new_v2_session m)) (\<lambda>_ s.
                     (Inr sid, s\<lparr>so_profiles := (so_profiles s)(sid \<mapsto> profile),
                               so_snapshots := (so_snapshots s)(sid \<mapsto> snapshot)\<rparr>))))))) s)))"

section \<open>Appending a record\<close>

datatype evidence_stream = OperationStream | HardwareStream | ConnectionStream

fun add_record :: "evidence_stream \<Rightarrow> pydict \<Rightarrow> v2_session \<Rightarrow> v2_session" where
  "add_record OperationStream r q = q\<lparr>vs_operation := vs_operation q @ [r]\<rparr>"
| "add_record HardwareStream r q = q\<lparr>vs_hardware := vs_hardware q @ [r]\<rparr>"
| "add_record ConnectionStream r q = q\<lparr>vs_connection := vs_connection q @ [r]\<rparr>"

type_synonym record_fields = "ustr \<Rightarrow> pydict \<Rightarrow> nat \<Rightarrow> exc + pydict"
type_synonym metadata_mutator = "pydict \<Rightarrow> v2_admission \<Rightarrow> exc + pydict"

text \<open>\<open>{**base, **fields}\<close>\<close>

definition dict_update :: "pydict \<Rightarrow> pydict \<Rightarrow> pydict" where
  "dict_update base extra = fold (\<lambda>(k, v) d. dict_set d k v) extra base"

definition v2_record ::
  "store_env \<Rightarrow> ustr \<Rightarrow> pydict \<Rightarrow> nat \<Rightarrow> ustr \<Rightarrow> record_fields \<Rightarrow> pydict store_op" where
  "v2_record E sid m evidence_seq record_type make_fields =
     bind_s (lift_s (make_fields sid m evidence_seq)) (\<lambda>record_fields.
     bind_s (read_clock E) (\<lambda>now.
       return_s (dict_update
         [(lit ''evidence_seq'', PNat evidence_seq), (lit ''type'', PStr record_type),
          (lit ''recorded_at'', PStr now)] record_fields)))"

text \<open>The next record of a session with the answer whether it fits.\<close>

definition preflight_record ::
  "store_env \<Rightarrow> ustr \<Rightarrow> pydict \<Rightarrow> ustr \<Rightarrow> record_fields \<Rightarrow> (nat \<times> pydict \<times> bool) store_op" where
  "preflight_record E sid m record_type make_fields =
     bind_s (lift_s (v2_next_sequence m)) (\<lambda>evidence_seq.
     bind_s (v2_record E sid m evidence_seq record_type make_fields) (\<lambda>r.
       if en_jsonl_size E r > MAX_V2_JSONL_RECORD_BYTES then
         raise_s (ValueError ''schema-v2 primary JSONL record exceeds its size limit'')
       else
         bind_s (lift_s (v2_unit_fits m (int (en_jsonl_size E r)))) (\<lambda>fits.
           return_s (evidence_seq, r, fits))))"

definition v2_record_will_rollover ::
  "store_env \<Rightarrow> ustr \<Rightarrow> pydict \<Rightarrow> ustr \<Rightarrow> record_fields \<Rightarrow> bool store_op" where
  "v2_record_will_rollover E sid m record_type make_fields =
     bind_s (preflight_record E sid m record_type make_fields) (\<lambda>(_, _, fits). return_s (\<not> fits))"

definition make_admission :: "ustr \<Rightarrow> nat \<Rightarrow> bool \<Rightarrow> nat \<Rightarrow> v2_admission" where
  "make_admission sid evidence_seq rolled_over next =
     \<lparr>va_session_id = sid, va_evidence_seq = evidence_seq, va_rolled_over = rolled_over,
      va_next_evidence_seq = next\<rparr>"

definition commit_record ::
  "store_env \<Rightarrow> ustr \<Rightarrow> evidence_stream \<Rightarrow> pydict \<Rightarrow> nat \<Rightarrow> pydict \<Rightarrow> bool \<Rightarrow> metadata_mutator \<Rightarrow> v2_admission store_op" where
  "commit_record E sid target m evidence_seq r rolled_over mutator =
     (let admission = make_admission sid evidence_seq rolled_over (evidence_seq + 1) in
      bind_s (load_session sid) (\<lambda>q.
      bind_s (commit_unit_of E sid (add_record target r q)
                (mutator (dict_put ''next_evidence_seq'' (PNat (evidence_seq + 1)) m) admission)) (\<lambda>_.
        return_s admission)))"

definition append_step ::
  "(ustr \<Rightarrow> string \<Rightarrow> ustr store_op) \<Rightarrow> store_env \<Rightarrow> ustr \<Rightarrow> evidence_stream \<Rightarrow> ustr \<Rightarrow> record_fields
     \<Rightarrow> metadata_mutator \<Rightarrow> v2_admission store_op" where
  "append_step rollover E sid target record_type make_fields mutator =
     bind_s (require_active_v2_metadata sid) (\<lambda>m.
     bind_s (preflight_record E sid m record_type make_fields) (\<lambda>(evidence_seq, r, fits).
       if fits then commit_record E sid target m evidence_seq r False mutator
       else
         bind_s (rollover sid ''rollover_size'') (\<lambda>sid'.
         bind_s (require_active_v2_metadata sid') (\<lambda>m'.
         bind_s (preflight_record E sid' m' record_type make_fields) (\<lambda>(evidence_seq', r', fits').
           if \<not> fits' then raise_s (SessionPersistenceError ''preflight v2 evidence'' True)
           else commit_record E sid' target m' evidence_seq' r' True mutator)))))"

section \<open>Rollover\<close>

text \<open>
  The open operations of the predecessor, with their last range closed at its end; the successor takes them
  over one by one, each with a record of its own.
\<close>

fun carried_operations :: "nat \<Rightarrow> pydict \<Rightarrow> exc + (ustr \<times> pyval \<times> pydict list) list" where
  "carried_operations end_seq [] = Inr []"
| "carried_operations end_seq ((operation_id, v) # rest) =
     (case v of
        PDict operation \<Rightarrow>
          bind_r (operation_ranges ''v2 active operation ranges are malformed''
                    ''v2 active operation range is malformed'' operation) (\<lambda>ranges.
          bind_r (carried_operations end_seq rest) (\<lambda>others.
            Inr ((operation_id, dict_get ''operation_type'' operation, close_last end_seq ranges) # others)))
      | _ \<Rightarrow> Inl (ValueError ''v2 active operation metadata is malformed''))"

definition open_range :: "v2_admission \<Rightarrow> pydict" where
  "open_range a =
     [(lit ''session_id'', PStr (va_session_id a)), (lit ''start_evidence_seq'', PNat (va_evidence_seq a)),
      (lit ''end_evidence_seq_exclusive'', PNone)]"

definition operation_entry :: "pyval \<Rightarrow> pydict list \<Rightarrow> pyval" where
  "operation_entry operation_type ranges =
     PDict [(lit ''operation_type'', operation_type), (lit ''ranges'', PList (map PDict ranges))]"

definition add_count :: "string \<Rightarrow> int \<Rightarrow> pydict \<Rightarrow> exc + pydict" where
  "add_count key d summary =
     bind_r (v2_count summary key) (\<lambda>n. Inr (dict_put key (PInt (int n + d)) summary))"

definition with_operations ::
  "(pydict \<Rightarrow> pydict \<Rightarrow> exc + (pydict \<times> pydict)) \<Rightarrow> pydict \<Rightarrow> exc + pydict" where
  "with_operations change m =
     bind_r (get_dict ''v2 operation metadata is malformed'' ''active_operations'' m) (\<lambda>ops.
     bind_r (get_dict ''v2 operation metadata is malformed'' ''operation_summary'' m) (\<lambda>summary.
     bind_r (change ops summary) (\<lambda>(ops', summary').
       Inr (dict_put ''operation_summary'' (PDict summary') (dict_put ''active_operations'' (PDict ops') m)))))"

definition continue_operation :: "ustr \<Rightarrow> pyval \<Rightarrow> pydict list \<Rightarrow> metadata_mutator" where
  "continue_operation operation_id operation_type previous_ranges m a =
     with_operations (\<lambda>ops summary.
       bind_r (add_count ''active'' 1 summary) (\<lambda>summary'.
         Inr (dict_set ops operation_id (operation_entry operation_type (previous_ranges @ [open_range a])),
              summary'))) m"

type_synonym appender =
  "ustr \<Rightarrow> evidence_stream \<Rightarrow> ustr \<Rightarrow> record_fields \<Rightarrow> metadata_mutator \<Rightarrow> v2_admission store_op"

fun continue_operations ::
  "appender \<Rightarrow> ustr \<Rightarrow> ustr \<Rightarrow> (ustr \<times> pyval \<times> pydict list) list \<Rightarrow> ustr store_op" where
  "continue_operations app previous sid [] = return_s sid"
| "continue_operations app previous sid ((operation_id, operation_type, ranges) # rest) =
     bind_s (app sid OperationStream (lit ''operation_continued'')
               (\<lambda>_ _ _. Inr [(lit ''operation_id'', PStr operation_id), (lit ''operation_type'', operation_type),
                             (lit ''previous_session_id'', PStr previous)])
               (continue_operation operation_id operation_type ranges)) (\<lambda>a.
       continue_operations app previous (va_session_id a) rest)"

text \<open>
  A segment that was closed before the rollover stays closed in the successor: the rollover is not a
  physical reopening. On an ill-typed document the subscripts of this code raise one of several untyped
  exceptions; the model has \<open>TypeError\<close> for all of them.
\<close>

definition carry_segment :: "pydict \<Rightarrow> pydict \<Rightarrow> pydict" where
  "carry_segment prior s =
     fold (\<lambda>key d. case map_of prior (lit key) of None \<Rightarrow> d | Some v \<Rightarrow> dict_put key v d)
       [''started_at'', ''ended_at'', ''end_reason'', ''start_reason''] s"

definition transfer_rollover_ownership :: "pydict \<Rightarrow> pydict \<Rightarrow> bool \<Rightarrow> metadata_mutator" where
  "transfer_rollover_ownership pending_attempts prior_segment reopened m a =
     (let m1 = dict_put ''pending_attempts'' (PDict pending_attempts) m in
      if \<not> reopened \<and> dict_get ''ended_at'' prior_segment \<noteq> PNone then
        (case (dict_get ''segments'' m1, dict_get ''continuity'' m1) of
           (PList (PDict s # rest), PDict continuity) \<Rightarrow>
             Inr (dict_put ''continuity'' (PDict (dict_put ''observation_gap_count'' (PInt 1) continuity))
                   (dict_put ''segments'' (PList (PDict (carry_segment prior_segment s) # rest)) m1))
         | _ \<Rightarrow> Inl (TypeError ''object does not support item assignment''))
      else Inr m1)"

fun close_operations :: "nat \<Rightarrow> pydict \<Rightarrow> exc + unit" where
  "close_operations end_seq [] = Inr ()"
| "close_operations end_seq ((_, v) # rest) =
     (case v of
        PDict operation \<Rightarrow>
          (case dict_get ''ranges'' operation of
             PList ranges \<Rightarrow>
               if ranges = [] then Inl (ValueError ''v2 active operation ranges are malformed'')
               else (case last ranges of
                       PDict _ \<Rightarrow> close_operations end_seq rest
                     | _ \<Rightarrow> Inl (ValueError ''v2 active operation ranges are malformed''))
           | _ \<Rightarrow> Inl (ValueError ''v2 active operation ranges are malformed''))
      | _ \<Rightarrow> Inl (ValueError ''v2 active operation metadata is malformed''))"

text \<open>
  The predecessor gives its operations and attempts away. The closed ranges it computes for them are dropped
  with the dictionary that holds them.
\<close>

definition link_successor :: "ustr \<Rightarrow> pydict \<Rightarrow> exc + pydict" where
  "link_successor successor m =
     (let m1 = dict_put ''successor_session_id'' (PStr successor) m in
      bind_r (get_dict ''v2 operation metadata is malformed'' ''active_operations'' m1) (\<lambda>ops.
      bind_r (get_dict ''v2 operation metadata is malformed'' ''operation_summary'' m1) (\<lambda>summary.
      bind_r (get_dict ''v2 pending_attempts must be an object'' ''pending_attempts'' m1) (\<lambda>_.
      bind_r (if ops = [] then Inr () else
                bind_r (v2_next_sequence m1) (\<lambda>end_seq. close_operations end_seq ops)) (\<lambda>_.
      bind_r (v2_count summary ''active'') (\<lambda>count.
        if count \<noteq> length ops then
          Inl (ValueError ''v2 active operation summary disagrees with ownership'')
        else
          Inr (dict_put ''pending_attempts'' (PDict [])
                (dict_put ''active_operations'' (PDict [])
                  (dict_put ''operation_summary'' (PDict (dict_put ''active'' (PInt 0) summary)) m1)))))))))"

text \<open>\<open>except SessionPersistenceError\<close> around a piece of code.\<close>

definition on_persistence_error :: "(exc \<Rightarrow> unit store_op) \<Rightarrow> 'a store_op \<Rightarrow> 'a store_op" where
  "on_persistence_error handler c =
     bind_s (try_s c) (\<lambda>r.
       case r of
         Inr a \<Rightarrow> return_s a
       | Inl e \<Rightarrow> if is_persistence_error e then bind_s (handler e) (\<lambda>_. raise_s e) else raise_s e)"

definition profile_and_snapshot :: "ustr \<Rightarrow> backend_snapshot option \<Rightarrow> (dut_profile \<times> backend_snapshot) store_op" where
  "profile_and_snapshot sid successor_snapshot s =
     (case (so_profiles s sid, if successor_snapshot \<noteq> None then successor_snapshot else so_snapshots s sid) of
        (Some p, Some q) \<Rightarrow> (Inr (p, q), s)
      | _ \<Rightarrow> (Inl (SessionPersistenceError ''create v2 successor'' True), s))"

definition rollover_step ::
  "appender \<Rightarrow> store_env \<Rightarrow> ustr \<Rightarrow> string \<Rightarrow> backend_snapshot option \<Rightarrow> ustr store_op" where
  "rollover_step app E sid end_reason successor_snapshot =
     bind_s (require_active_v2_metadata sid) (\<lambda>m.
     bind_s (lift_s (v2_pending_attempts m)) (\<lambda>pending_attempts.
     bind_s (lift_s (
        bind_r (get_dict ''v2 active_operations must be an object'' ''active_operations'' m) (\<lambda>ops.
          if ops = [] then Inr []
          else bind_r (v2_next_sequence m) (\<lambda>end_seq. carried_operations end_seq ops)))) (\<lambda>operations.
     bind_s (profile_and_snapshot sid successor_snapshot) (\<lambda>(profile, snapshot).
     bind_s (on_persistence_error (fail_on_persistence E sid)
               (create_v2_session E profile snapshot (Some sid))) (\<lambda>successor.
     bind_s (on_persistence_error (fail_active_v2_persistence E sid)
       (bind_s (app successor ConnectionStream (lit ''rollover_succeeded'')
          (\<lambda>_ updated _. bind_r (current_v2_segment_id updated) (\<lambda>segment_id.
             Inr [(lit ''segment_id'', PNat segment_id),
                  (lit ''detail'', PDict [(lit ''predecessor_session_id'', PStr sid),
                                          (lit ''reason'', str_val end_reason)])]))
          (\<lambda>updated a.
             bind_r (catch_r (\<lambda>_. True) (\<lambda>_. TypeError ''malformed segments'') (last_segment ''segments'' m)) (\<lambda>(_, prior_segment).
               transfer_rollover_ownership pending_attempts prior_segment (successor_snapshot \<noteq> None) updated a))) (\<lambda>a.
        continue_operations app sid (va_session_id a) operations))) (\<lambda>successor.
     bind_s (terminalize_session E sid CompletedState (lit end_reason) PNone PNone (link_successor successor)) (\<lambda>_.
       return_s successor)))))))"

text \<open>
  The two call each other: a record that does not fit rolls the session over, and the rollover writes records
  into the successor, which may be full in turn. \<open>n\<close> bounds the depth, as the interpreter does.
\<close>

primrec append_v2_record :: "nat \<Rightarrow> store_env \<Rightarrow> appender" where
  "append_v2_record 0 E = append_step (\<lambda>_ _. raise_s RecursionError) E"
| "append_v2_record (Suc n) E =
     append_step (\<lambda>sid reason. rollover_step (append_v2_record n E) E sid reason None) E"

definition rollover_v2 :: "nat \<Rightarrow> store_env \<Rightarrow> ustr \<Rightarrow> string \<Rightarrow> backend_snapshot option \<Rightarrow> ustr store_op" where
  "rollover_v2 n E = rollover_step (append_v2_record n E) E"

end
