(* ===== verification/Store_Operations.thy ===== *)
theory Store_Operations
  imports Evidence_Store
begin

text \<open>
  The public operations of the version 2 session store that add evidence: operations (a monitor or an
  interaction) start and end, attempts to act on the device are recorded before they are made and their results
  after, and connection events, segments, telemetry and received bytes are admitted. Each is the code's
  checks around one call of \<open>append_v2_record\<close>, except for received bytes, whose unit has several
  records. Checks on the Python type of an argument are the model's types. The retention leases of
  open monitor readers, which only delay the deletion of old sessions, are not modelled.
\<close>

section \<open>Operations\<close>

definition operation_id_unused :: "ustr \<Rightarrow> ustr \<Rightarrow> unit store_op" where
  "operation_id_unused sid operation_id =
     bind_s (require_active_v2_metadata sid) (\<lambda>m.
     bind_s (load_session sid) (\<lambda>q.
     bind_s (lift_s (get_dict ''v2 active_operations must be an object'' ''active_operations'' m)) (\<lambda>active.
     bind_s (if map_of active operation_id \<noteq> None then return_s True
             else lift_s (v2_operation_id_seen operation_id (vs_operation q))) (\<lambda>used.
       if used then raise_s (ValueError ''v2 operation ID has already been used'') else return_s ()))))"

definition start_fields :: "ustr \<Rightarrow> ustr \<Rightarrow> pydict \<Rightarrow> record_fields" where
  "start_fields operation_id operation_type parameters sid m evidence_seq =
     Inr [(lit ''operation_id'', PStr operation_id), (lit ''operation_type'', PStr operation_type),
          (lit ''parameters'', PDict parameters),
          (lit ''start_cursor'', PDict [(lit ''session_id'', PStr sid),
                                        (lit ''next_evidence_seq'', PNat (evidence_seq + 1))])]"

definition operation_started :: "ustr \<Rightarrow> ustr \<Rightarrow> metadata_mutator" where
  "operation_started operation_id operation_type m a =
     with_operations (\<lambda>ops summary.
       if map_of ops operation_id \<noteq> None then Inl (ValueError ''v2 operation ID has already been used'')
       else
         bind_r (add_count ''started'' 1 summary) (\<lambda>s1.
         bind_r (add_count ''active'' 1 s1) (\<lambda>s2.
           Inr (dict_set ops operation_id (operation_entry (PStr operation_type) [open_range a]), s2)))) m"

definition check_operation_start :: "ustr \<Rightarrow> ustr \<Rightarrow> exc + unit" where
  "check_operation_start operation_id operation_type =
     bind_r (validate_v2_identifier (PStr operation_id)) (\<lambda>_.
       if operation_type \<notin> {lit ''monitor'', lit ''interact''} then
         Inl (ValueError ''unsupported v2 operation type'')
       else Inr ())"

definition start_v2_operation ::
  "nat \<Rightarrow> store_env \<Rightarrow> ustr \<Rightarrow> ustr \<Rightarrow> ustr \<Rightarrow> pydict \<Rightarrow> v2_admission store_op" where
  "start_v2_operation n E sid operation_id operation_type parameters =
     bind_s (lift_s (check_operation_start operation_id operation_type)) (\<lambda>_.
     bind_s (operation_id_unused sid operation_id) (\<lambda>_.
       append_v2_record n E sid OperationStream (lit ''operation_started'')
         (start_fields operation_id operation_type parameters) (operation_started operation_id operation_type)))"

definition v2_operation_start_will_rollover ::
  "store_env \<Rightarrow> ustr \<Rightarrow> ustr \<Rightarrow> ustr \<Rightarrow> pydict \<Rightarrow> bool store_op" where
  "v2_operation_start_will_rollover E sid operation_id operation_type parameters =
     bind_s (lift_s (check_operation_start operation_id operation_type)) (\<lambda>_.
     bind_s (operation_id_unused sid operation_id) (\<lambda>_.
     bind_s (require_active_v2_metadata sid) (\<lambda>m.
       v2_record_will_rollover E sid m (lit ''operation_started'')
         (start_fields operation_id operation_type parameters))))"

definition operation_is_active :: "ustr \<Rightarrow> ustr \<Rightarrow> pydict store_op" where
  "operation_is_active sid operation_id =
     bind_s (require_active_v2_metadata sid) (\<lambda>m.
       case dict_get ''active_operations'' m of
         PDict active \<Rightarrow>
           (case map_of active operation_id of
              Some (PDict _) \<Rightarrow> return_s m
            | _ \<Rightarrow> raise_s (ValueError ''v2 operation is not active''))
       | _ \<Rightarrow> raise_s (ValueError ''v2 operation is not active''))"

definition operation_terminal_fields ::
  "ustr \<Rightarrow> ustr \<Rightarrow> pyval \<Rightarrow> pyval \<Rightarrow> pyval \<Rightarrow> record_fields" where
  "operation_terminal_fields operation_id outcome operation_error matched_projection limited sid m terminal_seq =
     bind_r (v2_active_operation m operation_id) (\<lambda>operation.
     bind_r (v2_terminal_ranges operation terminal_seq) (\<lambda>ranges.
       Inr [(lit ''operation_id'', PStr operation_id),
            (lit ''operation_type'', dict_get ''operation_type'' operation),
            (lit ''outcome'', PStr outcome), (lit ''error'', operation_error),
            (lit ''matched_condition'', matched_projection), (lit ''line_processing_limited'', limited),
            (lit ''end_cursor'', PDict [(lit ''session_id'', PStr sid),
                                        (lit ''next_evidence_seq'', PNat (terminal_seq + 1))]),
            (lit ''evidence_ranges'', PList (map PDict ranges))]))"

definition operation_ended :: "ustr \<Rightarrow> ustr \<Rightarrow> metadata_mutator" where
  "operation_ended operation_id outcome m a =
     with_operations (\<lambda>ops summary.
       if map_of ops operation_id = None then Inl KeyError
       else
         bind_r (add_count ''active'' (- 1) summary) (\<lambda>s1.
         bind_r (add_count (if outcome = lit ''error'' then ''failed'' else ''completed'') 1 s1) (\<lambda>s2.
           Inr (dict_pop ops operation_id, s2)))) m"

definition complete_v2_operation ::
  "nat \<Rightarrow> store_env \<Rightarrow> ustr \<Rightarrow> ustr \<Rightarrow> ustr \<Rightarrow> pyval \<Rightarrow> pyval \<Rightarrow> pyval \<Rightarrow> v2_admission store_op" where
  "complete_v2_operation n E sid operation_id outcome error matched_condition limited =
     bind_s (lift_s (validate_v2_identifier (PStr operation_id))) (\<lambda>_.
     bind_s (lift_s (v2_terminal_projection outcome error matched_condition limited)) (\<lambda>(operation_error, matched_projection).
     bind_s (operation_is_active sid operation_id) (\<lambda>_.
       append_v2_record n E sid OperationStream (lit ''operation_terminal'')
         (operation_terminal_fields operation_id outcome operation_error matched_projection limited)
         (operation_ended operation_id outcome))))"

definition v2_operation_terminal_will_rollover ::
  "store_env \<Rightarrow> ustr \<Rightarrow> ustr \<Rightarrow> ustr \<Rightarrow> pyval \<Rightarrow> pyval \<Rightarrow> pyval \<Rightarrow> bool store_op" where
  "v2_operation_terminal_will_rollover E sid operation_id outcome error matched_condition limited =
     bind_s (lift_s (validate_v2_identifier (PStr operation_id))) (\<lambda>_.
     bind_s (lift_s (v2_terminal_projection outcome error matched_condition limited)) (\<lambda>(operation_error, matched_projection).
     bind_s (operation_is_active sid operation_id) (\<lambda>m.
       v2_record_will_rollover E sid m (lit ''operation_terminal'')
         (operation_terminal_fields operation_id outcome operation_error matched_projection limited))))"

fun find_v2_operation_terminal :: "ustr \<Rightarrow> pydict list \<Rightarrow> exc + pydict" where
  "find_v2_operation_terminal operation_id [] = Inl (ValueError ''v2 operation terminal record was not found'')"
| "find_v2_operation_terminal operation_id (r # rs) =
     (if dict_get ''type'' r = str_val ''operation_terminal'' \<and> dict_get ''operation_id'' r = PStr operation_id
      then Inr r else find_v2_operation_terminal operation_id rs)"

definition load_v2_operation_terminal :: "ustr \<Rightarrow> ustr \<Rightarrow> pydict store_op" where
  "load_v2_operation_terminal sid operation_id =
     bind_s (lift_s (validate_session_id (PStr sid))) (\<lambda>_.
     bind_s (lift_s (validate_v2_identifier (PStr operation_id))) (\<lambda>_.
     bind_s (load_session sid) (\<lambda>q. lift_s (find_v2_operation_terminal operation_id (rev (vs_operation q))))))"

section \<open>Attempts and results\<close>

fun attempt_stream :: "attempt_type \<Rightarrow> evidence_stream" where
  "attempt_stream UartTxAttempt = OperationStream"
| "attempt_stream ControlAttempt = HardwareStream"

fun attempt_records :: "attempt_type \<Rightarrow> v2_session \<Rightarrow> pydict list" where
  "attempt_records UartTxAttempt q = vs_operation q"
| "attempt_records ControlAttempt q = vs_hardware q"

definition pending_entry :: "attempt_type \<Rightarrow> ustr \<Rightarrow> v2_admission \<Rightarrow> pydict" where
  "pending_entry t attempt_id a =
     [(lit ''attempt_type'', str_val (attempt_name t)), (lit ''attempt_id'', PStr attempt_id),
      (lit ''session_id'', PStr (va_session_id a)), (lit ''evidence_seq'', PNat (va_evidence_seq a))]"

definition record_pending_attempt :: "attempt_type \<Rightarrow> ustr \<Rightarrow> metadata_mutator" where
  "record_pending_attempt t attempt_id m a =
     bind_r (v2_pending_attempts m) (\<lambda>waiting.
       let key = v2_attempt_key (lit (attempt_name t)) attempt_id in
       if map_of waiting key \<noteq> None then Inl (ValueError ''v2 attempt ID must be unique'')
       else Inr (dict_put ''pending_attempts'' (PDict (dict_set waiting key (PDict (pending_entry t attempt_id a)))) m))"

definition append_v2_attempt ::
  "nat \<Rightarrow> store_env \<Rightarrow> ustr \<Rightarrow> attempt_type \<Rightarrow> ustr \<Rightarrow> ustr option \<Rightarrow> pydict \<Rightarrow> v2_admission store_op" where
  "append_v2_attempt n E sid t attempt_id operation_id payload =
     bind_s (load_session sid) (\<lambda>q.
     bind_s (lift_s (v2_attempt_ids sid t [] [] (attempt_records t q))) (\<lambda>(seen, _).
       if attempt_id \<in> set seen then raise_s (ValueError ''v2 attempt ID must be unique'')
       else
     bind_s (require_active_v2_metadata sid) (\<lambda>m.
     bind_s (lift_s (require_v2_operation_active m operation_id)) (\<lambda>_.
     bind_s (lift_s (v2_pending_attempt m t attempt_id)) (\<lambda>waiting.
       if waiting \<noteq> None then raise_s (ValueError ''v2 attempt ID must be unique'')
       else
         append_v2_record n E sid (attempt_stream t) (lit (attempt_name t))
           (\<lambda>_ updated _. bind_r (current_v2_segment_id updated) (\<lambda>segment_id.
              Inr ([(lit ''attempt_id'', PStr attempt_id), (lit ''operation_id'', opt_str operation_id)] @ payload
                   @ [(lit ''segment_id'', PNat segment_id)])))
           (record_pending_attempt t attempt_id))))))"

definition opt_identifier :: "ustr option \<Rightarrow> exc + unit" where
  "opt_identifier v =
     (case v of None \<Rightarrow> Inr () | Some s \<Rightarrow> bind_r (validate_v2_identifier (PStr s)) (\<lambda>_. Inr ()))"

definition append_v2_uart_tx_attempt ::
  "nat \<Rightarrow> store_env \<Rightarrow> ustr \<Rightarrow> ustr \<Rightarrow> bytes \<Rightarrow> ustr option \<Rightarrow> pydict \<Rightarrow> v2_admission store_op" where
  "append_v2_uart_tx_attempt n E sid attempt_id data operation_id transformation =
     bind_s (lift_s (validate_v2_identifier (PStr attempt_id))) (\<lambda>_.
     bind_s (lift_s (opt_identifier operation_id)) (\<lambda>_.
       if data = [] \<or> length data > 1024 then
         raise_s (ValueError ''v2 UART TX payload must contain 1..1024 bytes'')
       else
         append_v2_attempt n E sid UartTxAttempt attempt_id operation_id
           [(lit ''data_b64'', PStr (b64encode_str data)), (lit ''byte_length'', PNat (length data)),
            (lit ''transformation'', PDict transformation)]))"

definition append_v2_control_attempt ::
  "nat \<Rightarrow> store_env \<Rightarrow> ustr \<Rightarrow> ustr \<Rightarrow> ustr \<Rightarrow> ustr \<Rightarrow> pydict \<Rightarrow> ustr option \<Rightarrow> v2_admission store_op" where
  "append_v2_control_attempt n E sid attempt_id role provider parameters operation_id =
     bind_s (lift_s (validate_v2_identifier (PStr attempt_id))) (\<lambda>_.
     bind_s (lift_s (validate_v2_identifier (PStr role))) (\<lambda>_.
     bind_s (lift_s (validate_v2_identifier (PStr provider))) (\<lambda>_.
     bind_s (lift_s (opt_identifier operation_id)) (\<lambda>_.
       append_v2_attempt n E sid ControlAttempt attempt_id operation_id
         [(lit ''role'', PStr role), (lit ''provider'', PStr provider),
          (lit ''parameters'', PDict parameters)]))))"

definition resolve_attempt :: "attempt_type \<Rightarrow> ustr \<Rightarrow> metadata_mutator" where
  "resolve_attempt t attempt_id m a =
     bind_r (v2_pending_attempts m) (\<lambda>waiting.
       let key = v2_attempt_key (lit (attempt_name t)) attempt_id in
       if map_of waiting key = None then Inl KeyError
       else Inr (dict_put ''pending_attempts'' (PDict (dict_pop waiting key)) m))"

definition result_fields :: "attempt_type \<Rightarrow> ustr \<Rightarrow> pydict \<Rightarrow> record_fields" where
  "result_fields t attempt_id payload sid m evidence_seq =
     bind_r (v2_pending_attempt m t attempt_id) (\<lambda>attempt.
       case attempt of
         None \<Rightarrow> Inl (ValueError ''v2 result requires a preceding unresolved attempt'')
       | Some d \<Rightarrow>
           Inr ([(lit ''attempt_id'', PStr attempt_id),
                 (lit ''attempt_session_id'', dict_get ''session_id'' d),
                 (lit ''attempt_evidence_seq'', dict_get ''evidence_seq'' d)] @ payload))"

definition append_v2_result ::
  "nat \<Rightarrow> store_env \<Rightarrow> ustr \<Rightarrow> attempt_type \<Rightarrow> ustr \<Rightarrow> pydict \<Rightarrow> v2_admission store_op" where
  "append_v2_result n E sid t attempt_id payload =
     bind_s (require_active_v2_metadata sid) (\<lambda>m.
     bind_s (lift_s (v2_pending_attempt m t attempt_id)) (\<lambda>waiting.
       if waiting = None then raise_s (ValueError ''v2 result requires a preceding unresolved attempt'')
       else
         append_v2_record n E sid (attempt_stream t) (lit (attempt_result_name t))
           (result_fields t attempt_id payload) (resolve_attempt t attempt_id)))"

definition append_v2_uart_tx_result ::
  "nat \<Rightarrow> store_env \<Rightarrow> ustr \<Rightarrow> ustr \<Rightarrow> ustr \<Rightarrow> int option \<Rightarrow> v2_admission store_op" where
  "append_v2_uart_tx_result n E sid attempt_id status accepted_bytes =
     bind_s (lift_s (validate_v2_identifier (PStr attempt_id))) (\<lambda>_.
     bind_s (lift_s (validate_v2_identifier (PStr status))) (\<lambda>_.
       if (case accepted_bytes of None \<Rightarrow> False | Some k \<Rightarrow> k < 0) then
         raise_s (ValueError ''accepted_bytes must be a non-negative integer or null'')
       else
         append_v2_result n E sid UartTxAttempt attempt_id
           [(lit ''status'', PStr status), (lit ''accepted_bytes'', opt_int accepted_bytes)]))"

definition append_v2_control_result ::
  "nat \<Rightarrow> store_env \<Rightarrow> ustr \<Rightarrow> ustr \<Rightarrow> ustr \<Rightarrow> int option \<Rightarrow> v2_admission store_op" where
  "append_v2_control_result n E sid attempt_id status device_timestamp_us =
     bind_s (lift_s (validate_v2_identifier (PStr attempt_id))) (\<lambda>_.
     bind_s (lift_s (validate_v2_identifier (PStr status))) (\<lambda>_.
       append_v2_result n E sid ControlAttempt attempt_id
         [(lit ''status'', PStr status), (lit ''device_timestamp_us'', opt_int device_timestamp_us)]))"

section \<open>Actions before they are recorded\<close>

definition action_fields :: "ustr \<Rightarrow> pydict \<Rightarrow> record_fields" where
  "action_fields record_type given sid m evidence_seq =
     (if suffix (lit ''_attempt'') record_type then
        bind_r (current_v2_segment_id m) (\<lambda>segment_id. Inr (dict_put ''segment_id'' (PNat segment_id) given))
      else
        (case dict_get ''attempt_id'' given of
           PStr attempt_id \<Rightarrow>
             bind_r (v2_pending_attempt m
                       (if record_type = lit ''uart_tx_result'' then UartTxAttempt else ControlAttempt) attempt_id)
               (\<lambda>attempt.
                  case attempt of
                    None \<Rightarrow> Inl (ValueError ''action result requires an unresolved attempt'')
                  | Some d \<Rightarrow>
                      Inr (dict_put ''attempt_evidence_seq'' (dict_get ''evidence_seq'' d)
                            (dict_put ''attempt_session_id'' (dict_get ''session_id'' d) given)))
         | _ \<Rightarrow> Inl (ValueError ''action attempt_id must be a string'')))"

definition v2_action_will_rollover :: "store_env \<Rightarrow> ustr \<Rightarrow> ustr \<Rightarrow> pydict \<Rightarrow> bool store_op" where
  "v2_action_will_rollover E sid record_type given =
     bind_s (require_active_v2_metadata sid) (\<lambda>m.
       v2_record_will_rollover E sid m record_type (action_fields record_type given))"

section \<open>Connections and segments\<close>

definition update_continuity :: "ustr \<Rightarrow> ustr \<Rightarrow> metadata_mutator" where
  "update_continuity event_type disconnected_at m a =
     (if event_type \<in> {lit ''reconnect_succeeded'', lit ''reacquire_succeeded''} then
        bind_r (catch_r (\<lambda>_. True) (\<lambda>_. TypeError ''malformed segments'') (last_segment ''segments'' m)) (\<lambda>(before, s).
          Inr (dict_put ''segments''
                (PList (before @ [PDict (dict_put ''start_reason''
                  (str_val (if event_type = lit ''reacquire_succeeded'' then ''reacquire'' else ''reconnect'')) s)])) m))
      else if event_type \<notin> {lit ''unexpected_disconnect'', lit ''released''} then Inr m
      else
        bind_r (get_dict ''v2 continuity must be an object'' ''continuity'' m) (\<lambda>continuity.
          case dict_get ''observation_gap_count'' continuity of
            PInt count \<Rightarrow>
              if count < 0 then Inl (ValueError ''v2 observation gap count is invalid'')
              else
                let m1 = dict_put ''continuity'' (PDict (dict_put ''observation_gap_count'' (PInt (count + 1)) continuity)) m in
                bind_r (last_segment ''v2 session segments are malformed'' m1) (\<lambda>(before, s).
                  if dict_get ''ended_at'' s = PNone then
                    Inr (dict_put ''segments''
                          (PList (before @ [PDict (dict_put ''end_reason'' (PStr event_type)
                                                    (dict_put ''ended_at'' (PStr disconnected_at) s))])) m1)
                  else Inr m1)
          | _ \<Rightarrow> Inl (ValueError ''v2 observation gap count is invalid'')))"

definition append_v2_connection_event ::
  "nat \<Rightarrow> store_env \<Rightarrow> ustr \<Rightarrow> ustr \<Rightarrow> nat option \<Rightarrow> pydict \<Rightarrow> v2_admission store_op" where
  "append_v2_connection_event n E sid event_type segment_id detail =
     bind_s (lift_s (validate_v2_identifier (PStr event_type))) (\<lambda>_.
     bind_s (require_active_v2_metadata sid) (\<lambda>m.
     bind_s (case segment_id of None \<Rightarrow> return_s True
             | Some i \<Rightarrow> bind_s (lift_s (current_v2_segment_id m)) (\<lambda>j. return_s (i = j))) (\<lambda>same.
       if \<not> same then raise_s (ValueError ''v2 connection event must reference the current segment'')
       else
     bind_s (read_clock E) (\<lambda>disconnected_at.
       append_v2_record n E sid ConnectionStream event_type
         (\<lambda>_ updated _.
            bind_r (if segment_id = None then Inr PNone
                    else bind_r (current_v2_segment_id updated) (\<lambda>i. Inr (PNat i))) (\<lambda>v.
              Inr [(lit ''segment_id'', v), (lit ''detail'', PDict detail)]))
         (update_continuity event_type disconnected_at)))))"

definition with_segment_id :: "nat \<Rightarrow> backend_snapshot \<Rightarrow> backend_snapshot" where
  "with_segment_id i snapshot =
     snapshot\<lparr>sn_segment := map_option (\<lambda>c. c\<lparr>sc_segment_id := i\<rparr>) (sn_segment snapshot)\<rparr>"

definition publish_segment :: "backend_snapshot \<Rightarrow> ustr \<Rightarrow> metadata_mutator" where
  "publish_segment snapshot started_at m a =
     bind_r (last_segment ''v2 session segments are malformed'' m) (\<lambda>(before, s).
       let s' = (if dict_get ''ended_at'' s = PNone then
                   dict_put ''end_reason'' (str_val ''reconnect'') (dict_put ''ended_at'' (PStr started_at) s)
                 else s);
           new = backend_segment_json (with_segment_id (length before + 1) snapshot) started_at
       in Inr (dict_put ''segments'' (PList (before @ [PDict s', PDict new])) m))"

definition segment_count :: "pydict \<Rightarrow> exc + nat" where
  "segment_count m =
     (case dict_get ''segments'' m of
        PList vs \<Rightarrow>
          if vs = [] then Inl (ValueError ''v2 session must contain a current segment'') else Inr (length vs)
      | _ \<Rightarrow> Inl (ValueError ''v2 session must contain a current segment''))"

definition append_v2_segment :: "nat \<Rightarrow> store_env \<Rightarrow> ustr \<Rightarrow> backend_snapshot \<Rightarrow> ustr store_op" where
  "append_v2_segment n E sid snapshot =
     (case sn_segment snapshot of
        None \<Rightarrow> raise_s (ValueError ''v2 segment requires timestamp provenance'')
      | Some context \<Rightarrow>
          bind_s (require_active_v2_metadata sid) (\<lambda>m.
          bind_s (lift_s (segment_count m)) (\<lambda>expected_id.
            if sc_segment_id context \<noteq> expected_id then
              raise_s (ValueError ''v2 segment ID must be the next contiguous ID'')
            else if expected_id = MAX_SESSION_SEGMENTS then
              rollover_v2 n E sid ''rollover_segments'' (Some (with_segment_id 0 snapshot))
            else
              bind_s (read_clock E) (\<lambda>started_at.
              bind_s (append_v2_record n E sid ConnectionStream (lit ''segment_opened'')
                        (\<lambda>_ updated _. bind_r (segment_count updated) (\<lambda>k. Inr [(lit ''segment_id'', PNat k)]))
                        (publish_segment snapshot started_at)) (\<lambda>a.
              bind_s (require_active_v2_metadata (va_session_id a)) (\<lambda>m'.
              bind_s (lift_s (current_v2_segment_id m')) (\<lambda>i s.
                (Inr (va_session_id a),
                 s\<lparr>so_snapshots := (so_snapshots s)(va_session_id a \<mapsto> with_segment_id i snapshot)\<rparr>)))))))) "

section \<open>Telemetry\<close>

definition require_current_segment :: "nat \<Rightarrow> pydict \<Rightarrow> exc + unit" where
  "require_current_segment segment_id m =
     bind_r (current_v2_segment_id m) (\<lambda>i.
       if segment_id \<noteq> i then Inl (ValueError ''v2 telemetry must reference the current segment'') else Inr ())"

definition stamp_current_segment :: "nat \<Rightarrow> pydict \<Rightarrow> exc + pydict" where
  "stamp_current_segment timestamp_us m =
     bind_r (current_v2_segment_id m) (\<lambda>i. record_metadata_segment_timestamp i timestamp_us m)"

definition overflow_fields :: "buffer_overflow_event \<Rightarrow> nat \<Rightarrow> pydict" where
  "overflow_fields e segment_id =
     [(lit ''segment_id'', PNat segment_id), (lit ''timestamp_us'', PNat (bo_timestamp_us e)),
      (lit ''channel'', PNat (bo_channel e)), (lit ''dropped_bytes'', PNat (bo_dropped_bytes e))]"

definition record_overflow :: "buffer_overflow_event \<Rightarrow> nat option \<Rightarrow> nat option \<Rightarrow> metadata_mutator" where
  "record_overflow e session_dropped rollover_dropped m a =
     (let dropped = (if va_rolled_over a \<and> rollover_dropped \<noteq> None then the rollover_dropped
                     else case session_dropped of Some d \<Rightarrow> d | None \<Rightarrow> bo_dropped_bytes e)
      in
      bind_r (record_v2_integrity_loss dropped (session_dropped \<noteq> None \<or> rollover_dropped \<noteq> None) (Some True) m)
        (stamp_current_segment (bo_timestamp_us e)))"

definition append_v2_buffer_overflow ::
  "nat \<Rightarrow> store_env \<Rightarrow> ustr \<Rightarrow> buffer_overflow_event \<Rightarrow> nat option \<Rightarrow> nat option \<Rightarrow> v2_admission store_op" where
  "append_v2_buffer_overflow n E sid e session_dropped rollover_dropped =
     bind_s (require_active_v2_metadata sid) (\<lambda>m.
     bind_s (lift_s (require_current_segment (bo_segment_id e) m)) (\<lambda>_.
       append_v2_record n E sid HardwareStream (lit ''buffer_overflow'')
         (\<lambda>_ updated _. bind_r (current_v2_segment_id updated) (\<lambda>i. Inr (overflow_fields e i)))
         (record_overflow e session_dropped rollover_dropped)))"

definition status_fields :: "buffer_status_event \<Rightarrow> nat \<Rightarrow> pydict" where
  "status_fields e segment_id =
     [(lit ''segment_id'', PNat segment_id), (lit ''timestamp_us'', PNat (be_timestamp_us e)),
      (lit ''uart_rx_size_bytes'', PNat (be_size_bytes e)), (lit ''uart_rx_used_bytes'', PNat (be_used_bytes e)),
      (lit ''uart_rx_high_water_bytes'', PNat (be_high_water_bytes e)),
      (lit ''dropped_bytes_total'', PNat (be_dropped_bytes_total e)),
      (lit ''overflow_events'', PNat (be_overflow_events e))]"

definition record_status ::
  "buffer_status_event \<Rightarrow> nat option \<Rightarrow> bool option \<Rightarrow> nat option \<Rightarrow> bool option \<Rightarrow> metadata_mutator" where
  "record_status e session_dropped reported_loss rollover_dropped rollover_loss m a =
     (let dropped = (if va_rolled_over a \<and> rollover_dropped \<noteq> None then the rollover_dropped
                     else case session_dropped of Some d \<Rightarrow> d | None \<Rightarrow> be_dropped_bytes_total e);
          loss = (if va_rolled_over a \<and> rollover_loss \<noteq> None then rollover_loss else reported_loss)
      in
      bind_r (record_v2_integrity_loss dropped True loss m) (stamp_current_segment (be_timestamp_us e)))"

definition append_v2_buffer_status ::
  "nat \<Rightarrow> store_env \<Rightarrow> ustr \<Rightarrow> buffer_status_event \<Rightarrow> nat option \<Rightarrow> bool option \<Rightarrow> nat option \<Rightarrow> bool option
     \<Rightarrow> v2_admission store_op" where
  "append_v2_buffer_status n E sid e session_dropped reported_loss rollover_dropped rollover_loss =
     bind_s (require_active_v2_metadata sid) (\<lambda>m.
     bind_s (lift_s (require_current_segment (be_segment_id e) m)) (\<lambda>_.
       append_v2_record n E sid HardwareStream (lit ''buffer_status'')
         (\<lambda>_ updated _. bind_r (current_v2_segment_id updated) (\<lambda>i. Inr (status_fields e i)))
         (record_status e session_dropped reported_loss rollover_dropped rollover_loss)))"

definition v2_telemetry_will_rollover ::
  "store_env \<Rightarrow> ustr \<Rightarrow> buffer_overflow_event + buffer_status_event \<Rightarrow> bool store_op" where
  "v2_telemetry_will_rollover E sid event =
     (let segment_id = (case event of Inl e \<Rightarrow> bo_segment_id e | Inr e \<Rightarrow> be_segment_id e);
          record_type = (case event of Inl _ \<Rightarrow> ''buffer_overflow'' | Inr _ \<Rightarrow> ''buffer_status'');
          event_fields = (case event of Inl e \<Rightarrow> overflow_fields e segment_id | Inr e \<Rightarrow> status_fields e segment_id)
      in
     bind_s (require_active_v2_metadata sid) (\<lambda>m.
     bind_s (lift_s (require_current_segment segment_id m)) (\<lambda>_.
     bind_s (lift_s (v2_next_sequence m)) (\<lambda>seq.
     bind_s (v2_record E sid m seq (lit record_type) (\<lambda>_ _ _. Inr event_fields)) (\<lambda>r.
     bind_s (lift_s (v2_unit_fits m (int (en_jsonl_size E r)))) (\<lambda>fits. return_s (\<not> fits)))))))"

section \<open>Received bytes\<close>

definition check_v2_pattern :: "store_env \<Rightarrow> nat \<Rightarrow> uart_receive_event \<Rightarrow> pyval list \<Rightarrow> pydict \<Rightarrow> exc + pyval list" where
  "check_v2_pattern E source_evidence_seq event projected supplied =
     (let p = dict_put ''source_evidence_seq'' (PNat source_evidence_seq) supplied;
          bad_name = ValueError ''v2 detected pattern must contain 1..256 UTF-8 bytes without CR/LF''
      in
      (case dict_get ''pattern'' p of
         PStr name \<Rightarrow>
           (case utf8_encode name of
              None \<Rightarrow> Inl UnicodeEncodeError
            | Some b \<Rightarrow>
                if \<not> (1 \<le> length b \<and> length b \<le> 256) \<or> of_char cr \<in> set name \<or> of_char nl \<in> set name then Inl bad_name
                else if \<not> py_eq_int (dict_get ''segment_id'' p) (int (ev_segment_id event)) then
                  Inl (ValueError ''v2 detected pattern segment does not match source UART'')
                else if \<not> py_eq_int (dict_get ''timestamp_us'' p) (int (ev_timestamp_us event)) then
                  Inl (ValueError ''v2 detected pattern timestamp does not match source UART'')
                else if \<not> py_eq_int (dict_get ''channel'' p) (int (ev_channel event)) then
                  Inl (ValueError ''v2 detected pattern channel does not match source UART'')
                else if en_doc_size E (PDict p) > MAX_V2_JSONL_RECORD_BYTES then
                  Inl (ValueError ''schema-v2 detected pattern exceeds its size limit'')
                else
                  let projected' = projected @ [PDict p] in
                  bind_r (detected_pattern_at projected' (PNat (length projected))) (\<lambda>_. Inr projected'))
       | _ \<Rightarrow> Inl bad_name))"

fun check_v2_patterns ::
  "store_env \<Rightarrow> nat \<Rightarrow> uart_receive_event \<Rightarrow> pyval list \<Rightarrow> pydict list \<Rightarrow> exc + pyval list" where
  "check_v2_patterns E seq event projected [] = Inr projected"
| "check_v2_patterns E seq event projected (p # ps) =
     bind_r (check_v2_pattern E seq event projected p) (\<lambda>projected'. check_v2_patterns E seq event projected' ps)"

definition v2_pattern_document ::
  "store_env \<Rightarrow> v2_session \<Rightarrow> nat \<Rightarrow> uart_receive_event \<Rightarrow> pydict list \<Rightarrow> exc + (pyval list option \<times> int)" where
  "v2_pattern_document E q seq event detected_patterns =
     (if detected_patterns = [] then Inr (None, 0)
      else if length detected_patterns > MAX_V2_DETECTED_PATTERNS_PER_UART_EVENT then
        Inl (ValueError ''one v2 UART unit may contain at most 12 detected patterns'')
      else
        bind_r (check_v2_patterns E seq event (vs_patterns q) detected_patterns) (\<lambda>projected.
          let growth = int (en_doc_size E (PList projected)) - int (en_doc_size E (PList (vs_patterns q))) in
          if growth < 0 then Inl (ValueError ''v2 detected-pattern document cannot shrink during append'')
          else Inr (Some projected, growth)))"

fun line_limit_records ::
  "store_env \<Rightarrow> ustr \<Rightarrow> pydict \<Rightarrow> capture_result \<Rightarrow> nat \<Rightarrow> oversized_uart_line list \<Rightarrow> pydict list store_op" where
  "line_limit_records E sid m result seq [] = return_s []"
| "line_limit_records E sid m result seq (l # ls) =
     bind_s (v2_record E sid m seq (lit ''line_limit_exceeded'')
       (\<lambda>_ _ _. bind_r (line_limit_exceeded_event_json result l) (\<lambda>d. Inr (dict_pop d (lit ''type''))))) (\<lambda>r.
     bind_s (line_limit_records E sid m result (Suc seq) ls) (\<lambda>rs. return_s (r # rs)))"

record uart_unit =
  uu_evidence_seq :: nat
  uu_record :: pydict
  uu_unit_bytes :: int
  uu_patterns :: "pyval list option"
  uu_hardware :: "pydict list"

definition uart_rx_record :: "nat \<Rightarrow> ustr \<Rightarrow> uart_receive_event \<Rightarrow> nat \<Rightarrow> pydict" where
  "uart_rx_record seq now event raw_start =
     [(lit ''evidence_seq'', PNat seq), (lit ''type'', str_val ''uart_rx''),
      (lit ''segment_id'', PNat (ev_segment_id event)), (lit ''timestamp_us'', PNat (ev_timestamp_us event)),
      (lit ''recorded_at'', PStr now), (lit ''channel'', PNat (ev_channel event)),
      (lit ''data_b64'', PStr (b64encode_str (ev_data event))),
      (lit ''raw_offset_start'', PNat raw_start),
      (lit ''raw_offset_end'', PNat (raw_start + length (ev_data event)))]"

definition uart_unit_of ::
  "store_env \<Rightarrow> ustr \<Rightarrow> pydict \<Rightarrow> uart_receive_event \<Rightarrow> pydict list \<Rightarrow> capture_result option \<Rightarrow> v2_session \<Rightarrow> nat
     \<Rightarrow> pydict \<Rightarrow> uart_unit store_op" where
  "uart_unit_of E sid m event detected_patterns result q seq r =
     (if en_jsonl_size E r > MAX_V2_JSONL_RECORD_BYTES then
        raise_s (ValueError ''schema-v2 primary JSONL record exceeds its size limit'')
      else
        bind_s (lift_s (v2_pattern_document E q seq event detected_patterns)) (\<lambda>pg.
        bind_s (case result of None \<Rightarrow> return_s []
                | Some x \<Rightarrow> line_limit_records E sid m x (Suc seq) (cr_oversized_lines x)) (\<lambda>hardware.
          return_s \<lparr>uu_evidence_seq = seq, uu_record = r,
                    uu_unit_bytes = int (length (ev_data event)) + int (en_jsonl_size E r) + snd pg
                      + int (sum_list (map (en_jsonl_size E) hardware)),
                    uu_patterns = fst pg, uu_hardware = hardware\<rparr>)))"

definition v2_uart_unit ::
  "store_env \<Rightarrow> ustr \<Rightarrow> pydict \<Rightarrow> uart_receive_event \<Rightarrow> pydict list \<Rightarrow> capture_result option \<Rightarrow> uart_unit store_op" where
  "v2_uart_unit E sid m event detected_patterns result =
     bind_s (load_session sid) (\<lambda>q.
     bind_s (lift_s (last_segment ''v2 session must contain a current segment'' m)) (\<lambda>segment.
       if \<not> py_eq_int (dict_get ''segment_id'' (snd segment)) (int (ev_segment_id event)) then
         raise_s (ValueError ''v2 UART event must reference the current segment'')
       else
     bind_s (lift_s (v2_next_sequence m)) (\<lambda>seq.
     bind_s (read_clock E) (\<lambda>now.
       uart_unit_of E sid m event detected_patterns result q seq
         (uart_rx_record seq now event (length (vs_raw q)))))))"

definition uart_metadata :: "uart_receive_event \<Rightarrow> capture_result option \<Rightarrow> nat \<Rightarrow> pydict \<Rightarrow> exc + pydict" where
  "uart_metadata event result next m =
     (let m1 = dict_put ''next_evidence_seq'' (PNat next) m in
      (case result of
         None \<Rightarrow> Inr m1
       | Some x \<Rightarrow>
           bind_r (if cr_newly_oversized_line_count x = 0 then Inr m1
                   else record_line_processing (cr_newly_oversized_line_count x) m1)
             (record_metadata_segment_timestamp (ev_segment_id event) (ev_timestamp_us event))))"

definition add_uart_unit :: "uart_receive_event \<Rightarrow> uart_unit \<Rightarrow> v2_session \<Rightarrow> v2_session" where
  "add_uart_unit event u q =
     q\<lparr>vs_raw := vs_raw q @ ev_data event, vs_uart := vs_uart q @ [uu_record u],
       vs_hardware := vs_hardware q @ uu_hardware u,
       vs_patterns := (case uu_patterns u of None \<Rightarrow> vs_patterns q | Some ps \<Rightarrow> ps)\<rparr>"

definition commit_uart_unit ::
  "store_env \<Rightarrow> ustr \<Rightarrow> pydict \<Rightarrow> uart_receive_event \<Rightarrow> capture_result option \<Rightarrow> uart_unit \<Rightarrow> bool \<Rightarrow> v2_admission store_op" where
  "commit_uart_unit E sid m event result u rolled_over =
     (let next = uu_evidence_seq u + 1 + length (uu_hardware u) in
      bind_s (load_session sid) (\<lambda>q.
      bind_s (commit_unit_of E sid (add_uart_unit event u q) (uart_metadata event result next m)) (\<lambda>_.
        return_s (make_admission sid (uu_evidence_seq u) rolled_over next))))"

definition patterns_of_result :: "capture_result option \<Rightarrow> pydict list \<Rightarrow> nat \<Rightarrow> exc + pydict list" where
  "patterns_of_result result detected_patterns segment_id =
     (case result of None \<Rightarrow> Inr detected_patterns | Some x \<Rightarrow> detected_pattern_records x segment_id)"

definition uart_unit_fits :: "pydict \<Rightarrow> uart_unit \<Rightarrow> bool store_op" where
  "uart_unit_fits m u = lift_s (v2_unit_fits m (uu_unit_bytes u))"

definition check_uart_receive ::
  "uart_receive_event \<Rightarrow> pydict list \<Rightarrow> capture_result option \<Rightarrow> capture_result option \<Rightarrow> exc + unit" where
  "check_uart_receive event detected_patterns result rollover_result =
     (if ev_data event = [] \<or> length (ev_data event) > 32768 then
        Inl (ValueError ''v2 UART RX payload must contain 1..32768 bytes'')
      else
        bind_r (case result of None \<Rightarrow> Inr ()
                | Some x \<Rightarrow>
                    bind_r (require_matching_capture_result event x) (\<lambda>_.
                      if detected_patterns \<noteq> [] then
                        Inl (ValueError ''v2 UART admission accepts detected_patterns or capture_result, not both'')
                      else Inr ())) (\<lambda>_.
          if rollover_result \<noteq> None \<and> result = None then
            Inl (ValueError ''rollover capture result requires a primary capture result'')
          else Inr ()))"

definition append_v2_uart_receive ::
  "nat \<Rightarrow> store_env \<Rightarrow> ustr \<Rightarrow> uart_receive_event \<Rightarrow> pydict list \<Rightarrow> capture_result option \<Rightarrow> capture_result option
     \<Rightarrow> v2_admission store_op" where
  "append_v2_uart_receive n E sid event detected_patterns result rollover_result =
     bind_s (lift_s (check_uart_receive event detected_patterns result rollover_result)) (\<lambda>_.
     bind_s (require_active_v2_metadata sid) (\<lambda>m.
     bind_s (lift_s (patterns_of_result result detected_patterns (ev_segment_id event))) (\<lambda>patterns.
     bind_s (v2_uart_unit E sid m event patterns result) (\<lambda>u.
     bind_s (uart_unit_fits m u) (\<lambda>fits.
       if fits then commit_uart_unit E sid m event result u False
       else
     bind_s (rollover_v2 n E sid ''rollover_size'' None) (\<lambda>sid'.
     bind_s (require_active_v2_metadata sid') (\<lambda>m'.
     bind_s (lift_s (current_v2_segment_id m')) (\<lambda>i.
       let event' = event\<lparr>ev_segment_id := i\<rparr>;
           result' = (case rollover_result of
                        Some x \<Rightarrow> Some x
                      | None \<Rightarrow> map_option (\<lambda>x. x\<lparr>cr_segment_id := i\<rparr>) result)
       in
     bind_s (lift_s (case result' of None \<Rightarrow> Inr () | Some x \<Rightarrow> require_matching_capture_result event' x)) (\<lambda>_.
     bind_s (lift_s (patterns_of_result result'
                (map (\<lambda>p. dict_put ''segment_id'' (PNat i) p) detected_patterns) i)) (\<lambda>patterns'.
     bind_s (v2_uart_unit E sid' m' event' patterns' result') (\<lambda>u'.
     bind_s (uart_unit_fits m' u') (\<lambda>fits'.
       if \<not> fits' then raise_s (SessionPersistenceError ''preflight v2 evidence'' True)
       else commit_uart_unit E sid' m' event' result' u' True))))))))))))"

definition v2_uart_receive_will_rollover ::
  "store_env \<Rightarrow> ustr \<Rightarrow> uart_receive_event \<Rightarrow> capture_result \<Rightarrow> bool store_op" where
  "v2_uart_receive_will_rollover E sid event result =
     bind_s (lift_s (require_matching_capture_result event result)) (\<lambda>_.
     bind_s (require_active_v2_metadata sid) (\<lambda>m.
     bind_s (lift_s (detected_pattern_records result (ev_segment_id event))) (\<lambda>patterns.
     bind_s (v2_uart_unit E sid m event patterns (Some result)) (\<lambda>u.
     bind_s (uart_unit_fits m u) (\<lambda>fits. return_s (\<not> fits))))))"

text \<open>The facts about oversized lines that a hard boundary finalises, each a record of its own.\<close>

fun append_v2_line_boundary ::
  "nat \<Rightarrow> store_env \<Rightarrow> ustr \<Rightarrow> (capture_result \<times> oversized_uart_line) list \<Rightarrow> v2_admission list store_op" where
  "append_v2_line_boundary n E sid [] = return_s []"
| "append_v2_line_boundary n E sid ((result, l) # rest) =
     bind_s (lift_s (line_limit_exceeded_event_json result l)) (\<lambda>d.
     bind_s (append_v2_record n E sid HardwareStream (lit ''line_limit_exceeded'')
       (\<lambda>_ updated _. bind_r (current_v2_segment_id updated) (\<lambda>i.
          Inr ((lit ''segment_id'', PNat i) # dict_pop (dict_pop d (lit ''type'')) (lit ''segment_id''))))
       (\<lambda>m _. Inr m)) (\<lambda>a.
     bind_s (append_v2_line_boundary n E (va_session_id a) rest) (\<lambda>as. return_s (a # as))))"

end
