(* ===== verification/Evidence_Recorder.thy ===== *)
theory Evidence_Recorder
  imports Store_Operations
begin

text \<open>
  The continuous evidence recorder, \<open>evidence/recorder.py\<close>: the one owner of the serial source, which writes
  every backend event, action and change of the connection into the session store and publishes how far
  the evidence is durable. It composes the capture processor and the store.

  An operation is what the code does under its admission lock, a step. Where the code waits for another
  thread in the middle of an operation (\<open>release\<close>, \<open>close\<close>, a replacement source, which runs
  callbacks), the operation is split there into steps. Sources are names; what a read or a
  close of the source does is an argument of the step. An exception's \<open>str\<close> is \<open>en_exc_text\<close>.
\<close>

section \<open>State\<close>

datatype recorder_state =
    RecConnected | RecReconnecting | RecDisconnected | RecFaulted | RecClosed | RecReleased | RecReacquiring

record recorder =
  rc_store :: v2_store
  rc_profile :: dut_profile
  rc_handle :: ustr
  rc_source :: "nat option"
  rc_source_segment_id :: nat
  rc_segment :: segment_context
  rc_stored_segment_id :: nat
  rc_connection_generation :: nat
  rc_health :: source_health
  rc_processor :: processor
  rc_status_baseline :: "(nat \<times> nat) option"
  rc_session_dropped_bytes :: nat
  rc_connection_start_dropped_bytes :: nat
  rc_explicit_overflow_bytes :: nat
  rc_state :: recorder_state
  rc_fault :: "exc option"
  rc_replacement_allowed :: bool
  rc_releasing :: bool
  rc_release_close_complete :: bool
  rc_release_drained :: bool
  rc_closing :: bool
  rc_closed :: bool
  rc_source_close_complete :: bool
  rc_close_error :: "exc option"
  rc_tail :: "ustr \<times> nat"

type_synonym 'a rec_op = "(recorder, 'a) op"

definition in_store :: "'a store_op \<Rightarrow> 'a rec_op" where
  "in_store c r = (case c (rc_store r) of (x, s) \<Rightarrow> (x, r\<lparr>rc_store := s\<rparr>))"

definition get_r :: "(recorder \<Rightarrow> 'a) \<Rightarrow> 'a rec_op" where
  "get_r f r = (Inr (f r), r)"

definition upd_r :: "(recorder \<Rightarrow> recorder) \<Rightarrow> unit rec_op" where
  "upd_r f r = (Inr (), f r)"

definition with_r :: "(recorder \<Rightarrow> 'a rec_op) \<Rightarrow> 'a rec_op" where
  "with_r f r = f r r"

definition lift_r :: "exc + 'a \<Rightarrow> 'a rec_op" where
  "lift_r x r = (x, r)"

definition when_r :: "bool \<Rightarrow> unit rec_op \<Rightarrow> unit rec_op" where
  "when_r b c = (if b then c else return_s ())"

definition load_metadata :: "ustr \<Rightarrow> pydict store_op" where
  "load_metadata sid =
     bind_s (lift_s (validate_session_id (PStr sid))) (\<lambda>_. bind_s (load_session sid) (\<lambda>q. return_s (vs_metadata q)))"

text \<open>\<open>except BaseException as exc: handler(exc); raise\<close>.\<close>

definition on_error :: "(exc \<Rightarrow> unit rec_op) \<Rightarrow> 'a rec_op \<Rightarrow> 'a rec_op" where
  "on_error handler c =
     bind_s (try_s c) (\<lambda>x. case x of Inr a \<Rightarrow> return_s a | Inl e \<Rightarrow> bind_s (handler e) (\<lambda>_. raise_s e))"

definition dropped_of :: "uart_integrity option \<Rightarrow> nat" where
  "dropped_of i = (case i of None \<Rightarrow> 0 | Some u \<Rightarrow> (case ui_dropped_bytes u of None \<Rightarrow> 0 | Some d \<Rightarrow> nat d))"

definition disconnected_health :: "recorder \<Rightarrow> recorder" where
  "disconnected_health r = r\<lparr>rc_health := (rc_health r)\<lparr>sh_connected := False\<rparr>\<rparr>"

section \<open>Publication\<close>

text \<open>\<open>admission.next_evidence_seq or admission.evidence_seq + 1\<close>\<close>

definition next_sequence :: "v2_admission \<Rightarrow> nat" where
  "next_sequence a = (if va_next_evidence_seq a \<noteq> 0 then va_next_evidence_seq a else va_evidence_seq a + 1)"

definition tail_of :: "v2_admission \<Rightarrow> ustr \<times> nat" where
  "tail_of a = (va_session_id a, next_sequence a)"

definition tail_is_after :: "ustr \<times> nat \<Rightarrow> ustr \<times> nat \<Rightarrow> bool" where
  "tail_is_after current previous \<longleftrightarrow> fst current \<noteq> fst previous \<or> snd current > snd previous"

definition first_segment :: "recorder \<Rightarrow> recorder" where
  "first_segment r = r\<lparr>rc_stored_segment_id := 0, rc_segment := (rc_segment r)\<lparr>sc_segment_id := 0\<rparr>\<rparr>"

definition publish_admission :: "v2_admission \<Rightarrow> unit rec_op" where
  "publish_admission a =
     upd_r (\<lambda>r.
       let r1 = r\<lparr>rc_handle := va_session_id a\<rparr>;
           r2 = (if va_rolled_over a then first_segment r1 else r1)
       in r2\<lparr>rc_tail := tail_of a\<rparr>)"

definition reset_integrity_after_rollover :: "uart_integrity option \<Rightarrow> recorder \<Rightarrow> recorder" where
  "reset_integrity_after_rollover integrity r =
     (let i = (if integrity = None then map_option sn_integrity (sh_backend_snapshot (rc_health r)) else integrity);
          d = dropped_of i
      in r\<lparr>rc_session_dropped_bytes := d, rc_connection_start_dropped_bytes := d, rc_explicit_overflow_bytes := 0,
           rc_status_baseline := None, rc_health := (rc_health r)\<lparr>sh_integrity := i\<rparr>\<rparr>)"

definition reset_if_rolled_over :: "v2_admission \<Rightarrow> unit rec_op" where
  "reset_if_rolled_over a = when_r (va_rolled_over a) (upd_r (reset_integrity_after_rollover None))"

definition publish_and_reset :: "v2_admission \<Rightarrow> unit rec_op" where
  "publish_and_reset a = bind_s (publish_admission a) (\<lambda>_. reset_if_rolled_over a)"

fun publish_all :: "v2_admission list \<Rightarrow> unit rec_op" where
  "publish_all [] = return_s ()"
| "publish_all (a # as) = bind_s (publish_and_reset a) (\<lambda>_. publish_all as)"

text \<open>The unfinished lines end at a boundary; oversized ones leave a record.\<close>

definition boundary_lines :: "capture_result list \<Rightarrow> (capture_result \<times> oversized_uart_line) list" where
  "boundary_lines results = concat (map (\<lambda>x. map (Pair x) (cr_oversized_lines x)) results)"

definition flush_line_state :: "nat \<Rightarrow> store_env \<Rightarrow> unit rec_op" where
  "flush_line_state n E =
     bind_s (with_r (\<lambda>r. lift_r (flush_all (rc_processor r)))) (\<lambda>(_, results).
     bind_s (upd_r (\<lambda>r. r\<lparr>rc_processor := new_processor None\<rparr>)) (\<lambda>_.
       if results = [] then return_s ()
       else
         bind_s (get_r rc_handle) (\<lambda>sid.
         bind_s (in_store (append_v2_line_boundary n E sid (boundary_lines results))) publish_all)))"

text \<open>What waiting for another thread returns; the argument is the state when the wait ends.\<close>

definition tail_ready :: "ustr \<times> nat \<Rightarrow> recorder \<Rightarrow> bool" where
  "tail_ready previous r \<longleftrightarrow> tail_is_after (rc_tail r) previous \<or> rc_fault r \<noteq> None \<or> rc_closed r"

definition wait_for_durable_tail :: "ustr \<times> nat \<Rightarrow> recorder \<Rightarrow> (ustr \<times> nat) option" where
  "wait_for_durable_tail previous r =
     (if tail_ready previous r \<and> tail_is_after (rc_tail r) previous then Some (rc_tail r) else None)"

definition wait_for_disconnect :: "recorder \<Rightarrow> bool" where
  "wait_for_disconnect r \<longleftrightarrow>
     rc_state r \<in> {RecReconnecting, RecFaulted, RecClosed} \<and> rc_state r = RecReconnecting"

definition wait_for_fault :: "recorder \<Rightarrow> bool" where
  "wait_for_fault r \<longleftrightarrow> rc_state r \<in> {RecFaulted, RecClosed} \<and> rc_state r = RecFaulted"

section \<open>A fatal fault\<close>

text \<open>Every operation still open ends with the same outcome.\<close>

fun complete_operations ::
  "nat \<Rightarrow> store_env \<Rightarrow> ustr \<Rightarrow> pyval \<Rightarrow> ustr \<Rightarrow> pydict \<Rightarrow> v2_admission option \<Rightarrow> v2_admission option rec_op" where
  "complete_operations n E outcome error sid [] latest = return_s latest"
| "complete_operations n E outcome error sid ((operation_id, operation) # rest) latest =
     (case operation of
        PDict _ \<Rightarrow>
          bind_s (in_store (complete_v2_operation n E sid operation_id outcome error PNone (PBool False))) (\<lambda>a.
          bind_s (publish_admission a) (\<lambda>_.
            complete_operations n E outcome error (va_session_id a) rest (Some a)))
      | _ \<Rightarrow> raise_s (ValueError ''v2 active operation is malformed''))"

definition complete_all_operations ::
  "nat \<Rightarrow> store_env \<Rightarrow> ustr \<Rightarrow> pyval \<Rightarrow> ustr \<Rightarrow> v2_admission option rec_op" where
  "complete_all_operations n E outcome error sid =
     bind_s (in_store (load_metadata sid)) (\<lambda>m.
     bind_s (lift_r (get_dict ''v2 active_operations must be an object'' ''active_operations'' m)) (\<lambda>active.
       complete_operations n E outcome error sid active None))"

definition admitted_session :: "ustr \<Rightarrow> v2_admission option \<Rightarrow> ustr" where
  "admitted_session sid a = (case a of None \<Rightarrow> sid | Some a \<Rightarrow> va_session_id a)"

definition is_active_state :: "pydict \<Rightarrow> bool" where
  "is_active_state m \<longleftrightarrow> dict_get ''state'' m = str_val ''active''"

definition fail_if_active :: "store_env \<Rightarrow> ustr \<Rightarrow> ustr \<Rightarrow> ustr \<Rightarrow> ustr \<Rightarrow> unit rec_op" where
  "fail_if_active E sid end_reason error_code detail =
     bind_s (in_store (load_metadata sid)) (\<lambda>m.
       when_r (is_active_state m) (in_store (fail_session E sid end_reason error_code detail)))"

definition terminal_work :: "nat \<Rightarrow> store_env \<Rightarrow> exc \<Rightarrow> string \<Rightarrow> unit rec_op" where
  "terminal_work n E error end_reason =
     bind_s (get_r rc_handle) (\<lambda>sid.
       if is_persistence_error error then
         fail_if_active E sid (lit end_reason) (lit ''persistence_fault'') (en_exc_text E error)
       else
         let error_code = (if end_reason = ''backend_input_error'' then ''backend_input_error'' else ''persistence_fault'') in
         bind_s (complete_all_operations n E (lit ''error'')
                   (PDict [(lit ''code'', str_val error_code), (lit ''detail'', PStr (en_exc_text E error))]) sid) (\<lambda>a.
           fail_if_active E (admitted_session sid a) (lit end_reason) (lit error_code) (en_exc_text E error)))"

definition enter_fault :: "exc \<Rightarrow> recorder \<Rightarrow> recorder" where
  "enter_fault error r =
     disconnected_health (r\<lparr>rc_release_drained := True, rc_fault := Some error, rc_state := RecFaulted, rc_source := None\<rparr>)"

definition keep_close_error :: "exc \<Rightarrow> recorder \<Rightarrow> recorder" where
  "keep_close_error e r = (if rc_close_error r = None then r\<lparr>rc_close_error := Some e\<rparr> else r)"

definition record_fatal :: "nat \<Rightarrow> store_env \<Rightarrow> exc \<Rightarrow> string \<Rightarrow> nat option \<Rightarrow> unit rec_op" where
  "record_fatal n E error end_reason source =
     with_r (\<lambda>r.
       if rc_fault r \<noteq> None \<or> rc_closed r then return_s ()
       else if source \<noteq> None \<and> rc_source r \<noteq> source then return_s ()
       else
         bind_s (upd_r (enter_fault error)) (\<lambda>_.
         bind_s (try_s (terminal_work n E error end_reason)) (\<lambda>x.
           case x of Inl e \<Rightarrow> upd_r (keep_close_error e) | Inr _ \<Rightarrow> return_s ())))"

section \<open>Actions and operations\<close>

definition unavailable :: "recorder \<Rightarrow> bool" where
  "unavailable r \<longleftrightarrow> rc_closing r \<or> rc_closed r \<or> rc_fault r \<noteq> None"

definition on_persistence_fault :: "nat \<Rightarrow> store_env \<Rightarrow> 'a rec_op \<Rightarrow> 'a rec_op" where
  "on_persistence_fault n E =
     on_error (\<lambda>e. when_r (is_persistence_error e) (record_fatal n E e ''persistence_error'' None))"

definition flush_when :: "nat \<Rightarrow> store_env \<Rightarrow> bool store_op \<Rightarrow> unit rec_op" where
  "flush_when n E will_rollover = bind_s (in_store will_rollover) (\<lambda>b. when_r b (flush_line_state n E))"

definition admit_action ::
  "nat \<Rightarrow> store_env \<Rightarrow> ustr \<Rightarrow> pydict \<Rightarrow> (ustr \<Rightarrow> v2_admission store_op) \<Rightarrow> v2_admission rec_op" where
  "admit_action n E record_type given append_to =
     with_r (\<lambda>r.
       if unavailable r then raise_s (RuntimeError ''Authoritative evidence recording is unavailable'')
       else
         on_persistence_fault n E
           (bind_s (flush_when n E (v2_action_will_rollover E (rc_handle r) record_type given)) (\<lambda>_.
            bind_s (get_r rc_handle) (\<lambda>sid.
            bind_s (in_store (append_to sid)) (\<lambda>a.
            bind_s (publish_and_reset a) (\<lambda>_. return_s a))))))"

definition audit_uart_attempt ::
  "nat \<Rightarrow> store_env \<Rightarrow> ustr \<Rightarrow> bytes \<Rightarrow> pydict \<Rightarrow> ustr option \<Rightarrow> v2_admission rec_op" where
  "audit_uart_attempt n E attempt_id data transformation operation_id =
     admit_action n E (lit ''uart_tx_attempt'')
       [(lit ''attempt_id'', PStr attempt_id), (lit ''operation_id'', opt_str operation_id),
        (lit ''data_b64'', PStr (b64encode_str data)), (lit ''byte_length'', PNat (length data)),
        (lit ''transformation'', PDict transformation)]
       (\<lambda>sid. append_v2_uart_tx_attempt n E sid attempt_id data operation_id transformation)"

definition audit_uart_result ::
  "nat \<Rightarrow> store_env \<Rightarrow> ustr \<Rightarrow> ustr \<Rightarrow> int option \<Rightarrow> v2_admission rec_op" where
  "audit_uart_result n E attempt_id status accepted_bytes =
     admit_action n E (lit ''uart_tx_result'')
       [(lit ''attempt_id'', PStr attempt_id), (lit ''status'', PStr status),
        (lit ''accepted_bytes'', opt_int accepted_bytes)]
       (\<lambda>sid. append_v2_uart_tx_result n E sid attempt_id status accepted_bytes)"

definition audit_control_attempt ::
  "nat \<Rightarrow> store_env \<Rightarrow> ustr \<Rightarrow> ustr \<Rightarrow> pydict \<Rightarrow> v2_admission rec_op" where
  "audit_control_attempt n E attempt_id role parameters =
     admit_action n E (lit ''control_attempt'')
       [(lit ''attempt_id'', PStr attempt_id), (lit ''operation_id'', PNone), (lit ''role'', PStr role),
        (lit ''provider'', str_val ''gpio_control''), (lit ''parameters'', PDict parameters)]
       (\<lambda>sid. append_v2_control_attempt n E sid attempt_id role (lit ''gpio_control'') parameters None)"

definition audit_control_result ::
  "nat \<Rightarrow> store_env \<Rightarrow> ustr \<Rightarrow> ustr \<Rightarrow> int option \<Rightarrow> v2_admission rec_op" where
  "audit_control_result n E attempt_id status device_timestamp_us =
     admit_action n E (lit ''control_result'')
       [(lit ''attempt_id'', PStr attempt_id), (lit ''status'', PStr status),
        (lit ''device_timestamp_us'', opt_int device_timestamp_us)]
       (\<lambda>sid. append_v2_control_result n E sid attempt_id status device_timestamp_us)"

definition backend_input_failed :: "nat \<Rightarrow> store_env \<Rightarrow> exc \<Rightarrow> unit rec_op" where
  "backend_input_failed n E error = record_fatal n E error ''backend_input_error'' None"

definition complete_monitor_operation ::
  "nat \<Rightarrow> store_env \<Rightarrow> ustr \<Rightarrow> ustr \<Rightarrow> pyval \<Rightarrow> pyval \<Rightarrow> pyval \<Rightarrow> pydict rec_op" where
  "complete_monitor_operation n E operation_id outcome error matched_condition limited =
     bind_s (get_r rc_handle) (\<lambda>sid.
     bind_s (in_store (load_metadata sid)) (\<lambda>m.
     bind_s (case dict_get ''active_operations'' m of
               PDict active \<Rightarrow>
                 if map_of active operation_id = None then return_s sid
                 else
                   bind_s (flush_when n E (v2_operation_terminal_will_rollover E sid operation_id outcome error
                                             matched_condition limited)) (\<lambda>_.
                   bind_s (get_r rc_handle) (\<lambda>sid'.
                   bind_s (on_persistence_fault n E
                     (in_store (complete_v2_operation n E sid' operation_id outcome error matched_condition limited))) (\<lambda>a.
                   bind_s (publish_and_reset a) (\<lambda>_. return_s (va_session_id a)))))
             | _ \<Rightarrow> return_s sid) (\<lambda>terminal_sid.
       in_store (load_v2_operation_terminal terminal_sid operation_id))))"

text \<open>
  The lines under way at the start, \<open>incomplete_line_keys()\<close>, are those of the current segment. Opening the
  reader is the store's, here \<open>opened\<close>: the exception it raises, or none.
\<close>

definition incomplete_channels :: "ustr \<Rightarrow> recorder \<Rightarrow> (ustr \<times> nat \<times> nat) set" where
  "incomplete_channels sid r =
     (let i = rc_stored_segment_id r in
      set (map (\<lambda>k. (sid, i, snd k)) (filter (\<lambda>k. fst k = i) (incomplete_line_keys (rc_processor r)))))"

definition start_monitor_operation ::
  "nat \<Rightarrow> store_env \<Rightarrow> ustr \<Rightarrow> ustr \<Rightarrow> pydict \<Rightarrow> exc option \<Rightarrow> ((ustr \<times> nat) \<times> (ustr \<times> nat \<times> nat) set) rec_op" where
  "start_monitor_operation n E operation_id operation_type parameters opened =
     with_r (\<lambda>r.
       if unavailable r then raise_s (RuntimeError ''evidence recorder cannot start Monitor'')
       else
         bind_s (flush_when n E (v2_operation_start_will_rollover E (rc_handle r) operation_id operation_type parameters)) (\<lambda>_.
         bind_s (get_r rc_handle) (\<lambda>sid.
         bind_s (in_store (start_v2_operation n E sid operation_id operation_type parameters)) (\<lambda>a.
         bind_s (publish_and_reset a) (\<lambda>_.
         bind_s (get_r (incomplete_channels (va_session_id a))) (\<lambda>channels.
           case opened of
             None \<Rightarrow> return_s (tail_of a, channels)
           | Some e \<Rightarrow>
               if is_persistence_error e then bind_s (record_fatal n E e ''persistence_error'' None) (\<lambda>_. raise_s e)
               else
                 bind_s (complete_monitor_operation n E operation_id (lit ''error'')
                   (PDict [(lit ''code'', str_val ''monitor_error''), (lit ''detail'', PStr (en_exc_text E e))])
                   PNone (PBool False)) (\<lambda>_. raise_s e)))))))"

section \<open>Events\<close>

text \<open>
  Received bytes: when the session will be full, the unfinished lines end in it and the event is
  processed afresh; the result for a session that rolls over all the same is computed beforehand.
\<close>

definition record_uart :: "nat \<Rightarrow> store_env \<Rightarrow> uart_receive_event \<Rightarrow> v2_admission rec_op" where
  "record_uart n E event =
     bind_s (with_r (\<lambda>r. lift_r (process_event (rc_processor r) event))) (\<lambda>(candidate, result).
     bind_s (with_r (\<lambda>r. in_store (v2_uart_receive_will_rollover E (rc_handle r) event result))) (\<lambda>full.
     bind_s (if \<not> full then return_s (event, candidate, result)
             else
               bind_s (flush_line_state n E) (\<lambda>_.
               bind_s (get_r rc_stored_segment_id) (\<lambda>i.
               bind_s (with_r (\<lambda>r. lift_r (process_event (rc_processor r) (event\<lparr>ev_segment_id := i\<rparr>)))) (\<lambda>(p, x).
                 return_s (event\<lparr>ev_segment_id := i\<rparr>, p, x))))) (\<lambda>(event', candidate', result').
     bind_s (lift_r (process_event (new_processor None) (event'\<lparr>ev_segment_id := 0\<rparr>))) (\<lambda>(rollover_processor, rollover_result).
     bind_s (with_r (\<lambda>r. in_store (append_v2_uart_receive n E (rc_handle r) event' [] (Some result') (Some rollover_result)))) (\<lambda>a.
     bind_s (upd_r (\<lambda>r. r\<lparr>rc_processor := (if va_rolled_over a then rollover_processor else candidate')\<rparr>)) (\<lambda>_.
     bind_s (reset_if_rolled_over a) (\<lambda>_. return_s a)))))))"

definition reported_integrity :: "bool \<Rightarrow> nat \<Rightarrow> uart_integrity" where
  "reported_integrity loss dropped =
     \<lparr>ui_loss_status = (if loss then LossReported else NoneReported), ui_observation_scope = Some rx_scope,
      ui_dropped_bytes = Some (int dropped)\<rparr>"

definition note_integrity :: "bool \<Rightarrow> nat \<Rightarrow> recorder \<Rightarrow> recorder" where
  "note_integrity loss dropped r =
     r\<lparr>rc_session_dropped_bytes := dropped,
       rc_health := (rc_health r)\<lparr>sh_integrity := Some (reported_integrity loss dropped)\<rparr>\<rparr>"

definition fresh_processor_when :: "bool \<Rightarrow> recorder \<Rightarrow> recorder" where
  "fresh_processor_when b r = (if b then r\<lparr>rc_processor := new_processor None\<rparr> else r)"

definition projected_overflow :: "recorder \<Rightarrow> buffer_overflow_event \<Rightarrow> nat" where
  "projected_overflow r e =
     max (rc_session_dropped_bytes r)
       (rc_connection_start_dropped_bytes r + rc_explicit_overflow_bytes r + bo_dropped_bytes e)"

definition note_overflow :: "buffer_overflow_event \<Rightarrow> bool \<Rightarrow> nat \<Rightarrow> recorder \<Rightarrow> recorder" where
  "note_overflow e rolled_over projected r =
     (if rolled_over then
        note_integrity True (bo_dropped_bytes e)
          (r\<lparr>rc_status_baseline := None, rc_connection_start_dropped_bytes := 0,
             rc_explicit_overflow_bytes := bo_dropped_bytes e\<rparr>)
      else
        note_integrity True projected
          (r\<lparr>rc_explicit_overflow_bytes := rc_explicit_overflow_bytes r + bo_dropped_bytes e\<rparr>))"

definition record_overflow_event :: "nat \<Rightarrow> store_env \<Rightarrow> buffer_overflow_event \<Rightarrow> v2_admission rec_op" where
  "record_overflow_event n E event =
     bind_s (with_r (\<lambda>r. in_store (v2_telemetry_will_rollover E (rc_handle r) (Inl event)))) (\<lambda>full.
     bind_s (when_r full (flush_line_state n E)) (\<lambda>_.
     bind_s (get_r (\<lambda>r. if full then event\<lparr>bo_segment_id := rc_stored_segment_id r\<rparr> else event)) (\<lambda>event'.
     bind_s (get_r (\<lambda>r. projected_overflow r event')) (\<lambda>projected.
     bind_s (with_r (\<lambda>r. in_store (append_v2_buffer_overflow n E (rc_handle r) event' (Some projected)
                             (Some (bo_dropped_bytes event'))))) (\<lambda>a.
     bind_s (upd_r (\<lambda>r. note_overflow event' (va_rolled_over a) projected
                          (fresh_processor_when (va_rolled_over a) r))) (\<lambda>_. return_s a))))))"

definition set_baseline :: "buffer_status_event \<Rightarrow> recorder \<Rightarrow> recorder" where
  "set_baseline e r =
     (if rc_status_baseline r = None then
        r\<lparr>rc_status_baseline := Some (be_dropped_bytes_total e, be_overflow_events e)\<rparr>
      else r)"

definition connection_dropped :: "recorder \<Rightarrow> buffer_status_event \<Rightarrow> nat" where
  "connection_dropped r e =
     max (be_dropped_bytes_total e - fst (the (rc_status_baseline r))) (rc_explicit_overflow_bytes r)"

definition status_loss :: "recorder \<Rightarrow> buffer_status_event \<Rightarrow> bool" where
  "status_loss r e \<longleftrightarrow>
     (case sh_integrity (rc_health r) of None \<Rightarrow> False | Some i \<Rightarrow> ui_loss_status i = LossReported)
     \<or> connection_dropped r e > 0 \<or> be_overflow_events e > snd (the (rc_status_baseline r))"

definition note_status :: "buffer_status_event \<Rightarrow> bool \<Rightarrow> nat \<Rightarrow> bool \<Rightarrow> recorder \<Rightarrow> recorder" where
  "note_status e rolled_over projected loss r =
     (if rolled_over then
        note_integrity False 0
          (r\<lparr>rc_status_baseline := Some (be_dropped_bytes_total e, be_overflow_events e),
             rc_connection_start_dropped_bytes := 0, rc_explicit_overflow_bytes := 0\<rparr>)
      else note_integrity loss projected r)"

definition record_status_event :: "nat \<Rightarrow> store_env \<Rightarrow> buffer_status_event \<Rightarrow> v2_admission rec_op" where
  "record_status_event n E event =
     bind_s (with_r (\<lambda>r. in_store (v2_telemetry_will_rollover E (rc_handle r) (Inr event)))) (\<lambda>full.
     bind_s (when_r full (flush_line_state n E)) (\<lambda>_.
     bind_s (get_r (\<lambda>r. if full then event\<lparr>be_segment_id := rc_stored_segment_id r\<rparr> else event)) (\<lambda>event'.
     bind_s (upd_r (set_baseline event')) (\<lambda>_.
     bind_s (get_r (\<lambda>r. (rc_connection_start_dropped_bytes r + connection_dropped r event', status_loss r event'))) (\<lambda>(projected, loss).
     bind_s (with_r (\<lambda>r. in_store (append_v2_buffer_status n E (rc_handle r) event' (Some projected) (Some loss)
                             (Some 0) (Some False)))) (\<lambda>a.
     bind_s (upd_r (\<lambda>r. note_status event' (va_rolled_over a) projected loss
                          (fresh_processor_when (va_rolled_over a) r))) (\<lambda>_. return_s a)))))))"

fun record_event :: "nat \<Rightarrow> store_env \<Rightarrow> backend_event \<Rightarrow> v2_admission rec_op" where
  "record_event n E (ReceiveEvent e) = record_uart n E e"
| "record_event n E (OverflowEvent e) = record_overflow_event n E e"
| "record_event n E (StatusEvent e) = record_status_event n E e"

fun event_segment :: "backend_event \<Rightarrow> nat" where
  "event_segment (ReceiveEvent e) = ev_segment_id e"
| "event_segment (OverflowEvent e) = bo_segment_id e"
| "event_segment (StatusEvent e) = be_segment_id e"

fun in_segment :: "nat \<Rightarrow> backend_event \<Rightarrow> backend_event" where
  "in_segment i (ReceiveEvent e) = ReceiveEvent (e\<lparr>ev_segment_id := i\<rparr>)"
| "in_segment i (OverflowEvent e) = OverflowEvent (e\<lparr>bo_segment_id := i\<rparr>)"
| "in_segment i (StatusEvent e) = StatusEvent (e\<lparr>be_segment_id := i\<rparr>)"

section \<open>The connection\<close>

definition connection_event :: "nat \<Rightarrow> store_env \<Rightarrow> string \<Rightarrow> unit rec_op" where
  "connection_event n E event_type =
     bind_s (with_r (\<lambda>r. in_store (append_v2_connection_event n E (rc_handle r) (lit event_type)
                             (Some (rc_stored_segment_id r)) []))) publish_admission"

definition record_disconnect :: "nat \<Rightarrow> store_env \<Rightarrow> nat \<Rightarrow> exc \<Rightarrow> unit rec_op" where
  "record_disconnect n E source error =
     with_r (\<lambda>r.
       if rc_closing r \<or> rc_source r \<noteq> Some source then return_s ()
       else
         bind_s (try_s
           (bind_s (flush_line_state n E) (\<lambda>_.
            bind_s (with_r (\<lambda>r. in_store (append_v2_connection_event n E (rc_handle r) (lit ''unexpected_disconnect'')
                                    (Some (rc_stored_segment_id r)) [(lit ''error'', PStr (en_exc_text E error))]))) (\<lambda>a.
            bind_s (publish_and_reset a) (\<lambda>_.
              with_r (\<lambda>r. in_store (append_v2_connection_event n E (va_session_id a) (lit ''reconnect_started'')
                          (Some (rc_stored_segment_id r))
                          [(lit ''timeout_s'', PFloat (FFin (dp_reconnect_timeout_s (rc_profile r))))]))))))) (\<lambda>x.
           case x of
             Inl e \<Rightarrow> record_fatal n E e ''persistence_error'' (Some source)
           | Inr a \<Rightarrow>
               upd_r (\<lambda>r.
                 let r1 = r\<lparr>rc_handle := va_session_id a\<rparr>;
                     r2 = (if va_rolled_over a then
                             reset_integrity_after_rollover None ((first_segment r1)\<lparr>rc_processor := new_processor None\<rparr>)
                           else r1)
                 in (disconnected_health (r2\<lparr>rc_tail := tail_of a\<rparr>))\<lparr>rc_state := RecReconnecting, rc_replacement_allowed := True\<rparr>)))"

text \<open>
  One turn of the ingesting thread, with what the read of the source gave and whether the source still has events;
  the result says whether the thread goes on. A turn whose wait for another thread is not over yet does nothing:
  after a disconnect the thread waits until the source is detached.
\<close>

datatype read_outcome = ReadEvent backend_event | ReadNothing | ReadDisconnected exc | ReadFailed exc

definition drain_ends :: "bool \<Rightarrow> nat \<Rightarrow> recorder \<Rightarrow> recorder" where
  "drain_ends has_pending source r =
     (if has_pending then r
      else r\<lparr>rc_source := (if rc_source r = Some source then None else rc_source r), rc_release_drained := True\<rparr>)"

definition after_read_error :: "nat \<Rightarrow> store_env \<Rightarrow> nat \<Rightarrow> bool \<Rightarrow> bool rec_op \<Rightarrow> bool rec_op" where
  "after_read_error n E source has_pending handle =
     with_r (\<lambda>r.
       if rc_releasing r then
         bind_s (when_r (rc_release_close_complete r \<or> rc_fault r \<noteq> None) (upd_r (drain_ends has_pending source))) (\<lambda>_.
           return_s True)
       else if rc_closing r \<and> (\<not> rc_source_close_complete r \<or> has_pending) then return_s True
       else if rc_closing r then return_s False
       else handle)"

definition ingest_event :: "nat \<Rightarrow> store_env \<Rightarrow> nat \<Rightarrow> nat \<Rightarrow> nat \<Rightarrow> backend_event \<Rightarrow> bool rec_op" where
  "ingest_event n E source physical_segment_id stored_segment_id event =
     (if event_segment event \<noteq> physical_segment_id then
        bind_s (record_fatal n E (BackendInputError (lit ''backend event source changed its bound segment ID'') (lit ''invalid_message'')
                 None None None None) ''backend_input_error'' (Some source)) (\<lambda>_. return_s False)
      else
        bind_s (try_s (bind_s (record_event n E (in_segment stored_segment_id event)) publish_admission)) (\<lambda>x.
          case x of
            Inr _ \<Rightarrow> return_s True
          | Inl e \<Rightarrow> bind_s (record_fatal n E e ''persistence_error'' (Some source)) (\<lambda>_. return_s False)))"

definition ingest :: "nat \<Rightarrow> store_env \<Rightarrow> read_outcome \<Rightarrow> bool \<Rightarrow> bool rec_op" where
  "ingest n E outcome has_pending =
     with_r (\<lambda>r.
       if rc_fault r \<noteq> None \<or> rc_closing r \<and> rc_source r = None then return_s False
       else if rc_state r = RecReconnecting \<and> \<not> rc_closing r then return_s True
       else
         (case rc_source r of
            None \<Rightarrow> return_s True
          | Some source \<Rightarrow>
              (case outcome of
                 ReadEvent e \<Rightarrow> ingest_event n E source (rc_source_segment_id r) (rc_stored_segment_id r) e
               | ReadNothing \<Rightarrow>
                   (if rc_releasing r \<and> rc_release_close_complete r then
                      bind_s (upd_r (drain_ends has_pending source)) (\<lambda>_. return_s True)
                    else return_s (\<not> (rc_closing r \<and> rc_source_close_complete r \<and> \<not> has_pending)))
               | ReadDisconnected e \<Rightarrow>
                   after_read_error n E source has_pending
                     (bind_s (record_disconnect n E source e) (\<lambda>_. return_s True))
               | ReadFailed e \<Rightarrow>
                   after_read_error n E source has_pending
                     (bind_s (record_fatal n E e ''backend_input_error'' (Some source)) (\<lambda>_. return_s False)))))"

section \<open>Release and reacquisition\<close>

definition lifecycle_error :: exc where
  "lifecycle_error = ConnectionLifecycleError (lit ''invalid_connection_state'') None"

text \<open>\<open>release\<close>: the intent is recorded, then the source is closed and drained, then the gap is recorded.\<close>

definition release_begin :: "nat \<Rightarrow> store_env \<Rightarrow> unit rec_op" where
  "release_begin n E =
     with_r (\<lambda>r.
       if rc_state r \<noteq> RecConnected \<or> rc_closing r \<or> rc_source r = None then raise_s lifecycle_error
       else
         bind_s (upd_r (\<lambda>r. r\<lparr>rc_releasing := True, rc_release_close_complete := False, rc_release_drained := False\<rparr>)) (\<lambda>_.
           on_error (\<lambda>e. record_fatal n E e ''persistence_error'' None) (connection_event n E ''release_requested'')))"

definition release_closed :: "nat \<Rightarrow> store_env \<Rightarrow> exc option \<Rightarrow> unit rec_op" where
  "release_closed n E close_error =
     bind_s (case close_error of None \<Rightarrow> return_s () | Some e \<Rightarrow> record_fatal n E e ''backend_input_error'' None) (\<lambda>_.
     bind_s (upd_r (\<lambda>r. r\<lparr>rc_release_close_complete := True\<rparr>)) (\<lambda>_.
       case close_error of None \<Rightarrow> return_s () | Some e \<Rightarrow> raise_s e))"

definition release_finish :: "nat \<Rightarrow> store_env \<Rightarrow> unit rec_op" where
  "release_finish n E =
     bind_s (on_error (\<lambda>e. record_fatal n E e ''persistence_error'' None)
       (bind_s (get_r rc_fault) (\<lambda>fault.
          if fault \<noteq> None then raise_s (RuntimeError ''Recorder faulted while releasing'')
          else bind_s (flush_line_state n E) (\<lambda>_. connection_event n E ''released'')))) (\<lambda>_.
       upd_r (\<lambda>r. (disconnected_health r)\<lparr>rc_state := RecReleased, rc_releasing := False\<rparr>))"

definition cleanup_unconfirmed :: "nat \<Rightarrow> store_env \<Rightarrow> unit rec_op" where
  "cleanup_unconfirmed n E =
     record_fatal n E (RuntimeError ''Physical cleanup is unconfirmed'') ''backend_input_error'' None"

definition connection_event_if_active :: "nat \<Rightarrow> store_env \<Rightarrow> string \<Rightarrow> pydict rec_op" where
  "connection_event_if_active n E event_type =
     bind_s (with_r (\<lambda>r. in_store (load_metadata (rc_handle r)))) (\<lambda>m.
     bind_s (when_r (is_active_state m) (connection_event n E event_type)) (\<lambda>_. return_s m))"

definition begin_reacquire :: "nat \<Rightarrow> store_env \<Rightarrow> unit rec_op" where
  "begin_reacquire n E =
     with_r (\<lambda>r.
       if rc_closing r \<or> rc_fault r \<noteq> None \<or> rc_state r \<notin> {RecReleased, RecDisconnected} then raise_s lifecycle_error
       else
         bind_s (upd_r (\<lambda>r. r\<lparr>rc_state := RecReacquiring\<rparr>)) (\<lambda>_.
         bind_s (on_error (\<lambda>e. record_fatal n E e ''persistence_error'' None)
                   (connection_event_if_active n E ''reacquire_started'')) (\<lambda>_. return_s ())))"

definition reacquire_failed :: "nat \<Rightarrow> store_env \<Rightarrow> bool \<Rightarrow> unit rec_op" where
  "reacquire_failed n E cleanup_unknown =
     with_r (\<lambda>r.
       if rc_fault r \<noteq> None then upd_r (\<lambda>r. disconnected_health (r\<lparr>rc_state := RecFaulted\<rparr>))
       else
         bind_s (connection_event_if_active n E ''reacquire_failed'') (\<lambda>m.
           upd_r (\<lambda>r. disconnected_health
             (r\<lparr>rc_state := (if cleanup_unknown then RecFaulted
                              else if is_active_state m then RecReleased else RecDisconnected)\<rparr>))))"

section \<open>A replacement source\<close>

text \<open>\<open>close_current_source_for_reconnect\<close>: the source is detached, then closed.\<close>

definition detach_source :: "nat option rec_op" where
  "detach_source =
     with_r (\<lambda>r.
       if rc_state r \<noteq> RecReconnecting \<or> \<not> rc_replacement_allowed r \<or> rc_source r = None \<or> rc_closing r then
         raise_s (RuntimeError ''evidence recorder cannot detach source for reconnect'')
       else bind_s (upd_r (\<lambda>r. r\<lparr>rc_source := None, rc_replacement_allowed := False\<rparr>)) (\<lambda>_. return_s (rc_source r)))"

definition source_detached :: "nat \<Rightarrow> store_env \<Rightarrow> exc option \<Rightarrow> unit rec_op" where
  "source_detached n E close_error =
     (case close_error of
        Some e \<Rightarrow> bind_s (record_fatal n E e ''backend_input_error'' None) (\<lambda>_. raise_s e)
      | None \<Rightarrow>
          upd_r (\<lambda>r. if \<not> rc_closing r \<and> rc_state r = RecReconnecting then r\<lparr>rc_replacement_allowed := True\<rparr> else r))"

fun is_lifecycle_error :: "exc \<Rightarrow> bool" where
  "is_lifecycle_error (ConnectionLifecycleError _ _) = True"
| "is_lifecycle_error _ = False"

definition last_stored_segment :: "pydict \<Rightarrow> exc + nat" where
  "last_stored_segment m =
     (case dict_get ''segments'' m of
        PList vs \<Rightarrow> if vs = [] then Inl (ValueError ''replacement session has no published segment'') else Inr (length vs - 1)
      | _ \<Rightarrow> Inl (ValueError ''replacement session has no published segment''))"

definition evidence_sequence :: "pydict \<Rightarrow> exc + nat" where
  "evidence_sequence m =
     (case dict_get ''next_evidence_seq'' m of
        PInt k \<Rightarrow> Inr (nat k)
      | PBool b \<Rightarrow> Inr (if b then 1 else 0)
      | _ \<Rightarrow> Inl (ValueError ''replacement session has no evidence sequence''))"

text \<open>What the two halves of a replacement share: the snapshot with its context, and where it began.\<close>

record replacement =
  rp_snapshot :: backend_snapshot
  rp_context :: segment_context
  rp_manual :: bool
  rp_previous_session :: ustr
  rp_new_session :: bool

definition replacement_session ::
  "nat \<Rightarrow> store_env \<Rightarrow> backend_snapshot \<Rightarrow> bool \<Rightarrow> nat \<Rightarrow> (ustr \<times> bool) rec_op" where
  "replacement_session n E snapshot manual next_segment_id =
     bind_s (get_r rc_handle) (\<lambda>sid.
     bind_s (in_store (load_metadata sid)) (\<lambda>m.
       if manual \<and> \<not> is_active_state m then
         bind_s (with_r (\<lambda>r. in_store (create_v2_session E (rc_profile r) (with_segment_id 0 snapshot) None))) (\<lambda>sid'.
         bind_s (upd_r (\<lambda>r. r\<lparr>rc_handle := sid', rc_stored_segment_id := 0\<rparr>)) (\<lambda>_.
         bind_s (connection_event n E ''reacquire_started'') (\<lambda>_. return_s (sid', True))))
       else
         bind_s (in_store (append_v2_segment n E sid (with_segment_id next_segment_id snapshot))) (\<lambda>sid'.
           return_s (sid', False))))"

definition replace_begin ::
  "nat \<Rightarrow> store_env \<Rightarrow> backend_snapshot \<Rightarrow> segment_context option \<Rightarrow> bool \<Rightarrow> replacement rec_op" where
  "replace_begin n E snapshot source_segment manual =
     with_r (\<lambda>r.
       case sn_segment snapshot of
         None \<Rightarrow> raise_s (ValueError ''replacement backend snapshot requires segment provenance'')
       | Some physical \<Rightarrow>
           if source_segment = None then raise_s (ValueError ''evidence recorder source requires timestamp provenance'')
           else if source_segment \<noteq> Some physical then
             raise_s (ValueError ''replacement source segment must match its backend snapshot'')
           else if rc_state r \<noteq> (if manual then RecReacquiring else RecReconnecting)
             \<or> \<not> manual \<and> \<not> rc_replacement_allowed r \<or> rc_source r \<noteq> None \<or> rc_closing r then
             raise_s (RuntimeError ''evidence recorder cannot accept replacement'')
           else
             on_error (\<lambda>e. when_r (\<not> is_lifecycle_error e) (record_fatal n E e ''persistence_error'' None))
               (bind_s (replacement_session n E snapshot manual (rc_stored_segment_id r + 1)) (\<lambda>(sid, new_session).
                bind_s (in_store (load_metadata sid)) (\<lambda>m.
                bind_s (lift_r (last_stored_segment m)) (\<lambda>i.
                bind_s (lift_r (evidence_sequence m)) (\<lambda>next.
                bind_s (upd_r (\<lambda>r. r\<lparr>rc_handle := sid, rc_stored_segment_id := i,
                                     rc_segment := physical\<lparr>sc_segment_id := i\<rparr>, rc_tail := (sid, next),
                                     rc_processor := new_processor None\<rparr>)) (\<lambda>_.
                  return_s \<lparr>rp_snapshot = snapshot, rp_context = physical, rp_manual = manual,
                            rp_previous_session = rc_handle r, rp_new_session = new_session\<rparr>)))))))"

definition accept_replacement :: "replacement \<Rightarrow> nat \<Rightarrow> v2_admission \<Rightarrow> nat \<Rightarrow> recorder \<Rightarrow> recorder" where
  "accept_replacement p source a i r =
     (let segment = (rp_context p)\<lparr>sc_segment_id := i\<rparr>;
          rolled_over = (rp_new_session p \<or> va_session_id a \<noteq> rp_previous_session p);
          generation = rc_connection_generation r + 1;
          r1 = r\<lparr>rc_connection_generation := generation, rc_handle := va_session_id a, rc_source := Some source,
                 rc_source_segment_id := sc_segment_id (rp_context p), rc_stored_segment_id := i, rc_segment := segment,
                 rc_processor := new_processor None, rc_status_baseline := None\<rparr>;
          r2 = (if rolled_over then reset_integrity_after_rollover (Some (sn_integrity (rp_snapshot p))) r1 else r1);
          prior = (if rp_new_session p then None else sh_integrity (rc_health r2))
      in r2\<lparr>rc_connection_start_dropped_bytes := rc_session_dropped_bytes r2, rc_explicit_overflow_bytes := 0,
            rc_health := \<lparr>sh_connected = True,
              sh_integrity = (if prior = None then Some (sn_integrity (rp_snapshot p)) else prior),
              sh_backend_snapshot = Some ((rp_snapshot p)\<lparr>sn_segment := Some segment\<rparr>),
              sh_connection_generation = int generation\<rparr>,
            rc_tail := tail_of a, rc_state := RecConnected, rc_replacement_allowed := False\<rparr>)"

definition error_fields :: "store_env \<Rightarrow> exc \<Rightarrow> pydict" where
  "error_fields E e =
     (case e of
        ConnectionLifecycleError error reason \<Rightarrow>
          [(lit ''error'', PStr error), (lit ''detail'', PStr (en_exc_text E e))]
          @ (case reason of None \<Rightarrow> [] | Some x \<Rightarrow> if x = [] then [] else [(lit ''reason'', PStr x)])
      | _ \<Rightarrow> [])"

definition replacement_rejected :: "nat \<Rightarrow> store_env \<Rightarrow> bool \<Rightarrow> exc \<Rightarrow> unit rec_op" where
  "replacement_rejected n E manual e =
     bind_s (with_r (\<lambda>r. in_store (append_v2_connection_event n E (rc_handle r)
                             (lit (if manual then ''reacquire_failed'' else ''reconnect_failed''))
                             (Some (rc_stored_segment_id r)) (error_fields E e)))) (\<lambda>a.
     bind_s (publish_admission a) (\<lambda>_.
     bind_s (record_fatal n E e ''backend_input_error'' None) (\<lambda>_. raise_s e)))"

text \<open>\<open>initialized\<close> is the exception of the callbacks that set the new connection up, or none.\<close>

definition replacement_connected ::
  "nat \<Rightarrow> store_env \<Rightarrow> replacement \<Rightarrow> nat \<Rightarrow> exc option \<Rightarrow> bool rec_op" where
  "replacement_connected n E p source initialized =
     bind_s (case initialized of None \<Rightarrow> return_s () | Some e \<Rightarrow> raise_s e) (\<lambda>_.
     bind_s (with_r (\<lambda>r. if rc_closing r \<or> rc_fault r \<noteq> None then raise_s lifecycle_error else return_s ())) (\<lambda>_.
     bind_s (with_r (\<lambda>r. in_store (append_v2_connection_event n E (rc_handle r)
                             (lit (if rp_manual p then ''reacquire_succeeded'' else ''reconnect_succeeded''))
                             (Some (rc_stored_segment_id r))
                             [(lit ''connection_generation'', PNat (rc_connection_generation r + 1))]))) (\<lambda>a.
     bind_s (in_store (load_metadata (va_session_id a))) (\<lambda>m.
     bind_s (lift_r (last_stored_segment m)) (\<lambda>i. with_r (\<lambda>r.
       if rc_closing r then return_s True
       else bind_s (upd_r (accept_replacement p source a i)) (\<lambda>_. return_s False)))))))"

definition replace_finish ::
  "nat \<Rightarrow> store_env \<Rightarrow> replacement \<Rightarrow> nat \<Rightarrow> exc option \<Rightarrow> unit rec_op" where
  "replace_finish n E p source initialized =
     bind_s (on_error (\<lambda>e. when_r (\<not> is_lifecycle_error e) (record_fatal n E e ''persistence_error'' None))
       (bind_s (try_s (replacement_connected n E p source initialized)) (\<lambda>x.
          case x of
            Inr reject \<Rightarrow> return_s reject
          | Inl e \<Rightarrow>
              if is_lifecycle_error e then bind_s (replacement_rejected n E (rp_manual p) e) (\<lambda>_. raise_s e)
              else raise_s e))) (\<lambda>reject.
       if reject then raise_s (RuntimeError ''evidence recorder is closing'') else return_s ())"

section \<open>The end\<close>

definition reconnect_timed_out :: "nat \<Rightarrow> store_env \<Rightarrow> ustr \<Rightarrow> unit rec_op" where
  "reconnect_timed_out n E reason =
     with_r (\<lambda>r.
       if rc_closing r \<or> rc_state r \<noteq> RecReconnecting \<or> rc_source r \<noteq> None then return_s ()
       else
         bind_s (try_s
           (bind_s (in_store (append_v2_connection_event n E (rc_handle r) (lit ''reconnect_failed'')
                                (Some (rc_stored_segment_id r)) [(lit ''error'', PStr reason)])) (\<lambda>failed.
            bind_s (publish_admission failed) (\<lambda>_.
            bind_s (complete_all_operations n E (lit ''disconnected'') PNone (va_session_id failed)) (\<lambda>terminal.
              let final = (case terminal of None \<Rightarrow> failed | Some a \<Rightarrow> a) in
            bind_s (in_store (fail_session E (va_session_id final) (lit ''reconnect_timeout'') reason
                      (lit (if reason = lit ''reconnect_timeout'' then ''backend reconnect deadline expired''
                            else ''backend USB selection is ambiguous'')))) (\<lambda>_. return_s final)))))) (\<lambda>x.
           case x of
             Inl e \<Rightarrow> record_fatal n E e ''persistence_error'' None
           | Inr final \<Rightarrow>
               upd_r (\<lambda>r. disconnected_health
                 (r\<lparr>rc_handle := va_session_id final, rc_tail := tail_of final, rc_state := RecDisconnected,
                    rc_replacement_allowed := False\<rparr>))))"

text \<open>
  \<open>close\<close>: the first caller stops the thread, closes the source and ends the session; \<open>error\<close> is what
  closing the source or joining the thread raised. Later callers get the same error.
\<close>

definition close_begin :: "bool rec_op" where
  "close_begin =
     with_r (\<lambda>r.
       if rc_closed r then (case rc_close_error r of Some e \<Rightarrow> raise_s e | None \<Rightarrow> return_s False)
       else if rc_closing r then return_s False
       else bind_s (upd_r (\<lambda>r. r\<lparr>rc_closing := True, rc_source_close_complete := (rc_source r = None)\<rparr>)) (\<lambda>_. return_s True))"

definition source_closed :: "unit rec_op" where
  "source_closed = upd_r (\<lambda>r. r\<lparr>rc_source_close_complete := True\<rparr>)"

definition close_finish :: "nat \<Rightarrow> store_env \<Rightarrow> exc option \<Rightarrow> unit rec_op" where
  "close_finish n E error =
     bind_s (try_s
       (bind_s (flush_line_state n E) (\<lambda>_.
        bind_s (with_r (\<lambda>r. in_store (load_metadata (rc_handle r)))) (\<lambda>m.
          when_r (is_active_state m) (with_r (\<lambda>r. in_store (complete_session E (rc_handle r) (lit ''service_shutdown'')))))))) (\<lambda>x.
       let close_error = (case error of Some e \<Rightarrow> Some e | None \<Rightarrow> (case x of Inl e \<Rightarrow> Some e | Inr _ \<Rightarrow> None)) in
       bind_s (upd_r (\<lambda>r. disconnected_health
                (r\<lparr>rc_source := None, rc_state := RecClosed, rc_closed := True, rc_close_error := close_error\<rparr>))) (\<lambda>_.
         case close_error of None \<Rightarrow> return_s () | Some e \<Rightarrow> raise_s e))"

section \<open>Creation\<close>

definition start_recorder :: "v2_store \<Rightarrow> dut_profile \<Rightarrow> backend_snapshot \<Rightarrow> nat \<Rightarrow> segment_context \<Rightarrow> v2_admission \<Rightarrow> recorder" where
  "start_recorder s profile snapshot source context a =
     (let d = dropped_of (Some (sn_integrity snapshot)) in
      \<lparr>rc_store = s, rc_profile = profile, rc_handle = va_session_id a, rc_source = Some source,
       rc_source_segment_id = sc_segment_id context, rc_segment = context, rc_stored_segment_id = 0,
       rc_connection_generation = 0,
       rc_health = \<lparr>sh_connected = True, sh_integrity = Some (sn_integrity snapshot),
                    sh_backend_snapshot = Some snapshot, sh_connection_generation = 0\<rparr>,
       rc_processor = new_processor None, rc_status_baseline = None, rc_session_dropped_bytes = d,
       rc_connection_start_dropped_bytes = d, rc_explicit_overflow_bytes = 0, rc_state = RecConnected,
       rc_fault = None, rc_replacement_allowed = False, rc_releasing = False, rc_release_close_complete = False,
       rc_release_drained = False, rc_closing = False, rc_closed = False, rc_source_close_complete = False,
       rc_close_error = None, rc_tail = (va_session_id a, va_evidence_seq a + 1)\<rparr>)"

definition new_recorder ::
  "nat \<Rightarrow> store_env \<Rightarrow> dut_profile \<Rightarrow> backend_snapshot \<Rightarrow> nat \<Rightarrow> segment_context option \<Rightarrow> recorder store_op" where
  "new_recorder n E profile snapshot source source_segment =
     (case source_segment of
        None \<Rightarrow> raise_s (ValueError ''evidence recorder source requires timestamp provenance'')
      | Some context \<Rightarrow>
          if sn_segment snapshot \<noteq> Some context then
            raise_s (ValueError ''recorder source segment must match its backend snapshot'')
          else
            bind_s (create_v2_session E profile snapshot None) (\<lambda>sid.
            bind_s (append_v2_connection_event n E sid (lit ''connected'') (Some 0)
                      [(lit ''connection_generation'', PInt 0)]) (\<lambda>a s.
              (Inr (start_recorder s profile snapshot source context a), s))))"

end
