(* ===== verification/Store_Invariant.thy ===== *)
theory Store_Invariant
  imports Store_Operations "HOL-Library.Multiset"
begin

text \<open>
  The invariant of a version 2 session, and the changes of its metadata document that keep it: the evidence is
  numbered without gaps over its four streams, the raw log is the concatenation of the received bytes,
  the document accounts for exactly the bytes on disk and never exceeds the budget, there are at most 32
  segments, numbered from zero, the count of open operations is their number and each has an open last
  range, and every attempt that waits for its result is well formed.
\<close>

section \<open>The invariant\<close>

definition record_seq :: "pydict \<Rightarrow> nat" where
  "record_seq r = (case dict_get ''evidence_seq'' r of PInt i \<Rightarrow> nat i | _ \<Rightarrow> 0)"

definition all_records :: "v2_session \<Rightarrow> pydict list" where
  "all_records q = vs_uart q @ vs_operation q @ vs_hardware q @ vs_connection q"

definition stream_sorted :: "pydict list \<Rightarrow> bool" where
  "stream_sorted rs \<longleftrightarrow> sorted_wrt (<) (map record_seq rs)"

text \<open>The records carry the numbers below \<open>n\<close>, each once, and rise within each stream.\<close>

definition numbered :: "v2_session \<Rightarrow> nat \<Rightarrow> bool" where
  "numbered q n \<longleftrightarrow>
     list_all (\<lambda>r. dict_get ''evidence_seq'' r = PNat (record_seq r)) (all_records q)
     \<and> mset (map record_seq (all_records q)) = mset [0..<n]
     \<and> stream_sorted (vs_uart q) \<and> stream_sorted (vs_operation q)
     \<and> stream_sorted (vs_hardware q) \<and> stream_sorted (vs_connection q)"

definition rec_data :: "pydict \<Rightarrow> bytes" where
  "rec_data r = (case dict_get ''data_b64'' r of PStr s \<Rightarrow> (case b64decode s of Some d \<Rightarrow> d | None \<Rightarrow> []) | _ \<Rightarrow> [])"

text \<open>Each record of received bytes names the place of its bytes in the raw log.\<close>

fun offsets_from :: "nat \<Rightarrow> pydict list \<Rightarrow> bool" where
  "offsets_from k [] = True"
| "offsets_from k (r # rs) =
     (dict_get ''raw_offset_start'' r = PNat k \<and> dict_get ''raw_offset_end'' r = PNat (k + length (rec_data r))
      \<and> offsets_from (k + length (rec_data r)) rs)"

definition raw_ok :: "v2_session \<Rightarrow> bool" where
  "raw_ok q \<longleftrightarrow> vs_raw q = concat (map rec_data (vs_uart q)) \<and> offsets_from 0 (vs_uart q)"

definition storage_ok :: "store_env \<Rightarrow> v2_session \<Rightarrow> pydict \<Rightarrow> bool" where
  "storage_ok E q m \<longleftrightarrow>
     (\<exists>st b. dict_get ''storage'' m = PDict st
        \<and> dict_get ''evidence_bytes_written'' st = PNat (evidence_bytes E q)
        \<and> dict_get ''evidence_budget_bytes'' st = PInt b \<and> int (evidence_bytes E q) \<le> b)"

definition open_operation :: "pyval \<Rightarrow> bool" where
  "open_operation v \<longleftrightarrow>
     (\<exists>d rs. v = PDict d \<and> dict_get ''ranges'' d = PList (map PDict rs) \<and> rs \<noteq> []
        \<and> dict_get ''end_evidence_seq_exclusive'' (last rs) = PNone)"

definition all_open :: "pydict \<Rightarrow> bool" where
  "all_open ops \<longleftrightarrow> (\<forall>e \<in> set ops. open_operation (snd e))"

definition ownership_ok :: "pydict \<Rightarrow> bool" where
  "ownership_ok m \<longleftrightarrow>
     (\<exists>ops summary. dict_get ''active_operations'' m = PDict ops \<and> dict_get ''operation_summary'' m = PDict summary
        \<and> dict_get ''active'' summary = PNat (length ops) \<and> distinct (dict_keys ops)
        \<and> all_open ops)"

definition attempts_ok :: "pydict \<Rightarrow> bool" where
  "attempts_ok m \<longleftrightarrow>
     (\<exists>waiting. dict_get ''pending_attempts'' m = PDict waiting \<and> distinct (dict_keys waiting)
        \<and> (\<forall>(k, v) \<in> set waiting. check_pending_attempt k v = Inr ()))"

definition segments_ok :: "pydict \<Rightarrow> bool" where
  "segments_ok m \<longleftrightarrow>
     (\<exists>ss. dict_get ''segments'' m = PList (map PDict ss)
        \<and> 1 \<le> length ss \<and> length ss \<le> MAX_SESSION_SEGMENTS
        \<and> map (dict_get ''segment_id'') ss = map PNat [0..<length ss])"

text \<open>The parts of the document that are about ownership and segments, and the identity part.\<close>

definition doc_core :: "pydict \<Rightarrow> bool" where
  "doc_core m \<longleftrightarrow> ownership_ok m \<and> attempts_ok m \<and> segments_ok m"

definition doc_ok :: "store_env \<Rightarrow> ustr \<Rightarrow> v2_session \<Rightarrow> pydict \<Rightarrow> bool" where
  "doc_ok E sid q m \<longleftrightarrow>
     dict_get ''schema_version'' m = PInt 2 \<and> dict_get ''session_id'' m = PStr sid
     \<and> (\<exists>n. dict_get ''next_evidence_seq'' m = PNat n \<and> numbered q n)
     \<and> storage_ok E q m \<and> doc_core m"

definition valid_id :: "ustr \<Rightarrow> bool" where
  "valid_id sid \<longleftrightarrow> (\<exists>s. validate_session_id (PStr sid) = Inr s)"

definition session_ok :: "store_env \<Rightarrow> ustr \<Rightarrow> v2_session \<Rightarrow> bool" where
  "session_ok E sid q \<longleftrightarrow> valid_id sid \<and> raw_ok q \<and> doc_ok E sid q (vs_metadata q)"

section \<open>Changes of the document\<close>

definition op_keys :: "pydict \<Rightarrow> ustr list" where
  "op_keys m = (case dict_get ''active_operations'' m of PDict ops \<Rightarrow> dict_keys ops | _ \<Rightarrow> [])"

definition waiting :: "pydict \<Rightarrow> pydict" where
  "waiting m = (case dict_get ''pending_attempts'' m of PDict w \<Rightarrow> w | _ \<Rightarrow> [])"

definition seg_count :: "pydict \<Rightarrow> nat" where
  "seg_count m = (case dict_get ''segments'' m of PList vs \<Rightarrow> length vs | _ \<Rightarrow> 0)"

definition frame :: "pydict \<Rightarrow> pydict \<Rightarrow> bool" where
  "frame m m' \<longleftrightarrow>
     (\<forall>k \<in> {''schema_version'', ''session_id'', ''next_evidence_seq'', ''storage''}. dict_get k m' = dict_get k m)"

lemma frame_refl [simp]: "frame m m"
  by (simp add: frame_def)

lemma frame_trans: "frame m m1 \<Longrightarrow> frame m1 m2 \<Longrightarrow> frame m m2"
  by (simp add: frame_def)

lemma frame_put [simp]:
  "k \<notin> {''schema_version'', ''session_id'', ''next_evidence_seq'', ''storage''} \<Longrightarrow> frame m (dict_put k v m') = frame m m'"
  by (auto simp: frame_def)

text \<open>
  What a session owns: the identifiers of its open operations, and the attempts that wait for a result. It
  has at most \<open>N\<close> segments.
\<close>

type_synonym owned = "ustr list \<times> pydict"

definition tracks :: "owned \<Rightarrow> nat \<Rightarrow> pydict \<Rightarrow> bool" where
  "tracks K N m \<longleftrightarrow> op_keys m = fst K \<and> waiting m = snd K \<and> seg_count m \<le> N"

text \<open>
  \<open>keeps P f Q\<close>: on a document with \<open>P\<close> the change \<open>f\<close> keeps what the invariant says and its result has \<open>Q\<close>.
  A mutator is safe when it does so for every admission; what the session owns then may depend on it.
\<close>

definition keeps :: "(pydict \<Rightarrow> bool) \<Rightarrow> (pydict \<Rightarrow> exc + pydict) \<Rightarrow> (pydict \<Rightarrow> bool) \<Rightarrow> bool" where
  "keeps P f Q \<longleftrightarrow> (\<forall>m m'. doc_core m \<and> P m \<and> f m = Inr m' \<longrightarrow> doc_core m' \<and> frame m m' \<and> Q m')"

definition safe_change ::
  "owned \<Rightarrow> nat \<Rightarrow> metadata_mutator \<Rightarrow> (v2_admission \<Rightarrow> owned) \<Rightarrow> nat \<Rightarrow> bool" where
  "safe_change K N f K' N' \<longleftrightarrow>
     (\<forall>a. valid_id (va_session_id a) \<longrightarrow> keeps (tracks K N) (\<lambda>m. f m a) (tracks (K' a) N'))"

lemma keepsI:
  "(\<And>m m'. doc_core m \<Longrightarrow> P m \<Longrightarrow> f m = Inr m' \<Longrightarrow> doc_core m' \<and> frame m m' \<and> Q m') \<Longrightarrow> keeps P f Q"
  unfolding keeps_def by blast

lemma keepsD: "keeps P f Q \<Longrightarrow> doc_core m \<Longrightarrow> P m \<Longrightarrow> f m = Inr m' \<Longrightarrow> doc_core m' \<and> frame m m' \<and> Q m'"
  unfolding keeps_def by blast

lemma keeps_bind: "keeps P f R \<Longrightarrow> keeps R g Q \<Longrightarrow> keeps P (\<lambda>m. bind_r (f m) g) Q"
  by (rule keepsI) (auto simp: bind_r_eq_Inr dest: keepsD intro: frame_trans)

subsection \<open>Segments\<close>

lemma last_segment_ok:
  assumes "segments_ok m" and "last_segment msg m = Inr (before, s)"
  obtains bs where "before = map PDict bs" "dict_get ''segments'' m = PList (map PDict (bs @ [s]))"
    "Suc (length bs) \<le> MAX_SESSION_SEGMENTS"
    "map (dict_get ''segment_id'') (bs @ [s]) = map PNat [0..<Suc (length bs)]"
proof -
  from assms(1) obtain ss where ss: "dict_get ''segments'' m = PList (map PDict ss)" "1 \<le> length ss"
      "length ss \<le> MAX_SESSION_SEGMENTS" "map (dict_get ''segment_id'') ss = map PNat [0..<length ss]"
    by (auto simp: segments_ok_def)
  then have ne: "ss \<noteq> []" by auto
  with assms(2) ss(1) have l: "before = map PDict (butlast ss)" "s = last ss"
    by (auto simp: last_segment_def map_butlast last_map)
  have e: "butlast ss @ [s] = ss" using ne l(2) by simp
  then have n: "Suc (length (butlast ss)) = length ss" using ne by simp
  show thesis
    by (rule that [of "butlast ss"]) (use ss e n l in simp_all)
qed

lemma segments_okI:
  "dict_get ''segments'' m = PList (map PDict ss) \<Longrightarrow> 1 \<le> length ss \<Longrightarrow> length ss \<le> MAX_SESSION_SEGMENTS
     \<Longrightarrow> map (dict_get ''segment_id'') ss = map PNat [0..<length ss] \<Longrightarrow> segments_ok m"
  unfolding segments_ok_def by blast

lemma segments_put_last:
  assumes m: "segments_ok m" and l: "last_segment msg m = Inr (before, s)"
    and "dict_get ''segment_id'' s' = dict_get ''segment_id'' s"
  shows "segments_ok (dict_put ''segments'' (PList (before @ [PDict s'])) m)"
    and "seg_count (dict_put ''segments'' (PList (before @ [PDict s'])) m) = seg_count m"
proof -
  from last_segment_ok [OF m l] obtain bs where bs: "before = map PDict bs"
    "dict_get ''segments'' m = PList (map PDict (bs @ [s]))"
    "Suc (length bs) \<le> MAX_SESSION_SEGMENTS" "map (dict_get ''segment_id'') (bs @ [s]) = map PNat [0..<Suc (length bs)]"
    by blast
  show "segments_ok (dict_put ''segments'' (PList (before @ [PDict s'])) m)"
    by (rule segments_okI [of _ "bs @ [s']"]) (use bs assms(3) in simp_all)
  show "seg_count (dict_put ''segments'' (PList (before @ [PDict s'])) m) = seg_count m"
    by (simp add: seg_count_def bs)
qed

lemma stamp_segment_id: "stamp_segment t s = Inr s' \<Longrightarrow> dict_get ''segment_id'' s' = dict_get ''segment_id'' s"
  by (auto simp: stamp_segment_def Let_def split: option.splits if_splits)

lemma stamp_segments_ids:
  "stamp_segments i t (map PDict ss) = Inr vs
     \<Longrightarrow> \<exists>ss'. vs = map PDict ss' \<and> map (dict_get ''segment_id'') ss' = map (dict_get ''segment_id'') ss"
proof (induction ss arbitrary: vs)
  case Nil
  then show ?case by simp
next
  case (Cons s ss)
  show ?case
  proof (cases "py_eq_int (dict_get ''segment_id'' s) (int i)")
    case True
    with Cons.prems obtain s' where "stamp_segment t s = Inr s'" "vs = PDict s' # map PDict ss"
      by (auto simp: bind_r_eq_Inr)
    then show ?thesis by (intro exI [of _ "s' # ss"]) (simp add: stamp_segment_id)
  next
    case False
    with Cons.prems obtain vs' where "stamp_segments i t (map PDict ss) = Inr vs'" "vs = PDict s # vs'"
      by (auto simp: bind_r_eq_Inr)
    with Cons.IH [of vs'] obtain ss' where "vs' = map PDict ss'" "vs = PDict s # map PDict ss'"
      "map (dict_get ''segment_id'') ss' = map (dict_get ''segment_id'') ss" by blast
    then show ?thesis by (intro exI [of _ "s # ss'"]) simp
  qed
qed

subsection \<open>What a change of one key leaves alone\<close>

lemma ownership_put [simp]:
  "k \<noteq> ''active_operations'' \<Longrightarrow> k \<noteq> ''operation_summary'' \<Longrightarrow> ownership_ok (dict_put k v m) = ownership_ok m"
  by (simp add: ownership_ok_def)

lemma attempts_put [simp]: "k \<noteq> ''pending_attempts'' \<Longrightarrow> attempts_ok (dict_put k v m) = attempts_ok m"
  by (simp add: attempts_ok_def)

lemma segments_put [simp]: "k \<noteq> ''segments'' \<Longrightarrow> segments_ok (dict_put k v m) = segments_ok m"
  by (simp add: segments_ok_def)

lemma op_keys_put [simp]: "k \<noteq> ''active_operations'' \<Longrightarrow> op_keys (dict_put k v m) = op_keys m"
  by (simp add: op_keys_def)

lemma waiting_put [simp]: "k \<noteq> ''pending_attempts'' \<Longrightarrow> waiting (dict_put k v m) = waiting m"
  by (simp add: waiting_def)

lemma seg_count_put [simp]: "k \<noteq> ''segments'' \<Longrightarrow> seg_count (dict_put k v m) = seg_count m"
  by (simp add: seg_count_def)

lemma keeps_put:
  "k \<notin> {''schema_version'', ''session_id'', ''next_evidence_seq'', ''storage'', ''active_operations'',
          ''operation_summary'', ''pending_attempts'', ''segments''}
     \<Longrightarrow> keeps (tracks K N) (\<lambda>m. Inr (dict_put k (v m) m)) (tracks K N)"
  by (rule keepsI) (auto simp: doc_core_def tracks_def)

lemma get_dict_Inr [result_simps]: "get_dict msg k m = Inr d \<longleftrightarrow> dict_get k m = PDict d"
  by (auto simp: get_dict_def split: pyval.splits)

lemma v2_count_Inr [result_simps]: "v2_count s k = Inr n \<longleftrightarrow> dict_get k s = PNat n"
  by (auto simp: v2_count_def split: pyval.splits)

lemma v2_next_sequence_Inr [result_simps]: "v2_next_sequence m = Inr n \<longleftrightarrow> dict_get ''next_evidence_seq'' m = PNat n"
  by (auto simp: v2_next_sequence_def split: pyval.splits)

lemma add_count_Inr [result_simps]:
  "add_count k d s = Inr s' \<longleftrightarrow> (\<exists>n. dict_get k s = PNat n \<and> s' = dict_put k (PInt (int n + d)) s)"
  by (auto simp: add_count_def bind_r_eq_Inr v2_count_Inr)

subsection \<open>Stamps and segments\<close>

lemma keeps_stamp: "keeps (tracks K N) (record_metadata_segment_timestamp i t) (tracks K N)"
proof (rule keepsI)
  fix m m'
  assume m: "doc_core m" "tracks K N m" and f: "record_metadata_segment_timestamp i t m = Inr m'"
  from m obtain ss where ss: "dict_get ''segments'' m = PList (map PDict ss)" "1 \<le> length ss"
      "length ss \<le> MAX_SESSION_SEGMENTS" "map (dict_get ''segment_id'') ss = map PNat [0..<length ss]"
    by (auto simp: doc_core_def segments_ok_def)
  with f obtain vs where vs: "stamp_segments i t (map PDict ss) = Inr vs" "m' = dict_put ''segments'' (PList vs) m"
    by (auto simp: record_metadata_segment_timestamp_def bind_r_eq_Inr)
  from stamp_segments_ids [OF vs(1)] obtain ss' where ss': "vs = map PDict ss'"
    "map (dict_get ''segment_id'') ss' = map (dict_get ''segment_id'') ss" by blast
  from ss'(2) have l: "length ss' = length ss" using map_eq_imp_length_eq by blast
  have "segments_ok m'"
    by (rule segments_okI [of _ ss']) (use vs ss ss' l in simp_all)
  then show "doc_core m' \<and> frame m m' \<and> tracks K N m'"
    using m vs ss ss' l by (simp add: doc_core_def tracks_def seg_count_def)
qed

definition puts_last :: "pydict \<Rightarrow> pydict \<Rightarrow> bool" where
  "puts_last m m' \<longleftrightarrow>
     (\<exists>msg before s s'. last_segment msg m = Inr (before, s)
        \<and> dict_get ''segment_id'' s' = dict_get ''segment_id'' s
        \<and> m' = dict_put ''segments'' (PList (before @ [PDict s'])) m)"

lemma puts_lastI:
  "last_segment msg m = Inr (before, s) \<Longrightarrow> dict_get ''segment_id'' s' = dict_get ''segment_id'' s
     \<Longrightarrow> puts_last m (dict_put ''segments'' (PList (before @ [PDict s'])) m)"
  unfolding puts_last_def by blast

lemma keeps_last_segment:
  assumes "\<And>m m'. doc_core m \<Longrightarrow> f m = Inr m' \<Longrightarrow>
     m' = m \<or> puts_last m m'"
  shows "keeps (tracks K N) f (tracks K N)"
proof (rule keepsI)
  fix m m'
  assume m: "doc_core m" "tracks K N m" and f: "f m = Inr m'"
  have core: "segments_ok m" using m by (simp add: doc_core_def)
  from assms [OF m(1) f] show "doc_core m' \<and> frame m m' \<and> tracks K N m'"
  proof
    assume "m' = m"
    with m show ?thesis by simp
  next
    assume "puts_last m m'"
    then obtain msg before s s' where l: "last_segment msg m = Inr (before, s)"
      "dict_get ''segment_id'' s' = dict_get ''segment_id'' s"
      "m' = dict_put ''segments'' (PList (before @ [PDict s'])) m" unfolding puts_last_def by blast
    from segments_put_last [OF core l(1,2)] l(3) m show ?thesis
      by (simp add: doc_core_def tracks_def)
  qed
qed

lemma keeps_close_segment: "keeps (tracks K N) (close_current_segment t r) (tracks K N)"
  by (rule keeps_last_segment)
     (auto simp: close_current_segment_def bind_r_eq_Inr split: if_splits intro!: puts_lastI)

lemma keeps_publish:
  assumes "N < MAX_SESSION_SEGMENTS" and "sn_segment snapshot \<noteq> None"
  shows "keeps (tracks K N) (\<lambda>m. publish_segment snapshot t m a) (tracks K (Suc N))"
proof (rule keepsI)
  fix m m'
  assume m: "doc_core m" "tracks K N m" and f: "publish_segment snapshot t m a = Inr m'"
  then obtain before s where l: "last_segment ''v2 session segments are malformed'' m = Inr (before, s)"
    by (auto simp: publish_segment_def bind_r_eq_Inr)
  define s' where "s' = (if dict_get ''ended_at'' s = PNone then
      dict_put ''end_reason'' (str_val ''reconnect'') (dict_put ''ended_at'' (PStr t) s) else s)"
  have s': "dict_get ''segment_id'' s' = dict_get ''segment_id'' s"
    "m' = dict_put ''segments'' (PList (before @ [PDict s',
       PDict (backend_segment_json (with_segment_id (length before + 1) snapshot) t)])) m"
    using f l by (simp_all add: publish_segment_def Let_def s'_def)
  from m(1) have "segments_ok m" by (simp add: doc_core_def)
  from last_segment_ok [OF this l] obtain bs where bs: "before = map PDict bs"
    "dict_get ''segments'' m = PList (map PDict (bs @ [s]))"
    "Suc (length bs) \<le> MAX_SESSION_SEGMENTS" "map (dict_get ''segment_id'') (bs @ [s]) = map PNat [0..<Suc (length bs)]"
    by blast
  let ?new = "backend_segment_json (with_segment_id (length before + 1) snapshot) t"
  have new: "dict_get ''segment_id'' ?new = PNat (Suc (length bs))"
    using assms(2) bs(1) by (auto simp: backend_segment_json_def with_segment_id_def)
  have n: "Suc (length bs) \<le> N" using m(2) bs(2) by (simp add: tracks_def seg_count_def)
  have "segments_ok m'"
    by (rule segments_okI [of _ "bs @ [s', ?new]"]) (use bs s' new n assms(1) in simp_all)
  then show "doc_core m' \<and> frame m m' \<and> tracks K (Suc N) m'"
    using m s' bs n by (simp add: doc_core_def tracks_def seg_count_def)
qed

text \<open>A disconnection ends the segment and counts a gap; a reconnection names the start of the new one.\<close>

lemma keeps_continuity: "keeps (tracks K N) (\<lambda>m. update_continuity e t m a) (tracks K N)"
proof (rule keepsI)
  fix m m'
  assume m: "doc_core m" "tracks K N m" and f: "update_continuity e t m a = Inr m'"
  have put: "doc_core m' \<and> frame m1 m' \<and> tracks K N m'" if "doc_core m1" "tracks K N m1" "m1 = m' \<or> puts_last m1 m'" for m1
    by (rule keepsD [OF keeps_last_segment [of "\<lambda>x. if x = m1 then Inr m' else Inr x"]])
       (use that in \<open>auto split: if_splits\<close>)
  show "doc_core m' \<and> frame m m' \<and> tracks K N m'"
  proof (cases "e \<in> {lit ''reconnect_succeeded'', lit ''reacquire_succeeded''}")
    case True
    with f have "puts_last m m'"
      by (auto simp: update_continuity_def bind_r_eq_Inr catch_r_eq_Inr intro!: puts_lastI)
    with put m show ?thesis by blast
  next
    case reopened: False
    show ?thesis
    proof (cases "e \<in> {lit ''unexpected_disconnect'', lit ''released''}")
      case False
      with f reopened have "m' = m" by (simp add: update_continuity_def)
      with m show ?thesis by simp
    next
      case True
      with f reopened obtain c where c: "dict_get ''continuity'' m = PDict c"
        by (auto simp: update_continuity_def bind_r_eq_Inr get_dict_Inr)
      obtain i where i: "dict_get ''observation_gap_count'' c = PInt i"
        by (cases "dict_get ''observation_gap_count'' c")
           (use f reopened True c in \<open>auto simp: update_continuity_def get_dict_def\<close>)
      let ?m = "dict_put ''continuity'' (PDict (dict_put ''observation_gap_count'' (PInt (i + 1)) c)) m"
      have l: "?m = m' \<or> puts_last ?m m'"
        using f reopened True c i
        by (auto simp: update_continuity_def get_dict_def bind_r_eq_Inr Let_def intro!: puts_lastI split: if_splits)
      have "doc_core ?m" "tracks K N ?m" "frame m ?m" using m by (simp_all add: doc_core_def tracks_def)
      with put [OF _ _ l] show ?thesis using frame_trans by blast
    qed
  qed
qed

subsection \<open>Counters of lost bytes and long lines\<close>

lemma loss_shape:
  assumes "record_v2_integrity_loss d c l m = Inr m'"
  shows "\<exists>v. m' = dict_put ''evidence_quality'' v m"
proof -
  from assms obtain quality integrity where q: "dict_get ''evidence_quality'' m = PDict quality"
    "dict_get ''backend_integrity'' quality = PDict integrity"
    by (auto simp: record_v2_integrity_loss_def bind_r_eq_Inr get_dict_Inr)
  show ?thesis
    by (cases "dict_get ''dropped_bytes'' integrity")
       (use assms q in \<open>auto simp: record_v2_integrity_loss_def get_dict_def Let_def split: if_splits\<close>)
qed

lemma keeps_shape: "(\<And>m m'. f m = Inr m' \<Longrightarrow> \<exists>v. m' = dict_put k v m)
    \<Longrightarrow> k \<notin> {''schema_version'', ''session_id'', ''next_evidence_seq'', ''storage'', ''active_operations'',
          ''operation_summary'', ''pending_attempts'', ''segments''}
    \<Longrightarrow> keeps (tracks K N) f (tracks K N)"
  by (rule keepsI) (fastforce simp: doc_core_def tracks_def)

lemma keeps_loss: "keeps (tracks K N) (record_v2_integrity_loss d c l) (tracks K N)"
  by (rule keeps_shape [OF loss_shape]) simp_all

lemma keeps_current_stamp: "keeps (tracks K N) (stamp_current_segment t) (tracks K N)"
  by (rule keepsI) (auto simp: stamp_current_segment_def bind_r_eq_Inr dest: keepsD [OF keeps_stamp])

lemma keeps_overflow: "keeps (tracks K N) (\<lambda>m. record_overflow e d r m a) (tracks K N)"
  unfolding record_overflow_def Let_def by (rule keeps_bind [OF keeps_loss keeps_current_stamp])

lemma keeps_status: "keeps (tracks K N) (\<lambda>m. record_status e d l rd rl m a) (tracks K N)"
  unfolding record_status_def Let_def by (rule keeps_bind [OF keeps_loss keeps_current_stamp])

lemma keeps_line_processing: "keeps (tracks K N) (record_line_processing k) (tracks K N)"
  by (rule keeps_shape [of _ "''line_processing''"]) (auto simp: record_line_processing_def bind_r_eq_Inr Let_def)

lemma keeps_same: "keeps P Inr P"
  by (rule keepsI) simp

text \<open>The evidence counter is set before the mutator runs, so it has a lemma of its own.\<close>

lemma keeps_uart_metadata:
  assumes "doc_core m" and "tracks K N m" and "uart_metadata e result next m = Inr m'"
  shows "doc_core m' \<and> tracks K N m' \<and> frame (dict_put ''next_evidence_seq'' (PNat next) m) m'"
proof -
  let ?m = "dict_put ''next_evidence_seq'' (PNat next) m"
  have m: "doc_core ?m" "tracks K N ?m" using assms by (simp_all add: doc_core_def tracks_def)
  have k: "keeps (tracks K N) (\<lambda>m. bind_r (if k = 0 then Inr m else record_line_processing k m)
      (record_metadata_segment_timestamp i t)) (tracks K N)" for k i t
    by (cases "k = 0") (simp_all add: keeps_stamp keeps_bind [OF keeps_line_processing keeps_stamp])
  show ?thesis
  proof (cases result)
    case None
    with assms m show ?thesis by (simp add: uart_metadata_def Let_def)
  next
    case (Some x)
    with assms(3) keepsD [OF k m] show ?thesis by (auto simp: uart_metadata_def Let_def)
  qed
qed

subsection \<open>Operations\<close>

lemma keeps_with_operations:
  assumes "\<And>ops summary ops' summary'. \<lbrakk>dict_keys ops = K; distinct K; all_open ops;
      dict_get ''active'' summary = PNat (length ops); change ops summary = Inr (ops', summary')\<rbrakk>
     \<Longrightarrow> dict_keys ops' = K' \<and> distinct K' \<and> all_open ops'
         \<and> dict_get ''active'' summary' = PNat (length ops')"
  shows "keeps (tracks (K, W) N) (with_operations change) (tracks (K', W) N)"
proof (rule keepsI)
  fix m m'
  assume m: "doc_core m" "tracks (K, W) N m" and f: "with_operations change m = Inr m'"
  from m(1) have "ownership_ok m" by (simp add: doc_core_def)
  then obtain ops summary where o: "dict_get ''active_operations'' m = PDict ops"
    "dict_get ''operation_summary'' m = PDict summary" "dict_get ''active'' summary = PNat (length ops)"
    "distinct (dict_keys ops)" "all_open ops"
    unfolding ownership_ok_def by blast
  have K: "dict_keys ops = K" using m(2) o(1) by (simp add: tracks_def op_keys_def)
  from f o obtain ops' summary' where c: "change ops summary = Inr (ops', summary')"
    "m' = dict_put ''operation_summary'' (PDict summary') (dict_put ''active_operations'' (PDict ops') m)"
    by (simp add: with_operations_def get_dict_def) (auto simp: bind_r_eq_Inr)
  from assms [OF K _ o(5,3) c(1)] o(4) K
  have r: "dict_keys ops' = K'" "distinct K'" "all_open ops'"
    "dict_get ''active'' summary' = PNat (length ops')" by blast+
  then have "ownership_ok m'"
    unfolding ownership_ok_def using c(2) by (intro exI [of _ ops'] exI [of _ summary']) simp
  then show "doc_core m' \<and> frame m m' \<and> tracks (K', W) N m'"
    using m c(2) r(1) by (simp add: doc_core_def tracks_def op_keys_def)
qed

lemma set_dict_set: "x \<in> set (dict_set d k v) \<Longrightarrow> x = (k, v) \<or> x \<in> set d"
  by (induction d k v rule: dict_set.induct) (auto split: if_splits)

lemma length_dict_pop: "distinct (dict_keys d) \<Longrightarrow> k \<in> set (dict_keys d) \<Longrightarrow> Suc (length (dict_pop d k)) = length d"
proof (induction d)
  case Nil
  then show ?case by (simp add: dict_keys_def)
next
  case (Cons e d)
  show ?case
  proof (cases "fst e = k")
    case True
    with Cons.prems have "k \<notin> fst ` set d" by (simp add: dict_keys_def)
    then have "dict_pop d k = d" unfolding dict_pop_def by (intro filter_True) blast
    with True show ?thesis by (simp add: dict_pop_def)
  next
    case False
    with Cons show ?thesis by (simp add: dict_pop_def dict_keys_def)
  qed
qed

lemma open_operationI:
  "dict_get ''ranges'' d = PList (map PDict rs) \<Longrightarrow> rs \<noteq> []
     \<Longrightarrow> dict_get ''end_evidence_seq_exclusive'' (last rs) = PNone \<Longrightarrow> open_operation (PDict d)"
  unfolding open_operation_def by blast

lemma open_entry: "open_operation (operation_entry t (rs @ [open_range a]))"
  unfolding operation_entry_def by (rule open_operationI [of _ "rs @ [open_range a]"]) (simp_all add: open_range_def)

lemma add_operation:
  assumes "dict_keys ops = K" and "distinct K" and "all_open ops" and "k \<notin> set K"
    and "open_operation v"
  shows "dict_keys (dict_set ops k v) = K @ [k] \<and> distinct (K @ [k])
     \<and> all_open (dict_set ops k v) \<and> length (dict_set ops k v) = Suc (length ops)"
  using assms by (auto simp: dict_set_new dict_keys_def all_open_def)

lemma keeps_continue:
  assumes "k \<notin> set K"
  shows "keeps (tracks (K, W) N) (\<lambda>m. continue_operation k t rs m a) (tracks (K @ [k], W) N)"
  unfolding continue_operation_def
proof (rule keeps_with_operations)
  fix ops summary ops' summary'
  assume h: "dict_keys ops = K" "distinct K" "all_open ops"
    "dict_get ''active'' summary = PNat (length ops)"
    "bind_r (add_count ''active'' 1 summary) (\<lambda>summary'.
         Inr (dict_set ops k (operation_entry t (rs @ [open_range a])), summary')) = Inr (ops', summary')"
  from add_operation [OF h(1-3) assms open_entry] h(4,5)
  show "dict_keys ops' = K @ [k] \<and> distinct (K @ [k]) \<and> all_open ops'
      \<and> dict_get ''active'' summary' = PNat (length ops')"
    by (auto simp: bind_r_eq_Inr add_count_Inr)
qed

lemma keeps_started:
  "keeps (tracks (K, W) N) (\<lambda>m. operation_started k t m a) (tracks (K @ [k], W) N)"
  unfolding operation_started_def
proof (rule keeps_with_operations)
  fix ops summary ops' summary'
  assume h: "dict_keys ops = K" "distinct K" "all_open ops"
    "dict_get ''active'' summary = PNat (length ops)"
    "(if map_of ops k \<noteq> None then Inl (ValueError ''v2 operation ID has already been used'')
       else bind_r (add_count ''started'' 1 summary) (\<lambda>s1. bind_r (add_count ''active'' 1 s1) (\<lambda>s2.
           Inr (dict_set ops k (operation_entry (PStr t) [open_range a]), s2)))) = Inr (ops', summary')"
  then have new: "k \<notin> set K" by (auto simp: map_of_eq_None_dict split: if_splits)
  have "open_operation (operation_entry (PStr t) [open_range a])" using open_entry [of _ "[]"] by simp
  from add_operation [OF h(1-3) new this] h(4,5)
  show "dict_keys ops' = K @ [k] \<and> distinct (K @ [k]) \<and> all_open ops'
      \<and> dict_get ''active'' summary' = PNat (length ops')"
    by (auto simp: bind_r_eq_Inr add_count_Inr split: if_splits)
qed

lemma keeps_ended:
  "keeps (tracks (K, W) N) (\<lambda>m. operation_ended k outcome m a) (tracks (filter (\<lambda>i. i \<noteq> k) K, W) N)"
  unfolding operation_ended_def
proof (rule keeps_with_operations)
  fix ops summary ops' summary'
  assume h: "dict_keys ops = K" "distinct K" "all_open ops"
    "dict_get ''active'' summary = PNat (length ops)"
    "(if map_of ops k = None then Inl KeyError
       else bind_r (add_count ''active'' (- 1) summary) (\<lambda>s1.
         bind_r (add_count (if outcome = lit ''error'' then ''failed'' else ''completed'') 1 s1) (\<lambda>s2.
           Inr (dict_pop ops k, s2)))) = Inr (ops', summary')"
  then have "k \<in> set (dict_keys ops)" by (auto simp: map_of_eq_None_dict split: if_splits)
  with length_dict_pop [of ops k] h(1,2) have l: "Suc (length (dict_pop ops k)) = length ops" by simp
  have ops': "ops' = dict_pop ops k" using h(5) by (auto simp: bind_r_eq_Inr split: if_splits)
  have "dict_get ''active'' summary' = PInt (int (length ops) - 1)"
    using h(4,5) by (auto simp: bind_r_eq_Inr add_count_Inr split: if_splits)
  moreover have "int (length ops) - 1 = int (length ops')" using l ops' by simp
  ultimately show "dict_keys ops' = filter (\<lambda>i. i \<noteq> k) K \<and> distinct (filter (\<lambda>i. i \<noteq> k) K)
      \<and> all_open ops' \<and> dict_get ''active'' summary' = PNat (length ops')"
    using h(1-3) by (simp add: ops' dict_keys_dict_pop all_open_def) (auto simp: dict_pop_def)
qed

subsection \<open>Attempts\<close>

lemma v2_pending_attempts_Inr:
  "v2_pending_attempts m = Inr w \<longleftrightarrow>
     dict_get ''pending_attempts'' m = PDict w \<and> (\<forall>e \<in> set w. check_pending_attempt (fst e) (snd e) = Inr ())"
proof -
  have c: "check_pending_attempts d = Inr () \<longleftrightarrow> (\<forall>e \<in> set d. check_pending_attempt (fst e) (snd e) = Inr ())" for d
    by (induction d rule: check_pending_attempts.induct) (auto simp: bind_r_eq_Inr)
  show ?thesis
    by (auto simp: v2_pending_attempts_def bind_r_eq_Inr get_dict_Inr c)
qed

lemma attempts_okI:
  "dict_get ''pending_attempts'' m = PDict w \<Longrightarrow> distinct (dict_keys w)
     \<Longrightarrow> \<forall>e \<in> set w. check_pending_attempt (fst e) (snd e) = Inr () \<Longrightarrow> attempts_ok m"
  unfolding attempts_ok_def by (intro exI [of _ w]) auto

lemma attempts_okE:
  assumes "attempts_ok m"
  obtains w where "dict_get ''pending_attempts'' m = PDict w" "distinct (dict_keys w)"
    "\<forall>e \<in> set w. check_pending_attempt (fst e) (snd e) = Inr ()"
  using assms unfolding attempts_ok_def by fastforce

lemma put_attempts:
  assumes "doc_core m" and "tracks K N m" and "distinct (dict_keys w)"
    and "\<forall>e \<in> set w. check_pending_attempt (fst e) (snd e) = Inr ()"
  shows "doc_core (dict_put ''pending_attempts'' (PDict w) m) \<and> frame m (dict_put ''pending_attempts'' (PDict w) m)
     \<and> tracks (fst K, w) N (dict_put ''pending_attempts'' (PDict w) m)"
  using assms attempts_okI [of "dict_put ''pending_attempts'' (PDict w) m" w] by (simp add: doc_core_def tracks_def waiting_def)

lemma pending_entry_ok:
  "valid_id (va_session_id a)
     \<Longrightarrow> check_pending_attempt (v2_attempt_key (lit (attempt_name t)) i) (PDict (pending_entry t i a)) = Inr ()"
  by (cases t) (auto simp: check_pending_attempt_def pending_entry_def one_of_def str_val_def valid_id_def)

lemma keeps_pending:
  assumes "valid_id (va_session_id a)"
  shows "keeps (tracks K N) (\<lambda>m. record_pending_attempt t i m a)
     (tracks (fst K, dict_set (snd K) (v2_attempt_key (lit (attempt_name t)) i) (PDict (pending_entry t i a))) N)"
proof (rule keepsI)
  fix m m'
  assume m: "doc_core m" "tracks K N m" and f: "record_pending_attempt t i m a = Inr m'"
  from m have "attempts_ok m" by (simp add: doc_core_def)
  then obtain w where w: "dict_get ''pending_attempts'' m = PDict w" "distinct (dict_keys w)"
    "\<forall>e \<in> set w. check_pending_attempt (fst e) (snd e) = Inr ()" by (rule attempts_okE)
  have w': "snd K = w" using m(2) w(1) by (simp add: tracks_def waiting_def)
  let ?w = "dict_set w (v2_attempt_key (lit (attempt_name t)) i) (PDict (pending_entry t i a))"
  have m': "m' = dict_put ''pending_attempts'' (PDict ?w) m"
    using f w by (auto simp: record_pending_attempt_def bind_r_eq_Inr v2_pending_attempts_Inr Let_def split: if_splits)
  have "\<forall>e \<in> set ?w. check_pending_attempt (fst e) (snd e) = Inr ()"
    using w(3) pending_entry_ok [OF assms, of t i] by (fastforce dest: set_dict_set)
  with put_attempts [OF m distinct_dict_set [OF w(2)]] show "doc_core m' \<and> frame m m' \<and> tracks (fst K, dict_set (snd K) (v2_attempt_key (lit (attempt_name t)) i) (PDict (pending_entry t i a))) N m'"
    unfolding m' w' by blast
qed

lemma keeps_resolve: "keeps (tracks K N) (\<lambda>m. resolve_attempt t i m a)
     (tracks (fst K, dict_pop (snd K) (v2_attempt_key (lit (attempt_name t)) i)) N)"
proof (rule keepsI)
  fix m m'
  assume m: "doc_core m" "tracks K N m" and f: "resolve_attempt t i m a = Inr m'"
  from m have "attempts_ok m" by (simp add: doc_core_def)
  then obtain w where w: "dict_get ''pending_attempts'' m = PDict w" "distinct (dict_keys w)"
    "\<forall>e \<in> set w. check_pending_attempt (fst e) (snd e) = Inr ()" by (rule attempts_okE)
  have w': "snd K = w" using m(2) w(1) by (simp add: tracks_def waiting_def)
  let ?w = "dict_pop w (v2_attempt_key (lit (attempt_name t)) i)"
  have m': "m' = dict_put ''pending_attempts'' (PDict ?w) m"
    using f w by (auto simp: resolve_attempt_def bind_r_eq_Inr v2_pending_attempts_Inr Let_def split: if_splits)
  have "\<forall>e \<in> set ?w. check_pending_attempt (fst e) (snd e) = Inr ()"
    using w(3) by (simp add: dict_pop_def)
  with put_attempts [OF m distinct_dict_pop [OF w(2)]] show "doc_core m' \<and> frame m m' \<and> tracks (fst K, dict_pop (snd K) (v2_attempt_key (lit (attempt_name t)) i)) N m'"
    unfolding m' w' by blast
qed

text \<open>The attempts of the predecessor that wait, and its closed segment, move to the successor.\<close>

lemma carry_segment_id: "dict_get ''segment_id'' (carry_segment prior s) = dict_get ''segment_id'' s"
  by (auto simp: carry_segment_def split: option.split)

lemma keeps_transfer:
  assumes "distinct (dict_keys w)" and "\<forall>e \<in> set w. check_pending_attempt (fst e) (snd e) = Inr ()"
  shows "keeps (tracks K N) (\<lambda>m. transfer_rollover_ownership w prior reopened m a) (tracks (fst K, w) N)"
proof (rule keepsI)
  fix m m'
  assume m: "doc_core m" "tracks K N m" and f: "transfer_rollover_ownership w prior reopened m a = Inr m'"
  let ?m = "dict_put ''pending_attempts'' (PDict w) m"
  have m1: "doc_core ?m" "frame m ?m" "tracks (fst K, w) N ?m" using put_attempts [OF m assms] by blast+
  show "doc_core m' \<and> frame m m' \<and> tracks (fst K, w) N m'"
  proof (cases "\<not> reopened \<and> dict_get ''ended_at'' prior \<noteq> PNone")
    case False
    with f have "m' = ?m" by (auto simp: transfer_rollover_ownership_def Let_def split: if_splits)
    with m1 show ?thesis by simp
  next
    case True
    from m1(1) obtain ss where ss: "dict_get ''segments'' m = PList (map PDict ss)" "1 \<le> length ss"
        "length ss \<le> MAX_SESSION_SEGMENTS" "map (dict_get ''segment_id'') ss = map PNat [0..<length ss]"
      by (auto simp: doc_core_def segments_ok_def)
    then obtain s rest where s: "ss = s # rest" by (cases ss) auto
    have t: "transfer_rollover_ownership w prior reopened m a =
        (case dict_get ''continuity'' m of
           PDict c \<Rightarrow> Inr (dict_put ''continuity'' (PDict (dict_put ''observation_gap_count'' (PInt 1) c))
                   (dict_put ''segments'' (PList (PDict (carry_segment prior s) # map PDict rest)) ?m))
         | _ \<Rightarrow> Inl (TypeError ''object does not support item assignment''))"
      using True ss(1) s by (simp add: transfer_rollover_ownership_def split: pyval.split)
    obtain c where c: "m' = dict_put ''continuity'' c
        (dict_put ''segments'' (PList (PDict (carry_segment prior s) # map PDict rest)) ?m)"
      using f t by (auto split: pyval.splits)
    have "segments_ok m'"
      by (rule segments_okI [of _ "carry_segment prior s # rest"]) (use c ss s in \<open>simp_all add: carry_segment_id\<close>)
    with m1 c ss s show ?thesis
      by (simp add: doc_core_def tracks_def seg_count_def)
  qed
qed

subsection \<open>The end of a session\<close>

lemma keeps_relinquish: "keeps (tracks K N) relinquish_v2_ownership (tracks ([], snd K) N)"
proof (rule keepsI)
  fix m m'
  assume m: "doc_core m" "tracks K N m" and f: "relinquish_v2_ownership m = Inr m'"
  from f obtain summary v where m': "m' = dict_put ''operation_summary'' (PDict (dict_put ''active'' (PInt 0) summary))
      (dict_put ''interrupted_operations'' v (dict_put ''active_operations'' (PDict []) m))"
    by (auto simp: relinquish_v2_ownership_def Let_def bind_r_eq_Inr split: if_splits)
  then show "doc_core m' \<and> frame m m' \<and> tracks ([], snd K) N m'"
    using m by (simp add: doc_core_def tracks_def op_keys_def ownership_ok_def all_open_def dict_keys_def)
qed

lemma keeps_link: "keeps (tracks K N) (link_successor sid) (tracks ([], []) N)"
proof (rule keepsI)
  fix m m'
  assume m: "doc_core m" "tracks K N m" and f: "link_successor sid m = Inr m'"
  from f obtain summary where m': "m' = dict_put ''pending_attempts'' (PDict []) (dict_put ''active_operations'' (PDict [])
      (dict_put ''operation_summary'' (PDict (dict_put ''active'' (PInt 0) summary)) (dict_put ''successor_session_id'' (PStr sid) m)))"
    by (auto simp: link_successor_def Let_def bind_r_eq_Inr split: if_splits)
  then show "doc_core m' \<and> frame m m' \<and> tracks ([], []) N m'"
    using m by (simp add: doc_core_def tracks_def op_keys_def ownership_ok_def all_open_def attempts_ok_def waiting_def dict_keys_def)
qed

lemma keeps_fault: "keeps (tracks K N) record_persistence_fault (tracks K N)"
  by (rule keeps_shape [of _ "''evidence_quality''"]) (auto simp: record_persistence_fault_def bind_r_eq_Inr)

lemma keeps_terminal: "keeps (tracks K N) (\<lambda>m. Inr (terminal_fields state r e tr t m)) (tracks K N)"
  by (rule keepsI) (auto simp: terminal_fields_def Let_def doc_core_def tracks_def split: if_splits)

section \<open>Records\<close>

lemma numbered_less: "numbered q n \<Longrightarrow> r \<in> set (all_records q) \<Longrightarrow> record_seq r < n"
proof -
  assume n: "numbered q n" and r: "r \<in> set (all_records q)"
  from n have "set_mset (mset (map record_seq (all_records q))) = set_mset (mset [0..<n])" by (simp add: numbered_def)
  then have "record_seq ` set (all_records q) = {0..<n}" by simp
  with r show "record_seq r < n" by auto
qed

lemma stream_sorted_append:
  assumes "stream_sorted rs" and "\<forall>r \<in> set rs. record_seq r < n" and "sorted_wrt (<) (map record_seq new)"
    and "\<forall>r \<in> set new. n \<le> record_seq r"
  shows "stream_sorted (rs @ new)"
  using assms by (fastforce simp: stream_sorted_def sorted_wrt_append)

lemma numbered_grow:
  assumes n: "numbered q n" and le: "n \<le> n'"
    and q': "vs_uart q' = vs_uart q @ a" "vs_operation q' = vs_operation q @ b"
      "vs_hardware q' = vs_hardware q @ c" "vs_connection q' = vs_connection q @ d"
    and new: "map record_seq (a @ b @ c @ d) = [n..<n']"
      "list_all (\<lambda>r. dict_get ''evidence_seq'' r = PNat (record_seq r)) (a @ b @ c @ d)"
  shows "numbered q' n'"
proof -
  have "mset (map record_seq (all_records q')) = mset (map record_seq (all_records q)) + mset (map record_seq (a @ b @ c @ d))"
    by (simp add: all_records_def q')
  also have "\<dots> = mset [0..<n] + mset [n..<n']" using n new(1) by (simp add: numbered_def)
  also have "\<dots> = mset [0..<n']" using le upt_add_eq_append [of 0 n "n' - n"] by simp
  finally have m: "mset (map record_seq (all_records q')) = mset [0..<n']" .
  have w: "sorted_wrt (<) (map record_seq (a @ b @ c @ d))" using new(1) by simp
  have ge: "\<forall>r \<in> set (a @ b @ c @ d). n \<le> record_seq r"
  proof
    fix r
    assume "r \<in> set (a @ b @ c @ d)"
    then have "record_seq r \<in> set (map record_seq (a @ b @ c @ d))" unfolding set_map by (rule imageI)
    then show "n \<le> record_seq r" unfolding new(1) by simp
  qed
  have lt: "\<forall>r \<in> set (all_records q). record_seq r < n" using numbered_less [OF n] by blast
  show ?thesis
    unfolding numbered_def
  proof (intro conjI)
    show "list_all (\<lambda>r. dict_get ''evidence_seq'' r = PNat (record_seq r)) (all_records q')"
      using n new(2) by (auto simp: numbered_def all_records_def q' list_all_iff)
    show "stream_sorted (vs_uart q')" "stream_sorted (vs_operation q')"
      "stream_sorted (vs_hardware q')" "stream_sorted (vs_connection q')"
      unfolding q'
      by (rule stream_sorted_append [of _ n]; use n w ge lt in \<open>simp add: numbered_def all_records_def sorted_wrt_append\<close>)+
  qed (rule m)
qed

lemma record_seq_get: "dict_get ''evidence_seq'' r = PNat n \<Longrightarrow> record_seq r = n"
  by (simp add: record_seq_def)

lemma numbered_add:
  assumes "numbered q n" and "dict_get ''evidence_seq'' r = PNat n"
  shows "numbered (add_record target r q) (Suc n)"
  using assms record_seq_get [OF assms(2)]
  by (cases target)
     (auto intro: numbered_grow [where a = "[]" and b = "[r]" and c = "[]" and d = "[]"]
        numbered_grow [where a = "[]" and b = "[]" and c = "[r]" and d = "[]"]
        numbered_grow [where a = "[]" and b = "[]" and c = "[]" and d = "[r]"])

lemma evidence_bytes_add: "evidence_bytes E (add_record target r q) = evidence_bytes E q + en_jsonl_size E r"
  by (cases target) (simp_all add: evidence_bytes_def)

lemma add_record_same [simp]: "vs_raw (add_record target r q) = vs_raw q" "vs_uart (add_record target r q) = vs_uart q"
  "vs_patterns (add_record target r q) = vs_patterns q"
  by (cases target; simp)+

lemma offsets_append: "offsets_from k (rs @ rs') = (offsets_from k rs \<and> offsets_from (k + length (concat (map rec_data rs))) rs')"
  by (induction rs arbitrary: k) (auto simp: add.assoc)

text \<open>A unit of any shape: the new session with the accounted document keeps the invariant.\<close>

lemma account_ok:
  assumes q: "session_ok E sid q" and m: "m = vs_metadata q" and nx: "dict_get ''next_evidence_seq'' m = PNat n"
    and core: "doc_core m'" and fr: "frame (dict_put ''next_evidence_seq'' (PNat n') m) m'"
    and num: "numbered q n \<Longrightarrow> numbered q' n'" and raw: "raw_ok q \<Longrightarrow> raw_ok q'"
    and fits: "v2_unit_fits m unit_bytes = Inr True" and grow: "int (evidence_bytes E q') = int (evidence_bytes E q) + unit_bytes"
    and acc: "account_storage E q' m' = Inr m''"
  shows "session_ok E sid (q'\<lparr>vs_metadata := m''\<rparr>)"
    and "tracks K N m'' = tracks K N m'"
proof -
  from q m have d: "dict_get ''schema_version'' m = PInt 2" "dict_get ''session_id'' m = PStr sid" "valid_id sid"
      "numbered q n" "raw_ok q" "storage_ok E q m"
    using nx by (auto simp: session_ok_def doc_ok_def)
  then obtain st b where st: "dict_get ''storage'' m = PDict st" "dict_get ''evidence_budget_bytes'' st = PInt b"
    "dict_get ''evidence_bytes_written'' st = PNat (evidence_bytes E q)" by (auto simp: storage_ok_def)
  have le: "int (evidence_bytes E q') \<le> b"
    using fits st grow by (simp add: v2_unit_fits_def get_dict_def)
  have g: "dict_get ''storage'' m' = PDict st" "dict_get ''schema_version'' m' = PInt 2"
    "dict_get ''session_id'' m' = PStr sid" "dict_get ''next_evidence_seq'' m' = PNat n'"
    using fr st d by (simp_all add: frame_def)
  let ?st = "dict_put ''evidence_bytes_written'' (PNat (evidence_bytes E q')) st"
  have m'': "m'' = dict_put ''storage'' (PDict ?st) m'" using acc g by (simp add: account_storage_def)
  have "storage_ok E q' m''" unfolding storage_ok_def m'' using st le by simp
  moreover have "storage_ok E (q'\<lparr>vs_metadata := m''\<rparr>) m'' = storage_ok E q' m''"
    "numbered (q'\<lparr>vs_metadata := m''\<rparr>) n' = numbered q' n'" "raw_ok (q'\<lparr>vs_metadata := m''\<rparr>) = raw_ok q'"
    by (simp_all add: storage_ok_def evidence_bytes_def numbered_def all_records_def raw_ok_def)
  moreover have "doc_core m''" using core by (simp add: m'' doc_core_def)
  ultimately show "session_ok E sid (q'\<lparr>vs_metadata := m''\<rparr>)"
    using g num raw d by (simp add: session_ok_def doc_ok_def m'')
  show "tracks K N m'' = tracks K N m'" by (simp add: m'' tracks_def)
qed

end
