(* ===== verification/Store_Safety.thy ===== *)
theory Store_Safety
  imports Store_Invariant
begin

text \<open>
  What every operation of the version 2 store keeps, whatever steps fail. \<open>ends P c Q X\<close> is the Hoare
  logic of the store, with one condition for the normal end and one for exceptions; conditions speak of the
  sessions only. Appending a record and rolling over call each other, so their contracts are proved
  together, by induction on the depth; the operations rest on the contract of appending alone.
\<close>

section \<open>The logic of the store\<close>

type_synonym sessions = "ustr \<Rightarrow> v2_session option"

fun outcome_ok ::
  "('a \<Rightarrow> sessions \<Rightarrow> bool) \<Rightarrow> (sessions \<Rightarrow> bool) \<Rightarrow> (exc + 'a) \<times> v2_store \<Rightarrow> bool" where
  "outcome_ok Q X (Inl e, s) = X (so_sessions s)"
| "outcome_ok Q X (Inr a, s) = Q a (so_sessions s)"

definition ends ::
  "(sessions \<Rightarrow> bool) \<Rightarrow> 'a store_op \<Rightarrow> ('a \<Rightarrow> sessions \<Rightarrow> bool) \<Rightarrow> (sessions \<Rightarrow> bool) \<Rightarrow> bool" where
  "ends P c Q X \<longleftrightarrow> (\<forall>s. P (so_sessions s) \<longrightarrow> outcome_ok Q X (c s))"

lemma endsI: "(\<And>s. P (so_sessions s) \<Longrightarrow> outcome_ok Q X (c s)) \<Longrightarrow> ends P c Q X"
  by (simp add: ends_def)

lemma endsD: "ends P c Q X \<Longrightarrow> P (so_sessions s) \<Longrightarrow> outcome_ok Q X (c s)"
  by (simp add: ends_def)

lemma outcome_bind:
  assumes "outcome_ok R X (c s)" and "\<And>a s'. c s = (Inr a, s') \<Longrightarrow> R a (so_sessions s') \<Longrightarrow> outcome_ok Q X (f a s')"
  shows "outcome_ok Q X (bind_s c f s)"
proof -
  obtain r s' where c: "c s = (r, s')" by (cases "c s")
  with assms show ?thesis by (cases r) (simp_all add: bind_s_def)
qed

lemma ends_bind:
  assumes "ends P c R X" and "\<And>a. ends (R a) (f a) Q X"
  shows "ends P (bind_s c f) Q X"
  by (rule endsI, rule outcome_bind [OF endsD [OF assms(1)]]) (auto intro: endsD [OF assms(2)])

lemma ends_return: "(\<And>S. P S \<Longrightarrow> Q a S) \<Longrightarrow> ends P (return_s a) Q X"
  by (simp add: ends_def return_s_def)

lemma ends_raise: "(\<And>S. P S \<Longrightarrow> X S) \<Longrightarrow> ends P (raise_s e) Q X"
  by (simp add: ends_def raise_s_def)

lemma ends_pre: "ends P c Q X \<Longrightarrow> (\<And>S. P' S \<Longrightarrow> P S) \<Longrightarrow> ends P' c Q X"
  by (simp add: ends_def)

lemma outcome_mono: "outcome_ok Q X r \<Longrightarrow> (\<And>a S. Q a S \<Longrightarrow> Q' a S) \<Longrightarrow> (\<And>S. X S \<Longrightarrow> X' S) \<Longrightarrow> outcome_ok Q' X' r"
  by (cases "(Q, X, r)" rule: outcome_ok.cases) simp_all

lemma ends_post: "ends P c Q X \<Longrightarrow> (\<And>a S. Q a S \<Longrightarrow> Q' a S) \<Longrightarrow> ends P c Q' X"
  unfolding ends_def by (blast intro: outcome_mono)

lemma ends_if: "(b \<Longrightarrow> ends P c Q X) \<Longrightarrow> (\<not> b \<Longrightarrow> ends P d Q X) \<Longrightarrow> ends P (if b then c else d) Q X"
  by simp

lemma ends_split: "(\<And>k. ends (\<lambda>S. P S \<and> g S = k) c Q X) \<Longrightarrow> ends P c Q X"
  by (simp add: ends_def)

lemma ends_lift: "(\<And>a. r = Inr a \<Longrightarrow> ends P (f a) Q X) \<Longrightarrow> (\<And>S. P S \<Longrightarrow> X S) \<Longrightarrow> ends P (bind_s (lift_s r) f) Q X"
  by (cases r) (simp_all add: ends_def bind_s_def lift_s_def)

lemma ends_clock: "(\<And>t. ends P (f t) Q X) \<Longrightarrow> ends P (bind_s (read_clock E) f) Q X"
  by (simp add: ends_def bind_s_def read_clock_def)

lemma ends_step: "(\<And>r. ends P (f r) Q X) \<Longrightarrow> ends P (bind_s next_step f) Q X"
  by (simp add: ends_def bind_s_def next_step_def)

lemma ends_load:
  assumes "\<And>q. ends (\<lambda>S. P S \<and> S sid = Some q) (f q) Q X" and "\<And>S. P S \<Longrightarrow> X S"
  shows "ends P (bind_s (load_session sid) f) Q X"
proof (rule endsI)
  fix s :: v2_store
  assume s: "P (so_sessions s)"
  show "outcome_ok Q X (bind_s (load_session sid) f s)"
  proof (cases "so_sessions s sid")
    case None
    with s assms(2) show ?thesis by (simp add: bind_s_def load_session_def)
  next
    case (Some q)
    with s endsD [OF assms(1) [of q], of s] show ?thesis by (simp add: bind_s_def load_session_def)
  qed
qed

lemma ends_active:
  assumes "\<And>q. is_active_v2 (vs_metadata q) \<Longrightarrow> ends (\<lambda>S. P S \<and> S sid = Some q) (f (vs_metadata q)) Q X"
    and "\<And>S. P S \<Longrightarrow> X S"
  shows "ends P (bind_s (require_active_v2_metadata sid) f) Q X"
proof (rule endsI)
  fix s :: v2_store
  assume s: "P (so_sessions s)"
  note defs = bind_s_def require_active_v2_metadata_def load_session_def Let_def raise_s_def return_s_def
  show "outcome_ok Q X (bind_s (require_active_v2_metadata sid) f s)"
  proof (cases "so_sessions s sid")
    case None
    with s assms(2) show ?thesis by (simp add: defs)
  next
    case (Some q)
    show ?thesis
    proof (cases "is_active_v2 (vs_metadata q) \<and> dict_get ''session_id'' (vs_metadata q) = PStr sid")
      case False
      with s Some assms(2) show ?thesis by (auto simp: defs)
    next
      case True
      with s Some endsD [OF assms(1) [of q], of s] show ?thesis by (simp add: defs)
    qed
  qed
qed

text \<open>Code that only reads the sessions.\<close>

definition reads :: "'a store_op \<Rightarrow> bool" where
  "reads c \<longleftrightarrow> (\<forall>s. so_sessions (snd (c s)) = so_sessions s)"

lemma ends_reads:
  assumes "reads c" and "\<And>a. ends P (f a) Q X" and "\<And>S. P S \<Longrightarrow> X S"
  shows "ends P (bind_s c f) Q X"
proof (rule ends_bind [where R = "\<lambda>_. P"], rule endsI)
  fix s :: v2_store
  assume "P (so_sessions s)"
  moreover obtain r s' where c: "c s = (r, s')" by (cases "c s")
  moreover have "so_sessions s' = so_sessions s" using assms(1) c unfolding reads_def by (metis snd_conv)
  ultimately show "outcome_ok (\<lambda>_. P) X (c s)"
    using assms(3) by (cases r) simp_all
qed (rule assms(2))

named_theorems reads_intros \<open>code that only reads\<close>

lemma reads_bind [reads_intros]:
  assumes "reads c" and "\<And>a. reads (f a)"
  shows "reads (bind_s c f)"
  unfolding reads_def
proof
  fix s :: v2_store
  obtain r s' where c: "c s = (r, s')" by (cases "c s")
  moreover from assms(1) c have "so_sessions s' = so_sessions s" unfolding reads_def by (metis snd_conv)
  ultimately show "so_sessions (snd (bind_s c f s)) = so_sessions s"
    using assms(2) by (cases r) (simp_all add: bind_s_def reads_def)
qed

lemma reads_basic [reads_intros]:
  "reads (return_s a)" "reads (raise_s e)" "reads (lift_s r)" "reads (read_clock E)" "reads next_step"
  "reads (load_session sid)"
  by (simp_all add: reads_def return_s_def raise_s_def lift_s_def read_clock_def next_step_def load_session_def
      split: option.split)

lemma reads_if [reads_intros]: "reads c \<Longrightarrow> reads d \<Longrightarrow> reads (if b then c else d)"
  by simp

lemma reads_active [reads_intros]: "reads (require_active_v2_metadata sid)"
  unfolding require_active_v2_metadata_def Let_def by (intro reads_intros)

section \<open>Growth\<close>

text \<open>
  A session only grows, and one that is no longer active does not change at all.
\<close>

definition extends :: "v2_session \<Rightarrow> v2_session \<Rightarrow> bool" where
  "extends q q' \<longleftrightarrow>
     prefix (vs_raw q) (vs_raw q') \<and> prefix (vs_uart q) (vs_uart q') \<and> prefix (vs_operation q) (vs_operation q')
     \<and> prefix (vs_hardware q) (vs_hardware q') \<and> prefix (vs_connection q) (vs_connection q')
     \<and> prefix (vs_patterns q) (vs_patterns q')
     \<and> (\<not> is_active_v2 (vs_metadata q) \<longrightarrow> q' = q)"

lemma extends_refl [simp]: "extends q q"
  by (simp add: extends_def)

lemma extends_trans: "extends q q1 \<Longrightarrow> extends q1 q2 \<Longrightarrow> extends q q2"
  by (auto simp: extends_def intro: prefix_order.trans)

lemma extends_metadata: "is_active_v2 (vs_metadata q) \<Longrightarrow> extends q q' \<Longrightarrow> extends q (q'\<lparr>vs_metadata := m\<rparr>)"
  by (simp add: extends_def)

lemma extends_add: "is_active_v2 (vs_metadata q) \<Longrightarrow> extends q (add_record target r q)"
  by (cases target) (simp_all add: extends_def)

definition sessions_ok :: "store_env \<Rightarrow> sessions \<Rightarrow> bool" where
  "sessions_ok E S \<longleftrightarrow> (\<forall>sid q. S sid = Some q \<longrightarrow> session_ok E sid q)"

text \<open>\<open>good E S0 S\<close>: every session keeps the invariant, and those of \<open>S0\<close> have only grown.\<close>

definition good :: "store_env \<Rightarrow> sessions \<Rightarrow> sessions \<Rightarrow> bool" where
  "good E S0 S \<longleftrightarrow> sessions_ok E S \<and> (\<forall>sid q. S0 sid = Some q \<longrightarrow> (\<exists>q'. S sid = Some q' \<and> extends q q'))"

lemma good_session: "good E S0 S \<Longrightarrow> S sid = Some q \<Longrightarrow> session_ok E sid q"
  by (simp add: good_def sessions_ok_def)

lemma good_put:
  assumes g: "good E S0 S" and q: "S sid = Some q" and "session_ok E sid q'" and e: "extends q q'"
  shows "good E S0 (S(sid \<mapsto> q'))"
proof -
  have "\<exists>x. (S(sid \<mapsto> q')) i = Some x \<and> extends q0 x" if q0: "S0 i = Some q0" for i q0
  proof -
    from g q0 obtain x where x: "S i = Some x" "extends q0 x" by (auto simp: good_def)
    show ?thesis
    proof (cases "i = sid")
      case True
      with x q e show ?thesis by (simp add: extends_trans)
    next
      case False
      with x show ?thesis by simp
    qed
  qed
  with g assms(3) show ?thesis by (auto simp: good_def sessions_ok_def)
qed

lemma good_new: "good E S0 S \<Longrightarrow> S sid = None \<Longrightarrow> session_ok E sid q' \<Longrightarrow> good E S0 (S(sid \<mapsto> q'))"
  unfolding good_def sessions_ok_def by (fastforce split: if_splits)

text \<open>
  Between two operations of a session: it owns \<open>K\<close>, has at most \<open>N\<close> segments, and the sessions \<open>D\<close>, which it
  is not one of, exist. After an operation the session exists.
\<close>

definition holds :: "store_env \<Rightarrow> sessions \<Rightarrow> ustr set \<Rightarrow> ustr \<Rightarrow> owned \<Rightarrow> nat \<Rightarrow> sessions \<Rightarrow> bool" where
  "holds E S0 D sid K N S \<longleftrightarrow>
     good E S0 S \<and> D \<subseteq> dom S \<and> sid \<notin> D \<and> (\<forall>q. S sid = Some q \<longrightarrow> tracks K N (vs_metadata q))"

definition held :: "store_env \<Rightarrow> sessions \<Rightarrow> ustr set \<Rightarrow> ustr \<Rightarrow> owned \<Rightarrow> nat \<Rightarrow> sessions \<Rightarrow> bool" where
  "held E S0 D sid K N S \<longleftrightarrow> holds E S0 D sid K N S \<and> sid \<in> dom S"

lemma held_holds: "held E S0 D sid K N S \<Longrightarrow> holds E S0 D sid K N S"
  by (simp add: held_def)

lemma holds_good: "holds E S0 D sid K N S \<Longrightarrow> good E S0 S"
  by (simp add: holds_def)

lemma holds_mono: "holds E S0 D sid K N S \<Longrightarrow> N \<le> N' \<Longrightarrow> holds E S0 D sid K N' S"
  by (auto simp: holds_def tracks_def)

lemma held_good: "held E S0 D sid K N S \<Longrightarrow> good E S0 S"
  by (simp add: held_def holds_def)

lemma held_mono: "held E S0 D sid K N S \<Longrightarrow> N \<le> N' \<Longrightarrow> held E S0 D sid K N' S"
  unfolding held_def by (blast intro: holds_mono)

section \<open>The end of a session\<close>

lemma keeps_any:
  assumes "\<And>K N. keeps (tracks K N) f (tracks (g K) N)" and "doc_core m" and "f m = Inr m'"
  shows "doc_core m' \<and> frame m m'"
proof -
  have "tracks (op_keys m, waiting m) (seg_count m) m" by (simp add: tracks_def)
  from keepsD [OF assms(1) assms(2) this assms(3)] show ?thesis by blast
qed

lemma fits_nothing: "storage_ok E q m \<Longrightarrow> v2_unit_fits m 0 = Inr True"
  by (auto simp: storage_ok_def v2_unit_fits_def get_dict_def)

lemma terminal_ok:
  assumes q: "session_ok E sid q" and mut: "\<And>K N. keeps (tracks K N) mutator (tracks (g K) N)"
    and m1: "bind_r (mutator (vs_metadata q)) relinquish_v2_ownership = Inr m1"
    and m3: "bind_r (close_current_segment t r (terminal_fields state r e tr t m1)) (\<lambda>m2.
            bind_r (account_storage E q m2) (\<lambda>m3. bind_r (require_metadata_capacity E m3) (\<lambda>_. Inr m3))) = Inr m3"
  shows "session_ok E sid (q\<lparr>vs_metadata := m3\<rparr>)"
proof -
  let ?m = "vs_metadata q"
  from q obtain n where n: "dict_get ''next_evidence_seq'' ?m = PNat n" "doc_core ?m" "storage_ok E q ?m"
    by (auto simp: session_ok_def doc_ok_def)
  have k1: "keeps (tracks K N) (\<lambda>m. bind_r (mutator m) relinquish_v2_ownership) (tracks ([], snd (g K)) N)" for K N
    by (rule keeps_bind [OF mut keeps_relinquish])
  from keeps_any [OF k1 n(2) m1] have f1: "doc_core m1" "frame ?m m1" by blast+
  from m3 obtain m2 where m2: "bind_r (Inr (terminal_fields state r e tr t m1)) (close_current_segment t r) = Inr m2"
    "account_storage E q m2 = Inr m3" by (auto simp: bind_r_eq_Inr)
  have k2: "keeps (tracks K N) (\<lambda>m. bind_r (Inr (terminal_fields state r e tr t m)) (close_current_segment t r)) (tracks K N)"
    for K N by (rule keeps_bind [OF keeps_terminal keeps_close_segment])
  from keeps_any [OF k2 f1(1) m2(1)] have f2: "doc_core m2" "frame m1 m2" by blast+
  have "frame (dict_put ''next_evidence_seq'' (PNat n) ?m) m2"
    using frame_trans [OF f1(2) f2(2)] n(1) by (simp add: frame_def)
  then show ?thesis
    by (rule account_ok(1) [OF q refl n(1) f2(1) _ _ _ fits_nothing [OF n(3)] _ m2(2)]) simp_all
qed

lemma ends_put:
  assumes "\<And>S. P S \<Longrightarrow> Q () (S(sid \<mapsto> q))"
  shows "ends P (put_session sid q) Q X"
  using assms by (simp add: ends_def put_session_def)

text \<open>The documents a session can end with.\<close>

definition terminal_of ::
  "store_env \<Rightarrow> v2_session \<Rightarrow> (pydict \<Rightarrow> exc + pydict) \<Rightarrow> session_state \<Rightarrow> ustr \<Rightarrow> pyval \<Rightarrow> pyval \<Rightarrow> pydict \<Rightarrow> bool" where
  "terminal_of E q mutator state r e tr m3 \<longleftrightarrow>
     (\<exists>t m1. bind_r (mutator (vs_metadata q)) relinquish_v2_ownership = Inr m1
        \<and> bind_r (close_current_segment t r (terminal_fields state r e tr t m1)) (\<lambda>m2.
            bind_r (account_storage E q m2) (\<lambda>m3. bind_r (require_metadata_capacity E m3) (\<lambda>_. Inr m3))) = Inr m3)"

lemma ends_terminalize:
  assumes mut: "\<And>K N. keeps (tracks K N) mutator (tracks (g K) N)"
    and R: "\<And>S q. R S \<Longrightarrow> R (S(sid \<mapsto> q))"
    and T: "\<And>q m. session_ok E sid q \<Longrightarrow> terminal_of E q mutator state r e tr m \<Longrightarrow> T m"
  shows "ends (\<lambda>S. good E S0 S \<and> R S) (terminalize_session E sid state r e tr mutator)
     (\<lambda>_ S. good E S0 S \<and> R S \<and> (\<exists>q. S sid = Some q \<and> T (vs_metadata q))) (good E S0)"
    (is "ends _ _ ?Q _")
  unfolding terminalize_session_def Let_def
proof (rule ends_load)
  fix q :: v2_session
  let ?P = "\<lambda>S. (good E S0 S \<and> R S) \<and> S sid = Some q"
  let ?m = "vs_metadata q"
  let ?finish = "\<lambda>m3. bind_s next_step (\<lambda>outcome.
         bind_s (if outcome = StepFails then return_s () else put_session sid (q\<lparr>vs_metadata := m3\<rparr>)) (\<lambda>_.
           if outcome \<noteq> StepWorks then raise_s (SessionPersistenceError ''write'' True)
           else (\<lambda>s. (Inr (), s\<lparr>so_profiles := (so_profiles s)(sid := None),
                              so_snapshots := (so_snapshots s)(sid := None)\<rparr>))))"
  show "ends ?P (if \<not> py_eq_int (dict_get ''schema_version'' ?m) 2 then
         raise_s (ValueError ''only schema-v2 sessions can be terminalized'')
       else if dict_get ''state'' ?m \<noteq> str_val ''active'' then
         raise_s (ValueError ''session lifecycle transition requires active state'')
       else
         bind_s (lift_s (bind_r (mutator ?m) relinquish_v2_ownership)) (\<lambda>m1.
         bind_s (read_clock E) (\<lambda>ended_at.
         bind_s (lift_s
           (bind_r (close_current_segment ended_at r (terminal_fields state r e tr ended_at m1)) (\<lambda>m2.
            bind_r (account_storage E q m2) (\<lambda>m3.
            bind_r (require_metadata_capacity E m3) (\<lambda>_. Inr m3))))) ?finish))) ?Q (good E S0)"
  proof (intro ends_if ends_raise ends_lift ends_clock)
    fix m1 t m3
    assume a: "\<not> \<not> py_eq_int (dict_get ''schema_version'' ?m) 2" "\<not> dict_get ''state'' ?m \<noteq> str_val ''active''"
    assume m1: "bind_r (mutator ?m) relinquish_v2_ownership = Inr m1"
    assume m3: "bind_r (close_current_segment t r (terminal_fields state r e tr t m1)) (\<lambda>m2.
            bind_r (account_storage E q m2) (\<lambda>m3. bind_r (require_metadata_capacity E m3) (\<lambda>_. Inr m3))) = Inr m3"
    have act: "is_active_v2 ?m" using a by (simp add: is_active_v2_def)
    have put: "?Q () (S(sid \<mapsto> q\<lparr>vs_metadata := m3\<rparr>))" if "?P S" for S
    proof (intro conjI)
      from that have g: "good E S0 S" "S sid = Some q" by simp_all
      show "good E S0 (S(sid \<mapsto> q\<lparr>vs_metadata := m3\<rparr>))"
        by (rule good_put [OF g terminal_ok [OF good_session [OF g] mut m1 m3]])
           (rule extends_metadata [OF act extends_refl])
      show "R (S(sid \<mapsto> q\<lparr>vs_metadata := m3\<rparr>))" using R that by simp
      show "\<exists>q'. (S(sid \<mapsto> q\<lparr>vs_metadata := m3\<rparr>)) sid = Some q' \<and> T (vs_metadata q')"
        using T [OF good_session [OF g]] m1 m3 by (fastforce simp: terminal_of_def)
    qed
    show "ends ?P (?finish m3) ?Q (good E S0)"
    proof (rule ends_step)
      fix outcome
      show "ends ?P (bind_s (if outcome = StepFails then return_s () else put_session sid (q\<lparr>vs_metadata := m3\<rparr>)) (\<lambda>_.
           if outcome \<noteq> StepWorks then raise_s (SessionPersistenceError ''write'' True)
           else (\<lambda>s. (Inr (), s\<lparr>so_profiles := (so_profiles s)(sid := None),
                              so_snapshots := (so_snapshots s)(sid := None)\<rparr>)))) ?Q (good E S0)"
      proof (rule ends_bind)
        show "ends ?P (if outcome = StepFails then return_s () else put_session sid (q\<lparr>vs_metadata := m3\<rparr>))
            (\<lambda>_ S. if outcome = StepFails then good E S0 S else ?Q () S) (good E S0)"
          using put by (auto intro!: ends_return ends_put)
      qed (auto simp: ends_def raise_s_def)
    qed
  qed auto
qed auto

lemma ends_terminalize_any:
  assumes "\<And>K N. keeps (tracks K N) mutator (tracks (g K) N)"
  shows "ends (good E S0) (terminalize_session E sid state r e tr mutator) (\<lambda>_. good E S0) (good E S0)"
proof (rule ends_post [OF ends_pre])
  show "ends (\<lambda>S. good E S0 S \<and> True) (terminalize_session E sid state r e tr mutator)
      (\<lambda>_ S. good E S0 S \<and> True \<and> (\<exists>q. S sid = Some q \<and> True)) (good E S0)"
    by (rule ends_terminalize [OF assms]) simp_all
qed simp_all

text \<open>A failing step ends the session as failed; only its exception leaves.\<close>

lemma ends_fail_on_persistence: "ends (good E S0) (fail_on_persistence E sid cause) (\<lambda>_. good E S0) (good E S0)"
  unfolding fail_on_persistence_def
proof (rule ends_lift)
  fix e
  show "ends (good E S0) (terminalize_session E sid FailedState (lit ''persistence_error'') (PDict e) PNone
      record_persistence_fault) (\<lambda>_. good E S0) (good E S0)"
    by (rule ends_terminalize_any [OF keeps_fault])
qed

lemma ends_fail_active: "ends (good E S0) (fail_active_v2_persistence E sid cause) (\<lambda>_. good E S0) (good E S0)"
  unfolding fail_active_v2_persistence_def
  by (intro ends_load ends_if ends_return ends_pre [OF ends_fail_on_persistence]) auto

lemma ends_on_error:
  assumes "ends P c Q X" and "\<And>e. ends X (handler e) (\<lambda>_. X) X"
  shows "ends P (on_persistence_error handler c) Q X"
proof (rule endsI)
  fix s :: v2_store
  assume s: "P (so_sessions s)"
  obtain r s' where c: "c s = (r, s')" by (cases "c s")
  with endsD [OF assms(1), of s] s have o: "outcome_ok Q X (r, s')" by simp
  show "outcome_ok Q X (on_persistence_error handler c s)"
  proof (cases r)
    case (Inr a)
    with o c show ?thesis by (simp add: on_persistence_error_def bind_s_def try_s_def return_s_def)
  next
    case (Inl e)
    with o have x: "X (so_sessions s')" by simp
    have "outcome_ok Q X (bind_s (handler e) (\<lambda>_. raise_s e) s')"
      by (rule outcome_bind, rule endsD [OF assms(2) x]) (simp add: raise_s_def)
    with x Inl c show ?thesis by (simp add: on_persistence_error_def bind_s_def try_s_def raise_s_def)
  qed
qed

section \<open>A commit\<close>

lemma ends_commit:
  assumes P: "\<And>S. P S \<Longrightarrow> holds E S0 D sid K N S \<and> S sid = Some q"
    and ok: "\<And>m m'. mr = Inr m \<Longrightarrow> account_storage E q' m = Inr m' \<Longrightarrow>
       session_ok E sid q \<Longrightarrow> session_ok E sid (q'\<lparr>vs_metadata := m'\<rparr>) \<and> tracks K' N' m'"
    and act: "is_active_v2 (vs_metadata q)" and ext: "extends q q'"
  shows "ends P (commit_unit_of E sid q' mr) (\<lambda>_. held E S0 D sid K' N') (good E S0)"
  unfolding commit_unit_of_def Let_def
proof (intro ends_lift ends_step ends_if)
  fix m' outcome
  assume "bind_r mr (\<lambda>m. bind_r (account_storage E q' m) (\<lambda>m'.
      bind_r (require_metadata_capacity E m') (\<lambda>_. Inr m'))) = Inr m'"
  then obtain m where m: "mr = Inr m" "account_storage E q' m = Inr m'" by (auto simp: bind_r_eq_Inr)
  show "ends P (put_session sid (q'\<lparr>vs_metadata := m'\<rparr>)) (\<lambda>_. held E S0 D sid K' N') (good E S0)"
  proof (rule ends_put)
    fix S
    assume "P S"
    with P have h: "holds E S0 D sid K N S" and q: "S sid = Some q" by blast+
    note g = holds_good [OF h]
    from ok [OF m good_session [OF g q]] have o: "session_ok E sid (q'\<lparr>vs_metadata := m'\<rparr>)" "tracks K' N' m'"
      by blast+
    from good_put [OF g q o(1) extends_metadata [OF act ext]] h o(2)
    show "held E S0 D sid K' N' (S(sid \<mapsto> q'\<lparr>vs_metadata := m'\<rparr>))" by (auto simp: held_def holds_def)
  qed
  show "ends P (bind_s (fail_active_v2_persistence E sid (SessionPersistenceError ''append'' True))
      (\<lambda>_. raise_s (SessionPersistenceError ''append'' True))) (\<lambda>_. held E S0 D sid K' N') (good E S0)"
    by (rule ends_bind [OF ends_pre [OF ends_fail_active]]) (auto dest: P intro: holds_good ends_raise)
qed (use P holds_good in blast)

text \<open>The record an operation adds may not bring its own evidence number.\<close>

definition fields_ok :: "record_fields \<Rightarrow> bool" where
  "fields_ok f \<longleftrightarrow> (\<forall>sid m n d. f sid m n = Inr d \<longrightarrow> lit ''evidence_seq'' \<notin> fst ` set d)"

lemma dict_update_other: "lit k \<notin> fst ` set extra \<Longrightarrow> dict_get k (dict_update base extra) = dict_get k base"
proof (induction extra arbitrary: base)
  case Nil
  then show ?case by (simp add: dict_update_def)
next
  case (Cons e extra)
  then have "dict_get k (dict_set base (fst e) (snd e)) = dict_get k base" by (auto simp: dict_get_def)
  moreover have "dict_update base (e # extra) = dict_update (dict_set base (fst e) (snd e)) extra"
    by (simp add: dict_update_def case_prod_beta)
  ultimately show ?case using Cons by simp
qed

lemma ends_v2_record:
  assumes "fields_ok f" and "\<And>r. dict_get ''evidence_seq'' r = PNat n \<Longrightarrow> ends P (g r) Q X" and "\<And>S. P S \<Longrightarrow> X S"
  shows "ends P (bind_s (v2_record E sid m n rt f) g) Q X"
proof (rule endsI)
  fix s :: v2_store
  assume s: "P (so_sessions s)"
  show "outcome_ok Q X (bind_s (v2_record E sid m n rt f) g s)"
  proof (cases "f sid m n")
    case (Inl e)
    with s assms(3) show ?thesis by (simp add: v2_record_def bind_s_def lift_s_def)
  next
    case (Inr d)
    let ?r = "dict_update [(lit ''evidence_seq'', PNat n), (lit ''type'', PStr rt),
          (lit ''recorded_at'', PStr (en_time E (so_tick s)))] d"
    let ?s = "s\<lparr>so_tick := Suc (so_tick s)\<rparr>"
    have "dict_get ''evidence_seq'' ?r = PNat n"
      using assms(1) Inr dict_update_other [of "''evidence_seq''" d] by (simp add: fields_ok_def)
    from endsD [OF assms(2) [OF this], of ?s] s have "outcome_ok Q X (g ?r ?s)" by simp
    with Inr show ?thesis by (simp add: v2_record_def bind_s_def lift_s_def read_clock_def return_s_def)
  qed
qed

lemma ends_preflight:
  assumes "fields_ok f"
    and "\<And>n r. dict_get ''next_evidence_seq'' m = PNat n \<Longrightarrow> dict_get ''evidence_seq'' r = PNat n
       \<Longrightarrow> v2_unit_fits m (int (en_jsonl_size E r)) = Inr True \<Longrightarrow> ends P (g (n, r, True)) Q X"
    and "\<And>n r. ends P (g (n, r, False)) Q X"
    and "\<And>S. P S \<Longrightarrow> X S"
  shows "ends P (bind_s (preflight_record E sid m rt f) g) Q X"
proof -
  have b: "bind_s (preflight_record E sid m rt f) g =
     bind_s (lift_s (v2_next_sequence m)) (\<lambda>n. bind_s (v2_record E sid m n rt f) (\<lambda>r.
       if en_jsonl_size E r > MAX_V2_JSONL_RECORD_BYTES then
         raise_s (ValueError ''schema-v2 primary JSONL record exceeds its size limit'')
       else bind_s (lift_s (v2_unit_fits m (int (en_jsonl_size E r)))) (\<lambda>fit. g (n, r, fit))))"
    by (rule ext)
       (simp add: preflight_record_def bind_s_def lift_s_def return_s_def raise_s_def split: sum.split prod.split)
  show ?thesis
    unfolding b
  proof (rule ends_lift)
    fix n
    assume n: "v2_next_sequence m = Inr n"
    show "ends P (bind_s (v2_record E sid m n rt f) (\<lambda>r.
       if en_jsonl_size E r > MAX_V2_JSONL_RECORD_BYTES then
         raise_s (ValueError ''schema-v2 primary JSONL record exceeds its size limit'')
       else bind_s (lift_s (v2_unit_fits m (int (en_jsonl_size E r)))) (\<lambda>fit. g (n, r, fit)))) Q X"
    proof (rule ends_v2_record [OF assms(1)])
      fix r
      assume r: "dict_get ''evidence_seq'' r = PNat n"
      have "ends P (g (n, r, fit)) Q X" if "v2_unit_fits m (int (en_jsonl_size E r)) = Inr fit" for fit
        using that assms(2) [OF _ r] assms(3) n by (cases fit) (simp_all add: v2_next_sequence_Inr)
      then show "ends P (if en_jsonl_size E r > MAX_V2_JSONL_RECORD_BYTES then
         raise_s (ValueError ''schema-v2 primary JSONL record exceeds its size limit'')
       else bind_s (lift_s (v2_unit_fits m (int (en_jsonl_size E r)))) (\<lambda>fit. g (n, r, fit))) Q X"
        using assms(4) by (intro ends_if ends_raise ends_lift) auto
    qed (rule assms(4))
  qed (rule assms(4))
qed

section \<open>Appending a record\<close>

lemma ends_commit_record:
  assumes P: "\<And>S. P S \<Longrightarrow> holds E S0 D sid K N S \<and> S sid = Some q"
    and act: "is_active_v2 (vs_metadata q)" and safe: "safe_change K N f K' N'"
    and n: "dict_get ''next_evidence_seq'' (vs_metadata q) = PNat n" and r: "dict_get ''evidence_seq'' r = PNat n"
    and fits: "v2_unit_fits (vs_metadata q) (int (en_jsonl_size E r)) = Inr True"
  shows "ends P (commit_record E sid target (vs_metadata q) n r rolled f)
     (\<lambda>a. held E S0 D (va_session_id a) (K' a) N') (good E S0)"
  unfolding commit_record_def Let_def
proof (rule ends_load)
  fix q1
  let ?m = "dict_put ''next_evidence_seq'' (PNat (n + 1)) (vs_metadata q)"
  let ?a = "make_admission sid n rolled (n + 1)"
  show "ends (\<lambda>S. P S \<and> S sid = Some q1) (bind_s (commit_unit_of E sid (add_record target r q1) (f ?m ?a))
      (\<lambda>_. return_s ?a)) (\<lambda>a. held E S0 D (va_session_id a) (K' a) N') (good E S0)"
  proof (cases "\<exists>S. P S \<and> S sid = Some q1")
    case False
    then show ?thesis by (auto simp: ends_def)
  next
    case True
    then obtain S where S: "P S" "S sid = Some q1" by blast
    with P have q1: "q1 = q" and h: "holds E S0 D sid K N S" by fastforce+
    then have t: "tracks K N (vs_metadata q)" using S by (simp add: holds_def)
    have id: "valid_id (va_session_id ?a)"
      using good_session [OF holds_good [OF h]] S(2) by (auto simp: session_ok_def make_admission_def)
    have sid: "va_session_id ?a = sid" by (simp add: make_admission_def)
    have "ends (\<lambda>S. P S \<and> S sid = Some q1) (commit_unit_of E sid (add_record target r q1) (f ?m ?a))
        (\<lambda>_. held E S0 D sid (K' ?a) N') (good E S0)"
    proof (rule ends_commit)
      show "is_active_v2 (vs_metadata q1)" "extends q1 (add_record target r q1)"
        using act by (simp_all add: q1 extends_add)
      show "holds E S0 D sid K N S' \<and> S' sid = Some q1" if "P S' \<and> S' sid = Some q1" for S'
        using P that by (auto simp: q1)
      fix m m'
      assume m: "f ?m ?a = Inr m" and acc: "account_storage E (add_record target r q1) m = Inr m'"
        and ok: "session_ok E sid q1"
      from ok have "doc_core ?m" "tracks K N ?m"
        using t by (simp_all add: q1 session_ok_def doc_ok_def doc_core_def tracks_def)
      from keepsD [OF safe [unfolded safe_change_def, rule_format, OF id] this m]
      have c: "doc_core m" "frame ?m m" "tracks (K' ?a) N' m" by blast+
      have grow: "int (evidence_bytes E (add_record target r q1)) = int (evidence_bytes E q1) + int (en_jsonl_size E r)"
        by (simp add: evidence_bytes_add)
      have f2: "frame (dict_put ''next_evidence_seq'' (PNat (Suc n)) (vs_metadata q1)) m" using c(2) by (simp add: q1)
      from account_ok [OF ok refl _ c(1) f2 numbered_add [OF _ r] _ _ grow acc] n fits c(3)
      show "session_ok E sid (add_record target r q1\<lparr>vs_metadata := m'\<rparr>) \<and> tracks (K' ?a) N' m'"
        by (simp add: q1 raw_ok_def)
    qed
    then show ?thesis
      by (rule ends_bind) (simp add: ends_def return_s_def make_admission_def)
  qed
qed (use P holds_good in blast)

text \<open>The contracts of rolling over and of appending.\<close>

definition rollover_ok :: "store_env \<Rightarrow> sessions \<Rightarrow> (ustr \<Rightarrow> string \<Rightarrow> ustr store_op) \<Rightarrow> bool" where
  "rollover_ok E S0 rollover \<longleftrightarrow>
     (\<forall>D sid K N reason. ends (holds E S0 D sid K N) (rollover sid reason) (\<lambda>sid'. held E S0 D sid' K 1) (good E S0))"

definition appender_ok :: "store_env \<Rightarrow> sessions \<Rightarrow> appender \<Rightarrow> bool" where
  "appender_ok E S0 app \<longleftrightarrow>
     (\<forall>D sid K N K' N' target rt f mutator.
        1 \<le> N \<and> fields_ok f \<and> safe_change K N mutator K' N' \<longrightarrow>
        ends (holds E S0 D sid K N) (app sid target rt f mutator)
          (\<lambda>a. held E S0 D (va_session_id a) (K' a) N') (good E S0))"

lemma appender_okD:
  "appender_ok E S0 app \<Longrightarrow> 1 \<le> N \<Longrightarrow> fields_ok f \<Longrightarrow> safe_change K N mutator K' N'
     \<Longrightarrow> ends (holds E S0 D sid K N) (app sid target rt f mutator)
          (\<lambda>a. held E S0 D (va_session_id a) (K' a) N') (good E S0)"
  unfolding appender_ok_def by blast

lemma append_step_ok:
  assumes "rollover_ok E S0 rollover"
  shows "appender_ok E S0 (append_step rollover E)"
  unfolding appender_ok_def
proof (intro allI impI)
  fix D sid K N K' N' target rt f mutator
  assume a: "1 \<le> N \<and> fields_ok f \<and> safe_change K N mutator K' N'"
  then have f: "fields_ok f" and safe: "safe_change K N mutator K' N'" by blast+
  let ?Q = "\<lambda>a. held E S0 D (va_session_id a) (K' a) N'"
  show "ends (holds E S0 D sid K N) (append_step rollover E sid target rt f mutator) ?Q (good E S0)"
    unfolding append_step_def
  proof (rule ends_active)
    fix q :: v2_session
    assume act: "is_active_v2 (vs_metadata q)"
    let ?P = "\<lambda>S. holds E S0 D sid K N S \<and> S sid = Some q"
    show "ends ?P (bind_s (preflight_record E sid (vs_metadata q) rt f) (\<lambda>(n, r, fit).
       if fit then commit_record E sid target (vs_metadata q) n r False mutator
       else bind_s (rollover sid ''rollover_size'') (\<lambda>sid'. bind_s (require_active_v2_metadata sid') (\<lambda>m'.
         bind_s (preflight_record E sid' m' rt f) (\<lambda>(n', r', fit').
           if \<not> fit' then raise_s (SessionPersistenceError ''preflight v2 evidence'' True)
           else commit_record E sid' target m' n' r' True mutator))))) ?Q (good E S0)"
    proof (rule ends_preflight [OF f])
      fix n r
      assume n: "dict_get ''next_evidence_seq'' (vs_metadata q) = PNat n" "dict_get ''evidence_seq'' r = PNat n"
        "v2_unit_fits (vs_metadata q) (int (en_jsonl_size E r)) = Inr True"
      have "ends ?P (commit_record E sid target (vs_metadata q) n r False mutator) ?Q (good E S0)"
        by (rule ends_commit_record [OF _ act safe n])
      then show "ends ?P (case (n, r, True) of (n, r, fit) \<Rightarrow>
         if fit then commit_record E sid target (vs_metadata q) n r False mutator
         else bind_s (rollover sid ''rollover_size'') (\<lambda>sid'. bind_s (require_active_v2_metadata sid') (\<lambda>m'.
           bind_s (preflight_record E sid' m' rt f) (\<lambda>(n', r', fit').
             if \<not> fit' then raise_s (SessionPersistenceError ''preflight v2 evidence'' True)
             else commit_record E sid' target m' n' r' True mutator)))) ?Q (good E S0)" by simp
    next
      fix n r
      have "ends (holds E S0 D sid K N) (bind_s (rollover sid ''rollover_size'') (\<lambda>sid'.
         bind_s (require_active_v2_metadata sid') (\<lambda>m'.
         bind_s (preflight_record E sid' m' rt f) (\<lambda>(n', r', fit').
           if \<not> fit' then raise_s (SessionPersistenceError ''preflight v2 evidence'' True)
           else commit_record E sid' target m' n' r' True mutator)))) ?Q (good E S0)"
      proof (rule ends_bind [OF assms [unfolded rollover_ok_def, rule_format]], rule ends_active)
        fix sid' and q' :: v2_session
        assume act': "is_active_v2 (vs_metadata q')"
        let ?P' = "\<lambda>S. held E S0 D sid' K 1 S \<and> S sid' = Some q'"
        show "ends ?P' (bind_s (preflight_record E sid' (vs_metadata q') rt f) (\<lambda>(n', r', fit').
           if \<not> fit' then raise_s (SessionPersistenceError ''preflight v2 evidence'' True)
           else commit_record E sid' target (vs_metadata q') n' r' True mutator)) ?Q (good E S0)"
        proof (rule ends_preflight [OF f])
          fix n' r'
          assume n: "dict_get ''next_evidence_seq'' (vs_metadata q') = PNat n'" "dict_get ''evidence_seq'' r' = PNat n'"
            "v2_unit_fits (vs_metadata q') (int (en_jsonl_size E r')) = Inr True"
          have "ends ?P' (commit_record E sid' target (vs_metadata q') n' r' True mutator) ?Q (good E S0)"
            by (rule ends_commit_record [OF _ act' safe n]) (use a held_holds held_mono [of E S0 D sid' K 1 _ N] in auto)
          then show "ends ?P' (case (n', r', True) of (n', r', fit') \<Rightarrow>
             if \<not> fit' then raise_s (SessionPersistenceError ''preflight v2 evidence'' True)
             else commit_record E sid' target (vs_metadata q') n' r' True mutator) ?Q (good E S0)"
            by simp
        qed (auto intro: ends_raise held_good)
      qed (rule held_good)
      then show "ends ?P (case (n, r, False) of (n, r, fit) \<Rightarrow>
         if fit then commit_record E sid target (vs_metadata q) n r False mutator
         else bind_s (rollover sid ''rollover_size'') (\<lambda>sid'. bind_s (require_active_v2_metadata sid') (\<lambda>m'.
           bind_s (preflight_record E sid' m' rt f) (\<lambda>(n', r', fit').
             if \<not> fit' then raise_s (SessionPersistenceError ''preflight v2 evidence'' True)
             else commit_record E sid' target m' n' r' True mutator)))) ?Q (good E S0)"
        by (simp add: ends_pre)
    qed (blast intro: holds_good)
  qed (rule holds_good)
qed

section \<open>Creation\<close>

text \<open>The empty document of patterns, \<open>[]\<close> and a newline, is three bytes long.\<close>

lemma new_session_ok:
  assumes "en_doc_size E (PList []) = 3" and "valid_id sid" and "MIN_V2_EVIDENCE_BUDGET_BYTES \<le> budget"
  shows "session_ok E sid (new_v2_session (initial_v2_metadata digest sid t p snap budget predecessor))"
    and "tracks ([], []) 1 (initial_v2_metadata digest sid t p snap budget predecessor)"
proof -
  let ?m = "initial_v2_metadata digest sid t p snap budget predecessor"
  let ?seg = "dict_put ''segment_id'' (PInt 0) (backend_segment_json snap t)"
  have g: "dict_get ''schema_version'' ?m = PInt 2" "dict_get ''session_id'' ?m = PStr sid"
    "dict_get ''next_evidence_seq'' ?m = PInt 0" "dict_get ''active_operations'' ?m = PDict []"
    "dict_get ''pending_attempts'' ?m = PDict []" "dict_get ''segments'' ?m = PList [PDict ?seg]"
    by (simp_all add: initial_v2_metadata_def)
  have st: "storage_ok E (new_v2_session ?m) ?m"
    using assms(1,3)
    by (simp add: storage_ok_def initial_v2_metadata_def evidence_bytes_def new_v2_session_def
        MIN_V2_EVIDENCE_BUDGET_BYTES_def)
  have own: "ownership_ok ?m"
    unfolding ownership_ok_def by (simp add: initial_v2_metadata_def all_open_def dict_keys_def)
  have seg: "segments_ok ?m"
    by (rule segments_okI [of _ "[?seg]"]) (simp_all add: g MAX_SESSION_SEGMENTS_def)
  have att: "attempts_ok ?m"
    by (rule attempts_okI [of _ "[]"]) (simp_all add: g dict_keys_def)
  show "session_ok E sid (new_v2_session ?m)"
    using assms(2) st own seg att g
    by (simp add: session_ok_def doc_ok_def doc_core_def raw_ok_def numbered_def all_records_def stream_sorted_def
        new_v2_session_def)
  show "tracks ([], []) 1 ?m" using g by (simp add: tracks_def op_keys_def waiting_def seg_count_def dict_keys_def)
qed

lemma ends_create:
  assumes "en_doc_size E (PList []) = 3"
  shows "ends (\<lambda>S. good E S0 S \<and> D \<subseteq> dom S) (create_v2_session E p snap predecessor)
     (\<lambda>sid. held E S0 D sid ([], []) 1) (good E S0)"
proof (rule endsI)
  fix s :: v2_store
  assume s: "good E S0 (so_sessions s) \<and> D \<subseteq> dom (so_sessions s)"
  let ?sid = "en_new_id E (so_tick s)"
  let ?m = "initial_v2_metadata (en_digest E) ?sid (en_time E (so_tick s)) p snap (en_budget E) predecessor"
  have new: "held E S0 D ?sid ([], []) 1 ((so_sessions s)(?sid \<mapsto> new_v2_session ?m))"
    if "so_sessions s ?sid = None" "validate_session_id (PStr ?sid) = Inr x" "\<not> en_budget E < MIN_V2_EVIDENCE_BUDGET_BYTES" for x
  proof -
    have "valid_id ?sid" "MIN_V2_EVIDENCE_BUDGET_BYTES \<le> en_budget E" using that by (auto simp: valid_id_def)
    note o = new_session_ok [OF assms this, of "en_digest E" "en_time E (so_tick s)" p snap predecessor]
    from good_new [OF conjunct1 [OF s] that(1) o(1)] s that(1) o(2)
    show ?thesis by (auto simp: held_def holds_def new_v2_session_def)
  qed
  show "outcome_ok (\<lambda>sid. held E S0 D sid ([], []) 1) (good E S0) (create_v2_session E p snap predecessor s)"
    using s new
    by (auto simp: create_v2_session_def Let_def bind_s_def read_clock_def lift_s_def raise_s_def next_step_def put_session_def
        split: sum.splits)
qed

section \<open>Rollover\<close>

lemma carried_keys: "carried_operations n ops = Inr xs \<Longrightarrow> map fst xs = dict_keys ops"
proof (induction n ops arbitrary: xs rule: carried_operations.induct)
  case (2 n i v rest)
  then show ?case by (cases v) (auto simp: bind_r_eq_Inr dict_keys_def)
qed (simp add: dict_keys_def)

lemma continue_operations_ok:
  assumes app: "appender_ok E S0 app"
  shows "distinct (K @ map fst xs) \<Longrightarrow>
     ends (held E S0 D sid (K, w) 1) (continue_operations app old sid xs)
       (\<lambda>sid'. held E S0 D sid' (K @ map fst xs, w) 1) (good E S0)"
proof (induction xs arbitrary: sid K)
  case Nil
  then show ?case by (simp add: ends_return)
next
  case (Cons x xs)
  obtain i t rs where x: "x = (i, t, rs)" by (cases x)
  let ?f = "\<lambda>_ _ _. Inr [(lit ''operation_id'', PStr i), (lit ''operation_type'', t),
                        (lit ''previous_session_id'', PStr old)]"
  have f: "fields_ok ?f" by (simp add: fields_ok_def)
  have safe: "safe_change (K, w) 1 (continue_operation i t rs) (\<lambda>_. (K @ [i], w)) 1"
    unfolding safe_change_def using Cons.prems x by (auto intro: keeps_continue)
  have "ends (held E S0 D sid (K, w) 1) (bind_s (app sid OperationStream (lit ''operation_continued'') ?f
      (continue_operation i t rs)) (\<lambda>a. continue_operations app old (va_session_id a) xs))
     (\<lambda>sid'. held E S0 D sid' (K @ map fst (x # xs), w) 1) (good E S0)"
  proof (rule ends_bind [OF ends_pre [OF appender_okD [OF app _ f safe] held_holds]])
    fix a :: v2_admission
    have "distinct ((K @ [i]) @ map fst xs)" using Cons.prems x by simp
    from Cons.IH [OF this] x
    show "ends (held E S0 D (va_session_id a) (K @ [i], w) 1) (continue_operations app old (va_session_id a) xs)
        (\<lambda>sid'. held E S0 D sid' (K @ map fst (x # xs), w) 1) (good E S0)" by simp
  qed simp
  with x show ?case by simp
qed

lemma reads_profile: "reads (profile_and_snapshot sid snap)"
  by (simp add: reads_def profile_and_snapshot_def split: option.split prod.split)

text \<open>The first record of a successor and the operations that go on in it.\<close>

lemma take_over_ok:
  assumes app: "appender_ok E S0 app" and w: "distinct (dict_keys w)"
    "\<forall>e \<in> set w. check_pending_attempt (fst e) (snd e) = Inr ()" and xs: "distinct (map fst xs)"
  shows "ends (held E S0 D successor ([], []) 1)
     (bind_s (app successor ConnectionStream (lit ''rollover_succeeded'')
          (\<lambda>_ updated _. bind_r (current_v2_segment_id updated) (\<lambda>segment_id.
             Inr [(lit ''segment_id'', PNat segment_id),
                  (lit ''detail'', PDict [(lit ''predecessor_session_id'', PStr sid),
                                          (lit ''reason'', str_val end_reason)])]))
          (\<lambda>updated a.
             bind_r (catch_r (\<lambda>_. True) (\<lambda>_. TypeError ''malformed segments'') (last_segment ''segments'' m)) (\<lambda>(_, prior_segment).
               transfer_rollover_ownership w prior_segment reopened updated a))) (\<lambda>a.
        continue_operations app sid (va_session_id a) xs))
     (\<lambda>sid'. held E S0 D sid' (map fst xs, w) 1) (good E S0)" (is "ends _ (bind_s (app _ _ _ ?f ?g) _) _ _")
proof -
  have f: "fields_ok ?f" by (auto simp: fields_ok_def bind_r_eq_Inr)
  have safe: "safe_change ([], []) 1 ?g (\<lambda>_. ([], w)) 1"
    unfolding safe_change_def
  proof (intro allI impI)
    fix a :: v2_admission
    show "keeps (tracks ([], []) 1) (\<lambda>m. ?g m a) (tracks ([], w) 1)"
    proof (cases "catch_r (\<lambda>_. True) (\<lambda>_. TypeError ''malformed segments'') (last_segment ''segments'' m)")
      case (Inl e)
      then show ?thesis by (simp add: keeps_def)
    next
      case (Inr x)
      with keeps_transfer [OF w, of "([], [])" 1] show ?thesis by (simp add: case_prod_beta)
    qed
  qed
  show ?thesis
    by (rule ends_bind [OF ends_pre [OF appender_okD [OF app _ f safe] held_holds]])
       (use continue_operations_ok [OF app, of "[]" xs] xs in simp_all)
qed

text \<open>The end of the predecessor: completed, with a link to its successor, and it owns nothing any more.\<close>

definition linked :: "ustr \<Rightarrow> pydict \<Rightarrow> bool" where
  "linked successor m \<longleftrightarrow>
     dict_get ''state'' m = str_val ''completed'' \<and> dict_get ''successor_session_id'' m = PStr successor
     \<and> op_keys m = [] \<and> waiting m = []"

lemma terminal_linked:
  assumes q: "session_ok E sid q" and t: "terminal_of E q (link_successor successor) CompletedState r e PNone m3"
  shows "linked successor m3"
proof -
  from t obtain t m0 m1 m2 where c: "link_successor successor (vs_metadata q) = Inr m0" "relinquish_v2_ownership m0 = Inr m1"
    "close_current_segment t r (terminal_fields CompletedState r e PNone t m1) = Inr m2"
    "account_storage E q m2 = Inr m3"
    by (auto simp: terminal_of_def bind_r_eq_Inr)
  let ?m = "terminal_fields CompletedState r e PNone t m1"
  have m0: "dict_get ''successor_session_id'' m0 = PStr successor"
    using c(1) by (auto simp: link_successor_def Let_def bind_r_eq_Inr split: if_splits)
  have m1: "dict_get ''successor_session_id'' m1 = PStr successor"
    using c(2) m0 by (auto simp: relinquish_v2_ownership_def Let_def bind_r_eq_Inr split: if_splits)
  have m: "dict_get ''successor_session_id'' ?m = PStr successor" "dict_get ''state'' ?m = str_val ''completed''"
    using m1 by (simp_all add: terminal_fields_def Let_def)
  have m2: "dict_get ''successor_session_id'' m2 = PStr successor" "dict_get ''state'' m2 = str_val ''completed''"
    using c(3) m by (auto simp: close_current_segment_def bind_r_eq_Inr split: if_splits)
  have m3: "dict_get k m3 = dict_get k m2" if "k \<noteq> ''storage''" for k
    using c(4) that by (auto simp: account_storage_def split: pyval.splits)
  have core: "doc_core (vs_metadata q)" using q by (simp add: session_ok_def doc_ok_def)
  let ?f = "\<lambda>m. bind_r (link_successor successor m) (\<lambda>m. bind_r (relinquish_v2_ownership m) (\<lambda>m.
      bind_r (Inr (terminal_fields CompletedState r e PNone t m)) (close_current_segment t r)))"
  have k: "keeps (tracks K N) ?f (tracks ([], []) N)" for K N
    using keeps_bind [OF keeps_link keeps_bind [OF keeps_relinquish keeps_bind [OF keeps_terminal keeps_close_segment]]]
    by simp
  have "tracks (op_keys (vs_metadata q), waiting (vs_metadata q)) (seg_count (vs_metadata q)) (vs_metadata q)"
    by (simp add: tracks_def)
  from keepsD [OF k core this] c have "op_keys m2 = []" "waiting m2 = []" by (simp_all add: tracks_def)
  with m2 m3 show ?thesis by (simp add: linked_def op_keys_def waiting_def)
qed

lemma ends_link:
  assumes "successor \<noteq> sid"
  shows "ends (held E S0 (insert sid D) successor K 1)
     (terminalize_session E sid CompletedState r e PNone (link_successor successor))
     (\<lambda>_ S. held E S0 D successor K 1 S \<and> (\<exists>q. S sid = Some q \<and> linked successor (vs_metadata q))) (good E S0)"
proof -
  let ?R = "\<lambda>S. D \<subseteq> dom S \<and> successor \<notin> insert sid D \<and> successor \<in> dom S
      \<and> (\<forall>q. S successor = Some q \<longrightarrow> tracks K 1 (vs_metadata q))"
  have "ends (\<lambda>S. good E S0 S \<and> ?R S) (terminalize_session E sid CompletedState r e PNone (link_successor successor))
      (\<lambda>_ S. good E S0 S \<and> ?R S \<and> (\<exists>q. S sid = Some q \<and> linked successor (vs_metadata q))) (good E S0)"
    by (rule ends_terminalize [OF keeps_link _ terminal_linked]) (use assms in auto)
  then show ?thesis
    by (rule ends_pre [OF ends_post]) (auto simp: held_def holds_def)
qed

lemma rollover_step_links:
  assumes app: "appender_ok E S0 app" and three: "en_doc_size E (PList []) = 3"
  shows "ends (holds E S0 D sid K N) (rollover_step app E sid reason snap)
     (\<lambda>sid' S. held E S0 D sid' K 1 S \<and> sid' \<noteq> sid \<and> (\<exists>q. S sid = Some q \<and> linked sid' (vs_metadata q))) (good E S0)"
    (is "ends _ _ ?Q _")
  unfolding rollover_step_def
proof (rule ends_active)
  fix q :: v2_session
  let ?m = "vs_metadata q"
  let ?P = "\<lambda>S. holds E S0 D sid K N S \<and> S sid = Some q"
  let ?ops = "bind_r (get_dict ''v2 active_operations must be an object'' ''active_operations'' ?m) (\<lambda>ops.
          if ops = [] then Inr [] else bind_r (v2_next_sequence ?m) (\<lambda>end_seq. carried_operations end_seq ops))"
  let ?rest = "\<lambda>w xs. bind_s (profile_and_snapshot sid snap) (\<lambda>(profile, snapshot).
     bind_s (on_persistence_error (fail_on_persistence E sid) (create_v2_session E profile snapshot (Some sid))) (\<lambda>successor.
     bind_s (on_persistence_error (fail_active_v2_persistence E sid)
       (bind_s (app successor ConnectionStream (lit ''rollover_succeeded'')
          (\<lambda>_ updated _. bind_r (current_v2_segment_id updated) (\<lambda>segment_id.
             Inr [(lit ''segment_id'', PNat segment_id),
                  (lit ''detail'', PDict [(lit ''predecessor_session_id'', PStr sid),
                                          (lit ''reason'', str_val reason)])]))
          (\<lambda>updated a.
             bind_r (catch_r (\<lambda>_. True) (\<lambda>_. TypeError ''malformed segments'') (last_segment ''segments'' ?m)) (\<lambda>(_, prior_segment).
               transfer_rollover_ownership w prior_segment (snap \<noteq> None) updated a))) (\<lambda>a.
        continue_operations app sid (va_session_id a) xs))) (\<lambda>successor.
     bind_s (terminalize_session E sid CompletedState (lit reason) PNone PNone (link_successor successor)) (\<lambda>_.
       return_s successor))))"
  show "ends ?P (bind_s (lift_s (v2_pending_attempts ?m)) (\<lambda>w. bind_s (lift_s ?ops) (?rest w))) ?Q (good E S0)"
  proof (intro ends_lift)
    fix w xs
    assume w: "v2_pending_attempts ?m = Inr w" and ops: "?ops = Inr xs"
    show "ends ?P (?rest w xs) ?Q (good E S0)"
    proof (cases "\<exists>S. ?P S")
      case False
      then show ?thesis by (auto simp: ends_def)
    next
      case True
      then obtain S where S: "holds E S0 D sid K N S" "S sid = Some q" by blast
      then have ok: "session_ok E sid q" and t: "tracks K N ?m" using good_session holds_good by (blast, simp add: holds_def)
      from ok have core: "ownership_ok ?m" "attempts_ok ?m" by (simp_all add: session_ok_def doc_ok_def doc_core_def)
      from core(2) w have w': "distinct (dict_keys w)" "\<forall>e \<in> set w. check_pending_attempt (fst e) (snd e) = Inr ()"
        by (auto simp: v2_pending_attempts_Inr elim: attempts_okE)
      from core(1) obtain os where os: "dict_get ''active_operations'' ?m = PDict os" "distinct (dict_keys os)"
        by (auto simp: ownership_ok_def)
      have K: "K = (dict_keys os, w)"
        using t os w by (cases K) (simp add: tracks_def op_keys_def waiting_def v2_pending_attempts_Inr)
      have xs: "map fst xs = dict_keys os"
        using ops os carried_keys by (auto simp: get_dict_def bind_r_eq_Inr dict_keys_def split: if_splits)
      show ?thesis
      proof (rule ends_reads [OF reads_profile])
        fix ps :: "dut_profile \<times> backend_snapshot"
        obtain p sn where ps: "ps = (p, sn)" by (cases ps)
        have new: "ends ?P (on_persistence_error (fail_on_persistence E sid) (create_v2_session E p sn (Some sid)))
            (\<lambda>successor. held E S0 (insert sid D) successor ([], []) 1) (good E S0)"
          by (rule ends_on_error [OF ends_pre [OF ends_create [OF three]] ends_fail_on_persistence])
             (auto simp: holds_def)
        note take = ends_on_error [OF take_over_ok [OF app w'] ends_fail_active, of xs]
        have last: "ends (held E S0 (insert sid D) successor K 1)
            (bind_s (terminalize_session E sid CompletedState (lit reason) PNone PNone (link_successor successor))
              (\<lambda>_. return_s successor)) ?Q (good E S0)" for successor
        proof (cases "successor = sid")
          case True
          then show ?thesis by (simp add: ends_def held_def holds_def)
        next
          case False
          show ?thesis by (rule ends_bind [OF ends_link [OF False]], rule ends_return) (use False in blast)
        qed
        show "ends ?P (case ps of (profile, snapshot) \<Rightarrow>
     bind_s (on_persistence_error (fail_on_persistence E sid) (create_v2_session E profile snapshot (Some sid))) (\<lambda>successor.
     bind_s (on_persistence_error (fail_active_v2_persistence E sid)
       (bind_s (app successor ConnectionStream (lit ''rollover_succeeded'')
          (\<lambda>_ updated _. bind_r (current_v2_segment_id updated) (\<lambda>segment_id.
             Inr [(lit ''segment_id'', PNat segment_id),
                  (lit ''detail'', PDict [(lit ''predecessor_session_id'', PStr sid),
                                          (lit ''reason'', str_val reason)])]))
          (\<lambda>updated a.
             bind_r (catch_r (\<lambda>_. True) (\<lambda>_. TypeError ''malformed segments'') (last_segment ''segments'' ?m)) (\<lambda>(_, prior_segment).
               transfer_rollover_ownership w prior_segment (snap \<noteq> None) updated a))) (\<lambda>a.
        continue_operations app sid (va_session_id a) xs))) (\<lambda>successor.
     bind_s (terminalize_session E sid CompletedState (lit reason) PNone PNone (link_successor successor)) (\<lambda>_.
       return_s successor)))) ?Q (good E S0)"
          unfolding ps prod.case
        proof (rule ends_bind [OF new], rule ends_bind [OF take])
          show "distinct (map fst xs)" using os(2) by (simp add: xs)
          show "ends (held E S0 (insert sid D) successor (map fst xs, w) 1)
              (bind_s (terminalize_session E sid CompletedState (lit reason) PNone PNone (link_successor successor))
                (\<lambda>_. return_s successor)) ?Q (good E S0)" for successor
            unfolding xs K [symmetric] by (rule last)
        qed
      qed (blast intro: holds_good)
    qed
  qed (blast intro: holds_good)+
qed (rule holds_good)

lemma rollover_step_ok:
  assumes "appender_ok E S0 app" and "en_doc_size E (PList []) = 3"
  shows "ends (holds E S0 D sid K N) (rollover_step app E sid reason snap) (\<lambda>sid'. held E S0 D sid' K 1) (good E S0)"
  by (rule ends_post [OF rollover_step_links [OF assms]]) blast

lemma append_record_ok:
  assumes "en_doc_size E (PList []) = 3"
  shows "appender_ok E S0 (append_v2_record n E)"
proof (induction n)
  case 0
  show ?case by (simp add: append_step_ok rollover_ok_def ends_raise holds_good)
next
  case (Suc n)
  then show ?case
    by (auto simp: rollover_ok_def intro!: append_step_ok rollover_step_ok [OF _ assms, simplified])
qed

end
