(* ===== verification/Store_Commands.thy ===== *)
theory Store_Commands
  imports Store_Safety
begin

text \<open>
  The operations of the store keep the invariant and let sessions only grow: first the unit of received
  bytes, then the operations that add one record, and at last every sequence of commands from an
  empty store, with every schedule of failing steps.
\<close>

section \<open>Received bytes\<close>

lemma line_limit_fields: "fields_ok (\<lambda>_ _ _. bind_r (line_limit_exceeded_event_json x l) (\<lambda>d. Inr (dict_pop d (lit ''type''))))"
  by (auto simp: fields_ok_def bind_r_eq_Inr line_limit_exceeded_event_json_def dict_pop_def)

lemma ends_fact: "(C \<Longrightarrow> ends P c Q X) \<Longrightarrow> ends (\<lambda>S. P S \<and> C) c Q X"
  by (simp add: ends_def)

definition numbered_from :: "nat \<Rightarrow> pydict list \<Rightarrow> bool" where
  "numbered_from n rs \<longleftrightarrow>
     map record_seq rs = [n..<n + length rs] \<and> list_all (\<lambda>r. dict_get ''evidence_seq'' r = PNat (record_seq r)) rs"

lemma numbered_from_Nil [simp]: "numbered_from n []"
  by (simp add: numbered_from_def)

lemma numbered_from_Cons:
  assumes "dict_get ''evidence_seq'' r = PNat n" and "numbered_from (Suc n) rs"
  shows "numbered_from n (r # rs)"
proof -
  have "map record_seq (r # rs) = n # [Suc n..<Suc n + length rs]"
    using assms by (simp add: numbered_from_def record_seq_get)
  also have "\<dots> = [n..<n + length (r # rs)]" by (subst upt_conv_Cons [of n]) simp_all
  finally show ?thesis using assms by (simp add: numbered_from_def record_seq_get)
qed

lemma ends_line_limits:
  assumes X: "\<And>S. P S \<Longrightarrow> X S"
  shows "ends P (line_limit_records E sid m x n ls) (\<lambda>rs S. P S \<and> numbered_from n rs) X"
proof (induction ls arbitrary: n)
  case Nil
  show ?case by (simp add: ends_return)
next
  case (Cons l ls)
  show ?case
    unfolding line_limit_records.simps
  proof (rule ends_v2_record [OF line_limit_fields])
    fix r
    assume r: "dict_get ''evidence_seq'' r = PNat n"
    show "ends P (bind_s (line_limit_records E sid m x (Suc n) ls) (\<lambda>rs. return_s (r # rs)))
        (\<lambda>rs S. P S \<and> numbered_from n rs) X"
      by (rule ends_bind [OF Cons.IH]) (auto intro: ends_return numbered_from_Cons [OF r])
  qed (rule X)
qed

definition uart_unit_ok :: "store_env \<Rightarrow> v2_session \<Rightarrow> uart_receive_event \<Rightarrow> uart_unit \<Rightarrow> bool" where
  "uart_unit_ok E q event u \<longleftrightarrow>
     dict_get ''next_evidence_seq'' (vs_metadata q) = PNat (uu_evidence_seq u)
     \<and> dict_get ''evidence_seq'' (uu_record u) = PNat (uu_evidence_seq u)
     \<and> rec_data (uu_record u) = ev_data event
     \<and> dict_get ''raw_offset_start'' (uu_record u) = PNat (length (vs_raw q))
     \<and> dict_get ''raw_offset_end'' (uu_record u) = PNat (length (vs_raw q) + length (ev_data event))
     \<and> numbered_from (Suc (uu_evidence_seq u)) (uu_hardware u)
     \<and> (\<forall>ps. uu_patterns u = Some ps \<longrightarrow> prefix (vs_patterns q) ps)
     \<and> int (evidence_bytes E (add_uart_unit event u q)) = int (evidence_bytes E q) + uu_unit_bytes u"

lemma checked_patterns: "check_v2_patterns E seq e projected ps = Inr ps' \<Longrightarrow> prefix projected ps'"
proof (induction ps arbitrary: projected)
  case Nil
  then show ?case by simp
next
  case (Cons p ps)
  then obtain projected' where p: "check_v2_pattern E seq e projected p = Inr projected'" "prefix projected' ps'"
    by (auto simp: bind_r_eq_Inr)
  have "prefix projected projected'"
    using p(1) by (auto simp: check_v2_pattern_def Let_def bind_r_eq_Inr split: pyval.splits option.splits if_splits)
  then show ?case using p(2) by (rule prefix_order.trans)
qed

lemma pattern_document:
  assumes "v2_pattern_document E q seq e ps = Inr (patterns, growth)"
  shows "(\<forall>x. patterns = Some x \<longrightarrow> prefix (vs_patterns q) x)
     \<and> growth = int (en_doc_size E (PList (case patterns of None \<Rightarrow> vs_patterns q | Some x \<Rightarrow> x)))
         - int (en_doc_size E (PList (vs_patterns q)))"
proof (cases "ps = []")
  case True
  with assms show ?thesis by (simp add: v2_pattern_document_def)
next
  case False
  then obtain x where "check_v2_patterns E seq e (vs_patterns q) ps = Inr x" "patterns = Some x"
      "growth = int (en_doc_size E (PList x)) - int (en_doc_size E (PList (vs_patterns q)))"
    using assms by (auto simp: v2_pattern_document_def bind_r_eq_Inr Let_def split: if_splits)
  with checked_patterns show ?thesis by simp
qed

lemma ends_unit_of:
  assumes "v2_next_sequence (vs_metadata q) = Inr seq" and X: "\<And>S. P S \<Longrightarrow> X S"
  shows "ends P (uart_unit_of E sid (vs_metadata q) event ps result q seq (uart_rx_record seq now event (length (vs_raw q))))
     (\<lambda>u S. P S \<and> uart_unit_ok E q event u) X"
  unfolding uart_unit_of_def
proof (intro ends_if ends_raise ends_lift X)
  fix pg
  assume pg: "v2_pattern_document E q seq event ps = Inr pg"
  note doc = pattern_document [of E q seq event ps "fst pg" "snd pg", unfolded prod.collapse, OF pg]
  let ?r = "uart_rx_record seq now event (length (vs_raw q))"
  let ?u = "\<lambda>hardware. \<lparr>uu_evidence_seq = seq, uu_record = ?r,
      uu_unit_bytes = int (length (ev_data event)) + int (en_jsonl_size E ?r) + snd pg
        + int (sum_list (map (en_jsonl_size E) hardware)),
      uu_patterns = fst pg, uu_hardware = hardware\<rparr>"
  have unit: "uart_unit_ok E q event (?u hardware)" if "numbered_from (Suc seq) hardware" for hardware
    using that assms(1) doc
    by (simp add: uart_unit_ok_def v2_next_sequence_Inr uart_rx_record_def rec_data_def b64decode_encode
        evidence_bytes_def add_uart_unit_def)
  have hw: "ends P (case result of None \<Rightarrow> return_s []
        | Some x \<Rightarrow> line_limit_records E sid (vs_metadata q) x (Suc seq) (cr_oversized_lines x))
      (\<lambda>rs S. P S \<and> numbered_from (Suc seq) rs) X"
    using X by (cases result) (simp_all add: ends_return ends_line_limits)
  show "ends P (bind_s (case result of None \<Rightarrow> return_s []
        | Some x \<Rightarrow> line_limit_records E sid (vs_metadata q) x (Suc seq) (cr_oversized_lines x)) (\<lambda>hardware. return_s (?u hardware)))
      (\<lambda>u S. P S \<and> uart_unit_ok E q event u) X"
    by (rule ends_bind [OF hw], rule ends_return) (use unit in blast)
qed

lemma ends_uart_unit:
  assumes P: "\<And>S. P S \<Longrightarrow> S sid = Some q" and X: "\<And>S. P S \<Longrightarrow> X S"
  shows "ends P (v2_uart_unit E sid (vs_metadata q) event ps result) (\<lambda>u S. P S \<and> uart_unit_ok E q event u) X"
  unfolding v2_uart_unit_def
proof (rule ends_load)
  fix q1 :: v2_session
  let ?c = "\<lambda>q1. bind_s (lift_s (last_segment ''v2 session must contain a current segment'' (vs_metadata q))) (\<lambda>segment.
       if \<not> py_eq_int (dict_get ''segment_id'' (snd segment)) (int (ev_segment_id event)) then
         raise_s (ValueError ''v2 UART event must reference the current segment'')
       else bind_s (lift_s (v2_next_sequence (vs_metadata q))) (\<lambda>seq. bind_s (read_clock E) (\<lambda>now.
         uart_unit_of E sid (vs_metadata q) event ps result q1 seq (uart_rx_record seq now event (length (vs_raw q1))))))"
  have "ends P (?c q) (\<lambda>u S. P S \<and> uart_unit_ok E q event u) X"
    by (intro ends_lift ends_if ends_raise ends_clock ends_unit_of X) auto
  then show "ends (\<lambda>S. P S \<and> S sid = Some q1) (?c q1) (\<lambda>u S. P S \<and> uart_unit_ok E q event u) X"
    using P by (fastforce simp: ends_def)
qed (rule X)

lemma extends_uart: "is_active_v2 (vs_metadata q) \<Longrightarrow> uart_unit_ok E q event u \<Longrightarrow> extends q (add_uart_unit event u q)"
  by (auto simp: extends_def add_uart_unit_def uart_unit_ok_def split: option.split)

lemma numbered_uart:
  assumes "uart_unit_ok E q event u" and "numbered q (uart_unit.uu_evidence_seq u)"
  shows "numbered (add_uart_unit event u q) (uu_evidence_seq u + 1 + length (uu_hardware u))"
proof (rule numbered_grow [OF assms(2), where a = "[uu_record u]" and b = "[]" and c = "uu_hardware u" and d = "[]"])
  from assms(1) have r: "dict_get ''evidence_seq'' (uu_record u) = PNat (uu_evidence_seq u)"
    "numbered_from (Suc (uu_evidence_seq u)) (uu_hardware u)" by (simp_all add: uart_unit_ok_def)
  from numbered_from_Cons [OF this]
  show "map record_seq ([uu_record u] @ [] @ uu_hardware u @ []) =
      [uu_evidence_seq u..<uu_evidence_seq u + 1 + length (uu_hardware u)]"
    "list_all (\<lambda>r. dict_get ''evidence_seq'' r = PNat (record_seq r)) ([uu_record u] @ [] @ uu_hardware u @ [])"
    unfolding numbered_from_def append_Nil append_Nil2 append_Cons by simp_all
qed (simp_all add: add_uart_unit_def)

lemma raw_uart: "uart_unit_ok E q event u \<Longrightarrow> raw_ok q \<Longrightarrow> raw_ok (add_uart_unit event u q)"
  by (auto simp: raw_ok_def uart_unit_ok_def add_uart_unit_def offsets_append)

lemma ends_commit_uart:
  assumes P: "\<And>S. P S \<Longrightarrow> holds E S0 D sid K N S \<and> S sid = Some q"
    and act: "is_active_v2 (vs_metadata q)" and u: "uart_unit_ok E q event u"
    and fits: "v2_unit_fits (vs_metadata q) (uu_unit_bytes u) = Inr True"
  shows "ends P (commit_uart_unit E sid (vs_metadata q) event result u rolled)
     (\<lambda>a. held E S0 D (va_session_id a) K N) (good E S0)"
  unfolding commit_uart_unit_def Let_def
proof (rule ends_load)
  fix q1 :: v2_session
  let ?next = "uu_evidence_seq u + 1 + length (uu_hardware u)"
  let ?q = "add_uart_unit event u q"
  let ?a = "make_admission sid (uu_evidence_seq u) rolled ?next"
  have c: "ends (\<lambda>S. P S \<and> S sid = Some q)
      (commit_unit_of E sid ?q (uart_metadata event result ?next (vs_metadata q))) (\<lambda>_. held E S0 D sid K N) (good E S0)"
  proof (cases "\<exists>S. P S")
    case False
    then show ?thesis by (auto simp: ends_def)
  next
    case True
    then obtain S where S: "P S" by blast
    with P have t: "tracks K N (vs_metadata q)" by (fastforce simp: holds_def)
    show ?thesis
    proof (rule ends_commit [OF _ _ act extends_uart [OF act u]])
      show "holds E S0 D sid K N S' \<and> S' sid = Some q" if "P S' \<and> S' sid = Some q" for S'
        using P that by blast
      fix m m'
      assume m: "uart_metadata event result ?next (vs_metadata q) = Inr m" and acc: "account_storage E ?q m = Inr m'"
        and ok: "session_ok E sid q"
      from ok have "doc_core (vs_metadata q)" by (simp add: session_ok_def doc_ok_def)
      from keeps_uart_metadata [OF this t m] have c: "doc_core m" "tracks K N m"
        "frame (dict_put ''next_evidence_seq'' (PNat ?next) (vs_metadata q)) m" by blast+
      from u have n: "dict_get ''next_evidence_seq'' (vs_metadata q) = PNat (uu_evidence_seq u)"
        and grow: "int (evidence_bytes E ?q) = int (evidence_bytes E q) + uu_unit_bytes u"
        by (simp_all add: uart_unit_ok_def)
      from account_ok [OF ok refl n c(1,3) numbered_uart [OF u] raw_uart [OF u] fits grow acc] c(2)
      show "session_ok E sid (?q\<lparr>vs_metadata := m'\<rparr>) \<and> tracks K N m'" by simp
    qed
  qed
  have "ends (\<lambda>S. P S \<and> S sid = Some q)
      (bind_s (commit_unit_of E sid ?q (uart_metadata event result ?next (vs_metadata q))) (\<lambda>_. return_s ?a))
      (\<lambda>a. held E S0 D (va_session_id a) K N) (good E S0)"
    by (rule ends_bind [OF c]) (simp add: ends_def return_s_def make_admission_def)
  then show "ends (\<lambda>S. P S \<and> S sid = Some q1)
      (bind_s (commit_unit_of E sid (add_uart_unit event u q1) (uart_metadata event result ?next (vs_metadata q)))
        (\<lambda>_. return_s ?a)) (\<lambda>a. held E S0 D (va_session_id a) K N) (good E S0)"
    using P by (fastforce simp: ends_def)
qed (use P holds_good in blast)

text \<open>A unit for the current document, committed when it fits.\<close>

lemma ends_admit_uart:
  assumes act: "is_active_v2 (vs_metadata q)"
    and else_ok: "\<And>u. ends (holds E S0 D sid K N) (c u) (\<lambda>a. held E S0 D (va_session_id a) K' N') (good E S0)"
    and same: "K' = K" "N \<le> N'"
  shows "ends (\<lambda>S. holds E S0 D sid K N S \<and> S sid = Some q)
     (bind_s (v2_uart_unit E sid (vs_metadata q) event ps result) (\<lambda>u.
      bind_s (uart_unit_fits (vs_metadata q) u) (\<lambda>fit.
        if fit then commit_uart_unit E sid (vs_metadata q) event result u rolled else c u)))
     (\<lambda>a. held E S0 D (va_session_id a) K' N') (good E S0)"
proof (rule ends_bind [OF ends_uart_unit], unfold uart_unit_fits_def)
  fix u
  let ?P = "\<lambda>S. (holds E S0 D sid K N S \<and> S sid = Some q) \<and> uart_unit_ok E q event u"
  show "ends ?P (bind_s (lift_s (v2_unit_fits (vs_metadata q) (uu_unit_bytes u))) (\<lambda>fit.
        if fit then commit_uart_unit E sid (vs_metadata q) event result u rolled else c u))
     (\<lambda>a. held E S0 D (va_session_id a) K' N') (good E S0)"
  proof (rule ends_fact, rule ends_lift, rule ends_if)
    fix fit
    assume u: "uart_unit_ok E q event u" and "v2_unit_fits (vs_metadata q) (uu_unit_bytes u) = Inr fit" and fit
    then have fits: "v2_unit_fits (vs_metadata q) (uu_unit_bytes u) = Inr True" by simp
    show "ends (\<lambda>S. holds E S0 D sid K N S \<and> S sid = Some q)
        (commit_uart_unit E sid (vs_metadata q) event result u rolled)
        (\<lambda>a. held E S0 D (va_session_id a) K' N') (good E S0)"
      by (rule ends_post, rule ends_commit_uart [OF _ act u fits], assumption) (use same held_mono in auto)
  next
    fix fit
    show "ends (\<lambda>S. holds E S0 D sid K N S \<and> S sid = Some q) (c u)
        (\<lambda>a. held E S0 D (va_session_id a) K' N') (good E S0)"
      by (rule ends_pre [OF else_ok]) simp
  qed (blast intro: holds_good)
qed (auto dest: holds_good)

lemma ends_uart_receive:
  assumes three: "en_doc_size E (PList []) = 3" and "1 \<le> N"
  shows "ends (holds E S0 D sid K N) (append_v2_uart_receive n E sid event ps result rolled_result)
     (\<lambda>a. held E S0 D (va_session_id a) K N) (good E S0)"
proof -
  let ?Q = "\<lambda>a. held E S0 D (va_session_id a) K N"
  have roll: "ends (holds E S0 D sid K N) (rollover_v2 n E sid ''rollover_size'' None)
      (\<lambda>sid'. holds E S0 D sid' K 1) (good E S0)"
    unfolding rollover_v2_def
    by (rule ends_post [OF rollover_step_ok [OF append_record_ok [OF three] three]]) (rule held_holds)
  have full: "ends (holds E S0 D sid' K 1) (raise_s (SessionPersistenceError ''preflight v2 evidence'' True)) ?Q (good E S0)"
    for sid' by (simp add: ends_raise holds_good)
  have swap: "(if \<not> fit then c else d) = (if fit then d else c)" for fit and c d :: "'a store_op" by simp
  show ?thesis
    unfolding append_v2_uart_receive_def Let_def swap
    by (rule ends_lift [rotated], rule holds_good, assumption)
       (rule ends_active [rotated], rule holds_good, assumption,
        rule ends_lift [rotated], blast intro: holds_good,
        rule ends_admit_uart, assumption,
        rule ends_bind [OF roll], rule ends_active [rotated], rule holds_good, assumption,
        rule ends_lift [rotated], blast intro: holds_good,
        rule ends_lift [rotated], blast intro: holds_good,
        rule ends_lift [rotated], blast intro: holds_good,
        rule ends_admit_uart, assumption, rule full, use assms(2) in simp_all)
qed

section \<open>The operations that add one record\<close>

definition owned_at :: "ustr \<Rightarrow> sessions \<Rightarrow> owned" where
  "owned_at sid S = (case S sid of Some q \<Rightarrow> (op_keys (vs_metadata q), waiting (vs_metadata q)) | None \<Rightarrow> ([], []))"

lemma good_holds:
  assumes g: "good E S0 S" and K: "owned_at sid S = K"
  shows "holds E S0 {} sid K MAX_SESSION_SEGMENTS S"
proof -
  have "tracks K MAX_SESSION_SEGMENTS (vs_metadata q)" if "S sid = Some q" for q
    using good_session [OF g that] K that
    by (auto simp: session_ok_def doc_ok_def doc_core_def segments_ok_def tracks_def owned_at_def seg_count_def)
  with g show ?thesis by (simp add: holds_def)
qed

lemma ends_any_session:
  assumes "\<And>K. ends (holds E S0 {} sid K MAX_SESSION_SEGMENTS) c (Q K) (good E S0)"
    and "\<And>K a S. Q K a S \<Longrightarrow> good E S0 S"
  shows "ends (good E S0) c (\<lambda>_. good E S0) (good E S0)"
proof (rule ends_split [where g = "owned_at sid"])
  fix K
  show "ends (\<lambda>S. good E S0 S \<and> owned_at sid S = K) c (\<lambda>_. good E S0) (good E S0)"
    by (rule ends_pre [OF ends_post [OF assms(1) [of K] assms(2)]]) (auto intro: good_holds)
qed

definition harmless :: "store_env \<Rightarrow> sessions \<Rightarrow> 'a store_op \<Rightarrow> bool" where
  "harmless E S0 c \<longleftrightarrow> ends (good E S0) c (\<lambda>_. good E S0) (good E S0)"

lemma harmless_bind: "harmless E S0 c \<Longrightarrow> (\<And>a. harmless E S0 (f a)) \<Longrightarrow> harmless E S0 (bind_s c f)"
  unfolding harmless_def by (rule ends_bind)

lemma harmless_reads: "reads c \<Longrightarrow> harmless E S0 c"
proof -
  assume r: "reads c"
  have "outcome_ok (\<lambda>_. good E S0) (good E S0) (c s)" if g: "good E S0 (so_sessions s)" for s :: v2_store
  proof -
    obtain x s' where c: "c s = (x, s')" by (cases "c s")
    with r have "so_sessions s' = so_sessions s" unfolding reads_def by (metis snd_conv)
    with g c show ?thesis by (cases x) simp_all
  qed
  then show ?thesis by (simp add: harmless_def ends_def)
qed

lemma harmless_if: "harmless E S0 c \<Longrightarrow> harmless E S0 d \<Longrightarrow> harmless E S0 (if b then c else d)"
  by simp

lemmas harmless_intros = harmless_bind harmless_if harmless_reads [OF reads_basic(1)] harmless_reads [OF reads_basic(2)]
  harmless_reads [OF reads_basic(3)] harmless_reads [OF reads_basic(4)] harmless_reads [OF reads_basic(6)]
  harmless_reads [OF reads_active]

lemma harmless_append:
  assumes "en_doc_size E (PList []) = 3" and "fields_ok f"
    and safe: "\<And>K. \<exists>K'. safe_change K MAX_SESSION_SEGMENTS mutator K' MAX_SESSION_SEGMENTS"
  shows "harmless E S0 (append_v2_record n E sid target rt f mutator)"
  unfolding harmless_def
proof (rule ends_any_session)
  fix K
  from safe [of K] obtain K' where "safe_change K MAX_SESSION_SEGMENTS mutator K' MAX_SESSION_SEGMENTS" by blast
  from appender_okD [OF append_record_ok [OF assms(1)] _ assms(2) this]
  show "ends (holds E S0 {} sid K MAX_SESSION_SEGMENTS) (append_v2_record n E sid target rt f mutator)
      (\<lambda>a S. \<exists>K'. held E S0 {} (va_session_id a) K' MAX_SESSION_SEGMENTS S) (good E S0)"
    by (rule ends_post) (simp add: MAX_SESSION_SEGMENTS_def, blast)
qed (auto dest: held_good)

lemma safe_someI:
  "(\<And>a. valid_id (va_session_id a) \<Longrightarrow> \<exists>K'. keeps (tracks K N) (\<lambda>m. f m a) (tracks K' N)) \<Longrightarrow> \<exists>K'. safe_change K N f K' N"
  unfolding safe_change_def by metis

lemma safe_changes:
  "\<exists>K'. safe_change K N (operation_started i t) K' N"
  "\<exists>K'. safe_change K N (operation_ended i outcome) K' N"
  "\<exists>K'. safe_change K N (record_pending_attempt ty i) K' N"
  "\<exists>K'. safe_change K N (resolve_attempt ty i) K' N"
  "\<exists>K'. safe_change K N (update_continuity e now) K' N"
  "\<exists>K'. safe_change K N (record_overflow oe d r) K' N"
  "\<exists>K'. safe_change K N (record_status se d l rd rl) K' N"
  "\<exists>K'. safe_change K N (\<lambda>m _. Inr m) K' N"
  by (cases K, simp only:, rule safe_someI, rule exI,
      (rule keeps_started | rule keeps_ended | erule keeps_pending | rule keeps_resolve | rule keeps_continuity
        | rule keeps_overflow | rule keeps_status | rule keeps_same))+

subsection \<open>Operations\<close>

lemma reads_unused: "reads (operation_id_unused sid i)"
  unfolding operation_id_unused_def by (intro reads_intros)

lemma harmless_start:
  assumes "en_doc_size E (PList []) = 3"
  shows "harmless E S0 (start_v2_operation n E sid i t ps)"
proof -
  have f: "fields_ok (start_fields i t ps)" by (simp add: fields_ok_def start_fields_def)
  show ?thesis
    unfolding start_v2_operation_def
    by (intro harmless_intros harmless_reads [OF reads_unused] harmless_append [OF assms f]
        safe_changes)
qed

lemma reads_is_active: "reads (operation_is_active sid i)"
proof -
  have "reads (case dict_get ''active_operations'' m of
         PDict active \<Rightarrow>
           (case map_of active i of
              Some (PDict _) \<Rightarrow> return_s m
            | _ \<Rightarrow> raise_s (ValueError ''v2 operation is not active''))
       | _ \<Rightarrow> raise_s (ValueError ''v2 operation is not active''))" for m
    by (simp add: reads_basic split: pyval.split option.split)
  then show ?thesis unfolding operation_is_active_def by (intro reads_intros)
qed

lemma harmless_complete_operation:
  assumes "en_doc_size E (PList []) = 3"
  shows "harmless E S0 (complete_v2_operation n E sid i outcome e c l)"
proof -
  have f: "fields_ok (operation_terminal_fields i outcome oe mp l)" for oe mp
    by (auto simp: fields_ok_def operation_terminal_fields_def bind_r_eq_Inr)
  show ?thesis
    unfolding complete_v2_operation_def case_prod_beta
    by (intro harmless_intros harmless_reads [OF reads_is_active] harmless_append [OF assms f]
        safe_changes)
qed

subsection \<open>Attempts and results\<close>

lemma harmless_attempt:
  assumes "en_doc_size E (PList []) = 3" and "lit ''evidence_seq'' \<notin> fst ` set payload"
  shows "harmless E S0 (append_v2_attempt n E sid t i op payload)"
proof -
  let ?f = "\<lambda>_ updated _. bind_r (current_v2_segment_id updated) (\<lambda>segment_id.
      Inr ([(lit ''attempt_id'', PStr i), (lit ''operation_id'', opt_str op)] @ payload @ [(lit ''segment_id'', PNat segment_id)]))"
  have f: "fields_ok ?f" using assms(2) by (fastforce simp: fields_ok_def bind_r_eq_Inr image_iff)
  show ?thesis
    unfolding append_v2_attempt_def case_prod_beta
    by (intro harmless_intros harmless_append [OF assms(1) f] safe_changes)
qed

lemma harmless_tx_attempt:
  "en_doc_size E (PList []) = 3 \<Longrightarrow> harmless E S0 (append_v2_uart_tx_attempt n E sid i data op tr)"
  unfolding append_v2_uart_tx_attempt_def by (intro harmless_intros harmless_attempt) simp_all

lemma harmless_control_attempt:
  "en_doc_size E (PList []) = 3 \<Longrightarrow> harmless E S0 (append_v2_control_attempt n E sid i role provider ps op)"
  unfolding append_v2_control_attempt_def by (intro harmless_intros harmless_attempt) simp_all

lemma harmless_result:
  assumes "en_doc_size E (PList []) = 3" and "lit ''evidence_seq'' \<notin> fst ` set payload"
  shows "harmless E S0 (append_v2_result n E sid t i payload)"
proof -
  have f: "fields_ok (result_fields t i payload)"
    using assms(2) by (fastforce simp: fields_ok_def result_fields_def bind_r_eq_Inr image_iff split: option.splits)
  show ?thesis
    unfolding append_v2_result_def
    by (intro harmless_intros harmless_append [OF assms(1) f] safe_changes)
qed

lemma harmless_tx_result:
  "en_doc_size E (PList []) = 3 \<Longrightarrow> harmless E S0 (append_v2_uart_tx_result n E sid i status k)"
  unfolding append_v2_uart_tx_result_def by (intro harmless_intros harmless_result) simp_all

lemma harmless_control_result:
  "en_doc_size E (PList []) = 3 \<Longrightarrow> harmless E S0 (append_v2_control_result n E sid i status k)"
  unfolding append_v2_control_result_def by (intro harmless_intros harmless_result) simp_all

subsection \<open>Connections, segments, telemetry and boundaries\<close>

lemma harmless_connection:
  assumes "en_doc_size E (PList []) = 3"
  shows "harmless E S0 (append_v2_connection_event n E sid e i detail)"
proof -
  have f: "fields_ok (\<lambda>_ updated _.
            bind_r (if i = None then Inr PNone
                    else bind_r (current_v2_segment_id updated) (\<lambda>i. Inr (PNat i))) (\<lambda>v.
              Inr [(lit ''segment_id'', v), (lit ''detail'', PDict detail)]))"
    by (auto simp: fields_ok_def bind_r_eq_Inr)
  have r: "harmless E S0 (case i of None \<Rightarrow> return_s True
      | Some i \<Rightarrow> bind_s (lift_s (current_v2_segment_id m)) (\<lambda>j. return_s (i = j)))" for m
    by (cases i) (simp_all add: harmless_intros)
  show ?thesis
    unfolding append_v2_connection_event_def
    by (intro harmless_intros r harmless_append [OF assms f] safe_changes)
qed

lemma harmless_overflow:
  assumes "en_doc_size E (PList []) = 3"
  shows "harmless E S0 (append_v2_buffer_overflow n E sid e d r)"
proof -
  have f: "fields_ok (\<lambda>_ updated _. bind_r (current_v2_segment_id updated) (\<lambda>i. Inr (overflow_fields e i)))"
    by (auto simp: fields_ok_def bind_r_eq_Inr overflow_fields_def)
  show ?thesis
    unfolding append_v2_buffer_overflow_def
    by (intro harmless_intros harmless_append [OF assms f] safe_changes)
qed

lemma harmless_status:
  assumes "en_doc_size E (PList []) = 3"
  shows "harmless E S0 (append_v2_buffer_status n E sid e d l rd rl)"
proof -
  have f: "fields_ok (\<lambda>_ updated _. bind_r (current_v2_segment_id updated) (\<lambda>i. Inr (status_fields e i)))"
    by (auto simp: fields_ok_def bind_r_eq_Inr status_fields_def)
  show ?thesis
    unfolding append_v2_buffer_status_def
    by (intro harmless_intros harmless_append [OF assms f] safe_changes)
qed

lemma boundary_fields:
  assumes "line_limit_exceeded_event_json x l = Inr d"
  shows "fields_ok (\<lambda>_ updated _. bind_r (current_v2_segment_id updated) (\<lambda>i.
          Inr ((lit ''segment_id'', PNat i) # dict_pop (dict_pop d (lit ''type'')) (lit ''segment_id''))))"
  using assms by (auto simp: fields_ok_def bind_r_eq_Inr line_limit_exceeded_event_json_def dict_pop_def)

lemma harmless_boundary:
  assumes "en_doc_size E (PList []) = 3"
  shows "harmless E S0 (append_v2_line_boundary n E sid xs)"
proof (induction xs arbitrary: sid)
  case Nil
  show ?case by (simp add: harmless_intros)
next
  case (Cons x xs)
  obtain result l where x: "x = (result, l)" by (cases x)
  show ?case
    unfolding x append_v2_line_boundary.simps harmless_def
  proof (rule ends_lift)
    fix d
    assume d: "line_limit_exceeded_event_json result l = Inr d"
    show "ends (good E S0) (bind_s (append_v2_record n E sid HardwareStream (lit ''line_limit_exceeded'')
       (\<lambda>_ updated _. bind_r (current_v2_segment_id updated) (\<lambda>i.
          Inr ((lit ''segment_id'', PNat i) # dict_pop (dict_pop d (lit ''type'')) (lit ''segment_id''))))
       (\<lambda>m _. Inr m)) (\<lambda>a.
     bind_s (append_v2_line_boundary n E (va_session_id a) xs) (\<lambda>as. return_s (a # as))))
       (\<lambda>_. good E S0) (good E S0)"
      by (fold harmless_def, intro harmless_intros Cons.IH harmless_append [OF assms boundary_fields [OF d]]
          safe_changes)
  qed simp
qed

lemma harmless_receive:
  assumes "en_doc_size E (PList []) = 3"
  shows "harmless E S0 (append_v2_uart_receive n E sid event ps result rolled_result)"
  unfolding harmless_def
proof (rule ends_any_session [where sid = sid])
  show "ends (holds E S0 {} sid K MAX_SESSION_SEGMENTS) (append_v2_uart_receive n E sid event ps result rolled_result)
      (\<lambda>a. held E S0 {} (va_session_id a) K MAX_SESSION_SEGMENTS) (good E S0)" for K
    by (rule ends_uart_receive [OF assms]) (simp add: MAX_SESSION_SEGMENTS_def)
qed (rule held_good)

subsection \<open>Sessions and segments\<close>

lemma harmless_create:
  assumes "en_doc_size E (PList []) = 3"
  shows "harmless E S0 (create_v2_session E p snapshot predecessor)"
  unfolding harmless_def
  by (rule ends_post [OF ends_pre [OF ends_create [OF assms, where D = "{}"]]]) (simp_all add: held_good)

lemma harmless_terminalize: "harmless E S0 (terminalize_session E sid state r e tr Inr)"
  unfolding harmless_def by (rule ends_terminalize_any [OF keeps_same])

lemma harmless_terminals:
  "harmless E S0 (complete_session E sid r)" "harmless E S0 (fail_session E sid r c d)"
  "harmless E S0 (abandon_session E sid)"
  unfolding complete_session_def fail_session_def abandon_session_def
  by (rule harmless_terminalize, intro harmless_intros harmless_terminalize, rule harmless_terminalize)

lemma keeps_publish_safe:
  assumes "sn_segment snapshot = Some c"
  shows "safe_change K 31 (publish_segment snapshot t) (\<lambda>_. K) MAX_SESSION_SEGMENTS"
  using keeps_publish [of 31 snapshot K t] assms by (simp add: safe_change_def MAX_SESSION_SEGMENTS_def)

lemma harmless_segment:
  assumes three: "en_doc_size E (PList []) = 3"
  shows "harmless E S0 (append_v2_segment n E sid snapshot)"
proof (cases "sn_segment snapshot")
  case None
  then show ?thesis by (simp add: append_v2_segment_def harmless_intros)
next
  case (Some ctx)
  have f: "fields_ok (\<lambda>_ updated _. bind_r (segment_count updated) (\<lambda>k. Inr [(lit ''segment_id'', PNat k)]))"
    by (auto simp: fields_ok_def bind_r_eq_Inr)
  note app = appender_okD [OF append_record_ok [OF three] _ f keeps_publish_safe [OF Some]]
  have roll: "ends (holds E S0 {} sid K N) (rollover_v2 n E sid reason snap) (\<lambda>_. good E S0) (good E S0)" for K N reason snap
    unfolding rollover_v2_def
    by (rule ends_post [OF rollover_step_ok [OF append_record_ok [OF three] three]]) (rule held_good)
  have after: "ends (\<lambda>S. held E S0 {} sid' K MAX_SESSION_SEGMENTS S)
      (bind_s (require_active_v2_metadata sid') (\<lambda>m'. bind_s (lift_s (current_v2_segment_id m')) (\<lambda>i s.
         (Inr sid', s\<lparr>so_snapshots := (so_snapshots s)(sid' \<mapsto> with_segment_id i snapshot)\<rparr>))))
      (\<lambda>_. good E S0) (good E S0)" for sid' K
    by (intro ends_active ends_lift) (auto simp: ends_def dest: held_good)
  show ?thesis
    unfolding append_v2_segment_def Some option.case harmless_def
  proof (rule ends_any_session [where sid = sid])
    fix K
    show "ends (holds E S0 {} sid K MAX_SESSION_SEGMENTS)
     (bind_s (require_active_v2_metadata sid) (\<lambda>m. bind_s (lift_s (segment_count m)) (\<lambda>expected_id.
            if sc_segment_id ctx \<noteq> expected_id then
              raise_s (ValueError ''v2 segment ID must be the next contiguous ID'')
            else if expected_id = MAX_SESSION_SEGMENTS then
              rollover_v2 n E sid ''rollover_segments'' (Some (with_segment_id 0 snapshot))
            else
              bind_s (read_clock E) (\<lambda>started_at.
              bind_s (append_v2_record n E sid ConnectionStream (lit ''segment_opened'')
                        (\<lambda>_ updated _. bind_r (segment_count updated) (\<lambda>k. Inr [(lit ''segment_id'', PNat k)]))
                        (publish_segment snapshot started_at)) (\<lambda>a.
              bind_s (require_active_v2_metadata (va_session_id a)) (\<lambda>m'.
              bind_s (lift_s (current_v2_segment_id m')) (\<lambda>i s.
                (Inr (va_session_id a),
                 s\<lparr>so_snapshots := (so_snapshots s)(va_session_id a \<mapsto> with_segment_id i snapshot)\<rparr>))))))))
     (\<lambda>_. good E S0) (good E S0)"
    proof (rule ends_active, rule ends_lift, intro ends_if ends_raise ends_clock)
      fix q :: v2_session and k t
      let ?P = "\<lambda>S. holds E S0 {} sid K MAX_SESSION_SEGMENTS S \<and> S sid = Some q"
      assume k: "segment_count (vs_metadata q) = Inr k" and ne: "k \<noteq> MAX_SESSION_SEGMENTS"
      have "seg_count (vs_metadata q) = k"
        using k by (auto simp: segment_count_def seg_count_def split: pyval.splits if_splits)
      then have less: "holds E S0 {} sid K 31 S" if "?P S" for S
        using that ne by (auto simp: holds_def tracks_def MAX_SESSION_SEGMENTS_def)
      show "ends ?P (bind_s (append_v2_record n E sid ConnectionStream (lit ''segment_opened'')
                        (\<lambda>_ updated _. bind_r (segment_count updated) (\<lambda>k. Inr [(lit ''segment_id'', PNat k)]))
                        (publish_segment snapshot t)) (\<lambda>a.
              bind_s (require_active_v2_metadata (va_session_id a)) (\<lambda>m'.
              bind_s (lift_s (current_v2_segment_id m')) (\<lambda>i s.
                (Inr (va_session_id a),
                 s\<lparr>so_snapshots := (so_snapshots s)(va_session_id a \<mapsto> with_segment_id i snapshot)\<rparr>)))))
          (\<lambda>_. good E S0) (good E S0)"
        by (rule ends_bind [OF ends_pre [OF app less] after]) simp_all
    next
      fix q :: v2_session
      show "ends (\<lambda>S. holds E S0 {} sid K MAX_SESSION_SEGMENTS S \<and> S sid = Some q)
          (rollover_v2 n E sid ''rollover_segments'' (Some (with_segment_id 0 snapshot))) (\<lambda>_. good E S0) (good E S0)"
        by (rule ends_pre [OF roll]) blast
    qed (auto dest: holds_good)
  qed simp
qed

end
