(* ===== verification/Store_Reachable.thy ===== *)
theory Store_Reachable
  imports Store_Commands
begin

text \<open>
  The store as a machine: the commands its callers give it, and what is true of every session after any
  sequence of them, whatever steps fail and however deep rollovers nest.
\<close>

section \<open>Commands\<close>

datatype store_command =
    CreateSession dut_profile backend_snapshot
  | StartOperation ustr ustr ustr pydict
  | EndOperation ustr ustr ustr pyval pyval pyval
  | RecordTxAttempt ustr ustr bytes "ustr option" pydict
  | RecordTxResult ustr ustr ustr "int option"
  | RecordControlAttempt ustr ustr ustr ustr pydict "ustr option"
  | RecordControlResult ustr ustr ustr "int option"
  | RecordConnection ustr ustr "nat option" pydict
  | OpenSegment ustr backend_snapshot
  | RecordOverflow ustr buffer_overflow_event "nat option" "nat option"
  | RecordStatus ustr buffer_status_event "nat option" "bool option" "nat option" "bool option"
  | ReceiveBytes ustr uart_receive_event "pydict list" "capture_result option" "capture_result option"
  | RecordBoundary ustr "(capture_result \<times> oversized_uart_line) list"
  | CompleteSession ustr ustr
  | FailSession ustr ustr ustr ustr
  | AbandonSession ustr

definition ignoring :: "'a store_op \<Rightarrow> unit store_op" where
  "ignoring c = bind_s c (\<lambda>_. return_s ())"

fun run_command :: "nat \<Rightarrow> store_env \<Rightarrow> store_command \<Rightarrow> unit store_op" where
  "run_command n E (CreateSession p snapshot) = ignoring (create_v2_session E p snapshot None)"
| "run_command n E (StartOperation sid i t ps) = ignoring (start_v2_operation n E sid i t ps)"
| "run_command n E (EndOperation sid i outcome e c l) = ignoring (complete_v2_operation n E sid i outcome e c l)"
| "run_command n E (RecordTxAttempt sid i d op tr) = ignoring (append_v2_uart_tx_attempt n E sid i d op tr)"
| "run_command n E (RecordTxResult sid i status k) = ignoring (append_v2_uart_tx_result n E sid i status k)"
| "run_command n E (RecordControlAttempt sid i role provider ps op) =
     ignoring (append_v2_control_attempt n E sid i role provider ps op)"
| "run_command n E (RecordControlResult sid i status k) = ignoring (append_v2_control_result n E sid i status k)"
| "run_command n E (RecordConnection sid e i detail) = ignoring (append_v2_connection_event n E sid e i detail)"
| "run_command n E (OpenSegment sid snapshot) = ignoring (append_v2_segment n E sid snapshot)"
| "run_command n E (RecordOverflow sid e d r) = ignoring (append_v2_buffer_overflow n E sid e d r)"
| "run_command n E (RecordStatus sid e d l rd rl) = ignoring (append_v2_buffer_status n E sid e d l rd rl)"
| "run_command n E (ReceiveBytes sid e ps x y) = ignoring (append_v2_uart_receive n E sid e ps x y)"
| "run_command n E (RecordBoundary sid xs) = ignoring (append_v2_line_boundary n E sid xs)"
| "run_command n E (CompleteSession sid r) = complete_session E sid r"
| "run_command n E (FailSession sid r c d) = fail_session E sid r c d"
| "run_command n E (AbandonSession sid) = abandon_session E sid"

text \<open>A caller goes on after an exception.\<close>

fun run_commands :: "nat \<Rightarrow> store_env \<Rightarrow> store_command list \<Rightarrow> v2_store \<Rightarrow> v2_store" where
  "run_commands n E [] s = s"
| "run_commands n E (c # cs) s = run_commands n E cs (snd (run_command n E c s))"

definition empty_store :: "step_outcome list \<Rightarrow> v2_store" where
  "empty_store steps =
     \<lparr>so_sessions = (\<lambda>_. None), so_tick = 0, so_steps = steps, so_profiles = (\<lambda>_. None),
      so_snapshots = (\<lambda>_. None)\<rparr>"

lemma harmless_command:
  assumes "en_doc_size E (PList []) = 3"
  shows "harmless E S0 (run_command n E c)"
proof -
  note ops = harmless_create [OF assms] harmless_start [OF assms] harmless_complete_operation [OF assms]
    harmless_tx_attempt [OF assms] harmless_tx_result [OF assms] harmless_control_attempt [OF assms]
    harmless_control_result [OF assms] harmless_connection [OF assms] harmless_segment [OF assms]
    harmless_overflow [OF assms] harmless_status [OF assms] harmless_receive [OF assms]
    harmless_boundary [OF assms] harmless_terminals
  have i: "harmless E S0 (ignoring c)" if "harmless E S0 c" for c :: "'a store_op"
    unfolding ignoring_def by (intro harmless_intros that)
  show ?thesis
    by (cases c) (simp_all only: run_command.simps ops i)
qed

lemma good_commands:
  assumes "en_doc_size E (PList []) = 3"
  shows "good E S0 (so_sessions s) \<Longrightarrow> good E S0 (so_sessions (run_commands n E cs s))"
proof (induction cs arbitrary: s)
  case Nil
  then show ?case by simp
next
  case (Cons c cs)
  obtain r s' where r: "run_command n E c s = (r, s')" by (cases "run_command n E c s")
  from endsD [OF harmless_command [OF assms, unfolded harmless_def] Cons.prems, of n c] r
  have "good E S0 (so_sessions s')" by (cases r) simp_all
  with Cons.IH r show ?case by simp
qed

lemma good_start: "sessions_ok E (so_sessions s) \<Longrightarrow> good E (so_sessions s) (so_sessions s)"
  by (simp add: good_def)

lemma sessions_ok_empty: "sessions_ok E (so_sessions (empty_store steps))"
  by (simp add: sessions_ok_def empty_store_def)

section \<open>Owners after a change\<close>

lemma ends_success: "ends P c Q X \<Longrightarrow> c s = (Inr a, s') \<Longrightarrow> P (so_sessions s) \<Longrightarrow> Q a (so_sessions s')"
  using endsD [of P c Q X s] by simp

lemma held_owned: "held E S0 D sid K N S \<Longrightarrow> owned_at sid S = K"
  by (cases K) (auto simp: held_def holds_def tracks_def owned_at_def)

lemma held_start:
  assumes "sessions_ok E S"
  shows "holds E S (dom S - {sid}) sid (owned_at sid S) MAX_SESSION_SEGMENTS S"
  using good_holds [of E S S sid "owned_at sid S"] assms by (auto simp: holds_def good_def)

lemma append_owned:
  assumes three: "en_doc_size E (PList []) = 3" and ok: "sessions_ok E (so_sessions s)"
    and f: "fields_ok f"
    and safe: "safe_change (owned_at sid (so_sessions s)) MAX_SESSION_SEGMENTS mutator K' MAX_SESSION_SEGMENTS"
    and run: "append_v2_record n E sid target rt f mutator s = (Inr a, s')"
  shows "sessions_ok E (so_sessions s') \<and> owned_at (va_session_id a) (so_sessions s') = K' a"
proof -
  have "1 \<le> MAX_SESSION_SEGMENTS" by (simp add: MAX_SESSION_SEGMENTS_def)
  note app = appender_okD [OF append_record_ok [OF three] this f safe]
  from ends_success [OF app run held_start [OF ok]] show ?thesis
    by (auto dest: held_owned held_good simp: good_def)
qed

lemma bind_s_success:
  assumes "bind_s c f s = (Inr b, s2)"
  obtains a s1 where "c s = (Inr a, s1)" "f a s1 = (Inr b, s2)"
  using assms by (auto simp: bind_s_def split: prod.splits sum.splits)

lemma lift_s_success: "lift_s r s = (Inr a, s') \<longleftrightarrow> r = Inr a \<and> s' = s"
  by (auto simp: lift_s_def)

lemma active_success:
  "require_active_v2_metadata sid s = (Inr m, s') \<longleftrightarrow>
     (\<exists>q. so_sessions s sid = Some q \<and> m = vs_metadata q \<and> is_active_v2 m
        \<and> dict_get ''session_id'' m = PStr sid \<and> s' = s)"
  by (auto simp: require_active_v2_metadata_def bind_s_def load_session_def raise_s_def return_s_def Let_def
      split: option.splits if_splits)

lemma attempt_fields:
  "lit ''evidence_seq'' \<notin> fst ` set payload \<Longrightarrow> fields_ok (\<lambda>_ updated _. bind_r (current_v2_segment_id updated) (\<lambda>segment_id.
      Inr ([(lit ''attempt_id'', PStr i), (lit ''operation_id'', opt_str op)] @ payload @ [(lit ''segment_id'', PNat segment_id)])))"
  by (fastforce simp: fields_ok_def bind_r_eq_Inr image_iff)

lemma result_fields_ok: "lit ''evidence_seq'' \<notin> fst ` set payload \<Longrightarrow> fields_ok (result_fields t i payload)"
  by (fastforce simp: fields_ok_def result_fields_def bind_r_eq_Inr image_iff split: option.splits)

lemma waiting_attempt:
  assumes "v2_pending_attempt m t i = Inr w"
  shows "w = None \<longleftrightarrow> map_of (waiting m) (v2_attempt_key (lit (attempt_name t)) i) = None"
proof -
  let ?k = "v2_attempt_key (lit (attempt_name t)) i"
  from assms obtain d where d: "dict_get ''pending_attempts'' m = PDict d"
      "\<forall>e \<in> set d. check_pending_attempt (fst e) (snd e) = Inr ()"
    and w: "w = (case map_of d ?k of Some (PDict x) \<Rightarrow> Some x | _ \<Rightarrow> None)"
    by (auto simp: v2_pending_attempt_def v2_pending_attempts_Inr bind_r_eq_Inr)
  have "\<exists>x. v = PDict x" if "map_of d ?k = Some v" for v
    using d(2) map_of_SomeD [OF that]
    by (fastforce simp: check_pending_attempt_def split: pyval.splits)
  then show ?thesis using w d(1) by (auto simp: waiting_def split: option.splits pyval.splits)
qed

lemma attempt_owned:
  assumes three: "en_doc_size E (PList []) = 3" and ok: "sessions_ok E (so_sessions s)"
    and p: "lit ''evidence_seq'' \<notin> fst ` set payload"
    and run: "append_v2_attempt n E sid t i op payload s = (Inr a, s')"
  shows "sessions_ok E (so_sessions s')
    \<and> map_of (snd (owned_at sid (so_sessions s))) (v2_attempt_key (lit (attempt_name t)) i) = None
    \<and> owned_at (va_session_id a) (so_sessions s') =
        (fst (owned_at sid (so_sessions s)),
         dict_set (snd (owned_at sid (so_sessions s))) (v2_attempt_key (lit (attempt_name t)) i)
           (PDict (pending_entry t i a)))"
proof -
  let ?f = "\<lambda>_ updated _. bind_r (current_v2_segment_id updated) (\<lambda>segment_id.
      Inr ([(lit ''attempt_id'', PStr i), (lit ''operation_id'', opt_str op)] @ payload @ [(lit ''segment_id'', PNat segment_id)]))"
  from run obtain q where q: "so_sessions s sid = Some q" "v2_pending_attempt (vs_metadata q) t i = Inr None"
    and app: "append_v2_record n E sid (attempt_stream t) (lit (attempt_name t)) ?f (record_pending_attempt t i) s = (Inr a, s')"
    unfolding append_v2_attempt_def
    by (auto elim!: bind_s_success split: if_splits simp: lift_s_success active_success load_session_def raise_s_def
        split: option.splits prod.splits)
  have safe: "safe_change K MAX_SESSION_SEGMENTS (record_pending_attempt t i)
     (\<lambda>a. (fst K, dict_set (snd K) (v2_attempt_key (lit (attempt_name t)) i) (PDict (pending_entry t i a)))) MAX_SESSION_SEGMENTS" for K
    by (simp add: safe_change_def keeps_pending)
  show ?thesis
    using append_owned [OF three ok attempt_fields [OF p] safe app] waiting_attempt [OF q(2)] q(1)
    by (simp add: owned_at_def)
qed

lemma result_waits:
  assumes "append_v2_result n E sid t i payload s = (Inr a, s')"
  shows "map_of (snd (owned_at sid (so_sessions s))) (v2_attempt_key (lit (attempt_name t)) i) \<noteq> None
    \<and> append_v2_record n E sid (attempt_stream t) (lit (attempt_result_name t))
           (result_fields t i payload) (resolve_attempt t i) s = (Inr a, s')"
proof -
  from assms obtain q w where q: "so_sessions s sid = Some q" "v2_pending_attempt (vs_metadata q) t i = Inr w" "w \<noteq> None"
    and app: "append_v2_record n E sid (attempt_stream t) (lit (attempt_result_name t))
           (result_fields t i payload) (resolve_attempt t i) s = (Inr a, s')"
    unfolding append_v2_result_def
    by (auto elim!: bind_s_success split: if_splits simp: lift_s_success active_success raise_s_def)
  then show ?thesis using waiting_attempt [OF q(2)] by (simp add: owned_at_def)
qed

lemma result_owned:
  assumes three: "en_doc_size E (PList []) = 3" and ok: "sessions_ok E (so_sessions s)"
    and p: "lit ''evidence_seq'' \<notin> fst ` set payload"
    and run: "append_v2_result n E sid t i payload s = (Inr a, s')"
  shows "sessions_ok E (so_sessions s')
    \<and> map_of (snd (owned_at sid (so_sessions s))) (v2_attempt_key (lit (attempt_name t)) i) \<noteq> None
    \<and> owned_at (va_session_id a) (so_sessions s') =
        (fst (owned_at sid (so_sessions s)),
         dict_pop (snd (owned_at sid (so_sessions s))) (v2_attempt_key (lit (attempt_name t)) i))"
proof -
  have safe: "safe_change K MAX_SESSION_SEGMENTS (resolve_attempt t i)
     (\<lambda>_. (fst K, dict_pop (snd K) (v2_attempt_key (lit (attempt_name t)) i))) MAX_SESSION_SEGMENTS" for K
    by (simp add: safe_change_def keeps_resolve)
  from append_owned [OF three ok result_fields_ok [OF p] safe] result_waits [OF run] show ?thesis by blast
qed

section \<open>An example\<close>

text \<open>Evaluation of straight code of the store, and one session with which the results are applied below.\<close>

definition demo_profile :: dut_profile where
  "demo_profile =
     \<lparr>dp_name = None, dp_backend_mode = BasicBackend,
      dp_selector = \<lparr>sl_strategy = UsbIdentity, sl_exact_path = None, sl_vid = Some 1, sl_pid = Some 2, sl_serial_number = None\<rparr>,
      dp_current_serial_port = None, dp_reconnect_timeout_s = 2, dp_topology = lit ''external_uart'',
      dp_uart = \<lparr>eu_baudrate = 115200, eu_data_bits = 8, eu_parity = lit ''none'', eu_stop_bits = 1, eu_rtscts = False,
        eu_xonxoff = False, eu_tx_enabled = True, eu_default_line_ending = lit ''lf'', eu_dtr_on_open = lit ''low'',
        eu_rts_on_open = lit ''low''\<rparr>,
      dp_dut_io_voltage = None, dp_controls = []\<rparr>"

definition demo_env :: store_env where
  "demo_env =
     \<lparr>en_time = (\<lambda>_. lit ''now''), en_new_id = (\<lambda>n. lit (CHR ''s'' # replicate n (CHR ''i''))),
      en_jsonl_size = (\<lambda>_. 100), en_doc_size = (\<lambda>v. if v = PList [] then 3 else 200), en_exc_text = (\<lambda>_. lit ''e''),
      en_digest = (\<lambda>_. lit ''d''), en_budget = MIN_V2_EVIDENCE_BUDGET_BYTES\<rparr>"

definition demo_meta :: "ustr \<Rightarrow> ustr option \<Rightarrow> pydict" where
  "demo_meta sid predecessor =
     initial_v2_metadata (\<lambda>_. lit ''d'') sid (lit ''now'') demo_profile demo_snapshot MIN_V2_EVIDENCE_BUDGET_BYTES predecessor"

definition demo_store :: v2_store where
  "demo_store =
     \<lparr>so_sessions = [lit ''s'' \<mapsto> new_v2_session (demo_meta (lit ''s'') None)], so_tick = 1, so_steps = [],
      so_profiles = [lit ''s'' \<mapsto> demo_profile], so_snapshots = [lit ''s'' \<mapsto> demo_snapshot]\<rparr>"

lemma bind_lift: "bind_s (lift_s r) f s = (case r of Inl e \<Rightarrow> (Inl e, s) | Inr a \<Rightarrow> f a s)"
  by (simp add: bind_s_def lift_s_def split: sum.split)
lemma bind_clock: "bind_s (read_clock E) f s = f (en_time E (so_tick s)) (s\<lparr>so_tick := Suc (so_tick s)\<rparr>)"
  by (simp add: bind_s_def read_clock_def)
lemma bind_step: "bind_s next_step f s = f (case so_steps s of [] \<Rightarrow> StepWorks | r # _ \<Rightarrow> r) (s\<lparr>so_steps := tl (so_steps s)\<rparr>)"
  by (simp add: bind_s_def next_step_def)
lemma bind_put: "bind_s (put_session sid q) f s = f () (s\<lparr>so_sessions := (so_sessions s)(sid \<mapsto> q)\<rparr>)"
  by (simp add: bind_s_def put_session_def)
lemma bind_load: "bind_s (load_session sid) f s = (case so_sessions s sid of None \<Rightarrow> (Inl (SessionPersistenceError ''read'' True), s) | Some q \<Rightarrow> f q s)"
  by (simp add: bind_s_def load_session_def split: option.split)
lemma bind_return: "bind_s (return_s a) f s = f a s"
  by (simp add: bind_s_def return_s_def)
lemma bind_lookup: "bind_s (\<lambda>s. (Inr (g s), h s)) f s = f (g s) (h s)"
  by (simp add: bind_s_def)
lemma bind_assoc: "bind_s (bind_s c f) g s = bind_s c (\<lambda>a. bind_s (f a) g) s"
  by (simp add: bind_s_def split: sum.split prod.split)
lemma bind_cong: "c = c' \<Longrightarrow> s = s' \<Longrightarrow> bind_s c f s = bind_s c' f s'" by simp

lemmas run = bind_lift bind_clock bind_step bind_put bind_load bind_return bind_lookup bind_assoc

lemma demo_id: "validate_session_id (PStr (lit ''s'')) = Inr (lit ''s'')"
  by (simp add: validate_session_id_def py_strip_def lit_def py_isspace_def)
lemma demo_created: "create_v2_session demo_env demo_profile demo_snapshot None (empty_store []) = (Inr (lit ''s''), demo_store)"
  apply (simp add: create_v2_session_def run demo_env_def empty_store_def demo_id require_metadata_capacity_def METADATA_MAX_BYTES_def demo_snapshot_def Let_def demo_store_def demo_meta_def cong: bind_cong)
  apply (simp add: demo_profile_def)
  done

lemma demo_get:
  "dict_get ''schema_version'' (demo_meta sid p) = PInt 2" "dict_get ''state'' (demo_meta sid p) = str_val ''active''"
  "dict_get ''session_id'' (demo_meta sid p) = PStr sid" "dict_get ''next_evidence_seq'' (demo_meta sid p) = PInt 0"
  "dict_get ''pending_attempts'' (demo_meta sid p) = PDict []" "dict_get ''active_operations'' (demo_meta sid p) = PDict []"
  "dict_get ''interrupted_operations'' (demo_meta sid p) = PDict []"
  "dict_get ''operation_summary'' (demo_meta sid p) = PDict 
        [(lit ''started'', PInt 0), (lit ''completed'', PInt 0), (lit ''failed'', PInt 0),
         (lit ''active'', PInt 0)]"
  "dict_get ''storage'' (demo_meta sid p) = PDict [(lit ''evidence_budget_bytes'', PInt 1048576),
         (lit ''evidence_bytes_written'', PInt 3),
         (lit ''metadata_max_bytes'', PNat METADATA_MAX_BYTES)]"
  "dict_get ''segments'' (demo_meta sid p) = PList [PDict (dict_put ''segment_id'' (PInt 0) (backend_segment_json demo_snapshot (lit ''now'')))]"
  by (simp_all add: demo_meta_def initial_v2_metadata_def str_val_def MIN_V2_EVIDENCE_BUDGET_BYTES_def)


lemma demo_id2: "validate_session_id (PStr (lit ''si'')) = Inr (lit ''si'')"
  by (simp add: validate_session_id_def py_strip_def lit_def py_isspace_def)
lemmas store_defs = append_step_def preflight_record_def v2_record_def commit_record_def commit_unit_of_def
    require_active_v2_metadata_def is_active_v2_def require_v2_operation_active_def v2_pending_attempt_def v2_pending_attempts_def get_dict_def
    new_v2_session_def Let_def require_metadata_capacity_def METADATA_MAX_BYTES_def 
    v2_next_sequence_def current_v2_segment_id_def last_segment_def v2_unit_fits_def account_storage_def evidence_bytes_def
    make_admission_def MAX_V2_JSONL_RECORD_BYTES_def put_session_def return_s_def

lemma bind_guarded: "bind_s (on_persistence_error h c) f s =
   (case c s of (r, s') \<Rightarrow> (case r of Inr a \<Rightarrow> f a s' | Inl e \<Rightarrow> bind_s (if is_persistence_error e then bind_s (h e) (\<lambda>_. raise_s e) else raise_s e) f s'))"
  by (simp add: on_persistence_error_def bind_s_def try_s_def return_s_def split: prod.split sum.split)
lemma bind_kept: "bind_s (profile_and_snapshot sid snap) f s =
   (case (so_profiles s sid, if snap \<noteq> None then snap else so_snapshots s sid) of
        (Some p, Some q) \<Rightarrow> f (p, q) s
      | _ \<Rightarrow> (Inl (SessionPersistenceError ''create v2 successor'' True), s))"
  by (simp add: profile_and_snapshot_def bind_s_def split: option.split)
lemma demo_create: "create_v2_session demo_env demo_profile demo_snapshot (Some p) s =
  (if so_tick s = 1 \<and> so_steps s = [] \<and> so_sessions s (lit ''si'') = None then 
    (Inr (lit ''si''), s\<lparr>so_tick := Suc (so_tick s), so_sessions := (so_sessions s)(lit ''si'' \<mapsto> new_v2_session (demo_meta (lit ''si'') (Some p))),
        so_profiles := (so_profiles s)(lit ''si'' \<mapsto> demo_profile), so_snapshots := (so_snapshots s)(lit ''si'' \<mapsto> demo_snapshot)\<rparr>)
   else create_v2_session demo_env demo_profile demo_snapshot (Some p) s)"
  apply (simp add: create_v2_session_def run demo_env_def empty_store_def demo_id2 require_metadata_capacity_def METADATA_MAX_BYTES_def demo_snapshot_def Let_def demo_store_def demo_meta_def cong: bind_cong)
  apply (simp add: demo_profile_def)
  done


lemma demo_action:
  "\<exists>a s1 b s2. append_v2_attempt 0 demo_env (lit ''s'') UartTxAttempt (lit ''a'') None [] demo_store = (Inr a, s1)
     \<and> append_v2_result 0 demo_env (va_session_id a) UartTxAttempt (lit ''a'') [] s1 = (Inr b, s2)"
  by (simp add: append_v2_attempt_def append_v2_result_def result_fields_def resolve_attempt_def pending_entry_def
      demo_id v2_attempt_key_def check_pending_attempt_def one_of_def str_val_def record_pending_attempt_def
      run demo_env_def demo_store_def demo_get store_defs cong: bind_cong)

lemma demo_rollover:
  "\<exists>sid s1. rollover_v2 0 demo_env (lit ''s'') ''rollover_size'' None demo_store = (Inr sid, s1)"
proof -
  have c: "create_v2_session demo_env demo_profile demo_snapshot (Some (lit ''s'')) demo_store =
     (Inr (lit ''si''), demo_store\<lparr>so_tick := 2,
        so_sessions := (so_sessions demo_store)(lit ''si'' \<mapsto> new_v2_session (demo_meta (lit ''si'') (Some (lit ''s'')))),
        so_profiles := (so_profiles demo_store)(lit ''si'' \<mapsto> demo_profile),
        so_snapshots := (so_snapshots demo_store)(lit ''si'' \<mapsto> demo_snapshot)\<rparr>)"
    by (subst demo_create) (simp add: demo_store_def)
  show ?thesis
    apply (simp add: rollover_v2_def rollover_step_def bind_guarded bind_kept run demo_store_def demo_get store_defs
        cong: bind_cong)
    apply (simp add: c [unfolded demo_store_def new_v2_session_def, simplified])
    apply (simp add: transfer_rollover_ownership_def terminalize_session_def link_successor_def v2_count_def
        relinquish_v2_ownership_def close_current_segment_def terminal_fields_def bind_guarded run demo_env_def demo_get
        store_defs backend_segment_json_def cong: bind_cong)
    done
qed

lemma demo_doc: "en_doc_size demo_env (PList []) = 3"
  by (simp add: demo_env_def)

lemma demo_run: "run_commands 0 demo_env [CreateSession demo_profile demo_snapshot] (empty_store []) = demo_store"
  by (simp add: ignoring_def bind_s_def return_s_def demo_created)

lemma demo_ok: "sessions_ok demo_env (so_sessions demo_store)"
  using good_commands [OF demo_doc good_start [OF sessions_ok_empty [of _ "[]"]], of 0 "[CreateSession demo_profile demo_snapshot]"]
  unfolding demo_run by (simp add: good_def)

section \<open>Properties\<close>

text \<open>
  C1: Every session the store can reach keeps the invariant, whatever commands its callers give, whatever steps fail
  on the disk (before or after they took effect) and however deep rollovers nest: the evidence numbers are
  gapless over the four streams and rise in each, every record of received bytes names the place of its bytes in the raw
  log and the log holds nothing else, the document accounts for exactly the bytes of the files and
  they are within the budget, segments are numbered from zero and at most 32, and the open operations and waiting
  attempts are well formed. The hypothesis is that the empty pattern document has three bytes, as the
  code's constant for a new session says.
\<close>

theorem store_invariant:
  assumes "en_doc_size E (PList []) = 3"
  shows "sessions_ok E (so_sessions (run_commands n E cs (empty_store steps)))"
  using good_commands [OF assms good_start [OF sessions_ok_empty]] by (simp add: good_def)

theorem store_invariant_witness:
  "\<exists>q. so_sessions (run_commands 0 demo_env [CreateSession demo_profile demo_snapshot] (empty_store [])) (lit ''s'') = Some q
     \<and> session_ok demo_env (lit ''s'') q"
  using store_invariant [OF demo_doc, of 0 "[CreateSession demo_profile demo_snapshot]" "[]"]
  unfolding demo_run by (simp add: sessions_ok_def demo_store_def)



text \<open>
  C7: A rollover hands everything over: when it succeeds, the successor is a new session that owns exactly the
  open operations and waiting attempts of its predecessor and has one segment; the predecessor has only
  grown, has ended as completed, names the successor, and owns nothing any more. All sessions keep the
  invariant.
\<close>

theorem rollover_hands_over:
  assumes "en_doc_size E (PList []) = 3" and "sessions_ok E (so_sessions s)"
    and "rollover_v2 n E sid reason snapshot s = (Inr sid', s')"
  shows "so_sessions s sid' = None \<and> owned_at sid' (so_sessions s') = owned_at sid (so_sessions s)
    \<and> (\<exists>q'. so_sessions s' sid' = Some q' \<and> seg_count (vs_metadata q') = 1)
    \<and> (\<exists>q p. so_sessions s sid = Some q \<and> so_sessions s' sid = Some p \<and> extends q p \<and> linked sid' (vs_metadata p))
    \<and> sessions_ok E (so_sessions s')"
proof -
  from assms(3) obtain q where q: "so_sessions s sid = Some q"
    by (auto simp: rollover_v2_def rollover_step_def active_success elim!: bind_s_success)
  from ends_success [OF rollover_step_links [OF append_record_ok [OF assms(1)] assms(1)]
      assms(3) [unfolded rollover_v2_def] held_start [OF assms(2)]] obtain p
    where h: "held E (so_sessions s) (dom (so_sessions s) - {sid}) sid' (owned_at sid (so_sessions s)) 1 (so_sessions s')"
      and new: "sid' \<noteq> sid" and p: "so_sessions s' sid = Some p" "linked sid' (vs_metadata p)"
    by blast
  from held_good [OF h] have g: "sessions_ok E (so_sessions s')" "extends q p" using q p(1) by (auto simp: good_def dest: spec [of _ sid])
  from h new have n: "so_sessions s sid' = None" by (auto simp: held_def holds_def)
  from h obtain q' where q': "so_sessions s' sid' = Some q'" "seg_count (vs_metadata q') \<le> 1"
    by (auto simp: held_def holds_def tracks_def)
  with g(1) have "seg_count (vs_metadata q') = 1"
    by (fastforce simp: sessions_ok_def session_ok_def doc_ok_def doc_core_def segments_ok_def seg_count_def)
  with n q q'(1) p g held_owned [OF h] show ?thesis by blast
qed

theorem rollover_hands_over_witness:
  "\<exists>sid' s'. rollover_v2 0 demo_env (lit ''s'') ''rollover_size'' None demo_store = (Inr sid', s')
     \<and> so_sessions demo_store sid' = None \<and> owned_at sid' (so_sessions s') = ([], [])"
proof -
  obtain sid' s' where r: "rollover_v2 0 demo_env (lit ''s'') ''rollover_size'' None demo_store = (Inr sid', s')"
    using demo_rollover by blast
  have "owned_at (lit ''s'') (so_sessions demo_store) = ([], [])"
    by (simp add: owned_at_def demo_store_def new_v2_session_def op_keys_def waiting_def demo_get dict_keys_def)
  with rollover_hands_over [OF demo_doc demo_ok r] r show ?thesis by auto
qed

text \<open>
  C8: The ledger of actions on the device: an admitted attempt was not waiting before and waits afterwards, under
  its own session and evidence number; an admitted result takes exactly this entry out again, also when either record
  rolled the session over, and a second result for the attempt is refused.
\<close>

theorem action_ledger:
  assumes "en_doc_size E (PList []) = 3" and "sessions_ok E (so_sessions s)"
    and "lit ''evidence_seq'' \<notin> fst ` set payload" and "lit ''evidence_seq'' \<notin> fst ` set payload'"
    and "append_v2_attempt n E sid t i op payload s = (Inr a, s1)"
    and "append_v2_result n' E (va_session_id a) t i payload' s1 = (Inr b, s2)"
  shows "map_of (snd (owned_at sid (so_sessions s))) (v2_attempt_key (lit (attempt_name t)) i) = None
    \<and> map_of (snd (owned_at (va_session_id a) (so_sessions s1))) (v2_attempt_key (lit (attempt_name t)) i)
        = Some (PDict (pending_entry t i a))
    \<and> owned_at (va_session_id b) (so_sessions s2) = owned_at sid (so_sessions s)
    \<and> (\<exists>e. fst (append_v2_result n'' E (va_session_id b) t i payload'' s2) = Inl e)"
proof -
  let ?k = "v2_attempt_key (lit (attempt_name t)) i"
  let ?K = "owned_at sid (so_sessions s)"
  note a = attempt_owned [OF assms(1,2,3,5)]
  then have k: "?k \<notin> set (dict_keys (snd ?K))" by (auto simp: map_of_eq_None_iff dict_keys_def)
  from a result_owned [OF assms(1) _ assms(4,6)]
  have b: "owned_at (va_session_id b) (so_sessions s2) = (fst ?K, dict_pop (dict_set (snd ?K) ?k (PDict (pending_entry t i a))) ?k)"
    by simp
  have pop: "dict_pop (dict_set (snd ?K) ?k v) ?k = snd ?K" for v
    using k by (force simp: dict_set_new dict_pop_def dict_keys_def filter_id_conv)
  have "\<exists>e. fst (append_v2_result n'' E (va_session_id b) t i payload'' s2) = Inl e"
  proof (cases "append_v2_result n'' E (va_session_id b) t i payload'' s2")
    case (Pair r s3)
    then show ?thesis using result_waits [of n'' E "va_session_id b" t i payload'' s2] b pop a by (cases r) auto
  qed
  with a b pop show ?thesis by simp
qed

theorem action_ledger_witness:
  "\<exists>a s1 b s2. append_v2_attempt 0 demo_env (lit ''s'') UartTxAttempt (lit ''a'') None [] demo_store = (Inr a, s1)
     \<and> append_v2_result 0 demo_env (va_session_id a) UartTxAttempt (lit ''a'') [] s1 = (Inr b, s2)
     \<and> owned_at (va_session_id b) (so_sessions s2) = owned_at (lit ''s'') (so_sessions demo_store)"
proof -
  obtain a s1 b s2 where r:
    "append_v2_attempt 0 demo_env (lit ''s'') UartTxAttempt (lit ''a'') None [] demo_store = (Inr a, s1)"
    "append_v2_result 0 demo_env (va_session_id a) UartTxAttempt (lit ''a'') [] s1 = (Inr b, s2)"
    using demo_action by blast
  with action_ledger [OF demo_doc demo_ok _ _ r] show ?thesis by auto
qed

end
