(* ===== verification/Recorder_Safety.thy ===== *)
theory Recorder_Safety
  imports Evidence_Recorder Store_Reachable
begin

text \<open>
  What the recorder guarantees, whatever events, actions and failures come in whatever order: it keeps the
  invariant of the store, and the tail it publishes is durable: the records below it are in the files.
\<close>

section \<open>An admission is on disk\<close>

lemma commit_unit_success:
  assumes "commit_unit_of E sid q m s = (Inr u, s')"
  shows "\<exists>m'. so_sessions s' = (so_sessions s)(sid \<mapsto> q\<lparr>vs_metadata := m'\<rparr>)"
  using assms unfolding commit_unit_of_def
  by (auto elim!: bind_s_success simp: lift_s_success put_session_def next_step_def Let_def raise_s_def split: if_splits)
     blast

definition stored :: "sessions \<Rightarrow> v2_admission \<Rightarrow> bool" where
  "stored S a \<longleftrightarrow>
     (\<exists>q r. S (va_session_id a) = Some q \<and> r \<in> set (all_records q)
        \<and> dict_get ''evidence_seq'' r = PNat (va_next_evidence_seq a - 1)) \<and> va_evidence_seq a < va_next_evidence_seq a"

lemma in_add_record: "r \<in> set (all_records (add_record target r q))"
  by (cases target) (simp_all add: all_records_def)

lemma commit_record_stored:
  assumes "commit_record E sid target m n r rolled f s = (Inr a, s')" and "dict_get ''evidence_seq'' r = PNat n"
  shows "stored (so_sessions s') a"
proof -
  from assms(1) obtain q m' where a: "a = make_admission sid n rolled (n + 1)"
    and s': "so_sessions s' = (so_sessions s)(sid \<mapsto> (add_record target r q)\<lparr>vs_metadata := m'\<rparr>)"
    unfolding commit_record_def Let_def
    by (auto elim!: bind_s_success dest!: commit_unit_success simp: return_s_def load_session_def split: option.splits)
  have "r \<in> set (all_records ((add_record target r q)\<lparr>vs_metadata := m'\<rparr>))"
    using in_add_record [of r target q] by (simp add: all_records_def)
  with a s' assms(2) show ?thesis unfolding stored_def make_admission_def by fastforce
qed

lemma preflight_number:
  assumes "preflight_record E sid m rt f s = (Inr (n, r, fit), s')" and "fields_ok f"
  shows "dict_get ''evidence_seq'' r = PNat n"
proof -
  from assms(1) obtain d now where "f sid m n = Inr d"
    "r = dict_update [(lit ''evidence_seq'', PNat n), (lit ''type'', PStr rt), (lit ''recorded_at'', PStr now)] d"
    unfolding preflight_record_def v2_record_def
    by (auto elim!: bind_s_success simp: lift_s_success read_clock_def return_s_def raise_s_def split: if_splits)
  with assms(2) dict_update_other [of "''evidence_seq''" d] show ?thesis by (simp add: fields_ok_def)
qed

lemma append_step_success:
  assumes "append_step R E sid target rt f mutator s = (Inr a, s')"
  obtains sid1 m n r fit rolled s0 s1 where "preflight_record E sid1 m rt f s0 = (Inr (n, r, fit), s1)"
    "commit_record E sid1 target m n r rolled mutator s1 = (Inr a, s')"
  using assms unfolding append_step_def
  by (auto elim!: bind_s_success split: if_splits prod.splits simp: raise_s_def)

lemma append_stored:
  assumes "append_v2_record n E sid target rt f mutator s = (Inr a, s')" and "fields_ok f"
  shows "stored (so_sessions s') a"
proof -
  from assms(1) obtain R where "append_step R E sid target rt f mutator s = (Inr a, s')" by (cases n) auto
  then show ?thesis
    by (elim append_step_success) (rule commit_record_stored, assumption, erule preflight_number [OF _ assms(2)])
qed


text \<open>Operations that end, when they succeed, with one call of \<open>append_v2_record\<close>.\<close>

definition appends :: "nat \<Rightarrow> store_env \<Rightarrow> v2_admission store_op \<Rightarrow> bool" where
  "appends n E c \<longleftrightarrow>
     (\<forall>s a s'. c s = (Inr a, s') \<longrightarrow>
        (\<exists>sid target rt f mutator s1. fields_ok f \<and> append_v2_record n E sid target rt f mutator s1 = (Inr a, s')))"

lemma appends_record: "fields_ok f \<Longrightarrow> appends n E (append_v2_record n E sid target rt f mutator)"
  unfolding appends_def by blast

lemma appends_bind: "(\<And>a. appends n E (f a)) \<Longrightarrow> appends n E (bind_s c f)"
  unfolding appends_def by (blast elim: bind_s_success)

lemma appends_raise: "appends n E (raise_s e)"
  by (simp add: appends_def raise_s_def)

lemma appends_if: "appends n E c \<Longrightarrow> appends n E d \<Longrightarrow> appends n E (if b then c else d)"
  by simp

lemmas appends_intros = appends_bind appends_raise appends_if

lemma appends_stored: "appends n E c \<Longrightarrow> c s = (Inr a, s') \<Longrightarrow> stored (so_sessions s') a"
  unfolding appends_def by (blast dest: append_stored)

lemma appends_start: "appends n E (start_v2_operation n E sid i t ps)"
  unfolding start_v2_operation_def
  by (intro appends_intros appends_record) (simp add: fields_ok_def start_fields_def)

lemma appends_complete: "appends n E (complete_v2_operation n E sid i outcome e c l)"
  unfolding complete_v2_operation_def case_prod_beta
  by (intro appends_intros appends_record) (auto simp: fields_ok_def operation_terminal_fields_def bind_r_eq_Inr)

lemma appends_attempt: "lit ''evidence_seq'' \<notin> fst ` set payload \<Longrightarrow> appends n E (append_v2_attempt n E sid t i op payload)"
  unfolding append_v2_attempt_def case_prod_beta
  by (intro appends_intros appends_record attempt_fields)

lemma appends_result: "lit ''evidence_seq'' \<notin> fst ` set payload \<Longrightarrow> appends n E (append_v2_result n E sid t i payload)"
  unfolding append_v2_result_def
  by (intro appends_intros appends_record result_fields_ok)

lemma appends_actions:
  "appends n E (append_v2_uart_tx_attempt n E sid i data op tr)"
  "appends n E (append_v2_uart_tx_result n E sid i status k)"
  "appends n E (append_v2_control_attempt n E sid i role provider ps op)"
  "appends n E (append_v2_control_result n E sid i status k)"
  unfolding append_v2_uart_tx_attempt_def append_v2_uart_tx_result_def append_v2_control_attempt_def
    append_v2_control_result_def
  by (intro appends_intros appends_attempt appends_result; simp)+

lemma appends_connection: "appends n E (append_v2_connection_event n E sid e i detail)"
  unfolding append_v2_connection_event_def
  by (intro appends_intros appends_record) (auto simp: fields_ok_def bind_r_eq_Inr)

lemma appends_telemetry:
  "appends n E (append_v2_buffer_overflow n E sid oe d r)"
  "appends n E (append_v2_buffer_status n E sid se d l rd rl)"
  unfolding append_v2_buffer_overflow_def append_v2_buffer_status_def
  by (intro appends_intros appends_record; auto simp: fields_ok_def bind_r_eq_Inr overflow_fields_def status_fields_def)+

section \<open>Received bytes\<close>

lemma uart_receive_success:
  assumes "append_v2_uart_receive n E sid event ps result rolled_result s = (Inr a, s')"
  obtains sid1 q event1 u result1 rolled s0 s1 ps1 where
    "so_sessions s0 sid1 = Some q" "is_active_v2 (vs_metadata q)"
    "v2_uart_unit E sid1 (vs_metadata q) event1 ps1 result1 s0 = (Inr u, s1)"
    "commit_uart_unit E sid1 (vs_metadata q) event1 result1 u rolled s1 = (Inr a, s')"
    "ev_data event1 = ev_data event"
  using assms unfolding append_v2_uart_receive_def Let_def
  by (auto elim!: bind_s_success split: if_splits simp: raise_s_def lift_s_success active_success uart_unit_fits_def)

text \<open>The new record is the last of its stream and its bytes the last of the raw log.\<close>

definition received :: "sessions \<Rightarrow> v2_admission \<Rightarrow> bytes \<Rightarrow> bool" where
  "received S a data \<longleftrightarrow>
     (\<exists>q r. S (va_session_id a) = Some q \<and> vs_uart q \<noteq> [] \<and> last (vs_uart q) = r
        \<and> dict_get ''evidence_seq'' r = PNat (va_evidence_seq a) \<and> rec_data r = data \<and> suffix data (vs_raw q))"

lemma uart_receive_stored:
  assumes "append_v2_uart_receive n E sid event ps result rolled_result s = (Inr a, s')"
  shows "received (so_sessions s') a (ev_data event) \<and> stored (so_sessions s') a"
proof -
  from assms obtain sid1 q event1 u result1 rolled s0 s1 ps1 where q: "so_sessions s0 sid1 = Some q"
    and unit: "v2_uart_unit E sid1 (vs_metadata q) event1 ps1 result1 s0 = (Inr u, s1)"
    and com: "commit_uart_unit E sid1 (vs_metadata q) event1 result1 u rolled s1 = (Inr a, s')"
    and data: "ev_data event1 = ev_data event"
    by (rule uart_receive_success)
  from ends_success [OF ends_uart_unit [where P = "\<lambda>S. S sid1 = Some q" and X = "\<lambda>_. True"] unit q]
  have u: "uart_unit_ok E q event1 u" and q1: "so_sessions s1 sid1 = Some q" by simp_all
  let ?n = "uu_evidence_seq u + 1 + length (uu_hardware u)"
  from com q1 obtain m' where a: "a = make_admission sid1 (uu_evidence_seq u) rolled ?n"
    and s': "so_sessions s' = (so_sessions s1)(sid1 \<mapsto> (add_uart_unit event1 u q)\<lparr>vs_metadata := m'\<rparr>)"
    unfolding commit_uart_unit_def Let_def
    by (auto elim!: bind_s_success dest!: commit_unit_success simp: return_s_def load_session_def split: option.splits)
  let ?q = "(add_uart_unit event1 u q)\<lparr>vs_metadata := m'\<rparr>"
  from u have r: "dict_get ''evidence_seq'' (uu_record u) = PNat (uu_evidence_seq u)" "rec_data (uu_record u) = ev_data event"
    and hw: "numbered_from (Suc (uu_evidence_seq u)) (uu_hardware u)"
    by (simp_all add: uart_unit_ok_def data)
  have "received (so_sessions s') a (ev_data event)"
    using r s' by (simp add: received_def a make_admission_def add_uart_unit_def data suffix_def)
  moreover have "\<exists>r \<in> set (all_records ?q). dict_get ''evidence_seq'' r = PNat (?n - 1)"
  proof (cases "uu_hardware u" rule: rev_cases)
    case Nil
    with r show ?thesis by (auto simp: all_records_def add_uart_unit_def)
  next
    case (snoc hs h)
    with hw have "dict_get ''evidence_seq'' h = PNat (record_seq h)" "record_seq h = ?n - 1"
      by (auto simp: numbered_from_def)
    with snoc show ?thesis by (auto simp: all_records_def add_uart_unit_def)
  qed
  then have "stored (so_sessions s') a" using s' by (auto simp: stored_def a make_admission_def)
  ultimately show ?thesis by simp
qed

section \<open>Durable positions\<close>

definition durable :: "sessions \<Rightarrow> ustr \<times> nat \<Rightarrow> bool" where
  "durable S t \<longleftrightarrow>
     (\<exists>q k. S (fst t) = Some q \<and> dict_get ''next_evidence_seq'' (vs_metadata q) = PNat k \<and> numbered q k \<and> snd t \<le> k)"

lemma session_next:
  assumes "sessions_ok E S" and "S sid = Some q"
  obtains k where "dict_get ''next_evidence_seq'' (vs_metadata q) = PNat k" "numbered q k"
  using assms by (auto simp: sessions_ok_def session_ok_def doc_ok_def)

lemma stored_durable:
  assumes "sessions_ok E S" and "stored S a"
  shows "durable S (tail_of a)"
proof -
  from assms(2) obtain q r where q: "S (va_session_id a) = Some q" and r: "r \<in> set (all_records q)"
      "record_seq r = va_next_evidence_seq a - 1" and less: "va_evidence_seq a < va_next_evidence_seq a"
    by (auto simp: stored_def record_seq_get)
  from session_next [OF assms(1) q] obtain k where k: "dict_get ''next_evidence_seq'' (vs_metadata q) = PNat k" "numbered q k" .
  from numbered_less [OF k(2) r(1)] r(2) less have "next_sequence a \<le> k" by (simp add: next_sequence_def)
  with q k show ?thesis by (auto simp: durable_def tail_of_def)
qed

lemma numbered_length: "numbered q k \<Longrightarrow> k = length (all_records q)"
proof -
  assume "numbered q k"
  then have "size (mset (map record_seq (all_records q))) = size (mset [0..<k])" by (simp add: numbered_def)
  then show "k = length (all_records q)" by simp
qed

lemma durable_good:
  assumes "durable S t" and g: "good E S S'"
  shows "durable S' t"
proof -
  from assms(1) obtain q k where q: "S (fst t) = Some q" "numbered q k" "snd t \<le> k" by (auto simp: durable_def)
  from g q(1) obtain q' where q': "S' (fst t) = Some q'" "extends q q'" by (auto simp: good_def)
  from session_next [of E S', OF _ q'(1)] g obtain k' where
    k': "dict_get ''next_evidence_seq'' (vs_metadata q') = PNat k'" "numbered q' k'" by (auto simp: good_def)
  from q'(2) have "length (all_records q) \<le> length (all_records q')"
    by (auto simp: extends_def all_records_def dest!: prefix_length_le)
  with q k' numbered_length have "snd t \<le> k'" by fastforce
  with q' k' show ?thesis by (auto simp: durable_def)
qed

text \<open>A store operation that only lets sessions grow, from wherever it starts.\<close>

definition grows :: "store_env \<Rightarrow> 'a store_op \<Rightarrow> bool" where
  "grows E c \<longleftrightarrow> (\<forall>S0. harmless E S0 c)"

lemma growsD:
  assumes "grows E c" and "sessions_ok E (so_sessions s)" and "c s = (x, s')"
  shows "good E (so_sessions s) (so_sessions s')"
  using assms endsD [of "good E (so_sessions s)" c "\<lambda>_. good E (so_sessions s)" "good E (so_sessions s)" s]
  by (cases x) (simp_all add: grows_def harmless_def good_start)

lemma grows_reads: "reads c \<Longrightarrow> grows E c"
  by (simp add: grows_def harmless_reads)

section \<open>The logic of the recorder\<close>

definition rec_sessions :: "recorder \<Rightarrow> sessions" where
  "rec_sessions r = so_sessions (rc_store r)"

definition rec_ok :: "store_env \<Rightarrow> recorder \<Rightarrow> bool" where
  "rec_ok E r \<longleftrightarrow> sessions_ok E (rec_sessions r) \<and> durable (rec_sessions r) (rc_tail r)"

definition evolves :: "store_env \<Rightarrow> recorder \<Rightarrow> recorder \<Rightarrow> bool" where
  "evolves E r r' \<longleftrightarrow> rec_ok E r' \<and> good E (rec_sessions r) (rec_sessions r')"

lemma evolves_same: "rec_ok E r' \<Longrightarrow> rec_sessions r' = rec_sessions r \<Longrightarrow> evolves E r r'"
  by (simp add: evolves_def rec_ok_def good_def)

lemma good_trans: "good E S S1 \<Longrightarrow> good E S1 S2 \<Longrightarrow> good E S S2"
  unfolding good_def by (meson extends_trans)

lemma evolves_trans: "evolves E r r1 \<Longrightarrow> evolves E r1 r2 \<Longrightarrow> evolves E r r2"
  unfolding evolves_def by (blast intro: good_trans)

definition keeps_ok :: "store_env \<Rightarrow> (sessions \<Rightarrow> bool) \<Rightarrow> 'a rec_op \<Rightarrow> ('a \<Rightarrow> sessions \<Rightarrow> bool) \<Rightarrow> bool" where
  "keeps_ok E P c Q \<longleftrightarrow>
     (\<forall>r x r'. rec_ok E r \<and> P (rec_sessions r) \<and> c r = (x, r') \<longrightarrow>
        evolves E r r' \<and> (\<forall>a. x = Inr a \<longrightarrow> Q a (rec_sessions r')))"

lemma keeps_okI:
  "(\<And>r x r'. rec_ok E r \<Longrightarrow> P (rec_sessions r) \<Longrightarrow> c r = (x, r') \<Longrightarrow>
      evolves E r r' \<and> (\<forall>a. x = Inr a \<longrightarrow> Q a (rec_sessions r'))) \<Longrightarrow> keeps_ok E P c Q"
  unfolding keeps_ok_def by blast

lemma keeps_okD:
  "keeps_ok E P c Q \<Longrightarrow> rec_ok E r \<Longrightarrow> P (rec_sessions r) \<Longrightarrow> c r = (x, r') \<Longrightarrow>
     evolves E r r' \<and> (\<forall>a. x = Inr a \<longrightarrow> Q a (rec_sessions r'))"
  unfolding keeps_ok_def by blast

lemma ok_bind:
  assumes "keeps_ok E P c R" and "\<And>a. keeps_ok E (R a) (f a) Q"
  shows "keeps_ok E P (bind_s c f) Q"
proof (rule keeps_okI)
  fix r x r'
  assume r: "rec_ok E r" "P (rec_sessions r)" and b: "bind_s c f r = (x, r')"
  obtain y r1 where c: "c r = (y, r1)" by (cases "c r")
  note ok = keeps_okD [OF assms(1) r c]
  show "evolves E r r' \<and> (\<forall>a. x = Inr a \<longrightarrow> Q a (rec_sessions r'))"
  proof (cases y)
    case (Inl e)
    with b c ok show ?thesis by (auto simp: bind_s_def)
  next
    case (Inr a)
    with b c have "f a r1 = (x, r')" by (simp add: bind_s_def)
    with keeps_okD [OF assms(2) _ _ this] ok Inr show ?thesis by (auto simp: evolves_def intro: good_trans)
  qed
qed

text \<open>A position that is durable stays durable.\<close>

lemma ok_stable:
  assumes "keeps_ok E P c Q"
  shows "keeps_ok E (\<lambda>S. P S \<and> durable S t) c (\<lambda>a S. Q a S \<and> durable S t)"
  using assms durable_good unfolding keeps_ok_def evolves_def by blast

lemma ok_post: "keeps_ok E P c Q \<Longrightarrow> (\<And>a S. Q a S \<Longrightarrow> Q' a S) \<Longrightarrow> keeps_ok E P c Q'"
  unfolding keeps_ok_def by blast

lemma ok_pre: "keeps_ok E P c Q \<Longrightarrow> (\<And>S. P' S \<Longrightarrow> P S) \<Longrightarrow> keeps_ok E P' c Q"
  unfolding keeps_ok_def by blast

lemma ok_return: "(\<And>S. P S \<Longrightarrow> Q a S) \<Longrightarrow> keeps_ok E P (return_s a) Q"
  by (auto simp: keeps_ok_def return_s_def intro: evolves_same)

lemma ok_raise: "keeps_ok E P (raise_s e) Q"
  by (auto simp: keeps_ok_def raise_s_def intro: evolves_same)

lemma ok_if: "(b \<Longrightarrow> keeps_ok E P c Q) \<Longrightarrow> (\<not> b \<Longrightarrow> keeps_ok E P d Q) \<Longrightarrow> keeps_ok E P (if b then c else d) Q"
  by simp

lemma ok_get: "keeps_ok E P (get_r f) (\<lambda>_. P)"
  by (auto simp: keeps_ok_def get_r_def intro: evolves_same)

text \<open>An update that leaves the store and the tail alone, before or as an operation.\<close>

definition quiet :: "(recorder \<Rightarrow> recorder) \<Rightarrow> bool" where
  "quiet f \<longleftrightarrow> (\<forall>r. rc_store (f r) = rc_store r \<and> rc_tail (f r) = rc_tail r)"

lemma quiet_ok: "quiet f \<Longrightarrow> rec_ok E (f r) = rec_ok E r \<and> rec_sessions (f r) = rec_sessions r"
  by (simp add: quiet_def rec_ok_def rec_sessions_def)

lemma ok_upd: "quiet f \<Longrightarrow> keeps_ok E P (upd_r f) (\<lambda>_. P)"
  by (auto simp: keeps_ok_def upd_r_def quiet_ok intro: evolves_same)

lemma ok_with: "(\<And>x. keeps_ok E P (f x) Q) \<Longrightarrow> keeps_ok E P (with_r f) Q"
  unfolding keeps_ok_def with_r_def by blast

lemma ok_lift: "(\<And>a S. x = Inr a \<Longrightarrow> P S \<Longrightarrow> Q a S) \<Longrightarrow> keeps_ok E P (lift_r x) Q"
  by (auto simp: keeps_ok_def lift_r_def intro: evolves_same)

lemma ok_when: "keeps_ok E P c (\<lambda>_ _. True) \<Longrightarrow> keeps_ok E P (when_r b c) (\<lambda>_ _. True)"
  by (simp add: when_r_def ok_return)

lemma ok_try: "keeps_ok E P c Q \<Longrightarrow> keeps_ok E P (try_s c) (\<lambda>x S. \<forall>a. x = Inr a \<longrightarrow> Q a S)"
  unfolding keeps_ok_def try_s_def by (auto split: prod.splits)

lemma ok_store:
  assumes "grows E c"
    and "\<And>s a s'. sessions_ok E (so_sessions s) \<Longrightarrow> sessions_ok E (so_sessions s') \<Longrightarrow> c s = (Inr a, s') \<Longrightarrow> Q a (so_sessions s')"
  shows "keeps_ok E P (in_store c) Q"
proof (rule keeps_okI)
  fix r x r'
  assume r: "rec_ok E r" and c: "in_store c r = (x, r')"
  then obtain s' where s': "c (rc_store r) = (x, s')" "r' = r\<lparr>rc_store := s'\<rparr>"
    by (auto simp: in_store_def split: prod.splits)
  from growsD [OF assms(1) _ s'(1)] r have g: "good E (rec_sessions r) (so_sessions s')"
    by (simp add: rec_ok_def rec_sessions_def)
  then have "evolves E r r'" using r s'(2) durable_good [OF _ g] by (simp add: evolves_def rec_ok_def rec_sessions_def good_def)
  moreover have "\<forall>a. x = Inr a \<longrightarrow> Q a (rec_sessions r')"
    using assms(2) [of "rc_store r" s'] r g s' by (auto simp: rec_ok_def rec_sessions_def good_def)
  ultimately show "evolves E r r' \<and> (\<forall>a. x = Inr a \<longrightarrow> Q a (rec_sessions r'))" by simp
qed

lemma ok_store_any: "grows E c \<Longrightarrow> keeps_ok E P (in_store c) (\<lambda>_ _. True)"
  by (rule ok_store) simp_all


section \<open>Publishing\<close>

lemma ok_publish: "keeps_ok E (\<lambda>S. durable S (tail_of a)) (publish_admission a) (\<lambda>_ S. durable S (tail_of a))"
  by (auto simp: keeps_ok_def publish_admission_def upd_r_def Let_def rec_ok_def rec_sessions_def first_segment_def intro!: evolves_same)

lemma ok_publish_any: "keeps_ok E (\<lambda>S. durable S (tail_of a)) (publish_admission a) (\<lambda>_ _. True)"
  by (rule ok_post [OF ok_publish]) simp

lemma quiet_reset: "quiet (reset_integrity_after_rollover i)"
  by (simp add: quiet_def reset_integrity_after_rollover_def Let_def)

lemma ok_reset: "keeps_ok E P (reset_if_rolled_over a) (\<lambda>_. P)"
  by (auto simp: reset_if_rolled_over_def when_r_def intro: ok_return ok_upd quiet_reset)

lemma ok_publish_reset: "keeps_ok E (\<lambda>S. durable S (tail_of a)) (publish_and_reset a) (\<lambda>_ S. durable S (tail_of a))"
  unfolding publish_and_reset_def by (rule ok_bind [OF ok_publish ok_reset])

lemma ok_publish_all:
  "keeps_ok E (\<lambda>S. \<forall>a \<in> set as. durable S (tail_of a)) (publish_all as) (\<lambda>_ _. True)"
proof (induction as)
  case Nil
  show ?case by (simp add: ok_return)
next
  case (Cons a as)
  have "keeps_ok E (\<lambda>S. durable S (tail_of a) \<and> (\<forall>a \<in> set as. durable S (tail_of a))) (publish_and_reset a)
     (\<lambda>_ S. \<forall>a \<in> set as. durable S (tail_of a))"
    by (auto simp: keeps_ok_def publish_and_reset_def publish_admission_def upd_r_def Let_def bind_s_def when_r_def
        reset_if_rolled_over_def return_s_def rec_ok_def rec_sessions_def first_segment_def
        reset_integrity_after_rollover_def intro!: evolves_same)
  then show ?case using ok_bind [OF _ Cons.IH] by simp
qed

section \<open>Store operations in the recorder\<close>

text \<open>What the store operations of the recorder share: they let sessions only grow and admit durably.\<close>

definition admits :: "store_env \<Rightarrow> v2_admission store_op \<Rightarrow> bool" where
  "admits E c \<longleftrightarrow> grows E c \<and> (\<forall>s a s'. c s = (Inr a, s') \<longrightarrow> stored (so_sessions s') a)"

lemma admits_appends: "grows E c \<Longrightarrow> appends n E c \<Longrightarrow> admits E c"
  by (simp add: admits_def appends_stored)

lemma ok_admit: "admits E c \<Longrightarrow> keeps_ok E P (in_store c) (\<lambda>a S. durable S (tail_of a))"
  by (rule ok_store) (auto simp: admits_def intro: stored_durable)

lemma admit_ops:
  assumes "en_doc_size E (PList []) = 3"
  shows "admits E (start_v2_operation n E sid i t ps)" "admits E (complete_v2_operation n E sid i outcome e c l)"
    "admits E (append_v2_uart_tx_attempt n E sid i data op tr)" "admits E (append_v2_uart_tx_result n E sid i status k)"
    "admits E (append_v2_control_attempt n E sid i role provider ps op)"
    "admits E (append_v2_control_result n E sid i status k)" "admits E (append_v2_connection_event n E sid ev si detail)"
    "admits E (append_v2_buffer_overflow n E sid oe d r)" "admits E (append_v2_buffer_status n E sid se d' l' rd rl)"
    "admits E (append_v2_uart_receive n E sid re pats x y)"
proof -
  note three = assms
  show "admits E (start_v2_operation n E sid i t ps)"
    by (rule admits_appends [OF _ appends_start]) (simp add: grows_def harmless_start three)
  show "admits E (complete_v2_operation n E sid i outcome e c l)"
    by (rule admits_appends [OF _ appends_complete]) (simp add: grows_def harmless_complete_operation three)
  show "admits E (append_v2_uart_tx_attempt n E sid i data op tr)" "admits E (append_v2_uart_tx_result n E sid i status k)"
      "admits E (append_v2_control_attempt n E sid i role provider ps op)"
      "admits E (append_v2_control_result n E sid i status k)"
    by (rule admits_appends [OF _ appends_actions(1)] admits_appends [OF _ appends_actions(2)]
          admits_appends [OF _ appends_actions(3)] admits_appends [OF _ appends_actions(4)];
        simp add: grows_def harmless_tx_attempt harmless_tx_result harmless_control_attempt harmless_control_result three)+
  show "admits E (append_v2_connection_event n E sid ev si detail)"
    by (rule admits_appends [OF _ appends_connection]) (simp add: grows_def harmless_connection three)
  show "admits E (append_v2_buffer_overflow n E sid oe d r)" "admits E (append_v2_buffer_status n E sid se d' l' rd rl)"
    by (rule admits_appends [OF _ appends_telemetry(1)] admits_appends [OF _ appends_telemetry(2)];
        simp add: grows_def harmless_overflow harmless_status three)+
  show "admits E (append_v2_uart_receive n E sid re pats x y)"
    using uart_receive_stored by (auto simp: admits_def grows_def harmless_receive three)
qed

lemma reads_metadata: "reads (load_metadata sid)"
  unfolding load_metadata_def by (intro reads_intros)

lemma reads_preflight: "reads (preflight_record E sid m rt f)"
  unfolding preflight_record_def v2_record_def by (intro reads_intros)

lemma reads_line_limits: "reads (line_limit_records E sid m x n ls)"
  by (induction ls arbitrary: n) (auto simp: v2_record_def intro!: reads_intros)

lemma reads_unit: "reads (v2_uart_unit E sid m ev ps x)"
proof -
  have "reads (case x of None \<Rightarrow> return_s [] | Some x \<Rightarrow> line_limit_records E sid m x n (cr_oversized_lines x))" for n
    by (cases x) (simp_all add: reads_basic reads_line_limits)
  then show ?thesis unfolding v2_uart_unit_def uart_unit_of_def by (intro reads_intros)
qed

lemma reads_will_rollover:
  "reads (v2_action_will_rollover E sid rt given)" "reads (v2_operation_start_will_rollover E sid i t ps)"
  "reads (v2_operation_terminal_will_rollover E sid i outcome e c l)" "reads (v2_telemetry_will_rollover E sid event)"
  "reads (v2_uart_receive_will_rollover E sid ev x)" "reads (load_v2_operation_terminal sid i)"
  unfolding v2_action_will_rollover_def v2_operation_start_will_rollover_def v2_operation_terminal_will_rollover_def
    v2_telemetry_will_rollover_def v2_uart_receive_will_rollover_def load_v2_operation_terminal_def
    v2_record_will_rollover_def case_prod_beta Let_def uart_unit_fits_def
  by (intro reads_intros reads_unused reads_is_active reads_preflight reads_unit;
      simp add: v2_record_def; intro reads_intros)+

lemma boundary_durable:
  shows "en_doc_size E (PList []) = 3 \<Longrightarrow> append_v2_line_boundary n E sid xs s = (Inr as, s') \<Longrightarrow> sessions_ok E (so_sessions s)
     \<Longrightarrow> \<forall>a \<in> set as. durable (so_sessions s') (tail_of a)"
proof (induction n E sid xs arbitrary: s as rule: append_v2_line_boundary.induct)
  case (1 n E sid)
  then show ?case by (simp add: return_s_def)
next
  case (2 n E sid result l rest)
  let ?f = "\<lambda>d _ updated _. bind_r (current_v2_segment_id updated) (\<lambda>i.
          Inr ((lit ''segment_id'', PNat i) # dict_pop (dict_pop d (lit ''type'')) (lit ''segment_id'')))"
  from "2.prems"(2) obtain d a s1 bs where d: "line_limit_exceeded_event_json result l = Inr d"
    and a: "append_v2_record n E sid HardwareStream (lit ''line_limit_exceeded'') (?f d) (\<lambda>m _. Inr m) s = (Inr a, s1)"
    and rest: "append_v2_line_boundary n E (va_session_id a) rest s1 = (Inr bs, s')" and as: "as = a # bs"
    by (auto elim!: bind_s_success simp: lift_s_success return_s_def)
  have safe: "\<exists>K'. safe_change K MAX_SESSION_SEGMENTS (\<lambda>m _. Inr m) K' MAX_SESSION_SEGMENTS" for K
    by (rule safe_changes)
  have g: "grows E (append_v2_record n E sid HardwareStream (lit ''line_limit_exceeded'') (?f d) (\<lambda>m _. Inr m))"
    unfolding grows_def by (intro allI harmless_append [OF "2.prems"(1)] boundary_fields [OF d] safe)
  from growsD [OF this "2.prems"(3) a] have s1: "sessions_ok E (so_sessions s1)" by (simp add: good_def)
  from append_stored [OF a boundary_fields [OF d]] have "durable (so_sessions s1) (tail_of a)"
    by (rule stored_durable [OF s1])
  moreover have "grows E (append_v2_line_boundary n E (va_session_id a) rest)"
    by (simp add: grows_def harmless_boundary "2.prems"(1))
  from growsD [OF this s1 rest] have "good E (so_sessions s1) (so_sessions s')" .
  ultimately have "durable (so_sessions s') (tail_of a)" by (rule durable_good)
  with "2.IH" [OF "2.prems"(1) rest s1] as show ?case by simp
qed

lemma ok_boundary:
  assumes "en_doc_size E (PList []) = 3"
  shows "keeps_ok E P (in_store (append_v2_line_boundary n E sid xs)) (\<lambda>as S. \<forall>a \<in> set as. durable S (tail_of a))"
  by (rule ok_store) (simp add: grows_def harmless_boundary assms, rule boundary_durable [OF assms])


section \<open>The operations of the recorder\<close>

text \<open>Most results carry no position; \<open>safe\<close> is the common case.\<close>

abbreviation safe :: "store_env \<Rightarrow> 'a rec_op \<Rightarrow> bool" where
  "safe E c \<equiv> keeps_ok E (\<lambda>_. True) c (\<lambda>_ _. True)"

lemma safe_any: "safe E c \<Longrightarrow> keeps_ok E P c (\<lambda>_ _. True)"
  by (rule ok_pre) simp_all

lemma safe_post: "keeps_ok E (\<lambda>_. True) c Q \<Longrightarrow> safe E c"
  by (rule ok_post) simp_all

lemma safe_return: "safe E (return_s a)"
  by (rule ok_return)

lemma safe_bind: "safe E c \<Longrightarrow> (\<And>a. safe E (f a)) \<Longrightarrow> safe E (bind_s c f)"
  by (rule ok_bind)

lemma safe_get: "safe E (get_r f)"
  by (rule ok_get)

lemma safe_upd: "quiet f \<Longrightarrow> safe E (upd_r f)"
  by (rule ok_upd)

lemma safe_lift: "safe E (lift_r x)"
  by (rule ok_lift) simp

lemma safe_try: "safe E c \<Longrightarrow> safe E (try_s c)"
  by (rule safe_post, rule ok_try)

lemma safe_reads: "reads c \<Longrightarrow> safe E (in_store c)"
  by (rule ok_store_any, rule grows_reads)

lemma safe_option: "safe E c \<Longrightarrow> (\<And>x. safe E (d x)) \<Longrightarrow> safe E (case v of None \<Rightarrow> c | Some x \<Rightarrow> d x)"
  by (cases v) simp_all

lemma safe_sum: "(\<And>e. safe E (c e)) \<Longrightarrow> (\<And>x. safe E (d x)) \<Longrightarrow> safe E (case v of Inl e \<Rightarrow> c e | Inr x \<Rightarrow> d x)"
  by (cases v) simp_all

lemma safe_error: "(\<And>e. safe E (h e)) \<Longrightarrow> safe E c \<Longrightarrow> safe E (on_error h c)"
  unfolding on_error_def by (intro safe_bind safe_try safe_sum safe_return ok_raise)

lemmas safe_intros = safe_bind safe_return safe_get safe_upd safe_lift safe_try safe_option safe_sum safe_error
  ok_raise ok_when ok_with ok_if safe_reads reads_metadata reads_will_rollover

lemma quiet_simps: "quiet (\<lambda>r. r)" "quiet disconnected_health" "quiet (enter_fault e)" "quiet (keep_close_error e)"
  "quiet (set_baseline se)" "quiet (drain_ends b src)" "quiet first_segment" "quiet (fresh_processor_when b)"
  "quiet (note_integrity l d)" "quiet (note_overflow oe b d)" "quiet (note_status se b d l)"
  by (simp_all add: quiet_def disconnected_health_def enter_fault_def keep_close_error_def set_baseline_def
      drain_ends_def first_segment_def fresh_processor_when_def note_integrity_def note_overflow_def note_status_def)

lemma grows_terminals: "grows E (complete_session E sid r)" "grows E (fail_session E sid r c d)"
  by (simp_all add: grows_def harmless_terminals)

lemma safe_admit: "admits E c \<Longrightarrow> safe E (in_store c)"
  by (rule safe_post, rule ok_admit)

lemma safe_published: "admits E c \<Longrightarrow> safe E (bind_s (in_store c) publish_admission)"
  by (rule ok_bind [OF ok_admit], assumption, rule ok_publish_any)

lemma safe_flush:
  assumes "en_doc_size E (PList []) = 3"
  shows "safe E (flush_line_state n E)"
  unfolding flush_line_state_def case_prod_beta
  by (rule safe_bind, intro safe_intros, rule safe_bind, rule safe_upd, simp add: quiet_def,
      intro ok_if safe_return safe_bind [OF safe_get] ok_bind [OF ok_boundary [OF assms]], rule ok_publish_all)

text \<open>After the last operation the position of its admission is durable.\<close>

definition last_durable :: "v2_admission option \<Rightarrow> sessions \<Rightarrow> bool" where
  "last_durable x S = (case x of None \<Rightarrow> True | Some a \<Rightarrow> durable S (tail_of a))"

lemma ok_complete_operations:
  assumes "en_doc_size E (PList []) = 3"
  shows "keeps_ok E (last_durable latest) (complete_operations n E outcome e sid ops latest) last_durable"
proof (induction ops arbitrary: sid latest)
  case Nil
  show ?case by (simp add: ok_return)
next
  case (Cons o1 ops)
  obtain i v where o1: "o1 = (i, v)" by (cases o1)
  have "keeps_ok E (last_durable latest) (bind_s (in_store (complete_v2_operation n E sid i outcome e PNone (PBool False))) (\<lambda>a.
      bind_s (publish_admission a) (\<lambda>_. complete_operations n E outcome e (va_session_id a) ops (Some a)))) last_durable"
    by (rule ok_bind [OF ok_admit [OF admit_ops(2) [OF assms]]], rule ok_bind [OF ok_publish],
        rule ok_pre [OF Cons.IH]) (simp add: last_durable_def)
  then show ?case by (cases v) (simp_all add: o1 ok_raise)
qed

lemma ok_complete_all:
  assumes "en_doc_size E (PList []) = 3"
  shows "keeps_ok E (\<lambda>_. True) (complete_all_operations n E outcome e sid) last_durable"
  unfolding complete_all_operations_def
  by (intro ok_bind [OF safe_reads [OF reads_metadata]] ok_bind [OF safe_lift]
      ok_pre [OF ok_complete_operations [OF assms]]) (simp add: last_durable_def)

lemma safe_fail_if_active: "safe E (fail_if_active E sid r c d)"
  unfolding fail_if_active_def by (intro safe_intros ok_store_any grows_terminals)

lemma safe_fatal:
  assumes "en_doc_size E (PList []) = 3"
  shows "safe E (record_fatal n E e r src)"
  unfolding record_fatal_def terminal_work_def Let_def
  by (intro safe_intros safe_fail_if_active safe_post [OF ok_complete_all [OF assms]] quiet_simps)

lemma safe_flush_when:
  assumes "en_doc_size E (PList []) = 3" and "reads c"
  shows "safe E (flush_when n E c)"
  unfolding flush_when_def by (intro safe_intros safe_flush assms)

lemma ok_error:
  assumes "\<And>e. safe E (h e)" and "keeps_ok E (\<lambda>_. True) c Q"
  shows "keeps_ok E (\<lambda>_. True) (on_error h c) Q"
  unfolding on_error_def
proof (rule ok_bind [OF ok_try [OF assms(2)]])
  fix x
  show "keeps_ok E (\<lambda>S. \<forall>a. x = Inr a \<longrightarrow> Q a S) (case x of Inl e \<Rightarrow> bind_s (h e) (\<lambda>_. raise_s e) | Inr a \<Rightarrow> return_s a) Q"
    by (cases x) (auto intro!: ok_return ok_bind [where R = "\<lambda>_ _. True"] ok_raise safe_any assms(1))
qed

lemma ok_admit_action:
  assumes three: "en_doc_size E (PList []) = 3" and "\<And>sid. admits E (c sid)"
  shows "keeps_ok E (\<lambda>_. True) (admit_action n E rt given c) (\<lambda>a S. durable S (tail_of a))"
  unfolding admit_action_def on_persistence_fault_def
  by (intro ok_with ok_if ok_raise ok_error ok_when safe_fatal [OF three]
      ok_bind [OF safe_flush_when [OF three reads_will_rollover(1)]] ok_bind [OF safe_get] ok_bind [OF ok_admit [OF assms(2)]]
      ok_bind [OF ok_publish_reset] ok_return)

lemma safe_audits:
  assumes "en_doc_size E (PList []) = 3"
  shows "safe E (audit_uart_attempt n E i data tr op)" "safe E (audit_uart_result n E i st k)"
    "safe E (audit_control_attempt n E i role ps)" "safe E (audit_control_result n E i st ts)"
  unfolding audit_uart_attempt_def audit_uart_result_def audit_control_attempt_def audit_control_result_def
  by (rule safe_post, rule ok_admit_action [OF assms], rule admit_ops [OF assms])+

lemma safe_publish_reset: "keeps_ok E (\<lambda>S. durable S (tail_of a)) (publish_and_reset a) (\<lambda>_ _. True)"
  by (rule ok_post [OF ok_publish_reset]) simp

lemma safe_complete_monitor:
  assumes three: "en_doc_size E (PList []) = 3"
  shows "safe E (complete_monitor_operation n E i outcome e c l)"
proof -
  have work: "safe E (bind_s (flush_when n E (v2_operation_terminal_will_rollover E sid i outcome e c l)) (\<lambda>_.
                   bind_s (get_r rc_handle) (\<lambda>sid'.
                   bind_s (on_persistence_fault n E (in_store (complete_v2_operation n E sid' i outcome e c l))) (\<lambda>a.
                   bind_s (publish_and_reset a) (\<lambda>_. return_s (va_session_id a))))))" for sid
    unfolding on_persistence_fault_def
    by (intro safe_bind [OF safe_flush_when [OF three reads_will_rollover(3)]] safe_bind [OF safe_get]
        ok_bind [OF ok_error [OF ok_when [OF safe_fatal [OF three]] ok_admit [OF admit_ops(2) [OF three]]]]
        ok_bind [OF safe_publish_reset] safe_return)
  have "safe E (case v of PDict active \<Rightarrow> if map_of active i = None then return_s sid else w sid | _ \<Rightarrow> return_s sid)"
    if "\<And>sid. safe E (w sid)" for v and w :: "ustr \<Rightarrow> ustr rec_op" and sid
    using that by (cases v) (simp_all add: safe_return)
  note step = this [OF work]
  show ?thesis
    unfolding complete_monitor_operation_def
    by (intro safe_bind [OF safe_get] safe_bind [OF safe_reads [OF reads_metadata]] safe_bind [OF step]
        safe_reads reads_will_rollover)
qed

lemma safe_start_monitor:
  assumes three: "en_doc_size E (PList []) = 3"
  shows "safe E (start_monitor_operation n E i ty ps opened)"
  unfolding start_monitor_operation_def
  by (intro ok_with ok_if ok_raise safe_bind [OF safe_flush_when [OF three reads_will_rollover(2)]] safe_bind [OF safe_get]
      ok_bind [OF ok_admit [OF admit_ops(1) [OF three]]] ok_bind [OF safe_publish_reset] safe_option safe_return
      safe_bind [OF safe_fatal [OF three]] safe_bind [OF safe_complete_monitor [OF three]])

subsection \<open>Events\<close>

definition admitted :: "v2_admission \<Rightarrow> sessions \<Rightarrow> bool" where
  "admitted a S \<longleftrightarrow> durable S (tail_of a)"

lemma admitted_eq: "admitted = (\<lambda>a S. durable S (tail_of a))"
  by (simp add: fun_eq_iff admitted_def)

lemma ok_admitted: "admits E c \<Longrightarrow> keeps_ok E P (in_store c) admitted"
  unfolding admitted_eq by (rule ok_admit)

lemma ok_keep: "quiet f \<Longrightarrow> keeps_ok E (admitted a) (bind_s (upd_r f) (\<lambda>_. return_s a)) admitted"
  by (rule ok_bind [OF ok_upd ok_return])

lemma ok_record_uart:
  assumes three: "en_doc_size E (PList []) = 3"
  shows "keeps_ok E (\<lambda>_. True) (record_uart n E e) admitted"
proof -
  have q: "quiet (\<lambda>r. r\<lparr>rc_processor := p\<rparr>)" for p by (simp add: quiet_def)
  have refill: "safe E (if \<not> full then return_s x else bind_s (flush_line_state n E) (\<lambda>_.
               bind_s (get_r rc_stored_segment_id) (\<lambda>i.
               bind_s (with_r (\<lambda>r. lift_r (process_event (rc_processor r) (g i)))) (\<lambda>y. return_s (h i y)))))"
    for full x g and h :: "nat \<Rightarrow> processor \<times> capture_result \<Rightarrow> uart_receive_event \<times> processor \<times> capture_result"
    by (intro safe_intros safe_flush [OF three])
  have append: "keeps_ok E (\<lambda>_. True) (bind_s (with_r (\<lambda>r. in_store (append_v2_uart_receive n E (rc_handle r) e' [] x y))) (\<lambda>a.
     bind_s (upd_r (\<lambda>r. r\<lparr>rc_processor := (if va_rolled_over a then p else p')\<rparr>)) (\<lambda>_.
     bind_s (reset_if_rolled_over a) (\<lambda>_. return_s a)))) admitted" for e' x y p p'
    by (rule ok_bind [OF ok_with [OF ok_admitted [OF admit_ops(10) [OF three]]]],
        rule ok_bind [OF ok_upd [OF q]], rule ok_bind [OF ok_reset], rule ok_return)
  show ?thesis
    unfolding record_uart_def case_prod_beta
    by (intro safe_bind safe_intros refill append ok_bind [OF ok_with [OF safe_lift]] ok_bind [OF ok_with [OF safe_reads [OF reads_will_rollover(5)]]]
        ok_bind [OF refill] ok_bind [OF safe_lift])
qed

lemma ok_record_telemetry:
  assumes three: "en_doc_size E (PList []) = 3"
  shows "keeps_ok E (\<lambda>_. True) (record_overflow_event n E oe) admitted"
    and "keeps_ok E (\<lambda>_. True) (record_status_event n E se) admitted"
proof -
  have q: "quiet (\<lambda>r. note_overflow oe' b d (fresh_processor_when b r))" "quiet (\<lambda>r. note_status se' b d l (fresh_processor_when b r))"
    for b d l oe' se' using quiet_simps by (simp_all add: quiet_def)
  note start = ok_bind [OF ok_with [OF safe_reads [OF reads_will_rollover(4)]]] ok_bind [OF ok_when [OF safe_flush [OF three]]]
    ok_bind [OF safe_get] ok_bind [OF safe_upd [OF quiet_simps(5)]]
  show "keeps_ok E (\<lambda>_. True) (record_overflow_event n E oe) admitted"
    unfolding record_overflow_event_def
    by (intro start ok_bind [OF ok_with [OF ok_admitted [OF admit_ops(8) [OF three]]]] ok_keep q)
  show "keeps_ok E (\<lambda>_. True) (record_status_event n E se) admitted"
    unfolding record_status_event_def case_prod_beta
    by (intro start ok_bind [OF ok_with [OF ok_admitted [OF admit_ops(9) [OF three]]]] ok_keep q)
qed

lemma ok_record_event:
  assumes "en_doc_size E (PList []) = 3"
  shows "keeps_ok E (\<lambda>_. True) (record_event n E e) admitted"
  using ok_record_uart [OF assms] ok_record_telemetry [OF assms] by (cases e) simp_all

lemma ok_publish_admitted: "keeps_ok E (admitted a) (publish_admission a) (\<lambda>_ _. True)"
  unfolding admitted_eq by (rule ok_publish_any)

lemma safe_ingest_event:
  assumes three: "en_doc_size E (PList []) = 3"
  shows "safe E (ingest_event n E src i j e)"
  unfolding ingest_event_def
  by (intro safe_intros safe_fatal [OF three] ok_bind [OF ok_record_event [OF three] ok_publish_admitted])

subsection \<open>The connection\<close>

lemma ok_connected:
  assumes "en_doc_size E (PList []) = 3"
  shows "keeps_ok E (\<lambda>_. True) (with_r (\<lambda>r. in_store (append_v2_connection_event n E (sid r) ev (seg r) (d r)))) admitted"
  by (intro ok_with ok_admitted [OF admit_ops(7) [OF assms]])

lemma safe_connection_event:
  assumes "en_doc_size E (PList []) = 3"
  shows "safe E (connection_event n E ev)"
  unfolding connection_event_def by (rule ok_bind [OF ok_connected [OF assms] ok_publish_admitted])

lemma ok_move_tail:
  assumes "\<And>r. rc_store (f r) = rc_store r \<and> rc_tail (f r) = tail_of a"
  shows "keeps_ok E (admitted a) (upd_r f) (\<lambda>_ _. True)"
  using assms by (auto simp: keeps_ok_def upd_r_def rec_ok_def rec_sessions_def admitted_def intro!: evolves_same)

lemma safe_then:
  assumes "keeps_ok E (\<lambda>_. True) c Q" and "\<And>e. safe E (h e)" and "\<And>a. keeps_ok E (Q a) (f a) (\<lambda>_ _. True)"
  shows "safe E (bind_s (try_s c) (\<lambda>x. case x of Inl e \<Rightarrow> h e | Inr a \<Rightarrow> f a))"
proof (rule ok_bind [OF ok_try [OF assms(1)]])
  fix x
  show "keeps_ok E (\<lambda>S. \<forall>a. x = Inr a \<longrightarrow> Q a S) (case x of Inl e \<Rightarrow> h e | Inr a \<Rightarrow> f a) (\<lambda>_ _. True)"
    using assms(2,3) by (cases x) (auto intro: safe_any)
qed

lemma safe_disconnect:
  assumes three: "en_doc_size E (PList []) = 3"
  shows "safe E (record_disconnect n E src e)"
  unfolding record_disconnect_def
proof (intro ok_with ok_if safe_return safe_then safe_fatal [OF three])
  show "keeps_ok E (\<lambda>_. True) (bind_s (flush_line_state n E) (\<lambda>_.
            bind_s (with_r (\<lambda>r. in_store (append_v2_connection_event n E (rc_handle r) (lit ''unexpected_disconnect'')
                                    (Some (rc_stored_segment_id r)) [(lit ''error'', PStr (en_exc_text E e))]))) (\<lambda>a.
            bind_s (publish_and_reset a) (\<lambda>_.
              with_r (\<lambda>r. in_store (append_v2_connection_event n E (va_session_id a) (lit ''reconnect_started'')
                          (Some (rc_stored_segment_id r))
                          [(lit ''timeout_s'', PFloat (FFin (dp_reconnect_timeout_s (rc_profile r))))])))))) admitted"
    by (intro ok_bind [OF safe_flush [OF three]] ok_bind [OF ok_connected [OF three]])
       (unfold admitted_eq, rule ok_bind [OF safe_publish_reset], fold admitted_eq,
        rule ok_connected [OF three])
qed (rule ok_move_tail, simp add: Let_def disconnected_health_def first_segment_def reset_integrity_after_rollover_def)

lemma safe_after_read: "safe E h \<Longrightarrow> safe E (after_read_error n E src b h)"
  unfolding after_read_error_def by (intro safe_intros quiet_simps)

lemma safe_ingest:
  assumes three: "en_doc_size E (PList []) = 3"
  shows "safe E (ingest n E outcome b)"
proof -
  have "safe E (case outcome of
        ReadEvent e \<Rightarrow> ingest_event n E src i j e
      | ReadNothing \<Rightarrow> (if p then bind_s (upd_r (drain_ends b src)) (\<lambda>_. return_s True) else return_s q)
      | ReadDisconnected e \<Rightarrow> after_read_error n E src b (bind_s (record_disconnect n E src e) (\<lambda>_. return_s True))
      | ReadFailed e \<Rightarrow> after_read_error n E src b
          (bind_s (record_fatal n E e ''backend_input_error'' (Some src)) (\<lambda>_. return_s False)))" for src i j p q
    by (cases outcome)
       (simp_all only: read_outcome.case, (intro safe_intros quiet_simps safe_ingest_event [OF three] safe_after_read
          safe_disconnect [OF three] safe_fatal [OF three])+)
  then show ?thesis unfolding ingest_def by (intro ok_with ok_if safe_return safe_option)
qed

lemma safe_release:
  assumes three: "en_doc_size E (PList []) = 3"
  shows "safe E (release_begin n E)" "safe E (release_closed n E x)" "safe E (release_finish n E)"
    "safe E (cleanup_unconfirmed n E)" "safe E (begin_reacquire n E)" "safe E (reacquire_failed n E b)"
    "safe E (backend_input_failed n E e)"
  unfolding release_begin_def release_closed_def release_finish_def cleanup_unconfirmed_def begin_reacquire_def
    reacquire_failed_def connection_event_if_active_def backend_input_failed_def
  by (intro safe_intros safe_connection_event [OF three] safe_fatal [OF three] safe_flush [OF three];
      simp add: quiet_def disconnected_health_def)+

lemma safe_detach:
  assumes three: "en_doc_size E (PList []) = 3"
  shows "safe E detach_source" "safe E (source_detached n E x)"
  unfolding detach_source_def source_detached_def
  by (intro safe_intros safe_fatal [OF three]; simp add: quiet_def)+

subsection \<open>Replacement and the end\<close>

definition has_document :: "ustr \<Rightarrow> pydict \<Rightarrow> sessions \<Rightarrow> bool" where
  "has_document sid m S \<longleftrightarrow> (\<exists>q. S sid = Some q \<and> vs_metadata q = m)"

lemma ok_document: "keeps_ok E P (in_store (load_metadata sid)) (\<lambda>m. has_document sid m)"
proof (rule ok_store [OF grows_reads [OF reads_metadata]])
  fix s m s'
  assume "load_metadata sid s = (Inr m, s')"
  then show "has_document sid m (so_sessions s')"
    unfolding load_metadata_def has_document_def
    by (auto elim!: bind_s_success simp: lift_s_success load_session_def return_s_def split: option.splits)
qed

lemma document_durable:
  assumes "sessions_ok E S" and "has_document sid m S" and "evidence_sequence m = Inr k"
  shows "durable S (sid, k)"
proof -
  from assms(2) obtain q where q: "S sid = Some q" "vs_metadata q = m" by (auto simp: has_document_def)
  from session_next [OF assms(1) q(1)] obtain n where n: "dict_get ''next_evidence_seq'' m = PNat n" "numbered q n"
    unfolding q(2) .
  with assms(3) have "k = n" by (simp add: evidence_sequence_def)
  with q n show ?thesis by (auto simp: durable_def)
qed

lemma grows_segment: "en_doc_size E (PList []) = 3 \<Longrightarrow> grows E (append_v2_segment n E sid snap)"
  by (simp add: grows_def harmless_segment)

lemma grows_create: "en_doc_size E (PList []) = 3 \<Longrightarrow> grows E (create_v2_session E p snap pred)"
  by (simp add: grows_def harmless_create)

lemma safe_replacement_session:
  assumes three: "en_doc_size E (PList []) = 3"
  shows "safe E (replacement_session n E snap manual i)"
  unfolding replacement_session_def
  by (intro safe_intros safe_connection_event [OF three] ok_store_any grows_segment [OF three] grows_create [OF three];
      simp add: quiet_def)

lemma safe_replace_begin:
  assumes three: "en_doc_size E (PList []) = 3"
  shows "safe E (replace_begin n E snap seg manual)"
proof -
  have set: "keeps_ok E (has_document sid m) (bind_s (lift_r (evidence_sequence m)) (\<lambda>k.
      bind_s (upd_r (\<lambda>r. r\<lparr>rc_handle := sid, rc_stored_segment_id := i, rc_segment := c, rc_tail := (sid, k),
                           rc_processor := p\<rparr>)) (\<lambda>_. return_s z))) (\<lambda>_ _. True)" for sid m i c p and z :: replacement
  proof (rule ok_bind [where R = "\<lambda>k S. evidence_sequence m = Inr k \<and> has_document sid m S"])
    fix k
    show "keeps_ok E (\<lambda>S. evidence_sequence m = Inr k \<and> has_document sid m S)
      (bind_s (upd_r (\<lambda>r. r\<lparr>rc_handle := sid, rc_stored_segment_id := i, rc_segment := c, rc_tail := (sid, k),
                           rc_processor := p\<rparr>)) (\<lambda>_. return_s z)) (\<lambda>_ _. True)"
      by (auto simp: keeps_ok_def bind_s_def upd_r_def return_s_def rec_ok_def rec_sessions_def
          intro!: evolves_same intro: document_durable)
  qed (rule ok_lift, simp)
  have body: "safe E (bind_s (replacement_session n E snap manual j) (\<lambda>(sid, fresh).
                bind_s (in_store (load_metadata sid)) (\<lambda>m.
                bind_s (lift_r (last_stored_segment m)) (\<lambda>i.
                bind_s (lift_r (evidence_sequence m)) (\<lambda>k.
                bind_s (upd_r (\<lambda>r. r\<lparr>rc_handle := sid, rc_stored_segment_id := i,
                                     rc_segment := c\<lparr>sc_segment_id := i\<rparr>, rc_tail := (sid, k),
                                     rc_processor := new_processor None\<rparr>)) (\<lambda>_.
                  return_s \<lparr>rp_snapshot = snap, rp_context = c, rp_manual = manual,
                            rp_previous_session = h, rp_new_session = fresh\<rparr>))))))" for j c h
    unfolding case_prod_beta
    by (rule safe_bind [OF safe_replacement_session [OF three]], rule ok_bind [OF ok_document],
        rule ok_bind [OF ok_lift], assumption, rule set)
  show ?thesis
    unfolding replace_begin_def
    by (intro ok_with safe_option ok_if ok_raise ok_error ok_when safe_fatal [OF three] body)
qed

lemma accept_tail: "rc_store (accept_replacement p src a i r) = rc_store r \<and> rc_tail (accept_replacement p src a i r) = tail_of a"
  by (simp add: accept_replacement_def Let_def reset_integrity_after_rollover_def)

lemma ok_reads_keep:
  assumes "reads c"
  shows "keeps_ok E P (in_store c) (\<lambda>_. P)"
proof (rule keeps_okI)
  fix r x r'
  assume r: "rec_ok E r" "P (rec_sessions r)" and c: "in_store c r = (x, r')"
  then obtain s' where s': "c (rc_store r) = (x, s')" "r' = r\<lparr>rc_store := s'\<rparr>"
    by (auto simp: in_store_def split: prod.splits)
  have "so_sessions s' = so_sessions (rc_store r)" using assms s'(1) unfolding reads_def by (metis snd_conv)
  with r s'(2) show "evolves E r r' \<and> (\<forall>a. x = Inr a \<longrightarrow> P (rec_sessions r'))"
    by (auto simp: rec_ok_def rec_sessions_def intro!: evolves_same)
qed

lemma safe_replacement_connected:
  assumes three: "en_doc_size E (PList []) = 3"
  shows "safe E (replacement_connected n E p src x)"
proof -
  have close: "keeps_ok E (admitted a) (with_r (\<lambda>r.
       if rc_closing r then return_s True
       else bind_s (upd_r (accept_replacement p src a i)) (\<lambda>_. return_s False))) (\<lambda>_ _. True)" for a i
    by (intro ok_with ok_if ok_return ok_bind [OF ok_move_tail]) (simp_all add: accept_tail)
  have read: "keeps_ok E (admitted a) (bind_s (in_store (load_metadata (va_session_id a))) (\<lambda>m.
     bind_s (lift_r (last_stored_segment m)) (\<lambda>i. with_r (\<lambda>r.
       if rc_closing r then return_s True
       else bind_s (upd_r (accept_replacement p src a i)) (\<lambda>_. return_s False))))) (\<lambda>_ _. True)" for a
    by (rule ok_bind [OF ok_reads_keep [OF reads_metadata]], rule ok_bind [OF ok_lift], assumption, rule close)
  show ?thesis
    unfolding replacement_connected_def
    by (intro safe_bind [OF safe_option] safe_bind [OF ok_with] ok_if safe_return ok_raise
        ok_bind [OF ok_connected [OF three] read])
qed

lemma safe_replace_finish:
  assumes three: "en_doc_size E (PList []) = 3"
  shows "safe E (replace_finish n E p src x)"
  unfolding replace_finish_def replacement_rejected_def
  by (intro safe_bind safe_error ok_when safe_fatal [OF three] safe_try safe_replacement_connected [OF three]
      safe_sum safe_return ok_if ok_raise ok_bind [OF ok_connected [OF three]] ok_bind [OF ok_publish_admitted])

lemma safe_timed_out:
  assumes three: "en_doc_size E (PList []) = 3"
  shows "safe E (reconnect_timed_out n E reason)"
proof -
  have post: "keeps_ok E (admitted a) (publish_admission a) (\<lambda>_. admitted a)" for a
    unfolding admitted_eq by (rule ok_publish)
  have all: "keeps_ok E (admitted a) (complete_all_operations n E outcome e sid)
     (\<lambda>x. admitted (case x of None \<Rightarrow> a | Some b \<Rightarrow> b))" for a outcome e sid
    using ok_stable [OF ok_complete_all [OF three, of n outcome e sid], of "tail_of a"]
    by (auto simp: admitted_def [abs_def] last_durable_def intro: ok_post split: option.splits)
  have fail: "keeps_ok E (admitted a) (bind_s (in_store (fail_session E sid r c d)) (\<lambda>_. return_s a)) admitted" for a sid r c d
    using ok_stable [OF ok_store_any [OF grows_terminals(2) [of E sid r c d], of "\<lambda>_. True"], of "tail_of a"]
    by (intro ok_bind [OF _ ok_return]) (auto simp: admitted_def [abs_def])
  show ?thesis
    unfolding reconnect_timed_out_def Let_def
  proof (intro ok_with ok_if safe_return safe_then safe_fatal [OF three])
    fix x
    show "keeps_ok E (\<lambda>_. True) (bind_s (in_store (append_v2_connection_event n E (rc_handle x) (lit ''reconnect_failed'')
                                (Some (rc_stored_segment_id x)) [(lit ''error'', PStr reason)])) (\<lambda>failed.
            bind_s (publish_admission failed) (\<lambda>_.
            bind_s (complete_all_operations n E (lit ''disconnected'') PNone (va_session_id failed)) (\<lambda>terminal.
            bind_s (in_store (fail_session E (va_session_id (case terminal of None \<Rightarrow> failed | Some a \<Rightarrow> a))
                      (lit ''reconnect_timeout'') reason
                      (lit (if reason = lit ''reconnect_timeout'' then ''backend reconnect deadline expired''
                            else ''backend USB selection is ambiguous'')))) (\<lambda>_.
              return_s (case terminal of None \<Rightarrow> failed | Some a \<Rightarrow> a)))))) admitted"
      by (rule ok_bind [OF ok_admitted [OF admit_ops(7) [OF three]]], rule ok_bind [OF post], rule ok_bind [OF all], rule fail)
  qed (rule ok_move_tail, simp add: disconnected_health_def)
qed

lemma safe_close:
  assumes three: "en_doc_size E (PList []) = 3"
  shows "safe E close_begin" "safe E source_closed" "safe E (close_finish n E x)"
  unfolding close_begin_def source_closed_def close_finish_def Let_def
  by (intro safe_intros safe_flush [OF three] ok_store_any grows_terminals; simp add: quiet_def disconnected_health_def)+

section \<open>Runs of the recorder\<close>

datatype recorder_step =
    Ingest read_outcome bool
  | AuditTxAttempt ustr bytes pydict "ustr option"
  | AuditTxResult ustr ustr "int option"
  | AuditControlAttempt ustr ustr pydict
  | AuditControlResult ustr ustr "int option"
  | StartMonitor ustr ustr pydict "exc option"
  | CompleteMonitor ustr ustr pyval pyval pyval
  | InputFailed exc
  | ReleaseBegin
  | ReleaseClosed "exc option"
  | ReleaseFinish
  | CleanupUnconfirmed
  | BeginReacquire
  | ReacquireFailed bool
  | DetachSource
  | SourceDetached "exc option"
  | ReplaceBegin backend_snapshot "segment_context option" bool
  | ReplaceFinish replacement nat "exc option"
  | ReconnectTimedOut ustr
  | CloseBegin
  | SourceClosed
  | CloseFinish "exc option"

definition after :: "'a rec_op \<Rightarrow> recorder \<Rightarrow> recorder" where
  "after c r = snd (c r)"

fun run_step :: "nat \<Rightarrow> store_env \<Rightarrow> recorder_step \<Rightarrow> recorder \<Rightarrow> recorder" where
  "run_step n E (Ingest outcome b) = after (ingest n E outcome b)"
| "run_step n E (AuditTxAttempt i d tr op) = after (audit_uart_attempt n E i d tr op)"
| "run_step n E (AuditTxResult i st k) = after (audit_uart_result n E i st k)"
| "run_step n E (AuditControlAttempt i role ps) = after (audit_control_attempt n E i role ps)"
| "run_step n E (AuditControlResult i st ts) = after (audit_control_result n E i st ts)"
| "run_step n E (StartMonitor i ty ps x) = after (start_monitor_operation n E i ty ps x)"
| "run_step n E (CompleteMonitor i outcome e c l) = after (complete_monitor_operation n E i outcome e c l)"
| "run_step n E (InputFailed e) = after (backend_input_failed n E e)"
| "run_step n E ReleaseBegin = after (release_begin n E)"
| "run_step n E (ReleaseClosed x) = after (release_closed n E x)"
| "run_step n E ReleaseFinish = after (release_finish n E)"
| "run_step n E CleanupUnconfirmed = after (cleanup_unconfirmed n E)"
| "run_step n E BeginReacquire = after (begin_reacquire n E)"
| "run_step n E (ReacquireFailed b) = after (reacquire_failed n E b)"
| "run_step n E DetachSource = after detach_source"
| "run_step n E (SourceDetached x) = after (source_detached n E x)"
| "run_step n E (ReplaceBegin snap seg manual) = after (replace_begin n E snap seg manual)"
| "run_step n E (ReplaceFinish p src x) = after (replace_finish n E p src x)"
| "run_step n E (ReconnectTimedOut reason) = after (reconnect_timed_out n E reason)"
| "run_step n E CloseBegin = after close_begin"
| "run_step n E SourceClosed = after source_closed"
| "run_step n E (CloseFinish x) = after (close_finish n E x)"

fun run_steps :: "nat \<Rightarrow> store_env \<Rightarrow> recorder_step list \<Rightarrow> recorder \<Rightarrow> recorder" where
  "run_steps n E [] r = r"
| "run_steps n E (a # as) r = run_steps n E as (run_step n E a r)"

lemma evolves_after: "safe E c \<Longrightarrow> rec_ok E r \<Longrightarrow> evolves E r (after c r)"
  using keeps_okD [of E "\<lambda>_. True" c "\<lambda>_ _. True" r "fst (c r)" "snd (c r)"] by (simp add: after_def)

lemma evolves_step:
  assumes three: "en_doc_size E (PList []) = 3"
  shows "rec_ok E r \<Longrightarrow> evolves E r (run_step n E a r)"
proof -
  note ops = safe_ingest [OF three] safe_audits [OF three] safe_start_monitor [OF three] safe_complete_monitor [OF three]
    safe_release [OF three] safe_detach [OF three] safe_replace_begin [OF three] safe_replace_finish [OF three]
    safe_timed_out [OF three] safe_close [OF three]
  show "rec_ok E r \<Longrightarrow> evolves E r (run_step n E a r)"
    by (cases a) (simp_all only: run_step.simps evolves_after ops)
qed

lemma evolves_steps:
  assumes "en_doc_size E (PList []) = 3"
  shows "rec_ok E r \<Longrightarrow> evolves E r (run_steps n E as r)"
proof (induction as arbitrary: r)
  case Nil
  then show ?case by (simp add: evolves_same)
next
  case (Cons a as)
  from evolves_step [OF assms Cons.prems] have s: "evolves E r (run_step n E a r)" .
  then have "rec_ok E (run_step n E a r)" by (simp add: evolves_def)
  from evolves_trans [OF s Cons.IH [OF this]] show ?case by simp
qed

lemma run_steps_append: "run_steps n E (as @ bs) r = run_steps n E bs (run_steps n E as r)"
  by (induction as arbitrary: r) simp_all

lemma new_recorder_ok:
  assumes three: "en_doc_size E (PList []) = 3" and ok: "sessions_ok E (so_sessions s)"
    and new: "new_recorder n E profile snapshot source segment s = (Inr r, s')"
  shows "rec_ok E r"
proof -
  from new obtain cx sid s1 a where c: "create_v2_session E profile snapshot None s = (Inr sid, s1)"
    and a: "append_v2_connection_event n E sid (lit ''connected'') (Some 0) [(lit ''connection_generation'', PInt 0)] s1 = (Inr a, s')"
    and r: "r = start_recorder s' profile snapshot source cx a"
    unfolding new_recorder_def by (auto elim!: bind_s_success simp: raise_s_def split: option.splits if_splits)
  from growsD [OF grows_create [OF three] ok c] have s1: "sessions_ok E (so_sessions s1)" by (simp add: good_def)
  from admit_ops(7) [OF three] have adm: "admits E (append_v2_connection_event n E sid (lit ''connected'') (Some 0)
      [(lit ''connection_generation'', PInt 0)])" .
  then have st: "stored (so_sessions s') a" using a by (simp add: admits_def)
  from adm have "grows E (append_v2_connection_event n E sid (lit ''connected'') (Some 0) [(lit ''connection_generation'', PInt 0)])"
    by (simp add: admits_def)
  from growsD [OF this s1 a] have s': "sessions_ok E (so_sessions s')" by (simp add: good_def)
  have "va_evidence_seq a < next_sequence a" using st by (simp add: stored_def next_sequence_def)
  with stored_durable [OF s' st] have "durable (so_sessions s') (va_session_id a, va_evidence_seq a + 1)"
    by (auto simp: durable_def tail_of_def)
  with s' show ?thesis by (simp add: r start_recorder_def Let_def rec_ok_def rec_sessions_def)
qed

section \<open>What a fault leaves\<close>

text \<open>The parts of the state that recording does not touch.\<close>

definition frame_of :: "recorder \<Rightarrow> exc option \<times> nat option \<times> recorder_state \<times> bool \<times> bool \<times> dut_profile" where
  "frame_of r = (rc_fault r, rc_source r, rc_state r, rc_closed r, rc_closing r, rc_profile r)"

definition framed :: "'a rec_op \<Rightarrow> bool" where
  "framed c \<longleftrightarrow> (\<forall>r x r'. c r = (x, r') \<longrightarrow> frame_of r' = frame_of r)"

lemma framed_bind: "framed c \<Longrightarrow> (\<And>a. framed (f a)) \<Longrightarrow> framed (bind_s c f)"
  unfolding framed_def bind_s_def by (auto split: prod.splits sum.splits)

lemma framed_basic: "framed (return_s a)" "framed (raise_s e)" "framed (get_r f)" "framed (lift_r x)" "framed (in_store c)"
  by (auto simp: framed_def return_s_def raise_s_def get_r_def lift_r_def in_store_def frame_of_def split: prod.splits)

lemma framed_with: "(\<And>r. framed (f r)) \<Longrightarrow> framed (with_r f)"
  unfolding framed_def with_r_def by blast

lemma framed_upd: "(\<And>r. frame_of (f r) = frame_of r) \<Longrightarrow> framed (upd_r f)"
  by (simp add: framed_def upd_r_def)

lemma framed_if: "framed c \<Longrightarrow> framed d \<Longrightarrow> framed (if b then c else d)"
  by simp

lemma framed_when: "framed c \<Longrightarrow> framed (when_r b c)"
  by (simp add: when_r_def framed_basic)

lemma framed_try: "framed c \<Longrightarrow> framed (try_s c)"
  unfolding framed_def try_s_def by (auto split: prod.splits)

lemmas framed_intros = framed_bind framed_basic framed_with framed_if framed_when framed_try

lemma framed_publish: "framed (publish_admission a)" "framed (publish_and_reset a)" "framed (publish_all as)"
proof -
  show p: "framed (publish_admission a)" for a
    unfolding publish_admission_def by (rule framed_upd) (simp add: Let_def first_segment_def frame_of_def)
  have r: "framed (reset_if_rolled_over a)" for a
    unfolding reset_if_rolled_over_def
    by (intro framed_when framed_upd) (simp add: reset_integrity_after_rollover_def Let_def frame_of_def)
  show q: "framed (publish_and_reset a)" for a
    unfolding publish_and_reset_def by (intro framed_bind p r)
  show "framed (publish_all as)" by (induction as) (simp_all add: framed_basic framed_bind q)
qed

lemma framed_flush: "framed (flush_line_state n E)"
  unfolding flush_line_state_def case_prod_beta
  by (intro framed_intros framed_publish framed_upd) (simp add: frame_of_def)

lemma framed_reset: "framed (reset_if_rolled_over a)"
  unfolding reset_if_rolled_over_def
  by (intro framed_when framed_upd) (simp add: reset_integrity_after_rollover_def Let_def frame_of_def)

lemma framed_record_event: "framed (record_event n E e)"
proof -
  have u: "framed (record_uart n E e)" for e
    unfolding record_uart_def case_prod_beta
    by (intro framed_intros framed_flush framed_reset framed_upd) (simp add: frame_of_def)
  have v: "framed (record_overflow_event n E e)" for e
    unfolding record_overflow_event_def
    by (intro framed_intros framed_flush framed_upd)
       (simp add: frame_of_def note_overflow_def note_integrity_def fresh_processor_when_def)
  have t: "framed (record_status_event n E e)" for e
    unfolding record_status_event_def case_prod_beta
    by (intro framed_intros framed_flush framed_upd)
       (simp_all add: frame_of_def note_status_def note_integrity_def fresh_processor_when_def set_baseline_def)
  show ?thesis by (cases e) (simp_all add: u v t)
qed

lemma framed_complete: "framed (complete_operations n E outcome e sid ops latest)"
proof (induction ops arbitrary: sid latest)
  case Nil
  show ?case by (simp add: framed_basic)
next
  case (Cons o1 ops)
  obtain i v where "o1 = (i, v)" by (cases o1)
  then show ?case by (cases v) (simp_all add: framed_basic framed_bind framed_publish Cons.IH)
qed

lemma framed_terminal: "framed (terminal_work n E e r)"
  unfolding terminal_work_def complete_all_operations_def fail_if_active_def Let_def
  by (intro framed_intros framed_complete)

lemma fatal_effect:
  assumes "rc_fault r = None" and "\<not> rc_closed r" and "source = None \<or> rc_source r = source"
    and "record_fatal n E e reason source r = (x, r')"
  shows "x = Inr () \<and> rc_fault r' = Some e \<and> rc_source r' = None \<and> rc_state r' = RecFaulted"
proof -
  obtain y r1 where w: "terminal_work n E e reason (enter_fault e r) = (y, r1)"
    by (cases "terminal_work n E e reason (enter_fault e r)")
  have f: "frame_of r1 = frame_of (enter_fault e r)" using framed_terminal w by (auto simp: framed_def)
  from assms w have "x = Inr () \<and> frame_of r' = frame_of r1"
    by (cases y) (auto simp: record_fatal_def with_r_def bind_s_def upd_r_def try_s_def return_s_def keep_close_error_def frame_of_def split: if_splits)
  with f show ?thesis by (simp add: frame_of_def enter_fault_def disconnected_health_def)
qed

section \<open>One received event\<close>

lemma in_store_success: "in_store c r = (Inr a, r') \<Longrightarrow> c (rc_store r) = (Inr a, rc_store r')"
  by (auto simp: in_store_def split: prod.splits)

lemma upd_store: "(\<And>r. rc_store (f r) = rc_store r) \<Longrightarrow> upd_r f r = (x, r') \<Longrightarrow> rc_store r' = rc_store r"
  by (auto simp: upd_r_def)

lemma reset_store: "reset_if_rolled_over a r = (x, r') \<Longrightarrow> rc_store r' = rc_store r"
  by (auto simp: reset_if_rolled_over_def when_r_def upd_r_def return_s_def reset_integrity_after_rollover_def Let_def
      split: if_splits)

lemma refill_data:
  assumes "(if b then return_s (e, p, x) else bind_s c (\<lambda>_. bind_s (get_r f) (\<lambda>i. bind_s (g i) (\<lambda>y.
      return_s (e\<lparr>ev_segment_id := i\<rparr>, fst y, snd y))))) r = (Inr z, r')"
  shows "ev_data (fst z) = ev_data e"
  using assms by (auto elim!: bind_s_success simp: return_s_def split: if_splits)

lemma record_uart_success:
  assumes "record_uart n E e r = (Inr a, r')"
  shows "\<exists>sid e' x y s. append_v2_uart_receive n E sid e' [] x y s = (Inr a, rc_store r') \<and> ev_data e' = ev_data e"
  using assms unfolding record_uart_def case_prod_beta
proof (elim bind_s_success)
  fix z0 s0 full s1 z s2 w s3 a' s4 s5 s6 and u5 u6 :: unit
  assume z: "(if \<not> full then return_s (e, fst z0, snd z0) else bind_s (flush_line_state n E) (\<lambda>_.
      bind_s (get_r rc_stored_segment_id) (\<lambda>i.
      bind_s (with_r (\<lambda>r. lift_r (process_event (rc_processor r) (e\<lparr>ev_segment_id := i\<rparr>)))) (\<lambda>p.
        return_s (e\<lparr>ev_segment_id := i\<rparr>, fst p, snd p))))) s1 = (Inr z, s2)"
    and app: "with_r (\<lambda>r. in_store (append_v2_uart_receive n E (rc_handle r) (fst z) []
      (Some (snd (snd z))) (Some (snd w)))) s3 = (Inr a', s4)"
    and upd: "upd_r (\<lambda>r. r\<lparr>rc_processor := (if va_rolled_over a' then fst w else fst (snd z))\<rparr>) s4 = (Inr u5, s5)"
    and res: "reset_if_rolled_over a' s5 = (Inr u6, s6)" and ret: "return_s a' s6 = (Inr a, r')"
  from upd reset_store [OF res] ret have "rc_store r' = rc_store s4" "a' = a" by (auto simp: upd_r_def return_s_def)
  with in_store_success [OF app [unfolded with_r_def]] refill_data [OF z] show ?thesis by metis
qed

text \<open>
  What ingesting one received event does: it is stored, as the last bytes of the session the recorder then owns, or the
  recorder faults for good.
\<close>

definition ready :: "recorder \<Rightarrow> bool" where
  "ready r \<longleftrightarrow> rc_fault r = None \<and> \<not> rc_closed r \<and> \<not> rc_closing r \<and> rc_source r \<noteq> None \<and> rc_state r \<noteq> RecReconnecting"

lemma fatal_returns: "\<exists>r'. record_fatal n E e reason source r = (Inr (), r')"
  by (auto simp: record_fatal_def with_r_def return_s_def bind_s_def upd_r_def try_s_def split: sum.splits prod.splits)

lemma ingest_ready:
  assumes "ready r" and "event_segment e = rc_source_segment_id r"
  shows "ingest n E (ReadEvent e) b r =
    (case bind_s (record_event n E (in_segment (rc_stored_segment_id r) e)) publish_admission r of
       (Inr _, r') \<Rightarrow> (Inr True, r')
     | (Inl err, r') \<Rightarrow> (Inr False, snd (record_fatal n E err ''persistence_error'' (rc_source r) r')))"
proof -
  obtain src where src: "rc_source r = Some src" using assms(1) by (auto simp: ready_def)
  obtain y r' where w: "bind_s (record_event n E (in_segment (rc_stored_segment_id r) e)) publish_admission r = (y, r')"
    by (cases "bind_s (record_event n E (in_segment (rc_stored_segment_id r) e)) publish_admission r")
  show ?thesis
  proof (cases y)
    case (Inl err)
    obtain r2 where "record_fatal n E err ''persistence_error'' (Some src) r' = (Inr (), r2)" using fatal_returns by blast
    with Inl w src assms show ?thesis
      by (auto simp: ingest_def with_r_def ready_def ingest_event_def bind_s_def [of "try_s _"] bind_s_def [of "record_fatal _ _ _ _ _"]
          try_s_def return_s_def)
  next
    case (Inr u)
    with w src assms show ?thesis
      by (auto simp: ingest_def with_r_def ready_def ingest_event_def bind_s_def [of "try_s _"] try_s_def return_s_def)
  qed
qed

lemma framed_recording: "framed (bind_s (record_event n E e) publish_admission)"
  by (intro framed_bind framed_record_event framed_publish)

lemma ingest_fault:
  assumes "ready r" and "event_segment e = rc_source_segment_id r"
    and "bind_s (record_event n E (in_segment (rc_stored_segment_id r) e)) publish_admission r = (Inl err, r1)"
  shows "\<exists>r'. ingest n E (ReadEvent e) b r = (Inr False, r') \<and> rc_fault r' = Some err \<and> rc_source r' = None
     \<and> rc_state r' = RecFaulted"
proof -
  have f: "frame_of r1 = frame_of r" using framed_recording assms(3) by (auto simp: framed_def)
  obtain r' where "record_fatal n E err ''persistence_error'' (rc_source r) r1 = (Inr (), r')" using fatal_returns by blast
  with fatal_effect [OF _ _ _ this] f assms(1) ingest_ready [OF assms(1,2), of n E b] assms(3) show ?thesis
    by (auto simp: ready_def frame_of_def)
qed

lemma publish_effect:
  assumes "publish_admission a r = (x, r')"
  shows "x = Inr () \<and> rc_store r' = rc_store r \<and> rc_handle r' = va_session_id a \<and> rc_tail r' = tail_of a"
  using assms by (auto simp: publish_admission_def upd_r_def Let_def first_segment_def)

end
