(* ===== verification/Recorder_Properties.thy ===== *)
theory Recorder_Properties
  imports Recorder_Safety
begin

text \<open>
  The properties of the continuous recorder, from the invariant of its runs and the effect of one turn.
\<close>

section \<open>An example\<close>

lemma demo_event_name: "validate_v2_identifier (PStr (lit ''connected'')) = Inr (lit ''connected'')"
  by (simp add: validate_v2_identifier_def py_strip_def lit_def py_isspace_def is_cc_def utf8_encode_cp_def)

lemma demo_connected:
  "\<exists>a s. append_v2_connection_event 0 demo_env (lit ''s'') (lit ''connected'') (Some 0)
     [(lit ''connection_generation'', PInt 0)] demo_store = (Inr a, s)"
  by (simp add: append_v2_connection_event_def demo_event_name update_continuity_def raise_s_def
      demo_id run demo_env_def demo_store_def demo_get store_defs cong: bind_cong)

lemma demo_recorder:
  "\<exists>r s. new_recorder 0 demo_env demo_profile demo_snapshot 0 (Some demo_context) (empty_store []) = (Inr r, s)
     \<and> ready r \<and> rc_source_segment_id r = sc_segment_id demo_context \<and> rc_processor r = new_processor None"
proof -
  obtain a s where "append_v2_connection_event 0 demo_env (lit ''s'') (lit ''connected'') (Some 0)
     [(lit ''connection_generation'', PInt 0)] demo_store = (Inr a, s)"
    using demo_connected by blast
  moreover have "sn_segment demo_snapshot = Some demo_context" by (simp add: demo_snapshot_def)
  ultimately show ?thesis
    by (simp add: new_recorder_def bind_s_def demo_created ready_def start_recorder_def Let_def)
qed

section \<open>Properties\<close>



text \<open>
  C4: One turn of the ingesting thread on received bytes never raises: either the bytes are the last record and the last
  bytes of the raw log of the session the recorder then owns, below the tail it publishes, and the thread goes
  on; or the recorder has faulted for good: it keeps the exception, has given up its source and no later turn does
  anything. Bytes that were read are never dropped silently.
\<close>

theorem received_bytes_stored_or_fault:
  assumes "ready r" and "ev_segment_id e = rc_source_segment_id r"
  shows "(\<exists>r' q. ingest n E (ReadEvent (ReceiveEvent e)) b r = (Inr True, r')
        \<and> rec_sessions r' (rc_handle r') = Some q \<and> vs_uart q \<noteq> [] \<and> rec_data (last (vs_uart q)) = ev_data e
        \<and> suffix (ev_data e) (vs_raw q) \<and> fst (rc_tail r') = rc_handle r' \<and> record_seq (last (vs_uart q)) < snd (rc_tail r'))
    \<or> (\<exists>r'. ingest n E (ReadEvent (ReceiveEvent e)) b r = (Inr False, r')
        \<and> rc_fault r' \<noteq> None \<and> rc_source r' = None \<and> rc_state r' = RecFaulted
        \<and> (\<forall>m outcome c. ingest m E outcome c r' = (Inr False, r')))"
    (is "?stored \<or> ?fault")
proof -
  let ?work = "bind_s (record_event n E (in_segment (rc_stored_segment_id r) (ReceiveEvent e))) publish_admission"
  have segment: "event_segment (ReceiveEvent e) = rc_source_segment_id r" using assms(2) by simp
  obtain y r1 where w: "?work r = (y, r1)" by (cases "?work r")
  show ?thesis
  proof (cases y)
    case (Inl err)
    from ingest_fault [OF assms(1) segment w [unfolded Inl]] have ?fault
      by (fastforce simp: ingest_def with_r_def return_s_def)
    then show ?thesis ..
  next
    case (Inr u)
    from w [unfolded Inr] obtain a r0 where
      a: "record_uart n E (e\<lparr>ev_segment_id := rc_stored_segment_id r\<rparr>) r = (Inr a, r0)" and p: "publish_admission a r0 = (Inr u, r1)"
      by (auto elim: bind_s_success)
    from record_uart_success [OF a] have "received (rec_sessions r0) a (ev_data e) \<and> stored (rec_sessions r0) a"
      by (force dest: uart_receive_stored simp: rec_sessions_def)
    with publish_effect [OF p] ingest_ready [OF assms(1) segment, of n E b] w Inr have ?stored
      by (fastforce simp: received_def stored_def tail_of_def next_sequence_def record_seq_get rec_sessions_def)
    then show ?thesis ..
  qed
qed

definition demo_bytes :: "bytes \<Rightarrow> uart_receive_event" where
  "demo_bytes data =
     \<lparr>ev_segment_id = sc_segment_id demo_context, ev_timestamp_us = 0, ev_channel = 0, ev_data = data\<rparr>"

theorem received_bytes_stored_or_fault_witness:
  "\<exists>r s go r'. new_recorder 0 demo_env demo_profile demo_snapshot 0 (Some demo_context) (empty_store []) = (Inr r, s)
     \<and> ingest 0 demo_env (ReadEvent (ReceiveEvent (demo_bytes ''A''))) False r = (Inr go, r')
     \<and> (go \<and> fst (rc_tail r') = rc_handle r' \<or> rc_state r' = RecFaulted)"
proof -
  obtain r s where r: "new_recorder 0 demo_env demo_profile demo_snapshot 0 (Some demo_context) (empty_store []) = (Inr r, s)"
      "ready r" "rc_source_segment_id r = sc_segment_id demo_context"
    using demo_recorder by blast
  have "ev_segment_id (demo_bytes ''A'') = rc_source_segment_id r" using r(3) by (simp add: demo_bytes_def)
  from received_bytes_stored_or_fault [OF r(2) this, of 0 demo_env False] r(1) show ?thesis by blast
qed

text \<open>
  An event with too many matches: the store refuses it before anything is written.
\<close>

lemma map_r_length: "map_r f xs = Inr ys \<Longrightarrow> length ys = length xs"
  by (induction xs arbitrary: ys) (auto simp: bind_r_eq_Inr)

lemma many_matches_refused:
  assumes "length (cr_matches x) > MAX_V2_DETECTED_PATTERNS_PER_UART_EVENT"
  shows "\<exists>err s'. v2_uart_receive_will_rollover E sid e x s = (Inl err, s') \<and> so_sessions s' = so_sessions s"
proof -
  obtain y s' where c: "v2_uart_receive_will_rollover E sid e x s = (y, s')"
    by (cases "v2_uart_receive_will_rollover E sid e x s")
  have "y \<noteq> Inr b" for b
  proof
    assume "y = Inr b"
    with c obtain m ps u s1 s2 where "detected_pattern_records x (ev_segment_id e) = Inr ps"
      "v2_uart_unit E sid m e ps (Some x) s1 = (Inr u, s2)"
      unfolding v2_uart_receive_will_rollover_def by (auto elim!: bind_s_success simp: lift_s_success)
    moreover from this(2) obtain q seq pg where "v2_pattern_document E q seq e ps = Inr pg"
      unfolding v2_uart_unit_def uart_unit_of_def
      by (auto elim!: bind_s_success simp: lift_s_success raise_s_def split: if_splits)
    ultimately show False
      using assms by (auto simp: detected_pattern_records_def v2_pattern_document_def dest!: map_r_length split: if_splits)
  qed
  moreover have "so_sessions s' = so_sessions s"
    using reads_will_rollover(5) [of E sid e x] c by (metis reads_def snd_conv)
  ultimately show ?thesis using c by (cases y) auto
qed

text \<open>
  C37: A burst of recognised lines ends the recording: when the bytes of one read hold more than twelve pattern matches, the
  store refuses the event as a whole, nothing of it is written, and the recorder faults for good. The refusal is
  the store's guard on one unit; the recorder neither splits the event nor drops the surplus matches.
\<close>

theorem pattern_burst_stops_recorder:
  assumes "ready r" and "ev_segment_id e = rc_source_segment_id r"
    and "process_event (rc_processor r) (e\<lparr>ev_segment_id := rc_stored_segment_id r\<rparr>) = Inr (p, x)"
    and "length (cr_matches x) > MAX_V2_DETECTED_PATTERNS_PER_UART_EVENT"
  shows "\<exists>err r1 r'. record_event n E (in_segment (rc_stored_segment_id r) (ReceiveEvent e)) r = (Inl err, r1)
    \<and> rec_sessions r1 = rec_sessions r
    \<and> ingest n E (ReadEvent (ReceiveEvent e)) b r = (Inr False, r') \<and> rc_fault r' = Some err \<and> rc_state r' = RecFaulted"
proof -
  let ?e = "e\<lparr>ev_segment_id := rc_stored_segment_id r\<rparr>"
  from many_matches_refused [OF assms(4)] obtain err s' where
    no: "v2_uart_receive_will_rollover E (rc_handle r) ?e x (rc_store r) = (Inl err, s')" "so_sessions s' = so_sessions (rc_store r)"
    by blast
  let ?r = "r\<lparr>rc_store := s'\<rparr>"
  have rec: "record_event n E (in_segment (rc_stored_segment_id r) (ReceiveEvent e)) r = (Inl err, ?r)"
    using no(1) assms(3) by (simp add: record_uart_def with_r_def lift_r_def in_store_def bind_s_def)
  then have "bind_s (record_event n E (in_segment (rc_stored_segment_id r) (ReceiveEvent e))) publish_admission r = (Inl err, ?r)"
    by (simp add: bind_s_def)
  moreover have "event_segment (ReceiveEvent e) = rc_source_segment_id r" using assms(2) by simp
  moreover have "rec_sessions ?r = rec_sessions r" using no(2) by (simp add: rec_sessions_def)
  ultimately show ?thesis using ingest_fault [OF assms(1)] rec by blast
qed

lemma demo_burst:
  "\<exists>p x. process_event (new_processor None) (demo_bytes (concat (replicate 13 (''ERROR'' @ [nl]))) \<lparr>ev_segment_id := i\<rparr>) = Inr (p, x)
     \<and> length (cr_matches x) > MAX_V2_DETECTED_PATTERNS_PER_UART_EVENT"
proof -
  let ?line = "''ERROR'' @ [nl]"
  let ?data = "concat (replicate 13 ?line)"
  let ?e = "demo_bytes ?data \<lparr>ev_segment_id := i\<rparr>"
  have ok: "\<forall>q \<in> set (pr_patterns (new_processor None)). wait_pattern_ok q"
    using default_patterns_ok by (simp add: new_processor_def patterns_ok_def)
  have pos: "key_base [] (ev_key ?e) (pr_next_ingestion_index (new_processor None)) = length (fst (hist_of [] (ev_key ?e)))"
    by (simp add: key_base_def new_processor_def)
  from process_event_correct [where bases = "key_base []" and H = "hist_of []", OF proc_rel_new ok pos] obtain p x where
    step: "process_event (new_processor None) ?e = Inr (p, x)"
    and exact: "matches_exact (pr_patterns (new_processor None)) x"
    and lines: "map ul_raw (cr_lines x) = filter Line_Buffer.fits (fst (cut_lines (snd (hist_of [] (ev_key ?e))) (ev_data ?e)))"
    by blast
  have cut: "cut_lines [] ?data = (replicate 13 ?line, [])"
    by (simp add: numeral_eq_Suc)
  have raw: "map ul_raw (cr_lines x) = replicate 13 ?line"
    using lines cut by (simp add: demo_bytes_def MAX_UART_LINE_BYTES_def)
  have hits: "filter (raw_hit ?line) DEFAULT_PATTERNS \<noteq> []"
    by (simp add: DEFAULT_PATTERNS_def raw_hit_def utf8_encode_lit)
  have m: "map (\<lambda>m. (pm_line_raw m, pm_pattern m)) (cr_matches x)
      = concat (map (\<lambda>l. map (Pair l) (filter (raw_hit l) DEFAULT_PATTERNS)) (map ul_raw (cr_lines x)))"
    using exact by (simp add: matches_exact_def new_processor_def comp_def)
  from arg_cong [OF m [unfolded raw], of length]
  have "length (cr_matches x) = 13 * length (filter (raw_hit ?line) DEFAULT_PATTERNS)"
    by (simp only: length_map length_concat map_replicate sum_list_replicate) simp
  then have "length (cr_matches x) \<ge> 13" using hits by (cases "filter (raw_hit ?line) DEFAULT_PATTERNS") auto
  then show ?thesis using step by (auto simp: MAX_V2_DETECTED_PATTERNS_PER_UART_EVENT_def)
qed

theorem pattern_burst_stops_recorder_witness:
  "\<exists>r s r'. new_recorder 0 demo_env demo_profile demo_snapshot 0 (Some demo_context) (empty_store []) = (Inr r, s)
     \<and> ingest 0 demo_env (ReadEvent (ReceiveEvent (demo_bytes (concat (replicate 13 (''ERROR'' @ [nl])))))) False r = (Inr False, r')
     \<and> rc_state r' = RecFaulted"
proof -
  obtain r s where r: "new_recorder 0 demo_env demo_profile demo_snapshot 0 (Some demo_context) (empty_store []) = (Inr r, s)"
      "ready r" "rc_source_segment_id r = sc_segment_id demo_context" "rc_processor r = new_processor None"
    using demo_recorder by blast
  have seg: "ev_segment_id (demo_bytes data) = rc_source_segment_id r" for data using r(3) by (simp add: demo_bytes_def)
  obtain p x where x: "process_event (rc_processor r) (demo_bytes (concat (replicate 13 (''ERROR'' @ [nl]))) \<lparr>ev_segment_id := rc_stored_segment_id r\<rparr>) = Inr (p, x)"
      "length (cr_matches x) > MAX_V2_DETECTED_PATTERNS_PER_UART_EVENT"
    using demo_burst [of "rc_stored_segment_id r"] r(4) by auto
  from pattern_burst_stops_recorder [OF r(2) seg x, of 0 demo_env False] r(1) show ?thesis by blast
qed

text \<open>
  C38: A write that fails is fatal for the recorder when it belongs to an action, but goes unnoticed when it
  starts an operation: \<open>start_monitor_operation\<close> passes the exception on and leaves the recorder as it was, connected and
  without a fault, although the store has ended the session; the same failure under an action faults the recorder with
  that exception.
\<close>

theorem start_fault_unnoticed:
  assumes "\<not> unavailable r"
    and "v2_operation_start_will_rollover E (rc_handle r) i ty ps (rc_store r) = (Inr False, s0)"
    and "start_v2_operation n E (rc_handle r) i ty ps s0 = (Inl e, s1)"
    and "v2_action_will_rollover E (rc_handle r) rt given (rc_store r) = (Inr False, t0)"
    and "write_action (rc_handle r) t0 = (Inl e', t1)" and "is_persistence_error e'"
  shows "start_monitor_operation n E i ty ps opened r = (Inl e, r\<lparr>rc_store := s1\<rparr>)
    \<and> (\<exists>r'. admit_action n E rt given write_action r = (Inl e', r') \<and> rc_fault r' = Some e' \<and> rc_state r' = RecFaulted)"
proof -
  have "start_monitor_operation n E i ty ps opened r = (Inl e, r\<lparr>rc_store := s1\<rparr>)"
    using assms(1-3)
    by (simp add: start_monitor_operation_def flush_when_def with_r_def when_r_def in_store_def bind_s_def get_r_def return_s_def)
  moreover
  let ?r = "r\<lparr>rc_store := t1\<rparr>"
  obtain r' where f: "record_fatal n E e' ''persistence_error'' None ?r = (Inr (), r')" using fatal_returns by blast
  from fatal_effect [OF _ _ _ f] assms(1) have "rc_fault r' = Some e' \<and> rc_state r' = RecFaulted"
    by (simp add: unavailable_def)
  with assms(1,4-6) f have "\<exists>r'. admit_action n E rt given write_action r = (Inl e', r') \<and> rc_fault r' = Some e' \<and> rc_state r' = RecFaulted"
    by (simp add: admit_action_def on_persistence_fault_def on_error_def try_s_def flush_when_def with_r_def when_r_def
        in_store_def bind_s_def get_r_def return_s_def raise_s_def)
  ultimately show ?thesis ..
qed

text \<open>A recorder whose next write to the disk fails.\<close>

definition demo_faulty :: recorder where
  "demo_faulty = start_recorder (demo_store\<lparr>so_steps := [StepFails]\<rparr>) demo_profile demo_snapshot 0 demo_context
     (make_admission (lit ''s'') 0 False 1)"

lemma demo_monitor: "check_operation_start (lit ''m'') (lit ''monitor'') = Inr ()"
  by (simp add: check_operation_start_def validate_v2_identifier_def py_strip_def lit_def py_isspace_def is_cc_def utf8_encode_cp_def)

lemma demo_error: "bounded_error (str_val ''persistence_fault'') (PStr (lit ''e'')) =
    Inr [(lit ''code'', str_val ''persistence_fault''), (lit ''detail'', PStr (lit ''e'')), (lit ''detail_truncated'', PBool False)]"
  by (simp add: bounded_error_def project_diagnostic_detail_def clean_detail_def clean_char_def lit_def str_val_def is_cc_def
      utf8_encode_cp_def MAX_DIAGNOSTIC_BYTES_def)

lemma bind_raise: "bind_s (raise_s e) f s = (Inl e, s)"
  by (simp add: bind_s_def raise_s_def)

lemma demo_quality: "dict_get ''evidence_quality'' (demo_meta sid p) = PDict
    [(lit ''backend_integrity'', PDict (integrity_json (sn_integrity demo_snapshot))), (lit ''local_recording'', PStr (lit ''complete''))]"
  by (simp add: demo_meta_def initial_v2_metadata_def)

lemmas demo_fault = v2_count_def fail_active_v2_persistence_def fail_on_persistence_def terminalize_session_def record_persistence_fault_def
  demo_error [unfolded str_val_def] bind_raise raise_s_def demo_quality relinquish_v2_ownership_def close_current_segment_def terminal_fields_def
  backend_segment_json_def str_val_def

lemma demo_start:
  "\<exists>s0 e s1 q. v2_operation_start_will_rollover demo_env (lit ''s'') (lit ''m'') (lit ''monitor'') [] (demo_store\<lparr>so_steps := [StepFails]\<rparr>) = (Inr False, s0)
     \<and> start_v2_operation 0 demo_env (lit ''s'') (lit ''m'') (lit ''monitor'') [] s0 = (Inl e, s1)
     \<and> so_sessions s1 (lit ''s'') = Some q \<and> \<not> is_active_v2 (vs_metadata q)"
  by (simp add: v2_operation_start_will_rollover_def start_v2_operation_def demo_monitor operation_id_unused_def
      v2_record_will_rollover_def start_fields_def operation_started_def operation_entry_def open_range_def
      with_operations_def add_count_def demo_fault
      demo_id run demo_env_def demo_store_def demo_get store_defs cong: bind_cong)

lemma attempt_suffix: "suffix (lit ''_attempt'') (lit ''uart_tx_attempt'')"
  unfolding suffix_def by (rule exI [of _ "lit ''uart_tx''"]) (simp add: lit_def)

lemma demo_attempt:
  "\<exists>t0 e t1. v2_action_will_rollover demo_env (lit ''s'') (lit ''uart_tx_attempt'') [] (demo_store\<lparr>so_steps := [StepFails]\<rparr>) = (Inr False, t0)
     \<and> append_v2_attempt 0 demo_env (lit ''s'') UartTxAttempt (lit ''a'') None [] t0 = (Inl e, t1) \<and> is_persistence_error e"
  by (simp add: v2_action_will_rollover_def v2_record_will_rollover_def append_v2_attempt_def action_fields_def attempt_suffix demo_fault
      v2_attempt_key_def check_pending_attempt_def one_of_def record_pending_attempt_def pending_entry_def
      demo_id run demo_env_def demo_store_def demo_get store_defs cong: bind_cong)

theorem start_fault_unnoticed_witness:
  "\<exists>e r' q e' r''. start_monitor_operation 0 demo_env (lit ''m'') (lit ''monitor'') [] None demo_faulty = (Inl e, r')
     \<and> rc_fault r' = None \<and> rc_state r' = RecConnected
     \<and> rec_sessions r' (rc_handle r') = Some q \<and> \<not> is_active_v2 (vs_metadata q)
     \<and> admit_action 0 demo_env (lit ''uart_tx_attempt'') []
         (\<lambda>sid. append_v2_attempt 0 demo_env sid UartTxAttempt (lit ''a'') None []) demo_faulty = (Inl e', r'')
     \<and> rc_fault r'' = Some e'"
proof -
  have r: "\<not> unavailable demo_faulty" "rc_handle demo_faulty = lit ''s''" "rc_store demo_faulty = demo_store\<lparr>so_steps := [StepFails]\<rparr>"
      "rc_fault demo_faulty = None" "rc_state demo_faulty = RecConnected"
    by (simp_all add: demo_faulty_def start_recorder_def unavailable_def make_admission_def Let_def)
  obtain s0 e s1 q where a:
    "v2_operation_start_will_rollover demo_env (rc_handle demo_faulty) (lit ''m'') (lit ''monitor'') [] (rc_store demo_faulty) = (Inr False, s0)"
    "start_v2_operation 0 demo_env (rc_handle demo_faulty) (lit ''m'') (lit ''monitor'') [] s0 = (Inl e, s1)"
    and q: "so_sessions s1 (lit ''s'') = Some q" "\<not> is_active_v2 (vs_metadata q)"
    unfolding r using demo_start by blast
  obtain t0 e' t1 where b:
    "v2_action_will_rollover demo_env (rc_handle demo_faulty) (lit ''uart_tx_attempt'') [] (rc_store demo_faulty) = (Inr False, t0)"
    "append_v2_attempt 0 demo_env (rc_handle demo_faulty) UartTxAttempt (lit ''a'') None [] t0 = (Inl e', t1)" "is_persistence_error e'"
    unfolding r using demo_attempt by blast
  from start_fault_unnoticed [OF r(1) a b(1) _ b(3), where opened = None
      and write_action = "\<lambda>sid. append_v2_attempt 0 demo_env sid UartTxAttempt (lit ''a'') None []"] b(2) q r
  show ?thesis by (auto simp: rec_sessions_def)
qed

text \<open>A session that was ended has no longer the active state.\<close>

definition ended_in :: "sessions \<Rightarrow> ustr \<Rightarrow> bool" where
  "ended_in S sid \<longleftrightarrow> (\<exists>q. S sid = Some q \<and> \<not> is_active_state (vs_metadata q))"

lemma complete_session_ends:
  assumes "complete_session E sid reason s = (Inr u, s')"
  shows "ended_in (so_sessions s') sid"
proof -
  from assms obtain q m0 t m1 m2 s1 s2 where
    m2: "bind_r (close_current_segment t reason (terminal_fields CompletedState reason PNone PNone t m0)) (\<lambda>m2.
          bind_r (account_storage E q m2) (\<lambda>m3. bind_r (require_metadata_capacity E m3) (\<lambda>_. Inr m3))) = Inr m2"
    and s': "so_sessions s' sid = Some (q\<lparr>vs_metadata := m2\<rparr>)"
    unfolding complete_session_def terminalize_session_def Let_def
    by (auto elim!: bind_s_success simp: lift_s_success raise_s_def next_step_def put_session_def return_s_def
        split: if_splits)
  from m2 have "dict_get ''state'' m2 = str_val ''completed''"
    by (auto simp: bind_r_eq_Inr close_current_segment_def account_storage_def require_metadata_capacity_def terminal_fields_def
        Let_def split: if_splits pyval.splits)
  with s' show ?thesis by (simp add: ended_in_def is_active_state_def str_val_def)
qed

lemma load_metadata_success:
  assumes "load_metadata sid s = (Inr m, s')"
  shows "s' = s \<and> (\<exists>q. so_sessions s sid = Some q \<and> vs_metadata q = m)"
  using assms unfolding load_metadata_def load_session_def
  by (auto elim!: bind_s_success simp: lift_s_success return_s_def split: option.splits)

text \<open>
  C36: Closing comes to an end, whatever fails on the way: the last step of \<open>close\<close> leaves the recorder closed without a source; the
  session it owned has ended, unless an exception is reported and kept; the ingesting thread, which closing has told to
  stop, does nothing more, and closing again has no effect and reports the same exception.
\<close>

theorem close_ends_recorder:
  assumes "rc_closing r" and "close_finish n E x r = (y, r')"
  shows "rc_closed r' \<and> rc_state r' = RecClosed \<and> rc_source r' = None
    \<and> (case y of Inr _ \<Rightarrow> rc_close_error r' = None \<and> ended_in (rec_sessions r') (rc_handle r') | Inl e \<Rightarrow> rc_close_error r' = Some e)
    \<and> ingest m E' outcome b r' = (Inr False, r')
    \<and> close_begin r' = (case y of Inr _ \<Rightarrow> Inr False | Inl e \<Rightarrow> Inl e, r')"
proof -
  let ?work = "bind_s (flush_line_state n E) (\<lambda>_.
        bind_s (with_r (\<lambda>r. in_store (load_metadata (rc_handle r)))) (\<lambda>m.
          when_r (is_active_state m) (with_r (\<lambda>r. in_store (complete_session E (rc_handle r) (lit ''service_shutdown''))))))"
  obtain z r1 where w: "?work r = (z, r1)" by (cases "?work r")
  have f: "framed ?work" by (intro framed_intros framed_flush)
  from f w assms(1) have closing: "rc_closing r1" by (auto simp: framed_def frame_of_def)
  let ?error = "case x of Some e \<Rightarrow> Some e | None \<Rightarrow> (case z of Inl e \<Rightarrow> Some e | Inr _ \<Rightarrow> None)"
  from assms(2) w have r': "r' = disconnected_health (r1\<lparr>rc_source := None, rc_state := RecClosed, rc_closed := True, rc_close_error := ?error\<rparr>)"
    and y: "y = (case ?error of None \<Rightarrow> Inr () | Some e \<Rightarrow> Inl e)"
    by (auto simp: close_finish_def bind_s_def try_s_def upd_r_def Let_def return_s_def raise_s_def split: option.splits sum.splits)
  have ended: "ended_in (rec_sessions r1) (rc_handle r1)" if "z = Inr u" for u
  proof -
    from w [unfolded that] obtain s m x2 where m: "load_metadata (rc_handle s) (rc_store s) = (Inr m, x2)"
      and c: "when_r (is_active_state m) (with_r (\<lambda>r. in_store (complete_session E (rc_handle r) (lit ''service_shutdown''))))
        (s\<lparr>rc_store := x2\<rparr>) = (Inr u, r1)"
      by (auto elim!: bind_s_success simp: with_r_def in_store_def split: prod.splits)
    from load_metadata_success [OF m] obtain q where q: "so_sessions x2 (rc_handle s) = Some q" "vs_metadata q = m" by blast
    show ?thesis
    proof (cases "is_active_state m")
      case True
      with c show ?thesis
        by (auto simp: when_r_def with_r_def in_store_def rec_sessions_def dest!: complete_session_ends split: prod.splits)
    next
      case False
      with c q show ?thesis by (auto simp: when_r_def return_s_def rec_sessions_def ended_in_def)
    qed
  qed
  have same: "rec_sessions r' = rec_sessions r1" "rc_handle r' = rc_handle r1" "rc_closing r'"
    using closing by (simp_all add: r' rec_sessions_def disconnected_health_def)
  have "rc_closed r' \<and> rc_state r' = RecClosed \<and> rc_source r' = None \<and> rc_close_error r' = ?error"
    by (simp add: r' disconnected_health_def)
  with same ended y show ?thesis
    by (cases x; cases z) (simp_all add: ingest_def close_begin_def with_r_def return_s_def raise_s_def)
qed

definition demo_closing :: recorder where
  "demo_closing = (start_recorder demo_store demo_profile demo_snapshot 0 demo_context (make_admission (lit ''s'') 0 False 1))
     \<lparr>rc_closing := True\<rparr>"

lemma demo_complete: "\<exists>s. complete_session demo_env (lit ''s'') (lit ''service_shutdown'') demo_store = (Inr (), s)"
  by (simp add: complete_session_def demo_fault demo_id run demo_env_def demo_store_def demo_get store_defs cong: bind_cong)

theorem close_ends_recorder_witness:
  "\<exists>r'. close_finish 0 demo_env None demo_closing = (Inr (), r') \<and> rc_state r' = RecClosed \<and> ended_in (rec_sessions r') (rc_handle r')"
proof -
  have m: "load_metadata (lit ''s'') demo_store = (Inr (demo_meta (lit ''s'') None), demo_store)"
    by (simp add: load_metadata_def demo_id demo_store_def new_v2_session_def run return_s_def)
  obtain s where c: "complete_session demo_env (lit ''s'') (lit ''service_shutdown'') demo_store = (Inr (), s)"
    using demo_complete by blast
  have f: "flush_all (new_processor None) = Inr (new_processor None, [])"
    by (simp add: flush_all_def new_processor_def dict_keys_def)
  have "\<exists>r'. close_finish 0 demo_env None demo_closing = (Inr (), r')"
    by (simp add: close_finish_def demo_closing_def start_recorder_def make_admission_def Let_def flush_line_state_def f
        bind_s_def with_r_def lift_r_def upd_r_def in_store_def return_s_def try_s_def when_r_def m c
        is_active_state_def demo_get)
  then obtain r' where r': "close_finish 0 demo_env None demo_closing = (Inr (), r')" by blast
  have "rc_closing demo_closing" by (simp add: demo_closing_def)
  from close_ends_recorder [OF this r', of 0 demo_env ReadNothing False] r' show ?thesis by auto
qed

end
