(* ===== verification/Evidence_Tail.thy ===== *)
theory Evidence_Tail
  imports Evidence_Store Json_Roundtrip
begin

text \<open>
  Reading the durable evidence in pages, \<open>session_store/tail.py\<close> and \<open>evidence/tail.py\<close>: a snapshot of the four
  streams of a session is merged by evidence number, and a cursor, which the client holds, says where the next
  page begins.

  A stream file is the list of its records, each of \<open>en_jsonl_size\<close> bytes; the newline that ends it is its only
  one, as \<open>json.dumps\<close> escapes all others. \<open>isprintable\<close> is a parameter. A subscript that fails is \<open>KeyError\<close>.
\<close>

section \<open>Positions and cursors\<close>

record position =
  ps_session :: ustr
  ps_sequence :: nat
  ps_offsets :: "nat list"

definition MAX_EVIDENCE_RESPONSE_BYTES :: nat where
  "MAX_EVIDENCE_RESPONSE_BYTES = 262144"

definition start_position :: "ustr \<Rightarrow> position" where
  "start_position sid = \<lparr>ps_session = sid, ps_sequence = 0, ps_offsets = [0, 0, 0, 0]\<rparr>"

definition validate_evidence_query :: "pyval \<Rightarrow> pyval \<Rightarrow> pyval \<Rightarrow> exc + unit" where
  "validate_evidence_query cursor limit wait_s =
     (if \<not> (case limit of PInt n \<Rightarrow> 1 \<le> n \<and> n \<le> 500 | _ \<Rightarrow> False) then
        Inl (InputValidationError ''evidence limit must be an integer from 1 to 500'')
      else
        bind_r (case wait_s of
                  PInt n \<Rightarrow> if 2 ^ 1024 - 2 ^ 970 \<le> \<bar>n\<bar> then Inl OverflowError else Inr (0 \<le> n \<and> n \<le> 30)
                | PFloat (FFin x) \<Rightarrow> Inr (0 \<le> x \<and> x \<le> 30)
                | _ \<Rightarrow> Inr False) (\<lambda>ok.
          if \<not> ok then Inl (InputValidationError ''evidence wait_s must be finite and from 0 to 30'')
          else if cursor \<noteq> PNone \<and> (case cursor of PStr c \<Rightarrow> c = [] \<or> length c > 2048 | _ \<Rightarrow> True) then
            Inl (InputValidationError ''Invalid evidence cursor'')
          else Inr ()))"

text \<open>The URL-safe alphabet of base64: a decoder still takes the two characters it replaces.\<close>

definition to_urlsafe :: "nat \<Rightarrow> nat" where
  "to_urlsafe c = (if c = of_char (CHR ''+'') then of_char (CHR ''-'') else if c = of_char (CHR ''/'') then of_char (CHR ''_'') else c)"

definition from_urlsafe :: "nat \<Rightarrow> nat" where
  "from_urlsafe c = (if c = of_char (CHR ''-'') then of_char (CHR ''+'') else if c = of_char (CHR ''_'') then of_char (CHR ''/'') else c)"

definition position_values :: "position \<Rightarrow> pyval" where
  "position_values p = PList (PInt 1 # PStr (ps_session p) # PNat (ps_sequence p) # map PNat (ps_offsets p))"

text \<open>Floats, which \<open>json_dumps\<close> does not write, occur in no cursor and no projected record.\<close>

definition compact_json :: "pyval \<Rightarrow> exc + bytes" where
  "compact_json v =
     (case json_dumps v of
        None \<Rightarrow> Inl (ValueError ''not JSON serializable'')
      | Some t \<Rightarrow> (case utf8_encode t of None \<Rightarrow> Inl UnicodeEncodeError | Some b \<Rightarrow> Inr b))"

definition encode_position :: "position \<Rightarrow> exc + ustr" where
  "encode_position p = bind_r (compact_json (position_values p)) (\<lambda>b. Inr (map to_urlsafe (b64encode_str b)))"

fun cursor_number :: "pyval \<Rightarrow> exc + nat" where
  "cursor_number (PInt i) = (if 0 \<le> i \<and> i < 2 ^ 63 then Inr (nat i) else Inl (ValueError ''''))"
| "cursor_number _ = Inl (ValueError '''')"

definition position_of_values :: "pyval \<Rightarrow> exc + position" where
  "position_of_values v =
     (case v of
        PList (version # session # sequence # offsets) \<Rightarrow>
          if length offsets \<noteq> 4 \<or> \<not> py_eq_int version 1 then Inl (ValueError '''')
          else
            bind_r (validate_session_id session) (\<lambda>sid.
            bind_r (map_r cursor_number (sequence # offsets)) (\<lambda>ns.
              Inr \<lparr>ps_session = sid, ps_sequence = hd ns, ps_offsets = tl ns\<rparr>))
      | _ \<Rightarrow> Inl (ValueError ''''))"

text \<open>
  \<open>json.loads\<close> of bytes guesses their encoding and drops a byte order mark. \<open>other\<close> stands for its answer on bytes
  that are not UTF-8 or contain a zero byte, which may be another encoding.
\<close>

definition json_loads_bytes :: "nat \<Rightarrow> (bytes \<Rightarrow> exc + pyval) \<Rightarrow> bytes \<Rightarrow> exc + pyval" where
  "json_loads_bytes depth other b =
     (case utf8_decode b of
        Some t \<Rightarrow> if CHR 0x00 \<in> set b then other b else json_loads depth (if head_is 0xFEFF t then tl t else t)
      | None \<Rightarrow> other b)"

definition decode_cursor :: "nat \<Rightarrow> (bytes \<Rightarrow> exc + pyval) \<Rightarrow> ustr \<Rightarrow> exc + position" where
  "decode_cursor depth other cursor =
     catch_r (\<lambda>e. is_value_error e \<or> (\<exists>s. e = TypeError s)) (\<lambda>_. InputValidationError ''Invalid evidence cursor'')
       (case b64decode (map from_urlsafe cursor) of
          None \<Rightarrow> Inl (ValueError '''')
        | Some b \<Rightarrow> bind_r (json_loads_bytes depth other b) position_of_values)"

section \<open>A snapshot\<close>

record snapshot =
  sp_session :: ustr
  sp_metadata :: pydict
  sp_streams :: "pydict list list"
  sp_lengths :: "nat list"

definition file_size :: "store_env \<Rightarrow> pydict list \<Rightarrow> nat" where
  "file_size E rs = sum_list (map (en_jsonl_size E) rs)"

definition streams_of :: "v2_session \<Rightarrow> pydict list list" where
  "streams_of q = [vs_uart q, vs_operation q, vs_hardware q, vs_connection q]"

definition evidence_snapshot :: "store_env \<Rightarrow> ustr \<Rightarrow> (ustr \<Rightarrow> v2_session option) \<Rightarrow> exc + snapshot" where
  "evidence_snapshot E sid S =
     bind_r (validate_session_id (PStr sid)) (\<lambda>_.
       case S sid of
         None \<Rightarrow> Inl EvidenceCursorExpired
       | Some q \<Rightarrow>
           if \<not> py_eq_int (dict_get ''schema_version'' (vs_metadata q)) 2 then
             Inl (ValueError ''Evidence tail requires schema-v2 sessions'')
           else Inr \<lparr>sp_session = sid, sp_metadata = vs_metadata q, sp_streams = streams_of q,
                     sp_lengths = map (file_size E) (streams_of q)\<rparr>)"

definition next_sequence_of :: "pydict \<Rightarrow> exc + int" where
  "next_sequence_of m =
     (case map_of m (lit ''next_evidence_seq'') of
        None \<Rightarrow> Inl KeyError
      | Some (PInt k) \<Rightarrow> Inr k
      | Some (PBool b) \<Rightarrow> Inr (if b then 1 else 0)
      | Some _ \<Rightarrow> Inl (TypeError ''not comparable with int''))"

definition successor_of :: "pydict \<Rightarrow> exc + ustr option" where
  "successor_of m =
     (case dict_get ''successor_session_id'' m of
        PNone \<Rightarrow> Inr None
      | v \<Rightarrow> bind_r (validate_session_id v) (\<lambda>s. Inr (Some s)))"

definition tail_position :: "snapshot \<Rightarrow> exc + position" where
  "tail_position sn =
     bind_r (next_sequence_of (sp_metadata sn)) (\<lambda>k.
       Inr \<lparr>ps_session = sp_session sn, ps_sequence = nat k, ps_offsets = sp_lengths sn\<rparr>)"

section \<open>The projection of a record\<close>

definition subscript :: "string \<Rightarrow> pydict \<Rightarrow> exc + pyval" where
  "subscript key d = (case map_of d (lit key) of None \<Rightarrow> Inl KeyError | Some v \<Rightarrow> Inr v)"

definition SCALAR_MARKERS :: "string list" where
  "SCALAR_MARKERS =
     [''recorded_at'', ''segment_id'', ''timestamp_us'', ''channel'', ''operation_id'', ''operation_type'', ''attempt_id'',
      ''outcome'', ''status'', ''role'', ''provider'', ''accepted_bytes'', ''byte_length'', ''device_timestamp_us'']"

text \<open>Only scalar markers pass: strings cut to 128 printable characters, integers and booleans.\<close>

definition marker_entry :: "(nat \<Rightarrow> bool) \<Rightarrow> pydict \<Rightarrow> string \<Rightarrow> pydict" where
  "marker_entry printable r key =
     (case dict_get key r of
        PStr s \<Rightarrow> [(lit key, PStr (filter printable (take 128 s)))]
      | PInt i \<Rightarrow> [(lit key, PInt i)]
      | PBool b \<Rightarrow> [(lit key, PBool b)]
      | _ \<Rightarrow> [])"

definition project_data :: "pydict \<Rightarrow> exc + pydict" where
  "project_data r =
     bind_r (subscript ''data_b64'' r) (\<lambda>v.
       case v of
         PStr s \<Rightarrow>
           (case b64decode s of
              None \<Rightarrow> Inl (ValueError ''invalid base64'')
            | Some d \<Rightarrow> Inr [(lit ''data_b64'', v), (lit ''display_text'', PStr (utf8_decode_replace d))])
       | _ \<Rightarrow> Inl (TypeError ''argument should be a bytes-like object or ASCII string''))"

definition record_timestamp :: "pydict \<Rightarrow> pyval \<Rightarrow> exc + pyval" where
  "record_timestamp m segment_id =
     bind_r (subscript ''segments'' m) (\<lambda>v.
       case v of
         PList segments \<Rightarrow>
           bind_r (case segment_id of
                     PInt i \<Rightarrow> Inr (if i < 0 then i + int (length segments) else i)
                   | PBool b \<Rightarrow> Inr (if b then 1 else 0)
                   | _ \<Rightarrow> Inl (TypeError ''list indices must be integers'')) (\<lambda>i.
             if i < 0 \<or> int (length segments) \<le> i then Inl KeyError
             else (case segments ! nat i of PDict s \<Rightarrow> subscript ''timestamp'' s | _ \<Rightarrow> Inl (TypeError ''not subscriptable'')))
       | _ \<Rightarrow> Inl (TypeError ''not subscriptable''))"

definition project_place :: "pydict \<Rightarrow> pydict \<Rightarrow> exc + pydict" where
  "project_place m r =
     bind_r (subscript ''raw_offset_start'' r) (\<lambda>a.
     bind_r (subscript ''raw_offset_end'' r) (\<lambda>b.
     bind_r (subscript ''segment_id'' r) (\<lambda>i.
     bind_r (record_timestamp m i) (\<lambda>t.
       Inr [(lit ''raw_offset_start'', a), (lit ''raw_offset_end'', b), (lit ''timestamp'', t)]))))"

definition project_record :: "(nat \<Rightarrow> bool) \<Rightarrow> snapshot \<Rightarrow> pydict \<Rightarrow> exc + pydict" where
  "project_record printable sn r =
     bind_r (subscript ''evidence_seq'' r) (\<lambda>seq.
     bind_r (subscript ''type'' r) (\<lambda>ty.
     bind_r (if ty \<in> {str_val ''uart_rx'', str_val ''uart_tx_attempt''} then project_data r else Inr []) (\<lambda>data.
     bind_r (if ty = str_val ''uart_rx'' then project_place (sp_metadata sn) r else Inr []) (\<lambda>place.
       Inr ([(lit ''session_id'', PStr (sp_session sn)), (lit ''evidence_seq'', seq), (lit ''type'', ty)]
            @ concat (map (marker_entry printable r) SCALAR_MARKERS) @ data @ place)))))"

section \<open>The merge of the streams\<close>

text \<open>The records from an offset on, if the offset is one at which a record begins or the file ends.\<close>

fun seek :: "store_env \<Rightarrow> nat \<Rightarrow> pydict list \<Rightarrow> pydict list option" where
  "seek E k [] = (if k = 0 then Some [] else None)"
| "seek E k (r # rs) =
     (if k = 0 then Some (r # rs) else if k < en_jsonl_size E r then None else seek E (k - en_jsonl_size E r) rs)"

text \<open>An open stream: what is unread, its place in the file and the committed length of the file.\<close>

record open_stream =
  os_rest :: "pydict list"
  os_place :: nat
  os_length :: nat

record heap_entry =
  he_sequence :: int
  he_index :: nat
  he_record :: pydict
  he_end :: nat

definition heap_less :: "heap_entry \<Rightarrow> heap_entry \<Rightarrow> bool" where
  "heap_less a b \<longleftrightarrow> he_sequence a < he_sequence b \<or> he_sequence a = he_sequence b \<and> he_index a < he_index b"

text \<open>The heap of \<open>heapq\<close> as a sorted list: its first element is the smallest.\<close>

fun heap_push :: "heap_entry \<Rightarrow> heap_entry list \<Rightarrow> heap_entry list" where
  "heap_push e [] = [e]"
| "heap_push e (x # xs) = (if heap_less e x then e # x # xs else x # heap_push e xs)"

definition read_line :: "store_env \<Rightarrow> open_stream \<Rightarrow> exc + (pydict \<times> open_stream)" where
  "read_line E st =
     (case os_rest st of
        [] \<Rightarrow> Inl (ValueError ''Invalid evidence cursor or incomplete primary evidence'')
      | r # rest \<Rightarrow>
          let n = en_jsonl_size E r in
          if os_length st < os_place st + min n (MAX_V2_JSONL_RECORD_BYTES + 1) \<or> n > MAX_V2_JSONL_RECORD_BYTES + 1 then
            Inl (ValueError ''Invalid evidence cursor or incomplete primary evidence'')
          else Inr (r, st\<lparr>os_rest := rest, os_place := os_place st + n\<rparr>))"

record reader =
  rd_streams :: "open_stream list"
  rd_heap :: "heap_entry list"

definition push :: "store_env \<Rightarrow> int \<Rightarrow> nat \<Rightarrow> reader \<Rightarrow> exc + reader" where
  "push E bound i rd =
     (let st = rd_streams rd ! i in
      if os_length st \<le> os_place st then Inr rd
      else
        bind_r (read_line E st) (\<lambda>(r, st').
          case dict_get ''evidence_seq'' r of
            PInt sequence \<Rightarrow>
              if bound \<le> sequence then Inl (ValueError ''Invalid primary evidence sequence'')
              else
                Inr (rd\<lparr>rd_streams := (rd_streams rd)[i := st'],
                        rd_heap := heap_push \<lparr>he_sequence = sequence, he_index = i, he_record = r, he_end = os_place st'\<rparr>
                                     (rd_heap rd)\<rparr>)
          | _ \<Rightarrow> Inl (ValueError ''Invalid primary evidence sequence'')))"

text \<open>Each stream is opened at its offset and its first record pushed.\<close>

fun open_streams :: "store_env \<Rightarrow> int \<Rightarrow> (nat \<times> pydict list \<times> nat) list \<Rightarrow> reader \<Rightarrow> exc + reader" where
  "open_streams E bound [] rd = Inr rd"
| "open_streams E bound ((offset, records, n) # rest) rd =
     (case seek E offset records of
        None \<Rightarrow> Inl (InputValidationError ''Evidence cursor is not at a record boundary'')
      | Some rs \<Rightarrow>
          bind_r (push E bound (length (rd_streams rd))
                    (rd\<lparr>rd_streams := rd_streams rd @ [\<lparr>os_rest = rs, os_place = offset, os_length = n\<rparr>]\<rparr>))
            (open_streams E bound rest))"

definition gap_error :: exc where
  "gap_error = InputValidationError ''Evidence cursor does not identify a contiguous durable position''"

fun merge_streams ::
  "store_env \<Rightarrow> (nat \<Rightarrow> bool) \<Rightarrow> snapshot \<Rightarrow> int \<Rightarrow> nat \<Rightarrow> position \<Rightarrow> reader \<Rightarrow> exc + ((pydict \<times> position) list)" where
  "merge_streams E printable sn bound limit p rd =
     (case (rd_heap rd, limit) of
        ([], _) \<Rightarrow> if int (ps_sequence p) = bound then Inr [] else Inl gap_error
      | (_, 0) \<Rightarrow> Inr []
      | (e # heap, Suc rest) \<Rightarrow>
          if he_sequence e \<noteq> int (ps_sequence p) then Inl gap_error
          else
            let p' = p\<lparr>ps_sequence := Suc (ps_sequence p), ps_offsets := (ps_offsets p)[he_index e := he_end e]\<rparr> in
            bind_r (project_record printable sn (he_record e)) (\<lambda>d.
            bind_r (push E bound (he_index e) (rd\<lparr>rd_heap := heap\<rparr>)) (\<lambda>rd'.
            bind_r (merge_streams E printable sn bound rest p' rd') (\<lambda>more.
              Inr ((d, p') # more)))))"

definition read_snapshot ::
  "store_env \<Rightarrow> (nat \<Rightarrow> bool) \<Rightarrow> snapshot \<Rightarrow> position \<Rightarrow> nat \<Rightarrow> exc + ((pydict \<times> position) list)" where
  "read_snapshot E printable sn p limit =
     bind_r (next_sequence_of (sp_metadata sn)) (\<lambda>bound.
       if bound < int (ps_sequence p) \<or> \<not> list_all2 (\<le>) (ps_offsets p) (sp_lengths sn) then
         Inl (InputValidationError ''Evidence cursor is beyond the durable tail'')
       else
         bind_r (open_streams E bound (zip (ps_offsets p) (zip (sp_streams sn) (sp_lengths sn)))
                   \<lparr>rd_streams = [], rd_heap = []\<rparr>)
           (merge_streams E printable sn bound limit p))"

section \<open>Pages\<close>

record evidence_page =
  pg_records :: "pydict list"
  pg_next_cursor :: ustr
  pg_omitted_records :: nat

definition page_payload :: "evidence_page \<Rightarrow> pyval" where
  "page_payload pg =
     PDict [(lit ''ok'', PBool True), (lit ''records'', PList (map PDict (pg_records pg))),
            (lit ''next_cursor'', PStr (pg_next_cursor pg)), (lit ''omitted_records'', PNat (pg_omitted_records pg))]"

text \<open>
  The sessions that rollover has chained are read one after the other, until a page is full or the chain ends. An
  attachment, a request without a cursor, only looks for the end. \<open>n\<close> bounds the number of sessions visited.
\<close>

fun gather ::
  "nat \<Rightarrow> store_env \<Rightarrow> (nat \<Rightarrow> bool) \<Rightarrow> (ustr \<Rightarrow> v2_session option) \<Rightarrow> bool \<Rightarrow> nat \<Rightarrow> ustr list \<Rightarrow> position
     \<Rightarrow> (pydict \<times> position) list \<Rightarrow> exc + ((pydict \<times> position) list \<times> position \<times> snapshot)" where
  "gather 0 E printable S attach limit visited p candidates = Inl RecursionError"
| "gather (Suc n) E printable S attach limit visited p candidates =
     (if ps_session p \<in> set visited then Inl (ValueError ''Evidence rollover chain contains a cycle'')
      else
        bind_r (evidence_snapshot E (ps_session p) S) (\<lambda>sn.
        bind_r (if attach then bind_r (tail_position sn) (\<lambda>p'. Inr (p', candidates))
                else bind_r (read_snapshot E printable sn p (limit - length candidates)) (\<lambda>batch.
                  Inr (if batch = [] then p else snd (last batch), candidates @ batch))) (\<lambda>(p', candidates').
        bind_r (successor_of (sp_metadata sn)) (\<lambda>successor.
        bind_r (next_sequence_of (sp_metadata sn)) (\<lambda>k.
          case successor of
            None \<Rightarrow> Inr (candidates', p', sn)
          | Some next \<Rightarrow>
              if int (ps_sequence p') < k then Inr (candidates', p', sn)
              else if length candidates' < limit then
                gather n E printable S attach limit (ps_session p # visited) (start_position next) candidates'
              else Inr (candidates', start_position next, sn))))))"

text \<open>Whole records, as many as the response has room for; the cursor stays before the first one left out.\<close>

fun fit_records ::
  "pydict list \<Rightarrow> nat \<Rightarrow> ustr \<Rightarrow> (pydict \<times> position) list \<Rightarrow> exc + (pydict list \<times> ustr)" where
  "fit_records records used cursor [] = Inr (records, cursor)"
| "fit_records records used cursor ((r, p) # rest) =
     bind_r (encode_position p) (\<lambda>proposed.
     bind_r (compact_json (PDict r)) (\<lambda>b.
     bind_r (compact_json (page_payload \<lparr>pg_records = [], pg_next_cursor = proposed, pg_omitted_records = length rest\<rparr>))
       (\<lambda>envelope.
         if MAX_EVIDENCE_RESPONSE_BYTES < length envelope + (used + length b) + length records then Inr (records, cursor)
         else fit_records (records @ [r]) (used + length b) proposed rest)))"

definition read_evidence_page ::
  "nat \<Rightarrow> store_env \<Rightarrow> (nat \<Rightarrow> bool) \<Rightarrow> nat \<Rightarrow> (bytes \<Rightarrow> exc + pyval) \<Rightarrow> (ustr \<Rightarrow> v2_session option)
     \<Rightarrow> ustr option \<Rightarrow> ustr option \<Rightarrow> nat \<Rightarrow> exc + evidence_page" where
  "read_evidence_page n E printable depth other S cursor tail_session limit =
     (case cursor of
        None \<Rightarrow>
          (case tail_session of
             None \<Rightarrow> Inl (ValueError ''A durable session is required to establish an evidence tail'')
           | Some sid \<Rightarrow>
               bind_r (gather n E printable S True limit [] (start_position sid) []) (\<lambda>(_, p, _).
               bind_r (encode_position p) (\<lambda>c. Inr \<lparr>pg_records = [], pg_next_cursor = c, pg_omitted_records = 0\<rparr>)))
      | Some c \<Rightarrow>
          bind_r (decode_cursor depth other c) (\<lambda>p0.
          bind_r (gather n E printable S False limit [] p0 []) (\<lambda>(candidates, p, sn).
          bind_r (fit_records [] 0 c candidates) (\<lambda>(records, next_cursor).
          bind_r (if candidates \<noteq> [] then Inr next_cursor
                  else if tail_session \<noteq> None \<and> tail_session \<noteq> Some (ps_session p)
                          \<and> dict_get ''state'' (sp_metadata sn) \<noteq> str_val ''active'' then Inl EvidenceCursorExpired
                  else encode_position p) (\<lambda>next.
            Inr \<lparr>pg_records = records, pg_next_cursor = next, pg_omitted_records = length candidates - length records\<rparr>)))))"

end
