(* ===== verification/Tail_Merge.thy ===== *)
theory Tail_Merge
  imports Evidence_Tail Store_Reachable
begin

text \<open>
  What the pages of the evidence tail contain: the merge of the four streams gives the records in the order of their
  numbers, each once, whatever is appended meanwhile.
\<close>

section \<open>A stream at a number\<close>

definition read_upto :: "nat \<Rightarrow> pydict list \<Rightarrow> pydict list" where
  "read_upto s c = takeWhile (\<lambda>r. record_seq r < s) c"

definition unread_from :: "nat \<Rightarrow> pydict list \<Rightarrow> pydict list" where
  "unread_from s c = dropWhile (\<lambda>r. record_seq r < s) c"

lemma read_unread: "read_upto s c @ unread_from s c = c"
  by (simp add: read_upto_def unread_from_def)

definition sized :: "store_env \<Rightarrow> pydict list \<Rightarrow> bool" where
  "sized E rs \<longleftrightarrow> list_all (\<lambda>r. 0 < en_jsonl_size E r \<and> en_jsonl_size E r \<le> MAX_V2_JSONL_RECORD_BYTES) rs"

lemma file_size_simps [simp]:
  "file_size E [] = 0" "file_size E (r # rs) = en_jsonl_size E r + file_size E rs"
  "file_size E (xs @ ys) = file_size E xs + file_size E ys"
  by (simp_all add: file_size_def)

lemma seek_split: "sized E d \<Longrightarrow> seek E (file_size E d) (d @ t) = Some t"
proof (induction d)
  case Nil
  then show ?case by (cases t) simp_all
qed (simp add: sized_def)

lemma stream_sorted_Cons: "stream_sorted (r # rs) \<longleftrightarrow> list_all (\<lambda>x. record_seq r < record_seq x) rs \<and> stream_sorted rs"
  by (auto simp: stream_sorted_def list_all_iff)

text \<open>The record \<open>s\<close> is the first unread one exactly in the stream that has it.\<close>

lemma unread_next:
  assumes "stream_sorted c" and "unread_from s c = r # ts"
  shows "s \<le> record_seq r"
    and "record_seq r = s \<Longrightarrow> read_upto (Suc s) c = read_upto s c @ [r] \<and> unread_from (Suc s) c = ts"
    and "record_seq r \<noteq> s \<Longrightarrow> read_upto (Suc s) c = read_upto s c \<and> unread_from (Suc s) c = unread_from s c"
proof -
  have "s \<le> record_seq r \<and> (record_seq r = s \<longrightarrow> read_upto (Suc s) c = read_upto s c @ [r] \<and> unread_from (Suc s) c = ts)
    \<and> (record_seq r \<noteq> s \<longrightarrow> read_upto (Suc s) c = read_upto s c \<and> unread_from (Suc s) c = unread_from s c)"
    using assms
  proof (induction c)
    case Nil
    then show ?case by (simp add: unread_from_def)
  next
    case (Cons x c)
    show ?case
    proof (cases "record_seq x < s")
      case True
      with Cons show ?thesis by (simp add: unread_from_def read_upto_def stream_sorted_Cons)
    next
      case False
      with Cons.prems have x: "x = r" "c = ts" by (simp_all add: unread_from_def)
      have later: "record_seq r = s \<Longrightarrow> takeWhile (\<lambda>y. record_seq y < Suc s) ts = [] \<and> dropWhile (\<lambda>y. record_seq y < Suc s) ts = ts"
        using Cons.prems(1) x by (cases ts) (auto simp: stream_sorted_Cons)
      from False x later show ?thesis by (auto simp: unread_from_def read_upto_def)
    qed
  qed
  then show "s \<le> record_seq r"
    "record_seq r = s \<Longrightarrow> read_upto (Suc s) c = read_upto s c @ [r] \<and> unread_from (Suc s) c = ts"
    "record_seq r \<noteq> s \<Longrightarrow> read_upto (Suc s) c = read_upto s c \<and> unread_from (Suc s) c = unread_from s c"
    by blast+
qed

lemma unread_Nil: "unread_from s c = [] \<Longrightarrow> read_upto (Suc s) c = read_upto s c \<and> unread_from (Suc s) c = []"
  by (auto simp: unread_from_def read_upto_def dropWhile_eq_Nil_conv) (metis takeWhile_eq_all_conv less_SucI)

lemma unread_0: "read_upto 0 c = []" "unread_from 0 c = c"
  by (cases c; simp add: read_upto_def unread_from_def)+

text \<open>What is appended to a stream later has larger numbers and does not change what was read.\<close>

lemma read_upto_grown: "list_all (\<lambda>r. s \<le> record_seq r) x \<Longrightarrow> read_upto s (c @ x) = read_upto s c"
proof (induction c)
  case Nil
  then show ?case by (cases x) (simp_all add: read_upto_def)
qed (simp add: read_upto_def)

section \<open>The heap\<close>

lemma heap_push_set [simp]: "set (heap_push e h) = insert e (set h)"
  by (induction h) auto

lemma heap_less_trans: "heap_less a b \<Longrightarrow> heap_less b c \<Longrightarrow> heap_less a c"
  by (auto simp: heap_less_def)

lemma heap_push_sorted:
  "sorted_wrt heap_less h \<Longrightarrow> he_index e \<notin> he_index ` set h \<Longrightarrow> sorted_wrt heap_less (heap_push e h)"
proof (induction h)
  case (Cons x h)
  have x: "heap_less e x \<or> heap_less x e" using Cons.prems(2) by (auto simp: heap_less_def)
  from Cons show ?case using x by (auto intro: heap_less_trans)
qed simp

lemma heap_push_index [simp]: "mset (map he_index (heap_push e h)) = add_mset (he_index e) (mset (map he_index h))"
  by (induction h) auto

section \<open>The merge\<close>

text \<open>
  The committed part of each stream is in \<open>cs\<close>, what has been appended since the snapshot in \<open>xs\<close>. The state of the
  reader when the number \<open>s\<close> is next:
\<close>

definition unread_at :: "store_env \<Rightarrow> nat \<Rightarrow> pydict list \<Rightarrow> pydict list \<Rightarrow> open_stream \<Rightarrow> bool" where
  "unread_at E s c x st \<longleftrightarrow>
     os_rest st = unread_from s c @ x \<and> os_place st = file_size E (read_upto s c) \<and> os_length st = file_size E c"

definition pushed_at :: "store_env \<Rightarrow> nat \<Rightarrow> pydict list \<Rightarrow> pydict list \<Rightarrow> open_stream \<Rightarrow> bool" where
  "pushed_at E s c x st \<longleftrightarrow>
     (if unread_from s c = [] then unread_at E s c x st
      else os_rest st = tl (unread_from s c) @ x \<and> os_place st = file_size E (read_upto s c @ [hd (unread_from s c)])
        \<and> os_length st = file_size E c)"

definition entry_at :: "store_env \<Rightarrow> nat \<Rightarrow> pydict list \<Rightarrow> nat \<Rightarrow> heap_entry" where
  "entry_at E s c i =
     \<lparr>he_sequence = int (record_seq (hd (unread_from s c))), he_index = i, he_record = hd (unread_from s c),
      he_end = file_size E (read_upto s c @ [hd (unread_from s c)])\<rparr>"

definition entries_at :: "store_env \<Rightarrow> nat \<Rightarrow> pydict list list \<Rightarrow> heap_entry set" where
  "entries_at E s cs = {entry_at E s (cs ! i) i | i. i < length cs \<and> unread_from s (cs ! i) \<noteq> []}"

definition reader_at :: "store_env \<Rightarrow> nat \<Rightarrow> pydict list list \<Rightarrow> pydict list list \<Rightarrow> reader \<Rightarrow> bool" where
  "reader_at E s cs xs rd \<longleftrightarrow>
     length xs = length cs \<and> length (rd_streams rd) = length cs
     \<and> (\<forall>i < length cs. pushed_at E s (cs ! i) (xs ! i) (rd_streams rd ! i))
     \<and> sorted_wrt heap_less (rd_heap rd) \<and> set (rd_heap rd) = entries_at E s cs"

definition fits_bound :: "store_env \<Rightarrow> nat \<Rightarrow> pydict list \<Rightarrow> bool" where
  "fits_bound E n c \<longleftrightarrow>
     sized E c \<and> stream_sorted c
     \<and> list_all (\<lambda>r. dict_get ''evidence_seq'' r = PNat (record_seq r) \<and> record_seq r < n) c"

lemma push_exact:
  assumes c: "fits_bound E n c" and st: "unread_at E s c x (rd_streams rd ! i)"
  shows "push E (int n) i rd = Inr
    (if unread_from s c = [] then rd
     else rd\<lparr>rd_streams := (rd_streams rd)[i := (rd_streams rd ! i)\<lparr>os_rest := tl (unread_from s c) @ x,
               os_place := file_size E (read_upto s c @ [hd (unread_from s c)])\<rparr>],
             rd_heap := heap_push (entry_at E s c i) (rd_heap rd)\<rparr>)"
proof (cases "unread_from s c")
  case Nil
  with st read_unread [of s c] show ?thesis by (simp add: push_def unread_at_def Let_def)
next
  case (Cons r ts)
  then have mem: "r \<in> set c" using read_unread [of s c] by (metis in_set_conv_decomp)
  from c mem have r: "0 < en_jsonl_size E r" "en_jsonl_size E r \<le> MAX_V2_JSONL_RECORD_BYTES"
    "dict_get ''evidence_seq'' r = PNat (record_seq r)" "record_seq r < n"
    by (auto simp: fits_bound_def sized_def list_all_iff)
  have size: "file_size E c = file_size E (read_upto s c) + en_jsonl_size E r + file_size E ts"
    using read_unread [of s c, symmetric] Cons by (metis add.assoc file_size_simps(2,3))
  from Cons st r size show ?thesis
    by (simp add: push_def unread_at_def Let_def read_line_def entry_at_def)
qed

definition numbered_streams :: "store_env \<Rightarrow> nat \<Rightarrow> pydict list list \<Rightarrow> bool" where
  "numbered_streams E n cs \<longleftrightarrow>
     (\<forall>c \<in> set cs. fits_bound E n c)
     \<and> distinct (map record_seq (concat cs)) \<and> set (map record_seq (concat cs)) = {..<n}"

lemma distinct_concat_index:
  "distinct (concat ls) \<Longrightarrow> i < length ls \<Longrightarrow> j < length ls \<Longrightarrow> x \<in> set (ls ! i) \<Longrightarrow> x \<in> set (ls ! j) \<Longrightarrow> i = j"
proof (induction ls arbitrary: i j)
  case (Cons l ls)
  have out: "x \<notin> set l" if "x \<in> set (ls ! k)" "k < length ls" for k
    using Cons.prems(1) that by (auto dest: nth_mem)
  show ?case
  proof (cases i; cases j)
    fix k m assume "i = Suc k" "j = Suc m"
    with Cons.IH [of k m] Cons.prems show ?thesis by simp
  qed (use Cons.prems out in auto)
qed simp

text \<open>The number \<open>s\<close> is in exactly one stream, where it is the next one; in the others the next is larger.\<close>

lemma next_stream:
  assumes "numbered_streams E n cs" and "s < n"
  obtains i r ts where "i < length cs" "unread_from s (cs ! i) = r # ts" "record_seq r = s"
    "\<And>j. j < length cs \<Longrightarrow> j \<noteq> i \<Longrightarrow> unread_from s (cs ! j) \<noteq> [] \<Longrightarrow> s < record_seq (hd (unread_from s (cs ! j)))"
proof -
  from assms have "s \<in> set (map record_seq (concat cs))" by (simp add: numbered_streams_def)
  then obtain i x where i: "i < length cs" "x \<in> set (cs ! i)" "record_seq x = s"
    by (auto simp: in_set_conv_nth [of _ cs])
  have sorted: "stream_sorted (cs ! j)" if "j < length cs" for j
    using assms(1) that by (simp add: numbered_streams_def fits_bound_def)
  have "x \<notin> set (read_upto s (cs ! i))" using i(3) by (auto simp: read_upto_def dest: set_takeWhileD)
  then have x: "x \<in> set (unread_from s (cs ! i))" using i(2) read_unread [of s "cs ! i"] by (metis Un_iff set_append)
  then obtain r ts where u: "unread_from s (cs ! i) = r # ts" by (cases "unread_from s (cs ! i)") auto
  have "stream_sorted (r # ts)"
    using sorted [OF i(1)] read_unread [of s "cs ! i"] u
    by (metis map_append sorted_wrt_append stream_sorted_def)
  with x u i(3) unread_next(1) [OF sorted [OF i(1)] u] have r: "record_seq r = s"
    by (auto simp: stream_sorted_Cons list_all_iff)
  have other: "s < record_seq (hd (unread_from s (cs ! j)))" if j: "j < length cs" "j \<noteq> i" "unread_from s (cs ! j) \<noteq> []" for j
  proof -
    obtain y ys where y: "unread_from s (cs ! j) = y # ys" using j(3) by (cases "unread_from s (cs ! j)") auto
    then have "y \<in> set (cs ! j)" using read_unread [of s "cs ! j"] by (metis in_set_conv_decomp)
    moreover have "distinct (concat (map (map record_seq) cs))" using assms(1) by (simp add: numbered_streams_def map_concat)
    ultimately have "record_seq y \<noteq> s"
      using distinct_concat_index [of "map (map record_seq) cs" j i s] i j by auto (metis image_eqI)
    with unread_next(1) [OF sorted [OF j(1)] y] y show ?thesis by simp
  qed
  from i(1) u r other show thesis by (rule that)
qed

lemma heap_distinct: "sorted_wrt heap_less h \<Longrightarrow> distinct h"
  by (induction h) (auto simp: heap_less_def)

lemma entry_same:
  "e \<in> entries_at E s cs \<Longrightarrow> e' \<in> entries_at E s cs \<Longrightarrow> he_index e = he_index e' \<Longrightarrow> e = e'"
  by (auto simp: entries_at_def entry_at_def)

lemma reader_step:
  assumes at: "reader_at E s cs xs rd" and num: "numbered_streams E n cs" and s: "s < n"
  obtains i r heap rd' where "i < length cs" "r \<in> set (cs ! i)" "record_seq r = s"
    "rd_heap rd = \<lparr>he_sequence = int s, he_index = i, he_record = r, he_end = file_size E (read_upto (Suc s) (cs ! i))\<rparr> # heap"
    "push E (int n) i (rd\<lparr>rd_heap := heap\<rparr>) = Inr rd'" "reader_at E (Suc s) cs xs rd'"
    "\<And>j. j < length cs \<Longrightarrow> j \<noteq> i \<Longrightarrow> read_upto (Suc s) (cs ! j) = read_upto s (cs ! j)"
proof -
  from next_stream [OF num s] obtain i r ts where i: "i < length cs" "unread_from s (cs ! i) = r # ts" "record_seq r = s"
    and other: "\<And>j. j < length cs \<Longrightarrow> j \<noteq> i \<Longrightarrow> unread_from s (cs ! j) \<noteq> [] \<Longrightarrow> s < record_seq (hd (unread_from s (cs ! j)))"
    by blast
  have ok: "fits_bound E n (cs ! j)" if "j < length cs" for j using num that by (simp add: numbered_streams_def)
  then have sorted: "stream_sorted (cs ! j)" if "j < length cs" for j using that by (simp add: fits_bound_def)
  note now = unread_next(2) [OF sorted [OF i(1)] i(2,3)]
  have keep: "read_upto (Suc s) (cs ! j) = read_upto s (cs ! j) \<and> unread_from (Suc s) (cs ! j) = unread_from s (cs ! j)"
    if j: "j < length cs" "j \<noteq> i" for j
  proof (cases "unread_from s (cs ! j)")
    case Nil
    then show ?thesis by (simp add: unread_Nil)
  next
    case (Cons y ys)
    with other [OF j] have "record_seq y \<noteq> s" by simp
    with unread_next(3) [OF sorted [OF j(1)] Cons] show ?thesis by simp
  qed
  let ?e = "entry_at E s (cs ! i) i"
  have e: "?e = \<lparr>he_sequence = int s, he_index = i, he_record = r, he_end = file_size E (read_upto (Suc s) (cs ! i))\<rparr>"
    using i now by (simp add: entry_at_def)
  have mem: "?e \<in> set (rd_heap rd)" using at i(1,2) by (auto simp: reader_at_def entries_at_def)
  then obtain e heap where h: "rd_heap rd = e # heap" by (cases "rd_heap rd") auto
  from at h have hs: "sorted_wrt heap_less (e # heap)" "set (e # heap) = entries_at E s cs" by (simp_all add: reader_at_def)
  have "e = ?e"
  proof (rule ccontr)
    assume "e \<noteq> ?e"
    with mem h hs(1) have less: "heap_less e ?e" by auto
    from hs(2) obtain j where j: "j < length cs" "unread_from s (cs ! j) \<noteq> []" "e = entry_at E s (cs ! j) j"
      by (auto simp: entries_at_def)
    with \<open>e \<noteq> ?e\<close> have "j \<noteq> i" by auto
    with other [OF j(1) _ j(2)] less j(3) i show False by (simp add: entry_at_def heap_less_def)
  qed
  with hs heap_distinct [OF hs(1)] have set_heap: "set heap = entries_at E s cs - {?e}" by auto
  have free: "i \<notin> he_index ` set heap"
  proof
    assume "i \<in> he_index ` set heap"
    then obtain x where x: "x \<in> set heap" "he_index x = i" by blast
    have "?e \<in> entries_at E s cs" "x \<in> entries_at E s cs" "he_index ?e = i" using mem h hs(2) x(1) by (auto simp: entry_at_def)
    with entry_same x(2) have "x = ?e" by metis
    with x(1) set_heap show False by simp
  qed
  let ?st = "rd_streams rd ! i"
  from at i have "unread_at E (Suc s) (cs ! i) (xs ! i) ?st"
    using now by (auto simp: reader_at_def pushed_at_def unread_at_def)
  note push = push_exact [of E n "cs ! i" "Suc s" "xs ! i" "rd\<lparr>rd_heap := heap\<rparr>" i, OF ok [OF i(1)]]
  define rd' where "rd' = (if ts = [] then rd\<lparr>rd_heap := heap\<rparr>
     else rd\<lparr>rd_streams := (rd_streams rd)[i := ?st\<lparr>os_rest := tl ts @ xs ! i, os_place := file_size E (read_upto (Suc s) (cs ! i) @ [hd ts])\<rparr>],
             rd_heap := heap_push (entry_at E (Suc s) (cs ! i) i) heap\<rparr>)"
  have pushed: "push E (int n) i (rd\<lparr>rd_heap := heap\<rparr>) = Inr rd'"
    using push \<open>unread_at E (Suc s) (cs ! i) (xs ! i) ?st\<close> now by (simp add: rd'_def)
  have streams: "pushed_at E (Suc s) (cs ! j) (xs ! j) (rd_streams rd' ! j)" if j: "j < length cs" for j
  proof (cases "j = i")
    case True
    with \<open>unread_at E (Suc s) (cs ! i) (xs ! i) ?st\<close> now i(1) at show ?thesis
      by (auto simp: rd'_def pushed_at_def unread_at_def reader_at_def)
  next
    case False
    then have "rd_streams rd' ! j = rd_streams rd ! j" by (simp add: rd'_def)
    moreover have "pushed_at E s (cs ! j) (xs ! j) (rd_streams rd ! j)" using at j by (simp add: reader_at_def)
    ultimately show ?thesis using keep [OF j False] by (auto simp: pushed_at_def unread_at_def split: if_splits)
  qed
  have same: "entry_at E (Suc s) (cs ! j) j = entry_at E s (cs ! j) j" if "j < length cs" "j \<noteq> i" for j
    using keep [OF that] by (simp add: entry_at_def)
  have ne: "entry_at E s (cs ! j) j \<noteq> ?e" if "j \<noteq> i" for j using that by (simp add: entry_at_def)
  have old: "set heap = {entry_at E (Suc s) (cs ! j) j | j. j < length cs \<and> j \<noteq> i \<and> unread_from (Suc s) (cs ! j) \<noteq> []}"
    (is "_ = ?old")
  proof -
    have "set heap = {entry_at E s (cs ! j) j | j. j < length cs \<and> j \<noteq> i \<and> unread_from s (cs ! j) \<noteq> []}"
      unfolding set_heap using ne by (auto simp: entries_at_def)
    also have "\<dots> = ?old" using keep same by (intro Collect_cong iff_exI) auto
    finally show ?thesis .
  qed
  have entries: "set (rd_heap rd') = entries_at E (Suc s) cs"
    unfolding entries_at_def using old now i(1) by (auto simp: rd'_def)
  have sorted': "sorted_wrt heap_less (rd_heap rd')"
    using hs(1) free by (auto simp: rd'_def entry_at_def intro: heap_push_sorted)
  have "reader_at E (Suc s) cs xs rd'"
    using streams entries sorted' at by (simp add: reader_at_def) (simp add: rd'_def)
  moreover have "r \<in> set (cs ! i)" using i(2) read_unread [of s "cs ! i"] by (metis in_set_conv_decomp)
  ultimately show thesis using that i(1,3) h \<open>e = ?e\<close> e pushed keep by simp
qed

text \<open>The record with a number, and the position before it.\<close>

definition record_at :: "pydict list list \<Rightarrow> nat \<Rightarrow> pydict" where
  "record_at cs k = hd (filter (\<lambda>r. record_seq r = k) (concat cs))"

definition place_at :: "store_env \<Rightarrow> ustr \<Rightarrow> pydict list list \<Rightarrow> nat \<Rightarrow> position" where
  "place_at E sid cs k = \<lparr>ps_session = sid, ps_sequence = k, ps_offsets = map (\<lambda>c. file_size E (read_upto k c)) cs\<rparr>"

lemma record_at_unique:
  assumes "distinct (map record_seq rs)" and "r \<in> set rs"
  shows "hd (filter (\<lambda>x. record_seq x = record_seq r) rs) = r"
  using assms
proof (induction rs)
  case (Cons a rs)
  then show ?case by (cases "record_seq a = record_seq r") (auto dest: imageI [of r _ record_seq])
qed simp

lemma upt_step: "s < m \<Longrightarrow> [s..<m] = s # [Suc s..<m]"
  by (simp add: upt_conv_Cons)

lemma merge_exact:
  assumes num: "numbered_streams E n cs"
  shows "reader_at E s cs xs rd \<Longrightarrow> s \<le> n \<Longrightarrow>
    merge_streams E printable sn (int n) limit (place_at E sid cs s) rd =
      bind_r (map_r (project_record printable sn) (map (record_at cs) [s..<min n (s + limit)])) (\<lambda>ds.
        Inr (zip ds (map (place_at E sid cs) [Suc s..<Suc (min n (s + limit))])))"
proof (induction limit arbitrary: s rd)
  case 0
  show ?case
  proof (cases "rd_heap rd")
    case Nil
    have "s = n"
    proof (rule ccontr)
      assume "s \<noteq> n"
      with "0.prems"(2) have "s < n" by simp
      with reader_step [OF "0.prems"(1) num] Nil show False by auto
    qed
    with Nil show ?thesis by (simp add: place_at_def)
  next
    case (Cons e h)
    with "0.prems"(2) show ?thesis by simp
  qed
next
  case (Suc limit)
  show ?case
  proof (cases "s < n")
    case False
    with Suc.prems(2) have n: "s = n" by simp
    have "unread_from n c = []" if "c \<in> set cs" for c
      using num that by (auto simp: numbered_streams_def fits_bound_def unread_from_def list_all_iff)
    then have "entries_at E s cs = {}" by (auto simp: entries_at_def n)
    with Suc.prems(1) have "rd_heap rd = []" by (simp add: reader_at_def)
    with n show ?thesis by (simp add: place_at_def)
  next
    case True
    from reader_step [OF Suc.prems(1) num True] obtain i r heap rd' where i: "i < length cs" "r \<in> set (cs ! i)" "record_seq r = s"
      and h: "rd_heap rd = \<lparr>he_sequence = int s, he_index = i, he_record = r, he_end = file_size E (read_upto (Suc s) (cs ! i))\<rparr> # heap"
      and push: "push E (int n) i (rd\<lparr>rd_heap := heap\<rparr>) = Inr rd'" and at: "reader_at E (Suc s) cs xs rd'"
      and keep: "\<And>j. j < length cs \<Longrightarrow> j \<noteq> i \<Longrightarrow> read_upto (Suc s) (cs ! j) = read_upto s (cs ! j)"
      by blast
    have "r \<in> set (concat cs)" using i(1,2) by auto
    then have r: "record_at cs s = r"
      using record_at_unique [of "concat cs" r] num i by (auto simp: record_at_def numbered_streams_def)
    have p: "(place_at E sid cs s)\<lparr>ps_sequence := Suc s,
        ps_offsets := (ps_offsets (place_at E sid cs s))[i := file_size E (read_upto (Suc s) (cs ! i))]\<rparr> = place_at E sid cs (Suc s)"
      using i(1) keep by (auto simp: place_at_def nth_list_update intro!: nth_equalityI)
    have le: "min n (s + Suc limit) = min n (Suc s + limit)" "s < min n (Suc s + limit)" using True by simp_all
    have m: "[s..<min n (s + Suc limit)] = s # [Suc s..<min n (Suc s + limit)]"
      "[Suc s..<Suc (min n (s + Suc limit))] = Suc s # [Suc (Suc s)..<Suc (min n (Suc s + limit))]"
      unfolding le(1) by (rule upt_step, use le(2) in simp)+
    note rest = Suc.IH [OF at Suc_leI [OF True]]
    have seq: "ps_sequence (place_at E sid cs s) = s" by (simp add: place_at_def)
    obtain A B where AB: "[Suc s..<min n (Suc s + limit)] = A" "[Suc (Suc s)..<Suc (min n (Suc s + limit))] = B" by blast
    show ?thesis
      unfolding m AB
      by (subst merge_streams.simps)
         (simp add: h seq Let_def p push rest [unfolded AB] r bind_r_def del: merge_streams.simps split: sum.split)
  qed
qed

section \<open>Opening\<close>

lemma entries_iff:
  "e \<in> entries_at E s cs \<longleftrightarrow> (\<exists>i < length cs. e = entry_at E s (cs ! i) i \<and> unread_from s (cs ! i) \<noteq> [])"
  by (auto simp: entries_at_def)

lemma entries_snoc:
  "entries_at E s (cs @ [c]) = entries_at E s cs \<union> (if unread_from s c = [] then {} else {entry_at E s c (length cs)})"
proof (rule set_eqI)
  fix e
  have "e \<in> entries_at E s (cs @ [c]) \<longleftrightarrow>
      (\<exists>i < length cs. e = entry_at E s ((cs @ [c]) ! i) i \<and> unread_from s ((cs @ [c]) ! i) \<noteq> [])
      \<or> e = entry_at E s c (length cs) \<and> unread_from s c \<noteq> []"
    unfolding entries_iff by (simp add: less_Suc_eq) (metis nth_append_length)
  also have "(\<exists>i < length cs. e = entry_at E s ((cs @ [c]) ! i) i \<and> unread_from s ((cs @ [c]) ! i) \<noteq> []) \<longleftrightarrow> e \<in> entries_at E s cs"
    unfolding entries_iff by (intro iff_exI conj_cong refl) (simp_all add: nth_append)
  finally show "e \<in> entries_at E s (cs @ [c])
      \<longleftrightarrow> e \<in> entries_at E s cs \<union> (if unread_from s c = [] then {} else {entry_at E s c (length cs)})"
    by simp
qed

lemma pushed_unread: "unread_from s c = [] \<Longrightarrow> unread_at E s c x st \<Longrightarrow> pushed_at E s c x st"
  by (simp add: pushed_at_def)

lemma open_exact:
  assumes "reader_at E s cs xs rd" and "length ys = length ds" and "\<forall>c \<in> set ds. fits_bound E n c"
  shows "\<exists>rd'. open_streams E (int n) (zip (map (\<lambda>c. file_size E (read_upto s c)) ds)
        (zip (map2 (@) ds ys) (map (file_size E) ds))) rd = Inr rd' \<and> reader_at E s (cs @ ds) (xs @ ys) rd'"
  using assms
proof (induction ds arbitrary: ys cs xs rd)
  case Nil
  then show ?case by simp
next
  case (Cons c ds)
  then obtain y ys' where ys: "ys = y # ys'" "length ys' = length ds" by (cases ys) auto
  from Cons.prems(3) have c: "fits_bound E n c" and ds: "\<forall>c \<in> set ds. fits_bound E n c" by simp_all
  let ?st = "\<lparr>os_rest = unread_from s c @ y, os_place = file_size E (read_upto s c), os_length = file_size E c\<rparr>"
  let ?rd = "rd\<lparr>rd_streams := rd_streams rd @ [?st]\<rparr>"
  have n: "length (rd_streams rd) = length cs" "length xs = length cs" using Cons.prems(1) by (simp_all add: reader_at_def)
  have "sized E (read_upto s c)" using c by (auto simp: fits_bound_def sized_def read_upto_def list_all_iff dest: set_takeWhileD)
  then have seek: "seek E (file_size E (read_upto s c)) (c @ y) = Some (unread_from s c @ y)"
    using seek_split [of E "read_upto s c" "unread_from s c @ y"] read_unread [of s c] by (metis append.assoc)
  have un: "unread_at E s c y (rd_streams ?rd ! length cs)" by (simp add: unread_at_def n nth_append)
  note push = push_exact [OF c un]
  define rd' where "rd' = (if unread_from s c = [] then ?rd
     else ?rd\<lparr>rd_streams := (rd_streams ?rd)[length cs := ?st\<lparr>os_rest := tl (unread_from s c) @ y,
             os_place := file_size E (read_upto s c @ [hd (unread_from s c)])\<rparr>],
           rd_heap := heap_push (entry_at E s c (length cs)) (rd_heap rd)\<rparr>)"
  have pushed: "push E (int n) (length (rd_streams rd)) ?rd = Inr rd'"
    unfolding n(1) push by (simp add: rd'_def n nth_append)
  have old: "pushed_at E s (cs ! j) (xs ! j) (rd_streams rd ! j)" if "j < length cs" for j
    using Cons.prems(1) that by (simp add: reader_at_def)
  have streams: "pushed_at E s ((cs @ [c]) ! j) ((xs @ [y]) ! j) (rd_streams rd' ! j)" if j: "j < Suc (length cs)" for j
  proof (cases "j = length cs")
    case True
    then show ?thesis using n by (auto simp: rd'_def pushed_at_def unread_at_def nth_append)
  next
    case False
    with j have "j < length cs" by simp
    with old n show ?thesis by (auto simp: rd'_def nth_append)
  qed
  have h: "sorted_wrt heap_less (rd_heap rd)" "set (rd_heap rd) = entries_at E s cs"
    using Cons.prems(1) by (simp_all add: reader_at_def)
  have free: "length cs \<notin> he_index ` set (rd_heap rd)"
    unfolding h(2) entries_at_def by (auto simp: entry_at_def)
  have index: "he_index (entry_at E s c (length cs)) = length cs" by (simp add: entry_at_def)
  have "sorted_wrt heap_less (rd_heap rd') \<and> set (rd_heap rd') = entries_at E s (cs @ [c])"
  proof (cases "unread_from s c = []")
    case True
    with h show ?thesis by (simp add: rd'_def entries_snoc)
  next
    case False
    then have heap: "rd_heap rd' = heap_push (entry_at E s c (length cs)) (rd_heap rd)" by (simp add: rd'_def)
    have "sorted_wrt heap_less (rd_heap rd')" unfolding heap by (rule heap_push_sorted [OF h(1)]) (simp only: index free not_False_eq_True)
    moreover have "set (rd_heap rd') = entries_at E s (cs @ [c])"
      unfolding heap entries_snoc heap_push_set h(2) using False by simp
    ultimately show ?thesis ..
  qed
  note heap = this
  have "length (rd_streams rd') = Suc (length cs)" by (simp add: rd'_def n)
  with streams n heap have "reader_at E s (cs @ [c]) (xs @ [y]) rd'" by (simp add: reader_at_def)
  from Cons.IH [OF this ys(2) ds] obtain rd'' where
    "open_streams E (int n) (zip (map (\<lambda>c. file_size E (read_upto s c)) ds) (zip (map2 (@) ds ys') (map (file_size E) ds))) rd' = Inr rd''"
    "reader_at E s (cs @ c # ds) (xs @ y # ys') rd''" by auto
  then show ?case using seek pushed by (simp add: ys(1))
qed

section \<open>The pages of a session\<close>

lemma read_snapshot_exact:
  assumes num: "numbered_streams E n cs" and ys: "length ys = length cs" and k: "k \<le> n"
    and sn: "next_sequence_of (sp_metadata sn) = Inr (int n)" "sp_streams sn = map2 (@) cs ys"
      "sp_lengths sn = map (file_size E) cs"
  shows "read_snapshot E printable sn (place_at E sid cs k) limit =
    bind_r (map_r (project_record printable sn) (map (record_at cs) [k..<min n (k + limit)])) (\<lambda>ds.
      Inr (zip ds (map (place_at E sid cs) [Suc k..<Suc (min n (k + limit))])))"
proof -
  have "file_size E (read_upto k c) \<le> file_size E c" for c
    using read_unread [of k c] by (metis file_size_simps(3) le_add1)
  then have within: "list_all2 (\<le>) (ps_offsets (place_at E sid cs k)) (sp_lengths sn)"
    by (simp add: place_at_def sn(3) list_all2_conv_all_nth)
  have start: "reader_at E k [] [] \<lparr>rd_streams = [], rd_heap = []\<rparr>" by (simp add: reader_at_def entries_at_def)
  have "\<forall>c \<in> set cs. fits_bound E n c" using num by (simp add: numbered_streams_def)
  from open_exact [OF start ys this] obtain rd where rd:
    "open_streams E (int n) (zip (map (\<lambda>c. file_size E (read_upto k c)) cs) (zip (map2 (@) cs ys) (map (file_size E) cs)))
       \<lparr>rd_streams = [], rd_heap = []\<rparr> = Inr rd" "reader_at E k cs ys rd" by auto
  have p: "ps_sequence (place_at E sid cs k) = k" "ps_offsets (place_at E sid cs k) = map (\<lambda>c. file_size E (read_upto k c)) cs"
    by (simp_all add: place_at_def)
  show ?thesis
    unfolding read_snapshot_def sn(1) bind_r_Inr using k within merge_exact [OF num rd(2) k]
    by (simp add: p(1)) (simp add: p(2) sn rd(1))
qed

definition records_sized :: "store_env \<Rightarrow> v2_session \<Rightarrow> bool" where
  "records_sized E q \<longleftrightarrow> sized E (all_records q)"

lemma streams_numbered:
  assumes "numbered q n" and "records_sized E q"
  shows "numbered_streams E n (streams_of q)"
proof -
  have all: "concat (streams_of q) = all_records q" by (simp add: streams_of_def all_records_def)
  from assms(1) have m: "mset (map record_seq (all_records q)) = mset [0..<n]" by (simp add: numbered_def)
  then have "distinct (map record_seq (all_records q))" by (metis distinct_upt mset_eq_imp_distinct_iff)
  moreover from m have s: "set (map record_seq (all_records q)) = {..<n}" by (metis atLeast0LessThan mset_eq_setD set_upt)
  moreover have "fits_bound E n c" if c: "c \<in> set (streams_of q)" for c
  proof -
    have sub: "set c \<subseteq> set (all_records q)" using c by (auto simp: streams_of_def all_records_def)
    with s have "record_seq r < n" if "r \<in> set c" for r using that by auto
    moreover have "stream_sorted c" using c assms(1) by (auto simp: streams_of_def numbered_def)
    ultimately show ?thesis
      using sub assms by (auto simp: fits_bound_def records_sized_def sized_def numbered_def list_all_iff)
  qed
  ultimately show ?thesis by (simp add: numbered_streams_def all)
qed

lemma project_streams [simp]: "project_record printable (sn\<lparr>sp_streams := ys\<rparr>) = project_record printable sn"
  by (rule ext) (simp add: project_record_def cong: if_cong)

lemma place_start: "place_at E sid (streams_of q) 0 = start_position sid"
  by (simp add: place_at_def start_position_def streams_of_def unread_0)

text \<open>A place and a record stay what they are when the session grows.\<close>

lemma extends_streams:
  assumes "extends q q'"
  obtains ys where "streams_of q' = map2 (@) (streams_of q) ys" "length ys = length (streams_of q)"
proof -
  from assms obtain a b c d where "vs_uart q' = vs_uart q @ a" "vs_operation q' = vs_operation q @ b"
    "vs_hardware q' = vs_hardware q @ c" "vs_connection q' = vs_connection q @ d"
    by (auto simp: extends_def elim!: prefixE)
  then show thesis using that [of "[a, b, c, d]"] by (simp add: streams_of_def)
qed

lemma mset_grown: "length ys = length cs \<Longrightarrow> mset (concat (map2 (@) cs ys)) = mset (concat cs) + mset (concat ys)"
  by (induction ys cs rule: list_induct2) simp_all

lemma grown_later:
  assumes num: "numbered_streams E n cs" and ys: "length ys = length cs"
    and distinct: "distinct (map record_seq (concat (map2 (@) cs ys)))" and r: "r \<in> set (concat ys)"
  shows "n \<le> record_seq r"
proof (rule ccontr)
  assume "\<not> n \<le> record_seq r"
  with num have "record_seq r \<in> set (map record_seq (concat cs))" by (simp add: numbered_streams_def)
  moreover have "mset (map record_seq (concat (map2 (@) cs ys))) = mset (map record_seq (concat cs) @ map record_seq (concat ys))"
    using mset_grown [OF ys] by (metis image_mset_union mset_append mset_map)
  then have "distinct (map record_seq (concat cs) @ map record_seq (concat ys))"
    using distinct mset_eq_imp_distinct_iff by blast
  ultimately show False using r by auto
qed

lemma place_grown:
  assumes num: "numbered_streams E n cs" and ys: "length ys = length cs"
    and distinct: "distinct (map record_seq (concat (map2 (@) cs ys)))" and k: "k \<le> n"
  shows "place_at E sid (map2 (@) cs ys) k = place_at E sid cs k"
proof -
  have "read_upto k (cs ! i @ ys ! i) = read_upto k (cs ! i)" if i: "i < length cs" for i
  proof (rule read_upto_grown)
    have "r \<in> set (concat ys)" if "r \<in> set (ys ! i)" for r using i ys that by auto
    with grown_later [OF num ys distinct] k show "list_all (\<lambda>r. k \<le> record_seq r) (ys ! i)"
      by (fastforce simp: list_all_iff)
  qed
  then show ?thesis using ys by (auto simp: place_at_def intro!: nth_equalityI)
qed

lemma ok_numbered:
  assumes "session_ok E sid q" and "dict_get ''next_evidence_seq'' (vs_metadata q) = PNat n"
  shows "numbered q n"
  using assms by (auto simp: session_ok_def doc_ok_def)

lemma sized_extends: "extends q q' \<Longrightarrow> records_sized E q' \<Longrightarrow> records_sized E q"
  by (auto simp: extends_def records_sized_def sized_def all_records_def elim!: prefixE)

lemma extends_place:
  assumes "extends q q'" and "numbered q n" and "numbered q' n'" and "records_sized E q'" and "k \<le> n"
  shows "place_at E sid (streams_of q') k = place_at E sid (streams_of q) k" and "n \<le> n'"
proof -
  from extends_streams [OF assms(1)] obtain ys where ys: "streams_of q' = map2 (@) (streams_of q) ys"
    "length ys = length (streams_of q)" by blast
  note num = streams_numbered [OF assms(2) sized_extends [OF assms(1,4)]]
  note num' = streams_numbered [OF assms(3,4)]
  then have "distinct (map record_seq (concat (streams_of q')))" by (simp add: numbered_streams_def)
  then show "place_at E sid (streams_of q') k = place_at E sid (streams_of q) k"
    unfolding ys(1) by (rule place_grown [OF num ys(2) _ assms(5)])
  have "mset (concat (streams_of q)) \<subseteq># mset (concat (streams_of q'))" unfolding ys(1) mset_grown [OF ys(2)] by simp
  then have "set (concat (streams_of q)) \<subseteq> set (concat (streams_of q'))" by (metis set_mset_mono set_mset_mset)
  then have "record_seq ` set (concat (streams_of q)) \<subseteq> record_seq ` set (concat (streams_of q'))" by (rule image_mono)
  moreover have "record_seq ` set (concat (streams_of q)) = {..<n}" "record_seq ` set (concat (streams_of q')) = {..<n'}"
    using num num' unfolding numbered_streams_def set_map by blast+
  ultimately have "{..<n} \<subseteq> {..<n'}" by simp
  then show "n \<le> n'" by simp
qed

lemma snapshot_ok:
  assumes "session_ok E sid q" and "S sid = Some q"
  shows "evidence_snapshot E sid S = Inr \<lparr>sp_session = sid, sp_metadata = vs_metadata q, sp_streams = streams_of q,
    sp_lengths = map (file_size E) (streams_of q)\<rparr>"
proof -
  from assms(1) obtain s where "validate_session_id (PStr sid) = Inr s" by (auto simp: session_ok_def valid_id_def)
  with assms show ?thesis by (simp add: evidence_snapshot_def session_ok_def doc_ok_def)
qed

end
