(* ===== verification/Tail_Paging.thy ===== *)
theory Tail_Paging
  imports Tail_Merge
begin

text \<open>
  The properties of the evidence tail: what a page contains, that a cursor survives its way through the client, the
  size of a response, and that following a rollover chain ends.
\<close>

section \<open>Cursors\<close>

lemma b64encode_alphabet: "c \<in> set (b64encode d) \<Longrightarrow> c = CHR ''='' \<or> c \<in> b64_char ` {..<64}"
proof (induction d rule: b64encode.induct)
  case (2 a)
  have "(of_char a :: nat) div 4 < 64" by (simp add: div_less_iff_less_mult)
  with 2 show ?case by (auto simp: Let_def)
next
  case (3 a b)
  have "(of_char a :: nat) div 4 < 64" "(of_char b :: nat) div 16 < 16"
    by (simp_all add: div_less_iff_less_mult)
  moreover from this have "(of_char a :: nat) mod 4 * 16 + of_char b div 16 < 64" by linarith
  ultimately show ?case using 3 by (auto simp: Let_def)
next
  case (4 a b c rest)
  have "(of_char a :: nat) div 4 < 64" "(of_char b :: nat) div 16 < 16" "(of_char c :: nat) div 64 < 4"
    by (simp_all add: div_less_iff_less_mult)
  moreover from this have "(of_char a :: nat) mod 4 * 16 + of_char b div 16 < 64"
    "(of_char b :: nat) mod 16 * 4 + of_char c div 64 < 64" by linarith+
  ultimately show ?case using 4 by (auto simp: Let_def)
qed simp

lemma urlsafe_b64: "map from_urlsafe (map to_urlsafe (b64encode_str d)) = b64encode_str d"
proof -
  have "from_urlsafe (to_urlsafe (of_char c)) = of_char c" if "c \<in> set (b64encode d)" for c
    using b64encode_alphabet [OF that] by (auto simp: from_urlsafe_def to_urlsafe_def b64_char_def)
  then show ?thesis by (simp add: b64encode_str_def lit_def)
qed

lemma utf8_no_zero: "utf8_encode s = Some b \<Longrightarrow> 0 \<notin> set s \<Longrightarrow> CHR 0x00 \<notin> set b"
proof (induction s arbitrary: b)
  case (Cons c s)
  from Cons.prems(1) obtain e b' where e: "utf8_encode_cp c = Some e" "utf8_encode s = Some b'" "b = e @ b'"
    by (auto split: option.splits)
  have "CHR 0x00 \<notin> set e"
  proof
    assume "CHR 0x00 \<in> set e"
    then have "0 \<in> (of_char :: char \<Rightarrow> nat) ` set e" by force
    with e(1) Cons.prems(2) show False
      by (auto simp: utf8_encode_cp_def split: if_splits)
  qed
  with e Cons show ?case by simp
qed simp

lemma escape_no_zero: "0 \<notin> set (escape_char c)"
  by (auto simp: escape_char_def hex_digit_def)

lemma digits_no_zero: "0 \<notin> set (nat_digits n)"
  by (induction n rule: nat_digits.induct) (subst nat_digits.simps, simp)

lemma position_text_no_zero: "0 \<notin> set (dump_value (position_values p))"
proof -
  have join: "0 \<notin> set (join_comma ss)" if "\<forall>s \<in> set ss. 0 \<notin> set s" for ss :: "ustr list"
    using that by (induction ss rule: join_comma.induct) auto
  have "0 \<notin> set (dump_int i)" for i by (simp add: dump_int_def digits_no_zero)
  moreover have "0 \<notin> set (dump_string s)" for s using escape_no_zero by (auto simp: dump_string_def)
  ultimately show ?thesis unfolding position_values_def by (auto simp: intro!: join)
qed

definition small_position :: "position \<Rightarrow> bool" where
  "small_position p \<longleftrightarrow> length (ps_offsets p) = 4 \<and> ps_sequence p < 2 ^ 63 \<and> (\<forall>k \<in> set (ps_offsets p). k < 2 ^ 63)"

lemma cursor_numbers: "\<forall>k \<in> set ks. k < 2 ^ 63 \<Longrightarrow> map_r cursor_number (map PNat ks) = Inr ks"
  by (induction ks) simp_all

lemma position_values_read:
  assumes "small_position p" and "valid_id (ps_session p)"
  shows "position_of_values (position_values p) = Inr p"
proof -
  from assms(2) have id: "validate_session_id (PStr (ps_session p)) = Inr (ps_session p)"
    by (auto simp: valid_id_def validate_session_id_def split: if_splits)
  have "map_r cursor_number (map PNat (ps_sequence p # ps_offsets p)) = Inr (ps_sequence p # ps_offsets p)"
    by (rule cursor_numbers) (use assms(1) in \<open>simp add: small_position_def\<close>)
  with id assms(1) show ?thesis by (simp add: position_of_values_def position_values_def small_position_def)
qed

lemma position_depth: "json_depth (position_values p) = 1"
proof -
  have "foldr (\<lambda>v n. max (json_depth v) n) (map PNat ks) 0 = 0" for ks by (induction ks) simp_all
  then show ?thesis by (simp add: position_values_def)
qed

lemma cursor_values:
  assumes "encode_position p = Inr c" and "1 \<le> depth"
  shows "decode_cursor depth other c = catch_r (\<lambda>e. is_value_error e \<or> (\<exists>s. e = TypeError s))
     (\<lambda>_. InputValidationError ''Invalid evidence cursor'') (position_of_values (position_values p))"
proof -
  from assms(1) obtain t b where t: "json_dumps (position_values p) = Some t" "utf8_encode t = Some b"
    "c = map to_urlsafe (b64encode_str b)"
    by (auto simp: encode_position_def compact_json_def result_simps split: option.splits)
  from t(1) have d: "dumpable (position_values p)" "t = dump_value (position_values p)"
    by (auto simp: json_dumps_def split: if_splits)
  have "CHR 0x00 \<notin> set b" by (rule utf8_no_zero [OF t(2)]) (simp add: d(2) position_text_no_zero)
  moreover have "\<not> head_is 0xFEFF t" using dump_value_head [OF d(1)] d(2) by auto
  moreover have "json_loads depth t = Inr (position_values p)"
    using assms(2) position_depth by (intro json_loads_dumps [OF t(1)]) simp
  ultimately have "json_loads_bytes depth other b = Inr (position_values p)"
    by (simp add: json_loads_bytes_def utf8_decode_encode [OF t(2)])
  then show ?thesis unfolding decode_cursor_def t(3) urlsafe_b64 b64decode_encode by simp
qed

section \<open>The size of a response\<close>

lemma compact_json_dict: "compact_json v = Inr b \<longleftrightarrow> dumpable v \<and> utf8_encode (dump_value v) = Some b"
  by (auto simp: compact_json_def json_dumps_def split: option.splits)

lemma utf8_join: "utf8_encode (s @ t) = Some b \<longleftrightarrow> (\<exists>x y. utf8_encode s = Some x \<and> utf8_encode t = Some y \<and> b = x @ y)"
  unfolding utf8_encode_append by (auto split: option.splits)

definition json_length :: "pyval \<Rightarrow> nat" where
  "json_length v = (case compact_json v of Inr b \<Rightarrow> length b | Inl _ \<Rightarrow> 0)"

definition writable :: "pydict \<Rightarrow> bool" where
  "writable r \<longleftrightarrow> (\<exists>b. compact_json (PDict r) = Inr b)"

lemma comma_byte: "utf8_encode_cp 44 = Some [char_of (44 :: nat)]"
  by (simp add: utf8_encode_cp_def)

lemma records_length:
  "list_all writable rs \<Longrightarrow> \<exists>b. utf8_encode (join_comma (map (dump_value \<circ> PDict) rs)) = Some b
     \<and> length b = (\<Sum>r\<leftarrow>rs. json_length (PDict r)) + (length rs - 1)"
proof (induction rs rule: induct_list012)
  case (2 r)
  then obtain a where a: "compact_json (PDict r) = Inr a" by (auto simp: writable_def)
  then have "utf8_encode (dump_value (PDict r)) = Some a" by (simp only: compact_json_dict)
  with a show ?case by (simp add: json_length_def del: dump_value.simps)
next
  case (3 r r' rs)
  have "list_all writable (r' # rs)" using "3.prems" by simp
  from "3.IH"(2) [OF this] obtain b where b: "utf8_encode (join_comma (map (dump_value \<circ> PDict) (r' # rs))) = Some b"
    "length b = (\<Sum>x\<leftarrow>r' # rs. json_length (PDict x)) + (length (r' # rs) - 1)" by blast
  from "3.prems" obtain a where a: "compact_json (PDict r) = Inr a" by (auto simp: writable_def)
  then have "utf8_encode (dump_value (PDict r)) = Some a" by (simp only: compact_json_dict)
  then have "utf8_encode (join_comma (map (dump_value \<circ> PDict) (r # r' # rs))) = Some (a @ char_of (44 :: nat) # b)"
    using b(1) by (simp add: utf8_encode_append comma_byte del: dump_value.simps)
  moreover have "json_length (PDict r) = length a" using a by (simp add: json_length_def)
  with b(2) have "length (a @ char_of (44 :: nat) # b) = (\<Sum>r\<leftarrow>r # r' # rs. json_length (PDict r)) + (length (r # r' # rs) - 1)"
    by simp
  ultimately show ?case by blast
qed simp

lemma page_length:
  assumes "compact_json (page_payload \<lparr>pg_records = [], pg_next_cursor = c, pg_omitted_records = n\<rparr>) = Inr e"
    and "list_all writable rs"
  shows "\<exists>b. compact_json (page_payload \<lparr>pg_records = rs, pg_next_cursor = c, pg_omitted_records = n\<rparr>) = Inr b
    \<and> length b = length e + (\<Sum>r\<leftarrow>rs. json_length (PDict r)) + (length rs - 1)"
proof -
  define A B :: ustr where
    "A = 123 # dump_string (lit ''ok'') @ 58 # lit ''true'' @ 44 # dump_string (lit ''records'') @ [58, 91]" and
    "B = 93 # 44 # dump_string (lit ''next_cursor'') @ 58 # dump_string c @ 44 # dump_string (lit ''omitted_records'') @ 58
       # dump_int (int n) @ [125]"
  have shape: "dump_value (page_payload \<lparr>pg_records = rs, pg_next_cursor = c, pg_omitted_records = n\<rparr>)
      = A @ join_comma (map (dump_value \<circ> PDict) rs) @ B" for rs
    by (simp add: page_payload_def A_def B_def)
  have ok: "dumpable (page_payload \<lparr>pg_records = rs, pg_next_cursor = c, pg_omitted_records = n\<rparr>)"
    using assms by (simp add: compact_json_dict page_payload_def dict_keys_def list_all_iff writable_def)
  from assms(1) obtain a b where ab: "utf8_encode A = Some a" "utf8_encode B = Some b" "e = a @ b"
    by (auto simp: compact_json_dict shape utf8_join)
  from records_length [OF assms(2)] obtain x where "utf8_encode (join_comma (map (dump_value \<circ> PDict) rs)) = Some x"
    "length x = (\<Sum>r\<leftarrow>rs. json_length (PDict r)) + (length rs - 1)" by blast
  with ab ok show ?thesis by (simp add: compact_json_dict shape utf8_join)
qed

lemma fit_records_page:
  assumes "fit_records records used cursor cands = Inr (out, cur)" and "list_all writable records"
    and "used = (\<Sum>r\<leftarrow>records. json_length (PDict r))"
  shows "\<exists>m \<le> length cands. out = records @ map fst (take m cands) \<and> list_all writable out
    \<and> (m = 0 \<longrightarrow> cur = cursor)
    \<and> (0 < m \<longrightarrow> encode_position (snd (cands ! (m - 1))) = Inr cur
        \<and> (\<exists>b. compact_json (page_payload \<lparr>pg_records = out, pg_next_cursor = cur, pg_omitted_records = length cands - m\<rparr>) = Inr b
              \<and> length b \<le> MAX_EVIDENCE_RESPONSE_BYTES))"
  using assms
proof (induction cands arbitrary: records used cursor)
  case Nil
  then show ?case by auto
next
  case (Cons c rest)
  obtain r p where c: "c = (r, p)" by (cases c)
  from Cons.prems(1) obtain proposed b e where step: "encode_position p = Inr proposed" "compact_json (PDict r) = Inr b"
    "compact_json (page_payload \<lparr>pg_records = [], pg_next_cursor = proposed, pg_omitted_records = length rest\<rparr>) = Inr e"
    and out: "(if MAX_EVIDENCE_RESPONSE_BYTES < length e + (used + length b) + length records then Inr (records, cursor)
         else fit_records (records @ [r]) (used + length b) proposed rest) = Inr (out, cur)"
    by (auto simp: c result_simps simp del: page_payload_def)
  show ?case
  proof (cases "MAX_EVIDENCE_RESPONSE_BYTES < length e + (used + length b) + length records")
    case True
    with out Cons.prems(2) show ?thesis by (intro exI [of _ 0]) simp
  next
    case False
    have w: "list_all writable (records @ [r])" using Cons.prems(2) step(2) by (simp add: writable_def [of r])
    have u: "used + length b = (\<Sum>x\<leftarrow>records @ [r]. json_length (PDict x))"
      using Cons.prems(3) step(2) by (simp add: json_length_def)
    from False out have rec: "fit_records (records @ [r]) (used + length b) proposed rest = Inr (out, cur)" by simp
    from Cons.IH [OF rec w u] obtain m where m: "m \<le> length rest" "out = (records @ [r]) @ map fst (take m rest)"
      "list_all writable out" "m = 0 \<longrightarrow> cur = proposed"
      "0 < m \<longrightarrow> encode_position (snd (rest ! (m - 1))) = Inr cur
        \<and> (\<exists>b. compact_json (page_payload \<lparr>pg_records = out, pg_next_cursor = cur, pg_omitted_records = length rest - m\<rparr>) = Inr b
              \<and> length b \<le> MAX_EVIDENCE_RESPONSE_BYTES)" by blast
    from page_length [OF step(3) w] u False obtain x where
      "compact_json (page_payload \<lparr>pg_records = records @ [r], pg_next_cursor = proposed, pg_omitted_records = length rest\<rparr>) = Inr x"
      "length x \<le> MAX_EVIDENCE_RESPONSE_BYTES" by auto
    with m step(1) show ?thesis by (intro exI [of _ "Suc m"]) (cases m; auto simp: c)
  qed
qed

section \<open>The rollover chain ends\<close>

definition settled :: "exc + 'a \<Rightarrow> bool" where
  "settled r \<longleftrightarrow> r \<noteq> Inl RecursionError"

lemma settled_simps [simp]: "settled (Inr a)" "settled (Inl e) \<longleftrightarrow> e \<noteq> RecursionError"
  by (simp_all add: settled_def)

lemma settled_bind: "settled m \<Longrightarrow> (\<And>a. m = Inr a \<Longrightarrow> settled (f a)) \<Longrightarrow> settled (bind_r m f)"
  by (cases m) (simp_all add: settled_def)

lemma settled_id: "settled (validate_session_id v)"
  by (simp add: validate_session_id_def split: pyval.split)

lemma settled_subscript: "settled (subscript key d)"
  by (simp add: subscript_def split: option.split)

lemma settled_document: "settled (next_sequence_of m)" "settled (successor_of m)" "settled (tail_position sn)"
proof -
  show number: "settled (next_sequence_of m)" for m
    by (simp add: next_sequence_of_def split: option.split pyval.split)
  show "settled (successor_of m)"
    by (auto simp: successor_of_def settled_id intro!: settled_bind split: pyval.split)
  show "settled (tail_position sn)"
    by (auto simp: tail_position_def number intro!: settled_bind)
qed

lemma settled_record: "settled (project_record printable sn r)"
proof -
  have "settled (project_data r)"
    unfolding project_data_def by (rule settled_bind [OF settled_subscript]) (simp split: pyval.split option.split)
  moreover have "settled (record_timestamp m i)" for m i
    unfolding record_timestamp_def
  proof (rule settled_bind [OF settled_subscript])
    fix v
    have index: "settled (case i of PInt i \<Rightarrow> Inr (f i) | PBool b \<Rightarrow> Inr (g b) | _ \<Rightarrow> Inl (TypeError ''list indices must be integers''))"
      for f :: "int \<Rightarrow> int" and g by (cases i) simp_all
    have entry: "settled (case x of PDict s \<Rightarrow> subscript ''timestamp'' s | _ \<Rightarrow> Inl (TypeError ''not subscriptable''))" for x
      by (cases x) (simp_all add: settled_subscript)
    show "settled (case v of
        PList segments \<Rightarrow>
          bind_r (case i of
                    PInt i \<Rightarrow> Inr (if i < 0 then i + int (length segments) else i)
                  | PBool b \<Rightarrow> Inr (if b then 1 else 0)
                  | _ \<Rightarrow> Inl (TypeError ''list indices must be integers'')) (\<lambda>i.
            if i < 0 \<or> int (length segments) \<le> i then Inl KeyError
            else (case segments ! nat i of PDict s \<Rightarrow> subscript ''timestamp'' s | _ \<Rightarrow> Inl (TypeError ''not subscriptable'')))
      | _ \<Rightarrow> Inl (TypeError ''not subscriptable''))"
      by (cases v) (simp_all add: entry settled_bind [OF index])
  qed
  then have "settled (project_place m r)" for m
    unfolding project_place_def by (intro settled_bind settled_subscript) simp_all
  ultimately show ?thesis
    unfolding project_record_def by (intro settled_bind settled_subscript) simp_all
qed

lemma settled_push: "settled (push E bound i rd)"
proof -
  have "settled (read_line E st)" for st by (simp add: read_line_def Let_def split: list.split)
  then show ?thesis by (auto simp: push_def Let_def intro!: settled_bind split: pyval.split)
qed

lemma settled_open: "settled (open_streams E bound ss rd)"
  by (induction ss arbitrary: rd) (auto simp: settled_push intro!: settled_bind split: option.split)

lemma settled_merge: "settled (merge_streams E printable sn bound limit p rd)"
proof (induction limit arbitrary: p rd)
  case 0
  show ?case by (subst merge_streams.simps) (simp add: gap_error_def split: list.split)
next
  case (Suc limit)
  show ?case
    by (subst merge_streams.simps)
      (auto simp: gap_error_def Let_def settled_record settled_push Suc.IH simp del: merge_streams.simps
        intro!: settled_bind split: list.split)
qed

lemma settled_snapshot: "settled (read_snapshot E printable sn p limit)" "settled (evidence_snapshot E sid S)"
proof -
  show "settled (read_snapshot E printable sn p limit)"
    by (auto simp: read_snapshot_def settled_document settled_open settled_merge simp del: merge_streams.simps intro!: settled_bind)
  show "settled (evidence_snapshot E sid S)"
    by (auto simp: evidence_snapshot_def settled_id intro!: settled_bind split: option.split)
qed

lemma evidence_snapshot_dom: "evidence_snapshot E sid S = Inr sn \<Longrightarrow> sid \<in> dom S"
  by (auto simp: evidence_snapshot_def result_simps split: option.splits)

lemma gather_settled:
  assumes "finite (dom S)"
  shows "card (dom S - set visited) < n \<Longrightarrow> settled (gather n E printable S attach limit visited p cands)"
proof (induction n arbitrary: visited p cands attach)
  case (Suc n)
  show ?case
  proof (cases "ps_session p \<in> set visited")
    case False
    have rest: "settled (gather n E printable S attach limit (ps_session p # visited) p' cands')"
      if "evidence_snapshot E (ps_session p) S = Inr sn" for sn p' cands' attach
    proof (rule Suc.IH)
      from evidence_snapshot_dom [OF that] False have "ps_session p \<in> dom S - set visited" by simp
      moreover have "dom S - set (ps_session p # visited) = dom S - set visited - {ps_session p}" by auto
      ultimately have "card (dom S - set (ps_session p # visited)) < card (dom S - set visited)"
        using assms by (metis card_Diff1_less finite_Diff)
      with Suc.prems show "card (dom S - set (ps_session p # visited)) < n" by simp
    qed
    show ?thesis
      by (auto simp: settled_snapshot settled_document rest simp del: merge_streams.simps gather.simps(1)
          intro!: settled_bind split: option.split)
  qed simp
qed simp

lemma gather_enough:
  assumes "settled (gather n E printable S attach limit visited p cands)" and "n \<le> m"
  shows "gather m E printable S attach limit visited p cands = gather n E printable S attach limit visited p cands"
  using assms
proof (induction n arbitrary: m visited p cands attach)
  case (Suc n)
  then obtain k where k: "m = Suc k" "n \<le> k" by (cases m) auto
  note IH = Suc.IH [OF _ k(2)]
  from Suc.prems(1) show ?case unfolding k(1)
    by (auto simp: bind_r_def IH settled_def split: sum.split option.split)
qed simp

section \<open>An example\<close>

text \<open>The session of the demo store after one connection event.\<close>

definition demo_link :: pydict where
  "demo_link = [(lit ''evidence_seq'', PInt 0), (lit ''type'', str_val ''connected''), (lit ''recorded_at'', str_val ''now''),
     (lit ''segment_id'', PInt 0), (lit ''detail'', PDict [])]"

definition demo_linked :: v2_session where
  "demo_linked = (new_v2_session (demo_meta (lit ''s'') None))\<lparr>
     vs_metadata := dict_put ''storage'' (PDict (dict_put ''evidence_bytes_written'' (PInt 103)
         [(lit ''evidence_budget_bytes'', PInt 1048576), (lit ''evidence_bytes_written'', PInt 3), (lit ''metadata_max_bytes'', PInt 262144)]))
       (dict_put ''next_evidence_seq'' (PInt 1) (demo_meta (lit ''s'') None)),
     vs_connection := [demo_link]\<rparr>"

lemma demo_event: "validate_v2_identifier (PStr (lit ''connected'')) = Inr (lit ''connected'')"
  by (simp add: validate_v2_identifier_def py_strip_def lit_def py_isspace_def is_cc_def utf8_encode_cp_def)

lemma demo_appended:
  "\<exists>a s. append_v2_connection_event 0 demo_env (lit ''s'') (lit ''connected'') (Some 0) [] demo_store = (Inr a, s)
     \<and> so_sessions s = [lit ''s'' \<mapsto> demo_linked]"
  by (simp add: append_v2_connection_event_def demo_event update_continuity_def raise_s_def demo_id run demo_env_def
      demo_store_def demo_get demo_linked_def demo_link_def dict_update_def store_defs str_val_def cong: bind_cong)

lemma demo_linked_ok: "session_ok demo_env (lit ''s'') demo_linked" "extends (new_v2_session (demo_meta (lit ''s'') None)) demo_linked"
proof -
  obtain a s where s: "append_v2_connection_event 0 demo_env (lit ''s'') (lit ''connected'') (Some 0) [] demo_store = (Inr a, s)"
    "so_sessions s = [lit ''s'' \<mapsto> demo_linked]" using demo_appended by blast
  have "run_commands 0 demo_env [RecordConnection (lit ''s'') (lit ''connected'') (Some 0) []] demo_store = s"
    by (simp add: ignoring_def bind_s_def return_s_def s(1))
  with good_commands [OF demo_doc good_start [OF demo_ok], of 0 "[RecordConnection (lit ''s'') (lit ''connected'') (Some 0) []]"]
  have "good demo_env (so_sessions demo_store) [lit ''s'' \<mapsto> demo_linked]" by (simp only: s(2))
  then show "session_ok demo_env (lit ''s'') demo_linked" "extends (new_v2_session (demo_meta (lit ''s'') None)) demo_linked"
    by (auto simp: good_def sessions_ok_def demo_store_def dest: spec [of _ "lit ''s''"])
qed

lemma demo_page: "record_at (streams_of demo_linked) 0 = demo_link"
  "records_sized demo_env demo_linked"
  "dict_get ''next_evidence_seq'' (vs_metadata demo_linked) = PNat 1"
  by (simp_all add: record_at_def streams_of_def demo_linked_def new_v2_session_def demo_link_def record_seq_def
     records_sized_def sized_def all_records_def demo_env_def MAX_V2_JSONL_RECORD_BYTES_def)

lemma encoded_s: "\<exists>c. encode_position \<lparr>ps_session = lit ''s'', ps_sequence = 3, ps_offsets = [10, 0, 200, 0]\<rparr> = Inr c"
  by (simp add: encode_position_def compact_json_def position_values_def json_dumps_def MAX_STR_DIGITS_def
      nat_digits.simps dump_int_def dump_string_def escape_char_def utf8_encode_cp_def lit_def)

lemma demo_cursor: "\<exists>c. encode_position (start_position (lit ''s'')) = Inr c"
  by (simp add: encode_position_def compact_json_def position_values_def json_dumps_def MAX_STR_DIGITS_def
      nat_digits.simps dump_int_def dump_string_def escape_char_def utf8_encode_cp_def lit_def start_position_def)


definition demo_item :: pydict where
  "demo_item = [(lit ''session_id'', str_val ''s''), (lit ''evidence_seq'', PInt 0), (lit ''type'', str_val ''connected''),
     (lit ''recorded_at'', str_val ''now''), (lit ''segment_id'', PInt 0)]"

definition demo_place :: position where
  "demo_place = \<lparr>ps_session = lit ''s'', ps_sequence = 1, ps_offsets = [0, 0, 0, 100]\<rparr>"

lemma demo_projected: "sp_session sn = lit ''s'' \<Longrightarrow> project_record (\<lambda>_. True) sn demo_link = Inr demo_item"
proof -
  have "take 128 (lit ''now'') = lit ''now''" by (simp add: lit_def)
  then show "sp_session sn = lit ''s'' \<Longrightarrow> ?thesis"
    by (simp add: project_record_def subscript_def demo_link_def demo_item_def str_val_def SCALAR_MARKERS_def marker_entry_def)
qed

lemma demo_metadata: "dict_get ''successor_session_id'' (vs_metadata demo_linked) = PNone"
  "map_of (vs_metadata demo_linked) (lit ''next_evidence_seq'') = Some (PInt 1)"
  "dict_get ''schema_version'' (vs_metadata demo_linked) = PInt 2"
  using demo_page(3) by (auto simp: dict_get_def [of "''next_evidence_seq''"] split: option.splits)
    (simp_all add: demo_linked_def new_v2_session_def demo_meta_def initial_v2_metadata_def)

lemma demo_gather:
  "\<exists>sn. gather 1 demo_env (\<lambda>_. True) [lit ''s'' \<mapsto> demo_linked] False 5 [] (start_position (lit ''s'')) [] = Inr ([(demo_item, demo_place)], demo_place, sn)"
proof -
  define sn where "sn = \<lparr>sp_session = lit ''s'', sp_metadata = vs_metadata demo_linked, sp_streams = [[], [], [], [demo_link]],
    sp_lengths = [0, 0, 0, 100]\<rparr>"
  have streams: "streams_of demo_linked = [[], [], [], [demo_link]]"
    by (simp add: streams_of_def demo_linked_def new_v2_session_def)
  then have sizes: "map (file_size demo_env) (streams_of demo_linked) = [0, 0, 0, 100]" by (simp add: demo_env_def)
  with streams have found: "evidence_snapshot demo_env (lit ''s'') [lit ''s'' \<mapsto> demo_linked] = Inr sn"
    using snapshot_ok [OF demo_linked_ok(1), of "[lit ''s'' \<mapsto> demo_linked]"] by (simp add: sn_def)
  have sn: "sp_session sn = lit ''s''" "sp_metadata sn = vs_metadata demo_linked" "sp_streams sn = [[], [], [], [demo_link]]"
    "sp_lengths sn = [0, 0, 0, 100]" by (simp_all add: sn_def)
  have place: "place_at demo_env (lit ''s'') (streams_of demo_linked) (Suc 0) = demo_place"
    unfolding streams by (simp add: place_at_def read_upto_def record_seq_def demo_link_def demo_place_def demo_env_def)
  have "next_sequence_of (sp_metadata sn) = Inr (int 1)" by (simp add: sn demo_metadata next_sequence_of_def)
  from read_snapshot_exact [OF streams_numbered [OF ok_numbered [OF demo_linked_ok(1) demo_page(3)] demo_page(2)] _ _ this,
      of "[[], [], [], []]" 0 "\<lambda>_. True" "lit ''s''" 5]
  have "read_snapshot demo_env (\<lambda>_. True) sn (start_position (lit ''s'')) 5 = Inr [(demo_item, demo_place)]"
    by (simp add: place_start [of demo_env _ demo_linked, unfolded streams] streams sn sizes demo_env_def [THEN arg_cong [of _ _ en_jsonl_size]] demo_page(1) [unfolded streams] demo_projected place [unfolded streams])
  with sn found show ?thesis
    by (simp add: start_position_def successor_of_def demo_metadata next_sequence_of_def demo_place_def)
qed

lemma demo_written:
  "case compact_json (PDict demo_item) of Inr b \<Rightarrow> length b \<le> 200 | Inl _ \<Rightarrow> False"
  by code_simp

lemma demo_envelope:
  "case encode_position demo_place of Inl _ \<Rightarrow> False | Inr c \<Rightarrow>
     (case compact_json (page_payload \<lparr>pg_records = [], pg_next_cursor = c, pg_omitted_records = 0\<rparr>) of
        Inr e \<Rightarrow> length e \<le> 1000 | Inl _ \<Rightarrow> False)"
  by code_simp

section \<open>Properties\<close>

text \<open>
  C5: A page of the evidence tail is exact. From the place where the evidence number \<open>k\<close> of a session is next, also
  when that place was computed from an earlier state of the session, a page with a limit is the projection of
  the records \<open>k\<close>, \<open>k + 1\<close>, ... up to the limit or the end of the snapshot, merged from the four streams, each once and in
  order, each paired with the place where its successor is next; whatever is appended to the files while they are read
  (\<open>ys\<close>) makes no difference. The hypothesis is that the records of the files are no longer than the store
  admits.
\<close>

theorem tail_page_exact:
  assumes "session_ok E sid q0" and "session_ok E sid q" and "extends q0 q" and "records_sized E q"
    and "dict_get ''next_evidence_seq'' (vs_metadata q0) = PNat n0" and "k \<le> n0"
    and "dict_get ''next_evidence_seq'' (vs_metadata q) = PNat n"
    and "S sid = Some q" and "length ys = 4"
  shows "\<exists>sn. evidence_snapshot E sid S = Inr sn
    \<and> read_snapshot E printable (sn\<lparr>sp_streams := map2 (@) (sp_streams sn) ys\<rparr>) (place_at E sid (streams_of q0) k) limit =
        bind_r (map_r (project_record printable sn) (map (record_at (streams_of q)) [k..<min n (k + limit)])) (\<lambda>ds.
          Inr (zip ds (map (place_at E sid (streams_of q)) [Suc k..<Suc (min n (k + limit))])))"
proof -
  note n0 = ok_numbered [OF assms(1,5)] and n = ok_numbered [OF assms(2,7)]
  note place = extends_place [OF assms(3) n0 n assms(4,6)]
  let ?sn = "\<lparr>sp_session = sid, sp_metadata = vs_metadata q, sp_streams = streams_of q, sp_lengths = map (file_size E) (streams_of q)\<rparr>"
  have four: "length ys = length (streams_of q)" using assms(9) by (simp add: streams_of_def)
  have "map_of (vs_metadata q) (lit ''next_evidence_seq'') = Some (PNat n)"
    using assms(7) by (auto simp: dict_get_def split: option.splits)
  then have seq: "next_sequence_of (vs_metadata q) = Inr (int n)" by (simp add: next_sequence_of_def)
  have "k \<le> n" using assms(6) place(2) by simp
  from read_snapshot_exact [OF streams_numbered [OF n assms(4)] four this, of "?sn\<lparr>sp_streams := map2 (@) (streams_of q) ys\<rparr>"]
  have "read_snapshot E printable (?sn\<lparr>sp_streams := map2 (@) (sp_streams ?sn) ys\<rparr>) (place_at E sid (streams_of q0) k) limit =
      bind_r (map_r (project_record printable ?sn) (map (record_at (streams_of q)) [k..<min n (k + limit)])) (\<lambda>ds.
        Inr (zip ds (map (place_at E sid (streams_of q)) [Suc k..<Suc (min n (k + limit))])))"
    unfolding place(1) project_streams by (simp add: seq)
  with snapshot_ok [of E sid q S, OF assms(2,8)] show ?thesis by blast
qed

theorem tail_page_exact_witness:
  "\<exists>sn d p. evidence_snapshot demo_env (lit ''s'') [lit ''s'' \<mapsto> demo_linked] = Inr sn
     \<and> read_snapshot demo_env (\<lambda>_. True) (sn\<lparr>sp_streams := map2 (@) (sp_streams sn) [[], [], [], [demo_link]]\<rparr>)
         (start_position (lit ''s'')) 5 = Inr [(d, p)]
     \<and> dict_get ''evidence_seq'' d = PNat 0 \<and> ps_sequence p = 1"
proof -
  let ?q = "new_v2_session (demo_meta (lit ''s'') None)"
  have ok: "session_ok demo_env (lit ''s'') ?q" using demo_ok by (simp add: sessions_ok_def demo_store_def)
  have next0: "dict_get ''next_evidence_seq'' (vs_metadata ?q) = PNat 0" by (simp add: new_v2_session_def demo_get)
  obtain sn where sn: "evidence_snapshot demo_env (lit ''s'') [lit ''s'' \<mapsto> demo_linked] = Inr sn"
    "read_snapshot demo_env (\<lambda>_. True) (sn\<lparr>sp_streams := map2 (@) (sp_streams sn) [[], [], [], [demo_link]]\<rparr>)
         (place_at demo_env (lit ''s'') (streams_of ?q) 0) 5 =
       bind_r (map_r (project_record (\<lambda>_. True) sn) (map (record_at (streams_of demo_linked)) [0..<min 1 (0 + 5)])) (\<lambda>ds.
          Inr (zip ds (map (place_at demo_env (lit ''s'') (streams_of demo_linked)) [Suc 0..<Suc (min 1 (0 + 5))])))"
    using tail_page_exact [OF ok demo_linked_ok demo_page(2) next0 order_refl demo_page(3),
        of "[lit ''s'' \<mapsto> demo_linked]" "[[], [], [], [demo_link]]" "\<lambda>_. True" 5] by auto
  obtain d where "project_record (\<lambda>_. True) sn demo_link = Inr d" "dict_get ''evidence_seq'' d = PNat 0"
    by (simp add: project_record_def subscript_def demo_link_def str_val_def)
  with sn have "read_snapshot demo_env (\<lambda>_. True) (sn\<lparr>sp_streams := map2 (@) (sp_streams sn) [[], [], [], [demo_link]]\<rparr>)
       (start_position (lit ''s'')) 5 = Inr [(d, place_at demo_env (lit ''s'') (streams_of demo_linked) 1)]"
    by (simp add: place_start demo_page(1))
  moreover have "ps_sequence (place_at demo_env (lit ''s'') (streams_of demo_linked) 1) = 1" by (simp add: place_at_def)
  ultimately show ?thesis using sn(1) \<open>dict_get ''evidence_seq'' d = PNat 0\<close> by blast
qed

text \<open>
  C39: A cursor is exact: what \<open>encode\<close> makes of a position, \<open>_decode\<close> reads back as the same position, for every
  session id the store accepts and numbers below \<open>2^63\<close>.
\<close>

theorem tail_cursor_roundtrip:
  assumes "encode_position p = Inr c" and "valid_id (ps_session p)" and "small_position p" and "1 \<le> depth"
  shows "decode_cursor depth other c = Inr p"
  unfolding cursor_values [OF assms(1,4)] by (simp add: position_values_read [OF assms(3,2)])

theorem tail_cursor_roundtrip_witness:
  "\<exists>c. decode_cursor 1 (\<lambda>_. Inl (ValueError '''')) c = Inr \<lparr>ps_session = lit ''s'', ps_sequence = 3, ps_offsets = [10, 0, 200, 0]\<rparr>"
proof -
  obtain c where "encode_position \<lparr>ps_session = lit ''s'', ps_sequence = 3, ps_offsets = [10, 0, 200, 0]\<rparr> = Inr c"
    using encoded_s by blast
  from tail_cursor_roundtrip [OF this, of 1 "\<lambda>_. Inl (ValueError '''')"] show ?thesis
    by (auto simp: valid_id_def demo_id small_position_def)
qed

text \<open>
  C6: A response stays within its byte limit, exactly: a page that carries records is at most
  \<open>MAX_EVIDENCE_RESPONSE_BYTES\<close> bytes of JSON, although the reader never serialises it but adds up the sizes of its
  parts. It carries a non-empty beginning of the records found, whole, counts the others as omitted, and its cursor is the place after the
  last record it carries, so nothing is skipped.
\<close>

theorem tail_response_bounded:
  assumes "read_evidence_page n E printable depth other S (Some c) tail_session limit = Inr pg" and "pg_records pg \<noteq> []"
  shows "\<exists>b p0 cands p sn m. compact_json (page_payload pg) = Inr b \<and> length b \<le> MAX_EVIDENCE_RESPONSE_BYTES
    \<and> decode_cursor depth other c = Inr p0 \<and> gather n E printable S False limit [] p0 [] = Inr (cands, p, sn)
    \<and> 0 < m \<and> m \<le> length cands \<and> pg_records pg = map fst (take m cands)
    \<and> encode_position (snd (cands ! (m - 1))) = Inr (pg_next_cursor pg) \<and> pg_omitted_records pg = length cands - m"
proof -
  from assms(1) obtain p0 cands p sn records cursor cursor' where
    start: "decode_cursor depth other c = Inr p0" "gather n E printable S False limit [] p0 [] = Inr (cands, p, sn)"
    and fit: "fit_records [] 0 c cands = Inr (records, cursor)"
    and cursor: "(if cands \<noteq> [] then Inr cursor
        else if tail_session \<noteq> None \<and> tail_session \<noteq> Some (ps_session p)
                \<and> dict_get ''state'' (sp_metadata sn) \<noteq> str_val ''active'' then Inl EvidenceCursorExpired
        else encode_position p) = Inr cursor'"
    and pg: "pg = \<lparr>pg_records = records, pg_next_cursor = cursor', pg_omitted_records = length cands - length records\<rparr>"
    by (auto simp: read_evidence_page_def bind_r_eq_Inr simp del: if_split)
  have cursor': "cands \<noteq> [] \<Longrightarrow> cursor' = cursor" using cursor by simp
  from fit_records_page [OF fit] obtain m where m: "m \<le> length cands" "records = map fst (take m cands)"
    "0 < m \<longrightarrow> encode_position (snd (cands ! (m - 1))) = Inr cursor
        \<and> (\<exists>b. compact_json (page_payload \<lparr>pg_records = records, pg_next_cursor = cursor, pg_omitted_records = length cands - m\<rparr>) = Inr b
              \<and> length b \<le> MAX_EVIDENCE_RESPONSE_BYTES)" by auto
  with assms(2) pg have "0 < m" "cands \<noteq> []" "length records = m" by auto
  with m cursor' pg start show ?thesis by auto
qed

theorem tail_response_bounded_witness:
  "\<exists>c pg b. read_evidence_page 1 demo_env (\<lambda>_. True) 1 (\<lambda>_. Inl (ValueError [])) [lit ''s'' \<mapsto> demo_linked] (Some c) None 5 = Inr pg
     \<and> pg_records pg = [demo_item] \<and> compact_json (page_payload pg) = Inr b \<and> length b \<le> MAX_EVIDENCE_RESPONSE_BYTES"
proof -
  obtain c where c: "encode_position (start_position (lit ''s'')) = Inr c" using demo_cursor by blast
  have "decode_cursor 1 (\<lambda>_. Inl (ValueError [])) c = Inr (start_position (lit ''s''))"
    unfolding cursor_values [OF c order_refl]
    by (subst position_values_read) (simp_all add: small_position_def start_position_def valid_id_def demo_id)
  moreover obtain sn where "gather 1 demo_env (\<lambda>_. True) [lit ''s'' \<mapsto> demo_linked] False 5 [] (start_position (lit ''s'')) []
      = Inr ([(demo_item, demo_place)], demo_place, sn)" using demo_gather by blast
  moreover obtain c' where "fit_records [] 0 c [(demo_item, demo_place)] = Inr ([demo_item], c')"
    using demo_written demo_envelope by (auto simp: MAX_EVIDENCE_RESPONSE_BYTES_def split: sum.splits)
  ultimately have pg: "read_evidence_page 1 demo_env (\<lambda>_. True) 1 (\<lambda>_. Inl (ValueError [])) [lit ''s'' \<mapsto> demo_linked] (Some c) None 5
      = Inr \<lparr>pg_records = [demo_item], pg_next_cursor = c', pg_omitted_records = 0\<rparr>"
    by (simp add: read_evidence_page_def del: gather.simps fit_records.simps)
  obtain b where "compact_json (page_payload \<lparr>pg_records = [demo_item], pg_next_cursor = c', pg_omitted_records = 0\<rparr>) = Inr b"
    "length b \<le> MAX_EVIDENCE_RESPONSE_BYTES"
    using tail_response_bounded [OF pg] by auto
  with pg show ?thesis by (intro exI conjI) simp_all
qed

text \<open>
  C40: Following the rollover chain ends, also when the successors the documents name form a cycle or lead nowhere: for a finite store,
  with more rounds than it has sessions, the loop has its result (records, or an error the code raises) and
  more rounds do not change it.
\<close>

theorem tail_chain_ends:
  assumes "finite (dom S)" and "card (dom S) < n" and "n \<le> m"
  shows "gather n E printable S attach limit [] p [] \<noteq> Inl RecursionError
    \<and> gather m E printable S attach limit [] p [] = gather n E printable S attach limit [] p []"
proof -
  have "settled (gather n E printable S attach limit [] p [])"
    using gather_settled [OF assms(1), of "[]"] assms(2) by simp
  with gather_enough [OF _ assms(3)] show ?thesis by (auto simp: settled_def)
qed

theorem tail_chain_ends_witness:
  "gather 2 demo_env (\<lambda>_. True) [lit ''s'' \<mapsto> demo_linked] False 5 [] (start_position (lit ''s'')) [] \<noteq> Inl RecursionError
   \<and> gather 9 demo_env (\<lambda>_. True) [lit ''s'' \<mapsto> demo_linked] False 5 [] (start_position (lit ''s'')) []
     = gather 2 demo_env (\<lambda>_. True) [lit ''s'' \<mapsto> demo_linked] False 5 [] (start_position (lit ''s'')) []"
  by (rule tail_chain_ends) simp_all

end
