(* ===== verification/Spec2Isabelle.thy ===== *)
theory Spec2Isabelle
  imports Uart_Processor Monitor Ndjson_Stream Gpio_Config Transaction_Atomicity
    Device_Actions Log_Replay Dut_Profile Evidence_Records Recorder_Properties Tail_Paging
begin

text \<open>
  DUTchMate is a bench tool: it watches the UART of a device under test (DUT), drives its reset and
  boot lines, and keeps everything it saw and did as evidence on disk. This development models its Device Core,
  the Python package under \<open>core/src/dutchmate_core\<close>, and proves what makes each part correct. File names
  below are relative to that package.

  \<^bold>\<open>How the parts interact.\<close> The debug helper sends newline-delimited JSON frames over a
  serial line. The frame parser turns the bytes into device messages, the Enhanced adapter turns these into
  backend events, and the capture processor cuts the bytes of every segment and channel into lines and
  scans them for patterns. The session store writes the received bytes, their lines and
  matches, and every attempt to act on the device as numbered records, each with the changed metadata
  document as one transaction; when the byte budget of a session is spent the store rolls over to a successor.
  The continuous recorder owns the serial source: it writes every event, action and change of the connection into the
  store, publishes how far the evidence is durable, and follows the connection through release, reconnect and faults.
  Readers (Monitor, log replay) compute their views from the stored events with the same line buffer, and
  a client follows the durable evidence in pages, with a cursor that says where the next one begins.
  Actions on the device pass the registry of configured GPIO roles and are recorded before they are made.

  \<^bold>\<open>Which theory models which file.\<close>
  \<^item> \<open>Prelude\<close>: bytes, text, Python values and dictionaries, exceptions as a sum type, searches; the
    collections of simp rules. \<open>Codecs\<close>: UTF-8 and base64 of the standard library.
    \<open>Json\<close>, \<open>Json_Roundtrip\<close>: the \<open>json\<close> module, whose reader undoes its writer.
  \<^item> \<open>Line_Buffer\<close>: \<open>uart_capture/line_buffer.py\<close>. \<open>Keyed_Buffers\<close>: the dictionary of
    buffers that three components hold, as a locale with one interpretation for each. \<open>Uart_Processor\<close>:
    \<open>uart_capture/processor.py\<close>. \<open>Patterns\<close>: \<open>log_processing/patterns.py\<close>.
    \<open>Monitor\<close>: \<open>operations/monitor.py\<close>.
  \<^item> \<open>Protocol\<close>, \<open>Ndjson_Stream\<close>: \<open>device_connection/\<close> (messages, parser, commands, transport
    checks, stream). \<open>Contracts\<close>, \<open>Enhanced_Backend\<close>: \<open>backends/contracts.py\<close>,
    \<open>backends/enhanced.py\<close> and \<open>workflows/capture.py\<close>.
  \<^item> \<open>Validation\<close>: \<open>validation.py\<close>. \<open>Gpio_Modes\<close>, \<open>Gpio_Config\<close>: \<open>gpio_config/\<close>.
    \<open>Device_Actions\<close>, \<open>Uart_Send\<close>: \<open>workflows/\<close>. \<open>Dut_Profile\<close>: \<open>profile/\<close> with
    the selection of a backend. \<open>Diagnostics\<close>: \<open>diagnostics.py\<close>.
  \<^item> \<open>Storage\<close>, \<open>Transactions\<close>, \<open>Transaction_Recovery\<close>, \<open>Transaction_Atomicity\<close>:
    \<open>session_store/persistence.py\<close> and \<open>session_store/transactions.py\<close> over a model of files and
    system calls that may fail or crash.
  \<^item> \<open>Session_Metadata\<close>, \<open>Evidence_Records\<close>, \<open>Log_Replay\<close>: \<open>session_store/metadata.py\<close>,
    \<open>evidence.py\<close> and \<open>log_replay.py\<close>.
  \<^item> \<open>Store_Records\<close>, \<open>Evidence_Store\<close>, \<open>Store_Operations\<close>: \<open>session_store/store.py\<close>, the readers of
    the document, the commit of a unit with rollover and the end of a session, and the public operations.
    \<open>Store_Invariant\<close>, \<open>Store_Safety\<close>, \<open>Store_Commands\<close>, \<open>Store_Reachable\<close>: their verification.
  \<^item> \<open>Evidence_Recorder\<close>: \<open>evidence/recorder.py\<close>; \<open>Recorder_Safety\<close>, \<open>Recorder_Properties\<close>: its
    verification on top of the store's. \<open>Evidence_Tail\<close>: \<open>session_store/tail.py\<close> and \<open>evidence/tail.py\<close>;
    \<open>Tail_Merge\<close>, \<open>Tail_Paging\<close>: its verification.

  Every operation of the code is one definition with the code's name (without the leading underscore), and
  its guards stand in the code's order. State is passed explicitly. An exception is a value of the type
  \<open>exc\<close>, whose constructors are the exception classes; texts of messages are abbreviated
  where nothing depends on them.

  \<^bold>\<open>What the lemmas show.\<close> The line buffer reports the lines of the stream however it is cut into
  events, with exact coordinates; the processor does so for every segment and channel, and Monitor and the
  replay agree with it. The frame parser is independent of chunking, and commands read back. A commit unit survives
  crashes at every system call, with one exception that is proved as a finding. Over any sequence of commands,
  failing steps and rollovers, the store keeps its invariant and loses no evidence. Over any sequence of steps of the
  recorder, the tail it publishes is durable, and bytes that were read are stored or the recorder faults. The pages a client
  reads of this evidence hold every record once and in order, while the session grows, and fit into their response. No action on the device
  is made without a stored attempt. The proofs of the store rest on a small Hoare logic whose
  contracts for appending and rolling over are proved together, by induction on the depth of calls.

  \<^bold>\<open>Bounds and fuel.\<close> \<open>scan_value\<close> has fuel for the length of the text, which the round trip shows to
  be enough, and a depth that stands for Python's recursion limit. Appending and rolling over call each
  other; the depth \<open>n\<close> of \<open>append_v2_record\<close> stands for the same limit and beyond it
  the model raises \<open>RecursionError\<close>; theorems hold for every \<open>n\<close>. System calls and steps of the store follow a
  schedule, a list whose end means that all further calls work; theorems hold for every schedule. \<open>gather\<close> visits at most \<open>n\<close> sessions of a rollover chain, which
  is proved to be enough when \<open>n\<close> is larger than the number of sessions. All other
  loops are structural or have a termination proof.

  \<^bold>\<open>Parameters.\<close> The clock, new identifiers, the SHA-256 digest, the serialised size of a
  record, the text of an exception, the serial device and its transport are arguments. The one assumption
  on them is that the empty pattern document has the three bytes the code's constant says.

  \<^bold>\<open>Not modelled.\<close> Threads and locks: each operation is what the code does under its lock, and a run is any order of
  these steps; that a waiting thread wakes up is not shown. The serial
  backends, which are system calls around pyserial. The recovery of stale sessions at start-up above
  the recovery of transactions, the retention of old sessions with the leases of readers, and the paged retrieval of
  whole sessions for the apps. The service, the command line, the MCP server and the debug agent are clients of the Device Core.
\<close>

end
